(* ===== verification/Prelude.thy ===== *)
theory Prelude
  imports Main
begin

text \<open>
  What every component of the development shares: the outcome type of code that can panic,
  the loops over it, a few facts about lists and sums, and the collections of rewrite rules
  the component proofs draw on.

  A Rust \<open>Result<T, E>\<close> is the sum \<open>'e + 'a\<close>, \<open>Inl\<close> for the error.  A Rust \<open>Option\<close> is
  \<open>'a option\<close>.  A function that can panic (here always: a \<open>str\<close> slice at an index that is not
  a character boundary) returns an \<open>'a run\<close>.
\<close>

section \<open>Collections\<close>

named_theorems str_simps \<open>unfolding rules for the string operations\<close>
named_theorems canon_defs \<open>definitions of the canonicalisation steps\<close>
named_theorems deny_defs \<open>definitions of the deny-list steps\<close>

section \<open>Panics as values\<close>

datatype 'a run = Ret 'a | Panic

fun bind_run :: "'a run \<Rightarrow> ('a \<Rightarrow> 'b run) \<Rightarrow> 'b run" where
  "bind_run (Ret x) f = f x"
| "bind_run Panic f = Panic"

lemma bind_run_eq_Ret [simp]:
  "bind_run m f = Ret y \<longleftrightarrow> (\<exists>x. m = Ret x \<and> f x = Ret y)"
  by (cases m) auto

lemma bind_run_eq_Panic:
  "bind_run m f = Panic \<longleftrightarrow> m = Panic \<or> (\<exists>x. m = Ret x \<and> f x = Panic)"
  by (cases m) auto

lemma bind_run_assoc: "bind_run (bind_run m f) g = bind_run m (\<lambda>x. bind_run (f x) g)"
  by (cases m) auto

lemma bind_run_Ret [simp]: "bind_run m Ret = m"
  by (cases m) auto

lemma bind_run_cong [fundef_cong]:
  assumes "m = m'" and "\<And>x. m' = Ret x \<Longrightarrow> f x = g x"
  shows "bind_run m f = bind_run m' g"
  using assms by (cases m') auto

lemma map_run_eq_Ret [simp]: "map_run f m = Ret y \<longleftrightarrow> (\<exists>x. m = Ret x \<and> y = f x)"
  by (cases m) auto

lemma map_run_eq_Panic [simp]: "map_run f m = Panic \<longleftrightarrow> m = Panic"
  by (cases m) auto

text \<open>A \<open>for\<close> loop whose body may panic: the results in order, or the first panic.\<close>

fun traverse :: "('a \<Rightarrow> 'b run) \<Rightarrow> 'a list \<Rightarrow> 'b list run" where
  "traverse f [] = Ret []"
| "traverse f (x # xs) = bind_run (f x) (\<lambda>y. bind_run (traverse f xs) (\<lambda>ys. Ret (y # ys)))"

lemma traverse_eq_Ret: "traverse f xs = Ret ys \<longleftrightarrow> list_all2 (\<lambda>x y. f x = Ret y) xs ys"
  by (induction xs arbitrary: ys) (auto simp: list_all2_Cons1)

lemma traverse_eq_Panic: "traverse f xs = Panic \<longleftrightarrow> (\<exists>x \<in> set xs. f x = Panic)"
proof (induction xs)
  case (Cons x xs)
  then show ?case by (cases "f x"; cases "traverse f xs") simp_all
qed simp

lemma traverse_total:
  "(\<And>x. x \<in> set xs \<Longrightarrow> f x \<noteq> Panic) \<Longrightarrow> traverse f xs \<noteq> Panic"
proof (induction xs)
  case Nil
  then show ?case by simp
next
  case (Cons x xs)
  from Cons.prems have "f x \<noteq> Panic" by simp
  then obtain y where "f x = Ret y" by (cases "f x") auto
  moreover from Cons have "traverse f xs \<noteq> Panic" by simp
  then obtain ys where "traverse f xs = Ret ys" by (cases "traverse f xs") auto
  ultimately show ?case by simp
qed

lemma traverse_ret_each:
  "traverse f xs = Ret ys \<Longrightarrow> x \<in> set xs \<Longrightarrow> \<exists>y \<in> set ys. f x = Ret y"
  by (induction xs arbitrary: ys) auto

lemma traverse_ret_origin:
  "traverse f xs = Ret ys \<Longrightarrow> y \<in> set ys \<Longrightarrow> \<exists>x \<in> set xs. f x = Ret y"
  by (induction xs arbitrary: ys) auto

lemma traverse_total_Ret:
  "(\<And>x. x \<in> set xs \<Longrightarrow> f x = Ret (g x)) \<Longrightarrow> traverse f xs = Ret (map g xs)"
  by (induction xs) auto

text \<open>A \<open>for\<close> loop that updates a state and may panic, and how an invariant passes through it.\<close>

fun fold_run :: "('a \<Rightarrow> 's \<Rightarrow> 's run) \<Rightarrow> 'a list \<Rightarrow> 's \<Rightarrow> 's run" where
  "fold_run f [] s = Ret s"
| "fold_run f (x # xs) s = bind_run (f x s) (fold_run f xs)"

lemma fold_run_invariant:
  assumes "fold_run f xs s = Ret t" and "P s"
    and "\<And>x s t. x \<in> set xs \<Longrightarrow> P s \<Longrightarrow> f x s = Ret t \<Longrightarrow> P t"
  shows "P t"
  using assms
proof (induction xs arbitrary: s)
  case (Cons x xs)
  from Cons.prems(1) obtain u where u: "f x s = Ret u" and rest: "fold_run f xs u = Ret t" by auto
  have "P u" by (rule Cons.prems(3) [of x s]) (use u Cons.prems(2) in simp_all)
  show ?case
    by (rule Cons.IH [OF rest \<open>P u\<close>], rule Cons.prems(3)) simp_all
qed simp

text \<open>A step that establishes \<open>Q\<close>, which every later step keeps, leaves \<open>Q\<close> at the end.\<close>

lemma fold_run_reaches:
  assumes "fold_run f xs s = Ret t" and "x \<in> set xs"
    and "\<And>s t. f x s = Ret t \<Longrightarrow> Q t"
    and "\<And>y s t. y \<in> set xs \<Longrightarrow> Q s \<Longrightarrow> f y s = Ret t \<Longrightarrow> Q t"
  shows "Q t"
  using assms
proof (induction xs arbitrary: s)
  case (Cons y xs)
  from Cons.prems(1) obtain u where u: "f y s = Ret u" and rest: "fold_run f xs u = Ret t" by auto
  have later: "Q t'" if "z \<in> set xs" "Q s'" "f z s' = Ret t'" for z s' t'
    by (rule Cons.prems(4) [of z s']) (use that in simp_all)
  show ?case
  proof (cases "x = y")
    case True
    with u Cons.prems(3) have "Q u" by blast
    show ?thesis by (rule fold_run_invariant [where P = Q, OF rest \<open>Q u\<close>]) (rule later)
  next
    case False
    with Cons.prems(2) have "x \<in> set xs" by simp
    show ?thesis
      by (rule Cons.IH [OF rest \<open>x \<in> set xs\<close>], erule Cons.prems(3), rule later)
  qed
qed simp

section \<open>Results\<close>

fun err_of :: "'e + 'a \<Rightarrow> 'e option" where
  "err_of (Inl e) = Some e"
| "err_of (Inr x) = None"

lemma err_of_None [simp]: "err_of r = None \<longleftrightarrow> (\<exists>x. r = Inr x)"
  by (cases r) auto

lemma err_of_Some [simp]: "err_of r = Some e \<longleftrightarrow> r = Inl e"
  by (cases r) auto

section \<open>Indexed iteration\<close>

text \<open>\<open>iter().enumerate()\<close>: every element with its position.\<close>

definition enumerated :: "'a list \<Rightarrow> (nat \<times> 'a) list" where
  "enumerated xs = zip [0..<length xs] xs"

lemma set_enumerated: "set (enumerated xs) = {(i, xs ! i) | i. i < length xs}"
  by (force simp: enumerated_def set_zip)

lemma snd_set_enumerated [simp]: "snd ` set (enumerated xs) = set xs"
  by (simp add: enumerated_def flip: set_map)

lemma map_snd_enumerated [simp]: "map snd (enumerated xs) = xs"
  by (simp add: enumerated_def)

lemma enumerated_Nil [simp]: "enumerated [] = []"
  by (simp add: enumerated_def)

lemma enumerated_member: "x \<in> set xs \<Longrightarrow> \<exists>i. (i, x) \<in> set (enumerated xs)"
  by (auto simp: set_enumerated in_set_conv_nth)

lemma enumerated_memberD: "(i, x) \<in> set (enumerated xs) \<Longrightarrow> x \<in> set xs"
  by (auto simp: set_enumerated)

text \<open>What holds of every element, whatever its position, holds along the iteration.\<close>

lemma ball_enumerated:
  "(\<And>i x. Q i x \<longleftrightarrow> P x) \<Longrightarrow> (\<forall>(i, x) \<in> set (enumerated xs). Q i x) \<longleftrightarrow> (\<forall>x \<in> set xs. P x)"
  by (auto dest: enumerated_member enumerated_memberD)

section \<open>Lists\<close>

text \<open>\<open>find_map\<close>: the first answer.\<close>

fun find_map :: "('a \<Rightarrow> 'b option) \<Rightarrow> 'a list \<Rightarrow> 'b option" where
  "find_map f [] = None"
| "find_map f (x # xs) = (case f x of Some y \<Rightarrow> Some y | None \<Rightarrow> find_map f xs)"

lemma find_map_None [simp]: "find_map f xs = None \<longleftrightarrow> (\<forall>x \<in> set xs. f x = None)"
  by (induction xs) (auto split: option.splits)

lemma find_map_SomeD: "find_map f xs = Some y \<Longrightarrow> \<exists>x \<in> set xs. f x = Some y"
  by (induction xs) (auto split: option.splits)

lemma concat_eq_Nil_iff: "concat xss = [] \<longleftrightarrow> (\<forall>xs \<in> set xss. xs = [])"
  by (induction xss) auto

lemma takeWhile_no_stop: "x \<in> set (takeWhile P xs) \<Longrightarrow> P x"
  by (induction xs) (auto split: if_splits)

lemma set_dropWhile_subset: "set (dropWhile P xs) \<subseteq> set xs"
  by (induction xs) auto

lemma dropWhile_rev_last:
  "rev (dropWhile P (rev xs)) \<noteq> [] \<Longrightarrow> \<not> P (last (rev (dropWhile P (rev xs))))"
  by (simp add: last_rev hd_dropWhile)

end
