(* ===== verification/Rust_Str.thy ===== *)
theory Rust_Str
  imports Prelude "HOL-Library.Char_ord" "HOL-Library.List_Lexorder"
begin

text \<open>
  The \<open>str\<close> operations of Rust's standard library that the program calls.  A \<open>str\<close> is its
  UTF-8 bytes, a list of \<open>char\<close>, each an 8-bit byte: \<open>len\<close> is \<open>length\<close>, an index is a byte
  index, and slicing at an index inside a multi-byte character panics.  The ASCII operations
  work byte by byte, as the library documents them.

  A path literal is written with \<open>/\<close> and read through \<open>win\<close>, which turns every \<open>/\<close> into the
  backslash the code writes.
\<close>

abbreviation backslash :: char where
  "backslash \<equiv> CHR 0x5C"

definition win :: "string \<Rightarrow> string" where
  "win s = map (\<lambda>c. if c = CHR ''/'' then backslash else c) s"

section \<open>Bytes\<close>

definition is_upper_byte :: "char \<Rightarrow> bool" where
  "is_upper_byte c \<longleftrightarrow> 65 \<le> (of_char c :: nat) \<and> (of_char c :: nat) \<le> 90"

definition is_lower_byte :: "char \<Rightarrow> bool" where
  "is_lower_byte c \<longleftrightarrow> 97 \<le> (of_char c :: nat) \<and> (of_char c :: nat) \<le> 122"

definition is_digit_byte :: "char \<Rightarrow> bool" where
  "is_digit_byte c \<longleftrightarrow> 48 \<le> (of_char c :: nat) \<and> (of_char c :: nat) \<le> 57"

definition is_alphabetic_byte :: "char \<Rightarrow> bool" where
  "is_alphabetic_byte c \<longleftrightarrow> is_upper_byte c \<or> is_lower_byte c"

definition is_hexdigit_byte :: "char \<Rightarrow> bool" where
  "is_hexdigit_byte c \<longleftrightarrow> is_digit_byte c
     \<or> 65 \<le> (of_char c :: nat) \<and> (of_char c :: nat) \<le> 70
     \<or> 97 \<le> (of_char c :: nat) \<and> (of_char c :: nat) \<le> 102"

definition is_ascii_byte :: "char \<Rightarrow> bool" where
  "is_ascii_byte c \<longleftrightarrow> (of_char c :: nat) < 128"

text \<open>A UTF-8 continuation byte: the bytes a character boundary never precedes.\<close>

definition is_continuation_byte :: "char \<Rightarrow> bool" where
  "is_continuation_byte c \<longleftrightarrow> 128 \<le> (of_char c :: nat) \<and> (of_char c :: nat) < 192"

definition upper_byte :: "char \<Rightarrow> char" where
  "upper_byte c = (if is_lower_byte c then char_of ((of_char c :: nat) - 32) else c)"

definition lower_byte :: "char \<Rightarrow> char" where
  "lower_byte c = (if is_upper_byte c then char_of ((of_char c :: nat) + 32) else c)"

text \<open>On a literal byte each of these is decided by its bits, which keeps evaluation cheap.\<close>

lemma is_upper_byte_bits [simp, code]:
  "is_upper_byte (Char b0 b1 b2 b3 b4 b5 b6 b7) \<longleftrightarrow>
     \<not> b7 \<and> b6 \<and> \<not> b5 \<and> (b0 \<or> b1 \<or> b2 \<or> b3 \<or> b4) \<and> \<not> (b4 \<and> b3 \<and> (b2 \<or> b1 \<and> b0))"
  by (cases b0; cases b1; cases b2; cases b3; cases b4; cases b5; cases b6; cases b7)
     (simp_all add: is_upper_byte_def)

lemma is_lower_byte_bits [simp, code]:
  "is_lower_byte (Char b0 b1 b2 b3 b4 b5 b6 b7) \<longleftrightarrow>
     \<not> b7 \<and> b6 \<and> b5 \<and> (b0 \<or> b1 \<or> b2 \<or> b3 \<or> b4) \<and> \<not> (b4 \<and> b3 \<and> (b2 \<or> b1 \<and> b0))"
  by (cases b0; cases b1; cases b2; cases b3; cases b4; cases b5; cases b6; cases b7)
     (simp_all add: is_lower_byte_def)

lemma is_digit_byte_bits [simp, code]:
  "is_digit_byte (Char b0 b1 b2 b3 b4 b5 b6 b7) \<longleftrightarrow>
     \<not> b7 \<and> \<not> b6 \<and> b5 \<and> b4 \<and> (b3 \<longrightarrow> \<not> b2 \<and> \<not> b1)"
  by (cases b0; cases b1; cases b2; cases b3; cases b4; cases b5; cases b6; cases b7)
     (simp_all add: is_digit_byte_def)

lemma is_ascii_byte_bits [simp, code]:
  "is_ascii_byte (Char b0 b1 b2 b3 b4 b5 b6 b7) \<longleftrightarrow> \<not> b7"
  by (cases b0; cases b1; cases b2; cases b3; cases b4; cases b5; cases b6; cases b7)
     (simp_all add: is_ascii_byte_def)

lemma is_continuation_byte_bits [simp, code]:
  "is_continuation_byte (Char b0 b1 b2 b3 b4 b5 b6 b7) \<longleftrightarrow> b7 \<and> \<not> b6"
  by (cases b0; cases b1; cases b2; cases b3; cases b4; cases b5; cases b6; cases b7)
     (simp_all add: is_continuation_byte_def)

lemma lower_byte_bits [simp, code]:
  "lower_byte (Char b0 b1 b2 b3 b4 b5 b6 b7) =
     (if is_upper_byte (Char b0 b1 b2 b3 b4 b5 b6 b7) then Char b0 b1 b2 b3 b4 True b6 b7
      else Char b0 b1 b2 b3 b4 b5 b6 b7)"
  by (cases b0; cases b1; cases b2; cases b3; cases b4; cases b5; cases b6; cases b7)
     (simp_all add: lower_byte_def char_of_def bit_0)

lemma upper_byte_bits [simp, code]:
  "upper_byte (Char b0 b1 b2 b3 b4 b5 b6 b7) =
     (if is_lower_byte (Char b0 b1 b2 b3 b4 b5 b6 b7) then Char b0 b1 b2 b3 b4 False b6 b7
      else Char b0 b1 b2 b3 b4 b5 b6 b7)"
  by (cases b0; cases b1; cases b2; cases b3; cases b4; cases b5; cases b6; cases b7)
     (simp_all add: upper_byte_def char_of_def bit_0)

lemma upper_upper_byte [simp]: "upper_byte (upper_byte c) = upper_byte c"
  by (cases c) auto

lemma lower_lower_byte [simp]: "lower_byte (lower_byte c) = lower_byte c"
  by (cases c) auto

lemma lower_upper_byte [simp]: "lower_byte (upper_byte c) = lower_byte c"
  by (cases c) auto

lemma upper_lower_byte [simp]: "upper_byte (lower_byte c) = upper_byte c"
  by (cases c) auto

lemma upper_byte_not_lower [simp]: "\<not> is_lower_byte (upper_byte c)"
  by (cases c) auto

lemma upper_byte_id: "\<not> is_lower_byte c \<Longrightarrow> upper_byte c = c"
  by (simp add: upper_byte_def)

lemma upper_byte_alpha:
  "is_upper_byte c \<or> is_lower_byte c \<Longrightarrow> is_upper_byte (upper_byte c)"
  by (cases c) auto

lemma upper_byte_upper: "is_upper_byte c \<Longrightarrow> upper_byte c = c"
  by (cases c) auto

lemma is_continuation_upper [simp]: "is_continuation_byte (upper_byte c) = is_continuation_byte c"
  by (cases c) auto

lemma is_digit_upper [simp]: "is_digit_byte (upper_byte c) = is_digit_byte c"
  by (cases c) auto

lemma is_ascii_upper [simp]: "is_ascii_byte (upper_byte c) = is_ascii_byte c"
  by (cases c) auto

lemma is_ascii_not_continuation: "is_ascii_byte c \<Longrightarrow> \<not> is_continuation_byte c"
  by (cases c) auto

text \<open>The case operations leave every byte that is not a letter alone, in both directions.\<close>

lemma upper_byte_eq_nonletter:
  "\<not> is_alphabetic_byte d \<Longrightarrow> upper_byte c = d \<longleftrightarrow> c = d"
  by (cases c; cases d) (auto simp: is_alphabetic_byte_def)

lemma is_alphabetic_upper [simp]: "is_alphabetic_byte (upper_byte c) = is_alphabetic_byte c"
  by (cases c) (auto simp: is_alphabetic_byte_def)

section \<open>ASCII case\<close>

definition to_ascii_uppercase :: "string \<Rightarrow> string" where
  "to_ascii_uppercase s = map upper_byte s"

definition to_ascii_lowercase :: "string \<Rightarrow> string" where
  "to_ascii_lowercase s = map lower_byte s"

definition eq_ignore_ascii_case :: "string \<Rightarrow> string \<Rightarrow> bool" where
  "eq_ignore_ascii_case a b \<longleftrightarrow> to_ascii_lowercase a = to_ascii_lowercase b"

text \<open>
  What a case folding promises, and what a comparison through one then is: an equivalence
  that a fold of either side does not disturb.
\<close>

locale case_fold =
  fixes fold_case :: "string \<Rightarrow> string"
  assumes fold_idem: "fold_case (fold_case s) = fold_case s"
    and fold_length: "length (fold_case s) = length s"
    and fold_same: "fold_case a = fold_case b \<longleftrightarrow> eq_ignore_ascii_case a b"
begin

lemma eq_ic_refl: "eq_ignore_ascii_case a a"
  using fold_same by blast

lemma eq_ic_sym: "eq_ignore_ascii_case a b \<Longrightarrow> eq_ignore_ascii_case b a"
  using fold_same by metis

lemma eq_ic_trans:
  "eq_ignore_ascii_case a b \<Longrightarrow> eq_ignore_ascii_case b c \<Longrightarrow> eq_ignore_ascii_case a c"
  using fold_same by metis

lemma eq_ic_fold_left: "eq_ignore_ascii_case (fold_case a) b \<longleftrightarrow> eq_ignore_ascii_case a b"
  using fold_same fold_idem by metis

lemma eq_ic_fold_right: "eq_ignore_ascii_case a (fold_case b) \<longleftrightarrow> eq_ignore_ascii_case a b"
  using fold_same fold_idem by metis

lemma eq_ic_length: "eq_ignore_ascii_case a b \<Longrightarrow> length a = length b"
  using fold_same fold_length by metis

lemma eq_ic_normal: "fold_case a = a \<Longrightarrow> fold_case b = b \<Longrightarrow> eq_ignore_ascii_case a b \<longleftrightarrow> a = b"
  using fold_same by metis

end

lemma map_upper_eq_iff: "map upper_byte a = map upper_byte b \<longleftrightarrow> map lower_byte a = map lower_byte b"
proof
  assume "map upper_byte a = map upper_byte b"
  then have "map lower_byte (map upper_byte a) = map lower_byte (map upper_byte b)" by simp
  then show "map lower_byte a = map lower_byte b" by (simp add: comp_def)
next
  assume "map lower_byte a = map lower_byte b"
  then have "map upper_byte (map lower_byte a) = map upper_byte (map lower_byte b)" by simp
  then show "map upper_byte a = map upper_byte b" by (simp add: comp_def)
qed

interpretation upper: case_fold to_ascii_uppercase
  by unfold_locales
     (simp_all add: to_ascii_uppercase_def to_ascii_lowercase_def eq_ignore_ascii_case_def
       comp_def map_upper_eq_iff)

interpretation lower: case_fold to_ascii_lowercase
  by unfold_locales
     (simp_all add: to_ascii_lowercase_def eq_ignore_ascii_case_def comp_def)

lemmas eq_ic_simps [simp] =
  upper.eq_ic_refl upper.eq_ic_fold_left upper.eq_ic_fold_right
  lower.eq_ic_fold_left lower.eq_ic_fold_right

lemma to_ascii_uppercase_Nil [simp]: "to_ascii_uppercase s = [] \<longleftrightarrow> s = []"
  by (simp add: to_ascii_uppercase_def)

lemma to_ascii_uppercase_empty [simp]: "to_ascii_uppercase [] = []"
  by (simp add: to_ascii_uppercase_def)

lemma to_ascii_uppercase_Cons:
  "to_ascii_uppercase (c # s) = upper_byte c # to_ascii_uppercase s"
  by (simp add: to_ascii_uppercase_def)

lemma to_ascii_uppercase_idem [simp]:
  "to_ascii_uppercase (to_ascii_uppercase s) = to_ascii_uppercase s"
  by (rule upper.fold_idem)

lemma length_to_ascii_uppercase [simp]: "length (to_ascii_uppercase s) = length s"
  by (rule upper.fold_length)

lemma eq_ic_upper_literal:
  "to_ascii_uppercase w = w \<Longrightarrow> to_ascii_uppercase a = a \<Longrightarrow> eq_ignore_ascii_case a w \<longleftrightarrow> a = w"
  by (rule upper.eq_ic_normal)

lemma eq_ic_Cons [simp]:
  "eq_ignore_ascii_case (c # a) (d # b) \<longleftrightarrow> lower_byte c = lower_byte d \<and> eq_ignore_ascii_case a b"
  by (simp add: eq_ignore_ascii_case_def to_ascii_lowercase_def)

lemma eq_ic_Nil [simp]: "eq_ignore_ascii_case [] s \<longleftrightarrow> s = []" "eq_ignore_ascii_case s [] \<longleftrightarrow> s = []"
  by (auto simp: eq_ignore_ascii_case_def to_ascii_lowercase_def)

section \<open>Character boundaries and slices\<close>

definition is_char_boundary :: "string \<Rightarrow> nat \<Rightarrow> bool" where
  "is_char_boundary s n \<longleftrightarrow>
     n = 0 \<or> n = length s \<or> (n < length s \<and> \<not> is_continuation_byte (s ! n))"

text \<open>\<open>&s[..n]\<close> and \<open>&s[n..]\<close>.\<close>

definition slice_to :: "string \<Rightarrow> nat \<Rightarrow> string run" where
  "slice_to s n = (if is_char_boundary s n then Ret (take n s) else Panic)"

definition slice_from :: "string \<Rightarrow> nat \<Rightarrow> string run" where
  "slice_from s n = (if is_char_boundary s n then Ret (drop n s) else Panic)"

definition ascii_str :: "string \<Rightarrow> bool" where
  "ascii_str s \<longleftrightarrow> list_all is_ascii_byte s"

lemma is_char_boundary_ascii: "ascii_str s \<Longrightarrow> n \<le> length s \<Longrightarrow> is_char_boundary s n"
  by (auto simp: is_char_boundary_def ascii_str_def list_all_length is_ascii_not_continuation)

lemma slice_to_ascii [simp]: "ascii_str s \<Longrightarrow> n \<le> length s \<Longrightarrow> slice_to s n = Ret (take n s)"
  by (simp add: slice_to_def is_char_boundary_ascii)

lemma slice_to_eq_Ret [simp]:
  "slice_to s n = Ret t \<longleftrightarrow> is_char_boundary s n \<and> t = take n s"
  by (auto simp: slice_to_def)

lemma slice_to_eq_Panic [simp]: "slice_to s n = Panic \<longleftrightarrow> \<not> is_char_boundary s n"
  by (simp add: slice_to_def)

lemma ascii_str_Nil [simp]: "ascii_str []"
  by (simp add: ascii_str_def)

lemma ascii_str_Cons [simp]: "ascii_str (c # s) \<longleftrightarrow> is_ascii_byte c \<and> ascii_str s"
  by (simp add: ascii_str_def)

lemma ascii_str_append [simp]: "ascii_str (a @ b) \<longleftrightarrow> ascii_str a \<and> ascii_str b"
  by (simp add: ascii_str_def)

lemma ascii_str_subset: "set a \<subseteq> set b \<Longrightarrow> ascii_str b \<Longrightarrow> ascii_str a"
  by (auto simp: ascii_str_def list_all_iff)

lemma ascii_str_upper [simp]: "ascii_str (to_ascii_uppercase s) = ascii_str s"
  by (simp add: ascii_str_def to_ascii_uppercase_def list.pred_map comp_def)

section \<open>Prefixes, suffixes and searching\<close>

fun starts_with :: "string \<Rightarrow> string \<Rightarrow> bool" where
  "starts_with s [] = True"
| "starts_with [] (p # ps) = False"
| "starts_with (c # s) (p # ps) = (c = p \<and> starts_with s ps)"

definition ends_with :: "string \<Rightarrow> string \<Rightarrow> bool" where
  "ends_with s p = starts_with (rev s) (rev p)"

definition strip_prefix :: "string \<Rightarrow> string \<Rightarrow> string option" where
  "strip_prefix s p = (if starts_with s p then Some (drop (length p) s) else None)"

definition strip_suffix :: "string \<Rightarrow> string \<Rightarrow> string option" where
  "strip_suffix s p = (if ends_with s p then Some (take (length s - length p) s) else None)"

lemma starts_with_iff: "starts_with s p \<longleftrightarrow> (\<exists>r. s = p @ r)"
  by (induction s p rule: starts_with.induct) auto

lemma starts_with_append [simp]: "starts_with (p @ r) p"
  by (auto simp: starts_with_iff)

lemma starts_with_take: "starts_with s p \<longleftrightarrow> length p \<le> length s \<and> take (length p) s = p"
  by (induction s p rule: starts_with.induct) auto

lemma ends_with_iff: "ends_with s p \<longleftrightarrow> (\<exists>r. s = r @ p)"
proof
  assume "ends_with s p"
  then obtain r where "rev s = rev p @ r" by (auto simp: ends_with_def starts_with_iff)
  then have "s = rev r @ p" by (metis rev_append rev_rev_ident)
  then show "\<exists>r. s = r @ p" ..
next
  assume "\<exists>r. s = r @ p"
  then show "ends_with s p" by (auto simp: ends_with_def)
qed

lemma strip_prefix_Some: "strip_prefix s p = Some r \<longleftrightarrow> s = p @ r"
  by (auto simp: strip_prefix_def starts_with_iff)

lemma strip_suffix_Some: "strip_suffix s p = Some r \<longleftrightarrow> s = r @ p"
  by (auto simp: strip_suffix_def ends_with_iff)

text \<open>\<open>find\<close>: the byte index of the first occurrence.\<close>

fun find_sub :: "string \<Rightarrow> string \<Rightarrow> nat option" where
  "find_sub [] p = (if p = [] then Some 0 else None)"
| "find_sub (c # s) p =
     (if starts_with (c # s) p then Some 0 else map_option Suc (find_sub s p))"

definition contains_sub :: "string \<Rightarrow> string \<Rightarrow> bool" where
  "contains_sub s p \<longleftrightarrow> find_sub s p \<noteq> None"

lemma find_sub_Some: "find_sub s p = Some n \<Longrightarrow> \<exists>a b. s = a @ p @ b \<and> length a = n"
proof (induction s arbitrary: n)
  case Nil
  then show ?case by (auto split: if_splits)
next
  case (Cons c s)
  show ?case
  proof (cases "starts_with (c # s) p")
    case True
    with Cons.prems show ?thesis by (auto simp: starts_with_iff intro!: exI [of _ "[]"])
  next
    case False
    with Cons.prems obtain m where "find_sub s p = Some m" and n: "n = Suc m" by auto
    with Cons.IH obtain a b where "s = a @ p @ b" "length a = m" by blast
    with n have "c # s = (c # a) @ p @ b \<and> length (c # a) = n" by simp
    then show ?thesis by blast
  qed
qed

lemma contains_sub_iff: "contains_sub s p \<longleftrightarrow> (\<exists>a b. s = a @ p @ b)"
proof
  assume "contains_sub s p"
  then show "\<exists>a b. s = a @ p @ b"
    by (auto simp: contains_sub_def dest!: find_sub_Some)
next
  have "find_sub (p @ b) p \<noteq> None" for b
    using starts_with_append [of p b] by (cases "p @ b") auto
  then have "find_sub (a @ p @ b) p \<noteq> None" for a b
    by (induction a) auto
  then show "\<exists>a b. s = a @ p @ b \<Longrightarrow> contains_sub s p"
    by (auto simp: contains_sub_def)
qed

text \<open>\<open>rfind\<close> of one ASCII byte, as the text after its last occurrence.\<close>

definition after_last :: "char \<Rightarrow> string \<Rightarrow> string option" where
  "after_last c s = (if c \<in> set s then Some (rev (takeWhile (\<lambda>d. d \<noteq> c) (rev s))) else None)"

section \<open>Splitting, replacing and trimming\<close>

text \<open>\<open>split\<close> on a set of ASCII bytes: always at least one segment.\<close>

fun split_on :: "(char \<Rightarrow> bool) \<Rightarrow> string \<Rightarrow> string list" where
  "split_on p [] = [[]]"
| "split_on p (c # cs) =
     (if p c then [] # split_on p cs
      else (case split_on p cs of [] \<Rightarrow> [[c]] | s # ss \<Rightarrow> (c # s) # ss))"

abbreviation split_char :: "char \<Rightarrow> string \<Rightarrow> string list" where
  "split_char d \<equiv> split_on (\<lambda>c. c = d)"

lemma split_on_nonempty [simp]: "split_on p s \<noteq> []"
  by (cases s) (auto split: list.splits)

lemma split_on_segments: "seg \<in> set (split_on p s) \<Longrightarrow> c \<in> set seg \<Longrightarrow> c \<in> set s \<and> \<not> p c"
  by (induction s arbitrary: seg) (fastforce split: if_splits list.splits)+

lemma split_on_none: "(\<forall>c \<in> set s. \<not> p c) \<Longrightarrow> split_on p s = [s]"
  by (induction s) auto

lemma split_on_append_sep:
  "p d \<Longrightarrow> split_on p (a @ d # b) = split_on p a @ split_on p b"
proof (induction a)
  case Nil
  then show ?case by simp
next
  case (Cons c a)
  show ?case
  proof (cases "p c")
    case True
    with Cons show ?thesis by simp
  next
    case False
    obtain x xs where "split_on p a = x # xs" by (metis split_on_nonempty neq_Nil_conv)
    with Cons False show ?thesis by simp
  qed
qed

text \<open>Joining and splitting at one byte are inverse on segments without it.\<close>

lemma split_char_join:
  "\<forall>c \<in> set (c # cs). d \<notin> set c \<Longrightarrow> split_char d (c @ concat (map (\<lambda>c. d # c) cs)) = c # cs"
proof (induction cs arbitrary: c)
  case Nil
  then show ?case by (auto intro: split_on_none)
next
  case (Cons e cs)
  have "split_char d (c @ d # (e @ concat (map (\<lambda>c. d # c) cs)))
      = split_char d c @ split_char d (e @ concat (map (\<lambda>c. d # c) cs))"
    by (rule split_on_append_sep) simp
  moreover have "split_char d c = [c]"
    using Cons.prems by (auto intro: split_on_none)
  ultimately show ?case using Cons by simp
qed

lemma join_split_char:
  "split_char d s = c # cs \<Longrightarrow> s = c @ concat (map (\<lambda>c. d # c) cs)"
proof (induction s arbitrary: c cs)
  case (Cons b s)
  obtain e es where split: "split_char d s = e # es" by (metis split_on_nonempty neq_Nil_conv)
  then have joined: "s = e @ concat (map (\<lambda>c. d # c) es)" by (rule Cons.IH)
  show ?case
  proof (cases "b = d")
    case True
    with Cons.prems split have "c = []" "cs = e # es" by auto
    with True joined show ?thesis by simp
  next
    case False
    with Cons.prems split have "c = b # e" "cs = es" by auto
    with joined show ?thesis by simp
  qed
qed simp

text \<open>\<open>splitn(3, c)\<close> and its kin: at most \<open>n\<close> pieces, the last one unsplit.\<close>

fun splitn :: "nat \<Rightarrow> char \<Rightarrow> string \<Rightarrow> string list" where
  "splitn 0 d s = []"
| "splitn (Suc 0) d s = [s]"
| "splitn (Suc (Suc n)) d s =
     (let h = takeWhile (\<lambda>c. c \<noteq> d) s
      in if h = s then [s] else h # splitn (Suc n) d (drop (Suc (length h)) s))"

definition replace_byte :: "char \<Rightarrow> char \<Rightarrow> string \<Rightarrow> string" where
  "replace_byte a b s = map (\<lambda>c. if c = a then b else c) s"

definition trim_start_matches :: "(char \<Rightarrow> bool) \<Rightarrow> string \<Rightarrow> string" where
  "trim_start_matches p s = dropWhile p s"

definition trim_end_matches :: "(char \<Rightarrow> bool) \<Rightarrow> string \<Rightarrow> string" where
  "trim_end_matches p s = rev (dropWhile p (rev s))"

definition trim_matches :: "(char \<Rightarrow> bool) \<Rightarrow> string \<Rightarrow> string" where
  "trim_matches p s = trim_end_matches p (trim_start_matches p s)"

lemma set_trim_end_matches: "set (trim_end_matches p s) \<subseteq> set s"
  using set_dropWhile_subset [of p "rev s"] by (simp add: trim_end_matches_def)

lemma trim_end_matches_last:
  "trim_end_matches p s \<noteq> [] \<Longrightarrow> \<not> p (last (trim_end_matches p s))"
  unfolding trim_end_matches_def by (rule dropWhile_rev_last)

lemma trim_end_matches_id:
  "s = [] \<or> \<not> p (last s) \<Longrightarrow> trim_end_matches p s = s"
  by (cases s rule: rev_cases) (auto simp: trim_end_matches_def)

lemma trim_end_matches_snoc:
  "p c \<Longrightarrow> trim_end_matches p (s @ [c]) = trim_end_matches p s"
  by (simp add: trim_end_matches_def)

section \<open>Whitespace\<close>

text \<open>
  \<open>trim\<close> removes Unicode white space: the UTF-8 encodings of the \<open>White_Space\<close> characters,
  the six ASCII ones first.
\<close>

definition white_space :: "string list" where
  "white_space =
     [[CHR 0x20], [CHR 0x09], [CHR 0x0A], [CHR 0x0B], [CHR 0x0C], [CHR 0x0D],
      [CHR 0xC2, CHR 0x85], [CHR 0xC2, CHR 0xA0], [CHR 0xE1, CHR 0x9A, CHR 0x80],
      [CHR 0xE2, CHR 0x80, CHR 0x80], [CHR 0xE2, CHR 0x80, CHR 0x81],
      [CHR 0xE2, CHR 0x80, CHR 0x82], [CHR 0xE2, CHR 0x80, CHR 0x83],
      [CHR 0xE2, CHR 0x80, CHR 0x84], [CHR 0xE2, CHR 0x80, CHR 0x85],
      [CHR 0xE2, CHR 0x80, CHR 0x86], [CHR 0xE2, CHR 0x80, CHR 0x87],
      [CHR 0xE2, CHR 0x80, CHR 0x88], [CHR 0xE2, CHR 0x80, CHR 0x89],
      [CHR 0xE2, CHR 0x80, CHR 0x8A], [CHR 0xE2, CHR 0x80, CHR 0xA8],
      [CHR 0xE2, CHR 0x80, CHR 0xA9], [CHR 0xE2, CHR 0x80, CHR 0xAF],
      [CHR 0xE2, CHR 0x81, CHR 0x9F], [CHR 0xE3, CHR 0x80, CHR 0x80]]"

text \<open>The rest of the text after one of the given encodings at its front, if one is there.\<close>

fun strip_any :: "string list \<Rightarrow> string \<Rightarrow> string option" where
  "strip_any [] s = None"
| "strip_any (e # es) s =
     (if e \<noteq> [] \<and> starts_with s e then Some (drop (length e) s) else strip_any es s)"

lemma strip_any_Some: "strip_any es s = Some r \<Longrightarrow> \<exists>e \<in> set es. e \<noteq> [] \<and> s = e @ r"
  by (induction es) (auto split: if_splits simp: starts_with_iff)

lemma strip_any_shorter: "strip_any es s = Some r \<Longrightarrow> length r < length s"
  by (auto dest!: strip_any_Some)

lemma strip_any_None: "strip_any es s = None \<longleftrightarrow> (\<forall>e \<in> set es. e = [] \<or> \<not> starts_with s e)"
  by (induction es) auto

function trim_front :: "string list \<Rightarrow> string \<Rightarrow> string" where
  "trim_front es s = (case strip_any es s of None \<Rightarrow> s | Some r \<Rightarrow> trim_front es r)"
  by pat_completeness auto
termination
  by (relation "measure (\<lambda>(es, s). length s)") (auto dest: strip_any_shorter)

declare trim_front.simps [simp del]

definition trim_start :: "string \<Rightarrow> string" where
  "trim_start s = trim_front white_space s"

definition trim_end :: "string \<Rightarrow> string" where
  "trim_end s = rev (trim_front (map rev white_space) (rev s))"

definition trim :: "string \<Rightarrow> string" where
  "trim s = trim_end (trim_start s)"

lemma trim_front_stop: "strip_any es s = None \<Longrightarrow> trim_front es s = s"
  by (simp add: trim_front.simps)

lemma trim_front_done: "strip_any es (trim_front es s) = None"
proof (induction es s rule: trim_front.induct)
  case (1 es s)
  then show ?case by (cases "strip_any es s") (simp_all add: trim_front.simps [of es s])
qed

lemma trim_front_idem [simp]: "trim_front es (trim_front es s) = trim_front es s"
  by (rule trim_front_stop) (rule trim_front_done)

lemma trim_front_suffix: "\<exists>w. s = w @ trim_front es s"
proof (induction es s rule: trim_front.induct)
  case (1 es s)
  show ?case
  proof (cases "strip_any es s")
    case None
    then show ?thesis by (simp add: trim_front.simps [of es s])
  next
    case (Some r)
    with 1 obtain w where w: "r = w @ trim_front es r" by blast
    from Some obtain e where e: "s = e @ r" by (auto dest: strip_any_Some)
    from Some have "trim_front es s = trim_front es r" by (simp add: trim_front.simps [of es s])
    with w e have "s = (e @ w) @ trim_front es s" by (metis append_assoc)
    then show ?thesis ..
  qed
qed

text \<open>A text that begins and ends with a printable ASCII byte is already trimmed.\<close>

definition visible_byte :: "char \<Rightarrow> bool" where
  "visible_byte c \<longleftrightarrow> is_ascii_byte c \<and> 32 < (of_char c :: nat)"

lemma white_space_hd: "e \<in> set white_space \<Longrightarrow> e \<noteq> [] \<and> \<not> visible_byte (hd e)"
  by (auto simp: white_space_def visible_byte_def)

lemma white_space_last: "e \<in> set white_space \<Longrightarrow> e \<noteq> [] \<and> \<not> visible_byte (last e)"
  by (auto simp: white_space_def visible_byte_def)

lemma trim_start_visible: "s \<noteq> [] \<Longrightarrow> visible_byte (hd s) \<Longrightarrow> trim_start s = s"
  unfolding trim_start_def
  by (rule trim_front_stop) (auto simp: strip_any_None starts_with_iff dest: white_space_hd)

lemma trim_end_visible: "s \<noteq> [] \<Longrightarrow> visible_byte (last s) \<Longrightarrow> trim_end s = s"
  unfolding trim_end_def
proof (subst trim_front_stop)
  assume ne: "s \<noteq> []" and vis: "visible_byte (last s)"
  show "strip_any (map rev white_space) (rev s) = None"
  proof (unfold strip_any_None, intro ballI disjI2 notI)
    fix e
    assume "e \<in> set (map rev white_space)" and "starts_with (rev s) e"
    then obtain w r where w: "w \<in> set white_space" and "rev s = rev w @ r"
      by (auto simp: starts_with_iff)
    then have "s = rev r @ w" by (metis rev_append rev_rev_ident)
    with w vis show False by (auto dest: white_space_last)
  qed
qed simp

lemma trim_visible:
  "s \<noteq> [] \<Longrightarrow> visible_byte (hd s) \<Longrightarrow> visible_byte (last s) \<Longrightarrow> trim s = s"
  by (simp add: trim_def trim_start_visible trim_end_visible)

lemma set_trim_start: "set (trim_start s) \<subseteq> set s"
  using trim_front_suffix [of s white_space] unfolding trim_start_def
  by (metis Un_upper2 set_append)

lemma set_trim_end: "set (trim_end s) \<subseteq> set s"
  using trim_front_suffix [of "rev s" "map rev white_space"] unfolding trim_end_def
  by (metis Un_upper2 set_append set_rev)

lemma set_trim: "set (trim s) \<subseteq> set s"
  unfolding trim_def using set_trim_start set_trim_end by blast

lemma trim_Nil [simp]: "trim [] = []"
  using set_trim [of "[]"] by simp

text \<open>On ASCII text \<open>trim\<close> removes the six ASCII blanks and nothing else.\<close>

definition ascii_blank :: "char \<Rightarrow> bool" where
  "ascii_blank c \<longleftrightarrow> c \<in> {CHR 0x20, CHR 0x09, CHR 0x0A, CHR 0x0B, CHR 0x0C, CHR 0x0D}"

lemma strip_any_leading:
  "list_all (\<lambda>e. e \<noteq> [] \<and> (is_ascii_byte (hd e) \<longrightarrow> tl e = [])) es \<Longrightarrow> is_ascii_byte c \<Longrightarrow>
   strip_any es (c # s) = (if [c] \<in> set es then Some s else None)"
proof (induction es)
  case (Cons e es)
  then show ?case by (cases e) auto
qed simp

lemma white_space_leading:
  "list_all (\<lambda>e. e \<noteq> [] \<and> (is_ascii_byte (hd e) \<longrightarrow> tl e = [])) white_space"
  "list_all (\<lambda>e. e \<noteq> [] \<and> (is_ascii_byte (hd e) \<longrightarrow> tl e = [])) (map rev white_space)"
  by code_simp+

lemma white_space_single:
  "[c] \<in> set white_space \<longleftrightarrow> ascii_blank c" "[c] \<in> set (map rev white_space) \<longleftrightarrow> ascii_blank c"
  by (simp_all add: white_space_def ascii_blank_def)

lemma strip_any_ascii:
  assumes "es = white_space \<or> es = map rev white_space" and "is_ascii_byte c"
  shows "strip_any es (c # s) = (if ascii_blank c then Some s else None)"
  using assms strip_any_leading [OF white_space_leading(1), of c s]
    strip_any_leading [OF white_space_leading(2), of c s]
  by (auto simp only: white_space_single)

lemma trim_front_ascii:
  assumes "es = white_space \<or> es = map rev white_space"
  shows "ascii_str s \<Longrightarrow> trim_front es s = dropWhile ascii_blank s"
proof (induction s)
  case Nil
  have "strip_any es [] = None" by (cases "strip_any es []") (auto dest: strip_any_shorter)
  then show ?case by (simp add: trim_front_stop)
next
  case (Cons c s)
  with strip_any_ascii [OF assms, of c s] show ?case
    by (simp add: trim_front.simps [of es "c # s"])
qed

lemma trim_ascii:
  "ascii_str s \<Longrightarrow> trim s = trim_end_matches ascii_blank (dropWhile ascii_blank s)"
proof -
  assume ascii: "ascii_str s"
  then have "ascii_str (rev (dropWhile ascii_blank s))"
    by (rule ascii_str_subset [rotated]) (simp add: set_dropWhile_subset)
  with ascii show ?thesis
    by (simp add: trim_def trim_start_def trim_end_def trim_front_ascii trim_end_matches_def)
qed

section \<open>Numbers in text\<close>

text \<open>\<open>format!("{n}")\<close> of an unsigned integer.\<close>

fun decimal :: "nat \<Rightarrow> string" where
  "decimal n = (if n < 10 then [char_of (48 + n)] else decimal (n div 10) @ [char_of (48 + n mod 10)])"

declare decimal.simps [simp del]

section \<open>Splitting once\<close>

fun rsplit_once :: "string \<Rightarrow> string \<Rightarrow> (string \<times> string) option" where
  "rsplit_once [] p = (if p = [] then Some ([], []) else None)"
| "rsplit_once (c # s) p =
     (case rsplit_once s p of
        Some (a, b) \<Rightarrow> Some (c # a, b)
      | None \<Rightarrow> if starts_with (c # s) p then Some ([], drop (length p) (c # s)) else None)"

definition split_once :: "string \<Rightarrow> string \<Rightarrow> (string \<times> string) option" where
  "split_once s p = map_option (\<lambda>n. (take n s, drop (n + length p) s)) (find_sub s p)"

section \<open>Lines of text\<close>

text \<open>\<open>str::lines\<close>: split after each newline, without it and a carriage return before it.\<close>

definition strip_cr :: "string \<Rightarrow> string" where
  "strip_cr l = (case strip_suffix l [CHR 0x0D] of Some r \<Rightarrow> r | None \<Rightarrow> l)"

definition text_lines :: "string \<Rightarrow> string list" where
  "text_lines s =
     (let parts = split_char (CHR 0x0A) s;
          ended = map strip_cr (butlast parts)
      in if last parts = [] then ended else ended @ [last parts])"

section \<open>Joining\<close>

fun join_with :: "string \<Rightarrow> string list \<Rightarrow> string" where
  "join_with sep [] = []"
| "join_with sep [s] = s"
| "join_with sep (s # t # ss) = s @ sep @ join_with sep (t # ss)"

definition bool_text :: "bool \<Rightarrow> string" where
  "bool_text b = (if b then ''true'' else ''false'')"

end
