(* ===== verification/Schema.thy ===== *)
theory Schema
  imports Rust_Str "HOL-Library.Word"
begin

text \<open>
  The catalog's data model, after \<open>core/src/catalog/schema.rs\<close>: one record per struct with its
  fields in the source's order and prefixed by the struct, one datatype per enum, \<open>u32\<close> and
  \<open>u64\<close> as words.  Reading a catalog from TOML belongs to the \<open>serde\<close> and \<open>toml\<close> packages.
\<close>

definition supported_schema_version :: "32 word" where
  "supported_schema_version = 1"

datatype ac_kind = Kernel | Usermode | Hybrid

datatype risk = Low | Medium | High | Critical

datatype class_of = Install | Data | Config | Service | Cache | Log | Save

datatype view = Bits32 | Bits64 | Both

record path_entry =
  pe_path :: string
  pe_class :: class_of

record registry_entry =
  re_key :: string
  re_view :: view
  re_class :: class_of

datatype uninstall_kind = UninstallExe | UninstallMsi | UninstallNone

record official_uninstall =
  ou_kind :: uninstall_kind
  ou_command :: "string option"
  ou_args :: "string list"
  ou_timeout_secs :: "32 word option"

record shared_evidence =
  titles_observed :: "string list"
  observation_ids :: "string list"
  evidence_note :: "string option"

record anti_cheat =
  ac_id :: string
  ac_display :: string
  ac_vendor :: "string option"
  ac_kind :: ac_kind
  ac_shared :: bool
  ac_shared_evidence :: "shared_evidence option"
  ac_risk :: risk
  ac_authenticode_cn :: "string list"
  ac_file_hashes :: "string list"
  ac_services :: "string list"
  ac_drivers :: "string list"
  ac_paths :: "path_entry list"
  ac_registry :: "registry_entry list"
  ac_tasks :: "string list"
  ac_firewall_rules :: "string list"
  ac_event_sources :: "string list"
  ac_official_uninstall :: "official_uninstall option"

record game =
  game_id :: string
  game_display :: string
  game_publisher :: "string option"
  game_anticheat :: "string list"
  game_platforms :: "string list"
  game_steam_appid :: "64 word option"
  game_epic_app_name :: "string option"
  game_install_hints :: "path_entry list"
  game_residue :: "path_entry list"
  game_saves :: "path_entry list"
  game_registry :: "registry_entry list"

datatype launcher_uninstall_kind =
  LauncherProtocol | LauncherMsi | LauncherMsiFromManifest | LauncherExe | LauncherNone

record launcher_uninstall =
  lu_kind :: launcher_uninstall_kind
  lu_command :: "string option"
  lu_silent :: bool

record launcher_entry =
  launcher_id :: string
  launcher_display :: string
  launcher_detect_registry :: "string option"
  launcher_library_index :: "string option"
  launcher_manifest_glob :: "string option"
  launcher_uninstall :: "launcher_uninstall option"

record catalog =
  schema_version :: "32 word"
  catalog_version :: string
  minimum_app_version :: string
  cat_anticheat :: "anti_cheat list"
  cat_game :: "game list"
  cat_launcher :: "launcher_entry list"

text \<open>An anti-cheat entry with nothing in it, for the examples to fill in.\<close>

definition blank_anti_cheat :: "string \<Rightarrow> anti_cheat" where
  "blank_anti_cheat name =
     \<lparr>ac_id = name, ac_display = name, ac_vendor = None, ac_kind = Usermode, ac_shared = True,
      ac_shared_evidence = None, ac_risk = Low, ac_authenticode_cn = [], ac_file_hashes = [],
      ac_services = [], ac_drivers = [], ac_paths = [], ac_registry = [], ac_tasks = [],
      ac_firewall_rules = [], ac_event_sources = [], ac_official_uninstall = None\<rparr>"

definition blank_game :: "string \<Rightarrow> game" where
  "blank_game name =
     \<lparr>game_id = name, game_display = name, game_publisher = None, game_anticheat = [],
      game_platforms = [], game_steam_appid = None, game_epic_app_name = None,
      game_install_hints = [], game_residue = [], game_saves = [], game_registry = []\<rparr>"

definition blank_catalog :: catalog where
  "blank_catalog =
     \<lparr>schema_version = 1, catalog_version = ''1'', minimum_app_version = ''1'',
      cat_anticheat = [], cat_game = [], cat_launcher = []\<rparr>"

end
