(* ===== verification/Ordered_Map.thy ===== *)
theory Ordered_Map
  imports Main
begin

text \<open>
  Ordered maps and sets, for the code's \<open>BTreeMap\<close> and \<open>BTreeSet\<close>, and the two passes the
  observation tools make over them: index a list by a key, and walk the keys of two indexes
  in order.

  A map is its entries in strictly ascending order of key, as an iteration over it yields
  them.  What the passes rely on is stated once, as the locale \<open>keyed_map\<close>, and interpreted
  on the association lists the models use.
\<close>

section \<open>Maps\<close>

fun btree_insert :: "'k::linorder \<Rightarrow> 'v \<Rightarrow> ('k \<times> 'v) list \<Rightarrow> ('k \<times> 'v) list" where
  "btree_insert k v [] = [(k, v)]"
| "btree_insert k v ((l, w) # m) =
     (if k < l then (k, v) # (l, w) # m
      else if k = l then (k, v) # m
      else (l, w) # btree_insert k v m)"

abbreviation ordered_entries :: "('k::linorder \<times> 'v) list \<Rightarrow> bool" where
  "ordered_entries m \<equiv> sorted_wrt (<) (map fst m)"

lemma map_of_btree_insert [simp]: "map_of (btree_insert k v m) = (map_of m)(k \<mapsto> v)"
  by (induction m) auto

lemma keys_btree_insert [simp]: "fst ` set (btree_insert k v m) = insert k (fst ` set m)"
  by (simp flip: dom_map_of_conv_image_fst)

lemma ordered_btree_insert: "ordered_entries m \<Longrightarrow> ordered_entries (btree_insert k v m)"
proof (induction m)
  case (Cons e m)
  obtain l w where e: "e = (l, w)" by fastforce
  with Cons.prems have later: "x \<in> fst ` set m \<Longrightarrow> l < x" for x by auto
  have "\<forall>x \<in> set (map fst (btree_insert k v m)). l < x" if "l < k"
    using that later by (simp del: set_map add: set_map [of fst "btree_insert k v m"])
  moreover have "\<forall>x \<in> set (map fst m). k < x" if "k < l"
    using that later by (auto intro: less_trans)
  ultimately show ?case
    using Cons e by (cases k l rule: linorder_cases) auto
qed simp

lemma ordered_entries_unique:
  "ordered_entries m \<Longrightarrow> ordered_entries n \<Longrightarrow> map_of m = map_of n \<longleftrightarrow> m = n"
proof
  assume m: "ordered_entries m" and n: "ordered_entries n" and "map_of m = map_of n"
  have keys: "sorted (map fst m)" "distinct (map fst m)" "sorted (map fst n)" "distinct (map fst n)"
    using m n by (simp_all add: strict_sorted_iff)
  with \<open>map_of m = map_of n\<close> have same: "set m = set n" by (simp add: map_of_inject_set)
  moreover from keys(2) have "inj_on fst (set m)" by (simp add: distinct_map)
  ultimately show "m = n"
    using keys by (intro map_sorted_distinct_set_unique [of fst]) simp_all
qed simp

section \<open>The contract of a map\<close>

lemma find_SomeD: "find P xs = Some x \<Longrightarrow> x \<in> set xs \<and> P x"
  by (induction xs) (auto split: if_splits)

locale keyed_map =
  fixes empty :: 'm
    and put :: "'k::linorder \<Rightarrow> 'v \<Rightarrow> 'm \<Rightarrow> 'm"
    and get :: "'m \<Rightarrow> 'k \<Rightarrow> 'v option"
    and keys :: "'m \<Rightarrow> 'k list"
    and ok :: "'m \<Rightarrow> bool"
  assumes get_empty: "get empty = Map.empty"
    and get_put: "get (put k v m) = (get m)(k \<mapsto> v)"
    and keys_get: "set (keys m) = dom (get m)"
    and ok_empty: "ok empty"
    and ok_put: "ok m \<Longrightarrow> ok (put k v m)"
    and keys_ascending: "ok m \<Longrightarrow> sorted_wrt (<) (keys m)"
begin

text \<open>Indexing a list by a key: the last element of each key stays.\<close>

lemma index_ok: "ok m \<Longrightarrow> ok (fold (\<lambda>x. put (key x) (val x)) xs m)"
  by (induction xs arbitrary: m) (auto intro: ok_put)

lemma index_get:
  "get (fold (\<lambda>x. put (key x) (val x)) xs m) k
     = (case find (\<lambda>x. key x = k) (rev xs) of Some x \<Rightarrow> Some (val x) | None \<Rightarrow> get m k)"
proof (induction xs rule: rev_induct)
  case (snoc x xs)
  then show ?case by (simp add: get_put)
qed (simp add: get_empty)

lemma index_get_None:
  "get (fold (\<lambda>x. put (key x) (val x)) xs empty) k = None \<longleftrightarrow> (\<forall>x \<in> set xs. key x \<noteq> k)"
proof (cases "find (\<lambda>x. key x = k) (rev xs)")
  case None
  then have "\<forall>x \<in> set xs. key x \<noteq> k" by (simp add: find_None_iff)
  with None show ?thesis by (simp add: index_get get_empty)
next
  case (Some y)
  with find_SomeD [OF Some] show ?thesis by (auto simp: index_get get_empty)
qed

lemma index_get_Some:
  "get (fold (\<lambda>x. put (key x) (val x)) xs empty) k = Some v \<Longrightarrow> \<exists>x \<in> set xs. key x = k \<and> v = val x"
  by (cases "find (\<lambda>x. key x = k) (rev xs)")
    (use find_SomeD [where P = "\<lambda>x. key x = k" and xs = "rev xs"] in \<open>auto simp: index_get get_empty\<close>)

lemma index_get_only:
  assumes "x \<in> set xs" and "\<And>y. y \<in> set xs \<Longrightarrow> key y = key x \<Longrightarrow> y = x"
  shows "get (fold (\<lambda>x. put (key x) (val x)) xs empty) (key x) = Some (val x)"
proof -
  obtain v where v: "get (fold (\<lambda>x. put (key x) (val x)) xs empty) (key x) = Some v"
    using assms(1) index_get_None [of key val xs "key x"] by fastforce
  with index_get_Some [OF v] assms(2) show ?thesis by fastforce
qed

end

interpretation btree: keyed_map "[]" btree_insert map_of "map fst" ordered_entries
  by unfold_locales (auto simp: dom_map_of_conv_image_fst ordered_btree_insert)

definition index_by :: "('a \<Rightarrow> 'k::linorder) \<Rightarrow> 'a list \<Rightarrow> ('k \<times> 'a) list" where
  "index_by key xs = fold (\<lambda>x. btree_insert (key x) x) xs []"

lemma index_by_None [simp]: "map_of (index_by key xs) k = None \<longleftrightarrow> (\<forall>x \<in> set xs. key x \<noteq> k)"
  using btree.index_get_None [where val = "\<lambda>x. x"] by (simp add: index_by_def)

lemma index_by_Some: "map_of (index_by key xs) k = Some x \<Longrightarrow> x \<in> set xs \<and> key x = k"
  using btree.index_get_Some [where val = "\<lambda>x. x"] by (fastforce simp: index_by_def)

lemma index_by_only:
  "x \<in> set xs \<Longrightarrow> (\<And>y. y \<in> set xs \<Longrightarrow> key y = key x \<Longrightarrow> y = x) \<Longrightarrow>
   map_of (index_by key xs) (key x) = Some x"
  unfolding index_by_def by (rule btree.index_get_only [where val = "\<lambda>x. x"])

lemma index_by_find: "map_of (index_by key xs) k = find (\<lambda>x. key x = k) (rev xs)"
  using btree.index_get [where val = "\<lambda>x. x" and m = "[]" and key = key and xs = xs and k = k]
  by (cases "find (\<lambda>x. key x = k) (rev xs)") (simp_all add: index_by_def)

lemma index_by_ordered: "ordered_entries (index_by key xs)"
  unfolding index_by_def by (rule btree.index_ok) simp

section \<open>Sets in order\<close>

text \<open>A \<open>BTreeSet\<close>: its elements in ascending order, each once.\<close>

definition ordered_set :: "'a::linorder list \<Rightarrow> 'a list" where
  "ordered_set xs = sort (remdups xs)"

lemma set_ordered_set [simp]: "set (ordered_set xs) = set xs"
  by (simp add: ordered_set_def)

lemma ordered_set_ascending: "sorted_wrt (<) (ordered_set xs)"
  by (simp add: ordered_set_def strict_sorted_iff)

lemma ordered_set_eqI: "set xs = set ys \<Longrightarrow> ordered_set xs = ordered_set ys"
  using ordered_set_ascending [of xs] ordered_set_ascending [of ys]
  by (metis set_ordered_set strict_sorted_equal)

section \<open>Two indexes walked together\<close>

text \<open>
  The keys of both maps in order; at each, what the two maps hold decides the change to
  report, if there is one.
\<close>

definition joined ::
    "('k::linorder \<Rightarrow> 'v option \<Rightarrow> 'w option \<Rightarrow> 'c option) \<Rightarrow> ('k \<times> 'v) list \<Rightarrow> ('k \<times> 'w) list \<Rightarrow> 'c list" where
  "joined f a b =
     List.map_filter (\<lambda>k. f k (map_of a k) (map_of b k)) (ordered_set (map fst a @ map fst b))"

lemma set_map_filter [simp]: "set (List.map_filter f xs) = {y. \<exists>x \<in> set xs. f x = Some y}"
  by (force simp: List.map_filter_def)

lemma set_joined:
  assumes "\<And>k. f k None None = None"
  shows "c \<in> set (joined f a b) \<longleftrightarrow> (\<exists>k. f k (map_of a k) (map_of b k) = Some c)"
proof -
  have "k \<in> fst ` set a \<union> fst ` set b" if "f k (map_of a k) (map_of b k) = Some c" for k
    using that assms [of k] by (metis UnCI map_of_eq_None_iff option.distinct(1))
  then show ?thesis unfolding joined_def by simp blast
qed

lemma map_filter_ascending:
  assumes "sorted_wrt (<) ks" and "\<And>k c. f k = Some c \<Longrightarrow> key c = k"
  shows "sorted_wrt (<) (map key (List.map_filter f ks))"
  using assms(1)
proof (induction ks)
  case (Cons k ks)
  then show ?case
    by (cases "f k") (auto simp: List.map_filter_simps dest: assms(2))
qed (simp add: List.map_filter_simps)

lemma joined_ascending:
  assumes "\<And>k x y c. x = map_of a k \<Longrightarrow> y = map_of b k \<Longrightarrow> f k x y = Some c \<Longrightarrow> key c = k"
  shows "sorted_wrt (<) (map key (joined f a b))"
  unfolding joined_def by (rule map_filter_ascending [OF ordered_set_ascending]) (simp add: assms)

text \<open>Swapping the sides mirrors every change.\<close>

lemma map_filter_map: "List.map_filter (\<lambda>x. map_option g (f x)) xs = map g (List.map_filter f xs)"
  by (induction xs) (auto simp: List.map_filter_simps split: option.splits)

lemma joined_flip:
  assumes "\<And>k. f k (map_of b k) (map_of a k) = h k (map_of a k) (map_of b k)"
  shows "joined f b a = joined h a b"
proof -
  have "ordered_set (map fst b @ map fst a) = ordered_set (map fst a @ map fst b)"
    by (rule ordered_set_eqI) auto
  then show ?thesis by (simp add: joined_def assms)
qed

lemma map_joined: "map g (joined f a b) = joined (\<lambda>k x y. map_option g (f k x y)) a b"
  by (simp add: joined_def map_filter_map)

section \<open>Neighbours that agree\<close>

text \<open>\<open>dedup_by_key\<close>: of neighbours with one key, the first stays.\<close>

fun dedup_by_key :: "('a \<Rightarrow> 'k) \<Rightarrow> 'a list \<Rightarrow> 'a list" where
  "dedup_by_key key [] = []"
| "dedup_by_key key [x] = [x]"
| "dedup_by_key key (x # y # ys) =
     (if key y = key x then dedup_by_key key (x # ys) else x # dedup_by_key key (y # ys))"

lemma dedup_by_key_keys: "set (map key (dedup_by_key key xs)) = set (map key xs)"
  by (induction key xs rule: dedup_by_key.induct) auto

lemma dedup_by_key_subset: "set (dedup_by_key key xs) \<subseteq> set xs"
  by (induction key xs rule: dedup_by_key.induct) (auto split: if_splits)

lemma dedup_by_key_ascending:
  "sorted (map key xs) \<Longrightarrow> sorted_wrt (<) (map key (dedup_by_key key xs))"
proof (induction key xs rule: dedup_by_key.induct)
  case (3 key x y ys)
  show ?case
  proof (cases "key y = key x")
    case True
    with 3 show ?thesis by simp
  next
    case False
    from 3(3) have "key x \<le> key y" by simp
    with False have less: "key x < key y" by order
    from 3 False have ih: "sorted_wrt (<) (map key (dedup_by_key key (y # ys)))" by simp
    have "key x < key z" if "z \<in> set (dedup_by_key key (y # ys))" for z
    proof -
      from that dedup_by_key_subset [of key "y # ys"] have "z \<in> set (y # ys)" by blast
      with 3(3) have "key y \<le> key z" by (cases "z = y") simp_all
      with less show ?thesis by order
    qed
    then have "\<forall>k \<in> set (map key (dedup_by_key key (y # ys))). key x < k" by auto
    with False ih show ?thesis by (simp del: set_map)
  qed
qed simp_all

section \<open>Counting\<close>

text \<open>\<open>*counts.entry(k).or_insert(0) += 1\<close> along a list.\<close>

definition bump :: "'k::linorder \<Rightarrow> ('k \<times> nat) list \<Rightarrow> ('k \<times> nat) list" where
  "bump k m = btree_insert k (Suc (case map_of m k of None \<Rightarrow> 0 | Some n \<Rightarrow> n)) m"

definition tally :: "'k::linorder list \<Rightarrow> ('k \<times> nat) list" where
  "tally ks = fold bump ks []"

lemma map_of_fold_bump:
  "map_of (fold bump ks m) k =
     (if k \<in> set ks then Some (count_list ks k + (case map_of m k of None \<Rightarrow> 0 | Some n \<Rightarrow> n)) else map_of m k)"
  by (induction ks arbitrary: m) (auto simp: bump_def split: option.splits)

lemma map_of_tally: "map_of (tally ks) k = (if k \<in> set ks then Some (count_list ks k) else None)"
  by (simp add: tally_def map_of_fold_bump)

lemma tally_ordered: "ordered_entries (tally ks)"
proof -
  have "ordered_entries m \<Longrightarrow> ordered_entries (fold bump ks m)" for m :: "('a \<times> nat) list"
    by (induction ks arbitrary: m) (simp_all add: bump_def ordered_btree_insert)
  then show ?thesis by (simp add: tally_def)
qed

lemma set_tally: "(k, n) \<in> set (tally ks) \<longleftrightarrow> k \<in> set ks \<and> n = count_list ks k"
proof -
  have "distinct (map fst (tally ks))" using tally_ordered strict_sorted_iff by blast
  then have "(k, n) \<in> set (tally ks) \<longleftrightarrow> map_of (tally ks) k = Some n" by (simp add: map_of_eq_Some_iff)
  then show ?thesis by (auto simp: map_of_tally)
qed

end
