(* ===== verification/Paths.thy ===== *)
theory Paths
  imports Rust_Str
begin

text \<open>
  Canonical paths, after \<open>core/src/safety/paths.rs\<close>: the root split, the component loop and
  the rendering of \<open>canonicalise_syntactic\<close>, with every error of \<open>PathError\<close> and the panic its
  byte slices can raise.

  The lemmas show what a canonical path looks like, which spellings share one, that ASCII
  input never panics, and which input does.
\<close>

section \<open>Data\<close>

datatype path_kind = DriveRooted | Unc | Device

datatype path_error =
    EmptyPath
  | EmbeddedNul
  | NotAbsolute string
  | EscapesRoot string
  | MalformedUnc string
  | DotsOnlyComponent string
  | StreamSyntax string

definition path_error_text :: "path_error \<Rightarrow> string" where
  "path_error_text e =
     (case e of
        EmptyPath \<Rightarrow> ''path is empty''
      | EmbeddedNul \<Rightarrow> ''path contains an embedded NUL''
      | NotAbsolute p \<Rightarrow> ''path is not absolute: '' @ p
      | EscapesRoot p \<Rightarrow> ''path escapes its root: '' @ p
      | MalformedUnc p \<Rightarrow> ''malformed UNC path: '' @ p
      | DotsOnlyComponent p \<Rightarrow> ''path has a component made only of dots and spaces: '' @ p
      | StreamSyntax p \<Rightarrow> ''path uses NTFS stream syntax: '' @ p)"

record canonical_path =
  path_text :: string
  kind :: path_kind
  drive :: "char option"
  components :: "string list"
  short_name :: bool
  resolved_via_handle :: bool

definition path_starts_with :: "canonical_path \<Rightarrow> string list \<Rightarrow> bool" where
  "path_starts_with p prefix \<longleftrightarrow>
     length prefix \<le> length (components p)
     \<and> list_all (\<lambda>(want, have). eq_ignore_ascii_case have want) (zip prefix (components p))"

definition path_equals :: "canonical_path \<Rightarrow> string list \<Rightarrow> bool" where
  "path_equals p whole \<longleftrightarrow> length whole = length (components p) \<and> path_starts_with p whole"

section \<open>The root\<close>

text \<open>
  \<open>haystack.len() >= prefix.len() && haystack[..prefix.len()].eq_ignore_ascii_case(prefix)\<close>:
  the slice panics when the byte index falls inside a character.
\<close>

definition strip_prefix_ci :: "string \<Rightarrow> string \<Rightarrow> string option run" where
  "strip_prefix_ci haystack prefix =
     (if length prefix \<le> length haystack
      then bind_run (slice_to haystack (length prefix)) (\<lambda>head.
             Ret (if eq_ignore_ascii_case head prefix
                  then Some (drop (length prefix) haystack) else None))
      else Ret None)"

definition starts_with_globalroot :: "string \<Rightarrow> bool run" where
  "starts_with_globalroot rest =
     bind_run (strip_prefix_ci rest (win ''GLOBALROOT/'')) (\<lambda>stripped.
       Ret (stripped \<noteq> None \<or> eq_ignore_ascii_case rest ''GLOBALROOT''))"

definition drive_root :: "string \<Rightarrow> string \<Rightarrow> path_error + (path_kind \<times> string \<times> string)" where
  "drive_root candidate original =
     (let looks_rooted = 3 \<le> length candidate \<and> is_alphabetic_byte (candidate ! 0)
            \<and> candidate ! 1 = CHR '':'' \<and> candidate ! 2 = backslash;
          bare_drive = length candidate = 2 \<and> is_alphabetic_byte (candidate ! 0)
            \<and> candidate ! 1 = CHR '':''
      in if \<not> looks_rooted \<and> \<not> bare_drive then Inl (NotAbsolute original)
         else Inr (DriveRooted, [upper_byte (candidate ! 0), CHR '':''],
                   if bare_drive then [] else drop 3 candidate))"

definition unc_root :: "string \<Rightarrow> string \<Rightarrow> path_error + (path_kind \<times> string \<times> string)" where
  "unc_root rest original =
     (let parts = splitn 3 backslash rest;
          host = (case parts of h # _ \<Rightarrow> h | [] \<Rightarrow> []);
          share = (case parts of _ # s # _ \<Rightarrow> s | _ \<Rightarrow> []);
          tail = (case parts of _ # _ # t # _ \<Rightarrow> t | _ \<Rightarrow> [])
      in if host = [] \<or> share = [] then Inl (MalformedUnc original)
         else Inr (Unc, win ''//'' @ host @ [backslash] @ share, tail))"

definition split_root ::
    "string \<Rightarrow> (path_error + (path_kind \<times> string \<times> string)) run" where
  "split_root path =
     bind_run (strip_prefix_ci path (win ''//?/UNC/'')) (\<lambda>ext_unc.
       case ext_unc of
         Some rest \<Rightarrow> Ret (unc_root rest path)
       | None \<Rightarrow>
           bind_run (strip_prefix_ci path (win ''//?/'')) (\<lambda>ext.
             case ext of
               Some rest \<Rightarrow>
                 bind_run (starts_with_globalroot rest) (\<lambda>globalroot.
                   if globalroot then Ret (Inr (Device, win ''//?/'', rest))
                   else Ret (drive_root rest path))
             | None \<Rightarrow>
                 bind_run (strip_prefix_ci path (win ''//./'')) (\<lambda>dev.
                   case dev of
                     Some rest \<Rightarrow> Ret (Inr (Device, win ''//./'', rest))
                   | None \<Rightarrow>
                       (case strip_prefix path (win ''/??/'') of
                          Some rest \<Rightarrow> Ret (Inr (Device, win ''/??/'', rest))
                        | None \<Rightarrow>
                            (case strip_prefix path (win ''//'') of
                               Some rest \<Rightarrow> Ret (unc_root rest path)
                             | None \<Rightarrow> Ret (drive_root path path))))))"

section \<open>Components\<close>

text \<open>\<open>NAME~N\<close>: the stem before the first dot ends in a tilde and digits.\<close>

definition is_short_name :: "string \<Rightarrow> bool" where
  "is_short_name segment =
     (case after_last (CHR ''~'') (takeWhile (\<lambda>c. c \<noteq> CHR ''.'') segment) of
        None \<Rightarrow> False
      | Some suffix \<Rightarrow> suffix \<noteq> [] \<and> list_all is_digit_byte suffix)"

definition dot_or_space :: "char \<Rightarrow> bool" where
  "dot_or_space c \<longleftrightarrow> c = CHR ''.'' \<or> c = CHR '' ''"

text \<open>The body of the loop over \<open>rest.split('\\')\<close>, with \<open>out\<close> and \<open>short_name\<close> as its state.\<close>

fun normalise_loop ::
    "string \<Rightarrow> path_kind \<Rightarrow> string list \<Rightarrow> bool \<Rightarrow> string list
       \<Rightarrow> path_error + (string list \<times> bool)" where
  "normalise_loop original k out short [] = Inr (out, short)"
| "normalise_loop original k out short (raw # raws) =
     (if raw = [] \<or> raw = ''.'' then normalise_loop original k out short raws
      else if raw = ''..'' then
        (if out = [] then Inl (EscapesRoot original)
         else normalise_loop original k (butlast out) short raws)
      else
        (let segment = trim_end_matches dot_or_space raw
         in if segment = [] then Inl (DotsOnlyComponent original)
            else if k \<noteq> Device \<and> CHR '':'' \<in> set segment then Inl (StreamSyntax original)
            else normalise_loop original k (out @ [to_ascii_uppercase segment])
                   (short \<or> is_short_name segment) raws))"

definition normalise_components ::
    "string \<Rightarrow> string \<Rightarrow> path_kind \<Rightarrow> path_error + (string list \<times> bool)" where
  "normalise_components rest original k =
     normalise_loop original k [] False (split_char backslash rest)"

definition render :: "path_kind \<Rightarrow> string \<Rightarrow> string list \<Rightarrow> string" where
  "render k root comps =
     root @ (if k = DriveRooted \<and> comps = [] then [backslash] else [])
       @ concat (map (\<lambda>c. backslash # c) comps)"

section \<open>Canonicalisation\<close>

text \<open>The value built from the split root: components, rendering and drive letter.\<close>

definition canonical_of ::
    "string \<Rightarrow> path_kind \<times> string \<times> string \<Rightarrow> path_error + canonical_path" where
  "canonical_of trimmed parts =
     (case parts of (k, root, rest) \<Rightarrow>
        (case normalise_components rest trimmed k of
           Inl e \<Rightarrow> Inl e
         | Inr (comps, short) \<Rightarrow>
             Inr \<lparr>path_text = render k root comps,
                  kind = k,
                  drive = (case k of
                             DriveRooted \<Rightarrow>
                               (case root of c # _ \<Rightarrow> Some (upper_byte c) | [] \<Rightarrow> None)
                           | _ \<Rightarrow> None),
                  components = comps,
                  short_name = short,
                  resolved_via_handle = False\<rparr>))"

definition canonicalise_syntactic :: "string \<Rightarrow> (path_error + canonical_path) run" where
  "canonicalise_syntactic input =
     (if CHR 0x00 \<in> set input then Ret (Inl EmbeddedNul)
      else
        let trimmed = trim (replace_byte (CHR ''/'') backslash input)
        in if trimmed = [] then Ret (Inl EmptyPath)
           else bind_run (split_root trimmed) (\<lambda>split.
                  Ret (case split of
                         Inl e \<Rightarrow> Inl e
                       | Inr parts \<Rightarrow> canonical_of trimmed parts)))"

definition canonicalise_resolved :: "string \<Rightarrow> (path_error + canonical_path) run" where
  "canonicalise_resolved final_path =
     map_run (map_sum id (\<lambda>path. path\<lparr>resolved_via_handle := True, short_name := False\<rparr>))
       (canonicalise_syntactic final_path)"

section \<open>What the component loop produces\<close>

text \<open>
  A canonical component: not empty, upper case, not ending in a dot or a space (so never
  \<open>.\<close> or \<open>..\<close>), without a separator, and without a colon outside the device namespace.
\<close>

definition canonical_component :: "path_kind \<Rightarrow> string \<Rightarrow> bool" where
  "canonical_component k c \<longleftrightarrow>
     c \<noteq> [] \<and> to_ascii_uppercase c = c \<and> \<not> dot_or_space (last c)
     \<and> backslash \<notin> set c \<and> CHR ''/'' \<notin> set c \<and> (k \<noteq> Device \<longrightarrow> CHR '':'' \<notin> set c)"

lemma dot_or_space_upper [simp]: "dot_or_space (upper_byte c) = dot_or_space c"
  by (simp add: dot_or_space_def upper_byte_eq_nonletter is_alphabetic_byte_def)

lemma upper_byte_not_in:
  "\<not> is_alphabetic_byte d \<Longrightarrow> d \<in> set (to_ascii_uppercase s) \<longleftrightarrow> d \<in> set s"
  by (simp add: to_ascii_uppercase_def image_iff) (metis upper_byte_eq_nonletter)

lemma canonical_component_segment:
  assumes "trim_end_matches dot_or_space raw \<noteq> []"
    and "backslash \<notin> set raw" and "CHR ''/'' \<notin> set raw"
    and "k \<noteq> Device \<longrightarrow> CHR '':'' \<notin> set (trim_end_matches dot_or_space raw)"
  shows "canonical_component k (to_ascii_uppercase (trim_end_matches dot_or_space raw))"
proof -
  let ?seg = "trim_end_matches dot_or_space raw"
  have "\<not> dot_or_space (last ?seg)"
    using assms(1) by (rule trim_end_matches_last)
  then have "\<not> dot_or_space (last (to_ascii_uppercase ?seg))"
    using assms(1) by (simp add: to_ascii_uppercase_def last_map)
  moreover have "backslash \<notin> set ?seg" "CHR ''/'' \<notin> set ?seg"
    using assms(2,3) set_trim_end_matches [of dot_or_space raw] by blast+
  ultimately show ?thesis
    using assms by (simp add: canonical_component_def upper_byte_not_in is_alphabetic_byte_def)
qed

text \<open>A property of every component the loop pushes is one of every component it returns.\<close>

lemma normalise_loop_all:
  "normalise_loop original k out short raws = Inr (out', short') \<Longrightarrow> list_all P out \<Longrightarrow>
   (\<And>raw. raw \<in> set raws \<Longrightarrow> trim_end_matches dot_or_space raw \<noteq> [] \<Longrightarrow>
      k \<noteq> Device \<longrightarrow> CHR '':'' \<notin> set (trim_end_matches dot_or_space raw) \<Longrightarrow>
      P (to_ascii_uppercase (trim_end_matches dot_or_space raw))) \<Longrightarrow>
   list_all P out'"
proof (induction original k out short raws rule: normalise_loop.induct)
  case (1 original k out short)
  then show ?case by simp
next
  case (2 original k out short raw raws)
  let ?seg = "trim_end_matches dot_or_space raw"
  have rest: "\<And>raw. raw \<in> set raws \<Longrightarrow> trim_end_matches dot_or_space raw \<noteq> [] \<Longrightarrow>
      k \<noteq> Device \<longrightarrow> CHR '':'' \<notin> set (trim_end_matches dot_or_space raw) \<Longrightarrow>
      P (to_ascii_uppercase (trim_end_matches dot_or_space raw))"
    using "2.prems"(3) by simp
  consider "raw = [] \<or> raw = ''.''" | "raw = ''..''" "out \<noteq> []"
    | "raw \<noteq> []" "raw \<noteq> ''.''" "raw \<noteq> ''..''" "?seg \<noteq> []" "k \<noteq> Device \<longrightarrow> CHR '':'' \<notin> set ?seg"
    using "2.prems"(1) by (auto simp: Let_def split: if_splits)
  then show ?case
  proof cases
    case 1
    with "2.IH"(1) "2.prems" rest show ?thesis by auto
  next
    case two: 2
    then have "list_all P (butlast out)"
      using "2.prems"(2) by (auto simp: list_all_iff dest: in_set_butlastD)
    with "2.IH"(2) "2.prems" two rest show ?thesis by auto
  next
    case 3
    with "2.prems"(2,3) have "list_all P (out @ [to_ascii_uppercase ?seg])"
      by simp
    with "2.IH"(3) [OF _ _ refl] "2.prems"(1) 3 rest show ?thesis by (auto simp: Let_def)
  qed
qed

lemma normalise_components_canonical:
  assumes "normalise_components rest original k = Inr (comps, short)" and "CHR ''/'' \<notin> set rest"
  shows "list_all (canonical_component k) comps"
proof (rule normalise_loop_all)
  show "normalise_loop original k [] False (split_char backslash rest) = Inr (comps, short)"
    using assms by (simp add: normalise_components_def)
next
  fix raw
  assume raw: "raw \<in> set (split_char backslash rest)"
    and "trim_end_matches dot_or_space raw \<noteq> []"
    and "k \<noteq> Device \<longrightarrow> CHR '':'' \<notin> set (trim_end_matches dot_or_space raw)"
  moreover from raw assms(2) have "backslash \<notin> set raw" "CHR ''/'' \<notin> set raw"
    by (auto dest: split_on_segments)
  ultimately show "canonical_component k (to_ascii_uppercase (trim_end_matches dot_or_space raw))"
    by (intro canonical_component_segment)
qed simp

lemma normalise_components_uppercase:
  assumes "normalise_components rest original k = Inr (comps, short)"
  shows "list_all (\<lambda>c. to_ascii_uppercase c = c) comps"
  using assms unfolding normalise_components_def
  by (rule normalise_loop_all) simp_all

text \<open>Canonical components pass through the loop unchanged.\<close>

lemma canonical_component_not_dots:
  "canonical_component k c \<Longrightarrow> c \<noteq> [] \<and> c \<noteq> ''.'' \<and> c \<noteq> ''..'' \<and> trim_end_matches dot_or_space c = c"
  by (auto simp: canonical_component_def dot_or_space_def intro: trim_end_matches_id)

lemma normalise_loop_fixed:
  "list_all (canonical_component k) comps \<Longrightarrow>
   normalise_loop original k out short comps = Inr (out @ comps, short \<or> list_ex is_short_name comps)"
proof (induction comps arbitrary: out short)
  case Nil
  then show ?case by simp
next
  case (Cons c comps)
  then have c: "canonical_component k c" by simp
  then have "\<not> (k \<noteq> Device \<and> CHR '':'' \<in> set c)" and "to_ascii_uppercase c = c"
    by (auto simp: canonical_component_def)
  with canonical_component_not_dots [OF c] Cons show ?case
    by (simp add: Let_def)
qed

text \<open>Joining and splitting at the separator are inverse on segments without one.\<close>

lemma split_join:
  "\<forall>c \<in> set (c # cs). backslash \<notin> set c \<Longrightarrow>
   split_char backslash (c @ concat (map (\<lambda>c. backslash # c) cs)) = c # cs"
  by (rule split_char_join)

lemma normalise_join:
  assumes "list_all (canonical_component k) comps"
  shows "normalise_components (drop 1 (concat (map (\<lambda>c. backslash # c) comps))) original k
       = Inr (comps, list_ex is_short_name comps)"
proof (cases comps)
  case Nil
  then show ?thesis by (simp add: normalise_components_def)
next
  case (Cons c cs)
  with assms have "\<forall>c \<in> set (c # cs). backslash \<notin> set c"
    by (auto simp: list_all_iff canonical_component_def)
  then have "split_char backslash (c @ concat (map (\<lambda>c. backslash # c) cs)) = c # cs"
    by (rule split_join)
  with Cons assms show ?thesis
    by (simp add: normalise_components_def normalise_loop_fixed del: normalise_loop.simps)
qed

section \<open>Panics\<close>

lemma ascii_str_win [simp]: "ascii_str (win s) = ascii_str s"
  by (induction s) (auto simp: win_def)

lemma ascii_str_replace:
  "ascii_str s \<Longrightarrow> is_ascii_byte b \<Longrightarrow> ascii_str (replace_byte a b s)"
  by (auto simp: ascii_str_def replace_byte_def list_all_iff)

lemma ascii_str_trim: "ascii_str s \<Longrightarrow> ascii_str (trim s)"
  using set_trim by (rule ascii_str_subset)

lemma ascii_str_drop: "ascii_str s \<Longrightarrow> ascii_str (drop n s)"
  by (rule ascii_str_subset [OF set_drop_subset])

lemma strip_prefix_ci_ascii:
  "ascii_str s \<Longrightarrow> strip_prefix_ci s p =
     Ret (if length p \<le> length s \<and> eq_ignore_ascii_case (take (length p) s) p
          then Some (drop (length p) s) else None)"
  by (simp add: strip_prefix_ci_def)

lemma split_root_ascii: "ascii_str s \<Longrightarrow> split_root s \<noteq> Panic"
  by (simp add: split_root_def starts_with_globalroot_def strip_prefix_ci_ascii ascii_str_drop
        split: option.splits)

lemma canonicalise_ascii: "ascii_str s \<Longrightarrow> canonicalise_syntactic s \<noteq> Panic"
  using split_root_ascii [of "trim (replace_byte (CHR ''/'') backslash s)"]
  by (auto simp: canonicalise_syntactic_def Let_def bind_run_eq_Panic ascii_str_trim
        ascii_str_replace)

text \<open>The text the root split sees.\<close>

definition unified :: "string \<Rightarrow> string" where
  "unified s = trim (replace_byte (CHR ''/'') backslash s)"

lemma canonicalise_panic_iff:
  "CHR 0x00 \<notin> set s \<Longrightarrow>
   canonicalise_syntactic s = Panic \<longleftrightarrow> unified s \<noteq> [] \<and> split_root (unified s) = Panic"
  by (simp add: canonicalise_syntactic_def Let_def bind_run_eq_Panic unified_def)

lemma strip_prefix_ci_panic:
  "strip_prefix_ci s p = Panic \<longleftrightarrow> length p \<le> length s \<and> \<not> is_char_boundary s (length p)"
  by (auto simp: strip_prefix_ci_def bind_run_eq_Panic)

lemma strip_prefix_ci_None:
  "length p \<le> length s \<longrightarrow> is_char_boundary s (length p) \<Longrightarrow>
   \<not> eq_ignore_ascii_case (take (length p) s) p \<Longrightarrow> strip_prefix_ci s p = Ret None"
  by (simp add: strip_prefix_ci_def slice_to_def)

lemma win_literal_lengths:
  "length (win ''//?/UNC/'') = 8" "length (win ''//?/'') = 4" "length (win ''//./'') = 4"
  by (simp_all add: win_def)

text \<open>
  A path that does not start with the extended or device prefix panics exactly when byte 8 or
  byte 4 is inside a character: those are the two places the root split slices it.
\<close>

lemma eq_ic_take_prefix:
  "eq_ignore_ascii_case (take n s) w \<Longrightarrow> m \<le> n \<Longrightarrow> eq_ignore_ascii_case (take m s) (take m w)"
proof -
  assume eq: "eq_ignore_ascii_case (take n s) w" and "m \<le> n"
  from eq have "take m (map lower_byte (take n s)) = take m (map lower_byte w)"
    by (simp add: eq_ignore_ascii_case_def to_ascii_lowercase_def)
  with \<open>m \<le> n\<close> show ?thesis
    by (simp add: eq_ignore_ascii_case_def to_ascii_lowercase_def take_map min_absorb1)
qed

lemma split_root_panic_iff:
  assumes "\<not> eq_ignore_ascii_case (take 4 t) (win ''//?/'')"
  shows "split_root t = Panic \<longleftrightarrow>
    (8 \<le> length t \<and> \<not> is_char_boundary t 8) \<or> (4 \<le> length t \<and> \<not> is_char_boundary t 4)"
proof (cases "(8 \<le> length t \<and> \<not> is_char_boundary t 8) \<or> (4 \<le> length t \<and> \<not> is_char_boundary t 4)")
  case False
  have "\<not> eq_ignore_ascii_case (take 8 t) (win ''//?/UNC/'')"
    using eq_ic_take_prefix [of 8 t "win ''//?/UNC/''" 4] assms by (auto simp: win_def)
  with False assms have "strip_prefix_ci t (win ''//?/UNC/'') = Ret None"
    and "strip_prefix_ci t (win ''//?/'') = Ret None"
    and "strip_prefix_ci t (win ''//./'') \<noteq> Panic"
    by (auto intro!: strip_prefix_ci_None simp: win_literal_lengths strip_prefix_ci_panic)
  with False show ?thesis
    by (auto simp: split_root_def bind_run_eq_Panic split: option.splits)
next
  case True
  have "\<not> eq_ignore_ascii_case (take 8 t) (win ''//?/UNC/'')"
    using eq_ic_take_prefix [of 8 t "win ''//?/UNC/''" 4] assms by (auto simp: win_def)
  then have "strip_prefix_ci t (win ''//?/UNC/'') = Panic \<or>
      strip_prefix_ci t (win ''//?/UNC/'') = Ret None \<and> strip_prefix_ci t (win ''//?/'') = Panic"
    using True strip_prefix_ci_None [of "win ''//?/UNC/''" t]
    by (auto simp: strip_prefix_ci_panic win_literal_lengths)
  with True show ?thesis
    by (auto simp: split_root_def)
qed

section \<open>Letter case\<close>

text \<open>
  Canonicalising the upper-cased text is canonicalising the text and upper-casing what the
  result quotes of it: every step commutes with the byte map.
\<close>

definition upper_error :: "path_error \<Rightarrow> path_error" where
  "upper_error e =
     (case e of
        EmptyPath \<Rightarrow> EmptyPath
      | EmbeddedNul \<Rightarrow> EmbeddedNul
      | NotAbsolute p \<Rightarrow> NotAbsolute (to_ascii_uppercase p)
      | EscapesRoot p \<Rightarrow> EscapesRoot (to_ascii_uppercase p)
      | MalformedUnc p \<Rightarrow> MalformedUnc (to_ascii_uppercase p)
      | DotsOnlyComponent p \<Rightarrow> DotsOnlyComponent (to_ascii_uppercase p)
      | StreamSyntax p \<Rightarrow> StreamSyntax (to_ascii_uppercase p))"

definition upper_canonical :: "canonical_path \<Rightarrow> canonical_path" where
  "upper_canonical p = p\<lparr>path_text := to_ascii_uppercase (path_text p)\<rparr>"

definition upper_parts :: "path_kind \<times> string \<times> string \<Rightarrow> path_kind \<times> string \<times> string" where
  "upper_parts parts =
     (case parts of (k, root, rest) \<Rightarrow> (k, to_ascii_uppercase root, to_ascii_uppercase rest))"

lemma upper_parts_simp [simp]:
  "upper_parts (k, root, rest) = (k, to_ascii_uppercase root, to_ascii_uppercase rest)"
  by (simp add: upper_parts_def)

lemma upper_eq_literal:
  "\<forall>c \<in> set w. \<not> is_alphabetic_byte c \<Longrightarrow> to_ascii_uppercase s = w \<longleftrightarrow> s = w"
proof (induction s arbitrary: w)
  case Nil
  then show ?case by (simp add: to_ascii_uppercase_def)
next
  case (Cons c s)
  then show ?case by (cases w) (auto simp: to_ascii_uppercase_def upper_byte_eq_nonletter)
qed

lemma starts_with_upper:
  "\<forall>c \<in> set w. \<not> is_alphabetic_byte c \<Longrightarrow> starts_with (to_ascii_uppercase s) w = starts_with s w"
  by (induction s w rule: starts_with.induct)
     (auto simp: to_ascii_uppercase_def upper_byte_eq_nonletter)

lemma strip_any_upper:
  "\<forall>w \<in> set es. \<forall>c \<in> set w. \<not> is_alphabetic_byte c \<Longrightarrow>
   strip_any es (to_ascii_uppercase s) = map_option to_ascii_uppercase (strip_any es s)"
  by (induction es) (auto simp: starts_with_upper, auto simp: to_ascii_uppercase_def drop_map)

lemma trim_front_upper:
  "\<forall>w \<in> set es. \<forall>c \<in> set w. \<not> is_alphabetic_byte c \<Longrightarrow>
   trim_front es (to_ascii_uppercase s) = to_ascii_uppercase (trim_front es s)"
proof (induction es s rule: trim_front.induct)
  case (1 es s)
  then show ?case
    by (cases "strip_any es s")
       (simp_all add: trim_front.simps [of es "to_ascii_uppercase s"] trim_front.simps [of es s]
         strip_any_upper)
qed

lemma white_space_nonletter: "\<forall>w \<in> set white_space. \<forall>c \<in> set w. \<not> is_alphabetic_byte c"
  by (auto simp: white_space_def is_alphabetic_byte_def)

lemma rev_upper: "rev (to_ascii_uppercase s) = to_ascii_uppercase (rev s)"
  by (simp add: to_ascii_uppercase_def rev_map)

lemma trim_upper: "trim (to_ascii_uppercase s) = to_ascii_uppercase (trim s)"
  using white_space_nonletter
  by (simp add: trim_def trim_start_def trim_end_def trim_front_upper rev_upper)

lemma replace_upper:
  "replace_byte (CHR ''/'') backslash (to_ascii_uppercase s)
     = to_ascii_uppercase (replace_byte (CHR ''/'') backslash s)"
  by (simp add: replace_byte_def to_ascii_uppercase_def upper_byte_eq_nonletter is_alphabetic_byte_def)

lemma boundary_upper [simp]: "is_char_boundary (to_ascii_uppercase s) n = is_char_boundary s n"
  by (auto simp: is_char_boundary_def to_ascii_uppercase_def)

lemma take_upper: "take n (to_ascii_uppercase s) = to_ascii_uppercase (take n s)"
  by (simp add: to_ascii_uppercase_def take_map)

lemma drop_upper: "drop n (to_ascii_uppercase s) = to_ascii_uppercase (drop n s)"
  by (simp add: to_ascii_uppercase_def drop_map)

lemma nth_upper: "n < length s \<Longrightarrow> to_ascii_uppercase s ! n = upper_byte (s ! n)"
  by (simp add: to_ascii_uppercase_def)

lemmas upper_moves = take_upper drop_upper nth_upper trim_upper replace_upper

lemma strip_prefix_ci_upper:
  "strip_prefix_ci (to_ascii_uppercase s) p
     = map_run (map_option to_ascii_uppercase) (strip_prefix_ci s p)"
  by (simp add: strip_prefix_ci_def slice_to_def upper_moves)

lemma strip_prefix_upper:
  "\<forall>c \<in> set w. \<not> is_alphabetic_byte c \<Longrightarrow>
   strip_prefix (to_ascii_uppercase s) w = map_option to_ascii_uppercase (strip_prefix s w)"
  by (simp add: strip_prefix_def starts_with_upper drop_upper)

lemma globalroot_upper:
  "starts_with_globalroot (to_ascii_uppercase s) = starts_with_globalroot s"
  by (cases "strip_prefix_ci s (win ''GLOBALROOT/'')")
     (simp_all add: starts_with_globalroot_def strip_prefix_ci_upper)

lemma drive_root_upper:
  "drive_root (to_ascii_uppercase c) (to_ascii_uppercase original)
     = map_sum upper_error upper_parts (drive_root c original)"
proof -
  have colon: "upper_byte d = CHR '':'' \<longleftrightarrow> d = CHR '':''"
    and slash: "upper_byte d = backslash \<longleftrightarrow> d = backslash" for d
    by (simp_all add: upper_byte_eq_nonletter is_alphabetic_byte_def)
  have keep: "to_ascii_uppercase [upper_byte d, CHR '':''] = [upper_byte d, CHR '':'']" for d
    by (simp add: to_ascii_uppercase_def)
  show ?thesis
  proof (cases c rule: remdups_adj.cases)
    case (3 x y zs)
    then show ?thesis
      by (cases zs) (auto simp: drive_root_def Let_def colon slash upper_error_def upper_parts_def
          keep to_ascii_uppercase_def)
  qed (simp_all add: drive_root_def upper_error_def to_ascii_uppercase_def)
qed

lemma takeWhile_upper:
  "(\<And>c. P (upper_byte c) = P c) \<Longrightarrow>
   takeWhile P (to_ascii_uppercase s) = to_ascii_uppercase (takeWhile P s)"
  by (simp add: to_ascii_uppercase_def takeWhile_map comp_def)

lemma upper_inj_prefix:
  "h = takeWhile P s \<Longrightarrow> to_ascii_uppercase h = to_ascii_uppercase s \<longleftrightarrow> h = s"
  by (metis length_to_ascii_uppercase takeWhile_eq_take take_all order_refl length_takeWhile_le)

lemma splitn_upper:
  "\<not> is_alphabetic_byte d \<Longrightarrow>
   splitn n d (to_ascii_uppercase s) = map to_ascii_uppercase (splitn n d s)"
proof (induction n d s rule: splitn.induct)
  case (3 n d s)
  have "takeWhile (\<lambda>c. c \<noteq> d) (to_ascii_uppercase s) = to_ascii_uppercase (takeWhile (\<lambda>c. c \<noteq> d) s)"
    by (rule takeWhile_upper) (simp add: "3.prems" upper_byte_eq_nonletter)
  with 3 show ?case
    by (cases "takeWhile (\<lambda>c. c \<noteq> d) s = s")
       (simp_all add: Let_def upper_inj_prefix [OF refl] drop_upper del: takeWhile_eq_all_conv)
qed simp_all

lemma unc_root_upper:
  "unc_root (to_ascii_uppercase rest) (to_ascii_uppercase original)
     = map_sum upper_error upper_parts (unc_root rest original)"
proof -
  have "splitn 3 backslash (to_ascii_uppercase rest)
      = map to_ascii_uppercase (splitn 3 backslash rest)"
    by (rule splitn_upper) (simp add: is_alphabetic_byte_def)
  then show ?thesis
    by (auto simp: unc_root_def Let_def upper_error_def upper_parts_def split: list.splits)
       (auto simp: to_ascii_uppercase_def win_def)
qed

lemma split_root_upper:
  "split_root (to_ascii_uppercase s) = map_run (map_sum upper_error upper_parts) (split_root s)"
proof -
  have nl: "\<forall>c \<in> set (win ''/??/''). \<not> is_alphabetic_byte c"
    "\<forall>c \<in> set (win ''//''). \<not> is_alphabetic_byte c"
    by (auto simp: win_def is_alphabetic_byte_def)
  have keep: "to_ascii_uppercase (win ''//?/'') = win ''//?/''"
    "to_ascii_uppercase (win ''//./'') = win ''//./''"
    "to_ascii_uppercase (win ''/??/'') = win ''/??/''"
    by (simp_all add: win_def to_ascii_uppercase_def)
  note moves = strip_prefix_ci_upper strip_prefix_upper [OF nl(1)] strip_prefix_upper [OF nl(2)]
    globalroot_upper drive_root_upper unc_root_upper keep
  show ?thesis
  proof (cases "strip_prefix_ci s (win ''//?/UNC/'')")
    case unc: (Ret u)
    show ?thesis
    proof (cases u)
      case None
      show ?thesis
      proof (cases "strip_prefix_ci s (win ''//?/'')")
        case ext: (Ret e)
        with unc None show ?thesis
        proof (cases e)
          case (Some r)
          with unc None ext show ?thesis
            by (cases "starts_with_globalroot r") (simp_all add: split_root_def moves)
        next
          case ext_none: None
          with unc None ext show ?thesis
            by (cases "strip_prefix_ci s (win ''//./'')")
               (auto simp: split_root_def moves split: option.splits)
        qed
      qed (use unc None in \<open>simp add: split_root_def moves\<close>)
    qed (use unc in \<open>simp add: split_root_def moves\<close>)
  qed (simp add: split_root_def moves)
qed

lemma split_on_upper:
  "(\<And>c. p (upper_byte c) = p c) \<Longrightarrow>
   split_on p (to_ascii_uppercase s) = map to_ascii_uppercase (split_on p s)"
  by (induction s) (auto simp: to_ascii_uppercase_def split: list.splits)

lemma split_backslash_upper:
  "split_char backslash (to_ascii_uppercase s) = map to_ascii_uppercase (split_char backslash s)"
  by (rule split_on_upper) (simp add: upper_byte_eq_nonletter is_alphabetic_byte_def)

lemma trim_end_matches_upper:
  "trim_end_matches dot_or_space (to_ascii_uppercase s)
     = to_ascii_uppercase (trim_end_matches dot_or_space s)"
  by (simp add: trim_end_matches_def rev_upper)
     (simp add: to_ascii_uppercase_def dropWhile_map comp_def rev_map)

lemma after_last_upper:
  assumes "\<not> is_alphabetic_byte c"
  shows "after_last c (to_ascii_uppercase s) = map_option to_ascii_uppercase (after_last c s)"
proof -
  have "takeWhile (\<lambda>d. d \<noteq> c) (to_ascii_uppercase (rev s))
      = to_ascii_uppercase (takeWhile (\<lambda>d. d \<noteq> c) (rev s))"
    by (rule takeWhile_upper) (simp add: assms upper_byte_eq_nonletter)
  with assms show ?thesis by (simp add: after_last_def upper_byte_not_in rev_upper)
qed

lemma is_short_name_upper [simp]: "is_short_name (to_ascii_uppercase s) = is_short_name s"
proof -
  have "takeWhile (\<lambda>c. c \<noteq> CHR ''.'') (to_ascii_uppercase s)
      = to_ascii_uppercase (takeWhile (\<lambda>c. c \<noteq> CHR ''.'') s)"
    by (rule takeWhile_upper) (simp add: upper_byte_eq_nonletter is_alphabetic_byte_def)
  moreover have "after_last (CHR ''~'') (to_ascii_uppercase t)
      = map_option to_ascii_uppercase (after_last (CHR ''~'') t)" for t
    by (rule after_last_upper) (simp add: is_alphabetic_byte_def)
  ultimately show ?thesis
    by (auto simp: is_short_name_def list_all_iff split: option.splits)
       (auto simp: to_ascii_uppercase_def)
qed

lemma normalise_loop_upper:
  "normalise_loop (to_ascii_uppercase original) k out short (map to_ascii_uppercase raws)
     = map_sum upper_error id (normalise_loop original k out short raws)"
proof (induction original k out short raws rule: normalise_loop.induct)
  case (1 original k out short)
  then show ?case by simp
next
  case (2 original k out short raw raws)
  have dots: "to_ascii_uppercase raw = ''.'' \<longleftrightarrow> raw = ''.''"
    "to_ascii_uppercase raw = ''..'' \<longleftrightarrow> raw = ''..''"
    by (rule upper_eq_literal, simp add: is_alphabetic_byte_def)+
  have colon: "CHR '':'' \<in> set (to_ascii_uppercase t) \<longleftrightarrow> CHR '':'' \<in> set t" for t
    by (rule upper_byte_not_in) (simp add: is_alphabetic_byte_def)
  show ?case
    using 2 by (simp add: dots colon trim_end_matches_upper Let_def upper_error_def)
qed

lemma render_upper:
  "list_all (\<lambda>c. to_ascii_uppercase c = c) comps \<Longrightarrow>
   to_ascii_uppercase (render k root comps) = render k (to_ascii_uppercase root) comps"
proof -
  assume "list_all (\<lambda>c. to_ascii_uppercase c = c) comps"
  then have "to_ascii_uppercase (concat (map (\<lambda>c. backslash # c) comps))
      = concat (map (\<lambda>c. backslash # c) comps)"
    by (induction comps) (auto simp: to_ascii_uppercase_def)
  then show ?thesis by (simp add: render_def to_ascii_uppercase_def)
qed

lemma canonical_of_upper:
  "canonical_of (to_ascii_uppercase t) (k, to_ascii_uppercase root, to_ascii_uppercase rest)
     = map_sum upper_error upper_canonical (canonical_of t (k, root, rest))"
proof -
  have loop: "normalise_components (to_ascii_uppercase rest) (to_ascii_uppercase t) k
      = map_sum upper_error id (normalise_components rest t k)"
    by (simp add: normalise_components_def split_backslash_upper normalise_loop_upper)
  show ?thesis
  proof (cases "normalise_components rest t k")
    case (Inr r)
    then have "list_all (\<lambda>c. to_ascii_uppercase c = c) (fst r)"
      by (cases r) (simp add: normalise_components_uppercase)
    with Inr loop show ?thesis
      by (cases r; cases root; cases k)
         (simp_all add: canonical_of_def upper_canonical_def render_upper to_ascii_uppercase_Cons)
  qed (simp add: canonical_of_def loop)
qed

lemma canonicalise_upper:
  "canonicalise_syntactic (to_ascii_uppercase s)
     = map_run (map_sum upper_error upper_canonical) (canonicalise_syntactic s)"
proof -
  have nul: "CHR 0x00 \<in> set (to_ascii_uppercase s) \<longleftrightarrow> CHR 0x00 \<in> set s"
    by (rule upper_byte_not_in) (simp add: is_alphabetic_byte_def)
  show ?thesis
    by (cases "split_root (trim (replace_byte (CHR ''/'') backslash s))")
       (auto simp: canonicalise_syntactic_def nul Let_def upper_moves split_root_upper
         canonical_of_upper upper_error_def split: sum.splits)
qed

section \<open>Properties\<close>

lemma canonicalise_ret:
  "canonicalise_syntactic s = Ret (Inr p) \<longleftrightarrow>
     CHR 0x00 \<notin> set s \<and> unified s \<noteq> [] \<and>
     (\<exists>k root rest. split_root (unified s) = Ret (Inr (k, root, rest))
        \<and> canonical_of (unified s) (k, root, rest) = Inr p)"
proof (cases "split_root (unified s)")
  case (Ret r)
  then show ?thesis
    by (cases r) (auto simp: canonicalise_syntactic_def unified_def Let_def)
qed (auto simp: canonicalise_syntactic_def unified_def Let_def)

lemma drive_root_parts:
  "drive_root c original = Inr (k, root, rest) \<Longrightarrow>
     k = DriveRooted \<and> (\<exists>l. is_upper_byte l \<and> root = [l, CHR '':''])"
  by (auto simp: drive_root_def Let_def is_alphabetic_byte_def split: if_splits)
     (metis upper_byte_alpha)+

lemma unc_root_parts:
  "unc_root r original = Inr (k, root, rest) \<Longrightarrow> k = Unc"
  by (auto simp: unc_root_def Let_def split: if_splits)

lemma splitn_subset: "seg \<in> set (splitn n d s) \<Longrightarrow> set seg \<subseteq> set s"
proof (induction n d s rule: splitn.induct)
  case (3 n d s)
  let ?h = "takeWhile (\<lambda>c. c \<noteq> d) s"
  show ?case
  proof (cases "?h = s")
    case True
    with "3.prems" show ?thesis by simp
  next
    case False
    with "3.prems" have "seg = ?h \<or> seg \<in> set (splitn (Suc n) d (drop (Suc (length ?h)) s))"
      by (simp add: Let_def del: takeWhile_eq_all_conv)
    with "3.IH" [OF refl False] show ?thesis
      using set_takeWhileD [of _ "\<lambda>c. c \<noteq> d" s] set_drop_subset [of "Suc (length ?h)" s] by blast
  qed
qed auto

lemma unc_root_subset:
  "unc_root r original = Inr (k, root, rest) \<Longrightarrow> set rest \<subseteq> set r"
  using splitn_subset [of rest 3 backslash r]
  by (auto simp: unc_root_def Let_def split: if_splits list.splits)

lemma drive_root_subset:
  "drive_root c original = Inr (k, root, rest) \<Longrightarrow> set rest \<subseteq> set c"
  by (auto simp: drive_root_def Let_def split: if_splits dest: in_set_dropD)

lemma strip_prefix_ci_Ret:
  "strip_prefix_ci s p = Ret (Some r) \<Longrightarrow>
   length p \<le> length s \<and> eq_ignore_ascii_case (take (length p) s) p \<and> r = drop (length p) s"
  by (auto simp: strip_prefix_ci_def split: if_splits)

lemma split_root_cases:
  assumes "split_root t = Ret (Inr (k, root, rest))"
  obtains (drive) c where "set c \<subseteq> set t" "drive_root c t = Inr (k, root, rest)"
  | (unc) r where "set r \<subseteq> set t" "unc_root r t = Inr (k, root, rest)"
  | (device) "k = Device" "set rest \<subseteq> set t"
proof -
  have sub: "set r \<subseteq> set t" if "strip_prefix_ci t p = Ret (Some r)" for p r
    using strip_prefix_ci_Ret [OF that] by (auto dest: in_set_dropD)
  have sub': "set r \<subseteq> set t" if "strip_prefix t p = Some r" for p r
    using that by (auto simp: strip_prefix_Some)
  have "(\<exists>c. set c \<subseteq> set t \<and> drive_root c t = Inr (k, root, rest))
      \<or> (\<exists>r. set r \<subseteq> set t \<and> unc_root r t = Inr (k, root, rest))
      \<or> k = Device \<and> set rest \<subseteq> set t"
    using assms
    by (auto simp: split_root_def split_option_ex ex_bool_eq split: option.splits
          dest!: sub sub')
  with drive unc device show thesis by blast
qed

lemma split_root_rest: "split_root t = Ret (Inr (k, root, rest)) \<Longrightarrow> set rest \<subseteq> set t"
  by (erule split_root_cases) (use drive_root_subset unc_root_subset in blast)+

lemma split_root_drive:
  "split_root t = Ret (Inr (DriveRooted, root, rest)) \<Longrightarrow>
   \<exists>l. is_upper_byte l \<and> root = [l, CHR '':'']"
  by (erule split_root_cases) (auto dest: drive_root_parts unc_root_parts)

lemma unified_no_slash: "CHR ''/'' \<notin> set (unified s)"
proof -
  have "CHR ''/'' \<notin> set (replace_byte (CHR ''/'') backslash s)"
    by (auto simp: replace_byte_def)
  then show ?thesis unfolding unified_def using set_trim by blast
qed

lemma canonical_of_Inr:
  "canonical_of t (k, root, rest) = Inr p \<Longrightarrow>
   kind p = k \<and> path_text p = render k root (components p) \<and> \<not> resolved_via_handle p
   \<and> normalise_components rest t k = Inr (components p, short_name p)
   \<and> drive p = (if k = DriveRooted then (case root of c # _ \<Rightarrow> Some (upper_byte c) | [] \<Rightarrow> None) else None)"
  by (cases k) (auto simp: canonical_of_def split: sum.splits)

lemma canonical_path_shape:
  assumes "canonicalise_syntactic s = Ret (Inr p)"
  shows "list_all (canonical_component (kind p)) (components p)
    \<and> \<not> resolved_via_handle p
    \<and> (case drive p of
         None \<Rightarrow> kind p \<noteq> DriveRooted
       | Some l \<Rightarrow> kind p = DriveRooted \<and> is_upper_byte l
           \<and> path_text p = render DriveRooted [l, CHR '':''] (components p))"
proof -
  from assms obtain k root rest where
    split: "split_root (unified s) = Ret (Inr (k, root, rest))"
    and of: "canonical_of (unified s) (k, root, rest) = Inr p"
    by (auto simp: canonicalise_ret)
  note p = canonical_of_Inr [OF of]
  have "CHR ''/'' \<notin> set rest"
    using split_root_rest [OF split] unified_no_slash by blast
  with p have "list_all (canonical_component k) (components p)"
    by (blast intro: normalise_components_canonical)
  moreover have "\<exists>l. is_upper_byte l \<and> root = [l, CHR '':'']" if "k = DriveRooted"
    using split split_root_drive that by blast
  ultimately show ?thesis
    using p by (cases k) (auto simp: upper_byte_upper)
qed

text \<open>A text that begins with a drive letter, a colon and a separator takes the last branch.\<close>

lemma split_root_letter:
  assumes "is_alphabetic_byte l" and "ascii_str r"
  shows "split_root (l # CHR '':'' # backslash # r)
       = Ret (Inr (DriveRooted, [upper_byte l, CHR '':''], r))"
proof -
  let ?t = "l # CHR '':'' # backslash # r"
  have ascii: "ascii_str ?t"
    using assms by (cases l) (auto simp: is_alphabetic_byte_def)
  have differ: "lower_byte l \<noteq> lower_byte backslash" "l \<noteq> backslash"
    using assms by (cases l; auto simp: is_alphabetic_byte_def)+
  then have "strip_prefix_ci ?t (win ''//?/UNC/'') = Ret None"
    "strip_prefix_ci ?t (win ''//?/'') = Ret None" "strip_prefix_ci ?t (win ''//./'') = Ret None"
    by (auto simp: strip_prefix_ci_ascii [OF ascii] win_def)
  moreover have "strip_prefix ?t (win ''/??/'') = None" "strip_prefix ?t (win ''//'') = None"
    using differ by (simp_all add: strip_prefix_def win_def)
  ultimately show ?thesis
    using assms(1) by (simp add: split_root_def drive_root_def Let_def)
qed

definition printable :: "string \<Rightarrow> bool" where
  "printable s \<longleftrightarrow> list_all (\<lambda>c. visible_byte c \<or> c = CHR '' '') s"

lemma printable_byte_ascii: "visible_byte c \<or> c = CHR '' '' \<Longrightarrow> is_ascii_byte c"
  by (elim disjE) (simp_all add: visible_byte_def)

lemma printable_ascii: "printable s \<Longrightarrow> ascii_str s"
  unfolding printable_def ascii_str_def list_all_iff using printable_byte_ascii by blast

lemma drive_text:
  "render DriveRooted [l, CHR '':''] comps
     = l # CHR '':'' # backslash # drop 1 (concat (map (\<lambda>c. backslash # c) comps))"
  by (cases comps) (simp_all add: render_def)

lemma replace_byte_absent: "a \<notin> set s \<Longrightarrow> replace_byte a b s = s"
  unfolding replace_byte_def by (rule map_idI) auto

lemma unified_drive_text:
  assumes "is_upper_byte l" and "list_all (canonical_component DriveRooted) comps"
    and "printable (render DriveRooted [l, CHR '':''] comps)"
  shows "unified (render DriveRooted [l, CHR '':''] comps) = render DriveRooted [l, CHR '':''] comps"
    (is "unified ?t = ?t")
proof -
  have "CHR ''/'' \<notin> set ?t"
    using assms(1,2)
    by (cases l) (auto simp: render_def list_all_iff canonical_component_def split: if_splits)
  then have "replace_byte (CHR ''/'') backslash ?t = ?t"
    by (rule replace_byte_absent)
  moreover have "visible_byte (last ?t)"
  proof (cases comps rule: rev_cases)
    case Nil
    then show ?thesis by (simp add: render_def visible_byte_def)
  next
    case (snoc cs c)
    then have last: "last ?t = last c" and c: "c \<noteq> []" "last c \<noteq> CHR '' ''" and "last c \<in> set ?t"
      using assms(2) by (auto simp: render_def canonical_component_def dot_or_space_def)
    with assms(3) show ?thesis by (auto simp: printable_def list_all_iff)
  qed
  moreover have "visible_byte (hd ?t)" "?t \<noteq> []"
    using assms(1) by (auto simp: render_def visible_byte_def is_upper_byte_def is_ascii_byte_def)
  ultimately show ?thesis by (simp add: unified_def trim_visible)
qed

text \<open>
  Every canonical path has only canonical components; a drive-rooted one carries its
  upper-case letter and is rendered from the letter and the components alone.
\<close>

theorem canonical_path_well_formed:
  assumes "canonicalise_syntactic s = Ret (Inr p)"
  shows "list_all (canonical_component (kind p)) (components p)
    \<and> \<not> resolved_via_handle p
    \<and> (case drive p of
         None \<Rightarrow> kind p \<noteq> DriveRooted
       | Some l \<Rightarrow> kind p = DriveRooted \<and> is_upper_byte l
           \<and> path_text p = render DriveRooted [l, CHR '':''] (components p))"
  using assms by (rule canonical_path_shape)

text \<open>
  Canonicalising is idempotent on what it renders: reading a printable drive-rooted
  canonical text again gives the same path, with the alias flag recomputed from the
  components that are left.
\<close>

theorem canonicalise_idempotent:
  assumes "canonicalise_syntactic s = Ret (Inr p)" and "kind p = DriveRooted"
    and "printable (path_text p)"
  shows "canonicalise_syntactic (path_text p)
       = Ret (Inr (p\<lparr>short_name := list_ex is_short_name (components p)\<rparr>))"
proof -
  have comps: "list_all (canonical_component DriveRooted) (components p)"
    and res: "\<not> resolved_via_handle p"
    using canonical_path_shape [OF assms(1)] assms(2) by auto
  obtain l where l: "is_upper_byte l" "drive p = Some l"
    and shown: "path_text p = render DriveRooted [l, CHR '':''] (components p)"
    using canonical_path_shape [OF assms(1)] assms(2) by (auto split: option.splits)
  let ?t = "path_text p" and ?rest = "drop 1 (concat (map (\<lambda>c. backslash # c) (components p)))"
  have uni: "unified ?t = ?t"
    using unified_drive_text [OF l(1) comps] assms(3) shown by simp
  have shape: "?t = l # CHR '':'' # backslash # ?rest"
    by (simp only: shown drive_text)
  have "ascii_str ?rest"
    using printable_ascii [OF assms(3)] unfolding shape by simp
  then have "split_root ?t = Ret (Inr (DriveRooted, [l, CHR '':''], ?rest))"
    unfolding shape using l(1) by (simp add: split_root_letter is_alphabetic_byte_def upper_byte_upper)
  moreover have "canonical_of ?t (DriveRooted, [l, CHR '':''], ?rest)
      = Inr (p\<lparr>short_name := list_ex is_short_name (components p)\<rparr>)"
    using comps res l assms(2) shown
    by (cases p) (simp add: canonical_of_def normalise_join [simplified] upper_byte_upper)
  moreover have "CHR 0x00 \<notin> set ?t"
    using assms(3) by (auto simp: printable_def list_all_iff visible_byte_def)
  moreover have "?t \<noteq> []" by (simp add: shape)
  ultimately show ?thesis
    using uni by (auto simp: canonicalise_ret)
qed

text \<open>Two spellings that differ in ASCII letter case only.\<close>

lemma upper_canonical_id: "to_ascii_uppercase (path_text p) = path_text p \<Longrightarrow> upper_canonical p = p"
  by (simp add: upper_canonical_def)

lemma map_sum_eq_Inr:
  "map_sum f g r = Inr y \<longleftrightarrow> (\<exists>x. r = Inr x \<and> y = g x)"
  "Inr y = map_sum f g r \<longleftrightarrow> (\<exists>x. r = Inr x \<and> y = g x)"
  by (cases r; auto)+

lemma drive_path_uppercase:
  assumes "canonicalise_syntactic s = Ret (Inr p)" and "kind p = DriveRooted"
  shows "to_ascii_uppercase (path_text p) = path_text p"
proof -
  note shape = canonical_path_shape [OF assms(1)]
  then obtain l where l: "is_upper_byte l" "path_text p = render DriveRooted [l, CHR '':''] (components p)"
    using assms(2) by (auto split: option.splits)
  have "list_all (\<lambda>c. to_ascii_uppercase c = c) (components p)"
    using shape by (auto simp: list_all_iff canonical_component_def)
  moreover have "to_ascii_uppercase [l, CHR '':''] = [l, CHR '':'']"
    using l by (simp add: to_ascii_uppercase_def upper_byte_upper)
  ultimately show ?thesis using l by (simp add: render_upper)
qed

text \<open>
  Two drive-rooted spellings that differ only in the case of ASCII letters canonicalise
  to the same value.
\<close>

theorem canonicalise_case_insensitive:
  assumes "canonicalise_syntactic s = Ret (Inr p)" and "kind p = DriveRooted"
    and "eq_ignore_ascii_case s t"
  shows "canonicalise_syntactic t = Ret (Inr p)"
proof -
  have "to_ascii_uppercase t = to_ascii_uppercase s"
    using assms(3) by (simp add: upper.fold_same upper.eq_ic_sym)
  then have "map_run (map_sum upper_error upper_canonical) (canonicalise_syntactic t)
      = map_run (map_sum upper_error upper_canonical) (canonicalise_syntactic s)"
    by (simp flip: canonicalise_upper)
  also have "\<dots> = Ret (Inr p)"
    using assms(1,2) by (simp add: upper_canonical_id drive_path_uppercase)
  finally obtain q where q: "canonicalise_syntactic t = Ret (Inr q)" and eq: "p = upper_canonical q"
    by (auto simp: map_sum_eq_Inr)
  from eq assms(2) have "kind q = DriveRooted" by (simp add: upper_canonical_def)
  with q eq show ?thesis by (simp add: upper_canonical_id drive_path_uppercase)
qed

theorem canonicalise_case_insensitive_witness:
  "canonicalise_syntactic (win ''c:/games/./Foo'')
     = Ret (Inr \<lparr>path_text = win ''C:/GAMES/FOO'', kind = DriveRooted, drive = Some (CHR ''C''),
                components = [''GAMES'', ''FOO''], short_name = False,
                resolved_via_handle = False\<rparr>)"
  by (rule canonicalise_case_insensitive [of "win ''C:/GAMES/./FOO''"]; code_simp)

theorem canonical_path_well_formed_witness:
  "list_all (canonical_component DriveRooted) [''GAMES'', ''FOO'']"
proof -
  have "canonicalise_syntactic (win ''c:/games./x/../Foo '')
      = Ret (Inr \<lparr>path_text = win ''C:/GAMES/FOO'', kind = DriveRooted, drive = Some (CHR ''C''),
                   components = [''GAMES'', ''FOO''], short_name = False,
                   resolved_via_handle = False\<rparr>)"
    by code_simp
  from canonical_path_well_formed [OF this] show ?thesis by simp
qed

theorem canonicalise_idempotent_witness:
  "canonicalise_syntactic (win ''C:/GAMES/FOO'')
     = Ret (Inr \<lparr>path_text = win ''C:/GAMES/FOO'', kind = DriveRooted, drive = Some (CHR ''C''),
                components = [''GAMES'', ''FOO''], short_name = False,
                resolved_via_handle = False\<rparr>)"
proof -
  let ?p = "\<lparr>path_text = win ''C:/GAMES/FOO'', kind = DriveRooted, drive = Some (CHR ''C''),
      components = [''GAMES'', ''FOO''], short_name = True, resolved_via_handle = False\<rparr>"
  have "canonicalise_syntactic (win ''c:/games./x~1/../Foo '') = Ret (Inr ?p)"
    by code_simp
  moreover have "printable (path_text ?p)" by code_simp
  moreover have "\<not> list_ex is_short_name (components ?p)" by code_simp
  ultimately show ?thesis
    using canonicalise_idempotent [of "win ''c:/games./x~1/../Foo ''" ?p] by simp
qed

text \<open>
  Which inputs panic: none that is ASCII; and of the texts that do not begin with the
  extended prefix, exactly those whose unified form has byte 8 or byte 4 inside a character.
\<close>

theorem canonicalise_panics:
  "(ascii_str s \<longrightarrow> canonicalise_syntactic s \<noteq> Panic)
   \<and> (CHR 0x00 \<notin> set s \<and> \<not> eq_ignore_ascii_case (take 4 (unified s)) (win ''//?/'') \<longrightarrow>
      (canonicalise_syntactic s = Panic \<longleftrightarrow>
         8 \<le> length (unified s) \<and> \<not> is_char_boundary (unified s) 8
         \<or> 4 \<le> length (unified s) \<and> \<not> is_char_boundary (unified s) 4))"
  using canonicalise_ascii by (auto simp: canonicalise_panic_iff split_root_panic_iff)

theorem canonicalise_panics_witness:
  "canonicalise_syntactic (win ''D:/'' @ [CHR 0xC3, CHR 0x9C] @ ''nreal'') = Panic"
proof -
  let ?s = "win ''D:/'' @ [CHR 0xC3, CHR 0x9C] @ ''nreal''"
  have "CHR 0x00 \<notin> set ?s \<and> \<not> eq_ignore_ascii_case (take 4 (unified ?s)) (win ''//?/'')"
    and "4 \<le> length (unified ?s) \<and> \<not> is_char_boundary (unified ?s) 4"
    by code_simp+
  then show ?thesis using canonicalise_panics [of ?s] by blast
qed

text \<open>The extended prefix in front of a drive path changes nothing but the errors' quotation.\<close>

lemma normalise_loop_original:
  "normalise_loop original k out short raws = Inr r \<longleftrightarrow> normalise_loop original' k out short raws = Inr r"
  by (induction original k out short raws rule: normalise_loop.induct) (auto simp: Let_def)

lemma canonical_of_original:
  "canonical_of t parts = Inr p \<longleftrightarrow> canonical_of t' parts = Inr p"
proof -
  obtain k root rest where parts: "parts = (k, root, rest)" by (cases parts)
  have same: "normalise_components rest t k = Inr r \<longleftrightarrow> normalise_components rest t' k = Inr r" for r
    unfolding normalise_components_def by (rule normalise_loop_original)
  have "\<exists>C. \<forall>t. canonical_of t (k, root, rest) = Inr p \<longleftrightarrow> (\<exists>r. normalise_components rest t k = Inr r \<and> C r)"
    by (rule exI [of _ "\<lambda>(comps, short). p = \<lparr>path_text = render k root comps, kind = k,
          drive = (case k of DriveRooted \<Rightarrow> (case root of c # _ \<Rightarrow> Some (upper_byte c) | [] \<Rightarrow> None) | _ \<Rightarrow> None),
          components = comps, short_name = short, resolved_via_handle = False\<rparr>"])
       (auto simp: canonical_of_def split: sum.splits)
  with same show ?thesis unfolding parts by metis
qed

lemma trim_end_matches_append:
  "trim_end_matches p b \<noteq> [] \<Longrightarrow> trim_end_matches p (a @ b) = a @ trim_end_matches p b"
  by (auto simp: trim_end_matches_def dropWhile_append)

lemma letter_not_blank: "is_alphabetic_byte l \<Longrightarrow> \<not> ascii_blank l"
  by (auto simp: ascii_blank_def is_alphabetic_byte_def)

lemma trim_end_matches_keep:
  "\<not> p c \<Longrightarrow> \<exists>r'. trim_end_matches p (c # r) = c # r' \<and> set r' \<subseteq> set r"
proof -
  assume "\<not> p c"
  then have "trim_end_matches p (c # r) = c # trim_end_matches p r"
    using trim_end_matches_append [of p r "[c]"]
    by (cases "trim_end_matches p r = []") (auto simp: trim_end_matches_def dropWhile_append)
  then show ?thesis using set_trim_end_matches by blast
qed

lemma unified_letter:
  assumes "is_alphabetic_byte l" and "ascii_str r"
  obtains r' where "ascii_str r'" and "unified (l # CHR '':'' # backslash # r) = l # CHR '':'' # backslash # r'"
    and "unified (win ''//?/'' @ l # CHR '':'' # backslash # r)
       = win ''//?/'' @ l # CHR '':'' # backslash # r'"
proof -
  let ?u = "replace_byte (CHR ''/'') backslash r"
  have ascii: "ascii_str ?u" "is_ascii_byte l"
    using assms by (auto simp: ascii_str_replace is_alphabetic_byte_def) (cases l; auto)+
  have l: "l \<noteq> CHR ''/''" using assms(1) by (auto simp: is_alphabetic_byte_def)
  obtain r' where r': "trim_end_matches ascii_blank (backslash # ?u) = backslash # r'" "set r' \<subseteq> set ?u"
    using trim_end_matches_keep [of ascii_blank backslash ?u] by (auto simp: ascii_blank_def)
  then have tail: "trim_end_matches ascii_blank (a @ backslash # ?u) = a @ backslash # r'" for a
    by (subst trim_end_matches_append) simp_all
  have "unified (l # CHR '':'' # backslash # r) = l # CHR '':'' # backslash # r'"
    using ascii l letter_not_blank [OF assms(1)] tail [of "[l, CHR '':'']"]
    by (simp add: unified_def replace_byte_def trim_ascii)
  moreover have "unified (win ''//?/'' @ l # CHR '':'' # backslash # r)
       = win ''//?/'' @ l # CHR '':'' # backslash # r'"
    using ascii l tail [of "win ''//?/'' @ [l, CHR '':'']"]
    by (simp add: unified_def replace_byte_def trim_ascii win_def ascii_blank_def)
  moreover have "ascii_str r'" using r'(2) ascii(1) by (rule ascii_str_subset)
  ultimately show thesis using that by blast
qed

lemma split_root_extended:
  assumes "is_alphabetic_byte l" and "ascii_str r"
  shows "split_root (win ''//?/'' @ l # CHR '':'' # backslash # r)
       = Ret (Inr (DriveRooted, [upper_byte l, CHR '':''], r))"
proof -
  let ?d = "l # CHR '':'' # backslash # r" and ?t = "win ''//?/'' @ l # CHR '':'' # backslash # r"
  have ascii: "ascii_str ?t" "ascii_str ?d"
    using assms by (auto simp: is_alphabetic_byte_def) (cases l; auto)+
  have "strip_prefix_ci ?t (win ''//?/UNC/'') = Ret None"
    and "strip_prefix_ci ?t (win ''//?/'') = Ret (Some ?d)"
    by (simp_all add: strip_prefix_ci_ascii [OF ascii(1)]) (auto simp: win_def)
  moreover have "starts_with_globalroot ?d = Ret False"
    by (simp add: starts_with_globalroot_def strip_prefix_ci_ascii [OF ascii(2)]) (auto simp: win_def)
  ultimately show ?thesis
    using assms(1) by (simp add: split_root_def drive_root_def Let_def)
qed

text \<open>
  The extended prefix in front of an absolute ASCII drive path names the same canonical
  path: the one spelling canonicalises to a value exactly when the other does.
\<close>

theorem canonicalise_extended_prefix:
  assumes "is_alphabetic_byte l" and "ascii_str r"
  shows "canonicalise_syntactic (win ''//?/'' @ l # CHR '':'' # backslash # r) = Ret (Inr p)
     \<longleftrightarrow> canonicalise_syntactic (l # CHR '':'' # backslash # r) = Ret (Inr p)"
proof -
  obtain r' where r': "ascii_str r'"
    "unified (l # CHR '':'' # backslash # r) = l # CHR '':'' # backslash # r'"
    "unified (win ''//?/'' @ l # CHR '':'' # backslash # r) = win ''//?/'' @ l # CHR '':'' # backslash # r'"
    using assms by (rule unified_letter)
  have "CHR 0x00 \<in> set (win ''//?/'' @ l # CHR '':'' # backslash # r)
      \<longleftrightarrow> CHR 0x00 \<in> set (l # CHR '':'' # backslash # r)"
    by (simp add: win_def)
  then show ?thesis
    using canonical_of_original
    by (simp add: canonicalise_ret r' split_root_letter split_root_extended assms(1)) blast
qed

theorem canonicalise_extended_prefix_witness:
  "canonicalise_syntactic (win ''//?/c:/X'') = canonicalise_syntactic (win ''c:/X'')"
proof -
  have "canonicalise_syntactic (win ''c:/X'')
      = Ret (Inr \<lparr>path_text = win ''C:/X'', kind = DriveRooted, drive = Some (CHR ''C''),
                   components = [''X''], short_name = False, resolved_via_handle = False\<rparr>)"
    by code_simp
  moreover from this have "canonicalise_syntactic (win ''//?/c:/X'')
      = Ret (Inr \<lparr>path_text = win ''C:/X'', kind = DriveRooted, drive = Some (CHR ''C''),
                   components = [''X''], short_name = False, resolved_via_handle = False\<rparr>)"
    using canonicalise_extended_prefix [of "CHR ''c''" "''X''"]
    by (simp add: win_def is_alphabetic_byte_def)
  ultimately show ?thesis by simp
qed

end
