(* ===== verification/Reg_Keys.thy ===== *)
theory Reg_Keys
  imports Paths
begin

text \<open>
  Canonical registry keys, after the second half of \<open>core/src/safety/paths.rs\<close>: the hives, the
  two errors and \<open>canonicalise_reg_key\<close>.  Nothing here slices, so nothing panics.

  The lemmas show the shape of a canonical key, that reading its rendering gives the key back,
  and that letter case, separators and the long hive names make no difference.
\<close>

section \<open>Data\<close>

datatype hive = Hklm | Hkcu | Hku | Hkcr | Hkcc

definition short :: "hive \<Rightarrow> string" where
  "short h =
     (case h of
        Hklm \<Rightarrow> ''HKLM''
      | Hkcu \<Rightarrow> ''HKCU''
      | Hku \<Rightarrow> ''HKU''
      | Hkcr \<Rightarrow> ''HKCR''
      | Hkcc \<Rightarrow> ''HKCC'')"

datatype reg_key_error = UnknownHive string | EmptyKey

definition reg_key_error_text :: "reg_key_error \<Rightarrow> string" where
  "reg_key_error_text e =
     (case e of
        UnknownHive k \<Rightarrow> ''unknown or unsupported registry hive: '' @ k
      | EmptyKey \<Rightarrow> ''registry key is empty'')"

record canonical_reg_key =
  key_hive :: hive
  key_components :: "string list"
  key_text :: string

definition key_starts_with :: "canonical_reg_key \<Rightarrow> string list \<Rightarrow> bool" where
  "key_starts_with k prefix \<longleftrightarrow>
     length prefix \<le> length (key_components k)
     \<and> list_all (\<lambda>(want, have). eq_ignore_ascii_case have want) (zip prefix (key_components k))"

section \<open>Canonicalisation\<close>

text \<open>The \<open>match\<close> on the upper-cased first segment.\<close>

definition hive_of :: "string \<Rightarrow> hive option" where
  "hive_of head =
     (let up = to_ascii_uppercase head
      in if up = ''HKLM'' \<or> up = ''HKEY_LOCAL_MACHINE'' then Some Hklm
         else if up = ''HKCU'' \<or> up = ''HKEY_CURRENT_USER'' then Some Hkcu
         else if up = ''HKU'' \<or> up = ''HKEY_USERS'' then Some Hku
         else if up = ''HKCR'' \<or> up = ''HKEY_CLASSES_ROOT'' then Some Hkcr
         else if up = ''HKCC'' \<or> up = ''HKEY_CURRENT_CONFIG'' then Some Hkcc
         else None)"

definition key_segments :: "string list \<Rightarrow> string list" where
  "key_segments parts =
     map (\<lambda>segment. to_ascii_uppercase (trim segment)) (filter (\<lambda>segment. trim segment \<noteq> []) parts)"

definition render_key :: "hive \<Rightarrow> string list \<Rightarrow> string" where
  "render_key h comps = short h @ concat (map (\<lambda>c. backslash # c) comps)"

definition canonicalise_reg_key :: "string \<Rightarrow> reg_key_error + canonical_reg_key" where
  "canonicalise_reg_key input =
     (let trimmed = trim_matches (\<lambda>c. c = backslash) (trim (replace_byte (CHR ''/'') backslash input))
      in if trimmed = [] then Inl EmptyKey
         else
           (let parts = split_char backslash trimmed
            in case hive_of (hd parts) of
                 None \<Rightarrow> Inl (UnknownHive input)
               | Some h \<Rightarrow>
                   (let comps = key_segments (tl parts)
                    in Inr \<lparr>key_hive = h, key_components = comps, key_text = render_key h comps\<rparr>)))"

section \<open>Trimming twice\<close>

lemma strip_any_append:
  assumes "strip_any es a = None" and "\<forall>e \<in> set es. d \<notin> set e"
  shows "strip_any es (a @ d # b) = None"
proof -
  have "\<not> starts_with (a @ d # b) e" if e: "e \<in> set es" "e \<noteq> []" for e
  proof
    assume "starts_with (a @ d # b) e"
    then obtain r where r: "a @ d # b = e @ r" by (auto simp: starts_with_iff)
    show False
    proof (cases "length e \<le> length a")
      case True
      with r have "starts_with a e"
        by (metis starts_with_iff append_eq_append_conv_if append_take_drop_id)
      with assms(1) e show False by (auto simp: strip_any_None)
    next
      case False
      with r obtain us where "e = a @ d # us"
        by (auto simp: append_eq_append_conv2 Cons_eq_append_conv append_eq_Cons_conv)
      with assms(2) e(1) show False by auto
    qed
  qed
  then show ?thesis by (auto simp: strip_any_None)
qed

lemma strip_any_prefix: "strip_any es (a @ b) = None \<Longrightarrow> strip_any es a = None"
  by (auto simp: strip_any_None starts_with_iff)

definition trimmed :: "string \<Rightarrow> bool" where
  "trimmed s \<longleftrightarrow> strip_any white_space s = None \<and> strip_any (map rev white_space) (rev s) = None"

lemma trimmed_trim: "trimmed (trim s)"
proof -
  let ?t = "trim_start s"
  have front: "strip_any white_space ?t = None"
    unfolding trim_start_def by (rule trim_front_done)
  obtain w where "rev ?t = w @ trim_front (map rev white_space) (rev ?t)"
    using trim_front_suffix by blast
  then have "?t = trim s @ rev w"
    unfolding trim_def trim_end_def by (metis rev_append rev_rev_ident)
  with front have "strip_any white_space (trim s) = None" by (metis strip_any_prefix)
  then show ?thesis
    by (simp add: trimmed_def trim_def trim_end_def trim_front_done)
qed

lemma trim_trimmed: "trimmed s \<Longrightarrow> trim s = s"
  by (simp add: trimmed_def trim_def trim_end_def trim_start_def trim_front_stop)

lemma trim_idem [simp]: "trim (trim s) = trim s"
  by (rule trim_trimmed) (rule trimmed_trim)

lemma trimmed_upper: "trimmed s \<Longrightarrow> trimmed (to_ascii_uppercase s)"
proof -
  have "\<forall>w \<in> set (map rev white_space). \<forall>c \<in> set w. \<not> is_alphabetic_byte c"
    using white_space_nonletter by simp
  then show "trimmed s \<Longrightarrow> trimmed (to_ascii_uppercase s)"
    using white_space_nonletter by (simp add: trimmed_def strip_any_upper rev_upper)
qed

lemma white_space_no_backslash: "\<forall>e \<in> set white_space. backslash \<notin> set e"
  by (auto simp: white_space_def)

text \<open>Appending a trimmed, non-empty segment after a separator gives a text trimmed at its end.\<close>

lemma trimmed_joined:
  assumes "trimmed a" and "trimmed c"
  shows "trimmed (a @ backslash # c)"
proof -
  have "strip_any (map rev white_space) (rev c @ backslash # rev a) = None"
    using assms(2) white_space_no_backslash by (intro strip_any_append) (auto simp: trimmed_def)
  moreover have "strip_any white_space (a @ backslash # c) = None"
    using assms(1) white_space_no_backslash by (intro strip_any_append) (auto simp: trimmed_def)
  ultimately show ?thesis by (simp add: trimmed_def)
qed

section \<open>Shape\<close>

text \<open>
  A canonical segment: not empty, without white space around it, upper case, without a
  separator.
\<close>

definition canonical_segment :: "string \<Rightarrow> bool" where
  "canonical_segment c \<longleftrightarrow>
     c \<noteq> [] \<and> trimmed c \<and> to_ascii_uppercase c = c \<and> backslash \<notin> set c \<and> CHR ''/'' \<notin> set c"

lemma set_trim_matches: "set (trim_matches p s) \<subseteq> set s"
  unfolding trim_matches_def trim_start_matches_def
  using set_trim_end_matches [of p "dropWhile p s"] set_dropWhile_subset [of p s] by blast

lemma replace_no_slash: "CHR ''/'' \<notin> set (replace_byte (CHR ''/'') backslash s)"
  by (auto simp: replace_byte_def)

lemma key_segments_canonical:
  assumes "\<And>p. p \<in> set parts \<Longrightarrow> backslash \<notin> set p \<and> CHR ''/'' \<notin> set p"
  shows "list_all canonical_segment (key_segments parts)"
  using assms set_trim
  by (fastforce simp: key_segments_def list_all_iff canonical_segment_def trimmed_upper trimmed_trim
      upper_byte_not_in is_alphabetic_byte_def)

lemma reg_key_shape:
  assumes "canonicalise_reg_key s = Inr k"
  shows "list_all canonical_segment (key_components k)
    \<and> key_text k = render_key (key_hive k) (key_components k)"
proof -
  let ?t = "trim_matches (\<lambda>c. c = backslash) (trim (replace_byte (CHR ''/'') backslash s))"
  have "CHR ''/'' \<notin> set ?t"
    using set_trim_matches set_trim replace_no_slash by blast
  then have "backslash \<notin> set p \<and> CHR ''/'' \<notin> set p" if "p \<in> set (tl (split_char backslash ?t))" for p
    using list.set_sel(2) [OF split_on_nonempty that] by (auto dest: split_on_segments)
  then have "list_all canonical_segment (key_segments (tl (split_char backslash ?t)))"
    by (rule key_segments_canonical)
  with assms show ?thesis
    by (auto simp: canonicalise_reg_key_def Let_def split: if_splits option.splits)
qed

section \<open>Reading a rendered key back\<close>

lemma short_visible: "short h \<noteq> [] \<and> visible_byte (hd (short h)) \<and> visible_byte (last (short h))"
  by (cases h) (simp_all add: short_def visible_byte_def)

lemma short_trimmed: "trimmed (short h)"
  using trimmed_trim [of "short h"] by (simp add: trim_visible short_visible)

lemma hive_of_short: "hive_of (short h) = Some h"
  by (cases h) (simp_all add: short_def hive_of_def to_ascii_uppercase_def)

lemma short_separators: "backslash \<notin> set (short h) \<and> CHR ''/'' \<notin> set (short h)"
  by (cases h) (simp_all add: short_def)

lemma short_facts:
  "hive_of (short h) = Some h" "short h \<noteq> []" "trimmed (short h)"
  "backslash \<notin> set (short h)" "CHR ''/'' \<notin> set (short h)"
  using short_visible short_trimmed hive_of_short short_separators by blast+

lemma key_segments_fixed: "list_all canonical_segment comps \<Longrightarrow> key_segments comps = comps"
  by (induction comps) (auto simp: key_segments_def canonical_segment_def trim_trimmed)

lemma trimmed_render:
  "list_all canonical_segment comps \<Longrightarrow> trimmed (render_key h comps)"
proof (induction comps rule: rev_induct)
  case Nil
  then show ?case by (simp add: render_key_def short_facts)
next
  case (snoc c comps)
  then have "trimmed (render_key h comps @ backslash # c)"
    by (intro trimmed_joined) (auto simp: canonical_segment_def)
  then show ?case by (simp add: render_key_def)
qed

lemma trim_matches_bare:
  "s \<noteq> [] \<Longrightarrow> \<not> p (hd s) \<Longrightarrow> \<not> p (last s) \<Longrightarrow> trim_matches p s = s"
  by (cases s) (auto simp: trim_matches_def trim_start_matches_def intro: trim_end_matches_id)

lemma render_key_ends:
  assumes "list_all canonical_segment comps"
  shows "hd (render_key h comps) \<noteq> backslash" "last (render_key h comps) \<noteq> backslash"
    "render_key h comps \<noteq> []"
proof -
  show "hd (render_key h comps) \<noteq> backslash"
    using short_facts(2,4) [of h] by (cases "short h") (auto simp: render_key_def)
  show "render_key h comps \<noteq> []" using short_facts(2) [of h] by (simp add: render_key_def)
  show "last (render_key h comps) \<noteq> backslash"
  proof (cases comps rule: rev_cases)
    case Nil
    then show ?thesis using last_in_set [OF short_facts(2) [of h]] short_facts(4) [of h]
      by (auto simp: render_key_def)
  next
    case (snoc cs c)
    with assms have "c \<noteq> []" "backslash \<notin> set c" by (auto simp: canonical_segment_def)
    then have "last c \<noteq> backslash" using last_in_set [of c] by metis
    with snoc \<open>c \<noteq> []\<close> show ?thesis by (simp add: render_key_def)
  qed
qed

lemma render_key_no_slash:
  "list_all canonical_segment comps \<Longrightarrow> CHR ''/'' \<notin> set (render_key h comps)"
  using short_facts(5) [of h] by (auto simp: render_key_def list_all_iff canonical_segment_def)

lemma split_render:
  "list_all canonical_segment comps \<Longrightarrow> split_char backslash (render_key h comps) = short h # comps"
  unfolding render_key_def using short_facts(4)
  by (intro split_join) (auto simp: list_all_iff canonical_segment_def)

lemma canonicalise_render:
  "list_all canonical_segment comps \<Longrightarrow>
   canonicalise_reg_key (render_key h comps)
     = Inr \<lparr>key_hive = h, key_components = comps, key_text = render_key h comps\<rparr>"
  by (simp add: canonicalise_reg_key_def replace_byte_absent render_key_no_slash trim_trimmed
        trimmed_render trim_matches_bare render_key_ends split_render short_facts key_segments_fixed)

text \<open>
  Reading the rendering of a canonical key gives the key back, so two canonical keys are
  equal exactly when their texts are.
\<close>

theorem reg_key_roundtrip:
  assumes "canonicalise_reg_key s = Inr k"
  shows "canonicalise_reg_key (key_text k) = Inr k
    \<and> (canonicalise_reg_key t = Inr k' \<longrightarrow> (key_text k = key_text k' \<longleftrightarrow> k = k'))"
proof -
  have self: "canonicalise_reg_key (key_text k) = Inr k" if "canonicalise_reg_key s = Inr k" for s k
    using reg_key_shape [OF that] canonicalise_render [of "key_components k" "key_hive k"]
    by (cases k) simp
  show ?thesis
    using self [OF assms] self [of t k'] by (metis sum.inject(2))
qed

theorem reg_key_roundtrip_witness:
  "canonicalise_reg_key (win ''HKLM/SOFTWARE/FOO BAR'')
     = Inr \<lparr>key_hive = Hklm, key_components = [''SOFTWARE'', ''FOO BAR''],
            key_text = win ''HKLM/SOFTWARE/FOO BAR''\<rparr>"
proof -
  have "canonicalise_reg_key (win ''/hkey_local_machine//Software/ foo bar /'')
      = Inr \<lparr>key_hive = Hklm, key_components = [''SOFTWARE'', ''FOO BAR''],
            key_text = win ''HKLM/SOFTWARE/FOO BAR''\<rparr>"
    by code_simp
  from reg_key_roundtrip [OF this] show ?thesis by simp
qed

section \<open>Spelling\<close>

definition upper_key_error :: "reg_key_error \<Rightarrow> reg_key_error" where
  "upper_key_error e =
     (case e of UnknownHive k \<Rightarrow> UnknownHive (to_ascii_uppercase k) | EmptyKey \<Rightarrow> EmptyKey)"

lemma trim_matches_upper:
  "trim_matches (\<lambda>c. c = backslash) (to_ascii_uppercase s)
     = to_ascii_uppercase (trim_matches (\<lambda>c. c = backslash) s)"
proof -
  have drop: "dropWhile (\<lambda>c. c = backslash) (to_ascii_uppercase s)
      = to_ascii_uppercase (dropWhile (\<lambda>c. c = backslash) s)" for s
    by (simp add: to_ascii_uppercase_def dropWhile_map comp_def upper_byte_eq_nonletter is_alphabetic_byte_def)
  show ?thesis
    by (simp add: trim_matches_def trim_start_matches_def trim_end_matches_def rev_upper drop)
qed

lemma key_segments_upper: "key_segments (map to_ascii_uppercase parts) = key_segments parts"
  by (induction parts) (auto simp: key_segments_def trim_upper)

lemma canonicalise_reg_key_upper:
  "canonicalise_reg_key (to_ascii_uppercase s) = map_sum upper_key_error id (canonicalise_reg_key s)"
proof -
  let ?t = "trim_matches (\<lambda>c. c = backslash) (trim (replace_byte (CHR ''/'') backslash s))"
  have hive: "hive_of (hd (map to_ascii_uppercase (split_char backslash ?t)))
      = hive_of (hd (split_char backslash ?t))"
    by (simp add: hd_map hive_of_def)
  show ?thesis
    using key_segments_upper [of "tl (split_char backslash ?t)"]
    by (auto simp: canonicalise_reg_key_def Let_def upper_moves trim_matches_upper
        split_backslash_upper hive upper_key_error_def map_tl split: option.splits)
qed

lemma canonicalise_reg_key_unified:
  "map_sum (\<lambda>_. ()) id (canonicalise_reg_key (replace_byte (CHR ''/'') backslash s))
     = map_sum (\<lambda>_. ()) id (canonicalise_reg_key s)"
  by (auto simp: canonicalise_reg_key_def Let_def replace_byte_absent [OF replace_no_slash]
      split: option.splits)

text \<open>
  Letter case and the direction of the separators do not matter: a spelling that differs
  only in them canonicalises to the same key.
\<close>

theorem reg_key_spelling:
  assumes "canonicalise_reg_key s = Inr k"
    and "eq_ignore_ascii_case (replace_byte (CHR ''/'') backslash s) (replace_byte (CHR ''/'') backslash t)"
  shows "canonicalise_reg_key t = Inr k"
proof -
  let ?u = "replace_byte (CHR ''/'') backslash" and ?ok = "map_sum (\<lambda>_. ()) id"
  have same: "?ok (canonicalise_reg_key (to_ascii_uppercase (?u x))) = ?ok (canonicalise_reg_key x)" for x
    using canonicalise_reg_key_unified [of x]
    by (simp add: canonicalise_reg_key_upper map_sum.compositionality comp_def id_def)
  have "to_ascii_uppercase (?u s) = to_ascii_uppercase (?u t)"
    using assms(2) by (simp add: upper.fold_same)
  with same [of s] same [of t] have "?ok (canonicalise_reg_key t) = ?ok (canonicalise_reg_key s)"
    by simp
  with assms(1) show ?thesis by (simp add: map_sum_eq_Inr)
qed

theorem reg_key_spelling_witness:
  "canonicalise_reg_key (win ''Hklm/Software'')
     = Inr \<lparr>key_hive = Hklm, key_components = [''SOFTWARE''], key_text = win ''HKLM/SOFTWARE''\<rparr>"
  by (rule reg_key_spelling [of "''HKLM/SOFTWARE''"]; code_simp)

end
