(* ===== verification/Deny_Tables.thy ===== *)
theory Deny_Tables
  imports Reg_Keys
begin

text \<open>
  The compiled-in tables of \<open>core/src/safety/denylist.rs\<close>, the tests over them, the refusal
  reasons, the stage of a check and the two carve-outs a catalog entry can unlock.

  The lemmas show that the carve-outs never name anything that ships with Windows, never a
  directory, and that the tests ignore letter case.
\<close>

section \<open>Tables\<close>

definition protected_top_level :: "string list" where
  "protected_top_level =
     [''WINDOWS'', ''WINNT'', ''$RECYCLE.BIN'', ''SYSTEM VOLUME INFORMATION'', ''RECOVERY'',
      ''BOOT'', ''EFI'', ''PERFLOGS'', ''$WINDOWS.~BT'', ''$WINDOWS.~WS'']"

definition container_top_level :: "string list" where
  "container_top_level =
     [''USERS'', ''PROGRAMDATA'', ''PROGRAM FILES'', ''PROGRAM FILES (X86)'',
      ''DOCUMENTS AND SETTINGS'']"

definition containers :: "string list list" where
  "containers =
     [[''USERS'', ''*''], [''USERS'', ''*'', ''APPDATA''],
      [''USERS'', ''*'', ''APPDATA'', ''LOCAL''], [''USERS'', ''*'', ''APPDATA'', ''LOCALLOW''],
      [''USERS'', ''*'', ''APPDATA'', ''ROAMING''],
      [''USERS'', ''*'', ''APPDATA'', ''LOCAL'', ''PROGRAMS''],
      [''USERS'', ''*'', ''APPDATA'', ''LOCAL'', ''PACKAGES''],
      [''USERS'', ''*'', ''APPDATA'', ''LOCAL'', ''TEMP''], [''USERS'', ''*'', ''CONTACTS''],
      [''USERS'', ''*'', ''DESKTOP''], [''USERS'', ''*'', ''DOCUMENTS''],
      [''USERS'', ''*'', ''DOCUMENTS'', ''MY GAMES''], [''USERS'', ''*'', ''DOWNLOADS''],
      [''USERS'', ''*'', ''FAVORITES''], [''USERS'', ''*'', ''LINKS''],
      [''USERS'', ''*'', ''MUSIC''], [''USERS'', ''*'', ''ONEDRIVE''],
      [''USERS'', ''*'', ''PICTURES''], [''USERS'', ''*'', ''SAVED GAMES''],
      [''USERS'', ''*'', ''SEARCHES''], [''USERS'', ''*'', ''VIDEOS''],
      [''PROGRAM FILES'', ''COMMON FILES''], [''PROGRAM FILES (X86)'', ''COMMON FILES''],
      [''PROGRAMDATA'', ''PACKAGE CACHE''], [''PROGRAM FILES'', ''STEAM''],
      [''PROGRAM FILES (X86)'', ''STEAM'']]"

definition library_leaves :: "string list" where
  "library_leaves =
     [''STEAMLIBRARY'', ''STEAMAPPS'', ''EPIC GAMES'']"

definition steamapps_containers :: "string list" where
  "steamapps_containers =
     [''COMMON'', ''COMPATDATA'', ''DOWNLOADING'', ''SHADERCACHE'', ''SOURCEMODS'', ''TEMP'',
      ''WORKSHOP'']"

definition windows_data :: "string list list" where
  "windows_data =
     [[''USERS'', ''*'', ''APPDATA'', ''LOCAL'', ''MICROSOFT''],
      [''USERS'', ''*'', ''APPDATA'', ''LOCALLOW'', ''MICROSOFT''],
      [''USERS'', ''*'', ''APPDATA'', ''ROAMING'', ''MICROSOFT''],
      [''PROGRAM FILES'', ''WINDOWSAPPS''], [''PROGRAM FILES'', ''WINDOWS DEFENDER''],
      [''PROGRAM FILES'', ''WINDOWS DEFENDER ADVANCED THREAT PROTECTION''],
      [''PROGRAM FILES (X86)'', ''WINDOWS DEFENDER'']]"

definition user_hive_files :: "string list" where
  "user_hive_files =
     [''NTUSER.DAT'', ''USRCLASS.DAT'']"

definition inbox_drivers :: "string list" where
  "inbox_drivers =
     [''ACPI.SYS'', ''ACPIEX.SYS'', ''AFD.SYS'', ''AMDPPM.SYS'', ''BEEP.SYS'', ''BINDFLT.SYS'',
      ''BOWSER.SYS'', ''CDFS.SYS'', ''CDROM.SYS'', ''CLASSPNP.SYS'', ''CLFS.SYS'', ''CLIPSP.SYS'',
      ''CNG.SYS'', ''DISK.SYS'', ''DXGKRNL.SYS'', ''DXGMMS2.SYS'', ''EXFAT.SYS'', ''FASTFAT.SYS'',
      ''FILECRYPT.SYS'', ''FILEINFO.SYS'', ''FLTMGR.SYS'', ''FVEVOL.SYS'', ''HIDCLASS.SYS'',
      ''HIDPARSE.SYS'', ''HTTP.SYS'', ''I8042PRT.SYS'', ''INTELPPM.SYS'', ''KBDCLASS.SYS'',
      ''KBDHID.SYS'', ''KSECDD.SYS'', ''KSECPKG.SYS'', ''MOUCLASS.SYS'', ''MOUHID.SYS'',
      ''MOUNTMGR.SYS'', ''MRXSMB.SYS'', ''MSRPC.SYS'', ''MUP.SYS'', ''NDIS.SYS'', ''NETBT.SYS'',
      ''NETIO.SYS'', ''NPFS.SYS'', ''NSIPROXY.SYS'', ''NTFS.SYS'', ''NULL.SYS'', ''PARTMGR.SYS'',
      ''PCI.SYS'', ''PDC.SYS'', ''RDBSS.SYS'', ''REFS.SYS'', ''SPACEPORT.SYS'', ''SRV2.SYS'',
      ''SRVNET.SYS'', ''STORAHCI.SYS'', ''STORNVME.SYS'', ''STORPORT.SYS'', ''TCPIP.SYS'',
      ''TDX.SYS'', ''TM.SYS'', ''TPM.SYS'', ''UCX01000.SYS'', ''UDFS.SYS'', ''USBHUB3.SYS'',
      ''USBSTOR.SYS'', ''USBXHCI.SYS'', ''VHDMP.SYS'', ''VOLMGR.SYS'', ''VOLMGRX.SYS'',
      ''VOLSNAP.SYS'', ''VOLUME.SYS'', ''WCIFS.SYS'', ''WDBOOT.SYS'', ''WDF01000.SYS'',
      ''WDFILTER.SYS'', ''WDFLDR.SYS'', ''WDNISDRV.SYS'', ''WFPLWFS.SYS'', ''WOF.SYS'']"

definition inbox_services :: "string list" where
  "inbox_services =
     [''ACPI'', ''AFD'', ''APPXSVC'', ''BEEP'', ''BFE'', ''BROKERINFRASTRUCTURE'', ''CLIPSVC'',
      ''CNG'', ''COREMESSAGINGREGISTRAR'', ''CRYPTSVC'', ''DCOMLAUNCH'', ''DHCP'', ''DISK'',
      ''DNSCACHE'', ''EVENTLOG'', ''FASTFAT'', ''FILEINFO'', ''FLTMGR'', ''FVEVOL'', ''GPSVC'',
      ''KEYISO'', ''KSECDD'', ''KSECPKG'', ''LANMANSERVER'', ''LANMANWORKSTATION'', ''LSM'',
      ''MOUNTMGR'', ''MPSDRV'', ''MPSSVC'', ''MSRPC'', ''NDIS'', ''NETBT'', ''NPFS'', ''NSI'',
      ''NTFS'', ''NULL'', ''PARTMGR'', ''PCI'', ''PLUGPLAY'', ''POWER'', ''PROFSVC'', ''REFS'',
      ''RPCEPTMAPPER'', ''RPCSS'', ''SAMSS'', ''SCHEDULE'', ''SECURITYHEALTHSERVICE'', ''SENSE'',
      ''SPACEPORT'', ''STATEREPOSITORY'', ''STORAHCI'', ''STORNVME'', ''SYSTEMEVENTSBROKER'',
      ''TCPIP'', ''TCPIP6'', ''TDX'', ''TOKENBROKER'', ''TPM'', ''TRUSTEDINSTALLER'',
      ''USERMANAGER'', ''VAULTSVC'', ''VOLMGR'', ''VOLMGRX'', ''VOLSNAP'', ''VOLUME'',
      ''W32TIME'', ''WDBOOT'', ''WDF01000'', ''WDFILTER'', ''WDNISDRV'', ''WDNISSVC'',
      ''WINDEFEND'', ''WINMGMT'', ''WLIDSVC'', ''WOF'', ''WUAUSERV'']"

definition machine_container_keys :: "string list list" where
  "machine_container_keys =
     [[''SOFTWARE'', ''CLASSES''], [''SOFTWARE'', ''CLASSES'', ''APPID''],
      [''SOFTWARE'', ''CLASSES'', ''CLSID''], [''SOFTWARE'', ''CLASSES'', ''INTERFACE''],
      [''SOFTWARE'', ''CLASSES'', ''TYPELIB''], [''SOFTWARE'', ''CLIENTS''],
      [''SOFTWARE'', ''MICROSOFT''], [''SOFTWARE'', ''MICROSOFT'', ''WINDOWS''],
      [''SOFTWARE'', ''MICROSOFT'', ''WINDOWS'', ''CURRENTVERSION''],
      [''SOFTWARE'', ''MICROSOFT'', ''WINDOWS'', ''CURRENTVERSION'', ''APP PATHS''],
      [''SOFTWARE'', ''MICROSOFT'', ''WINDOWS'', ''CURRENTVERSION'', ''EXPLORER''],
      [''SOFTWARE'', ''MICROSOFT'', ''WINDOWS'', ''CURRENTVERSION'', ''RUN''],
      [''SOFTWARE'', ''MICROSOFT'', ''WINDOWS'', ''CURRENTVERSION'', ''RUNONCE''],
      [''SOFTWARE'', ''MICROSOFT'', ''WINDOWS'', ''CURRENTVERSION'', ''SHAREDDLLS''],
      [''SOFTWARE'', ''MICROSOFT'', ''WINDOWS'', ''CURRENTVERSION'', ''UNINSTALL''],
      [''SOFTWARE'', ''MICROSOFT'', ''WINDOWS NT''],
      [''SOFTWARE'', ''MICROSOFT'', ''WINDOWS NT'', ''CURRENTVERSION''],
      [''SOFTWARE'', ''MICROSOFT'', ''WINDOWS NT'', ''CURRENTVERSION'',
       ''IMAGE FILE EXECUTION OPTIONS''],
      [''SOFTWARE'', ''POLICIES''], [''SOFTWARE'', ''POLICIES'', ''MICROSOFT''],
      [''SOFTWARE'', ''REGISTEREDAPPLICATIONS''], [''SOFTWARE'', ''WOW6432NODE'']]"

definition machine_protected_keys :: "string list list" where
  "machine_protected_keys =
     [[''SOFTWARE'', ''MICROSOFT'', ''CRYPTOGRAPHY''],
      [''SOFTWARE'', ''MICROSOFT'', ''WINDOWS NT'', ''CURRENTVERSION'', ''WINLOGON''],
      [''SOFTWARE'', ''MICROSOFT'', ''WINDOWS DEFENDER''],
      [''SOFTWARE'', ''POLICIES'', ''MICROSOFT'', ''WINDOWS DEFENDER'']]"

definition user_container_keys :: "string list list" where
  "user_container_keys =
     [[''SOFTWARE'', ''CLASSES''], [''SOFTWARE'', ''CLASSES'', ''CLSID''],
      [''SOFTWARE'', ''MICROSOFT''], [''SOFTWARE'', ''MICROSOFT'', ''WINDOWS''],
      [''SOFTWARE'', ''MICROSOFT'', ''WINDOWS'', ''CURRENTVERSION''],
      [''SOFTWARE'', ''MICROSOFT'', ''WINDOWS'', ''CURRENTVERSION'', ''RUN''],
      [''SOFTWARE'', ''MICROSOFT'', ''WINDOWS'', ''CURRENTVERSION'', ''RUNONCE''],
      [''SOFTWARE'', ''MICROSOFT'', ''WINDOWS'', ''CURRENTVERSION'', ''UNINSTALL''],
      [''SOFTWARE'', ''POLICIES''], [''SOFTWARE'', ''WOW6432NODE'']]"

definition protected_machine_hives :: "string list" where
  "protected_machine_hives =
     [''SAM'', ''SECURITY'', ''HARDWARE'', ''COMPONENTS'', ''DRIVERS'']"

section \<open>Names that ship with Windows\<close>

definition is_inbox_driver :: "string \<Rightarrow> bool" where
  "is_inbox_driver file_name \<longleftrightarrow>
     list_ex (\<lambda>inbox. eq_ignore_ascii_case inbox (trim file_name)) inbox_drivers"

definition is_inbox_service :: "string \<Rightarrow> bool" where
  "is_inbox_service service_name \<longleftrightarrow>
     list_ex (\<lambda>inbox. eq_ignore_ascii_case inbox (trim service_name)) inbox_services"

section \<open>Refusals and stages\<close>

datatype deny_reason =
    ProtectedSystemPath
  | ProtectedTopLevelDirectory
  | ProtectedUserHive
  | ProtectedProgramData
  | ProtectedContainer
  | ProtectedWindowsData
  | VolumeRoot
  | TooShallow
  | NonLocalNamespace
  | EightDotThreeUnresolved
  | ReparsePointInPath
  | UnresolvedAtExecution
  | ProtectedRegistryHive
  | ProtectedSystemKey
  | ProtectedRegistryKey
  | UnknownServiceKey
  | RegistryKeyTooShallow

definition deny_reason_text :: "deny_reason \<Rightarrow> string" where
  "deny_reason_text r =
     (case r of
        ProtectedSystemPath \<Rightarrow> ''path is inside the Windows directory''
      | ProtectedTopLevelDirectory \<Rightarrow> ''path is a protected top-level directory''
      | ProtectedUserHive \<Rightarrow> ''path is a user registry hive''
      | ProtectedProgramData \<Rightarrow> win ''path is inside ProgramData/Microsoft''
      | ProtectedContainer \<Rightarrow>
          ''path is a folder that holds other software, and is never removed as a whole''
      | ProtectedWindowsData \<Rightarrow> ''path is inside data Windows owns''
      | VolumeRoot \<Rightarrow> ''path is a volume root''
      | TooShallow \<Rightarrow> ''path is too shallow to be removed safely''
      | NonLocalNamespace \<Rightarrow> ''path uses a UNC or device namespace''
      | EightDotThreeUnresolved \<Rightarrow> ''path contains an unresolved 8.3 alias''
      | ReparsePointInPath \<Rightarrow> ''path traverses a reparse point''
      | UnresolvedAtExecution \<Rightarrow> ''path was not resolved through an open handle''
      | ProtectedRegistryHive \<Rightarrow> ''registry key is inside a protected hive''
      | ProtectedSystemKey \<Rightarrow> ''registry key is system configuration outside the services key''
      | ProtectedRegistryKey \<Rightarrow>
          ''registry key holds other software'' @ [CHR 0x27] @ ''s keys, or belongs to Windows''
      | UnknownServiceKey \<Rightarrow> ''registry key is a service not named by the catalog''
      | RegistryKeyTooShallow \<Rightarrow> ''registry key is too shallow to be removed safely'')"

datatype stage = CatalogLoad | OnDisk bool

section \<open>Carve-outs\<close>

record exceptions =
  driver_files :: "string set"
  service_names :: "string set"

definition no_exceptions :: exceptions where
  "no_exceptions = \<lparr>driver_files = {}, service_names = {}\<rparr>"

text \<open>\<open>raw.rsplit(['\\', '/']).next()\<close> is the last segment.\<close>

definition base_file_name :: "string \<Rightarrow> string option" where
  "base_file_name raw =
     (let name = to_ascii_uppercase
            (trim (last (split_on (\<lambda>c. c = backslash \<or> c = CHR ''/'') raw)))
      in if name \<noteq> [] then Some name else None)"

definition new_exceptions :: "string list \<Rightarrow> string list \<Rightarrow> exceptions" where
  "new_exceptions drivers services =
     \<lparr>driver_files =
        set (filter (\<lambda>name. \<not> is_inbox_driver name) (List.map_filter base_file_name drivers)),
      service_names =
        set (filter (\<lambda>name. name \<noteq> [] \<and> \<not> is_inbox_service name)
               (map (\<lambda>name. to_ascii_uppercase (trim name)) services))\<rparr>"

definition allows_driver_file :: "exceptions \<Rightarrow> string \<Rightarrow> bool" where
  "allows_driver_file e file_name \<longleftrightarrow> to_ascii_uppercase file_name \<in> driver_files e"

definition allows_service :: "exceptions \<Rightarrow> string \<Rightarrow> bool" where
  "allows_service e service_name \<longleftrightarrow> to_ascii_uppercase service_name \<in> service_names e"

text \<open>One set of carve-outs below another.\<close>

definition exceptions_le :: "exceptions \<Rightarrow> exceptions \<Rightarrow> bool" where
  "exceptions_le a b \<longleftrightarrow>
     driver_files a \<subseteq> driver_files b \<and> service_names a \<subseteq> service_names b"

lemma no_exceptions_least: "exceptions_le no_exceptions e"
  by (simp add: exceptions_le_def no_exceptions_def)

lemma no_exceptions_allow [simp]:
  "\<not> allows_driver_file no_exceptions f" "\<not> allows_service no_exceptions s"
  by (simp_all add: allows_driver_file_def allows_service_def no_exceptions_def)

lemma allows_mono:
  "exceptions_le a b \<Longrightarrow> allows_driver_file a f \<Longrightarrow> allows_driver_file b f"
  "exceptions_le a b \<Longrightarrow> allows_service a s \<Longrightarrow> allows_service b s"
  by (auto simp: exceptions_le_def allows_driver_file_def allows_service_def)

section \<open>What a carve-out can name\<close>

lemma is_inbox_driver_upper [simp]: "is_inbox_driver (to_ascii_uppercase s) = is_inbox_driver s"
  by (simp add: is_inbox_driver_def trim_upper)

lemma is_inbox_service_upper [simp]: "is_inbox_service (to_ascii_uppercase s) = is_inbox_service s"
  by (simp add: is_inbox_service_def trim_upper)

lemma base_file_name_Some:
  assumes "base_file_name raw = Some name"
  shows "name \<noteq> [] \<and> backslash \<notin> set name \<and> CHR ''/'' \<notin> set name \<and> trimmed name
    \<and> to_ascii_uppercase name = name"
proof -
  let ?seg = "last (split_on (\<lambda>c. c = backslash \<or> c = CHR ''/'') raw)"
  have "?seg \<in> set (split_on (\<lambda>c. c = backslash \<or> c = CHR ''/'') raw)" by simp
  then have "backslash \<notin> set ?seg" "CHR ''/'' \<notin> set ?seg"
    using split_on_segments [OF \<open>?seg \<in> _\<close>] by blast+
  then have "backslash \<notin> set (trim ?seg)" "CHR ''/'' \<notin> set (trim ?seg)"
    using set_trim [of ?seg] by blast+
  with assms show ?thesis
    by (auto simp: base_file_name_def Let_def upper_byte_not_in is_alphabetic_byte_def
        trimmed_upper trimmed_trim split: if_splits)
qed

lemma new_exceptions_driver:
  assumes "allows_driver_file (new_exceptions ds ss) f"
  shows "\<not> is_inbox_driver f \<and> backslash \<notin> set f \<and> CHR ''/'' \<notin> set f
    \<and> (\<exists>d \<in> set ds. base_file_name d = Some (to_ascii_uppercase f))"
proof -
  from assms obtain d where d: "d \<in> set ds" "base_file_name d = Some (to_ascii_uppercase f)"
    and "\<not> is_inbox_driver f"
    by (auto simp: allows_driver_file_def new_exceptions_def map_filter_def)
  moreover from base_file_name_Some [OF d(2)] have "backslash \<notin> set f" "CHR ''/'' \<notin> set f"
    by (auto simp: upper_byte_not_in is_alphabetic_byte_def)
  ultimately show ?thesis by blast
qed

lemma new_exceptions_service:
  "allows_service (new_exceptions ds ss) s \<longleftrightarrow>
     s \<noteq> [] \<and> \<not> is_inbox_service s \<and> (\<exists>n \<in> set ss. eq_ignore_ascii_case (trim n) s)"
proof -
  have "(\<exists>n \<in> set ss. to_ascii_uppercase s = to_ascii_uppercase (trim n))
      \<longleftrightarrow> (\<exists>n \<in> set ss. eq_ignore_ascii_case (trim n) s)"
    by (metis upper.fold_same)
  moreover have "allows_service (new_exceptions ds ss) s \<longleftrightarrow>
      to_ascii_uppercase s \<noteq> [] \<and> \<not> is_inbox_service (to_ascii_uppercase s)
      \<and> (\<exists>n \<in> set ss. to_ascii_uppercase s = to_ascii_uppercase (trim n))"
    unfolding allows_service_def new_exceptions_def by (simp add: image_iff) blast
  ultimately show ?thesis by simp
qed

end
