(* ===== verification/Denylist.thy ===== *)
theory Denylist
  imports Deny_Tables
begin

text \<open>
  The two checks of \<open>core/src/safety/denylist.rs\<close>, branch by branch, and what they promise:
  which paths and keys pass, what a carve-out can change, that protected subtrees are refused
  at every depth, and where the key check can panic.

  The log line each check writes when it refuses is not modelled.
\<close>

section \<open>Patterns\<close>

definition starts_with_pattern :: "string list \<Rightarrow> string list \<Rightarrow> bool" where
  "starts_with_pattern comps pattern \<longleftrightarrow>
     length pattern \<le> length comps
     \<and> list_all (\<lambda>(want, have). want = ''*'' \<or> eq_ignore_ascii_case have want) (zip pattern comps)"

definition equals_pattern :: "string list \<Rightarrow> string list \<Rightarrow> bool" where
  "equals_pattern comps pattern \<longleftrightarrow>
     length comps = length pattern \<and> starts_with_pattern comps pattern"

definition is_container :: "string list \<Rightarrow> bool" where
  "is_container comps =
     (if list_ex (equals_pattern comps) containers then True
      else case rev comps of
             [] \<Rightarrow> False
           | leaf # outer \<Rightarrow>
               if list_ex (\<lambda>name. eq_ignore_ascii_case leaf name) library_leaves then True
               else case outer of
                      [] \<Rightarrow> False
                    | steamapps # _ \<Rightarrow>
                        eq_ignore_ascii_case steamapps ''STEAMAPPS''
                        \<and> list_ex (\<lambda>name. eq_ignore_ascii_case leaf name) steamapps_containers)"

section \<open>Paths\<close>

definition windows_directory_exception ::
    "canonical_path \<Rightarrow> exceptions \<Rightarrow> deny_reason + unit" where
  "windows_directory_exception path e =
     (let comps = components path;
          is_driver_file =
            length comps = 4
            \<and> eq_ignore_ascii_case (comps ! 0) ''WINDOWS''
            \<and> eq_ignore_ascii_case (comps ! 1) ''SYSTEM32''
            \<and> eq_ignore_ascii_case (comps ! 2) ''DRIVERS''
            \<and> allows_driver_file e (comps ! 3)
      in if is_driver_file then Inr ()
         else if length comps = 1 then Inl ProtectedTopLevelDirectory
         else Inl ProtectedSystemPath)"

text \<open>The evidence a check of something on disk demands before it looks at the path.\<close>

definition stage_refusal :: "canonical_path \<Rightarrow> stage \<Rightarrow> deny_reason option" where
  "stage_refusal path stg =
     (case stg of
        CatalogLoad \<Rightarrow> None
      | OnDisk traverses_reparse_point \<Rightarrow>
          if traverses_reparse_point then Some ReparsePointInPath
          else if \<not> resolved_via_handle path then Some UnresolvedAtExecution
          else None)"

definition min_components_under_drive_root :: nat where
  "min_components_under_drive_root = 2"

definition evaluate_path :: "canonical_path \<Rightarrow> exceptions \<Rightarrow> stage \<Rightarrow> deny_reason + unit" where
  "evaluate_path path e stg =
     (case stage_refusal path stg of
        Some reason \<Rightarrow> Inl reason
      | None \<Rightarrow>
          if short_name path then Inl EightDotThreeUnresolved
          else if kind path \<noteq> DriveRooted then Inl NonLocalNamespace
          else (case components path of
                  [] \<Rightarrow> Inl VolumeRoot
                | first # _ \<Rightarrow>
                    if list_ex (\<lambda>p. eq_ignore_ascii_case p first) protected_top_level
                    then windows_directory_exception path e
                    else if length (components path) = 1
                      \<and> list_ex (\<lambda>p. eq_ignore_ascii_case p first) container_top_level
                    then Inl ProtectedTopLevelDirectory
                    else if list_ex (\<lambda>hive. starts_with (last (components path)) hive) user_hive_files
                    then Inl ProtectedUserHive
                    else if path_starts_with path [''ProgramData'', ''Microsoft'']
                    then Inl ProtectedProgramData
                    else if list_ex (starts_with_pattern (components path)) windows_data
                    then Inl ProtectedWindowsData
                    else if is_container (components path) then Inl ProtectedContainer
                    else if length (components path) < min_components_under_drive_root
                    then Inl TooShallow
                    else Inr ()))"

definition check_path :: "canonical_path \<Rightarrow> exceptions \<Rightarrow> stage \<Rightarrow> deny_reason + unit" where
  "check_path path e stg = evaluate_path path e stg"

section \<open>Registry keys\<close>

definition shallow_floor :: "string list \<Rightarrow> deny_reason + unit" where
  "shallow_floor comps = (if length comps < 2 then Inl RegistryKeyTooShallow else Inr ())"

definition evaluate_user_key :: "string list \<Rightarrow> deny_reason + unit" where
  "evaluate_user_key comps =
     (if list_ex (equals_pattern comps) user_container_keys then Inl ProtectedRegistryKey
      else shallow_floor comps)"

datatype service_key = NamedService string | OtherService

text \<open>
  \<open>SYSTEM\{CurrentControlSet,ControlSetNNN}\Services[\<name>]\<close>.  The slices \<open>[..10]\<close> and \<open>[10..]\<close>
  of the control set panic inside a character.
\<close>

definition is_control_set :: "string \<Rightarrow> bool run" where
  "is_control_set control_set =
     (if eq_ignore_ascii_case control_set ''CURRENTCONTROLSET'' then Ret True
      else if 10 < length control_set
      then bind_run (slice_to control_set 10) (\<lambda>head.
             if eq_ignore_ascii_case head ''CONTROLSET''
             then bind_run (slice_from control_set 10) (\<lambda>digits.
                    Ret (list_all is_digit_byte digits))
             else Ret False)
      else Ret False)"

definition service_key_leaf :: "string list \<Rightarrow> service_key option run" where
  "service_key_leaf comps =
     (case comps of
        system # control_set # services # rest \<Rightarrow>
          if \<not> eq_ignore_ascii_case system ''SYSTEM'' \<or> \<not> eq_ignore_ascii_case services ''SERVICES''
          then Ret None
          else bind_run (is_control_set control_set) (\<lambda>ok.
                 Ret (if \<not> ok then None
                      else case rest of [name] \<Rightarrow> Some (NamedService name) | _ \<Rightarrow> Some OtherService))
      | _ \<Rightarrow> Ret None)"

definition native_view :: "string list \<Rightarrow> string list option" where
  "native_view comps =
     (case comps of
        software # wow # rest \<Rightarrow>
          if eq_ignore_ascii_case software ''SOFTWARE'' \<and> eq_ignore_ascii_case wow ''WOW6432NODE''
          then Some (software # rest) else None
      | _ \<Rightarrow> None)"

text \<open>What is left of \<open>HKLM\<close> once the hives and the services are decided.\<close>

definition evaluate_software_key :: "string list \<Rightarrow> deny_reason + unit" where
  "evaluate_software_key comps =
     (let native = native_view comps;
          views = comps # (case native of None \<Rightarrow> [] | Some view \<Rightarrow> [view])
      in if list_ex (\<lambda>view. list_ex (starts_with_pattern view) machine_protected_keys) views
         then Inl ProtectedRegistryKey
         else if list_ex (equals_pattern comps) machine_container_keys
           \<or> (case native of
                None \<Rightarrow> False
              | Some view \<Rightarrow> 1 < length view \<and> list_ex (equals_pattern view) machine_container_keys)
         then Inl ProtectedRegistryKey
         else shallow_floor comps)"

definition evaluate_machine_key :: "string list \<Rightarrow> exceptions \<Rightarrow> (deny_reason + unit) run" where
  "evaluate_machine_key comps e =
     (if (case comps of
            [] \<Rightarrow> False
          | first # _ \<Rightarrow> starts_with first ''BCD''
              \<or> list_ex (\<lambda>hive. eq_ignore_ascii_case first hive) protected_machine_hives)
      then Ret (Inl ProtectedRegistryHive)
      else bind_run (service_key_leaf comps) (\<lambda>leaf.
        case leaf of
          Some (NamedService name) \<Rightarrow>
            Ret (if allows_service e name then Inr () else Inl UnknownServiceKey)
        | Some OtherService \<Rightarrow> Ret (Inl UnknownServiceKey)
        | None \<Rightarrow>
            if (case comps of [] \<Rightarrow> False | first # _ \<Rightarrow> eq_ignore_ascii_case first ''SYSTEM'')
            then Ret (Inl ProtectedSystemKey)
            else Ret (evaluate_software_key comps)))"

definition evaluate_registry_key ::
    "canonical_reg_key \<Rightarrow> exceptions \<Rightarrow> (deny_reason + unit) run" where
  "evaluate_registry_key key e =
     (let comps = key_components key
      in case key_hive key of
           Hklm \<Rightarrow> evaluate_machine_key comps e
         | Hkcu \<Rightarrow> Ret (evaluate_user_key comps)
         | Hku \<Rightarrow>
             Ret (case comps of
                    [] \<Rightarrow> Inl RegistryKeyTooShallow
                  | [_] \<Rightarrow> Inl RegistryKeyTooShallow
                  | user # rest \<Rightarrow>
                      if ends_with user ''_CLASSES''
                      then evaluate_user_key ([''SOFTWARE'', ''CLASSES''] @ rest)
                      else evaluate_user_key rest)
         | Hkcc \<Rightarrow> Ret (Inl ProtectedSystemKey)
         | Hkcr \<Rightarrow> Ret (shallow_floor comps))"

definition check_registry_key ::
    "canonical_reg_key \<Rightarrow> exceptions \<Rightarrow> (deny_reason + unit) run" where
  "check_registry_key key e = evaluate_registry_key key e"

lemmas path_check_defs [deny_defs] =
  check_path_def evaluate_path_def stage_refusal_def windows_directory_exception_def
  min_components_under_drive_root_def

lemmas key_check_defs [deny_defs] =
  check_registry_key_def evaluate_registry_key_def evaluate_machine_key_def shallow_floor_def

section \<open>The specification of the path check\<close>

text \<open>
  Subtrees refused at every depth, directories and files refused on their own, and the one
  carve-out: a named driver file directly inside \<open>WINDOWS\SYSTEM32\DRIVERS\<close>.
\<close>

definition subtree_patterns :: "string list list" where
  "subtree_patterns =
     map (\<lambda>first. [first]) protected_top_level @ [''PROGRAMDATA'', ''MICROSOFT''] # windows_data"

definition in_refused_subtree :: "string list \<Rightarrow> bool" where
  "in_refused_subtree comps \<longleftrightarrow> list_ex (starts_with_pattern comps) subtree_patterns"

definition refused_alone :: "string list \<Rightarrow> bool" where
  "refused_alone comps \<longleftrightarrow>
     length comps < 2
     \<or> list_ex (starts_with (last comps)) user_hive_files
     \<or> is_container comps"

definition driver_carve_out :: "string list \<Rightarrow> exceptions \<Rightarrow> bool" where
  "driver_carve_out comps e \<longleftrightarrow>
     equals_pattern comps [''WINDOWS'', ''SYSTEM32'', ''DRIVERS'', ''*'']
     \<and> allows_driver_file e (last comps)"

lemma starts_with_pattern_Nil [simp]: "starts_with_pattern comps []"
  by (simp add: starts_with_pattern_def)

lemma starts_with_pattern_Cons [simp]:
  "starts_with_pattern (c # comps) (want # pattern) \<longleftrightarrow>
     (want = ''*'' \<or> eq_ignore_ascii_case c want) \<and> starts_with_pattern comps pattern"
  "\<not> starts_with_pattern [] (want # pattern)"
  by (auto simp: starts_with_pattern_def)

lemma starts_with_pattern_append: "starts_with_pattern a pattern \<Longrightarrow> starts_with_pattern (a @ b) pattern"
  by (induction a arbitrary: pattern) (case_tac pattern; simp)+

lemma in_refused_subtree_append: "in_refused_subtree a \<Longrightarrow> in_refused_subtree (a @ b)"
  by (auto simp: in_refused_subtree_def list_ex_iff intro: starts_with_pattern_append)

lemma path_starts_with_pattern:
  "''*'' \<notin> set pattern \<Longrightarrow> path_starts_with p pattern \<longleftrightarrow> starts_with_pattern (components p) pattern"
  by (auto simp: path_starts_with_def starts_with_pattern_def list_all_iff dest: set_zip_leftD)

lemma program_data_case:
  "eq_ignore_ascii_case c ''ProgramData'' = eq_ignore_ascii_case c ''PROGRAMDATA''"
  "eq_ignore_ascii_case c ''Microsoft'' = eq_ignore_ascii_case c ''MICROSOFT''"
  by (simp_all add: eq_ignore_ascii_case_def to_ascii_lowercase_def)

lemma program_data_pattern:
  "path_starts_with p [''ProgramData'', ''Microsoft'']
     = starts_with_pattern (components p) [''PROGRAMDATA'', ''MICROSOFT'']"
proof -
  have "path_starts_with p [''ProgramData'', ''Microsoft'']
      = starts_with_pattern (components p) [''ProgramData'', ''Microsoft'']"
    by (rule path_starts_with_pattern) simp
  then show ?thesis
    by (cases "components p" rule: remdups_adj.cases) (simp_all add: program_data_case)
qed

lemma protected_no_star: "''*'' \<notin> set protected_top_level"
  by (simp add: protected_top_level_def)

lemma first_pattern:
  "first # cs = comps \<Longrightarrow>
   list_ex (\<lambda>p. eq_ignore_ascii_case p first) protected_top_level
     = list_ex (starts_with_pattern comps) (map (\<lambda>t. [t]) protected_top_level)"
  using protected_no_star by (auto simp: list_ex_iff) (metis upper.eq_ic_sym)+

lemma windows_protected:
  "eq_ignore_ascii_case first ''WINDOWS'' \<Longrightarrow> list_ex (\<lambda>p. eq_ignore_ascii_case p first) protected_top_level"
  by (simp add: protected_top_level_def upper.eq_ic_sym)

lemma container_top_short:
  "length comps = 1 \<Longrightarrow> refused_alone comps"
  by (simp add: refused_alone_def)

lemma windows_exception_carve:
  "windows_directory_exception p e = Inr () \<longleftrightarrow> driver_carve_out (components p) e"
proof (cases "length (components p) = 4")
  case True
  then obtain a b c d where "components p = [a, b, c, d]"
    by (auto simp: numeral_eq_Suc length_Suc_conv)
  then show ?thesis
    by (auto simp: windows_directory_exception_def driver_carve_out_def equals_pattern_def Let_def)
qed (simp add: windows_directory_exception_def driver_carve_out_def equals_pattern_def Let_def)

lemma carve_out_protected:
  "driver_carve_out comps e \<Longrightarrow> comps \<noteq> [] \<and> list_ex (\<lambda>p. eq_ignore_ascii_case p (hd comps)) protected_top_level"
  by (cases comps) (auto simp: driver_carve_out_def equals_pattern_def intro: windows_protected)

lemma check_path_iff:
  "check_path p e stg = Inr () \<longleftrightarrow>
     stage_refusal p stg = None \<and> \<not> short_name p \<and> kind p = DriveRooted
     \<and> (driver_carve_out (components p) e
        \<or> \<not> in_refused_subtree (components p) \<and> \<not> refused_alone (components p))"
proof (cases "components p")
  case Nil
  then show ?thesis
    by (auto simp: check_path_def evaluate_path_def driver_carve_out_def equals_pattern_def
        refused_alone_def split: option.splits)
next
  case (Cons first cs)
  show ?thesis
  proof (cases "list_ex (\<lambda>p. eq_ignore_ascii_case p first) protected_top_level")
    case True
    then have "in_refused_subtree (components p)"
      using first_pattern [of first cs] Cons by (simp add: in_refused_subtree_def subtree_patterns_def)
    with True Cons show ?thesis
      by (auto simp: check_path_def evaluate_path_def windows_exception_carve split: option.splits)
  next
    case False
    then have "\<not> driver_carve_out (components p) e"
      using carve_out_protected Cons by fastforce
    moreover have "in_refused_subtree (components p) \<longleftrightarrow>
        path_starts_with p [''ProgramData'', ''Microsoft'']
        \<or> list_ex (starts_with_pattern (components p)) windows_data"
      using False first_pattern [of first cs] Cons
      by (simp add: in_refused_subtree_def subtree_patterns_def program_data_pattern)
    ultimately show ?thesis
      using False Cons
      by (auto simp: check_path_def evaluate_path_def refused_alone_def
          min_components_under_drive_root_def split: option.splits)
  qed
qed

section \<open>What the path check promises\<close>

text \<open>
  C3. The path check lets through exactly this: nothing the stage refuses, a drive-rooted path
  without an unexpanded alias, and either the driver carve-out or a path in no refused
  subtree that is not refused on its own.
\<close>

theorem check_path_allows:
  "check_path p e stg = Inr () \<longleftrightarrow>
     stage_refusal p stg = None \<and> \<not> short_name p \<and> kind p = DriveRooted
     \<and> (driver_carve_out (components p) e
        \<or> \<not> in_refused_subtree (components p) \<and> \<not> refused_alone (components p))"
  by (rule check_path_iff)

lemma check_path_refused_subtree:
  "in_refused_subtree (components p) \<Longrightarrow> check_path p e stg = Inr () \<Longrightarrow>
   driver_carve_out (components p) e"
  by (auto simp: check_path_iff)

lemma check_path_reason_subtree:
  assumes "check_path p e stg = Inl r"
    and "r \<in> {ProtectedSystemPath, ProtectedProgramData, ProtectedWindowsData}"
  shows "in_refused_subtree (components p)"
proof -
  obtain first cs where comps: "components p = first # cs"
    using assms by (cases "components p")
      (auto simp: check_path_def evaluate_path_def stage_refusal_def
        split: option.splits if_splits stage.splits)
  have "list_ex (\<lambda>p. eq_ignore_ascii_case p first) protected_top_level
      \<or> path_starts_with p [''ProgramData'', ''Microsoft'']
      \<or> list_ex (starts_with_pattern (components p)) windows_data"
    using assms comps
    by (auto simp: check_path_def evaluate_path_def stage_refusal_def
        split: option.splits if_splits stage.splits)
  with first_pattern [of first cs] comps show ?thesis
    by (auto simp: in_refused_subtree_def subtree_patterns_def program_data_pattern)
qed

text \<open>
  A subtree refused as Windows', as \<open>ProgramData\Microsoft\<close> or as data Windows owns is
  refused at every depth, at every stage and whatever a catalog unlocks; the driver carve-out
  is the only way in.
\<close>

theorem refused_subtree_closed:
  assumes "check_path p e stg = Inl r"
    and "r \<in> {ProtectedSystemPath, ProtectedProgramData, ProtectedWindowsData}"
    and "components q = components p @ below"
  shows "check_path q e' stg' \<noteq> Inr () \<or> driver_carve_out (components q) e'"
proof -
  have "in_refused_subtree (components q)"
    unfolding assms(3) by (intro in_refused_subtree_append check_path_reason_subtree [OF assms(1,2)])
  then show ?thesis using check_path_refused_subtree by blast
qed

definition sample_path :: "string list \<Rightarrow> canonical_path" where
  "sample_path comps =
     \<lparr>path_text = render DriveRooted ''C:'' comps, kind = DriveRooted, drive = Some (CHR ''C''),
      components = comps, short_name = False, resolved_via_handle = False\<rparr>"

theorem refused_subtree_closed_witness:
  "check_path (sample_path [''PROGRAMDATA'', ''MICROSOFT'', ''X'']) no_exceptions CatalogLoad \<noteq> Inr ()"
proof -
  have "check_path (sample_path [''PROGRAMDATA'', ''MICROSOFT'']) no_exceptions CatalogLoad
      = Inl ProtectedProgramData"
    by code_simp
  from refused_subtree_closed [OF this, of "sample_path [''PROGRAMDATA'', ''MICROSOFT'', ''X'']" "[''X'']"]
  show ?thesis by (auto simp: sample_path_def driver_carve_out_def equals_pattern_def)
qed

text \<open>
  A check of something on disk is the catalog check with the evidence added: it passes
  exactly when the path came from an open handle, meets no reparse point and passes the
  catalog check.
\<close>

theorem check_path_on_disk:
  "check_path p e (OnDisk traverses) = Inr () \<longleftrightarrow>
     \<not> traverses \<and> resolved_via_handle p \<and> check_path p e CatalogLoad = Inr ()"
  by (auto simp: check_path_iff stage_refusal_def)

lemma carve_out_in_subtree: "driver_carve_out comps e \<Longrightarrow> in_refused_subtree comps"
  using carve_out_protected [of comps e] first_pattern [of "hd comps" "tl comps"]
  by (auto simp: in_refused_subtree_def subtree_patterns_def)

lemma carve_out_mono: "exceptions_le a b \<Longrightarrow> driver_carve_out comps a \<Longrightarrow> driver_carve_out comps b"
  by (auto simp: driver_carve_out_def allows_mono)

lemma check_path_mono:
  "exceptions_le a b \<Longrightarrow> check_path p a stg = Inr () \<Longrightarrow> check_path p b stg = Inr ()"
  by (auto simp: check_path_iff carve_out_mono)

lemma check_path_widened:
  assumes "check_path p e stg = Inr ()" and "check_path p no_exceptions stg \<noteq> Inr ()"
  shows "driver_carve_out (components p) e"
  using assms by (auto simp: check_path_iff)

text \<open>
  A catalog entry's names change the verdict on a path in one way only: they admit a
  driver file directly inside \<open>WINDOWS\SYSTEM32\DRIVERS\<close> that the entry named and that does
  not ship with Windows.
\<close>

theorem path_carve_outs:
  assumes "check_path p (new_exceptions ds ss) stg = Inr ()"
    and "check_path p no_exceptions stg \<noteq> Inr ()"
  shows "equals_pattern (components p) [''WINDOWS'', ''SYSTEM32'', ''DRIVERS'', ''*'']
    \<and> kind p = DriveRooted
    \<and> \<not> is_inbox_driver (last (components p))
    \<and> (\<exists>d \<in> set ds. base_file_name d = Some (to_ascii_uppercase (last (components p))))"
  using check_path_widened [OF assms] assms(1)
  by (auto simp: driver_carve_out_def check_path_iff dest: new_exceptions_driver)

theorem path_carve_outs_witness:
  "check_path (sample_path [''WINDOWS'', ''SYSTEM32'', ''DRIVERS'', ''EXAC.SYS''])
     (new_exceptions [win ''x/exac.sys''] []) CatalogLoad = Inr ()
   \<and> \<not> is_inbox_driver ''EXAC.SYS''"
proof -
  let ?p = "sample_path [''WINDOWS'', ''SYSTEM32'', ''DRIVERS'', ''EXAC.SYS'']"
    and ?e = "new_exceptions [win ''x/exac.sys''] []"
  have "check_path ?p ?e CatalogLoad = Inr ()"
    by code_simp
  moreover have "check_path ?p no_exceptions CatalogLoad \<noteq> Inr ()"
    by code_simp
  ultimately show ?thesis
    using path_carve_outs [of ?p "[win ''x/exac.sys'']" "[]" CatalogLoad]
    by (simp add: sample_path_def)
qed

section \<open>What the key check promises\<close>

text \<open>The control sets and the service keys, without the slices.\<close>

definition control_set_name :: "string \<Rightarrow> bool" where
  "control_set_name s \<longleftrightarrow>
     eq_ignore_ascii_case s ''CURRENTCONTROLSET''
     \<or> 10 < length s \<and> eq_ignore_ascii_case (take 10 s) ''CONTROLSET''
        \<and> list_all is_digit_byte (drop 10 s)"

definition in_services :: "string list \<Rightarrow> string list \<Rightarrow> bool" where
  "in_services comps rest \<longleftrightarrow>
     (\<exists>system control_set services.
        comps = system # control_set # services # rest
        \<and> eq_ignore_ascii_case system ''SYSTEM'' \<and> eq_ignore_ascii_case services ''SERVICES''
        \<and> control_set_name control_set)"

definition slices_inside_character :: "string list \<Rightarrow> bool" where
  "slices_inside_character comps \<longleftrightarrow>
     (\<exists>system control_set services rest.
        comps = system # control_set # services # rest
        \<and> eq_ignore_ascii_case system ''SYSTEM'' \<and> eq_ignore_ascii_case services ''SERVICES''
        \<and> 10 < length control_set \<and> \<not> is_char_boundary control_set 10
        \<and> \<not> eq_ignore_ascii_case control_set ''CURRENTCONTROLSET'')"

lemma digit_not_continuation: "is_digit_byte c \<Longrightarrow> \<not> is_continuation_byte c"
  by (cases c) auto

lemma control_set_boundary:
  "control_set_name s \<Longrightarrow> \<not> eq_ignore_ascii_case s ''CURRENTCONTROLSET'' \<Longrightarrow> is_char_boundary s 10"
proof -
  assume "control_set_name s" "\<not> eq_ignore_ascii_case s ''CURRENTCONTROLSET''"
  then have len: "10 < length s" and digits: "list_all is_digit_byte (drop 10 s)"
    by (auto simp: control_set_name_def)
  then have "s ! 10 \<in> set (drop 10 s)"
    by (metis Cons_nth_drop_Suc list.set_intros(1))
  with digits have "is_digit_byte (s ! 10)" by (auto simp: list_all_iff)
  with len show ?thesis by (simp add: is_char_boundary_def digit_not_continuation)
qed

lemma is_control_set_eq:
  "is_control_set s =
     (if \<not> eq_ignore_ascii_case s ''CURRENTCONTROLSET'' \<and> 10 < length s \<and> \<not> is_char_boundary s 10
      then Panic else Ret (control_set_name s))"
  by (auto simp: is_control_set_def control_set_name_def slice_to_def slice_from_def)

lemma service_key_leaf_eq:
  "service_key_leaf comps =
     (if slices_inside_character comps then Panic
      else Ret (case comps of
                  system # control_set # services # rest \<Rightarrow>
                    if in_services comps rest
                    then Some (case rest of [name] \<Rightarrow> NamedService name | _ \<Rightarrow> OtherService)
                    else None
                | _ \<Rightarrow> None))"
proof (cases comps rule: remdups_adj.cases)
  case (3 system control_set more)
  then show ?thesis
    by (cases more) (auto simp: service_key_leaf_def slices_inside_character_def in_services_def
        is_control_set_eq control_set_boundary split: list.splits)
qed (auto simp: service_key_leaf_def slices_inside_character_def)

definition hive_refused :: "string list \<Rightarrow> bool" where
  "hive_refused comps \<longleftrightarrow>
     (case comps of
        [] \<Rightarrow> False
      | first # _ \<Rightarrow> starts_with first ''BCD''
          \<or> list_ex (\<lambda>hive. eq_ignore_ascii_case first hive) protected_machine_hives)"

definition in_system :: "string list \<Rightarrow> bool" where
  "in_system comps \<longleftrightarrow> (case comps of [] \<Rightarrow> False | first # _ \<Rightarrow> eq_ignore_ascii_case first ''SYSTEM'')"

lemma hives_not_system:
  "list_all (\<lambda>hive. \<not> eq_ignore_ascii_case hive ''SYSTEM'') protected_machine_hives"
  by code_simp

lemma system_not_hive:
  assumes "eq_ignore_ascii_case first ''SYSTEM''"
  shows "\<not> list_ex (\<lambda>hive. eq_ignore_ascii_case first hive) protected_machine_hives"
    and "\<not> starts_with first ''BCD''"
proof -
  have "eq_ignore_ascii_case hive ''SYSTEM''" if "eq_ignore_ascii_case first hive" for hive
    by (rule upper.eq_ic_trans [OF upper.eq_ic_sym [OF that] assms])
  then show "\<not> list_ex (\<lambda>hive. eq_ignore_ascii_case first hive) protected_machine_hives"
    using hives_not_system by (auto simp: list_all_iff list_ex_iff)
  show "\<not> starts_with first ''BCD''" using assms by (cases first) (auto simp only: eq_ic_Cons starts_with.simps lower_byte_bits is_upper_byte_bits simp_thms list.inject char.inject, simp_all)
qed

lemma in_system_not_hive: "in_system comps \<Longrightarrow> \<not> hive_refused comps"
  by (cases comps) (simp_all add: in_system_def hive_refused_def system_not_hive)

lemma services_in_system:
  "in_services comps rest \<Longrightarrow> in_system comps" "slices_inside_character comps \<Longrightarrow> in_system comps"
  by (auto simp: in_services_def in_system_def slices_inside_character_def)

lemma evaluate_machine_key_eq:
  "evaluate_machine_key comps e =
     (if hive_refused comps then Ret (Inl ProtectedRegistryHive)
      else if slices_inside_character comps then Panic
      else if \<exists>rest. in_services comps rest
        then Ret (if \<exists>name. in_services comps [name] \<and> allows_service e name
                  then Inr () else Inl UnknownServiceKey)
      else if in_system comps then Ret (Inl ProtectedSystemKey)
      else Ret (evaluate_software_key comps))"
proof (cases comps rule: remdups_adj.cases)
  case (3 system control_set more)
  then show ?thesis
    by (cases more) (auto simp: evaluate_machine_key_def service_key_leaf_eq hive_refused_def in_system_def
        in_services_def split: list.splits)
qed (auto simp: evaluate_machine_key_def service_key_leaf_eq hive_refused_def in_system_def
    in_services_def split: list.splits)

lemma check_registry_key_machine:
  "key_hive k = Hklm \<Longrightarrow> check_registry_key k e = evaluate_machine_key (key_components k) e"
  by (simp add: check_registry_key_def evaluate_registry_key_def Let_def)

lemma check_registry_key_other:
  "key_hive k \<noteq> Hklm \<Longrightarrow> check_registry_key k e = check_registry_key k e' \<and> check_registry_key k e \<noteq> Panic"
  by (cases "key_hive k") (simp_all add: check_registry_key_def evaluate_registry_key_def Let_def)

lemma in_services_single: "in_services comps a \<Longrightarrow> in_services comps b \<Longrightarrow> a = b"
  by (auto simp: in_services_def)

text \<open>
  Under \<open>HKLM\SYSTEM\<close> the check passes the key of one service the entry named, directly
  below the \<open>Services\<close> of a control set, and nothing else.
\<close>

theorem system_keys:
  assumes "key_hive k = Hklm" and "in_system (key_components k)"
  shows "check_registry_key k e = Ret (Inr ()) \<longleftrightarrow>
    (\<exists>name. in_services (key_components k) [name] \<and> allows_service e name)"
proof (cases "slices_inside_character (key_components k)")
  case True
  then have "\<not> in_services (key_components k) rest" for rest
    using control_set_boundary by (fastforce simp: slices_inside_character_def in_services_def)
  with True assms show ?thesis
    by (simp add: check_registry_key_machine evaluate_machine_key_eq in_system_not_hive)
qed (use assms in \<open>auto simp: check_registry_key_machine evaluate_machine_key_eq in_system_not_hive\<close>)

theorem system_keys_witness:
  "check_registry_key
     \<lparr>key_hive = Hklm, key_components = [''SYSTEM'', ''CONTROLSET001'', ''SERVICES'', ''EXAC''],
      key_text = win ''HKLM/SYSTEM/CONTROLSET001/SERVICES/EXAC''\<rparr> (new_exceptions [] [''ExAC'']) = Ret (Inr ())"
proof -
  let ?k = "\<lparr>key_hive = Hklm, key_components = [''SYSTEM'', ''CONTROLSET001'', ''SERVICES'', ''EXAC''],
      key_text = win ''HKLM/SYSTEM/CONTROLSET001/SERVICES/EXAC''\<rparr>"
  have "allows_service (new_exceptions [] [''ExAC'']) ''EXAC''" by code_simp
  moreover have "control_set_name ''CONTROLSET001''" by code_simp
  then have "in_services (key_components ?k) [''EXAC'']" by (simp add: in_services_def)
  moreover have "in_system (key_components ?k)" by (simp add: in_system_def)
  ultimately show ?thesis using system_keys [of ?k "new_exceptions [] [''ExAC'']"] by auto
qed

lemma check_registry_key_mono:
  assumes "exceptions_le a b" and "check_registry_key k a = Ret (Inr ())"
  shows "check_registry_key k b = Ret (Inr ())"
proof (cases "key_hive k = Hklm")
  case True
  with assms show ?thesis
    by (auto simp: check_registry_key_machine evaluate_machine_key_eq allows_mono(2) split: if_splits)
next
  case False
  with assms(2) check_registry_key_other [OF False, of b a] show ?thesis by simp
qed

lemma check_registry_key_panic:
  "check_registry_key k e = Panic \<longleftrightarrow> key_hive k = Hklm \<and> slices_inside_character (key_components k)"
proof (cases "key_hive k = Hklm")
  case True
  then show ?thesis
    using in_system_not_hive services_in_system(2)
    by (auto simp: check_registry_key_machine evaluate_machine_key_eq split: if_splits)
next
  case False
  then show ?thesis using check_registry_key_other by auto
qed

lemma check_registry_key_widened:
  assumes "check_registry_key k e = Ret (Inr ())" and "check_registry_key k no_exceptions \<noteq> Ret (Inr ())"
  shows "key_hive k = Hklm
    \<and> (\<exists>name. in_services (key_components k) [name] \<and> allows_service e name)"
proof (cases "key_hive k = Hklm")
  case True
  with assms show ?thesis
    by (auto simp: check_registry_key_machine evaluate_machine_key_eq split: if_splits)
next
  case False
  with assms check_registry_key_other [OF False, of no_exceptions e] show ?thesis by simp
qed

text \<open>
  C14. A catalog entry's names change the verdict on a key in one way only: they admit the key
  of a service the entry named, directly below the \<open>Services\<close> of a control set of \<open>HKLM\<close>,
  whose name does not ship with Windows.
\<close>

theorem key_carve_outs:
  assumes "check_registry_key k (new_exceptions ds ss) = Ret (Inr ())"
    and "check_registry_key k no_exceptions \<noteq> Ret (Inr ())"
  shows "key_hive k = Hklm
    \<and> (\<exists>name. in_services (key_components k) [name] \<and> \<not> is_inbox_service name
         \<and> (\<exists>n \<in> set ss. eq_ignore_ascii_case (trim n) name))"
  using check_registry_key_widened [OF assms] by (auto simp: new_exceptions_service)

theorem key_carve_outs_witness:
  "\<exists>name. in_services [''SYSTEM'', ''CURRENTCONTROLSET'', ''SERVICES'', ''EXAC''] [name]
     \<and> \<not> is_inbox_service name"
proof -
  let ?k = "\<lparr>key_hive = Hklm, key_components = [''SYSTEM'', ''CURRENTCONTROLSET'', ''SERVICES'', ''EXAC''],
      key_text = []\<rparr>"
  have "check_registry_key ?k (new_exceptions [] [''exac'']) = Ret (Inr ())"
    and "check_registry_key ?k no_exceptions \<noteq> Ret (Inr ())"
    by code_simp+
  from key_carve_outs [OF this] show ?thesis by auto
qed

text \<open>
  The key check panics on exactly the keys of \<open>HKLM\<close> that read like a service key whose
  control set is longer than ten bytes with byte 10 inside a character; no carve-out matters.
\<close>

theorem key_check_panics:
  "check_registry_key k e = Panic \<longleftrightarrow> key_hive k = Hklm \<and> slices_inside_character (key_components k)"
  by (rule check_registry_key_panic)

section \<open>The two registry views\<close>

lemma native_view_wow:
  "eq_ignore_ascii_case software ''SOFTWARE'' \<Longrightarrow> eq_ignore_ascii_case wow ''WOW6432NODE'' \<Longrightarrow>
   native_view (software # wow # rest) = Some (software # rest)"
  by (simp add: native_view_def)

lemma software_not_system:
  assumes "eq_ignore_ascii_case software ''SOFTWARE''"
  shows "\<not> in_system (software # rest)" "\<not> hive_refused (software # rest)"
proof -
  have hives: "list_all (\<lambda>hive. \<not> eq_ignore_ascii_case hive ''SOFTWARE'') (''SYSTEM'' # protected_machine_hives)"
    by code_simp
  have same: "eq_ignore_ascii_case hive ''SOFTWARE''" if "eq_ignore_ascii_case software hive" for hive
    by (rule upper.eq_ic_trans [OF upper.eq_ic_sym [OF that] assms])
  show "\<not> in_system (software # rest)"
    using same [of "''SYSTEM''"] by (auto simp: in_system_def)
  have "\<not> starts_with software ''BCD''" using assms by (cases software) auto
  then show "\<not> hive_refused (software # rest)"
    using hives same by (auto simp: hive_refused_def list_all_iff list_ex_iff)
qed

lemma check_software_key:
  assumes "key_hive k = Hklm" and "key_components k = software # rest"
    and "eq_ignore_ascii_case software ''SOFTWARE''"
  shows "check_registry_key k e = Ret (evaluate_software_key (software # rest))"
proof -
  have "\<not> in_system (key_components k)" "\<not> hive_refused (key_components k)"
    using software_not_system [OF assms(3)] assms(2) by simp_all
  moreover from this(1) have "\<not> slices_inside_character (key_components k)"
    "\<not> in_services (key_components k) r" for r
    using services_in_system by blast+
  ultimately show ?thesis
    using assms by (auto simp: check_registry_key_machine evaluate_machine_key_eq)
qed

text \<open>
  Whatever the check refuses in the native view of \<open>HKLM\SOFTWARE\<close> it refuses in the
  32-bit view too.
\<close>

theorem wow64_mirror:
  assumes "key_hive k = Hklm" and "key_components k = software # rest"
    and "eq_ignore_ascii_case software ''SOFTWARE''"
    and "check_registry_key k e = Ret (Inl ProtectedRegistryKey)"
    and "native_view (key_components k) = None"
    and "key_hive k' = Hklm" and "key_components k' = software # wow # rest"
    and "eq_ignore_ascii_case wow ''WOW6432NODE''"
  shows "check_registry_key k' e' = Ret (Inl ProtectedRegistryKey)"
proof -
  have long: "1 < length (software # rest)"
    if "list_ex (equals_pattern (software # rest)) machine_container_keys"
  proof -
    have "list_all (\<lambda>pattern. 1 < length pattern) machine_container_keys" by code_simp
    with that show ?thesis by (auto simp: list_all_iff list_ex_iff equals_pattern_def)
  qed
  have "evaluate_software_key (software # rest) = Inl ProtectedRegistryKey"
    using assms(4) by (simp add: check_software_key [OF assms(1-3)])
  then have "list_ex (starts_with_pattern (software # rest)) machine_protected_keys
      \<or> list_ex (equals_pattern (software # rest)) machine_container_keys"
    using assms(2,5) by (auto simp: evaluate_software_key_def shallow_floor_def split: if_splits)
  with long have "evaluate_software_key (software # wow # rest) = Inl ProtectedRegistryKey"
    by (auto simp: evaluate_software_key_def native_view_wow [OF assms(3,8)])
  then show ?thesis by (simp add: check_software_key [OF assms(6,7,3)])
qed

theorem wow64_mirror_witness:
  "check_registry_key
     \<lparr>key_hive = Hklm, key_components = [''SOFTWARE'', ''WOW6432NODE'', ''MICROSOFT''], key_text = []\<rparr>
     no_exceptions = Ret (Inl ProtectedRegistryKey)"
proof -
  let ?k = "\<lparr>key_hive = Hklm, key_components = [''SOFTWARE'', ''MICROSOFT''], key_text = []\<rparr>"
  have "check_registry_key ?k no_exceptions = Ret (Inl ProtectedRegistryKey)" by code_simp
  moreover have "native_view (key_components ?k) = None" by code_simp
  moreover have "eq_ignore_ascii_case ''SOFTWARE'' ''SOFTWARE''"
    "eq_ignore_ascii_case ''WOW6432NODE'' ''WOW6432NODE''"
    by (rule eq_ic_simps)+
  ultimately show ?thesis
    by - (rule wow64_mirror [where k = ?k and e = no_exceptions and wow = "''WOW6432NODE''"
        and software = "''SOFTWARE''" and rest = "[''MICROSOFT'']"], simp_all only: canonical_reg_key.simps)
qed

text \<open>
  A user's root is one tree however it is reached: a key below \<open>HKU\<close> and a SID has the
  verdict of the key below \<open>HKCU\<close>, and a key below \<open>HKU\<close> and a SID ending in \<open>_CLASSES\<close> that
  of the key below \<open>HKCU\SOFTWARE\CLASSES\<close>.
\<close>

theorem user_hive_views:
  assumes "key_hive k = Hku" and "key_components k = user # rest" and "rest \<noteq> []"
    and "key_hive k' = Hkcu"
    and "key_components k' = (if ends_with user ''_CLASSES'' then [''SOFTWARE'', ''CLASSES''] else []) @ rest"
  shows "check_registry_key k e = check_registry_key k' e'"
  using assms
  by (cases rest) (simp_all add: check_registry_key_def evaluate_registry_key_def Let_def)

theorem user_hive_views_witness:
  "check_registry_key
     \<lparr>key_hive = Hku, key_components = [''S-1_CLASSES'', ''CLSID''], key_text = []\<rparr> no_exceptions
     = Ret (Inl ProtectedRegistryKey)"
proof -
  let ?k' = "\<lparr>key_hive = Hkcu, key_components = [''SOFTWARE'', ''CLASSES'', ''CLSID''], key_text = []\<rparr>"
  have "check_registry_key ?k' no_exceptions = Ret (Inl ProtectedRegistryKey)" by code_simp
  moreover have "ends_with ''S-1_CLASSES'' ''_CLASSES''" by code_simp
  ultimately show ?thesis
    by (subst user_hive_views [where k' = ?k' and e' = no_exceptions
          and user = "''S-1_CLASSES''" and rest = "[''CLSID'']"]) simp_all
qed

section \<open>Gates\<close>

text \<open>
  What the catalog checks and the scan rely on: a text is canonicalised and the result judged
  with a set of carve-outs.  A gate promises that more carve-outs never refuse what passed and
  never decide whether the check panics.
\<close>

definition passes ::
    "('s \<Rightarrow> ('e + 'k) run) \<Rightarrow> ('k \<Rightarrow> exceptions \<Rightarrow> (deny_reason + unit) run) \<Rightarrow> exceptions \<Rightarrow> 's \<Rightarrow> bool" where
  "passes canon check e s =
     (case canon s of
        Panic \<Rightarrow> False
      | Ret (Inl err) \<Rightarrow> False
      | Ret (Inr k) \<Rightarrow> check k e = Ret (Inr ()))"

lemma passes_iff:
  "passes canon check e s \<longleftrightarrow> (\<exists>k. canon s = Ret (Inr k) \<and> check k e = Ret (Inr ()))"
  by (auto simp: passes_def split: run.splits sum.splits)

locale deny_gate =
  fixes canon :: "'s \<Rightarrow> ('e + 'k) run"
    and check :: "'k \<Rightarrow> exceptions \<Rightarrow> (deny_reason + unit) run"
  assumes check_mono: "exceptions_le a b \<Longrightarrow> check k a = Ret (Inr ()) \<Longrightarrow> check k b = Ret (Inr ())"
    and check_panic: "check k a = Panic \<longleftrightarrow> check k b = Panic"
begin

lemma passes_mono: "exceptions_le a b \<Longrightarrow> passes canon check a s \<Longrightarrow> passes canon check b s"
  by (auto simp: passes_iff check_mono)

lemma passes_none: "passes canon check no_exceptions s \<Longrightarrow> passes canon check e s"
  using no_exceptions_least by (rule passes_mono)

lemma verdict_panic_independent:
  "bind_run (canon s) (\<lambda>r. case r of Inl x \<Rightarrow> Ret (Inl x) | Inr k \<Rightarrow> map_run Inr (check k a)) = Panic
   \<longleftrightarrow> bind_run (canon s) (\<lambda>r. case r of Inl x \<Rightarrow> Ret (Inl x) | Inr k \<Rightarrow> map_run Inr (check k b)) = Panic"
  using check_panic [of _ a b] by (cases "canon s") (simp_all split: sum.splits)

end

interpretation path_gate: deny_gate canonicalise_syntactic "\<lambda>p e. Ret (check_path p e CatalogLoad)"
  by unfold_locales (auto intro: check_path_mono)

interpretation disk_gate: deny_gate canonicalise_resolved "\<lambda>p e. Ret (check_path p e (OnDisk traverses))"
  for traverses
  by unfold_locales (auto intro: check_path_mono)

interpretation key_gate: deny_gate "\<lambda>s. Ret (canonicalise_reg_key s)" check_registry_key
  by unfold_locales (auto intro: check_registry_key_mono simp: check_registry_key_panic)

abbreviation path_passes :: "exceptions \<Rightarrow> string \<Rightarrow> bool" where
  "path_passes \<equiv> passes canonicalise_syntactic (\<lambda>p e. Ret (check_path p e CatalogLoad))"

abbreviation key_passes :: "exceptions \<Rightarrow> string \<Rightarrow> bool" where
  "key_passes \<equiv> passes (\<lambda>s. Ret (canonicalise_reg_key s)) check_registry_key"

end
