(* ===== verification/Expand.thy ===== *)
theory Expand
  imports Rust_Str
begin

text \<open>
  The expansion of \<open>%VAR%\<close> placeholders, after \<open>core/src/catalog/expand.rs\<close>: the loop over the
  template, the ten known variables and the representative values validation uses.

  The lemmas reduce the loop to a reference reading: the template is parsed once into its
  literals and variables, and the results are the ordered product of the variables' values.
\<close>

section \<open>Variables\<close>

definition known_variables :: "string list" where
  "known_variables =
     [''ProgramFiles'', ''ProgramFiles(x86)'', ''ProgramData'', ''LOCALAPPDATA'', ''APPDATA'',
      ''USERPROFILE'', ''SystemRoot'', ''PUBLIC'', ''STEAM_LIBRARY'', ''EPIC_LIBRARY'']"

datatype expand_error = UnknownVariable string | UnterminatedVariable

definition expand_error_text :: "expand_error \<Rightarrow> string" where
  "expand_error_text e =
     (case e of
        UnknownVariable v \<Rightarrow> ''unknown path variable `%'' @ v @ ''%`''
      | UnterminatedVariable \<Rightarrow> ''unterminated `%` in path template'')"

definition candidates_for :: "string \<Rightarrow> string list option" where
  "candidates_for name =
     (let up = to_ascii_uppercase name in
      if up = ''PROGRAMFILES'' then Some [win ''C:/Program Files'']
      else if up = ''PROGRAMFILES(X86)'' then Some [win ''C:/Program Files (x86)'']
      else if up = ''PROGRAMDATA'' then Some [win ''C:/ProgramData'']
      else if up = ''LOCALAPPDATA'' then Some [win ''C:/Users/ExampleUser/AppData/Local'']
      else if up = ''APPDATA'' then Some [win ''C:/Users/ExampleUser/AppData/Roaming'']
      else if up = ''USERPROFILE'' then Some [win ''C:/Users/ExampleUser'']
      else if up = ''SYSTEMROOT'' then Some [win ''C:/Windows'']
      else if up = ''PUBLIC'' then Some [win ''C:/Users/Public'']
      else if up = ''STEAM_LIBRARY'' then
        Some [win ''C:/Program Files (x86)/Steam'', win ''D:/SteamLibrary'']
      else if up = ''EPIC_LIBRARY'' then
        Some [win ''C:/Program Files/Epic Games'', win ''D:/Epic Games'']
      else None)"

section \<open>The loop\<close>

definition known_variable :: "string \<Rightarrow> bool" where
  "known_variable name \<longleftrightarrow> list_ex (\<lambda>known. eq_ignore_ascii_case known name) known_variables"

lemma find_sub_less: "find_sub s p = Some n \<Longrightarrow> p \<noteq> [] \<Longrightarrow> n < length s"
  by (auto dest!: find_sub_Some)

function expand_loop ::
    "(string \<Rightarrow> string list option) \<Rightarrow> string list \<Rightarrow> string \<Rightarrow> expand_error + string list" where
  "expand_loop vals results rest =
     (case find_sub rest ''%'' of
        None \<Rightarrow> Inr (map (\<lambda>result. result @ rest) results)
      | Some start \<Rightarrow>
          let literal = take start rest;
              after = drop (Suc start) rest
          in case find_sub after ''%'' of
               None \<Rightarrow> Inl UnterminatedVariable
             | Some stop \<Rightarrow>
                 let name = take stop after
                 in if \<not> known_variable name then Inl (UnknownVariable name)
                    else
                      let vs = (case vals name of None \<Rightarrow> [] | Some vs \<Rightarrow> vs)
                      in expand_loop vals
                           (concat (map (\<lambda>prefix. map (\<lambda>value. prefix @ literal @ value) vs) results))
                           (drop (Suc stop) after))"
  by pat_completeness auto
termination
  by (relation "measure (\<lambda>(vals, results, rest). length rest)") (auto dest: find_sub_less)

declare expand_loop.simps [simp del]

definition expand_with ::
    "string \<Rightarrow> (string \<Rightarrow> string list option) \<Rightarrow> expand_error + string list" where
  "expand_with template vals = expand_loop vals [[]] template"

definition expand_for_validation :: "string \<Rightarrow> expand_error + string list" where
  "expand_for_validation template = expand_with template candidates_for"

section \<open>The reference reading\<close>

text \<open>The literal before each variable and its name, and the text after the last one.\<close>

function template_parts :: "string \<Rightarrow> expand_error + ((string \<times> string) list \<times> string)" where
  "template_parts rest =
     (case find_sub rest ''%'' of
        None \<Rightarrow> Inr ([], rest)
      | Some start \<Rightarrow>
          let after = drop (Suc start) rest
          in case find_sub after ''%'' of
               None \<Rightarrow> Inl UnterminatedVariable
             | Some stop \<Rightarrow>
                 if \<not> known_variable (take stop after) then Inl (UnknownVariable (take stop after))
                 else map_sum id (\<lambda>(parts, tail). ((take start rest, take stop after) # parts, tail))
                        (template_parts (drop (Suc stop) after)))"
  by pat_completeness auto
termination
  by (relation "measure length") (auto dest: find_sub_less)

declare template_parts.simps [simp del]

definition choices :: "(string \<Rightarrow> string list option) \<Rightarrow> string \<times> string \<Rightarrow> string list" where
  "choices vals part =
     (case part of (literal, name) \<Rightarrow>
        map (\<lambda>value. literal @ value) (case vals name of None \<Rightarrow> [] | Some vs \<Rightarrow> vs))"

definition expansions ::
    "(string \<Rightarrow> string list option) \<Rightarrow> (string \<times> string) list \<Rightarrow> string \<Rightarrow> string list" where
  "expansions vals parts tail =
     map (\<lambda>pieces. concat pieces @ tail) (product_lists (map (choices vals) parts))"

lemma append_section: "(@) (a @ b) = (\<lambda>x. a @ b @ x)"
  by (rule ext) simp

lemma expansions_Cons:
  "expansions vals ((literal, name) # parts) tail =
     concat (map (\<lambda>value. map (\<lambda>t. literal @ value @ t) (expansions vals parts tail))
       (case vals name of None \<Rightarrow> [] | Some vs \<Rightarrow> vs))"
  by (simp add: expansions_def choices_def map_concat comp_def)

lemma expand_loop_parts:
  "expand_loop vals results rest =
     map_sum id (\<lambda>(parts, tail).
        concat (map (\<lambda>prefix. map (\<lambda>t. prefix @ t) (expansions vals parts tail)) results))
       (template_parts rest)"
proof (induction vals results rest rule: expand_loop.induct)
  case (1 vals results rest)
  show ?case
  proof (cases "find_sub rest ''%''")
    case None
    then show ?thesis
      by (simp add: expand_loop.simps [of vals results rest] template_parts.simps [of rest]
          expansions_def map_concat comp_def)
  next
    case start: (Some start)
    let ?after = "drop (Suc start) rest" and ?lit = "take start rest"
    show ?thesis
    proof (cases "find_sub ?after ''%''")
      case None
      with start show ?thesis
        by (simp add: expand_loop.simps [of vals results rest] template_parts.simps [of rest])
    next
      case stop: (Some stop)
      let ?name = "take stop ?after" and ?rest = "drop (Suc stop) ?after"
      let ?vs = "case vals ?name of None \<Rightarrow> [] | Some vs \<Rightarrow> vs"
      let ?next = "concat (map (\<lambda>prefix. map (\<lambda>value. prefix @ ?lit @ value) ?vs) results)"
      show ?thesis
      proof (cases "known_variable ?name")
        case False
        with start stop show ?thesis
          by (simp add: expand_loop.simps [of vals results rest] template_parts.simps [of rest])
      next
        case True
        have step: "expand_loop vals results rest = expand_loop vals ?next ?rest"
          using start stop True
          by (subst expand_loop.simps) (simp only: option.case Let_def simp_thms if_False)
        have IH: "expand_loop vals ?next ?rest = map_sum id (\<lambda>(parts, tail).
            concat (map (\<lambda>prefix. map (\<lambda>t. prefix @ t) (expansions vals parts tail)) ?next))
            (template_parts ?rest)"
          using "1.IH" [OF start refl refl stop refl] True by (simp add: id_def)
        have grow: "concat (map (\<lambda>prefix. map (\<lambda>t. prefix @ t) (expansions vals parts tail)) ?next)
            = concat (map (\<lambda>prefix. map (\<lambda>t. prefix @ t) (expansions vals ((?lit, ?name) # parts) tail)) results)"
          for parts tail
          by (induction results) (simp_all add: expansions_Cons map_concat comp_def append_section)
        show ?thesis
          unfolding step IH using start stop True
          by (cases "template_parts ?rest")
             (auto simp: template_parts.simps [of rest] grow split: prod.splits)
      qed
    qed
  qed
qed

lemma expand_with_parts:
  "expand_with template vals =
     map_sum id (\<lambda>(parts, tail). expansions vals parts tail) (template_parts template)"
proof -
  have "(@) [] = (\<lambda>x :: string. x)" by (rule ext) simp
  then show ?thesis by (simp add: expand_with_def expand_loop_parts)
qed

section \<open>Properties\<close>

text \<open>
  Expanding a template is its reference reading: the template parses into literals and
  known variables or fails with the first error, and the results are the ordered product of
  the variables' values between the literals.
\<close>

theorem expand_with_reference:
  "expand_with template vals =
     (case template_parts template of
        Inl e \<Rightarrow> Inl e
      | Inr (parts, tail) \<Rightarrow>
          Inr (map (\<lambda>pieces. concat pieces @ tail) (product_lists (map (choices vals) parts))))"
  by (cases "template_parts template") (auto simp: expand_with_parts expansions_def)

lemma product_lists_length: "length (product_lists xss) = prod_list (map length xss)"
  by (induction xss) (simp_all add: length_concat comp_def sum_list_triv)

text \<open>
  Whether a template expands does not depend on the values, only on its percent signs and
  names; and the number of paths is the product of the numbers of values, so a variable
  without a value gives none.
\<close>

theorem expand_with_count:
  assumes "template_parts template = Inr (parts, tail)"
  shows "\<exists>paths. expand_with template vals = Inr paths
    \<and> length paths = prod_list (map (\<lambda>(_, name). case vals name of None \<Rightarrow> 0 | Some vs \<Rightarrow> length vs) parts)"
proof -
  have "length (choices vals part) = (\<lambda>(_, name). case vals name of None \<Rightarrow> 0 | Some vs \<Rightarrow> length vs) part" for part
    by (cases part) (auto simp: choices_def split: option.splits)
  then show ?thesis
    using assms by (simp add: expand_with_parts expansions_def product_lists_length comp_def)
qed

theorem expand_with_count_witness:
  "\<exists>paths. expand_for_validation (win ''%STEAM_LIBRARY%/x'') = Inr paths \<and> length paths = 2"
proof -
  have "template_parts (win ''%STEAM_LIBRARY%/x'') = Inr ([([], ''STEAM_LIBRARY'')], win ''/x'')"
    by code_simp
  from expand_with_count [OF this, of candidates_for] show ?thesis
    by (simp add: expand_for_validation_def candidates_for_def to_ascii_uppercase_def numeral_2_eq_2)
qed

end
