(* ===== verification/Validate.thy ===== *)
theory Validate
  imports Denylist Expand Schema
begin

text \<open>
  The four catalog checks of \<open>core/src/catalog/validate.rs\<close>.  Each function of the source
  pushes onto a shared list of problems; here it returns what it pushes, in the same order,
  and the callers append.  A check that canonicalises a path can panic, so it returns a \<open>run\<close>.

  The lemmas show what a catalog without problems satisfies.
\<close>

section \<open>Problems\<close>

record problem =
  location :: string
  message :: string

definition problem_at :: "string \<Rightarrow> string \<Rightarrow> problem" where
  "problem_at at msg = \<lparr>location = at, message = msg\<rparr>"

definition problem_text :: "problem \<Rightarrow> string" where
  "problem_text p = location p @ '': '' @ message p"

definition report_if :: "bool \<Rightarrow> string \<Rightarrow> string \<Rightarrow> problem list" where
  "report_if b at msg = (if b then [problem_at at msg] else [])"

text \<open>A loop whose body returns its problems, or panics.\<close>

definition collect :: "('a \<Rightarrow> 'b list run) \<Rightarrow> 'a list \<Rightarrow> 'b list run" where
  "collect f xs = map_run concat (traverse f xs)"

text \<open>\<open>at\<close>, a field and an index: \<open>format!("{at}.{field}[{index}]")\<close>.\<close>

definition indexed :: "string \<Rightarrow> string \<Rightarrow> nat \<Rightarrow> string" where
  "indexed at field index = at @ ''.'' @ field @ ''['' @ decimal index @ '']''"

definition entry_at :: "string \<Rightarrow> nat \<Rightarrow> string \<Rightarrow> string" where
  "entry_at table index name = table @ ''['' @ decimal index @ ''] `'' @ name @ ''`''"

lemma report_if_Nil [simp]: "report_if b at msg = [] \<longleftrightarrow> \<not> b"
  by (simp add: report_if_def)

lemma collect_eq_Nil: "collect f xs = Ret [] \<longleftrightarrow> (\<forall>x \<in> set xs. f x = Ret [])"
proof
  assume "collect f xs = Ret []"
  then obtain ys where ys: "traverse f xs = Ret ys" "\<forall>y \<in> set ys. y = []"
    by (auto simp: collect_def)
  then show "\<forall>x \<in> set xs. f x = Ret []"
    by (metis traverse_ret_each)
next
  assume "\<forall>x \<in> set xs. f x = Ret []"
  then have "traverse f xs = Ret (map (\<lambda>_. []) xs)"
    by (intro traverse_total_Ret) simp
  then show "collect f xs = Ret []" by (simp add: collect_def)
qed

lemma collect_enumerated_Nil:
  "(\<And>i x. f i x = Ret [] \<longleftrightarrow> P x) \<Longrightarrow>
   collect (\<lambda>(i, x). f i x) (enumerated xs) = Ret [] \<longleftrightarrow> (\<forall>x \<in> set xs. P x)"
  using ball_enumerated [of "\<lambda>i x. f i x = Ret []" P xs] by (simp add: collect_eq_Nil split_beta)

lemma concat_enumerated_Nil:
  "(\<And>i x. f i x = [] \<longleftrightarrow> P x) \<Longrightarrow>
   concat (map (\<lambda>(i, x). f i x) (enumerated xs)) = [] \<longleftrightarrow> (\<forall>x \<in> set xs. P x)"
  using ball_enumerated [of "\<lambda>i x. f i x = []" P xs] by (simp add: split_beta)

lemma collect_eq_Panic: "collect f xs = Panic \<longleftrightarrow> (\<exists>x \<in> set xs. f x = Panic)"
  by (simp add: collect_def traverse_eq_Panic)

section \<open>Field checks\<close>

definition exceptions_for :: "anti_cheat \<Rightarrow> exceptions" where
  "exceptions_for ac = new_exceptions (ac_drivers ac) (ac_services ac)"

definition looks_like_product_code :: "string \<Rightarrow> bool" where
  "looks_like_product_code v =
     (case Option.bind (strip_prefix v ''{'') (\<lambda>w. strip_suffix w ''}'') of
        None \<Rightarrow> False
      | Some inner \<Rightarrow>
          let groups = split_char (CHR ''-'') inner
          in length groups = 5
             \<and> list_all (\<lambda>(len, group). length group = len) (zip [8, 4, 4, 4, 12] groups)
             \<and> list_all (\<lambda>b. is_hexdigit_byte b \<or> b = CHR ''-'') inner)"

definition is_kebab :: "string \<Rightarrow> bool" where
  "is_kebab ident \<longleftrightarrow>
     ident \<noteq> [] \<and>
     list_all (\<lambda>segment. segment \<noteq> [] \<and> list_all (\<lambda>b. is_lower_byte b \<or> is_digit_byte b) segment)
       (split_char (CHR ''-'') ident)"

definition check_id :: "string \<Rightarrow> string \<Rightarrow> problem list" where
  "check_id at ident =
     report_if (\<not> is_kebab ident) (at @ ''.id'') (''ids are stable kebab-case: '' @ ident)"

definition separator :: "char \<Rightarrow> bool" where
  "separator c \<longleftrightarrow> c = backslash \<or> c = CHR ''/''"

definition component_problem :: "string \<Rightarrow> string \<Rightarrow> string option" where
  "component_problem template component =
     (if component = ''.'' \<or> component = ''..'' then
        Some (''`'' @ template @ ''` has a relative component `'' @ component
              @ ''`; write the path it means'')
      else if ends_with component ''.'' \<or> ends_with component '' '' then
        Some (''`'' @ template
              @ ''` has a component ending in a dot or space, which Windows strips: `''
              @ component @ ''`'')
      else None)"

definition non_canonical_component :: "string \<Rightarrow> string option" where
  "non_canonical_component template =
     find_map (component_problem template) (split_on separator template)"

definition problem_of :: "string \<Rightarrow> string option \<Rightarrow> problem list" where
  "problem_of at msg = (case msg of None \<Rightarrow> [] | Some m \<Rightarrow> [problem_at at m])"

lemma problem_of_Nil [simp]: "problem_of at msg = [] \<longleftrightarrow> msg = None"
  by (simp add: problem_of_def split: option.splits)

definition check_path_entry :: "string \<Rightarrow> bool \<Rightarrow> path_entry \<Rightarrow> problem list run" where
  "check_path_entry at expect_save_class entry =
     bind_run
       (case expand_for_validation (pe_path entry) of
          Inl e \<Rightarrow> Ret [problem_at at (expand_error_text e)]
        | Inr expanded \<Rightarrow>
            collect (\<lambda>expansion. bind_run (canonicalise_syntactic expansion) (\<lambda>r.
              Ret (case r of
                     Inl e \<Rightarrow> [problem_at at (pe_path entry @ '' does not canonicalise: ''
                                               @ path_error_text e)]
                   | Inr _ \<Rightarrow> []))) expanded)
       (\<lambda>expansion_problems. Ret
         (report_if (expect_save_class \<and> pe_class entry \<noteq> Save) at
            ''entries under `saves` must be class = \"save\"''
          @ report_if (\<not> expect_save_class \<and> pe_class entry = Save) at
            (''class = \"save\" belongs in the game'' @ [CHR 0x27]
             @ ''s `saves` list, which is never removed by default'')
          @ report_if (CHR ''*'' \<in> set (pe_path entry) \<or> CHR ''?'' \<in> set (pe_path entry)) at
            (''wildcards are not allowed in a path: '' @ pe_path entry)
          @ problem_of at (non_canonical_component (pe_path entry))
          @ expansion_problems))"

definition check_paths :: "string \<Rightarrow> string \<Rightarrow> path_entry list \<Rightarrow> bool \<Rightarrow> problem list run" where
  "check_paths at field entries expect_save_class =
     collect (\<lambda>(index, entry). check_path_entry (indexed at field index) expect_save_class entry)
       (enumerated entries)"

definition check_registry :: "string \<Rightarrow> registry_entry list \<Rightarrow> problem list" where
  "check_registry at entries =
     concat (map (\<lambda>(index, entry).
       problem_of (indexed at ''registry'' index)
         (map_option reg_key_error_text (err_of (canonicalise_reg_key (re_key entry))))
       @ report_if (re_class entry = Save) (indexed at ''registry'' index)
           ''class = \"save\" is not meaningful for a registry key'')
       (enumerated entries))"

text \<open>
  \<open>std::path::Path::extension\<close> with the separators of Windows and a drive prefix: the text
  after the last dot of the last component, unless nothing stands before that dot.  Prefixes of
  network shares and devices are not treated: a driver of the catalog is a file name.
\<close>

definition path_extension :: "string \<Rightarrow> string option" where
  "path_extension s =
     (let body = (if 2 \<le> length s \<and> is_alphabetic_byte (s ! 0) \<and> s ! 1 = CHR '':''
                  then drop 2 s else s);
          segments = filter (\<lambda>x. x \<noteq> [] \<and> x \<noteq> ''.'') (split_on separator body)
      in if segments = [] \<or> last segments = ''..'' then None
         else case after_last (CHR ''.'') (last segments) of
                None \<Rightarrow> None
              | Some ext \<Rightarrow> if length (last segments) = Suc (length ext) then None else Some ext)"

definition is_sys :: "string \<Rightarrow> bool" where
  "is_sys driver \<longleftrightarrow>
     (case path_extension driver of None \<Rightarrow> False | Some ext \<Rightarrow> eq_ignore_ascii_case ext ''sys'')"

definition is_sha256 :: "string \<Rightarrow> bool" where
  "is_sha256 hash \<longleftrightarrow> length hash = 64 \<and> list_all is_hexdigit_byte hash"

definition check_uninstall :: "string \<Rightarrow> official_uninstall \<Rightarrow> problem list" where
  "check_uninstall at u =
     (case ou_kind u of
        UninstallExe \<Rightarrow>
          report_if (case ou_command u of None \<Rightarrow> True | Some c \<Rightarrow> trim c = []) at
            ''kind = \"exe\" requires a `command` path''
      | UninstallMsi \<Rightarrow>
          (case ou_command u of
             Some code \<Rightarrow>
               report_if (\<not> looks_like_product_code code) at
                 (''kind = \"msi\" requires an MSI product code in braces, got: '' @ code)
           | None \<Rightarrow> [problem_at at ''kind = \"msi\" requires a `command`''])
      | UninstallNone \<Rightarrow>
          report_if (ou_command u \<noteq> None) at ''kind = \"none\" must not carry a `command`'')"

definition check_driver_names :: "string \<Rightarrow> string list \<Rightarrow> problem list" where
  "check_driver_names at drivers =
     concat (map (\<lambda>(index, driver).
       report_if (backslash \<in> set driver \<or> CHR ''/'' \<in> set driver) (indexed at ''drivers'' index)
         (''must be a bare filename, not a path: '' @ driver)
       @ report_if (\<not> is_sys driver) (indexed at ''drivers'' index)
         (''driver filenames end in .sys: '' @ driver)) (enumerated drivers))"

definition validate_anticheat :: "string \<Rightarrow> anti_cheat \<Rightarrow> problem list run" where
  "validate_anticheat at ac =
     bind_run (check_paths at ''paths'' (ac_paths ac) False) (\<lambda>path_problems. Ret
       (report_if (trim (ac_display ac) = []) (at @ ''.display'') ''must not be empty''
        @ report_if (ac_kind ac = Kernel \<and> ac_drivers ac = []) (at @ ''.drivers'')
            ''kind = \"kernel\" but no driver filenames are listed''
        @ report_if (ac_risk ac = Critical \<and> ac_kind ac = Usermode) (at @ ''.risk'')
            ''risk = \"critical\" is reserved for boot-start drivers, but kind = \"usermode\"''
        @ check_driver_names at (ac_drivers ac)
        @ concat (map (\<lambda>(index, hash).
            report_if (\<not> is_sha256 hash) (indexed at ''file_hashes'' index)
              ''must be 64 hex characters (SHA-256)'') (enumerated (ac_file_hashes ac)))
        @ report_if (list_ex (\<lambda>s. trim s = []) (ac_services ac)) (at @ ''.services'')
            ''contains an empty name''
        @ path_problems
        @ check_registry at (ac_registry ac)
        @ (case ac_official_uninstall ac of
             None \<Rightarrow> []
           | Some u \<Rightarrow> check_uninstall (at @ ''.official_uninstall'') u)))"

section \<open>Schema and field-level validation\<close>

definition check_game :: "string \<Rightarrow> game \<Rightarrow> problem list run" where
  "check_game at g =
     bind_run (check_paths at ''install_hints'' (game_install_hints g) False) (\<lambda>hints.
     bind_run (check_paths at ''residue'' (game_residue g) False) (\<lambda>residue.
     bind_run (check_paths at ''saves'' (game_saves g) True) (\<lambda>saves.
       Ret (check_id at (game_id g) @ hints @ residue @ saves
            @ check_registry at (game_registry g)))))"

text \<open>\<open>format!("{:?}", uninstall.kind)\<close>.\<close>

definition uninstall_debug :: "launcher_uninstall_kind \<Rightarrow> string" where
  "uninstall_debug k =
     (case k of
        LauncherProtocol \<Rightarrow> ''Protocol''
      | LauncherMsi \<Rightarrow> ''Msi''
      | LauncherMsiFromManifest \<Rightarrow> ''MsiFromManifest''
      | LauncherExe \<Rightarrow> ''Exe''
      | LauncherNone \<Rightarrow> ''None'')"

definition check_launcher :: "string \<Rightarrow> launcher_entry \<Rightarrow> problem list" where
  "check_launcher at l =
     check_id at (launcher_id l)
     @ (case launcher_uninstall l of
          None \<Rightarrow> []
        | Some u \<Rightarrow>
            report_if (lu_kind u \<in> {LauncherProtocol, LauncherMsi, LauncherExe} \<and> lu_command u = None)
              (at @ ''.uninstall'')
              (''kind = '' @ uninstall_debug (lu_kind u) @ '' requires a `command`''))
     @ (case launcher_detect_registry l of
          None \<Rightarrow> []
        | Some key \<Rightarrow>
            report_if (err_of (canonicalise_reg_key key) \<noteq> None) (at @ ''.detect_registry'')
              (''not a recognisable registry key: '' @ key))"

definition validate :: "catalog \<Rightarrow> problem list run" where
  "validate c =
     bind_run (collect (\<lambda>(index, ac).
         let at = entry_at ''anticheat'' index (ac_id ac)
         in map_run (\<lambda>rest. check_id at (ac_id ac) @ rest) (validate_anticheat at ac))
       (enumerated (cat_anticheat c))) (\<lambda>anticheats.
     bind_run (collect (\<lambda>(index, g). check_game (entry_at ''game'' index (game_id g)) g)
       (enumerated (cat_game c))) (\<lambda>games.
       Ret (report_if (schema_version c \<noteq> supported_schema_version) ''schema_version''
              (''unsupported schema version '' @ decimal (unat (schema_version c))
               @ '' (this build implements '' @ decimal (unat supported_schema_version) @ '')'')
            @ report_if (trim (catalog_version c) = []) ''catalog_version'' ''must not be empty''
            @ report_if (trim (minimum_app_version c) = []) ''minimum_app_version'' ''must not be empty''
            @ anticheats @ games
            @ concat (map (\<lambda>(index, l). check_launcher (entry_at ''launcher'' index (launcher_id l)) l)
                (enumerated (cat_launcher c))))))"

section \<open>Referential integrity\<close>

definition tagged_ids :: "catalog \<Rightarrow> (string \<times> string) list" where
  "tagged_ids c =
     map (\<lambda>ac. (''anticheat'', ac_id ac)) (cat_anticheat c)
     @ map (\<lambda>g. (''game'', game_id g)) (cat_game c)
     @ map (\<lambda>l. (''launcher'', launcher_id l)) (cat_launcher c)"

fun reused_ids :: "(string \<rightharpoonup> string) \<Rightarrow> (string \<times> string) list \<Rightarrow> problem list" where
  "reused_ids seen [] = []"
| "reused_ids seen ((tag, ident) # rest) =
     (case seen ident of
        None \<Rightarrow> []
      | Some previous \<Rightarrow>
          [problem_at (tag @ '' `'' @ ident @ ''`'')
             (''id is already used by a '' @ previous @ '' entry; ids are never reused'')])
     @ reused_ids (seen(ident \<mapsto> tag)) rest"

definition unknown_refs :: "catalog \<Rightarrow> game \<Rightarrow> problem list" where
  "unknown_refs c g =
     concat (map (\<lambda>referenced.
       report_if (\<not> list_ex (\<lambda>ac. ac_id ac = referenced) (cat_anticheat c))
         (''game `'' @ game_id g @ ''`.anticheat'')
         (''references unknown anti-cheat id `'' @ referenced @ ''`'')) (game_anticheat g))
     @ concat (map (\<lambda>platform.
       report_if (\<not> list_ex (\<lambda>l. launcher_id l = platform) (cat_launcher c))
         (''game `'' @ game_id g @ ''`.platforms'')
         (''references unknown launcher id `'' @ platform @ ''`'')) (game_platforms g))"

definition check_refs :: "catalog \<Rightarrow> problem list" where
  "check_refs c = reused_ids Map.empty (tagged_ids c) @ concat (map (unknown_refs c) (cat_game c))"

section \<open>The deny-list over a catalog\<close>

definition check_denylist_path ::
    "string \<Rightarrow> string \<Rightarrow> exceptions \<Rightarrow> string \<Rightarrow> problem list run" where
  "check_denylist_path at template e expansion =
     map_run (\<lambda>r. case r of
         Inl err \<Rightarrow>
           [problem_at at (''`'' @ template @ ''` cannot be checked against the deny-list: ''
                           @ path_error_text err)]
       | Inr canonical \<Rightarrow>
           problem_of at (map_option (\<lambda>reason.
             ''`'' @ template @ ''` resolves to '' @ path_text canonical @ '', which is denied: ''
             @ deny_reason_text reason) (err_of (check_path canonical e CatalogLoad))))
       (canonicalise_syntactic expansion)"

definition check_denylist_paths ::
    "string \<Rightarrow> string \<Rightarrow> path_entry list \<Rightarrow> exceptions \<Rightarrow> problem list run" where
  "check_denylist_paths owner field entries e =
     collect (\<lambda>(index, entry).
       let at = indexed owner field index in
       case expand_for_validation (pe_path entry) of
         Inl err \<Rightarrow>
           Ret [problem_at at (''`'' @ pe_path entry
                  @ ''` cannot be checked against the deny-list: '' @ expand_error_text err)]
       | Inr expanded \<Rightarrow> collect (check_denylist_path at (pe_path entry) e) expanded)
     (enumerated entries)"

definition check_denylist_keys ::
    "string \<Rightarrow> registry_entry list \<Rightarrow> exceptions \<Rightarrow> problem list run" where
  "check_denylist_keys owner entries e =
     collect (\<lambda>(index, entry).
       let at = indexed owner ''registry'' index in
       case canonicalise_reg_key (re_key entry) of
         Inl err \<Rightarrow>
           Ret [problem_at at (''`'' @ re_key entry @ ''` cannot be checked against the deny-list: ''
                  @ reg_key_error_text err)]
       | Inr canonical \<Rightarrow>
           map_run (\<lambda>r. problem_of at (map_option (\<lambda>reason.
               ''`'' @ re_key entry @ ''` is denied: '' @ deny_reason_text reason) (err_of r)))
             (check_registry_key canonical e))
     (enumerated entries)"

definition inbox_names ::
    "(string \<Rightarrow> bool) \<Rightarrow> string \<Rightarrow> string \<Rightarrow> string list \<Rightarrow> problem list" where
  "inbox_names is_inbox owner field names =
     concat (map (\<lambda>(index, name).
       report_if (is_inbox name) (indexed owner field index)
         (''`'' @ name @ ''` ships with Windows, and no catalog may unlock it'')) (enumerated names))"

definition check_denylist_anticheat :: "anti_cheat \<Rightarrow> problem list run" where
  "check_denylist_anticheat ac =
     (let owner = ''anticheat `'' @ ac_id ac @ ''`''; e = exceptions_for ac in
      bind_run (check_denylist_paths owner ''paths'' (ac_paths ac) e) (\<lambda>paths.
      bind_run (check_denylist_keys owner (ac_registry ac) e) (\<lambda>keys.
        Ret (inbox_names is_inbox_driver owner ''drivers'' (ac_drivers ac)
             @ inbox_names is_inbox_service owner ''services'' (ac_services ac)
             @ paths @ keys))))"

definition check_denylist_game :: "game \<Rightarrow> problem list run" where
  "check_denylist_game g =
     (let owner = ''game `'' @ game_id g @ ''`'' in
      bind_run (collect (\<lambda>(field, entries). check_denylist_paths owner field entries no_exceptions)
        [(''install_hints'', game_install_hints g), (''residue'', game_residue g),
         (''saves'', game_saves g)]) (\<lambda>paths.
      bind_run (check_denylist_keys owner (game_registry g) no_exceptions) (\<lambda>keys.
        Ret (paths @ keys))))"

definition check_denylist :: "catalog \<Rightarrow> problem list run" where
  "check_denylist c =
     bind_run (collect check_denylist_anticheat (cat_anticheat c)) (\<lambda>anticheats.
     bind_run (collect check_denylist_game (cat_game c)) (\<lambda>games.
       Ret (anticheats @ games)))"

section \<open>The audit of sharing claims\<close>

definition distinct_titles :: "string list \<Rightarrow> string set" where
  "distinct_titles titles =
     set (filter (\<lambda>title. title \<noteq> []) (map (\<lambda>title. to_ascii_lowercase (trim title)) titles))"

definition audit_shared_entry :: "bool \<Rightarrow> anti_cheat \<Rightarrow> problem list" where
  "audit_shared_entry require_evidence ac =
     (let at = ''anticheat `'' @ ac_id ac @ ''`'' in
      if ac_shared ac then []
      else case ac_shared_evidence ac of
             None \<Rightarrow>
               report_if require_evidence at
                 (''shared = false requires [anticheat.shared_evidence]; ''
                  @ ''leave shared = true unless you can show otherwise'')
           | Some evidence \<Rightarrow>
               report_if (card (distinct_titles (titles_observed evidence)) < 2)
                 (at @ ''.shared_evidence.titles_observed'')
                 (''shared = false needs at least two distinct observed titles ''
                  @ ''(docs/16-OBSERVATION-HARNESS.md)'')
               @ report_if (list_all (\<lambda>ident. trim ident = []) (observation_ids evidence))
                   (at @ ''.shared_evidence.observation_ids'')
                   ''must name at least one observation the claim came from'')"

definition audit_shared :: "catalog \<Rightarrow> bool \<Rightarrow> problem list" where
  "audit_shared c require_evidence =
     concat (map (audit_shared_entry require_evidence) (cat_anticheat c))"

section \<open>Catalogs without problems\<close>

text \<open>A template every expansion of which passes the gate with the given carve-outs.\<close>

definition template_passes :: "exceptions \<Rightarrow> string \<Rightarrow> bool" where
  "template_passes e template =
     (case expand_for_validation template of
        Inl err \<Rightarrow> False
      | Inr paths \<Rightarrow> list_all (path_passes e) paths)"

lemma verdict_Nil: "problem_of at (map_option f (err_of r)) = [] \<longleftrightarrow> r = Inr ()"
  for r :: "deny_reason + unit"
  by (cases r) simp_all

lemma check_denylist_path_Nil: "check_denylist_path at template e s = Ret [] \<longleftrightarrow> path_passes e s"
proof (cases "canonicalise_syntactic s")
  case (Ret r)
  then show ?thesis
    by (cases r) (simp_all only: check_denylist_path_def passes_def run.map run.case sum.case
        verdict_Nil run.inject, simp_all)
qed (simp add: check_denylist_path_def passes_def)

lemma check_denylist_paths_Nil:
  "check_denylist_paths owner field entries e = Ret [] \<longleftrightarrow>
     (\<forall>entry \<in> set entries. template_passes e (pe_path entry))"
proof -
  have one: "(case expand_for_validation t of
        Inl err \<Rightarrow> Ret [f err] | Inr expanded \<Rightarrow> collect (check_denylist_path at t e) expanded) = Ret []
      \<longleftrightarrow> template_passes e t" for t at and f :: "expand_error \<Rightarrow> problem"
    by (cases "expand_for_validation t")
       (simp_all add: template_passes_def collect_eq_Nil check_denylist_path_Nil list_all_iff)
  show ?thesis
    unfolding check_denylist_paths_def Let_def by (rule collect_enumerated_Nil) (rule one)
qed

lemma check_denylist_keys_Nil:
  "check_denylist_keys owner entries e = Ret [] \<longleftrightarrow>
     (\<forall>entry \<in> set entries. key_passes e (re_key entry))"
proof -
  have one: "(case canonicalise_reg_key t of
        Inl err \<Rightarrow> Ret [g err]
      | Inr k \<Rightarrow> map_run (\<lambda>r. problem_of at (map_option f (err_of r))) (check_registry_key k e)) = Ret []
      \<longleftrightarrow> key_passes e t" for t at f and g :: "reg_key_error \<Rightarrow> problem"
  proof (cases "canonicalise_reg_key t")
    case (Inr k)
    then show ?thesis
      by (cases "check_registry_key k e") (simp_all add: passes_def verdict_Nil del: problem_of_Nil)
  qed (simp add: passes_def)
  show ?thesis
    unfolding check_denylist_keys_def Let_def by (rule collect_enumerated_Nil) (rule one)
qed

lemma inbox_names_Nil:
  "inbox_names is_inbox owner field names = [] \<longleftrightarrow> (\<forall>n \<in> set names. \<not> is_inbox n)"
  unfolding inbox_names_def by (rule concat_enumerated_Nil) simp

definition anticheat_passes :: "anti_cheat \<Rightarrow> bool" where
  "anticheat_passes ac \<longleftrightarrow>
     (\<forall>d \<in> set (ac_drivers ac). \<not> is_inbox_driver d) \<and> (\<forall>s \<in> set (ac_services ac). \<not> is_inbox_service s)
     \<and> (\<forall>entry \<in> set (ac_paths ac). template_passes (exceptions_for ac) (pe_path entry))
     \<and> (\<forall>entry \<in> set (ac_registry ac). key_passes (exceptions_for ac) (re_key entry))"

definition game_passes :: "game \<Rightarrow> bool" where
  "game_passes g \<longleftrightarrow>
     (\<forall>entry \<in> set (game_install_hints g @ game_residue g @ game_saves g).
        template_passes no_exceptions (pe_path entry))
     \<and> (\<forall>entry \<in> set (game_registry g). key_passes no_exceptions (re_key entry))"

lemma bind_append_Nil:
  "bind_run m (\<lambda>x. Ret (f x)) = Ret [] \<longleftrightarrow> (\<exists>x. m = Ret x \<and> f x = [])"
  by (cases m) auto

lemma check_denylist_anticheat_Nil: "check_denylist_anticheat ac = Ret [] \<longleftrightarrow> anticheat_passes ac"
  by (auto simp: check_denylist_anticheat_def Let_def inbox_names_Nil
      check_denylist_paths_Nil check_denylist_keys_Nil anticheat_passes_def)

lemma check_denylist_game_Nil: "check_denylist_game g = Ret [] \<longleftrightarrow> game_passes g"
proof -
  have "check_denylist_game g = Ret [] \<longleftrightarrow>
      collect (\<lambda>(field, entries). check_denylist_paths (''game `'' @ game_id g @ ''`'') field entries no_exceptions)
        [(''install_hints'', game_install_hints g), (''residue'', game_residue g),
         (''saves'', game_saves g)] = Ret []
      \<and> check_denylist_keys (''game `'' @ game_id g @ ''`'') (game_registry g) no_exceptions = Ret []"
    by (simp add: check_denylist_game_def Let_def)
  then show ?thesis
    by (auto simp: collect_eq_Nil check_denylist_paths_Nil check_denylist_keys_Nil game_passes_def)
qed

lemma check_denylist_Nil:
  "check_denylist c = Ret [] \<longleftrightarrow>
     (\<forall>ac \<in> set (cat_anticheat c). anticheat_passes ac) \<and> (\<forall>g \<in> set (cat_game c). game_passes g)"
proof -
  have "check_denylist c = Ret [] \<longleftrightarrow>
      collect check_denylist_anticheat (cat_anticheat c) = Ret []
      \<and> collect check_denylist_game (cat_game c) = Ret []"
    by (simp add: check_denylist_def)
  then show ?thesis
    by (simp add: collect_eq_Nil check_denylist_anticheat_Nil check_denylist_game_Nil)
qed

text \<open>
  The deny-list check reports nothing exactly when every expansion of every path and every
  key passes its gate: an anti-cheat entry's with the names that entry declared, a game's with
  none; and no entry names anything that ships with Windows.
\<close>

theorem check_denylist_clean:
  "check_denylist c = Ret [] \<longleftrightarrow>
     (\<forall>ac \<in> set (cat_anticheat c).
        (\<forall>d \<in> set (ac_drivers ac). \<not> is_inbox_driver d) \<and> (\<forall>s \<in> set (ac_services ac). \<not> is_inbox_service s)
        \<and> (\<forall>entry \<in> set (ac_paths ac). template_passes (exceptions_for ac) (pe_path entry))
        \<and> (\<forall>entry \<in> set (ac_registry ac). key_passes (exceptions_for ac) (re_key entry)))
     \<and> (\<forall>g \<in> set (cat_game c).
        (\<forall>entry \<in> set (game_install_hints g @ game_residue g @ game_saves g).
           template_passes no_exceptions (pe_path entry))
        \<and> (\<forall>entry \<in> set (game_registry g). key_passes no_exceptions (re_key entry)))"
  by (simp only: check_denylist_Nil anticheat_passes_def game_passes_def)

definition sample_catalog :: catalog where
  "sample_catalog =
     blank_catalog\<lparr>
       cat_anticheat :=
         [(blank_anti_cheat ''exac'')\<lparr>
            ac_drivers := [''exac.sys''], ac_services := [''exac''],
            ac_paths := [\<lparr>pe_path = win ''%ProgramData%/ExAC'', pe_class = Install\<rparr>,
                         \<lparr>pe_path = win ''%SystemRoot%/System32/drivers/exac.sys'', pe_class = Install\<rparr>],
            ac_registry := [\<lparr>re_key = win ''HKLM/SYSTEM/CurrentControlSet/Services/exac'',
                             re_view = Bits64, re_class = Service\<rparr>]\<rparr>],
       cat_game :=
         [(blank_game ''ex-game'')\<lparr>
            game_anticheat := [''exac''],
            game_residue := [\<lparr>pe_path = win ''%LOCALAPPDATA%/ExGame'', pe_class = Cache\<rparr>]\<rparr>]\<rparr>"

theorem check_denylist_clean_witness:
  "list_all (\<lambda>ac. list_all (\<lambda>entry. template_passes (exceptions_for ac) (pe_path entry)) (ac_paths ac))
     (cat_anticheat sample_catalog)"
proof -
  have "check_denylist sample_catalog = Ret []" by code_simp
  then show ?thesis using check_denylist_clean [of sample_catalog] unfolding list_all_iff by blast
qed

lemma template_passes_path:
  assumes "template_passes e template" and "expand_for_validation template = Inr paths"
    and "s \<in> set paths"
  shows "\<exists>p. canonicalise_syntactic s = Ret (Inr p) \<and> check_path p e CatalogLoad = Inr ()"
  using assms by (auto simp: template_passes_def list_all_iff passes_iff)

lemma game_template_safe:
  assumes "check_denylist c = Ret []" and "g \<in> set (cat_game c)"
    and "entry \<in> set (game_install_hints g @ game_residue g @ game_saves g)"
    and "expand_for_validation (pe_path entry) = Inr paths" and "s \<in> set paths"
  shows "\<exists>p. canonicalise_syntactic s = Ret (Inr p) \<and> kind p = DriveRooted \<and> \<not> short_name p
    \<and> \<not> in_refused_subtree (components p) \<and> \<not> refused_alone (components p)"
proof -
  have "game_passes g" using assms(1,2) by (auto simp: check_denylist_Nil)
  then have "template_passes no_exceptions (pe_path entry)"
    using assms(3) by (auto simp: game_passes_def)
  from template_passes_path [OF this assms(4,5)] show ?thesis
    by (auto simp: check_path_iff driver_carve_out_def)
qed

text \<open>
  C4. In a catalog the deny-list check accepts, no game path can reach a refused subtree: each
  expansion is a drive-rooted path without an alias, outside everything Windows owns and not a
  container, whatever names the anti-cheat entries declare.
\<close>

theorem game_footprint_safe:
  assumes "check_denylist c = Ret []" and "g \<in> set (cat_game c)"
    and "entry \<in> set (game_install_hints g @ game_residue g @ game_saves g)"
    and "expand_for_validation (pe_path entry) = Inr paths" and "s \<in> set paths"
  shows "\<exists>p. canonicalise_syntactic s = Ret (Inr p) \<and> kind p = DriveRooted \<and> \<not> short_name p
    \<and> \<not> in_refused_subtree (components p) \<and> \<not> refused_alone (components p)"
  by (rule game_template_safe [OF assms])

theorem game_footprint_safe_witness:
  "\<exists>p. canonicalise_syntactic (win ''C:/Users/ExampleUser/AppData/Local/ExGame'') = Ret (Inr p)
     \<and> \<not> in_refused_subtree (components p)"
proof -
  have clean: "check_denylist sample_catalog = Ret []" by code_simp
  have "expand_for_validation (win ''%LOCALAPPDATA%/ExGame'')
      = Inr [win ''C:/Users/ExampleUser/AppData/Local/ExGame'']" by code_simp
  moreover obtain g where "g \<in> set (cat_game sample_catalog)"
    "\<lparr>pe_path = win ''%LOCALAPPDATA%/ExGame'', pe_class = Cache\<rparr>
       \<in> set (game_install_hints g @ game_residue g @ game_saves g)"
    by (simp add: sample_catalog_def blank_catalog_def blank_game_def)
  ultimately show ?thesis
    using game_footprint_safe [OF clean, of g "\<lparr>pe_path = win ''%LOCALAPPDATA%/ExGame'', pe_class = Cache\<rparr>"]
    by fastforce
qed

section \<open>Identifiers\<close>

lemma reused_ids_Nil:
  "reused_ids seen ids = [] \<longleftrightarrow>
     distinct (map snd ids) \<and> (\<forall>i \<in> set (map snd ids). seen i = None)"
proof (induction seen ids rule: reused_ids.induct)
  case (2 seen tag ident rest)
  have "reused_ids seen ((tag, ident) # rest) = [] \<longleftrightarrow>
      seen ident = None \<and> reused_ids (seen(ident \<mapsto> tag)) rest = []"
    by (cases "seen ident") simp_all
  also have "\<dots> \<longleftrightarrow> seen ident = None \<and> distinct (map snd rest)
      \<and> (\<forall>i \<in> set (map snd rest). i \<noteq> ident \<and> seen i = None)"
    unfolding "2.IH" by auto
  finally show ?case by auto
qed simp

lemma unknown_refs_Nil:
  "unknown_refs c g = [] \<longleftrightarrow>
     set (game_anticheat g) \<subseteq> ac_id ` set (cat_anticheat c)
     \<and> set (game_platforms g) \<subseteq> launcher_id ` set (cat_launcher c)"
  by (auto simp: unknown_refs_def concat_eq_Nil_iff list_ex_iff)

text \<open>
  The reference check reports nothing exactly when no id is used twice across the three
  tables and every anti-cheat and launcher a game names exists.
\<close>

theorem check_refs_clean:
  "check_refs c = [] \<longleftrightarrow>
     distinct (map ac_id (cat_anticheat c) @ map game_id (cat_game c) @ map launcher_id (cat_launcher c))
     \<and> (\<forall>g \<in> set (cat_game c).
          set (game_anticheat g) \<subseteq> ac_id ` set (cat_anticheat c)
          \<and> set (game_platforms g) \<subseteq> launcher_id ` set (cat_launcher c))"
proof -
  have "map snd (tagged_ids c)
      = map ac_id (cat_anticheat c) @ map game_id (cat_game c) @ map launcher_id (cat_launcher c)"
    by (simp add: tagged_ids_def)
  then show ?thesis
    by (simp add: check_refs_def reused_ids_Nil concat_eq_Nil_iff unknown_refs_Nil)
qed

theorem check_refs_clean_witness:
  "set (game_anticheat ((blank_game ''g'')\<lparr>game_anticheat := [''exac'']\<rparr>)) \<subseteq> {''exac''}"
proof -
  let ?c = "blank_catalog\<lparr>cat_anticheat := [blank_anti_cheat ''exac''],
      cat_game := [(blank_game ''g'')\<lparr>game_anticheat := [''exac'']\<rparr>]\<rparr>"
  have "check_refs ?c = []" by code_simp
  then show ?thesis
    using check_refs_clean [of ?c] by (simp add: blank_catalog_def blank_anti_cheat_def)
qed

section \<open>Sharing claims\<close>

text \<open>
  With evidence required, the audit reports nothing exactly when every entry either stays
  shared or shows at least two distinct titles and one observation; without the requirement
  it accepts every such catalog too.
\<close>

theorem audit_shared_clean:
  "(audit_shared c True = [] \<longleftrightarrow>
     (\<forall>ac \<in> set (cat_anticheat c). ac_shared ac \<or>
        (\<exists>ev. ac_shared_evidence ac = Some ev
           \<and> (\<exists>a \<in> distinct_titles (titles_observed ev). \<exists>b \<in> distinct_titles (titles_observed ev). a \<noteq> b)
           \<and> (\<exists>i \<in> set (observation_ids ev). trim i \<noteq> []))))
   \<and> (audit_shared c True = [] \<longrightarrow> audit_shared c False = [])"
proof -
  have two: "2 \<le> card (distinct_titles ts) \<longleftrightarrow>
      (\<exists>a \<in> distinct_titles ts. \<exists>b \<in> distinct_titles ts. a \<noteq> b)" for ts
  proof -
    have "finite (distinct_titles ts)" by (simp add: distinct_titles_def)
    then have "card (distinct_titles ts) \<le> Suc 0 \<longleftrightarrow>
        (\<forall>a \<in> distinct_titles ts. \<forall>b \<in> distinct_titles ts. a = b)"
      by (rule card_le_Suc0_iff_eq)
    then show ?thesis by (auto simp: numeral_2_eq_2 not_less_eq_eq [symmetric])
  qed
  have entry: "audit_shared_entry True ac = [] \<longleftrightarrow> ac_shared ac \<or>
      (\<exists>ev. ac_shared_evidence ac = Some ev \<and> 2 \<le> card (distinct_titles (titles_observed ev))
         \<and> (\<exists>i \<in> set (observation_ids ev). trim i \<noteq> []))" for ac
    by (auto simp: audit_shared_entry_def Let_def list_all_iff not_less split: option.splits)
  have "audit_shared_entry False ac = []" if "audit_shared_entry True ac = []" for ac
    using that by (auto simp: audit_shared_entry_def Let_def split: option.splits if_splits)
  then show ?thesis
    by (auto simp: audit_shared_def concat_eq_Nil_iff entry two)
qed

theorem audit_shared_clean_witness:
  "audit_shared
     (blank_catalog\<lparr>cat_anticheat :=
        [(blank_anti_cheat ''x'')\<lparr>ac_shared := False, ac_shared_evidence :=
           Some \<lparr>titles_observed = [''A'', '' a '', ''B''], observation_ids = [''o1''], evidence_note = None\<rparr>\<rparr>]\<rparr>)
     False = []"
proof -
  let ?c = "blank_catalog\<lparr>cat_anticheat :=
        [(blank_anti_cheat ''x'')\<lparr>ac_shared := False, ac_shared_evidence :=
           Some \<lparr>titles_observed = [''A'', '' a '', ''B''], observation_ids = [''o1''], evidence_note = None\<rparr>\<rparr>]\<rparr>"
  have "audit_shared ?c True = []" by code_simp
  then show ?thesis using audit_shared_clean [of ?c] by blast
qed

section \<open>Valid catalogs\<close>

text \<open>What each group of field checks accepts, without the messages.\<close>

definition valid_template :: "string \<Rightarrow> bool" where
  "valid_template t \<longleftrightarrow>
     CHR ''*'' \<notin> set t \<and> CHR ''?'' \<notin> set t
     \<and> (\<forall>component \<in> set (split_on separator t).
          component \<noteq> ''.'' \<and> component \<noteq> ''..''
          \<and> (component = [] \<or> \<not> dot_or_space (last component)))
     \<and> (\<exists>paths. expand_for_validation t = Inr paths
          \<and> (\<forall>s \<in> set paths. \<exists>p. canonicalise_syntactic s = Ret (Inr p)))"

definition valid_key :: "registry_entry \<Rightarrow> bool" where
  "valid_key entry \<longleftrightarrow> (\<exists>k. canonicalise_reg_key (re_key entry) = Inr k) \<and> re_class entry \<noteq> Save"

definition valid_uninstall :: "official_uninstall \<Rightarrow> bool" where
  "valid_uninstall u \<longleftrightarrow>
     (case (ou_kind u, ou_command u) of
        (UninstallExe, Some c) \<Rightarrow> trim c \<noteq> []
      | (UninstallMsi, Some code) \<Rightarrow> looks_like_product_code code
      | (UninstallNone, None) \<Rightarrow> True
      | _ \<Rightarrow> False)"

definition valid_anticheat :: "anti_cheat \<Rightarrow> bool" where
  "valid_anticheat ac \<longleftrightarrow>
     is_kebab (ac_id ac) \<and> trim (ac_display ac) \<noteq> []
     \<and> (ac_kind ac = Kernel \<longrightarrow> ac_drivers ac \<noteq> [])
     \<and> \<not> (ac_risk ac = Critical \<and> ac_kind ac = Usermode)
     \<and> (\<forall>d \<in> set (ac_drivers ac). backslash \<notin> set d \<and> CHR ''/'' \<notin> set d \<and> is_sys d)
     \<and> (\<forall>h \<in> set (ac_file_hashes ac). is_sha256 h)
     \<and> (\<forall>s \<in> set (ac_services ac). trim s \<noteq> [])
     \<and> (\<forall>entry \<in> set (ac_paths ac). valid_template (pe_path entry) \<and> pe_class entry \<noteq> Save)
     \<and> (\<forall>entry \<in> set (ac_registry ac). valid_key entry)
     \<and> (\<forall>u. ac_official_uninstall ac = Some u \<longrightarrow> valid_uninstall u)"

definition valid_game :: "game \<Rightarrow> bool" where
  "valid_game g \<longleftrightarrow>
     is_kebab (game_id g)
     \<and> (\<forall>entry \<in> set (game_install_hints g @ game_residue g).
          valid_template (pe_path entry) \<and> pe_class entry \<noteq> Save)
     \<and> (\<forall>entry \<in> set (game_saves g). valid_template (pe_path entry) \<and> pe_class entry = Save)
     \<and> (\<forall>entry \<in> set (game_registry g). valid_key entry)"

definition valid_launcher :: "launcher_entry \<Rightarrow> bool" where
  "valid_launcher l \<longleftrightarrow>
     is_kebab (launcher_id l)
     \<and> (\<forall>u. launcher_uninstall l = Some u \<longrightarrow>
          lu_kind u \<in> {LauncherProtocol, LauncherMsi, LauncherExe} \<longrightarrow> lu_command u \<noteq> None)
     \<and> (\<forall>key. launcher_detect_registry l = Some key \<longrightarrow> (\<exists>k. canonicalise_reg_key key = Inr k))"

lemma ends_with_single: "ends_with s [c] \<longleftrightarrow> s \<noteq> [] \<and> last s = c"
  by (cases s rule: rev_cases) (auto simp: ends_with_def)

lemma component_problem_None:
  "component_problem t component = None \<longleftrightarrow>
     component \<noteq> ''.'' \<and> component \<noteq> ''..'' \<and> (component = [] \<or> \<not> dot_or_space (last component))"
  by (auto simp: component_problem_def ends_with_single dot_or_space_def)

lemma non_canonical_component_None:
  "non_canonical_component t = None \<longleftrightarrow>
     (\<forall>component \<in> set (split_on separator t).
        component \<noteq> ''.'' \<and> component \<noteq> ''..'' \<and> (component = [] \<or> \<not> dot_or_space (last component)))"
  by (simp add: non_canonical_component_def component_problem_None)

lemma canonicalises_Nil:
  "bind_run (canonicalise_syntactic s) (\<lambda>r. Ret (case r of Inl e \<Rightarrow> [f e] | Inr _ \<Rightarrow> [])) = Ret []
     \<longleftrightarrow> (\<exists>p. canonicalise_syntactic s = Ret (Inr p))"
  for f :: "path_error \<Rightarrow> problem"
proof (cases "canonicalise_syntactic s")
  case (Ret r)
  then show ?thesis by (cases r) simp_all
qed simp

lemma check_path_entry_Nil:
  "check_path_entry at expect_save entry = Ret [] \<longleftrightarrow>
     expect_save = (pe_class entry = Save) \<and> valid_template (pe_path entry)"
proof (cases "expand_for_validation (pe_path entry)")
  case (Inl e)
  then show ?thesis by (simp add: check_path_entry_def valid_template_def)
next
  case (Inr paths)
  then have "check_path_entry at expect_save entry = Ret [] \<longleftrightarrow>
      collect (\<lambda>s. bind_run (canonicalise_syntactic s) (\<lambda>r. Ret (case r of
        Inl e \<Rightarrow> [problem_at at (pe_path entry @ '' does not canonicalise: '' @ path_error_text e)]
      | Inr _ \<Rightarrow> []))) paths = Ret []
      \<and> expect_save = (pe_class entry = Save)
      \<and> CHR ''*'' \<notin> set (pe_path entry) \<and> CHR ''?'' \<notin> set (pe_path entry)
      \<and> non_canonical_component (pe_path entry) = None"
    unfolding check_path_entry_def bind_append_Nil by auto
  with Inr show ?thesis
    unfolding collect_eq_Nil canonicalises_Nil non_canonical_component_None
    by (auto simp: valid_template_def)
qed

lemma check_paths_Nil:
  "check_paths at field entries expect_save = Ret [] \<longleftrightarrow>
     (\<forall>entry \<in> set entries. expect_save = (pe_class entry = Save) \<and> valid_template (pe_path entry))"
  unfolding check_paths_def by (rule collect_enumerated_Nil) (rule check_path_entry_Nil)

lemma check_registry_Nil:
  "check_registry at entries = [] \<longleftrightarrow> (\<forall>entry \<in> set entries. valid_key entry)"
proof -
  have "problem_of a (map_option reg_key_error_text (err_of (canonicalise_reg_key t))) = []
      \<longleftrightarrow> (\<exists>k. canonicalise_reg_key t = Inr k)" for a t
    by simp
  then show ?thesis
    unfolding check_registry_def
    by (intro concat_enumerated_Nil) (simp only: append_is_Nil_conv report_if_Nil valid_key_def)
qed

lemma check_driver_names_Nil:
  "check_driver_names at ds = [] \<longleftrightarrow>
     (\<forall>d \<in> set ds. backslash \<notin> set d \<and> CHR ''/'' \<notin> set d \<and> is_sys d)"
  unfolding check_driver_names_def by (rule concat_enumerated_Nil) auto

lemma check_uninstall_Nil: "check_uninstall at u = [] \<longleftrightarrow> valid_uninstall u"
  by (auto simp: check_uninstall_def valid_uninstall_def split: uninstall_kind.splits option.splits)

lemma check_hashes_Nil:
  "concat (map (\<lambda>(index, hash). report_if (\<not> is_sha256 hash) (f index) msg) (enumerated hs)) = []
     \<longleftrightarrow> (\<forall>h \<in> set hs. is_sha256 h)"
  by (rule concat_enumerated_Nil) simp

lemma check_id_Nil: "check_id at i = [] \<longleftrightarrow> is_kebab i"
  by (simp add: check_id_def)

lemma optional_uninstall_Nil:
  "(case o' of None \<Rightarrow> [] | Some u \<Rightarrow> check_uninstall at u) = [] \<longleftrightarrow> (\<forall>u. o' = Some u \<longrightarrow> valid_uninstall u)"
  by (cases o') (simp_all add: check_uninstall_Nil)

lemma validate_anticheat_Nil:
  "map_run (\<lambda>rest. check_id at (ac_id ac) @ rest) (validate_anticheat at ac) = Ret []
     \<longleftrightarrow> valid_anticheat ac"
proof -
  have "map_run (\<lambda>rest. check_id at (ac_id ac) @ rest) (validate_anticheat at ac) = Ret []
      \<longleftrightarrow> check_id at (ac_id ac) = [] \<and> validate_anticheat at ac = Ret []"
    by auto
  moreover have "validate_anticheat at ac = Ret [] \<longleftrightarrow>
      check_paths at ''paths'' (ac_paths ac) False = Ret []
      \<and> trim (ac_display ac) \<noteq> [] \<and> \<not> (ac_kind ac = Kernel \<and> ac_drivers ac = [])
      \<and> \<not> (ac_risk ac = Critical \<and> ac_kind ac = Usermode)
      \<and> check_driver_names at (ac_drivers ac) = [] \<and> (\<forall>h \<in> set (ac_file_hashes ac). is_sha256 h)
      \<and> \<not> list_ex (\<lambda>s. trim s = []) (ac_services ac) \<and> check_registry at (ac_registry ac) = []
      \<and> (\<forall>u. ac_official_uninstall ac = Some u \<longrightarrow> valid_uninstall u)"
    unfolding validate_anticheat_def bind_append_Nil append_is_Nil_conv report_if_Nil
      check_hashes_Nil optional_uninstall_Nil by blast
  ultimately show ?thesis
    unfolding check_driver_names_Nil check_registry_Nil check_paths_Nil check_id_Nil valid_anticheat_def
      list_ex_iff
    by blast
qed

lemma check_game_Nil: "check_game at g = Ret [] \<longleftrightarrow> valid_game g"
proof -
  have "check_game at g = Ret [] \<longleftrightarrow>
      check_paths at ''install_hints'' (game_install_hints g) False = Ret []
      \<and> check_paths at ''residue'' (game_residue g) False = Ret []
      \<and> check_paths at ''saves'' (game_saves g) True = Ret []
      \<and> check_id at (game_id g) = [] \<and> check_registry at (game_registry g) = []"
    by (auto simp: check_game_def)
  then show ?thesis
    unfolding check_paths_Nil check_id_Nil check_registry_Nil
    by (auto simp: valid_game_def)
qed

lemma check_launcher_Nil: "check_launcher at l = [] \<longleftrightarrow> valid_launcher l"
  by (auto simp: check_launcher_def check_id_Nil valid_launcher_def split: option.splits)

lemma validate_Nil:
  "validate c = Ret [] \<longleftrightarrow>
     schema_version c = supported_schema_version
     \<and> trim (catalog_version c) \<noteq> [] \<and> trim (minimum_app_version c) \<noteq> []
     \<and> (\<forall>ac \<in> set (cat_anticheat c). valid_anticheat ac)
     \<and> (\<forall>g \<in> set (cat_game c). valid_game g)
     \<and> (\<forall>l \<in> set (cat_launcher c). valid_launcher l)"
proof -
  let ?acs = "collect (\<lambda>(index, ac).
         let at = entry_at ''anticheat'' index (ac_id ac)
         in map_run (\<lambda>rest. check_id at (ac_id ac) @ rest) (validate_anticheat at ac))
       (enumerated (cat_anticheat c))"
  let ?games = "collect (\<lambda>(index, g). check_game (entry_at ''game'' index (game_id g)) g)
       (enumerated (cat_game c))"
  let ?launchers = "concat (map (\<lambda>(index, l). check_launcher (entry_at ''launcher'' index (launcher_id l)) l)
                (enumerated (cat_launcher c)))"
  have "?acs = Ret [] \<longleftrightarrow> (\<forall>ac \<in> set (cat_anticheat c). valid_anticheat ac)"
    unfolding Let_def by (rule collect_enumerated_Nil) (rule validate_anticheat_Nil)
  moreover have "?games = Ret [] \<longleftrightarrow> (\<forall>g \<in> set (cat_game c). valid_game g)"
    by (rule collect_enumerated_Nil) (rule check_game_Nil)
  moreover have "?launchers = [] \<longleftrightarrow> (\<forall>l \<in> set (cat_launcher c). valid_launcher l)"
    by (rule concat_enumerated_Nil) (rule check_launcher_Nil)
  moreover have "validate c = Ret [] \<longleftrightarrow> ?acs = Ret [] \<and> ?games = Ret [] \<and> ?launchers = []
      \<and> schema_version c = supported_schema_version
      \<and> trim (catalog_version c) \<noteq> [] \<and> trim (minimum_app_version c) \<noteq> []"
    unfolding validate_def by auto
  ultimately show ?thesis by blast
qed

text \<open>
  Validation reports nothing exactly when the version is the supported one, neither version
  string is blank, and every anti-cheat, game and launcher entry is valid.
\<close>

theorem validate_clean:
  "validate c = Ret [] \<longleftrightarrow>
     schema_version c = supported_schema_version
     \<and> trim (catalog_version c) \<noteq> [] \<and> trim (minimum_app_version c) \<noteq> []
     \<and> (\<forall>ac \<in> set (cat_anticheat c). valid_anticheat ac)
     \<and> (\<forall>g \<in> set (cat_game c). valid_game g)
     \<and> (\<forall>l \<in> set (cat_launcher c). valid_launcher l)"
  by (rule validate_Nil)

theorem validate_clean_witness: "list_all valid_anticheat (cat_anticheat sample_catalog)"
proof -
  have "validate sample_catalog = Ret []" by code_simp
  then show ?thesis using validate_clean [of sample_catalog] unfolding list_all_iff by blast
qed

section \<open>Product codes\<close>

definition hex_group :: "nat \<Rightarrow> string \<Rightarrow> bool" where
  "hex_group n g \<longleftrightarrow> length g = n \<and> list_all is_hexdigit_byte g"

lemma hex_not_hyphen: "is_hexdigit_byte b \<Longrightarrow> b \<noteq> CHR ''-''"
  by (auto simp: is_hexdigit_byte_def is_digit_byte_def)

lemma list_of_five: "length xs = 5 \<longleftrightarrow> (\<exists>a b c d e. xs = [a, b, c, d, e])"
  by (auto simp: numeral_eq_Suc length_Suc_conv)

text \<open>
  A text looks like a product code exactly when it is five groups of 8, 4, 4, 4 and 12
  hexadecimal digits joined by hyphens, in braces.
\<close>

theorem product_code_form:
  "looks_like_product_code v \<longleftrightarrow>
     (\<exists>a b c d e. v = ''{'' @ a @ ''-'' @ b @ ''-'' @ c @ ''-'' @ d @ ''-'' @ e @ ''}''
        \<and> hex_group 8 a \<and> hex_group 4 b \<and> hex_group 4 c \<and> hex_group 4 d \<and> hex_group 12 e)"
proof
  assume looks: "looks_like_product_code v"
  then obtain inner where v: "v = ''{'' @ inner @ ''}''"
    and five: "length (split_char (CHR ''-'') inner) = 5"
    and lens: "list_all (\<lambda>(len, group). length group = len)
      (zip [8, 4, 4, 4, 12] (split_char (CHR ''-'') inner))"
    and hex: "list_all (\<lambda>b. is_hexdigit_byte b \<or> b = CHR ''-'') inner"
    by (auto simp: looks_like_product_code_def Let_def bind_eq_Some_conv strip_prefix_Some
        strip_suffix_Some split: option.splits)
  then obtain a b c d e where groups: "split_char (CHR ''-'') inner = [a, b, c, d, e]"
    by (auto simp: list_of_five)
  have "list_all is_hexdigit_byte g" if "g \<in> {a, b, c, d, e}" for g
    using that hex groups split_on_segments [of g "\<lambda>c. c = CHR ''-''" inner]
    by (auto simp: list_all_iff)
  then have "hex_group 8 a" "hex_group 4 b" "hex_group 4 c" "hex_group 4 d" "hex_group 12 e"
    using lens groups by (simp_all add: hex_group_def)
  moreover have "v = ''{'' @ a @ ''-'' @ b @ ''-'' @ c @ ''-'' @ d @ ''-'' @ e @ ''}''"
    using v join_split_char [OF groups] by simp
  ultimately show "\<exists>a b c d e. v = ''{'' @ a @ ''-'' @ b @ ''-'' @ c @ ''-'' @ d @ ''-'' @ e @ ''}''
      \<and> hex_group 8 a \<and> hex_group 4 b \<and> hex_group 4 c \<and> hex_group 4 d \<and> hex_group 12 e"
    by blast
next
  assume "\<exists>a b c d e. v = ''{'' @ a @ ''-'' @ b @ ''-'' @ c @ ''-'' @ d @ ''-'' @ e @ ''}''
      \<and> hex_group 8 a \<and> hex_group 4 b \<and> hex_group 4 c \<and> hex_group 4 d \<and> hex_group 12 e"
  then obtain a b c d e where
    v: "v = ''{'' @ (a @ ''-'' @ b @ ''-'' @ c @ ''-'' @ d @ ''-'' @ e) @ ''}''"
    and groups: "hex_group 8 a" "hex_group 4 b" "hex_group 4 c" "hex_group 4 d" "hex_group 12 e"
    by auto
  let ?inner = "a @ ''-'' @ b @ ''-'' @ c @ ''-'' @ d @ ''-'' @ e"
  have "CHR ''-'' \<notin> set g" if "list_all is_hexdigit_byte g" for g
    using that hex_not_hyphen by (auto simp: list_all_iff)
  then have "split_char (CHR ''-'') ?inner = [a, b, c, d, e]"
    using groups split_char_join [of a "[b, c, d, e]" "CHR ''-''"] by (simp add: hex_group_def)
  moreover have "strip_prefix v ''{'' = Some (?inner @ ''}'')" "strip_suffix (?inner @ ''}'') ''}'' = Some ?inner"
    using v by (simp_all add: strip_prefix_Some strip_suffix_Some)
  ultimately show "looks_like_product_code v"
    using groups by (auto simp: looks_like_product_code_def hex_group_def list_all_iff)
qed

end
