(* ===== verification/Libraries.thy ===== *)
theory Libraries
  imports Validate "HOL-Library.Product_Lexorder"
begin

text \<open>
  The game libraries of \<open>core/src/scan/libraries.rs\<close>: the parser of Valve's key-values text,
  the paths it names, the Epic manifests and the merging of what several sources name.  The
  file system is a record of its answers and the JSON reading of one manifest a parameter.
  A character is its UTF-8 bytes, so white space is found by its encodings.

  The lemmas show that written key-values text parses back, what the parser rejects, and that
  the merged list is sorted, free of duplicates and complete.
\<close>

section \<open>Data\<close>

datatype launcher = Steam | Epic

instantiation launcher :: linorder
begin

definition less_eq_launcher :: "launcher \<Rightarrow> launcher \<Rightarrow> bool" where
  "less_eq_launcher a b \<longleftrightarrow> a = Steam \<or> b = Epic"

definition less_launcher :: "launcher \<Rightarrow> launcher \<Rightarrow> bool" where
  "less_launcher a b \<longleftrightarrow> a = Steam \<and> b = Epic"

instance
proof
  fix x y z :: launcher
  show "x < y \<longleftrightarrow> x \<le> y \<and> \<not> y \<le> x"
    by (cases x; cases y) (simp_all add: less_eq_launcher_def less_launcher_def)
  show "x \<le> x" by (cases x) (simp_all add: less_eq_launcher_def)
  show "x \<le> y \<Longrightarrow> y \<le> z \<Longrightarrow> x \<le> z"
    by (cases x; cases y; cases z) (simp_all add: less_eq_launcher_def)
  show "x \<le> y \<Longrightarrow> y \<le> x \<Longrightarrow> x = y"
    by (cases x; cases y) (simp_all add: less_eq_launcher_def)
  show "x \<le> y \<or> y \<le> x" by (cases x; cases y) (simp_all add: less_eq_launcher_def)
qed

end

record library =
  lib_launcher :: launcher
  lib_path :: string

definition games :: "library \<Rightarrow> string" where
  "games l =
     (case lib_launcher l of
        Steam \<Rightarrow> lib_path l @ win ''/steamapps/common''
      | Epic \<Rightarrow> lib_path l)"

definition variable :: "library \<Rightarrow> string" where
  "variable l = (case lib_launcher l of Steam \<Rightarrow> ''STEAM_LIBRARY'' | Epic \<Rightarrow> ''EPIC_LIBRARY'')"

section \<open>Paths a manifest writes\<close>

definition is_drive :: "string \<Rightarrow> bool" where
  "is_drive path \<longleftrightarrow> length path = 2 \<and> ends_with path '':''"

definition normalised :: "string \<Rightarrow> string option" where
  "normalised raw =
     (let path = trim_end_matches (\<lambda>c. c = backslash)
            (replace_byte (CHR ''/'') backslash (trim raw));
          path = (if is_drive path then path @ [backslash] else path)
      in if path \<noteq> [] then Some path else None)"

definition epic_library_of :: "string \<Rightarrow> string" where
  "epic_library_of installed =
     (case after_last backslash installed of
        None \<Rightarrow> installed
      | Some leaf \<Rightarrow>
          let parent = take (length installed - Suc (length leaf)) installed
          in if parent \<noteq> [] \<and> \<not> is_drive parent then parent else installed)"

section \<open>Tokens\<close>

datatype token = TextToken string | OpenToken | CloseToken

text \<open>The rest of a quoted string and what follows it, or \<open>None\<close> when it never ends.\<close>

fun read_quoted :: "string \<Rightarrow> (string \<times> string) option" where
  "read_quoted [] = None"
| "read_quoted (c # cs) =
     (if c = CHR 0x22 then Some ([], cs)
      else if c = backslash then
        (case cs of
           [] \<Rightarrow> None
         | d # ds \<Rightarrow>
             map_option (\<lambda>(v, rest).
               ((if d = CHR ''n'' then CHR 0x0A else if d = CHR ''t'' then CHR 0x09 else d) # v, rest))
               (read_quoted ds))
      else map_option (\<lambda>(v, rest). (c # v, rest)) (read_quoted cs))"

text \<open>A comment ends after its newline or with the text.\<close>

fun skip_line :: "string \<Rightarrow> string" where
  "skip_line [] = []"
| "skip_line (c # cs) = (if c = CHR 0x0A then cs else skip_line cs)"

definition at_white_space :: "string \<Rightarrow> bool" where
  "at_white_space s \<longleftrightarrow> strip_any white_space s \<noteq> None"

text \<open>The rest of a bare string.\<close>

fun read_bare :: "string \<Rightarrow> string \<times> string" where
  "read_bare [] = ([], [])"
| "read_bare (c # cs) =
     (if at_white_space (c # cs) \<or> c = CHR ''{'' \<or> c = CHR ''}'' \<or> c = CHR 0x22 then ([], c # cs)
      else (case read_bare cs of (v, rest) \<Rightarrow> (c # v, rest)))"

lemma read_quoted_shorter: "read_quoted s = Some (v, rest) \<Longrightarrow> length rest < length s"
proof (induction s arbitrary: v rest rule: read_quoted.induct)
  case (2 c cs)
  show ?case
  proof (cases "c = CHR 0x22")
    case False
    show ?thesis
    proof (cases "c = backslash")
      case True
      with 2(3) obtain d ds w where "cs = d # ds" "read_quoted ds = Some (w, rest)"
        by (auto split: list.splits)
      with 2(1) True show ?thesis by fastforce
    next
      case other: False
      with 2(3) False obtain w where "read_quoted cs = Some (w, rest)" by auto
      with 2(2) False other show ?thesis by fastforce
    qed
  qed (use 2(3) in simp)
qed simp

lemma skip_line_shorter: "length (skip_line s) \<le> length s"
  by (induction s) auto

lemma read_bare_shorter: "read_bare s = (v, rest) \<Longrightarrow> length rest \<le> length s"
  by (induction s arbitrary: v rest) (fastforce split: if_splits prod.splits)+

function tokenise :: "string \<Rightarrow> string + token list" where
  "tokenise s =
     (case s of
        [] \<Rightarrow> Inr []
      | c # cs \<Rightarrow>
          if c = CHR ''{'' then map_sum id (\<lambda>ts. OpenToken # ts) (tokenise cs)
          else if c = CHR ''}'' then map_sum id (\<lambda>ts. CloseToken # ts) (tokenise cs)
          else if c = CHR 0x22 then
            (case read_quoted cs of
               None \<Rightarrow> Inl ''unterminated string''
             | Some (v, rest) \<Rightarrow> map_sum id (\<lambda>ts. TextToken v # ts) (tokenise rest))
          else if c = CHR ''/'' \<and> starts_with cs ''/'' then tokenise (skip_line cs)
          else
            (case strip_any white_space s of
               Some rest \<Rightarrow> tokenise rest
             | None \<Rightarrow>
                 (case read_bare cs of
                    (v, rest) \<Rightarrow> map_sum id (\<lambda>ts. TextToken (c # v) # ts) (tokenise rest))))"
  by pat_completeness auto
termination
proof (relation "measure length", goal_cases)
  case (5 s c cs)
  then show ?case using skip_line_shorter [of cs] by simp
next
  case (6 s c cs v rest)
  then show ?case using read_bare_shorter [of cs v rest] by simp
qed (auto dest: read_quoted_shorter strip_any_shorter)

declare tokenise.simps [simp del]

section \<open>Entries\<close>

datatype kv_value = TextValue string | BlockValue "(string \<times> kv_value) list"

text \<open>
  The loop that reads entries until a closing brace or the end, recursing into a block; the
  mutable position is the list of tokens left.
\<close>

function entries :: "token list \<Rightarrow> string + ((string \<times> kv_value) list \<times> token list)" where
  "entries ts =
     (case ts of
        [] \<Rightarrow> Inr ([], [])
      | CloseToken # _ \<Rightarrow> Inr ([], ts)
      | OpenToken # _ \<Rightarrow> Inl ''a block with no key''
      | TextToken key # later \<Rightarrow>
          (case later of
             TextToken text # rest \<Rightarrow>
               map_sum id (\<lambda>(es, left). ((key, TextValue text) # es, left)) (entries rest)
           | OpenToken # rest \<Rightarrow>
               (case entries rest of
                  Inl e \<Rightarrow> Inl e
                | Inr (inner, left) \<Rightarrow>
                    (case left of
                       CloseToken # rest' \<Rightarrow>
                         map_sum id (\<lambda>(es, left). ((key, BlockValue inner) # es, left)) (entries rest')
                     | _ \<Rightarrow> Inl (''`'' @ key @ ''` is never closed'')))
           | _ \<Rightarrow> Inl (''`'' @ key @ ''` has no value'')))"
  by pat_completeness auto

termination
proof -
  \<comment> \<open>What is left is never longer than what was there, which is why the loop ends.\<close>
  have shorter: "length left \<le> length ts" if "entries_dom ts" "entries ts = Inr (es, left)" for ts es left
    using that
  proof (induction ts arbitrary: es left rule: entries.pinduct)
    case (1 ts)
    show ?case
    proof (cases ts)
      case Nil
      with 1 show ?thesis by (simp add: entries.psimps)
    next
      case ts: (Cons t later)
      show ?thesis
      proof (cases t)
        case key: (TextToken key)
        show ?thesis
        proof (cases later)
          case later: (Cons u rest)
          show ?thesis
          proof (cases u)
            case (TextToken v)
            with 1(1,5) ts key later obtain es' where "entries rest = Inr (es', left)"
              by (cases "entries rest") (auto simp: entries.psimps)
            with 1(2) [OF ts key later TextToken] ts later show ?thesis by fastforce
          next
            case OpenToken
            with 1(1,5) ts key later obtain es1 rest' es' where
              inner: "entries rest = Inr (es1, CloseToken # rest')" and "entries rest' = Inr (es', left)"
              by (auto simp: entries.psimps map_sum_eq_Inr split: sum.splits list.splits token.splits prod.splits)
            moreover from this(1) have "length (CloseToken # rest') \<le> length rest"
              by (rule 1(3) [OF ts key later OpenToken])
            moreover have "length left \<le> length rest'"
              using 1(4) [OF ts key later OpenToken inner refl refl refl] calculation(2) by blast
            ultimately show ?thesis using ts later by simp
          next
            case CloseToken
            with 1(1,5) ts key later show ?thesis by (simp add: entries.psimps)
          qed
        qed (use 1(1,5) ts key in \<open>simp add: entries.psimps\<close>)
      qed (use 1(1,5) ts in \<open>simp_all add: entries.psimps\<close>)
    qed
  qed
  show ?thesis
    by (relation "measure length") (auto dest: shorter)
qed

declare entries.simps [simp del]

definition key_values :: "string \<Rightarrow> string + (string \<times> kv_value) list" where
  "key_values vdf =
     (case tokenise vdf of
        Inl e \<Rightarrow> Inl e
      | Inr tokens \<Rightarrow>
          (case entries tokens of
             Inl e \<Rightarrow> Inl e
           | Inr (es, left) \<Rightarrow> if left = [] then Inr es else Inl ''unbalanced `}`''))"

section \<open>The libraries Steam names\<close>

definition folders_of :: "(string \<times> kv_value) list \<Rightarrow> (string \<times> kv_value) list option" where
  "folders_of document =
     find_map (\<lambda>(key, v). case v of
         BlockValue es \<Rightarrow> if eq_ignore_ascii_case key ''libraryfolders'' then Some es else None
       | TextValue _ \<Rightarrow> None) document"

definition folder_path :: "string \<times> kv_value \<Rightarrow> string option" where
  "folder_path folder =
     (case folder of (key, v) \<Rightarrow>
        (case v of
           BlockValue entry \<Rightarrow>
             find_map (\<lambda>(name, w). case w of
                 TextValue txt \<Rightarrow> if eq_ignore_ascii_case name ''path'' then Some txt else None
               | BlockValue _ \<Rightarrow> None) entry
         | TextValue txt \<Rightarrow> if list_all is_digit_byte key then Some txt else None))"

definition add_folder :: "string \<times> kv_value \<Rightarrow> string list \<Rightarrow> string list" where
  "add_folder folder paths =
     (case Option.bind (folder_path folder) normalised of
        None \<Rightarrow> paths
      | Some path \<Rightarrow>
          if list_ex (\<lambda>seen. eq_ignore_ascii_case seen path) paths then paths else paths @ [path])"

definition steam_library_paths :: "string \<Rightarrow> string + string list" where
  "steam_library_paths vdf =
     (case key_values vdf of
        Inl e \<Rightarrow> Inl e
      | Inr document \<Rightarrow>
          (case folders_of document of
             None \<Rightarrow> Inl ''no `libraryfolders` block''
           | Some folders \<Rightarrow> Inr (fold add_folder folders [])))"

section \<open>Epic's manifests\<close>

text \<open>
  \<open>json\<close> is \<open>serde_json\<close>'s reading of one manifest: its error, or the string under
  \<open>InstallLocation\<close> when there is one.
\<close>

definition epic_install_location ::
    "(string \<Rightarrow> string + string option) \<Rightarrow> string \<Rightarrow> string + string option" where
  "epic_install_location json item_json =
     (case json item_json of
        Inl e \<Rightarrow> Inl (''not an Epic manifest: '' @ e)
      | Inr installed \<Rightarrow> Inr (Option.bind installed normalised))"

section \<open>Merging\<close>

text \<open>What two libraries are compared by: the launcher and the path without its case.\<close>

definition library_key :: "library \<Rightarrow> launcher \<times> string" where
  "library_key l = (lib_launcher l, to_ascii_lowercase (lib_path l))"

text \<open>\<open>dedup_by\<close>: of neighbours that agree, the earlier one stays.\<close>

fun dedup_neighbours :: "library list \<Rightarrow> library list" where
  "dedup_neighbours [] = []"
| "dedup_neighbours [l] = [l]"
| "dedup_neighbours (l # m # ls) =
     (if lib_launcher m = lib_launcher l \<and> eq_ignore_ascii_case (lib_path m) (lib_path l)
      then dedup_neighbours (l # ls)
      else l # dedup_neighbours (m # ls))"

definition deduplicated :: "library list \<Rightarrow> library list" where
  "deduplicated ls = dedup_neighbours (sort_key library_key ls)"

definition covers :: "library list \<Rightarrow> library \<Rightarrow> bool" where
  "covers ls l \<longleftrightarrow>
     list_ex (\<lambda>other. lib_launcher other = lib_launcher l
       \<and> eq_ignore_ascii_case (lib_path other) (lib_path l)) ls"

definition common :: "library list list \<Rightarrow> library list" where
  "common groups =
     (case groups of
        [] \<Rightarrow> []
      | first # rest \<Rightarrow> fold (\<lambda>ls kept. filter (covers ls) kept) rest first)"

section \<open>Discovery\<close>

datatype 'a io = IoOk 'a | IoNotFound | IoError string

record file_system =
  fs_read :: "string \<Rightarrow> string io"
  fs_list :: "string \<Rightarrow> string list io"

record library_unreadable =
  lu_path :: string
  lu_reason :: string

record found_libraries =
  fl_libraries :: "library list"
  fl_unreadable :: "library_unreadable list"

definition join_path :: "string \<Rightarrow> string \<Rightarrow> string" where
  "join_path directory name =
     directory @ (if directory \<noteq> [] \<and> separator (last directory) then [] else [backslash]) @ name"

definition add_unreadable :: "string \<Rightarrow> string \<Rightarrow> found_libraries \<Rightarrow> found_libraries" where
  "add_unreadable path reason found =
     found\<lparr>fl_unreadable := fl_unreadable found @ [\<lparr>lu_path = path, lu_reason = reason\<rparr>]\<rparr>"

definition add_libraries :: "launcher \<Rightarrow> string list \<Rightarrow> found_libraries \<Rightarrow> found_libraries" where
  "add_libraries who paths found =
     found\<lparr>fl_libraries := fl_libraries found
       @ map (\<lambda>path. \<lparr>lib_launcher = who, lib_path = path\<rparr>) paths\<rparr>"

definition read_steam :: "file_system \<Rightarrow> string \<Rightarrow> found_libraries \<Rightarrow> found_libraries" where
  "read_steam fs steam found =
     (let manifest = join_path (join_path steam ''steamapps'') ''libraryfolders.vdf'' in
      case fs_read fs manifest of
        IoOk txt \<Rightarrow>
          (case steam_library_paths txt of
             Inr paths \<Rightarrow> add_libraries Steam paths found
           | Inl reason \<Rightarrow> add_unreadable manifest reason found)
      | IoNotFound \<Rightarrow> found
      | IoError e \<Rightarrow> add_unreadable manifest e found)"

text \<open>The error text of a manifest that vanished between listing and reading is the platform's.\<close>

definition read_epic_manifest ::
    "file_system \<Rightarrow> (string \<Rightarrow> string + string option) \<Rightarrow> string \<Rightarrow> string \<Rightarrow> found_libraries \<Rightarrow> found_libraries" where
  "read_epic_manifest fs json missing manifest found =
     (case (case fs_read fs manifest of
              IoOk txt \<Rightarrow> epic_install_location json txt
            | IoNotFound \<Rightarrow> Inl missing
            | IoError e \<Rightarrow> Inl e) of
        Inr (Some installed) \<Rightarrow> add_libraries Epic [epic_library_of installed] found
      | Inr None \<Rightarrow> found
      | Inl reason \<Rightarrow> add_unreadable manifest reason found)"

definition is_item :: "string \<Rightarrow> bool" where
  "is_item path \<longleftrightarrow>
     (case path_extension path of None \<Rightarrow> False | Some ext \<Rightarrow> eq_ignore_ascii_case ext ''item'')"

definition read_epic_manifests ::
    "file_system \<Rightarrow> (string \<Rightarrow> string + string option) \<Rightarrow> string \<Rightarrow> string \<Rightarrow> found_libraries \<Rightarrow> found_libraries" where
  "read_epic_manifests fs json missing directory found =
     (case fs_list fs directory of
        IoOk paths \<Rightarrow> fold (read_epic_manifest fs json missing) (sort (filter is_item paths)) found
      | IoNotFound \<Rightarrow> found
      | IoError e \<Rightarrow> add_unreadable directory e found)"

definition discover ::
    "file_system \<Rightarrow> (string \<Rightarrow> string + string option) \<Rightarrow> string
       \<Rightarrow> string option \<Rightarrow> string option \<Rightarrow> found_libraries" where
  "discover fs json missing steam_install epic_manifests =
     (let found = \<lparr>fl_libraries = [], fl_unreadable = []\<rparr>;
          found = (case steam_install of Some steam \<Rightarrow> read_steam fs steam found | None \<Rightarrow> found);
          found = (case epic_manifests of
                     Some directory \<Rightarrow> read_epic_manifests fs json missing directory found
                   | None \<Rightarrow> found)
      in found\<lparr>fl_libraries := deduplicated (fl_libraries found)\<rparr>)"

section \<open>Writing key-values text\<close>

text \<open>A writer for entries, the inverse of the parser: every string quoted and escaped.\<close>

fun escaped :: "string \<Rightarrow> string" where
  "escaped [] = []"
| "escaped (c # cs) = (if c = CHR 0x22 \<or> c = backslash then [backslash, c] else [c]) @ escaped cs"

definition quoted :: "string \<Rightarrow> string" where
  "quoted s = CHR 0x22 # escaped s @ [CHR 0x22]"

fun flatten :: "(string \<times> kv_value) list \<Rightarrow> token list" where
  "flatten [] = []"
| "flatten ((k, TextValue t) # es) = TextToken k # TextToken t # flatten es"
| "flatten ((k, BlockValue b) # es) = TextToken k # OpenToken # flatten b @ CloseToken # flatten es"

fun write_token :: "token \<Rightarrow> string" where
  "write_token (TextToken s) = quoted s @ '' ''"
| "write_token OpenToken = ''{''"
| "write_token CloseToken = ''}''"

definition write_entries :: "(string \<times> kv_value) list \<Rightarrow> string" where
  "write_entries es = concat (map write_token (flatten es))"

lemma read_quoted_escaped: "read_quoted (escaped s @ CHR 0x22 # rest) = Some (s, rest)"
  by (induction s) auto

lemma tokenise_simps:
  "tokenise [] = Inr []"
  "tokenise (CHR ''{'' # s) = map_sum id (\<lambda>ts. OpenToken # ts) (tokenise s)"
  "tokenise (CHR ''}'' # s) = map_sum id (\<lambda>ts. CloseToken # ts) (tokenise s)"
  by (simp_all add: tokenise.simps [of "[]"] tokenise.simps [of "CHR ''{'' # s"]
      tokenise.simps [of "CHR ''}'' # s"])

lemma tokenise_quoted: "tokenise (quoted t @ s) = map_sum id (\<lambda>ts. TextToken t # ts) (tokenise s)"
proof -
  have "quoted t @ s = CHR 0x22 # escaped t @ CHR 0x22 # s" by (simp add: quoted_def)
  then show ?thesis
    by (simp add: tokenise.simps [of "CHR 0x22 # escaped t @ CHR 0x22 # s"] read_quoted_escaped)
qed

lemma tokenise_space: "tokenise (CHR '' '' # s) = tokenise s"
proof -
  have "strip_any white_space (CHR '' '' # s) = Some s"
    using strip_any_ascii [of white_space "CHR '' ''" s] by (simp add: ascii_blank_def)
  then show ?thesis by (simp add: tokenise.simps [of "CHR '' '' # s"])
qed

lemma tokenise_written: "tokenise (concat (map write_token ts)) = Inr ts"
proof (induction ts)
  case (Cons t ts)
  then show ?case
    by (cases t) (simp_all add: tokenise_simps tokenise_quoted tokenise_space)
qed (simp add: tokenise_simps)

lemma entries_flatten:
  "rest = [] \<or> (\<exists>r. rest = CloseToken # r) \<Longrightarrow> entries (flatten es @ rest) = Inr (es, rest)"
proof (induction es arbitrary: rest rule: flatten.induct)
  case 1
  then show ?case by (auto simp: entries.simps [of rest])
next
  case (2 k t es)
  then show ?case by (simp add: entries.simps [of "TextToken k # ts" for ts])
next
  case (3 k b es)
  have "entries (flatten b @ CloseToken # flatten es @ rest) = Inr (b, CloseToken # flatten es @ rest)"
    using "3.IH"(1) by blast
  with 3 show ?case by (simp add: entries.simps [of "TextToken k # ts" for ts])
qed

text \<open>
  The parser reads back what the writer wrote: any document of texts and nested blocks,
  whatever characters its strings hold.
\<close>

theorem key_values_roundtrip: "key_values (write_entries es) = Inr es"
  using entries_flatten [of "[]" es] by (simp add: key_values_def write_entries_def tokenise_written)

section \<open>Merged libraries\<close>

lemma same_library:
  "lib_launcher m = lib_launcher l \<and> eq_ignore_ascii_case (lib_path m) (lib_path l)
     \<longleftrightarrow> library_key m = library_key l"
  by (auto simp: library_key_def eq_ignore_ascii_case_def)

lemma dedup_neighbours_keys:
  "map library_key (dedup_neighbours ls) = remdups_adj (map library_key ls)"
proof (induction ls rule: dedup_neighbours.induct)
  case (3 l m ls)
  then show ?case by (cases "library_key m = library_key l") (simp_all add: same_library)
qed simp_all

lemma dedup_neighbours_subset: "set (dedup_neighbours ls) \<subseteq> set ls"
  by (induction ls rule: dedup_neighbours.induct) auto

lemma remdups_adj_strict: "sorted xs \<Longrightarrow> sorted_wrt (<) (remdups_adj xs)"
  for xs :: "'a::linorder list"
proof (induction xs rule: remdups_adj.induct)
  case (3 x y xs)
  show ?case
  proof (cases "x = y")
    case False
    with 3 have "x < y" "\<forall>z \<in> set (y # xs). y \<le> z" by auto
    with 3 False show ?thesis by (auto intro: order.strict_trans2)
  qed (use 3 in simp)
qed simp_all

text \<open>
  The merged list is strictly sorted by launcher and then path, so no library appears
  twice; every library named is in it under some letter case, and nothing else is.
\<close>

theorem deduplicated_canonical:
  "sorted_wrt (<) (map library_key (deduplicated ls))
   \<and> set (map library_key (deduplicated ls)) = set (map library_key ls)
   \<and> set (deduplicated ls) \<subseteq> set ls"
proof -
  have keys: "map library_key (deduplicated ls) = remdups_adj (map library_key (sort_key library_key ls))"
    by (simp add: deduplicated_def dedup_neighbours_keys)
  have "sorted (map library_key (sort_key library_key ls))" by simp
  then have "sorted_wrt (<) (map library_key (deduplicated ls))"
    unfolding keys by (rule remdups_adj_strict)
  moreover have "set (map library_key (deduplicated ls)) = set (map library_key ls)"
    unfolding keys by simp
  moreover have "set (deduplicated ls) \<subseteq> set ls"
    using dedup_neighbours_subset [of "sort_key library_key ls"] by (simp add: deduplicated_def)
  ultimately show ?thesis by blast
qed

lemma common_fold: "fold (\<lambda>ls kept. filter (covers ls) kept) rest first = filter (\<lambda>l. \<forall>ls \<in> set rest. covers ls l) first"
  by (induction rest arbitrary: first) (auto simp: filter_filter intro: filter_cong)

text \<open>
  The common libraries of several lists are those of the first list, in its order, that
  every other list covers; no list, or any empty one, gives none.
\<close>

theorem common_covers:
  "common [] = []
   \<and> common (first # rest) = filter (\<lambda>l. list_all (\<lambda>ls. covers ls l) rest) first
   \<and> common (as @ [] # bs) = []"
proof -
  have cons: "common (first # rest) = filter (\<lambda>l. list_all (\<lambda>ls. covers ls l) rest) first" for first rest
    by (simp add: common_def common_fold list_all_iff)
  have "common (as @ [] # bs) = []"
  proof (cases as)
    case (Cons a as')
    then show ?thesis by (simp add: cons covers_def)
  qed (simp add: cons)
  then show ?thesis by (simp add: cons) (simp add: common_def)
qed

section \<open>Steam's list\<close>

text \<open>A path in the form the model promises: backslashes, trailing only after a bare drive.\<close>

definition normal_path :: "string \<Rightarrow> bool" where
  "normal_path p \<longleftrightarrow>
     p \<noteq> [] \<and> CHR ''/'' \<notin> set p \<and> (last p = backslash \<longrightarrow> is_drive (butlast p))"

lemma normalised_normal: "normalised raw = Some p \<Longrightarrow> normal_path p"
proof -
  assume some: "normalised raw = Some p"
  let ?u = "replace_byte (CHR ''/'') backslash (trim raw)"
  let ?t = "trim_end_matches (\<lambda>c. c = backslash) ?u"
  from some have p: "p = (if is_drive ?t then ?t @ [backslash] else ?t)" "p \<noteq> []"
    by (auto simp: normalised_def Let_def split: if_splits)
  have "CHR ''/'' \<notin> set ?t"
    using set_trim_end_matches [of "\<lambda>c. c = backslash" ?u] replace_no_slash by blast
  moreover have "?t \<noteq> [] \<Longrightarrow> last ?t \<noteq> backslash"
    by (rule trim_end_matches_last)
  ultimately show ?thesis
    using p by (auto simp: normal_path_def)
qed

definition listed :: "string list \<Rightarrow> bool" where
  "listed paths \<longleftrightarrow> distinct (map to_ascii_lowercase paths) \<and> list_all normal_path paths"

lemma bind_normal: "Option.bind o' normalised = Some p \<Longrightarrow> normal_path p"
  by (cases o') (auto dest: normalised_normal)

lemma add_folder_listed: "listed paths \<Longrightarrow> listed (add_folder folder paths)"
  by (auto simp: add_folder_def listed_def list_ex_iff eq_ignore_ascii_case_def
      dest: bind_normal split: option.splits)

lemma fold_add_folder_listed: "listed paths \<Longrightarrow> listed (fold add_folder folders paths)"
  by (induction folders arbitrary: paths) (simp_all add: add_folder_listed)

lemma fold_add_folder_covers:
  "(\<exists>folder \<in> set folders. Option.bind (folder_path folder) normalised = Some path)
     \<or> (\<exists>seen \<in> set paths. eq_ignore_ascii_case seen path) \<Longrightarrow>
   \<exists>seen \<in> set (fold add_folder folders paths). eq_ignore_ascii_case seen path"
proof (induction folders arbitrary: paths)
  case (Cons f fs)
  have "\<exists>seen \<in> set (add_folder f paths). eq_ignore_ascii_case seen path"
    if "Option.bind (folder_path f) normalised = Some path \<or> (\<exists>seen \<in> set paths. eq_ignore_ascii_case seen path)"
    using that by (auto simp: add_folder_def list_ex_iff split: option.splits)
  with Cons.prems have "(\<exists>folder \<in> set fs. Option.bind (folder_path folder) normalised = Some path)
      \<or> (\<exists>seen \<in> set (add_folder f paths). eq_ignore_ascii_case seen path)" by auto
  from Cons.IH [OF this] show ?case by simp
qed simp

text \<open>
  The libraries read from Steam's list are in normal form and no two name the same folder;
  each folder the block names that normalises to a path is among them under some letter case.
\<close>

theorem steam_paths_listed:
  assumes "steam_library_paths vdf = Inr paths"
  shows "distinct (map to_ascii_lowercase paths) \<and> list_all normal_path paths
    \<and> (\<forall>document folders folder path. key_values vdf = Inr document \<longrightarrow> folders_of document = Some folders
         \<longrightarrow> folder \<in> set folders \<longrightarrow> Option.bind (folder_path folder) normalised = Some path
         \<longrightarrow> (\<exists>seen \<in> set paths. eq_ignore_ascii_case seen path))"
proof -
  obtain document folders where doc: "key_values vdf = Inr document" "folders_of document = Some folders"
    and paths: "paths = fold add_folder folders []"
    using assms by (auto simp: steam_library_paths_def split: sum.splits option.splits)
  have "listed []" by (simp add: listed_def)
  then have "listed paths" unfolding paths by (rule fold_add_folder_listed)
  moreover have "\<exists>seen \<in> set paths. eq_ignore_ascii_case seen path"
    if "folder \<in> set folders" "Option.bind (folder_path folder) normalised = Some path" for folder path
    unfolding paths by (rule fold_add_folder_covers) (use that in blast)
  ultimately show ?thesis using doc by (auto simp: listed_def)
qed

definition sample_document :: "(string \<times> kv_value) list" where
  "sample_document =
     [(''LibraryFolders'', BlockValue
        [(''0'', BlockValue [(''path'', TextValue (win ''C:/Steam/''))]),
         (''1'', TextValue ''D:''), (''2'', TextValue (win ''c:/STEAM''))])]"

theorem steam_paths_listed_witness: "list_all normal_path [win ''C:/Steam'', win ''D:/'']"
proof -
  have "steam_library_paths (write_entries sample_document) = Inr [win ''C:/Steam'', win ''D:/'']"
    by code_simp
  from steam_paths_listed [OF this] show ?thesis by blast
qed

section \<open>What discovery could not read\<close>

lemma add_simps [simp]:
  "fl_unreadable (add_libraries who paths found) = fl_unreadable found"
  "fl_unreadable (add_unreadable path reason found)
     = fl_unreadable found @ [\<lparr>lu_path = path, lu_reason = reason\<rparr>]"
  by (simp_all add: add_libraries_def add_unreadable_def)

lemma read_epic_manifest_keeps:
  "set (fl_unreadable found) \<subseteq> set (fl_unreadable (read_epic_manifest fs json missing m found))"
  by (auto simp: read_epic_manifest_def split: sum.splits option.splits)

lemma fold_epic_keeps:
  "set (fl_unreadable found) \<subseteq> set (fl_unreadable (fold (read_epic_manifest fs json missing) ms found))"
proof (induction ms arbitrary: found)
  case (Cons m ms)
  have "set (fl_unreadable found) \<subseteq> set (fl_unreadable (read_epic_manifest fs json missing m found))"
    by (rule read_epic_manifest_keeps)
  with Cons.IH [of "read_epic_manifest fs json missing m found"] show ?case by simp
qed simp

lemma fold_epic_records:
  "m \<in> set ms \<Longrightarrow> (\<And>found. x \<in> set (fl_unreadable (read_epic_manifest fs json missing m found))) \<Longrightarrow>
   x \<in> set (fl_unreadable (fold (read_epic_manifest fs json missing) ms found))"
proof (induction ms arbitrary: found)
  case (Cons m' ms)
  show ?case
  proof (cases "m = m'")
    case True
    then show ?thesis
      using subsetD [OF fold_epic_keeps Cons.prems(2)] by simp
  next
    case False
    with Cons show ?thesis by simp
  qed
qed simp

text \<open>
  A manifest discovery was pointed at and could not read or parse is recorded: Steam's
  list, Epic's directory, and each Epic manifest in it.
\<close>

theorem discover_records_unreadable:
  assumes "(\<exists>steam e. steam_install = Some steam
        \<and> path = join_path (join_path steam ''steamapps'') ''libraryfolders.vdf''
        \<and> (fs_read fs path = IoError e \<or> (\<exists>txt. fs_read fs path = IoOk txt \<and> steam_library_paths txt = Inl e)))
      \<or> (\<exists>directory e. epic_manifests = Some directory \<and> path = directory \<and> fs_list fs directory = IoError e)
      \<or> (\<exists>directory paths e. epic_manifests = Some directory \<and> fs_list fs directory = IoOk paths
           \<and> path \<in> set paths \<and> is_item path
           \<and> (fs_read fs path = IoError e
              \<or> (\<exists>txt. fs_read fs path = IoOk txt \<and> json txt = Inl e)))"
  shows "\<exists>u \<in> set (fl_unreadable (discover fs json missing steam_install epic_manifests)). lu_path u = path"
proof -
  let ?start = "\<lparr>fl_libraries = [], fl_unreadable = []\<rparr>"
  let ?s = "case steam_install of Some steam \<Rightarrow> read_steam fs steam ?start | None \<Rightarrow> ?start"
  let ?e = "case epic_manifests of Some d \<Rightarrow> read_epic_manifests fs json missing d ?s | None \<Rightarrow> ?s"
  have final: "fl_unreadable (discover fs json missing steam_install epic_manifests) = fl_unreadable ?e"
    by (simp add: discover_def Let_def)
  have keep: "set (fl_unreadable ?s) \<subseteq> set (fl_unreadable ?e)"
    using fold_epic_keeps
    by (auto simp: read_epic_manifests_def split: option.splits io.splits)
  have recorded: ?thesis if "\<lparr>lu_path = path, lu_reason = r\<rparr> \<in> set (fl_unreadable ?e)" for r
    using that unfolding final by force
  from assms show ?thesis
  proof (elim disjE)
    assume "\<exists>steam e. steam_install = Some steam
        \<and> path = join_path (join_path steam ''steamapps'') ''libraryfolders.vdf''
        \<and> (fs_read fs path = IoError e \<or> (\<exists>txt. fs_read fs path = IoOk txt \<and> steam_library_paths txt = Inl e))"
    then obtain e where "\<lparr>lu_path = path, lu_reason = e\<rparr> \<in> set (fl_unreadable ?s)"
      by (auto simp: read_steam_def)
    with keep recorded show ?thesis by blast
  next
    assume "\<exists>directory e. epic_manifests = Some directory \<and> path = directory \<and> fs_list fs directory = IoError e"
    then obtain e where e: "epic_manifests = Some path" "fs_list fs path = IoError e" by blast
    then have "\<lparr>lu_path = path, lu_reason = e\<rparr> \<in> set (fl_unreadable ?e)"
      by (simp add: read_epic_manifests_def)
    then show ?thesis by (rule recorded)
  next
    assume "\<exists>directory paths e. epic_manifests = Some directory \<and> fs_list fs directory = IoOk paths
        \<and> path \<in> set paths \<and> is_item path
        \<and> (fs_read fs path = IoError e \<or> (\<exists>txt. fs_read fs path = IoOk txt \<and> json txt = Inl e))"
    then obtain directory paths e where item: "epic_manifests = Some directory"
      "fs_list fs directory = IoOk paths" "path \<in> set paths" "is_item path"
      and bad: "fs_read fs path = IoError e \<or> (\<exists>txt. fs_read fs path = IoOk txt \<and> json txt = Inl e)"
      by blast
    from bad have "\<exists>r. \<forall>found. \<lparr>lu_path = path, lu_reason = r\<rparr>
        \<in> set (fl_unreadable (read_epic_manifest fs json missing path found))"
      by (auto simp: read_epic_manifest_def epic_install_location_def)
    then obtain r where r: "\<And>found. \<lparr>lu_path = path, lu_reason = r\<rparr>
        \<in> set (fl_unreadable (read_epic_manifest fs json missing path found))" by blast
    have "\<lparr>lu_path = path, lu_reason = r\<rparr> \<in> set (fl_unreadable ?e)"
      using item fold_epic_records [OF _ r, of "sort (filter is_item paths)" ?s]
      by (simp add: read_epic_manifests_def)
    then show ?thesis by (rule recorded)
  qed
qed

theorem discover_records_unreadable_witness:
  "\<exists>u \<in> set (fl_unreadable (discover
       \<lparr>fs_read = (\<lambda>_. IoError ''denied''), fs_list = (\<lambda>_. IoNotFound)\<rparr>
       (\<lambda>_. Inr None) ''gone'' (Some (win ''C:/Steam'')) None)).
     lu_path u = win ''C:/Steam/steamapps/libraryfolders.vdf''"
proof -
  have "join_path (join_path (win ''C:/Steam'') ''steamapps'') ''libraryfolders.vdf''
      = win ''C:/Steam/steamapps/libraryfolders.vdf''" by code_simp
  then show ?thesis
    by (intro discover_records_unreadable disjI1 exI [of _ "win ''C:/Steam''"] exI [of _ "''denied''"]) simp
qed

end
