(* ===== verification/Obs_Model.thy ===== *)
theory Obs_Model
  imports Ordered_Map Libraries
begin

text \<open>
  The snapshot model of \<open>tools/observe/src/model.rs\<close>: what a snapshot records, what it says
  it covered, and what of a record is compared.
\<close>

section \<open>Domains and coverage\<close>

datatype domain =
  ServicesDomain | RegistryDomain | FilesystemDomain | TasksDomain | FirewallDomain
  | EventSourcesDomain | EnvironmentDomain

fun domain_rank :: "domain \<Rightarrow> nat" where
  "domain_rank ServicesDomain = 0"
| "domain_rank RegistryDomain = 1"
| "domain_rank FilesystemDomain = 2"
| "domain_rank TasksDomain = 3"
| "domain_rank FirewallDomain = 4"
| "domain_rank EventSourcesDomain = 5"
| "domain_rank EnvironmentDomain = 6"

lemma domain_rank_inject: "domain_rank a = domain_rank b \<Longrightarrow> a = b"
  by (cases a; cases b) simp_all

instantiation domain :: linorder
begin

definition less_eq_domain :: "domain \<Rightarrow> domain \<Rightarrow> bool" where
  "less_eq_domain a b \<longleftrightarrow> domain_rank a \<le> domain_rank b"

definition less_domain :: "domain \<Rightarrow> domain \<Rightarrow> bool" where
  "less_domain a b \<longleftrightarrow> domain_rank a < domain_rank b"

instance
  by standard (auto simp: less_eq_domain_def less_domain_def intro: domain_rank_inject)

end

definition all_domains :: "domain list" where
  "all_domains =
     [ServicesDomain, RegistryDomain, FilesystemDomain, TasksDomain, FirewallDomain,
      EventSourcesDomain, EnvironmentDomain]"

lemma all_domains_complete: "d \<in> set all_domains"
  by (cases d) (simp_all add: all_domains_def)

record access_denied =
  ad_domain :: domain
  ad_item :: string
  ad_reason :: string

record coverage =
  cv_captured :: "domain list"
  cv_not_captured :: "domain list"
  cv_access_denied :: "access_denied list"

definition covers_domain :: "coverage \<Rightarrow> domain \<Rightarrow> bool" where
  "covers_domain c d \<longleftrightarrow> d \<in> set (cv_captured c)"

text \<open>What two denials are sorted and deduplicated by: the domain and the item.\<close>

definition denial_key :: "access_denied \<Rightarrow> domain \<times> string" where
  "denial_key a = (ad_domain a, ad_item a)"

definition intersect_coverage :: "coverage \<Rightarrow> coverage \<Rightarrow> coverage" where
  "intersect_coverage c other =
     (let captured = filter (covers_domain other) (cv_captured c)
      in \<lparr>cv_captured = captured,
          cv_not_captured = filter (\<lambda>d. d \<notin> set captured) all_domains,
          cv_access_denied =
            dedup_by_key denial_key (sort_key denial_key (cv_access_denied c @ cv_access_denied other))\<rparr>)"

section \<open>Records\<close>

definition snapshot_format_version :: "32 word" where
  "snapshot_format_version = 2"

definition oldest_snapshot_format :: "32 word" where
  "oldest_snapshot_format = 1"

record reg_key_ref =
  kr_key :: string
  kr_view :: string

record boot_session =
  bs_started_utc :: string
  bs_started_unix_ms :: "64 word"
  bs_uptime_ms :: "64 word"

record filesystem_policy =
  fp_roots :: "string list"
  fp_excluded :: "string list"
  fp_hashed_extensions :: "string list"
  fp_max_hash_bytes :: "64 word"
  fp_libraries :: "library list"

record registry_policy =
  yp_roots :: "string list"
  yp_views :: "string list"
  yp_excluded :: "string list"
  yp_max_value_bytes :: "64 word"

record registry_value =
  rv_name :: string
  rv_kind :: string
  rv_data :: string
  rv_oversized_bytes :: "64 word option"

record registry_record =
  rr_key :: string
  rr_view :: string
  rr_values :: "registry_value list"

record file_record =
  fr_path :: string
  fr_size :: "64 word"
  fr_modified_utc :: string
  fr_sha256 :: "string option"
  fr_signer :: "string option"
  fr_not_hashed :: "string option"

record service_record =
  sv_name :: string
  sv_display_name :: string
  sv_service_type :: string
  sv_start_type :: string
  sv_error_control :: string
  sv_binary_path :: string
  sv_load_order_group :: string
  sv_start_name :: string
  sv_dependencies :: "string list"
  sv_description :: string
  sv_delayed_auto_start :: bool

record snapshot =
  sn_format_version :: "32 word"
  sn_taken_utc :: string
  sn_domain_started_utc :: "(string \<times> string) list"
  sn_boot_session :: "boot_session option"
  sn_harness_version :: string
  sn_label :: string
  sn_coverage :: coverage
  sn_services :: "service_record list"
  sn_files :: "file_record list"
  sn_registry :: "registry_record list"
  sn_registry_policy :: "registry_policy option"
  sn_filesystem_policy :: "filesystem_policy option"
  sn_file_empty_directories :: "string list option"
  sn_registry_empty_keys :: "reg_key_ref list option"

section \<open>What a record says of itself\<close>

definition comparable :: "registry_value \<Rightarrow> string" where
  "comparable v =
     (case rv_oversized_bytes v of
        Some bytes \<Rightarrow> rv_kind v @ '':<'' @ decimal (unat bytes) @ '' bytes, not recorded>''
      | None \<Rightarrow> rv_kind v @ '':'' @ rv_data v)"

definition is_driver_image :: "file_record \<Rightarrow> bool" where
  "is_driver_image f \<longleftrightarrow> ends_with (to_ascii_lowercase (fr_path f)) ''.sys''"

definition is_driver_service :: "service_record \<Rightarrow> bool" where
  "is_driver_service s \<longleftrightarrow> contains_sub (sv_service_type s) ''driver''"

definition is_boot_start :: "service_record \<Rightarrow> bool" where
  "is_boot_start s \<longleftrightarrow> sv_start_type s = ''boot''"

section \<open>Properties\<close>

lemma covers_intersect [simp]:
  "covers_domain (intersect_coverage c d) x \<longleftrightarrow> covers_domain c x \<and> covers_domain d x"
  by (auto simp: intersect_coverage_def covers_domain_def Let_def)

text \<open>
  What two snapshots both captured and what is listed as not captured split the domains
  between them, and every item either side was refused is still listed, once per domain and
  item.
\<close>

theorem coverage_intersection:
  "(covers_domain (intersect_coverage a b) d \<longleftrightarrow> covers_domain a d \<and> covers_domain b d)
   \<and> (d \<in> set (cv_not_captured (intersect_coverage a b)) \<longleftrightarrow> \<not> covers_domain (intersect_coverage a b) d)
   \<and> set (map denial_key (cv_access_denied (intersect_coverage a b)))
       = set (map denial_key (cv_access_denied a @ cv_access_denied b))
   \<and> sorted_wrt (<) (map denial_key (cv_access_denied (intersect_coverage a b)))"
proof -
  have "d \<in> set (cv_not_captured (intersect_coverage a b)) \<longleftrightarrow> \<not> covers_domain (intersect_coverage a b) d"
    by (simp add: intersect_coverage_def covers_domain_def Let_def all_domains_complete)
  moreover have "set (map denial_key (cv_access_denied (intersect_coverage a b)))
       = set (map denial_key (cv_access_denied a @ cv_access_denied b))"
    unfolding intersect_coverage_def Let_def coverage.select_convs dedup_by_key_keys by (simp add: image_Un)
  moreover have "sorted_wrt (<) (map denial_key (cv_access_denied (intersect_coverage a b)))"
    by (simp add: intersect_coverage_def Let_def dedup_by_key_ascending)
  ultimately show ?thesis by simp
qed

end
