(* ===== verification/Obs_Policy.thy ===== *)
theory Obs_Policy
  imports Obs_Model
begin

text \<open>
  What the observation tools refuse to read and to keep: \<open>tools/observe/src/policy.rs\<close> for
  registry keys and values, and the exclusions of \<open>tools/observe/src/collect/filesystem.rs\<close>
  for paths.
\<close>

section \<open>Hardware identity\<close>

text \<open>The lines of \<open>g3-identity-terms.txt\<close> that are neither blank nor comments.\<close>

definition g3_term_lines :: "string list" where
  "g3_term_lines =
     [''machineguid'', ''smbios'', ''serialnumber'', ''diskserial'', ''volumeserial'',
      ''macaddress'', ''baseboard'', ''processorid'', ''computersystemproduct'', ''biosuuid'',
      ''systemuuid'', ''dhcpv6duid'', ''defaultgatewaymac'', ''dhcpinterfaceoptions'',
      ''dhcpgatewayhardware'', ''volume{'']"

definition hardware_identity_terms :: "string \<Rightarrow> string list" where
  "hardware_identity_terms file =
     map to_ascii_lowercase
       (filter (\<lambda>l. l \<noteq> [] \<and> \<not> starts_with l ''#'') (map trim (text_lines file)))"

definition is_hardware_identity :: "string list \<Rightarrow> string \<Rightarrow> string \<Rightarrow> bool" where
  "is_hardware_identity terms name data =
     (let name = to_ascii_lowercase name; data = to_ascii_lowercase data
      in if list_ex (contains_sub name) terms then True
         else if starts_with data ''prop:'' then False
         else list_ex (contains_sub data) terms)"

section \<open>Personal identity\<close>

definition personal_identity_value_names :: "string list" where
  "personal_identity_value_names =
     [''hostname'', ''nv hostname'', ''computername'', ''registeredowner'',
      ''registeredorganization'', ''useremail'', ''autologinuser'', ''activeuser'',
      ''lastgamenameused'']"

definition is_personal_identity_value :: "string \<Rightarrow> bool" where
  "is_personal_identity_value name \<longleftrightarrow>
     list_ex (\<lambda>known. eq_ignore_ascii_case known (trim name)) personal_identity_value_names"

section \<open>Excluded keys and paths\<close>

definition excluded_key_fragments :: "string list" where
  "excluded_key_fragments =
     map win [
       ''/microsoft/cryptography/'',
       ''/enum/'',
       ''/services/tpm/'',
       ''/services/bthport/parameters/'',
       ''/explorer/mountpoints2/'',
       ''/networklist/signatures/'',
       ''/microsoft/identitycrl/'',
       ''/microsoft/onedrive/'',
       ''/microsoft/office/common/userinfo/'',
       ''/networklist/profiles/'',
       ''/microsoft/identitystore/'',
       ''/gryphline/sdk_data/'',
       ''/appcompatflags/compatibility assistant/'',
       ''/explorer/featureusage/'',
       ''/explorer/userassist/'',
       ''/explorer/typedpaths/'',
       ''/explorer/runmru/'',
       ''/explorer/wordwheelquery/'',
       ''/explorer/recentdocs/'',
       ''/explorer/comdlg32/'',
       ''/explorer/sessioninfo/'',
       ''/search/jumplistdata/'',
       ''/shell/bagmru/'',
       ''/shell/bags/'',
       ''/shell/muicache/'',
       ''/services/bam/state/'',
       ''/services/dam/state/'',
       ''/capabilityaccessmanager/consentstore/'',
       ''/currentversion/notifications/settings/'',
       ''/notifications/quiethours/'',
       ''/directinput/mostrecentapplication/'',
       ''/currentversion/applistbackup/'',
       ''/currentversion/ufh/shc/'',
       ''/local settings/muicache/'',
       ''/local settings/mrtcache/'',
       ''/persistedstorageitemtable/'',
       ''/persistedpickerdata/'',
       ''/microsoft/gamingservices/'',
       ''/ham/'',
       ''/hostactivitymanager/'',
       ''/currentversion/cloudstore/'',
       ''/diagnostics/diagtrack/'',
       ''/visualstudio/telemetry/'',
       ''/hkcu/software/valve/steam/apps/'',
       ''/microsoft/authcookies/'',
       ''/preferencemacs/'',
       ''/currentversion/softwareprotectionplatform/'',
       ''/microsoft/windows/currentversion/component based servicing/'',
       ''/classes/clsid/'',
       ''/classes/interface/'',
       ''/classes/typelib/'',
       ''/classes/wow6432node/clsid/'',
       ''/classes/wow6432node/interface/'',
       ''/installer/'']"

definition is_excluded_key :: "string \<Rightarrow> bool" where
  "is_excluded_key key =
     (let lowered = [backslash] @ to_ascii_lowercase key @ [backslash]
      in list_ex (contains_sub lowered) excluded_key_fragments)"

definition excluded_path_fragments :: "string list" where
  "excluded_path_fragments =
     map win [
       ''/windows defender/platform/'',
       ''/softwaredistribution/'',
       ''/windows/servicing/'',
       ''/windows/winsxs/'',
       ''/windows/assembly/'',
       ''/appdata/local/temp/'',
       ''/windows/temp/'',
       ''/inetcache/'',
       ''/webcache/'',
       ''/crashdumps/'',
       ''/usoshared/logs/'',
       ''/d3dscache/'',
       ''/dxcache/'',
       ''/nv_cache/'',
       ''/gluecache/'',
       ''/shadercache/'',
       ''/google/chrome/user data/'',
       ''/microsoft/edge/user data/'',
       ''/mozilla/firefox/profiles/'',
       ''/bravesoftware/'',
       ''/appdata/local/steam/htmlcache/'',
       ''/npm-cache/'',
       ''/node_modules/'',
       ''/.cargo/registry/'',
       ''/pip/cache/'',
       ''/nuget/packages/'',
       ''/appdata/local/packages/'',
       ''/appdata/local/wardsweep/observations/'',
       ''/microsoft/crypto/'',
       ''/microsoft/protect/'',
       ''/appdata/local/connecteddevicesplatform/'',
       ''/microsoft/windows/recent/'',
       ''/microsoft/windows/wer/'',
       ''/appdata/local/microsoft/oneauth/'',
       ''/appdata/local/microsoft/tokenbroker/'',
       ''/appdata/local/microsoft/credentials/'',
       ''/appdata/roaming/microsoft/credentials/'',
       ''/appdata/local/microsoft/identitycache/'',
       ''/appdata/local/microsoft/onedrive/'',
       ''/google/drivefs/'',
       ''/steam/userdata/'',
       ''/steam/appcache/'',
       ''/steam/depotcache/'',
       ''/origin/avatarscache/'',
       ''/appdata/roaming/claude/'',
       ''/appdata/local/claude/'',
       ''/programdata/claude/'',
       ''/appdata/local/claude-cli-nodejs/'',
       ''/appdata/local/claude-data/'',
       ''/appdata/roaming/code/user/'',
       ''/protonmail/'']"

definition is_excluded_path :: "string \<Rightarrow> bool" where
  "is_excluded_path path =
     (let lowered = replace_byte (CHR ''/'') backslash (to_ascii_lowercase path);
          with_separator = lowered @ [backslash]
      in list_ex (contains_sub with_separator) excluded_path_fragments)"

text \<open>The item of a denial: a key, or a key and a value, in a view.\<close>

definition excludes_denied_item :: "string \<Rightarrow> bool" where
  "excludes_denied_item item =
     (let without_view = (case rsplit_once item '' [view '' of None \<Rightarrow> item | Some (key, _) \<Rightarrow> key);
          key = (case split_once without_view '' :: '' of None \<Rightarrow> without_view | Some (key, _) \<Rightarrow> key)
      in is_excluded_key key)"

section \<open>The policy of a build\<close>

datatype refusal = HardwareIdentity | PersonalIdentity

record policy =
  po_terms :: "string list"

definition current_policy :: policy where
  "current_policy =
     \<lparr>po_terms = hardware_identity_terms (concat (map (\<lambda>l. l @ [CHR 0x0A]) g3_term_lines))\<rparr>"

definition refusal_of :: "policy \<Rightarrow> string \<Rightarrow> string \<Rightarrow> refusal option" where
  "refusal_of p name data =
     (if is_hardware_identity (po_terms p) name data then Some HardwareIdentity
      else if is_personal_identity_value name then Some PersonalIdentity
      else None)"

text \<open>A record as admitted: the caller's own, or a copy without the refused values.\<close>

datatype 'a cow = Borrowed 'a | Owned 'a

fun cow_value :: "'a cow \<Rightarrow> 'a" where
  "cow_value (Borrowed x) = x"
| "cow_value (Owned x) = x"

record admitted =
  am_record :: "registry_record cow option"
  am_refused_values :: nat

definition admit :: "policy \<Rightarrow> registry_record \<Rightarrow> admitted" where
  "admit p r =
     (let refused = (\<lambda>v. refusal_of p (rv_name v) (rv_data v) \<noteq> None);
          refused_values = length (filter refused (rr_values r));
          kept = filter (\<lambda>v. \<not> refused v) (rr_values r)
      in if is_excluded_key (rr_key r) then \<lparr>am_record = None, am_refused_values = 0\<rparr>
         else if refused_values = 0 then
           \<lparr>am_record = Some (Borrowed r), am_refused_values = refused_values\<rparr>
         else if kept = [] then \<lparr>am_record = None, am_refused_values = 0\<rparr>
         else \<lparr>am_record = Some (Owned \<lparr>rr_key = rr_key r, rr_view = rr_view r, rr_values = kept\<rparr>),
               am_refused_values = refused_values\<rparr>)"

section \<open>Properties\<close>

text \<open>A record the policy has nothing to say about.\<close>

definition clean_value :: "policy \<Rightarrow> registry_value \<Rightarrow> bool" where
  "clean_value p v \<longleftrightarrow> refusal_of p (rv_name v) (rv_data v) = None"

definition clean_record :: "policy \<Rightarrow> registry_record \<Rightarrow> bool" where
  "clean_record p r \<longleftrightarrow> \<not> is_excluded_key (rr_key r) \<and> list_all (clean_value p) (rr_values r)"

definition allowed_values :: "policy \<Rightarrow> registry_record \<Rightarrow> registry_value list" where
  "allowed_values p r = filter (clean_value p) (rr_values r)"

lemma admit_record:
  "am_record (admit p r) =
     (if is_excluded_key (rr_key r) then None
      else if allowed_values p r = rr_values r then Some (Borrowed r)
      else if allowed_values p r = [] then None
      else Some (Owned (r\<lparr>rr_values := allowed_values p r\<rparr>)))"
proof -
  have kept: "allowed_values p r = filter (\<lambda>v. \<not> refusal_of p (rv_name v) (rv_data v) \<noteq> None) (rr_values r)"
    by (simp add: allowed_values_def clean_value_def [abs_def])
  have none: "allowed_values p r = rr_values r
      \<longleftrightarrow> length (filter (\<lambda>v. refusal_of p (rv_name v) (rv_data v) \<noteq> None) (rr_values r)) = 0"
    unfolding kept by (auto simp: filter_id_conv filter_empty_conv)
  show ?thesis
    unfolding admit_def Let_def none unfolding kept by (cases r) simp
qed

lemma clean_recordD: "clean_record p r \<Longrightarrow> allowed_values p r = rr_values r"
  by (simp add: clean_record_def allowed_values_def filter_id_conv list_all_iff)

lemma clean_allowed: "\<not> is_excluded_key (rr_key r) \<Longrightarrow> clean_record p (r\<lparr>rr_values := allowed_values p r\<rparr>)"
  by (simp add: clean_record_def allowed_values_def list_all_iff)

lemma admit_value:
  "am_record (admit p r) = Some c \<Longrightarrow>
     cow_value c = r\<lparr>rr_values := allowed_values p r\<rparr> \<and> clean_record p (cow_value c)"
  using clean_allowed [of r p] by (cases r) (auto simp: admit_record split: if_splits)

lemma admit_Borrowed: "am_record (admit p r) = Some (Borrowed r') \<longleftrightarrow> clean_record p r \<and> r' = r"
proof
  assume adm: "am_record (admit p r) = Some (Borrowed r')"
  then have "r' = r" by (auto simp: admit_record split: if_splits)
  with admit_value [OF adm] show "clean_record p r \<and> r' = r" by simp
next
  assume "clean_record p r \<and> r' = r"
  then show "am_record (admit p r) = Some (Borrowed r')"
    by (simp add: admit_record clean_recordD) (simp add: clean_record_def)
qed

lemma admit_of_clean: "clean_record p r \<Longrightarrow> admit p r = \<lparr>am_record = Some (Borrowed r), am_refused_values = 0\<rparr>"
  by (simp add: admit_def clean_record_def clean_value_def list_all_iff filter_empty_conv)

lemma contains_sub_append: "contains_sub s p \<Longrightarrow> contains_sub (a @ s @ b) p"
  by (auto simp: contains_sub_iff) (metis append.assoc)

lemma list_ex_contains_append:
  "list_ex (contains_sub s) ps \<Longrightarrow> list_ex (contains_sub (a @ s @ b)) ps"
  by (auto simp: list_ex_iff intro: contains_sub_append)

lemma lower_byte_not_slash: "lower_byte c = CHR ''/'' \<longleftrightarrow> c = CHR ''/''"
  by (cases c) auto

lemma lower_append [simp]: "to_ascii_lowercase (a @ b) = to_ascii_lowercase a @ to_ascii_lowercase b"
  by (simp add: to_ascii_lowercase_def)

lemma lower_backslash [simp]: "lower_byte backslash = backslash"
  by simp

lemma excluded_key_below: "is_excluded_key key \<Longrightarrow> is_excluded_key (key @ [backslash] @ below)"
  using list_ex_contains_append
    [of "[backslash] @ to_ascii_lowercase key @ [backslash]" excluded_key_fragments "[]"
        "to_ascii_lowercase below @ [backslash]"]
  by (simp add: is_excluded_key_def Let_def to_ascii_lowercase_def)

lemma excluded_key_case: "eq_ignore_ascii_case key key' \<Longrightarrow> is_excluded_key key = is_excluded_key key'"
  by (simp add: is_excluded_key_def eq_ignore_ascii_case_def)

lemma excluded_path_below:
  "is_excluded_path path \<Longrightarrow> is_excluded_path (path @ [backslash] @ below)"
  using list_ex_contains_append
    [of "replace_byte (CHR ''/'') backslash (to_ascii_lowercase path) @ [backslash]"
        excluded_path_fragments "[]"
        "replace_byte (CHR ''/'') backslash (to_ascii_lowercase below) @ [backslash]"]
  by (simp add: is_excluded_path_def Let_def to_ascii_lowercase_def replace_byte_def)

lemma excluded_path_case:
  "eq_ignore_ascii_case path path' \<Longrightarrow> is_excluded_path path = is_excluded_path path'"
  by (simp add: is_excluded_path_def eq_ignore_ascii_case_def)

lemma excluded_path_separator:
  "is_excluded_path (replace_byte (CHR ''/'') backslash path) = is_excluded_path path"
proof -
  have "replace_byte (CHR ''/'') backslash (to_ascii_lowercase (replace_byte (CHR ''/'') backslash path))
      = replace_byte (CHR ''/'') backslash (to_ascii_lowercase path)"
    using lower_byte_not_slash by (auto simp: replace_byte_def to_ascii_lowercase_def)
  then show ?thesis by (simp add: is_excluded_path_def)
qed

text \<open>
  The policy drops a record exactly when its key is in an excluded subtree or every value
  it held is refused; what it keeps of a record has the same key and view and exactly the
  allowed values in their order, and admitting that again changes nothing.
\<close>

theorem admit_keeps_allowed:
  "(am_record (admit p r) = None \<longleftrightarrow>
      is_excluded_key (rr_key r) \<or> rr_values r \<noteq> [] \<and> (\<forall>v \<in> set (rr_values r). \<not> clean_value p v))
   \<and> (\<forall>c. am_record (admit p r) = Some c \<longrightarrow>
        cow_value c = r\<lparr>rr_values := filter (clean_value p) (rr_values r)\<rparr>
        \<and> admit p (cow_value c) = \<lparr>am_record = Some (Borrowed (cow_value c)), am_refused_values = 0\<rparr>)"
proof -
  have "am_record (admit p r) = None \<longleftrightarrow>
      is_excluded_key (rr_key r) \<or> rr_values r \<noteq> [] \<and> (\<forall>v \<in> set (rr_values r). \<not> clean_value p v)"
    by (auto simp: admit_record allowed_values_def filter_empty_conv)
  moreover have "cow_value c = r\<lparr>rr_values := filter (clean_value p) (rr_values r)\<rparr>
      \<and> admit p (cow_value c) = \<lparr>am_record = Some (Borrowed (cow_value c)), am_refused_values = 0\<rparr>"
    if "am_record (admit p r) = Some c" for c
    using admit_value [OF that] admit_of_clean [of p "cow_value c"] unfolding allowed_values_def by blast
  ultimately show ?thesis by blast
qed

text \<open>
  An exclusion covers its whole subtree and does not depend on letter case, for keys and
  for paths, and a path may be spelled with either separator.
\<close>

theorem exclusions_closed:
  "(is_excluded_key key \<longrightarrow> is_excluded_key (key @ [backslash] @ below))
   \<and> (is_excluded_path path \<longrightarrow> is_excluded_path (path @ [backslash] @ below))
   \<and> (eq_ignore_ascii_case key key' \<longrightarrow> is_excluded_key key = is_excluded_key key')
   \<and> (eq_ignore_ascii_case path path' \<longrightarrow> is_excluded_path path = is_excluded_path path')
   \<and> is_excluded_path (replace_byte (CHR ''/'') backslash path) = is_excluded_path path"
  using excluded_key_below excluded_path_below excluded_key_case excluded_path_case
    excluded_path_separator by blast

section \<open>Examples\<close>

definition hosted_record :: registry_record where
  "hosted_record =
     \<lparr>rr_key = win ''HKLM/SOFTWARE/Vgk'', rr_view = ''64'',
      rr_values = [\<lparr>rv_name = ''HostName'', rv_kind = ''sz'', rv_data = ''me'', rv_oversized_bytes = None\<rparr>,
                   \<lparr>rv_name = ''Path'', rv_kind = ''sz'', rv_data = ''x'', rv_oversized_bytes = None\<rparr>]\<rparr>"

theorem admit_keeps_allowed_witness:
  "\<exists>c. am_record (admit current_policy hosted_record) = Some c
     \<and> map rv_name (rr_values (cow_value c)) = [''Path'']
     \<and> admit current_policy (cow_value c)
         = \<lparr>am_record = Some (Borrowed (cow_value c)), am_refused_values = 0\<rparr>"
proof -
  have "am_record (admit current_policy hosted_record) \<noteq> None" by code_simp
  then obtain c where c: "am_record (admit current_policy hosted_record) = Some c" by blast
  have "map rv_name (filter (clean_value current_policy) (rr_values hosted_record)) = [''Path'']"
    by code_simp
  with c admit_keeps_allowed [of current_policy hosted_record] show ?thesis by auto
qed

theorem exclusions_closed_witness:
  "is_excluded_key (win ''HKLM/SOFTWARE/Microsoft/Cryptography'' @ [backslash] @ ''x'')"
proof -
  have "is_excluded_key (win ''HKLM/SOFTWARE/Microsoft/Cryptography'')" by code_simp
  with exclusions_closed [where key = "win ''HKLM/SOFTWARE/Microsoft/Cryptography''"]
  show ?thesis by blast
qed

end
