(* ===== verification/Obs_Diff.thy ===== *)
theory Obs_Diff
  imports Obs_Policy
begin

text \<open>
  The comparison of two snapshots, \<open>tools/observe/src/diff.rs\<close>: the changes in services,
  files and registry keys, what the noise filter moves aside, what the privacy policy drops,
  and the same diff read backwards.

  An index is the ordered map of \<open>Ordered_Map\<close>; the counts the code threads through its
  closures as \<open>&mut refiltered\<close> are returned beside each result.
\<close>

section \<open>Changes\<close>

definition diff_format_version :: "32 word" where
  "diff_format_version = 2"

datatype change_kind = Added | Removed | Modified

record field_change =
  fc_field :: string
  fc_before :: string
  fc_after :: string

record service_change =
  sc_name :: string
  sc_kind :: change_kind
  sc_is_driver :: bool
  sc_is_boot_start :: bool
  sc_before :: "service_record option"
  sc_after :: "service_record option"
  sc_fields :: "field_change list"

record file_change =
  fx_path :: string
  fx_kind :: change_kind
  fx_signer :: "string option"
  fx_is_driver_image :: bool
  fx_before :: "file_record option"
  fx_after :: "file_record option"
  fx_fields :: "field_change list"

record registry_change =
  rx_key :: string
  rx_view :: string
  rx_kind :: change_kind
  rx_before :: "registry_record option"
  rx_after :: "registry_record option"
  rx_fields :: "field_change list"

record suppressed =
  su_rule :: string
  su_change :: service_change

record suppressed_file =
  sf_rule :: string
  sf_change :: file_change

record refiltered =
  rf_registry_records :: nat
  rf_registry_values :: nat
  rf_access_denied :: nat
  rf_emptied_keys :: nat
  rf_files :: nat
  rf_emptied_directories :: nat

definition no_refiltered :: refiltered where
  "no_refiltered =
     \<lparr>rf_registry_records = 0, rf_registry_values = 0, rf_access_denied = 0, rf_emptied_keys = 0,
      rf_files = 0, rf_emptied_directories = 0\<rparr>"

definition refiltered_is_empty :: "refiltered \<Rightarrow> bool" where
  "refiltered_is_empty r \<longleftrightarrow> r = no_refiltered"

definition absorb :: "refiltered \<Rightarrow> refiltered \<Rightarrow> refiltered" where
  "absorb r other =
     \<lparr>rf_registry_records = rf_registry_records r + rf_registry_records other,
      rf_registry_values = rf_registry_values r + rf_registry_values other,
      rf_access_denied = rf_access_denied r + rf_access_denied other,
      rf_emptied_keys = rf_emptied_keys r + rf_emptied_keys other,
      rf_files = rf_files r + rf_files other,
      rf_emptied_directories = rf_emptied_directories r + rf_emptied_directories other\<rparr>"

record footprint =
  ft_before_taken_utc :: string
  ft_after_taken_utc :: string
  ft_changes :: nat

record diff =
  df_format_version :: "32 word"
  df_snapshot_format_version :: "32 word"
  df_before_taken_utc :: string
  df_after_taken_utc :: string
  df_rebooted_between :: "bool option"
  df_emptied_directories :: "string list option"
  df_emptied_keys :: "reg_key_ref list option"
  df_formerly_empty_directories :: "string list option"
  df_formerly_empty_keys :: "reg_key_ref list option"
  df_coverage :: coverage
  df_services :: "service_change list"
  df_suppressed :: "suppressed list"
  df_files :: "file_change list"
  df_suppressed_files :: "suppressed_file list"
  df_registry :: "registry_change list"
  df_registry_policy_changed :: bool
  df_filesystem_policy_changed :: bool
  df_libraries :: "library list"
  df_signers :: "(string \<times> nat) list"
  df_refiltered :: refiltered
  df_intersection_of :: "footprint list option"

definition suppression_counts :: "diff \<Rightarrow> (string \<times> nat) list" where
  "suppression_counts d = tally (map su_rule (df_suppressed d) @ map sf_rule (df_suppressed_files d))"

datatype diff_error =
  UnsupportedFormat "32 word" "32 word" "32 word"
  | MixedFormats "32 word" "32 word"

definition diff_error_text :: "diff_error \<Rightarrow> string" where
  "diff_error_text e =
     (case e of
        UnsupportedFormat found oldest newest \<Rightarrow>
          ''snapshot format version '' @ decimal (unat found)
          @ '' is not supported by this build, which reads '' @ decimal (unat oldest)
          @ '' to '' @ decimal (unat newest)
      | MixedFormats before after \<Rightarrow>
          ''the snapshots are format '' @ decimal (unat before) @ '' and format ''
          @ decimal (unat after)
          @ '', and a diff across formats reports what changed in the harness rather than on the machine; take both snapshots with the same build'')"

section \<open>The noise filter\<close>

record noise_filter =
  nf_ignored :: "string list"
  nf_normalise_per_user_instances :: bool

definition standard_filter :: noise_filter where
  "standard_filter =
     \<lparr>nf_ignored =
        [''wuauserv'', ''UsoSvc'', ''WaaSMedicSvc'', ''TrustedInstaller'', ''DoSvc'',
         ''WinDefend'', ''WdNisSvc'', ''Sense'', ''MsSecFlt'', ''webthreatdefsvc'',
         ''edgeupdate'', ''edgeupdatem'', ''gupdate'', ''gupdatem'', ''MozillaMaintenance''],
      nf_normalise_per_user_instances = True\<rparr>"

definition permissive_filter :: noise_filter where
  "permissive_filter = \<lparr>nf_ignored = [], nf_normalise_per_user_instances = False\<rparr>"

definition canonical_name :: "noise_filter \<Rightarrow> string \<Rightarrow> string" where
  "canonical_name flt name =
     (if \<not> nf_normalise_per_user_instances flt then name
      else case rsplit_once name ''_'' of
             Some (stem, suffix) \<Rightarrow>
               if 4 \<le> length suffix \<and> stem \<noteq> [] \<and> list_all is_hexdigit_byte suffix then stem
               else name
           | None \<Rightarrow> name)"

definition file_rule_for :: "noise_filter \<Rightarrow> file_change \<Rightarrow> string option" where
  "file_rule_for flt c =
     (if \<not> nf_normalise_per_user_instances flt then None
      else if fx_kind c = Modified \<and> length (fx_fields c) = 1
              \<and> fc_field (hd (fx_fields c)) = ''modified_utc''
           then Some ''timestamp-only''
           else None)"

definition rule_for :: "noise_filter \<Rightarrow> service_change \<Rightarrow> string option" where
  "rule_for flt c =
     map_option (\<lambda>_. ''volatile-service'')
       (find (\<lambda>ignored. eq_ignore_ascii_case ignored (sc_name c)) (nf_ignored flt))"

section \<open>Services\<close>

definition field_diff :: "string \<Rightarrow> string \<Rightarrow> string \<Rightarrow> field_change list" where
  "field_diff field old new =
     (if old \<noteq> new then [\<lparr>fc_field = field, fc_before = old, fc_after = new\<rparr>] else [])"

definition without_instance_suffix :: "string \<Rightarrow> string \<Rightarrow> string" where
  "without_instance_suffix display_name service_name =
     (case rsplit_once service_name ''_'' of
        None \<Rightarrow> display_name
      | Some (_, suffix) \<Rightarrow>
          (case strip_suffix display_name suffix of
             None \<Rightarrow> display_name
           | Some rest \<Rightarrow>
               (case strip_suffix rest ''_'' of None \<Rightarrow> display_name | Some bare \<Rightarrow> bare)))"

definition displayed :: "service_record \<Rightarrow> service_record \<Rightarrow> string" where
  "displayed s other =
     (if sv_name s = sv_name other then sv_display_name s
      else without_instance_suffix (sv_display_name s) (sv_name s))"

definition field_changes :: "service_record \<Rightarrow> service_record \<Rightarrow> field_change list" where
  "field_changes before after =
     field_diff ''display_name'' (displayed before after) (displayed after before)
     @ field_diff ''service_type'' (sv_service_type before) (sv_service_type after)
     @ field_diff ''start_type'' (sv_start_type before) (sv_start_type after)
     @ field_diff ''error_control'' (sv_error_control before) (sv_error_control after)
     @ field_diff ''binary_path'' (sv_binary_path before) (sv_binary_path after)
     @ field_diff ''load_order_group'' (sv_load_order_group before) (sv_load_order_group after)
     @ field_diff ''start_name'' (sv_start_name before) (sv_start_name after)
     @ field_diff ''description'' (sv_description before) (sv_description after)
     @ field_diff ''dependencies'' (join_with '';'' (sv_dependencies before))
         (join_with '';'' (sv_dependencies after))
     @ field_diff ''delayed_auto_start'' (bool_text (sv_delayed_auto_start before))
         (bool_text (sv_delayed_auto_start after))"

text \<open>The template names more than one service of one side has.\<close>

definition crowded_names :: "noise_filter \<Rightarrow> service_record list \<Rightarrow> string list" where
  "crowded_names flt records =
     map fst (filter (\<lambda>(_, count). 1 < count)
       (tally (map (\<lambda>r. canonical_name flt (sv_name r)) records)))"

definition service_index_key :: "noise_filter \<Rightarrow> string list \<Rightarrow> string \<Rightarrow> string" where
  "service_index_key flt crowded name =
     (let canonical = canonical_name flt name
      in if canonical \<in> set crowded then name else canonical)"

definition service_change_of ::
    "string \<Rightarrow> service_record option \<Rightarrow> service_record option \<Rightarrow> service_change option" where
  "service_change_of name old new =
     (case (old, new) of
        (None, Some r) \<Rightarrow>
          Some \<lparr>sc_name = name, sc_kind = Added, sc_is_driver = is_driver_service r,
                sc_is_boot_start = is_boot_start r, sc_before = None, sc_after = Some r, sc_fields = []\<rparr>
      | (Some r, None) \<Rightarrow>
          Some \<lparr>sc_name = name, sc_kind = Removed, sc_is_driver = is_driver_service r,
                sc_is_boot_start = is_boot_start r, sc_before = Some r, sc_after = None, sc_fields = []\<rparr>
      | (Some old, Some new) \<Rightarrow>
          let fields = field_changes old new
          in if fields = [] then None
             else Some \<lparr>sc_name = name, sc_kind = Modified, sc_is_driver = is_driver_service new,
                        sc_is_boot_start = is_boot_start new, sc_before = Some old,
                        sc_after = Some new, sc_fields = fields\<rparr>
      | (None, None) \<Rightarrow> None)"

definition compare_services ::
    "service_record list \<Rightarrow> service_record list \<Rightarrow> noise_filter \<Rightarrow> service_change list" where
  "compare_services before after flt =
     (let crowded = ordered_set (crowded_names flt before @ crowded_names flt after);
          index = index_by (\<lambda>r. service_index_key flt crowded (sv_name r))
      in joined service_change_of (index before) (index after))"

section \<open>Files\<close>

definition file_field_changes :: "file_record \<Rightarrow> file_record \<Rightarrow> field_change list" where
  "file_field_changes before after =
     (let changes =
        field_diff ''size'' (decimal (unat (fr_size before))) (decimal (unat (fr_size after)))
        @ field_diff ''sha256'' (case fr_sha256 before of None \<Rightarrow> [] | Some h \<Rightarrow> h)
            (case fr_sha256 after of None \<Rightarrow> [] | Some h \<Rightarrow> h)
        @ field_diff ''signer'' (case fr_signer before of None \<Rightarrow> [] | Some s \<Rightarrow> s)
            (case fr_signer after of None \<Rightarrow> [] | Some s \<Rightarrow> s)
      in if changes = [] then []
         else changes @ field_diff ''modified_utc'' (fr_modified_utc before) (fr_modified_utc after))"

definition file_change_of ::
    "string \<Rightarrow> file_record option \<Rightarrow> file_record option \<Rightarrow> file_change option" where
  "file_change_of path old new =
     (case (old, new) of
        (None, Some r) \<Rightarrow>
          Some \<lparr>fx_path = fr_path r, fx_kind = Added, fx_signer = fr_signer r,
                fx_is_driver_image = is_driver_image r, fx_before = None, fx_after = Some r,
                fx_fields = []\<rparr>
      | (Some r, None) \<Rightarrow>
          Some \<lparr>fx_path = fr_path r, fx_kind = Removed, fx_signer = fr_signer r,
                fx_is_driver_image = is_driver_image r, fx_before = Some r, fx_after = None,
                fx_fields = []\<rparr>
      | (Some old, Some new) \<Rightarrow>
          let fields = file_field_changes old new
          in if fields = [] then None
             else Some \<lparr>fx_path = fr_path new, fx_kind = Modified, fx_signer = fr_signer new,
                        fx_is_driver_image = is_driver_image new, fx_before = Some old,
                        fx_after = Some new, fx_fields = fields\<rparr>
      | (None, None) \<Rightarrow> None)"

text \<open>The index of one side, and how many of its records are excluded.\<close>

definition file_index ::
    "file_record list \<Rightarrow> refiltered \<Rightarrow> (string \<times> file_record) list \<times> refiltered" where
  "file_index records rf =
     (index_by (\<lambda>r. to_ascii_lowercase (fr_path r))
        (filter (\<lambda>r. \<not> is_excluded_path (fr_path r)) records),
      rf\<lparr>rf_files := rf_files rf + length (filter (\<lambda>r. is_excluded_path (fr_path r)) records)\<rparr>)"

definition compare_files ::
    "file_record list \<Rightarrow> file_record list \<Rightarrow> noise_filter \<Rightarrow> refiltered
       \<Rightarrow> (file_change list \<times> suppressed_file list) \<times> refiltered" where
  "compare_files before after flt rf =
     (let (before_index, rf) = file_index before rf;
          (after_index, rf) = file_index after rf;
          changes = joined file_change_of before_index after_index
      in ((filter (\<lambda>c. file_rule_for flt c = None) changes,
           List.map_filter (\<lambda>c. map_option (\<lambda>rule. \<lparr>sf_rule = rule, sf_change = c\<rparr>)
             (file_rule_for flt c)) changes), rf))"

definition signer_counts :: "file_change list \<Rightarrow> (string \<times> nat) list" where
  "signer_counts files = tally (List.map_filter fx_signer files)"

section \<open>Registry\<close>

definition registry_identity_of :: "registry_record \<Rightarrow> string \<times> string" where
  "registry_identity_of r = (to_ascii_lowercase (rr_key r), rr_view r)"

definition admit_into ::
    "policy \<Rightarrow> registry_record \<Rightarrow> ((string \<times> string) \<times> registry_record) list \<times> refiltered
       \<Rightarrow> ((string \<times> string) \<times> registry_record) list \<times> refiltered" where
  "admit_into p r st =
     (let (index, rf) = st;
          a = admit p r;
          rf = rf\<lparr>rf_registry_values := rf_registry_values rf + am_refused_values a\<rparr>
      in case am_record a of
           Some c \<Rightarrow> (btree_insert (registry_identity_of (cow_value c)) (cow_value c) index, rf)
         | None \<Rightarrow> (index, rf\<lparr>rf_registry_records := Suc (rf_registry_records rf)\<rparr>))"

definition admitted_index ::
    "registry_record list \<Rightarrow> policy \<Rightarrow> refiltered
       \<Rightarrow> ((string \<times> string) \<times> registry_record) list \<times> refiltered" where
  "admitted_index records p rf = fold (admit_into p) records ([], rf)"

definition comparables :: "registry_record \<Rightarrow> (string \<times> string) list" where
  "comparables r =
     fold (\<lambda>v. btree_insert (rv_name v) (comparable v)) (rr_values r) []"

text \<open>The names of the values that differ, in order, and the field change of one.\<close>

definition differing_names :: "registry_record \<Rightarrow> registry_record \<Rightarrow> string list" where
  "differing_names before after =
     filter (\<lambda>n. map_of (comparables before) n \<noteq> map_of (comparables after) n)
       (ordered_set (map fst (comparables before) @ map fst (comparables after)))"

definition value_field :: "registry_record \<Rightarrow> registry_record \<Rightarrow> string \<Rightarrow> field_change" where
  "value_field before after name =
     \<lparr>fc_field = (if name = [] then ''(default)'' else name),
      fc_before = (case map_of (comparables before) name of None \<Rightarrow> [] | Some t \<Rightarrow> t),
      fc_after = (case map_of (comparables after) name of None \<Rightarrow> [] | Some t \<Rightarrow> t)\<rparr>"

definition value_differences ::
    "registry_record \<Rightarrow> registry_record \<Rightarrow> string list \<times> field_change list" where
  "value_differences before after =
     (differing_names before after, map (value_field before after) (differing_names before after))"

definition only_differing :: "string list \<Rightarrow> registry_record \<Rightarrow> registry_record" where
  "only_differing differing r =
     \<lparr>rr_key = rr_key r, rr_view = rr_view r,
      rr_values = filter (\<lambda>v. rv_name v \<in> set differing) (rr_values r)\<rparr>"

definition modification :: "registry_record \<Rightarrow> registry_record \<Rightarrow> registry_change option" where
  "modification old new =
     (let (differing, fields) = value_differences old new
      in if fields = [] then None
         else Some \<lparr>rx_key = rr_key new, rx_view = rr_view new, rx_kind = Modified,
                    rx_before = Some (only_differing differing old),
                    rx_after = Some (only_differing differing new),
                    rx_fields = fields\<rparr>)"

definition registry_added :: "registry_record \<Rightarrow> registry_change" where
  "registry_added r =
     \<lparr>rx_key = rr_key r, rx_view = rr_view r, rx_kind = Added, rx_before = None,
      rx_after = Some r, rx_fields = []\<rparr>"

definition registry_removed :: "registry_record \<Rightarrow> registry_change" where
  "registry_removed r =
     \<lparr>rx_key = rr_key r, rx_view = rr_view r, rx_kind = Removed, rx_before = Some r,
      rx_after = None, rx_fields = []\<rparr>"

definition registry_change_of ::
    "registry_record option \<Rightarrow> registry_record option \<Rightarrow> registry_change option" where
  "registry_change_of old new =
     (case (old, new) of
        (None, Some r) \<Rightarrow> Some (registry_added r)
      | (Some r, None) \<Rightarrow> Some (registry_removed r)
      | (Some old, Some new) \<Rightarrow> modification old new
      | (None, None) \<Rightarrow> None)"

definition compare_registry ::
    "registry_record list \<Rightarrow> registry_record list \<Rightarrow> policy \<Rightarrow> refiltered
       \<Rightarrow> registry_change list \<times> refiltered" where
  "compare_registry before after p rf =
     (let (before_index, rf) = admitted_index before p rf;
          (after_index, rf) = admitted_index after p rf
      in (joined (\<lambda>_. registry_change_of) before_index after_index, rf))"

section \<open>Denials, empty directories and keys, restarts\<close>

definition denial_excluded :: "access_denied \<Rightarrow> bool" where
  "denial_excluded a =
     (case ad_domain a of
        RegistryDomain \<Rightarrow> excludes_denied_item (ad_item a)
      | FilesystemDomain \<Rightarrow> is_excluded_path (ad_item a)
      | _ \<Rightarrow> False)"

definition drop_excluded_denials :: "coverage \<Rightarrow> coverage \<times> nat" where
  "drop_excluded_denials c =
     (let kept = filter (\<lambda>a. \<not> denial_excluded a) (cv_access_denied c)
      in (c\<lparr>cv_access_denied := kept\<rparr>, length (cv_access_denied c) - length kept))"

definition emptied_directories ::
    "snapshot \<Rightarrow> snapshot \<Rightarrow> coverage \<Rightarrow> refiltered \<Rightarrow> string list option \<times> refiltered" where
  "emptied_directories before after cov rf =
     (if \<not> covers_domain cov FilesystemDomain then (None, rf)
      else case (sn_file_empty_directories before, sn_file_empty_directories after) of
             (Some was, Some now) \<Rightarrow>
               let fresh = filter (\<lambda>d. d \<notin> set was) now;
                   excluded = filter is_excluded_path fresh
               in (Some (filter (\<lambda>d. \<not> is_excluded_path d) fresh),
                   rf\<lparr>rf_emptied_directories := rf_emptied_directories rf + length excluded\<rparr>)
           | _ \<Rightarrow> (None, rf))"

definition emptied_keys ::
    "snapshot \<Rightarrow> snapshot \<Rightarrow> coverage \<Rightarrow> refiltered \<Rightarrow> reg_key_ref list option \<times> refiltered" where
  "emptied_keys before after cov rf =
     (if \<not> covers_domain cov RegistryDomain then (None, rf)
      else case (sn_registry_empty_keys before, sn_registry_empty_keys after) of
             (Some was, Some now) \<Rightarrow>
               let fresh = filter (\<lambda>k. k \<notin> set was) now;
                   excluded = filter (\<lambda>k. is_excluded_key (kr_key k)) fresh
               in (Some (filter (\<lambda>k. \<not> is_excluded_key (kr_key k)) fresh),
                   rf\<lparr>rf_emptied_keys := rf_emptied_keys rf + length excluded\<rparr>)
           | _ \<Rightarrow> (None, rf))"

definition same_boot_tolerance_ms :: "64 word" where
  "same_boot_tolerance_ms = 120000"

definition abs_diff :: "64 word \<Rightarrow> 64 word \<Rightarrow> 64 word" where
  "abs_diff a b = (if b \<le> a then a - b else b - a)"

definition rebooted_between :: "snapshot \<Rightarrow> snapshot \<Rightarrow> bool option" where
  "rebooted_between before after =
     (case (sn_boot_session before, sn_boot_session after) of
        (Some earlier, Some later) \<Rightarrow>
          Some (same_boot_tolerance_ms
                  < abs_diff (bs_started_unix_ms earlier) (bs_started_unix_ms later))
      | _ \<Rightarrow> None)"

section \<open>Comparing snapshots\<close>

definition format_supported :: "snapshot \<Rightarrow> bool" where
  "format_supported s \<longleftrightarrow>
     oldest_snapshot_format \<le> sn_format_version s \<and> sn_format_version s \<le> snapshot_format_version"

definition format_error :: "snapshot \<Rightarrow> snapshot \<Rightarrow> diff_error option" where
  "format_error before after =
     (case find (\<lambda>s. \<not> format_supported s) [before, after] of
        Some s \<Rightarrow>
          Some (UnsupportedFormat (sn_format_version s) oldest_snapshot_format snapshot_format_version)
      | None \<Rightarrow>
          if sn_format_version before \<noteq> sn_format_version after
          then Some (MixedFormats (sn_format_version before) (sn_format_version after))
          else None)"

definition policy_libraries :: "snapshot \<Rightarrow> library list" where
  "policy_libraries s = (case sn_filesystem_policy s of None \<Rightarrow> [] | Some p \<Rightarrow> fp_libraries p)"

definition compare :: "snapshot \<Rightarrow> snapshot \<Rightarrow> noise_filter \<Rightarrow> diff_error + diff" where
  "compare before after flt =
     (case format_error before after of
        Some e \<Rightarrow> Inl e
      | None \<Rightarrow>
          let p = current_policy;
              (cov, denied) =
                drop_excluded_denials (intersect_coverage (sn_coverage before) (sn_coverage after));
              rf = no_refiltered\<lparr>rf_access_denied := denied\<rparr>;
              changes = (if covers_domain cov ServicesDomain
                         then compare_services (sn_services before) (sn_services after) flt else []);
              ((files, suppressed_files), rf) =
                (if covers_domain cov FilesystemDomain
                 then compare_files (sn_files before) (sn_files after) flt rf else (([], []), rf));
              (registry, rf) =
                (if covers_domain cov RegistryDomain
                 then compare_registry (sn_registry before) (sn_registry after) p rf else ([], rf));
              (formerly_directories, rf) = emptied_directories after before cov rf;
              (formerly_keys, rf) = emptied_keys after before cov rf;
              (directories, rf) = emptied_directories before after cov rf;
              (emptied, rf) = emptied_keys before after cov rf
          in Inr \<lparr>df_format_version = diff_format_version,
                  df_snapshot_format_version = sn_format_version before,
                  df_before_taken_utc = sn_taken_utc before,
                  df_after_taken_utc = sn_taken_utc after,
                  df_rebooted_between = rebooted_between before after,
                  df_emptied_directories = directories,
                  df_emptied_keys = emptied,
                  df_formerly_empty_directories = formerly_directories,
                  df_formerly_empty_keys = formerly_keys,
                  df_coverage = cov,
                  df_services = filter (\<lambda>c. rule_for flt c = None) changes,
                  df_suppressed =
                    List.map_filter (\<lambda>c. map_option (\<lambda>rule. \<lparr>su_rule = rule, su_change = c\<rparr>)
                      (rule_for flt c)) changes,
                  df_files = files,
                  df_suppressed_files = suppressed_files,
                  df_registry = registry,
                  df_registry_policy_changed = (sn_registry_policy before \<noteq> sn_registry_policy after),
                  df_filesystem_policy_changed = (sn_filesystem_policy before \<noteq> sn_filesystem_policy after),
                  df_libraries = common [policy_libraries before, policy_libraries after],
                  df_signers = signer_counts files,
                  df_refiltered = rf,
                  df_intersection_of = None\<rparr>)"

section \<open>A diff read backwards\<close>

fun reversed_kind :: "change_kind \<Rightarrow> change_kind" where
  "reversed_kind Added = Removed"
| "reversed_kind Removed = Added"
| "reversed_kind Modified = Modified"

definition reversed_field :: "field_change \<Rightarrow> field_change" where
  "reversed_field f = \<lparr>fc_field = fc_field f, fc_before = fc_after f, fc_after = fc_before f\<rparr>"

definition later_record :: "'r option \<Rightarrow> 'r option \<Rightarrow> 'r option" where
  "later_record before after = (case before of Some r \<Rightarrow> Some r | None \<Rightarrow> after)"

definition reversed_service :: "service_change \<Rightarrow> service_change" where
  "reversed_service c =
     (let later = later_record (sc_before c) (sc_after c)
      in \<lparr>sc_name = sc_name c, sc_kind = reversed_kind (sc_kind c),
          sc_is_driver = (case later of Some r \<Rightarrow> is_driver_service r | None \<Rightarrow> sc_is_driver c),
          sc_is_boot_start = (case later of Some r \<Rightarrow> is_boot_start r | None \<Rightarrow> sc_is_boot_start c),
          sc_before = sc_after c, sc_after = sc_before c,
          sc_fields = map reversed_field (sc_fields c)\<rparr>)"

definition reversed_file :: "file_change \<Rightarrow> file_change" where
  "reversed_file c =
     \<lparr>fx_path = fx_path c, fx_kind = reversed_kind (fx_kind c),
      fx_signer = (case later_record (fx_before c) (fx_after c) of
                     Some r \<Rightarrow> fr_signer r | None \<Rightarrow> fx_signer c),
      fx_is_driver_image = fx_is_driver_image c,
      fx_before = fx_after c, fx_after = fx_before c,
      fx_fields = map reversed_field (fx_fields c)\<rparr>"

definition reversed_registry :: "registry_change \<Rightarrow> registry_change" where
  "reversed_registry c =
     \<lparr>rx_key = rx_key c, rx_view = rx_view c, rx_kind = reversed_kind (rx_kind c),
      rx_before = rx_after c, rx_after = rx_before c, rx_fields = map reversed_field (rx_fields c)\<rparr>"

definition reversed :: "diff \<Rightarrow> diff" where
  "reversed d =
     (let files = map reversed_file (df_files d)
      in \<lparr>df_format_version = df_format_version d,
          df_snapshot_format_version = df_snapshot_format_version d,
          df_before_taken_utc = df_after_taken_utc d,
          df_after_taken_utc = df_before_taken_utc d,
          df_rebooted_between = df_rebooted_between d,
          df_emptied_directories = df_formerly_empty_directories d,
          df_emptied_keys = df_formerly_empty_keys d,
          df_formerly_empty_directories = df_emptied_directories d,
          df_formerly_empty_keys = df_emptied_keys d,
          df_coverage = df_coverage d,
          df_services = map reversed_service (df_services d),
          df_suppressed =
            map (\<lambda>e. \<lparr>su_rule = su_rule e, su_change = reversed_service (su_change e)\<rparr>) (df_suppressed d),
          df_files = files,
          df_suppressed_files =
            map (\<lambda>e. \<lparr>sf_rule = sf_rule e, sf_change = reversed_file (sf_change e)\<rparr>) (df_suppressed_files d),
          df_registry = map reversed_registry (df_registry d),
          df_registry_policy_changed = df_registry_policy_changed d,
          df_filesystem_policy_changed = df_filesystem_policy_changed d,
          df_libraries = df_libraries d,
          df_signers = signer_counts files,
          df_refiltered = df_refiltered d,
          df_intersection_of = df_intersection_of d\<rparr>)"

end
