(* ===== verification/Scan_Str.thy ===== *)
theory Scan_Str
  imports Rust_Str
begin

text \<open>
  Scans over a text: the non-overlapping matches of a pattern, as \<open>match_indices\<close> and the
  hand-written loops of the code find them, from left to right.
\<close>

section \<open>Scanning\<close>

text \<open>
  The positions, from \<open>at\<close> on and \<open>n\<close> of them to look at, where \<open>P\<close> holds, skipping the rest
  of a hit \<open>w\<close> wide.
\<close>

fun pick :: "(nat \<Rightarrow> bool) \<Rightarrow> nat \<Rightarrow> nat \<Rightarrow> nat \<Rightarrow> nat \<Rightarrow> nat list" where
  "pick P w 0 skip at = []"
| "pick P w (Suc n) skip at =
     (if 0 < skip then pick P w n (skip - 1) (Suc at)
      else if P at then at # pick P w n (w - 1) (Suc at)
      else pick P w n 0 (Suc at))"

definition is_ascii_alphanumeric :: "char \<Rightarrow> bool" where
  "is_ascii_alphanumeric c \<longleftrightarrow> is_digit_byte c \<or> is_alphabetic_byte c"

text \<open>\<open>str::match_indices\<close> for a pattern that is not empty.\<close>

definition match_indices :: "string \<Rightarrow> string \<Rightarrow> nat list" where
  "match_indices s p =
     pick (\<lambda>at. starts_with (drop at s) p) (length p) (Suc (length s) - length p) 0 0"

section \<open>What a scan finds\<close>

lemma pick_range: "x \<in> set (pick P w n skip at) \<Longrightarrow> P x \<and> at \<le> x \<and> x < at + n"
  by (induction P w n skip at rule: pick.induct) (fastforce split: if_splits)+

lemma pick_Nil: "pick P w n 0 at = [] \<longleftrightarrow> (\<forall>i < n. \<not> P (at + i))"
proof (induction n arbitrary: at)
  case (Suc n)
  have "(\<forall>i < Suc n. \<not> P (at + i)) \<longleftrightarrow> \<not> P at \<and> (\<forall>i < n. \<not> P (Suc at + i))"
    by (simp add: All_less_Suc2)
  with Suc.IH [of "Suc at"] show ?case by simp
qed simp

text \<open>Where no wanted position lies inside an earlier hit, the scan misses none.\<close>

lemma pick_misses_none:
  assumes "\<And>i j. P i \<Longrightarrow> i < j \<Longrightarrow> j < i + w \<Longrightarrow> P j \<Longrightarrow> \<not> Q j"
  shows "(\<forall>j. at \<le> j \<and> j < at + skip \<longrightarrow> \<not> (P j \<and> Q j)) \<Longrightarrow>
    filter Q (pick P w n skip at) = filter (\<lambda>j. P j \<and> Q j) [at..<at + n]"
proof (induction n arbitrary: at skip)
  case (Suc n)
  have upt: "[at..<at + Suc n] = at # [Suc at..<Suc at + n]" by (simp add: upt_conv_Cons)
  consider "0 < skip" | "skip = 0" "P at" | "skip = 0" "\<not> P at" by blast
  then show ?case
  proof cases
    case 1
    with Suc.prems have "\<not> (P at \<and> Q at)" by simp
    moreover have "filter Q (pick P w n (skip - 1) (Suc at))
        = filter (\<lambda>j. P j \<and> Q j) [Suc at..<Suc at + n]"
      by (rule Suc.IH) (use Suc.prems in auto)
    ultimately show ?thesis using 1 unfolding upt by simp
  next
    case 2
    have "filter Q (pick P w n (w - 1) (Suc at)) = filter (\<lambda>j. P j \<and> Q j) [Suc at..<Suc at + n]"
    proof (rule Suc.IH, intro allI impI)
      fix j assume "Suc at \<le> j \<and> j < Suc at + (w - 1)"
      then have "at < j" "j < at + w" by auto
      with assms [of at j] 2 show "\<not> (P j \<and> Q j)" by blast
    qed
    with 2 show ?thesis unfolding upt by simp
  next
    case 3
    have "filter Q (pick P w n 0 (Suc at)) = filter (\<lambda>j. P j \<and> Q j) [Suc at..<Suc at + n]"
      by (rule Suc.IH) auto
    with 3 show ?thesis unfolding upt by simp
  qed
qed simp

lemma pick_spaced:
  "0 < w \<Longrightarrow> (\<forall>x \<in> set (pick P w n skip at). at + skip \<le> x)
     \<and> sorted_wrt (\<lambda>i j. i + w \<le> j) (pick P w n skip at)"
proof (induction P w n skip at rule: pick.induct)
  case (2 P w n skip at)
  then show ?case by (fastforce simp: pick.simps split: if_splits)
qed (simp add: pick.simps)

lemma is_ascii_alphanumeric_lower [simp]:
  "is_ascii_alphanumeric (lower_byte c) = is_ascii_alphanumeric c"
  by (cases c) (auto simp: is_ascii_alphanumeric_def is_alphabetic_byte_def)

declare pick.simps [simp del]

end
