(* ===== verification/Suggest_Text.thy ===== *)
theory Suggest_Text
  imports Schema Obs_Diff Scan_Str
begin

text \<open>
  The readings of paths, keys and names that \<open>tools/observe/src/suggest.rs\<close> drafts an entry
  with: templates, product folders, identifiers in a text, publisher names, image paths, and
  the wrapping of a note.
\<close>

section \<open>Slices that may miss a character boundary\<close>

text \<open>\<open>str::get(..n)\<close>, \<open>str::get(n..)\<close> and \<open>str::get(a..b)\<close>.\<close>

definition get_to :: "string \<Rightarrow> nat \<Rightarrow> string option" where
  "get_to s n = (if is_char_boundary s n then Some (take n s) else None)"

definition get_from :: "string \<Rightarrow> nat \<Rightarrow> string option" where
  "get_from s n = (if is_char_boundary s n then Some (drop n s) else None)"

definition get_range :: "string \<Rightarrow> nat \<Rightarrow> nat \<Rightarrow> string option" where
  "get_range s a b =
     (if a \<le> b \<and> is_char_boundary s a \<and> is_char_boundary s b then Some (take (b - a) (drop a s)) else None)"

section \<open>Parts of a path\<close>

definition parent_of :: "string \<Rightarrow> string option" where
  "parent_of path = map_option fst (rsplit_once path [backslash])"

definition leaf_of :: "string \<Rightarrow> string" where
  "leaf_of path = last (split_char backslash path)"

text \<open>The source's \<open>file_name\<close>, which never fails; another one is in the scan engine.\<close>

definition image_name :: "string \<Rightarrow> string option" where
  "image_name path = Some (leaf_of path)"

section \<open>Templates\<close>

definition machine_variables :: "(string \<times> string) list" where
  "machine_variables =
     [(''ProgramFiles(x86)'', win ''C:/Program Files (x86)''),
      (''ProgramFiles'', win ''C:/Program Files''),
      (''ProgramData'', win ''C:/ProgramData''),
      (''SystemRoot'', win ''C:/Windows'')]"

definition profile_variables :: "(string \<times> string) list" where
  "profile_variables =
     [(''LOCALAPPDATA'', win ''AppData/Local''), (''APPDATA'', win ''AppData/Roaming'')]"

definition strip_component_prefix :: "string \<Rightarrow> string \<Rightarrow> string option" where
  "strip_component_prefix path prefix =
     (case get_to path (length prefix) of
        None \<Rightarrow> None
      | Some head \<Rightarrow>
          let tail = drop (length prefix) path
          in if eq_ignore_ascii_case head prefix \<and> (tail = [] \<or> starts_with tail [backslash])
             then Some tail else None)"

definition split_profile :: "string \<Rightarrow> (string \<times> string) option" where
  "split_profile path =
     (if length path < 3 \<or> \<not> is_alphabetic_byte (path ! 0) \<or> path ! 1 \<noteq> CHR '':''
         \<or> path ! 2 \<noteq> backslash then None
      else case strip_component_prefix (drop 3 path) ''Users'' of
             None \<Rightarrow> None
           | Some tail \<Rightarrow>
               (case strip_prefix tail [backslash] of
                  None \<Rightarrow> None
                | Some below \<Rightarrow>
                    let profile = takeWhile (\<lambda>c. c \<noteq> backslash) below
                    in if profile = [] then None else Some (profile, drop (length profile) below)))"

definition variable_template :: "string \<Rightarrow> string \<times> string \<Rightarrow> string option" where
  "variable_template path entry =
     map_option (\<lambda>tail. ''%'' @ fst entry @ ''%'' @ tail) (strip_component_prefix path (snd entry))"

definition templated :: "string \<Rightarrow> string" where
  "templated path =
     (case split_profile path of
        Some (profile, rest) \<Rightarrow>
          if eq_ignore_ascii_case profile ''public'' then ''%PUBLIC%'' @ rest
          else
            let inner = (case strip_prefix rest [backslash] of Some r \<Rightarrow> r | None \<Rightarrow> rest)
            in (case find_map (variable_template inner) profile_variables of
                  Some t \<Rightarrow> t
                | None \<Rightarrow> ''%USERPROFILE%'' @ rest)
      | None \<Rightarrow>
          (case find_map (variable_template path) machine_variables of
             Some t \<Rightarrow> t
           | None \<Rightarrow> path))"

section \<open>What identifies a product\<close>

definition shared_directories :: "string list" where
  "shared_directories =
     [''drivers'', ''system32'', ''syswow64'', ''windows'', ''program files'',
      ''program files (x86)'', ''programdata'', ''common files'', ''appdata'', ''local'',
      ''roaming'', ''temp'', ''bin'', ''lib'', ''data'', ''config'', ''cache'', ''logs'',
      ''package cache'']"

definition product_roots :: "string list" where
  "product_roots =
     map win [''windows/system32/drivers'', ''windows/system32'', ''windows/syswow64'',
       ''program files (x86)'', ''program files'', ''programdata'', ''windows'']"

definition software_roots :: "string list" where
  "software_roots =
     map win [''hklm/software/wow6432node/'', ''hkcu/software/wow6432node/'',
       ''hklm/software/'', ''hkcu/software/'']"

definition below_profile :: "string list \<Rightarrow> string list" where
  "below_profile profile =
     (case profile of
        a # b # c # rest \<Rightarrow>
          if a = ''appdata'' \<and> b \<in> {''local'', ''locallow'', ''roaming''} then c # rest else profile
      | _ \<Rightarrow> profile)"

definition below_one_root :: "string list \<Rightarrow> string \<Rightarrow> string list option" where
  "below_one_root parts root =
     (let root_parts = split_char backslash root
      in if length root_parts < length parts \<and> take (length root_parts) parts = root_parts
         then Some (drop (length root_parts) parts) else None)"

definition below_root :: "string \<Rightarrow> string list" where
  "below_root path =
     (case get_from path 3 of
        None \<Rightarrow> []
      | Some rest \<Rightarrow>
          if get_range path 1 3 \<noteq> Some (win '':/'') then []
          else
            let parts = filter (\<lambda>p. p \<noteq> []) (split_char backslash rest)
            in if parts \<noteq> [] \<and> hd parts = ''users'' \<and> 2 < length parts then below_profile (drop 2 parts)
               else (case find_map (below_one_root parts) product_roots of
                       Some below \<Rightarrow> below | None \<Rightarrow> parts))"

definition identifies_something :: "string \<Rightarrow> bool" where
  "identifies_something directory \<longleftrightarrow>
     leaf_of directory \<notin> set shared_directories \<and> below_root directory \<noteq> []"

text \<open>
  A token occurs with no ASCII letter or digit on either side: the matches are those of
  \<open>match_indices\<close>, which do not overlap, and a character beside one that is not ASCII is no
  letter or digit here, so its bytes are looked at alone.
\<close>

definition contains_token :: "string \<Rightarrow> string \<Rightarrow> bool" where
  "contains_token t token \<longleftrightarrow>
     token \<noteq> []
     \<and> list_ex (\<lambda>at.
          (at = 0 \<or> \<not> is_ascii_alphanumeric (t ! (at - 1)))
          \<and> (length t \<le> at + length token \<or> \<not> is_ascii_alphanumeric (t ! (at + length token))))
        (match_indices t token)"

definition directory_tokens :: "string list \<Rightarrow> string list" where
  "directory_tokens files =
     filter (\<lambda>leaf. 4 \<le> length leaf \<and> leaf \<notin> set shared_directories)
       (concat (map (\<lambda>path. let below = below_root path
                            in take (min (length below - 1) 2) below) files))"

section \<open>Names of publishers and images\<close>

definition publisher_suffixes :: "string list" where
  "publisher_suffixes =
     [''inc.'', ''inc'', ''ltd.'', ''ltd'', ''pte.'', ''pte'', ''llc'', ''corp.'', ''corp'',
      ''corporation'', ''gmbh'', ''limited'', ''co.'', ''co'']"

definition without_suffix :: "string \<Rightarrow> string \<Rightarrow> string option" where
  "without_suffix name suffix =
     (case strip_suffix name suffix of
        Some rest \<Rightarrow> if ends_with rest '' '' then Some (trim_end rest) else None
      | None \<Rightarrow> None)"

definition strip_one_suffix :: "string \<Rightarrow> string option" where
  "strip_one_suffix name = find_map (without_suffix name) publisher_suffixes"

lemma length_trim_end: "length (trim_end s) \<le> length s"
  using trim_front_suffix [of "rev s" "map rev white_space"]
  by (auto simp: trim_end_def dest: arg_cong [where f = length])

lemma strip_one_suffix_shorter: "strip_one_suffix name = Some rest \<Longrightarrow> length rest < length name"
proof -
  assume "strip_one_suffix name = Some rest"
  then obtain s where s: "s \<in> set publisher_suffixes" "without_suffix name s = Some rest"
    unfolding strip_one_suffix_def by (blast dest: find_map_SomeD)
  then have "s \<noteq> []" by (auto simp: publisher_suffixes_def)
  from s(2) obtain r where "name = r @ s" "rest = trim_end r"
    by (auto simp: without_suffix_def strip_suffix_Some split: option.splits if_splits)
  with \<open>s \<noteq> []\<close> length_trim_end [of r] show ?thesis by (cases s) auto
qed

function strip_suffixes :: "string \<Rightarrow> string" where
  "strip_suffixes name =
     (case strip_one_suffix name of Some rest \<Rightarrow> strip_suffixes rest | None \<Rightarrow> name)"
  by pat_completeness auto
termination
  by (relation "measure length") (auto dest: strip_one_suffix_shorter)

declare strip_suffixes.simps [simp del]

definition publisher_name :: "string \<Rightarrow> string option" where
  "publisher_name signer =
     (let name = strip_suffixes (trim (hd (split_char (CHR '','') (to_ascii_lowercase signer))))
      in if 4 \<le> length name then Some name else None)"

definition normalise_image :: "string \<Rightarrow> string" where
  "normalise_image img =
     (let trimmed = trim img;
          bare = (case strip_prefix trimmed (win ''/??/'') of Some r \<Rightarrow> r | None \<Rightarrow> trimmed)
      in case strip_prefix bare [CHR 0x22] of
           Some rest \<Rightarrow>
             if CHR 0x22 \<in> set rest then takeWhile (\<lambda>c. c \<noteq> CHR 0x22) rest else trim bare
         | None \<Rightarrow> trim bare)"

definition stem_of :: "string \<Rightarrow> string" where
  "stem_of name = (case rsplit_once name ''.'' of Some (stem, _) \<Rightarrow> stem | None \<Rightarrow> name)"

definition trailing_digits :: "string \<Rightarrow> string" where
  "trailing_digits stem = rev (takeWhile is_digit_byte (rev stem))"

text \<open>\<open>str::parse::<u32>\<close>: an optional plus sign, digits, and no overflow.\<close>

definition parse_u32 :: "string \<Rightarrow> nat option" where
  "parse_u32 s =
     (let digits = (case strip_prefix s ''+'' of Some r \<Rightarrow> r | None \<Rightarrow> s);
          n = foldl (\<lambda>n c. 10 * n + (of_char c - 48)) 0 digits
      in if digits = [] \<or> \<not> list_all is_digit_byte digits \<or> 2 ^ 32 \<le> n then None else Some n)"

section \<open>Keys\<close>

definition wow_alias :: string where
  "wow_alias = win ''HKLM/SOFTWARE/WOW6432Node/''"

definition native_view_of :: "string \<Rightarrow> string \<Rightarrow> string \<times> string" where
  "native_view_of key v =
     (if v = ''64'' \<and> length wow_alias < length key
         \<and> (case get_to key (length wow_alias) of
              Some head \<Rightarrow> eq_ignore_ascii_case head wow_alias | None \<Rightarrow> False)
      then (win ''HKLM/SOFTWARE/'' @ drop (length wow_alias) key, ''32'')
      else (key, v))"

text \<open>Some proper ancestor of a path or key is listed: every separator of it is tried.\<close>

definition has_listed_ancestor :: "string \<Rightarrow> string list \<Rightarrow> bool" where
  "has_listed_ancestor candidate known \<longleftrightarrow>
     list_ex (\<lambda>at. candidate ! at = backslash \<and> take at candidate \<in> set known) [0..<length candidate]"

section \<open>Wrapping a note\<close>

text \<open>\<open>split_whitespace\<close>: the runs of bytes between white space, without empty ones.\<close>

function split_words :: "string \<Rightarrow> string \<Rightarrow> string list" where
  "split_words word s =
     (case strip_any white_space s of
        Some rest \<Rightarrow> (if word = [] then [] else [word]) @ split_words [] rest
      | None \<Rightarrow>
          (case s of
             [] \<Rightarrow> if word = [] then [] else [word]
           | c # rest \<Rightarrow> split_words (word @ [c]) rest))"
  by pat_completeness auto
termination
  by (relation "measure (\<lambda>(_, s). length s)") (auto dest: strip_any_shorter)

declare split_words.simps [simp del]

fun wrap_words :: "nat \<Rightarrow> string \<Rightarrow> string list \<Rightarrow> string list" where
  "wrap_words width current [] = (if current = [] then [] else [current])"
| "wrap_words width current (word # more_words) =
     (if current \<noteq> [] \<and> width < length current + 1 + length word
      then current # wrap_words width word more_words
      else wrap_words width (if current = [] then word else current @ '' '' @ word) more_words)"

definition wrap :: "string \<Rightarrow> nat \<Rightarrow> string list" where
  "wrap t width = wrap_words width [] (split_words [] t)"

end
