(* ===== verification/Suggest_Claims.thy ===== *)
theory Suggest_Claims
  imports Suggest_Text Denylist Reg_Keys
begin

text \<open>
  What ties a file, a key, a service or a driver to the publisher a draft is for: the
  \<open>Attribution\<close> of \<open>tools/observe/src/suggest.rs\<close>, and the drivers only the registry knows.
  The sets of the code are lists here: they are looked into and walked with \<open>any\<close> only.
\<close>

section \<open>Attribution\<close>

record attribution =
  at_files :: "string list"
  at_directories :: "string list"
  at_products :: "string list"
  at_names :: "string list"
  at_tokens :: "string list"
  at_only :: "string list"

definition in_scope :: "attribution \<Rightarrow> string \<Rightarrow> bool" where
  "in_scope a lowered \<longleftrightarrow> at_only a = [] \<or> list_ex (contains_sub lowered) (at_only a)"

definition claims_unscoped :: "attribution \<Rightarrow> string \<Rightarrow> bool" where
  "claims_unscoped a lowered \<longleftrightarrow>
     lowered \<in> set (at_files a)
     \<or> (case parent_of lowered of Some p \<Rightarrow> p \<in> set (at_directories a) | None \<Rightarrow> False)
     \<or> list_ex (contains_token lowered) (at_tokens a)"

definition claims_path :: "attribution \<Rightarrow> string \<Rightarrow> bool" where
  "claims_path a lowered \<longleftrightarrow> in_scope a lowered \<and> claims_unscoped a lowered"

definition claims_key :: "attribution \<Rightarrow> string \<Rightarrow> bool" where
  "claims_key a lowered \<longleftrightarrow>
     in_scope a lowered
     \<and> (claims_unscoped a lowered
        \<or> (case find_map (strip_prefix lowered) software_roots of
             None \<Rightarrow> False
           | Some below \<Rightarrow>
               list_ex (\<lambda>product.
                 case strip_prefix below product of
                   Some rest \<Rightarrow> rest = [] \<or> starts_with rest [backslash]
                 | None \<Rightarrow> False) (at_products a)))"

text \<open>The added files of a footprint and of a residue, and those the publisher signed.\<close>

definition added_files :: "diff \<Rightarrow> diff option \<Rightarrow> file_change list" where
  "added_files footprint residue =
     filter (\<lambda>c. fx_kind c = Added)
       (df_files footprint @ (case residue of Some r \<Rightarrow> df_files r | None \<Rightarrow> []))"

definition signed_by :: "string option \<Rightarrow> file_change \<Rightarrow> bool" where
  "signed_by signer c =
     (case (signer, fx_signer c) of
        (Some want, Some theirs) \<Rightarrow> eq_ignore_ascii_case theirs want
      | _ \<Rightarrow> False)"

definition product_of :: "string \<Rightarrow> string option" where
  "product_of directory =
     (let below = below_root directory
      in if 2 \<le> length below then Some (join_with [backslash] (take 2 below)) else None)"

definition from_signed_files ::
    "diff \<Rightarrow> diff option \<Rightarrow> string option \<Rightarrow> string list \<Rightarrow> attribution" where
  "from_signed_files footprint residue signer only =
     (let added = added_files footprint residue;
          files = map (\<lambda>c. to_ascii_lowercase (fx_path c)) (filter (signed_by signer) added);
          directories = filter identifies_something (List.map_filter parent_of files);
          a = \<lparr>at_files = files, at_directories = directories,
               at_products = List.map_filter product_of directories,
               at_names = [], at_tokens = directory_tokens files, at_only = only\<rparr>;
          names = map to_ascii_lowercase
            (List.map_filter (\<lambda>c. image_name (fx_path c))
              (filter (\<lambda>c. claims_path a (to_ascii_lowercase (fx_path c))) added))
      in a\<lparr>at_names := names\<rparr>)"

section \<open>Services\<close>

definition service_image :: "service_change \<Rightarrow> string option" where
  "service_image c =
     map_option (\<lambda>r. to_ascii_lowercase (normalise_image (sv_binary_path r))) (sc_after c)"

definition claims_service :: "attribution \<Rightarrow> service_change \<Rightarrow> bool" where
  "claims_service a c \<longleftrightarrow>
     (let name = to_ascii_lowercase (sc_name c); img = service_image c
      in (in_scope a name \<or> (case img of Some i \<Rightarrow> in_scope a i | None \<Rightarrow> False))
         \<and> (list_ex (contains_token name) (at_tokens a)
            \<or> (case img of
                 None \<Rightarrow> False
               | Some i \<Rightarrow>
                   claims_unscoped a i
                   \<or> (case image_name i of Some f \<Rightarrow> f \<in> set (at_names a) | None \<Rightarrow> False))))"

definition add_service :: "service_change \<Rightarrow> attribution \<Rightarrow> attribution" where
  "add_service c a =
     (let a = (case service_image c of
                 Some img \<Rightarrow>
                   (case image_name img of Some f \<Rightarrow> a\<lparr>at_names := f # at_names a\<rparr> | None \<Rightarrow> a)
                     \<lparr>at_files := img # at_files a\<rparr>
               | None \<Rightarrow> a)
      in a\<lparr>at_tokens := to_ascii_lowercase (sc_name c) # at_tokens a\<rparr>)"

definition add_services :: "service_change list \<Rightarrow> attribution \<Rightarrow> attribution" where
  "add_services cs a = fold add_service cs a"

section \<open>Drivers only the registry lists\<close>

record registry_driver =
  rd_name :: string
  rd_key :: string
  rd_image :: string
  rd_boot_start :: bool
  rd_describes :: string

definition services_root :: string where
  "services_root = win ''HKLM/SYSTEM/CurrentControlSet/Services/''"

definition service_key_name :: "registry_change \<Rightarrow> string option" where
  "service_key_name c =
     (case (get_to (rx_key c) (length services_root), get_from (rx_key c) (length services_root)) of
        (Some head, Some name) \<Rightarrow>
          if eq_ignore_ascii_case head services_root \<and> name \<noteq> [] \<and> backslash \<notin> set name
          then Some name else None
      | _ \<Rightarrow> None)"

definition record_value :: "registry_record \<Rightarrow> string \<Rightarrow> string option" where
  "record_value r wanted =
     map_option rv_data (find (\<lambda>v. eq_ignore_ascii_case (rv_name v) wanted) (rr_values r))"

text \<open>The driver an added registry change registers, when it registers one.\<close>

definition registered_driver :: "registry_change \<Rightarrow> (string \<times> registry_driver) option" where
  "registered_driver c =
     (case (service_key_name c, rx_after c) of
        (Some name, Some r) \<Rightarrow>
          (case map_option parse_u32 (record_value r ''Type'') of
             Some (Some code) \<Rightarrow>
               if code \<in> {1, 2, 8} then
                 Some (to_ascii_lowercase name,
                   \<lparr>rd_name = name, rd_key = rx_key c,
                    rd_image = normalise_image
                      (case record_value r ''ImagePath'' of Some i \<Rightarrow> i | None \<Rightarrow> []),
                    rd_boot_start = (record_value r ''Start'' = Some ''0''),
                    rd_describes = to_ascii_lowercase (join_with '' ''
                      (List.map_filter (record_value r) [''Description'', ''DisplayName'']))\<rparr>)
               else None
           | _ \<Rightarrow> None)
      | _ \<Rightarrow> None)"

text \<open>\<open>entry(k).or_insert(v)\<close>.\<close>

definition or_insert :: "'k::linorder \<Rightarrow> 'v \<Rightarrow> ('k \<times> 'v) list \<Rightarrow> ('k \<times> 'v) list" where
  "or_insert k v m = (case map_of m k of Some _ \<Rightarrow> m | None \<Rightarrow> btree_insert k v m)"

definition registry_only_drivers :: "diff \<Rightarrow> registry_driver list" where
  "registry_only_drivers footprint =
     (let services = map (\<lambda>c. to_ascii_lowercase (sc_name c)) (df_services footprint);
          found = fold (\<lambda>c m.
              if rx_kind c \<noteq> Added then m
              else case registered_driver c of
                     Some (key, d) \<Rightarrow> if key \<in> set services then m else or_insert key d m
                   | None \<Rightarrow> m) (df_registry footprint) []
      in map snd found)"

definition claims_registry_driver :: "attribution \<Rightarrow> registry_driver \<Rightarrow> string option \<Rightarrow> bool" where
  "claims_registry_driver a d publisher \<longleftrightarrow>
     (let key = to_ascii_lowercase (rd_key d); img = to_ascii_lowercase (rd_image d)
      in (in_scope a key \<or> in_scope a img \<or> in_scope a (rd_describes d))
         \<and> (claims_unscoped a key
            \<or> claims_unscoped a img
            \<or> (case image_name img of Some f \<Rightarrow> f \<in> set (at_names a) | None \<Rightarrow> False)
            \<or> (case Option.bind publisher publisher_name of
                 Some name \<Rightarrow> contains_sub (rd_describes d) name | None \<Rightarrow> False)))"

section \<open>Driver files\<close>

record drivers =
  dr_kept :: "(string \<times> string) list"
  dr_left_out :: "string list"

definition driver_file ::
    "attribution \<Rightarrow> file_change \<Rightarrow> drivers \<Rightarrow> drivers" where
  "driver_file a c ds =
     (case image_name (fx_path c) of
        None \<Rightarrow> ds
      | Some name \<Rightarrow>
          let lowered = to_ascii_lowercase name
          in if claims_path a (to_ascii_lowercase (fx_path c)) \<or> lowered \<in> set (at_names a)
             then ds\<lparr>dr_kept := btree_insert lowered name (dr_kept ds)\<rparr>
             else ds\<lparr>dr_left_out := dr_left_out ds @ [fx_path c]\<rparr>)"

definition service_driver_file :: "service_change \<Rightarrow> drivers \<Rightarrow> drivers" where
  "service_driver_file c ds =
     (case Option.bind (sc_after c) (\<lambda>r. image_name (normalise_image (sv_binary_path r))) of
        Some name \<Rightarrow> ds\<lparr>dr_kept := or_insert (to_ascii_lowercase name) name (dr_kept ds)\<rparr>
      | None \<Rightarrow> ds)"

definition driver_files :: "diff \<Rightarrow> attribution \<Rightarrow> service_change list \<Rightarrow> drivers" where
  "driver_files footprint a services =
     (let ds = fold (driver_file a)
            (filter (\<lambda>c. fx_kind c = Added \<and> fx_is_driver_image c) (df_files footprint))
            \<lparr>dr_kept = [], dr_left_out = []\<rparr>
      in fold service_driver_file (filter sc_is_driver services) ds)"

section \<open>Files inside game libraries\<close>

record game_file =
  gf_title :: string
  gf_signer :: "string option"

definition steam_common :: string where
  "steam_common = win ''/steamapps/common/''"

text \<open>What is below the library a lower-cased path is in.\<close>

definition below_library :: "string list \<Rightarrow> string \<Rightarrow> string option" where
  "below_library roots lowered =
     (case find_map (strip_prefix lowered) roots of
        Some below \<Rightarrow> Some below
      | None \<Rightarrow> map_option (\<lambda>at. drop (at + length steam_common) lowered) (find_sub lowered steam_common))"

definition game_file_of :: "string list \<Rightarrow> file_change \<Rightarrow> game_file option" where
  "game_file_of roots c =
     map_option (\<lambda>below.
         \<lparr>gf_title = hd (split_char backslash (drop (length (fx_path c) - length below) (fx_path c))),
          gf_signer = fx_signer c\<rparr>)
       (below_library roots (to_ascii_lowercase (fx_path c)))"

definition without_game_files :: "diff \<Rightarrow> diff \<times> game_file list" where
  "without_game_files d =
     (let roots = map (\<lambda>l. to_ascii_lowercase (games l) @ [backslash]) (df_libraries d)
      in (d\<lparr>df_files := filter (\<lambda>c. game_file_of roots c = None) (df_files d)\<rparr>,
          List.map_filter (game_file_of roots) (df_files d)))"

end
