(* ===== verification/Suggest.thy ===== *)
theory Suggest
  imports Suggest_Claims Prelude
begin

text \<open>
  Turning a diff into a draft catalog entry: \<open>tools/observe/src/suggest.rs\<close>.  A note pushed to
  the code's \<open>review\<close> is here an element of the list a definition returns beside its result;
  the draft joins those lists in the order of the calls.  Making a path canonical and
  putting a key before the deny-list may panic, so what uses them is a \<open>run\<close>.
\<close>

definition em_dash :: string where "em_dash = [CHR 0xE2, CHR 0x80, CHR 0x94]"
definition times_sign :: string where "times_sign = [CHR 0xC3, CHR 0x97]"

definition quoted :: "string \<Rightarrow> string" where
  "quoted s = [CHR 0x60] @ s @ [CHR 0x60]"

definition publisher_or :: "string option \<Rightarrow> string" where
  "publisher_or signer = (case signer of Some s \<Rightarrow> s | None \<Rightarrow> ''the chosen publisher'')"

section \<open>Choosing a publisher\<close>

definition count_key :: "string \<times> nat \<Rightarrow> int \<times> string" where
  "count_key s = (- int (snd s), fst s)"

definition choose_signer ::
    "diff \<Rightarrow> string option \<Rightarrow> ((string \<times> nat) list \<times> string option) \<times> string list" where
  "choose_signer footprint signer =
     (let signers = sort_key count_key (df_signers footprint);
          chosen = (case signer of
                      Some s \<Rightarrow> Some s
                    | None \<Rightarrow> (case signers of s # _ \<Rightarrow> Some (fst s) | [] \<Rightarrow> None));
          notes = (if signer = None \<and> 1 < length signers then
                [''several publishers appear in this diff (''
                 @ join_with '', '' (map (\<lambda>(name, count). name @ '' '' @ times_sign @ decimal count) signers)
                 @ ''); the draft attributes it to '' @ quoted (case chosen of Some c \<Rightarrow> c | None \<Rightarrow> [])
                 @ '' because it signed the most files. Re-run with --signer to choose another.'']
              else [])
      in ((signers, chosen), notes))"

definition service_descriptions :: "service_change list \<Rightarrow> string list" where
  "service_descriptions services =
     filter (\<lambda>t. t \<noteq> [])
       (map (\<lambda>t. to_ascii_lowercase (trim t))
         (concat (map (\<lambda>r. [sv_description r, sv_display_name r]) (List.map_filter sc_after services))))"

section \<open>Event sources\<close>

definition event_log_root :: string where
  "event_log_root = win ''HKLM/SYSTEM/CurrentControlSet/Services/EventLog/''"

text \<open>The log and the source an added change registers.\<close>

definition event_source_of :: "registry_change \<Rightarrow> (string \<times> string) option" where
  "event_source_of c =
     (case get_to (rx_key c) (length event_log_root) of
        None \<Rightarrow> None
      | Some head \<Rightarrow>
          if \<not> eq_ignore_ascii_case head event_log_root then None
          else case split_once (drop (length event_log_root) (rx_key c)) [backslash] of
                 None \<Rightarrow> None
               | Some (log, source) \<Rightarrow>
                   if source = [] \<or> backslash \<in> set source then None else Some (log, source))"

definition source_claimed ::
    "attribution \<Rightarrow> string list \<Rightarrow> string option \<Rightarrow> registry_change \<Rightarrow> string \<Rightarrow> bool" where
  "source_claimed a descriptions publisher c lowered \<longleftrightarrow>
     lowered \<in> set descriptions
     \<or> in_scope a (to_ascii_lowercase (rx_key c))
       \<and> (list_ex (contains_token lowered) (at_tokens a)
          \<or> (case publisher of Some name \<Rightarrow> contains_sub lowered name | None \<Rightarrow> False))"

definition add_event_source ::
    "attribution \<Rightarrow> string list \<Rightarrow> string option \<Rightarrow> registry_change
       \<Rightarrow> (string \<times> string) list \<times> (string \<times> string) list
       \<Rightarrow> (string \<times> string) list \<times> (string \<times> string) list" where
  "add_event_source a descriptions publisher c st =
     (case event_source_of c of
        None \<Rightarrow> st
      | Some (log, source) \<Rightarrow>
          let lowered = to_ascii_lowercase source; place = log @ [backslash] @ source
          in if source_claimed a descriptions publisher c lowered
             then (or_insert lowered place (fst st), snd st)
             else (fst st, or_insert lowered place (snd st)))"

definition event_sources ::
    "diff \<Rightarrow> attribution \<Rightarrow> string list \<Rightarrow> string option \<Rightarrow> string list \<times> string list" where
  "event_sources footprint a descriptions signer =
     (let publisher = Option.bind signer publisher_name;
          (kept, left_out) = fold (add_event_source a descriptions publisher)
            (filter (\<lambda>c. rx_kind c = Added) (df_registry footprint)) ([], []);
          notes = map (\<lambda>(_, place).
              ''event log source '' @ quoted place @ '' was registered and nothing ties its name to this anti-cheat, so it is not in '' @ quoted ''event_sources'' @ ''. Add it if it is this anti-cheat's.'')
            (filter (\<lambda>(lowered, _). map_of kept lowered = None) left_out)
      in (map (\<lambda>(_, place). case split_once place [backslash] of
                 Some (_, source) \<Rightarrow> source | None \<Rightarrow> place) kept, notes))"

section \<open>Drivers named after one title\<close>

definition zeros_off :: "string \<Rightarrow> string" where
  "zeros_off s = trim_start_matches (\<lambda>c. c = CHR ''0'') s"

text \<open>The numeric components of the keys the entry owns, each with a key that carries it.\<close>

definition title_ids :: "diff \<Rightarrow> attribution \<Rightarrow> (string \<times> string) list" where
  "title_ids footprint a =
     fold (\<lambda>c ids. fold (\<lambda>component ids.
             if 4 \<le> length component \<and> list_all is_digit_byte component
             then or_insert (zeros_off component) (rx_key c) ids else ids)
           (split_char backslash (rx_key c)) ids)
       (filter (\<lambda>c. rx_kind c = Added \<and> claims_key a (to_ascii_lowercase (rx_key c)))
         (df_registry footprint)) []"

text \<open>The id a driver's name ends in: every suffix of its trailing digits, longest first.\<close>

definition title_id_of :: "(string \<times> string) list \<Rightarrow> string \<Rightarrow> (string \<times> string) option" where
  "title_id_of ids name =
     (let digits = trailing_digits (stem_of name)
      in find_map (\<lambda>start.
           let candidate = zeros_off (drop start digits)
           in if 4 \<le> length candidate then map_option (Pair candidate) (map_of ids candidate) else None)
         [0..<length digits])"

definition add_title_driver ::
    "(string \<times> string) list \<Rightarrow> string \<Rightarrow> (string \<times> (string list \<times> string)) list \<times> string list
       \<Rightarrow> (string \<times> (string list \<times> string)) list \<times> string list" where
  "add_title_driver ids name st =
     (case title_id_of ids name of
        Some (i, key) \<Rightarrow>
          (btree_insert i
             (case map_of (fst st) i of
                Some (names, key) \<Rightarrow> (names @ [name], key) | None \<Rightarrow> ([name], key)) (fst st), snd st)
      | None \<Rightarrow> (fst st, snd st @ [name]))"

definition title_pair :: "string \<Rightarrow> ((string \<times> string) \<times> string) option" where
  "title_pair name =
     (let stem = stem_of name; digits = trailing_digits stem
      in case digits of
           [] \<Rightarrow> None
         | _ # after_first \<Rightarrow>
             let i = zeros_off after_first;
                 prefix = take (length stem - length digits) stem
             in if 4 \<le> length i \<and> prefix \<noteq> [] then Some ((to_ascii_lowercase prefix, i), name) else None)"

definition add_title_pair ::
    "string \<Rightarrow> ((string \<times> string) \<times> string list) list \<Rightarrow> ((string \<times> string) \<times> string list) list" where
  "add_title_pair name by_id =
     (case title_pair name of
        None \<Rightarrow> by_id
      | Some (key, name) \<Rightarrow>
          btree_insert key ((case map_of by_id key of Some names \<Rightarrow> names | None \<Rightarrow> []) @ [name]) by_id)"

definition pattern_note :: string where
  "pattern_note =
     ''so an entry covering every title needs a pattern the schema does not have (docs/04) ''
     @ em_dash @ '' a maintainer's decision, not a draft's.''"

definition note_per_title_pairs :: "string list \<Rightarrow> string list" where
  "note_per_title_pairs names =
     map (\<lambda>((_, i), names).
         let stem = stem_of (hd names);
             prefix = take (length stem - length (trailing_digits stem)) stem
         in join_with '' and '' (map quoted names) @ '' differ only in the digit after '' @ quoted prefix
            @ '' and end in the same id, '' @ quoted i @ '', which no key in this footprint carries: per-title drivers. Another title installs its own under its own id, and the catalog lists drivers by exact name, ''
            @ pattern_note)
       (filter (\<lambda>(_, names). 2 \<le> length names) (fold add_title_pair names []))"

definition note_per_title_drivers :: "diff \<Rightarrow> attribution \<Rightarrow> string list \<Rightarrow> string list" where
  "note_per_title_drivers footprint a names =
     (let ids = title_ids footprint a;
          (per_title, unmatched) = fold (add_title_driver ids) names ([], [])
      in map (\<lambda>(i, (names, key)).
             join_with '' and '' (map quoted names) @ '' carr'' @ (if length names = 1 then ''ies'' else ''y'')
             @ '' the id '' @ quoted i @ '', which also names '' @ quoted key
             @ '': per-title drivers. Another title installs its own under its own id, and the catalog lists drivers by exact name, ''
             @ pattern_note) per_title
         @ note_per_title_pairs unmatched)"

section \<open>Notes on what was kept and left out\<close>

definition note_registry_drivers ::
    "registry_driver list \<Rightarrow> registry_driver list \<Rightarrow> string option \<Rightarrow> string list" where
  "note_registry_drivers kept left_out signer =
     map (\<lambda>d. quoted (rd_name d) @ '' is a driver registered in the registry ('' @ quoted (rd_key d)
           @ '', image '' @ quoted (rd_image d)
           @ '') that the service control manager does not list, so a scan that trusts SCM alone never finds it (docs/05). It is in ''
           @ quoted ''services'' @ '' and '' @ quoted ''drivers''
           @ '' so the entry names it; confirm it is this anti-cheat's.'') kept
     @ map (\<lambda>d. ''driver '' @ quoted (rd_name d) @ '' is registered in the registry only ('' @ quoted (rd_key d)
           @ '', image '' @ quoted (rd_image d)
           @ ''), unknown to the service control manager, and nothing ties it to '' @ publisher_or signer
           @ '', so it was left out. Add it to '' @ quoted ''services'' @ '' and '' @ quoted ''drivers''
           @ '' only if it is this anti-cheat's.'') left_out"

definition note_game_files :: "game_file list \<Rightarrow> string option \<Rightarrow> string list" where
  "note_game_files set_aside signer =
     (if set_aside = [] then []
      else
        let titles = ordered_set (filter (\<lambda>t. t \<noteq> []) (map gf_title set_aside));
            by_publisher = (case signer of
                None \<Rightarrow> []
              | Some publisher \<Rightarrow>
                  let count = length (filter (\<lambda>g. case gf_signer g of
                        Some theirs \<Rightarrow> eq_ignore_ascii_case theirs publisher | None \<Rightarrow> False) set_aside)
                  in if count = 0 then [] else '', '' @ decimal count @ '' of them signed by '' @ publisher)
        in [decimal (length set_aside) @ '' file(s) inside game libraries were left out'' @ by_publisher
            @ '': a game's own files, its copy of the anti-cheat included, are the game's footprint, and an anti-cheat entry must not claim them. Title folders: ''
            @ join_with '', '' (map quoted titles) @ ''.''])"

definition note_kind :: "bool \<Rightarrow> bool \<Rightarrow> bool \<Rightarrow> string list" where
  "note_kind has_driver boot_start left_out_a_driver =
     (if \<not> has_driver \<and> left_out_a_driver then
        [''no driver could be attributed to this publisher, so '' @ quoted ''kind'' @ '' is '' @ quoted ''usermode''
         @ '' '' @ em_dash @ '' but a driver *was* added and left out, named above. If it is this anti-cheat's, add it and make ''
         @ quoted ''kind'' @ '' \"kernel\".'']
      else if \<not> has_driver then
        [''no driver was observed, so '' @ quoted ''kind'' @ '' is '' @ quoted ''usermode''
         @ ''. Confirm the anti-cheat really has no kernel component on this title before trusting it.'']
      else [])
     @ (if has_driver \<and> \<not> boot_start then
        [''a driver was observed but not at boot start. Vanguard has been seen configured either way, so confirm the start type rather than assuming this one generalises.'']
      else [])"

text \<open>
  The product folder a signed file is in, cut from the path in its own spelling.  The cut counts
  one separator before each part; where the path doubles one it can fall inside a character,
  and then the slice panics.
\<close>

definition product_folder :: "file_change \<Rightarrow> string option run" where
  "product_folder c =
     (let below = below_root (to_ascii_lowercase (fx_path c))
      in if length below < 2 then Ret None
         else
           let depth = (if length (hd below) < 4 \<or> hd below \<in> set shared_directories then 2 else 1)
           in if length below \<le> depth then Ret None
              else
                let tail = sum_list (map (\<lambda>part. length part + 1) (drop depth below))
                in map_run Some (slice_to (fx_path c) (length (fx_path c) - tail)))"

definition signed_products :: "file_change list \<Rightarrow> string \<Rightarrow> (string \<times> string) list run" where
  "signed_products files signer =
     fold_run (\<lambda>c products. map_run (\<lambda>folder. case folder of
           Some dir \<Rightarrow> or_insert (to_ascii_lowercase dir) (templated dir) products
         | None \<Rightarrow> products) (product_folder c))
       (filter (signed_by (Some signer)) files) []"

definition note_several_products ::
    "diff \<Rightarrow> diff option \<Rightarrow> string option \<Rightarrow> string list run" where
  "note_several_products footprint residue signer =
     (case signer of
        None \<Rightarrow> Ret []
      | Some signer \<Rightarrow>
          map_run (\<lambda>products.
              if 1 < length products then
                [signer @ '' signed files in '' @ decimal (length products) @ '' separate product folders: ''
                 @ join_with '', '' (map (\<lambda>(_, p). quoted p) products)
                 @ ''. One publisher often ships a launcher beside its anti-cheat, and a signature cannot tell them apart; if any of these is not the anti-cheat, re-run with --only naming the anti-cheat's folder or service.'']
              else []) (signed_products (added_files footprint residue) signer))"

definition note_scope ::
    "diff \<Rightarrow> diff option \<Rightarrow> string option \<Rightarrow> string list \<Rightarrow> string list run" where
  "note_scope footprint residue signer only =
     (if only = [] then note_several_products footprint residue signer
      else Ret [''attribution was limited with --only to what mentions ''
        @ join_with '' or '' (map quoted only)
        @ ''. Everything else this publisher signed was left out on purpose; check that nothing of the anti-cheat's was among it.''])"

definition note_left_out :: "service_change list \<Rightarrow> string list \<Rightarrow> string option \<Rightarrow> string list" where
  "note_left_out services driver_paths signer =
     map (\<lambda>c. (if sc_is_driver c then ''KERNEL DRIVER service'' else ''service'') @ '' ''
           @ quoted (sc_name c) @ '' (image ''
           @ quoted (case sc_after c of Some r \<Rightarrow> normalise_image (sv_binary_path r) | None \<Rightarrow> [])
           @ '') was added but nothing ties it to '' @ publisher_or signer
           @ '', so it was left out. Add it back only if it is this anti-cheat's.'') services
     @ map (\<lambda>path. ''driver file '' @ quoted path @ '' was added but nothing ties it to '' @ publisher_or signer
           @ '', so it was left out. Add it to '' @ quoted ''drivers'' @ '' only if it is this anti-cheat's.'') driver_paths"

section \<open>Paths\<close>

text \<open>The directories of the claimed files, and how many files were claimed by nothing.\<close>

definition gather ::
    "attribution \<Rightarrow> file_change list \<Rightarrow> string list \<times> nat \<Rightarrow> string list \<times> nat" where
  "gather a changes st =
     (let added = filter (\<lambda>c. fx_kind c = Added) changes;
          claimed = (\<lambda>c. claims_path a (to_ascii_lowercase (fx_path c)))
      in (ordered_set (fst st @ List.map_filter (\<lambda>c. parent_of (fx_path c)) (filter claimed added)),
          snd st + length (filter (\<lambda>c. \<not> claimed c) added)))"

definition path_allowed :: "exceptions \<Rightarrow> string \<Rightarrow> bool run" where
  "path_allowed e path =
     map_run (\<lambda>r. case r of Inl _ \<Rightarrow> False | Inr p \<Rightarrow> err_of (check_path p e CatalogLoad) = None)
       (canonicalise_syntactic path)"

text \<open>The elements a check lets through, and those it does not, in order.\<close>

definition partition_run :: "('a \<Rightarrow> bool run) \<Rightarrow> 'a list \<Rightarrow> ('a list \<times> 'a list) run" where
  "partition_run ok xs =
     map_run (\<lambda>bs. (map fst (filter snd (zip xs bs)), map fst (filter (Not \<circ> snd) (zip xs bs))))
       (traverse ok xs)"

definition path_note :: "string \<Rightarrow> string" where
  "path_note path =
     quoted path @ '' was dropped: the deny-list refuses it. A driver there belongs in ''
     @ quoted ''drivers = [...]'' @ '' by file name, never as a path.''"

definition path_entries ::
    "diff \<Rightarrow> diff option \<Rightarrow> attribution \<Rightarrow> exceptions \<Rightarrow> (path_entry list \<times> string list) run" where
  "path_entries footprint residue a e =
     (let st = gather a (df_files footprint) ([], 0);
          st = (case residue of Some r \<Rightarrow> gather a (df_files r) st | None \<Rightarrow> st);
          directories = fst st;
          collapsed = filter (\<lambda>d. \<not> has_listed_ancestor d directories) directories;
          notes = (if 0 < snd st then
                [decimal (snd st) @ '' added file(s) could not be attributed to this publisher and were left out. That is ordinary machine churn between the two snapshots; check the diff if the footprint looks short.'']
              else [])
            @ (if 12 < length collapsed then
                [decimal (length collapsed) @ '' directories gained files. That is more than one product usually installs ''
                 @ em_dash @ '' check whether the snapshots span something else as well.'']
              else [])
      in map_run (\<lambda>(allowed, refused).
           (map (\<lambda>p. \<lparr>pe_path = templated p, pe_class = Data\<rparr>) allowed, notes @ map path_note refused))
         (partition_run (path_allowed e) collapsed))"

section \<open>Registry keys\<close>

text \<open>The claimed keys with the views each was seen in, and how many were claimed by nothing.\<close>

definition add_key ::
    "attribution \<Rightarrow> registry_change \<Rightarrow> (string \<times> string list) list \<times> nat \<Rightarrow> (string \<times> string list) list \<times> nat" where
  "add_key a c st =
     (if rx_kind c \<noteq> Added then st
      else if \<not> claims_key a (to_ascii_lowercase (rx_key c)) then (fst st, Suc (snd st))
      else
        let (key, v) = native_view_of (rx_key c) (rx_view c)
        in (btree_insert key (v # (case map_of (fst st) key of Some vs \<Rightarrow> vs | None \<Rightarrow> [])) (fst st), snd st))"

definition key_allowed :: "exceptions \<Rightarrow> string \<Rightarrow> bool run" where
  "key_allowed e key =
     (case canonicalise_reg_key key of
        Inl _ \<Rightarrow> Ret False
      | Inr k \<Rightarrow> map_run (\<lambda>r. err_of r = None) (check_registry_key k e))"

text \<open>The views of a key and of every key folded into it.\<close>

definition views_below :: "(string \<times> string list) list \<Rightarrow> string \<Rightarrow> string list" where
  "views_below added key =
     (case map_of added key of Some vs \<Rightarrow> vs | None \<Rightarrow> [])
     @ concat (map snd (takeWhile (\<lambda>(k, _). starts_with k (key @ [backslash]))
         (dropWhile (\<lambda>(k, _). k < key @ [backslash]) added)))"

definition drafted_view :: "string list \<Rightarrow> view" where
  "drafted_view vs =
     (if ''32'' \<in> set vs then (if ''64'' \<in> set vs then Both else Bits32)
      else (if ''64'' \<in> set vs then Bits64 else Both))"

definition drafted_key :: "(string \<times> string list) list \<Rightarrow> string \<Rightarrow> registry_entry" where
  "drafted_key added key =
     \<lparr>re_key = key, re_view = drafted_view (views_below added key), re_class = Config\<rparr>"

definition narrowed_note :: "(string \<times> string list) list \<Rightarrow> string \<Rightarrow> string option" where
  "narrowed_note added key =
     (case (''32'' \<in> set (views_below added key), ''64'' \<in> set (views_below added key)) of
        (True, False) \<Rightarrow> Some (quoted key @ '' (32-bit view only)'')
      | (False, True) \<Rightarrow> Some (quoted key @ '' (64-bit view only)'')
      | _ \<Rightarrow> None)"

definition undetermined :: "(string \<times> string list) list \<Rightarrow> string \<Rightarrow> bool" where
  "undetermined added key \<longleftrightarrow>
     ''32'' \<notin> set (views_below added key) \<and> ''64'' \<notin> set (views_below added key)"

definition registry_entries ::
    "diff \<Rightarrow> attribution \<Rightarrow> exceptions \<Rightarrow> (registry_entry list \<times> string list) run" where
  "registry_entries footprint a e =
     (let (added, unattributed) = fold (add_key a) (df_registry footprint) ([], 0);
          candidates = filter (\<lambda>k. \<not> has_listed_ancestor k (map fst added)) (map fst added)
      in map_run (\<lambda>(allowed, refused).
           let narrowed = List.map_filter (narrowed_note added) allowed;
               unknown = map quoted (filter (undetermined added) allowed)
           in (map (drafted_key added) allowed,
               (if 0 < unattributed then
                  [decimal unattributed @ '' added registry key(s) could not be attributed to this anti-cheat and were left out.'']
                else [])
               @ map (\<lambda>key. quoted key @ '' was dropped: the deny-list refuses it.'') refused
               @ (if narrowed \<noteq> [] then
                    [decimal (length narrowed) @ '' key(s) were seen in one WOW64 view only and are recorded that way rather than as ''
                     @ quoted ''both'' @ '': '' @ join_with '', '' narrowed @ ''. '' @ quoted (win ''HKLM/SOFTWARE'')
                     @ '' is redirected and '' @ quoted (win ''HKLM/SYSTEM'') @ '' is not, so a single view is usually a fact about redirection ''
                     @ em_dash @ '' but confirm it, because widening to '' @ quoted ''both''
                     @ '' claims a key the observation never saw.'']
                  else [])
               @ (if unknown \<noteq> [] then
                    [decimal (length unknown) @ '' key(s) carried no recognised WOW64 view and defaulted to ''
                     @ quoted ''both'' @ '', which is the wider claim: '' @ join_with '', '' unknown
                     @ ''. Check the diff before submitting.'']
                  else [])))
         (partition_run (key_allowed e) candidates))"

section \<open>The draft\<close>

record draft =
  dt_entry :: anti_cheat
  dt_signers :: "(string \<times> nat) list"
  dt_review :: "string list"

definition scope_texts :: "string list \<Rightarrow> string list" where
  "scope_texts only = filter (\<lambda>t. t \<noteq> []) (map (\<lambda>t. to_ascii_lowercase (trim t)) only)"

text \<open>What the evidence attributes: services first, then drivers only the registry lists.\<close>

record evidence =
  ev_attribution :: attribution
  ev_services :: "service_change list"
  ev_unattributed :: "service_change list"
  ev_registry_kept :: "registry_driver list"
  ev_registry_left_out :: "registry_driver list"
  ev_drivers :: drivers

definition add_registry_image :: "registry_driver \<Rightarrow> (string \<times> string) list \<Rightarrow> (string \<times> string) list" where
  "add_registry_image d m =
     (case image_name (rd_image d) of
        Some name \<Rightarrow> if name = [] then m else or_insert (to_ascii_lowercase name) name m
      | None \<Rightarrow> m)"

definition weigh :: "diff \<Rightarrow> diff option \<Rightarrow> string option \<Rightarrow> string list \<Rightarrow> evidence" where
  "weigh footprint residue chosen only =
     (let a = from_signed_files footprint residue chosen only;
          added = filter (\<lambda>c. sc_kind c = Added) (df_services footprint);
          services = filter (claims_service a) added;
          unattributed = filter (\<lambda>c. \<not> claims_service a c) added;
          a = add_services services a;
          found = registry_only_drivers footprint;
          kept = filter (\<lambda>d. claims_registry_driver a d chosen) found;
          left_out = filter (\<lambda>d. \<not> claims_registry_driver a d chosen) found;
          a = a\<lparr>at_tokens := map (\<lambda>d. to_ascii_lowercase (rd_name d)) kept @ at_tokens a\<rparr>;
          ds = driver_files footprint a services;
          names = fold add_registry_image kept (dr_kept ds)
      in \<lparr>ev_attribution = a, ev_services = services, ev_unattributed = unattributed,
          ev_registry_kept = kept, ev_registry_left_out = left_out,
          ev_drivers = ds\<lparr>dr_kept := names\<rparr>\<rparr>)"

definition has_driver :: "evidence \<Rightarrow> bool" where
  "has_driver ev \<longleftrightarrow>
     list_ex sc_is_driver (ev_services ev) \<or> dr_kept (ev_drivers ev) \<noteq> [] \<or> ev_registry_kept ev \<noteq> []"

definition has_boot_start :: "evidence \<Rightarrow> bool" where
  "has_boot_start ev \<longleftrightarrow>
     list_ex sc_is_boot_start (ev_services ev) \<or> list_ex rd_boot_start (ev_registry_kept ev)"

definition drafted_risk :: "evidence \<Rightarrow> risk" where
  "drafted_risk ev =
     (if has_boot_start ev then Critical else if has_driver ev then High else Medium)"

definition left_out_a_driver :: "evidence \<Rightarrow> bool" where
  "left_out_a_driver ev \<longleftrightarrow>
     dr_left_out (ev_drivers ev) \<noteq> [] \<or> ev_registry_left_out ev \<noteq> []
     \<or> list_ex sc_is_driver (ev_unattributed ev)"

definition service_names :: "evidence \<Rightarrow> string list" where
  "service_names ev = map sc_name (ev_services ev) @ map rd_name (ev_registry_kept ev)"

definition driver_names :: "evidence \<Rightarrow> string list" where
  "driver_names ev = map snd (dr_kept (ev_drivers ev))"

definition drafted_exceptions :: "evidence \<Rightarrow> exceptions" where
  "drafted_exceptions ev = new_exceptions (driver_names ev) (service_names ev)"

definition residue_note :: string where
  "residue_note =
     ''no residue diff was given, so every path is classified from the install diff alone. docs/16 calls the residue diff the more valuable of the two ''
     @ em_dash @ '' it is the exact set of things the vendor's uninstaller leaves behind.''"

definition shared_note :: string where
  "shared_note =
     quoted ''shared'' @ '' is '' @ quoted ''true''
     @ '' and must stay so until at least two titles have been observed. docs/04: a wrong ''
     @ quoted ''shared = false'' @ '' is the G1 violation this project exists to prevent.''"

definition signtool_note :: string where
  "signtool_note =
     ''verify every signer with '' @ quoted ''signtool verify /v /pa <file>''
     @ '' and paste the output into the pull request, per the docs/16 checklist.''"

definition drafted_entry ::
    "string option \<Rightarrow> evidence \<Rightarrow> path_entry list \<Rightarrow> registry_entry list \<Rightarrow> string list \<Rightarrow> anti_cheat" where
  "drafted_entry chosen ev paths registry sources =
     \<lparr>ac_id = ''REVIEW-me'',
      ac_display = (case chosen of None \<Rightarrow> ''REVIEW: unknown publisher'' | Some name \<Rightarrow> ''REVIEW: '' @ name),
      ac_vendor = chosen, ac_kind = (if has_driver ev then Kernel else Usermode), ac_shared = True,
      ac_shared_evidence = None, ac_risk = drafted_risk ev,
      ac_authenticode_cn = (case chosen of None \<Rightarrow> [] | Some name \<Rightarrow> [name]), ac_file_hashes = [],
      ac_services = service_names ev, ac_drivers = driver_names ev, ac_paths = paths,
      ac_registry = registry, ac_tasks = [], ac_firewall_rules = [], ac_event_sources = sources,
      ac_official_uninstall = None\<rparr>"

text \<open>The footprint and the residue without what is inside game libraries, and that.\<close>

definition outside_games ::
    "diff \<Rightarrow> diff option \<Rightarrow> (diff \<times> diff option) \<times> game_file list" where
  "outside_games footprint residue =
     (let (footprint, aside) = without_game_files footprint
      in case residue of
           None \<Rightarrow> ((footprint, None), aside)
         | Some r \<Rightarrow> (let (r, more_aside) = without_game_files r in ((footprint, Some r), aside @ more_aside)))"

text \<open>The draft from the evidence, and the notes pushed before it was weighed.\<close>

definition draft_from ::
    "diff \<Rightarrow> diff option \<Rightarrow> string option \<Rightarrow> string list \<Rightarrow> (string \<times> nat) list \<Rightarrow> string list \<Rightarrow> evidence \<Rightarrow> draft run" where
  "draft_from footprint residue chosen only signers notes ev =
     (let a = ev_attribution ev;
          e = drafted_exceptions ev;
          (sources, source_notes) = event_sources footprint a (service_descriptions (ev_services ev)) chosen
      in bind_run (note_scope footprint residue chosen only) (\<lambda>scope_notes.
         bind_run (path_entries footprint residue a e) (\<lambda>(paths, path_notes).
         map_run (\<lambda>(registry, registry_notes).
           \<lparr>dt_entry = drafted_entry chosen ev paths registry sources,
            dt_signers = signers,
            dt_review =
              notes
              @ scope_notes
              @ note_left_out (ev_unattributed ev) (dr_left_out (ev_drivers ev)) chosen
              @ note_registry_drivers (ev_registry_kept ev) (ev_registry_left_out ev) chosen
              @ note_kind (has_driver ev) (has_boot_start ev) (left_out_a_driver ev)
              @ path_notes
              @ registry_notes
              @ note_per_title_drivers footprint a (driver_names ev)
              @ source_notes
              @ (if residue = None then [residue_note] else [])
              @ [shared_note, signtool_note]\<rparr>) (registry_entries footprint a e))))"

definition draft_scoped ::
    "diff \<Rightarrow> diff option \<Rightarrow> string option \<Rightarrow> string list \<Rightarrow> draft run" where
  "draft_scoped footprint residue signer only =
     (let ((signers, chosen), signer_notes) = choose_signer footprint signer;
          only = scope_texts only;
          ((footprint, residue), set_aside) = outside_games footprint residue
      in draft_from footprint residue chosen only signers
           (signer_notes @ note_game_files set_aside chosen)
           (weigh footprint residue chosen only))"

section \<open>Printing the draft\<close>

text \<open>The serialiser of the entry is a parameter; the header is the code's own.\<close>

definition pad_left :: "nat \<Rightarrow> string \<Rightarrow> string" where
  "pad_left width s = replicate (width - length s) (CHR '' '') @ s"

definition line :: "string \<Rightarrow> string" where
  "line s = s @ [CHR 0x0A]"

definition note_lines :: "string \<Rightarrow> string list" where
  "note_lines note =
     map (\<lambda>(index, l). ''#   '' @ (if index = 0 then ''- '' else ''  '') @ l) (enumerated (wrap note 74))"

definition to_toml ::
    "(anti_cheat \<Rightarrow> 'e + string) \<Rightarrow> draft \<Rightarrow> string \<Rightarrow> 'e + string" where
  "to_toml to_string_pretty d generated_utc =
     (case to_string_pretty (dt_entry d) of
        Inl err \<Rightarrow> Inl err
      | Inr body \<Rightarrow> Inr (concat (map line
          ([''# DRAFT '' @ em_dash @ '' generated '' @ generated_utc,
            ''# REVIEW EVERY FIELD BEFORE SUBMITTING.'',
            ''#'',
            ''# This is a hypothesis produced from an observation diff, not an entry.'',
            ''# CONTRIBUTING.md rejects entries that are not derived from a diff; it does'',
            ''# not accept one that was derived from a diff and never read.'',
            ''#'']
           @ (if dt_signers d = [] then [] else
                [''# Publishers seen in this diff:'']
                @ map (\<lambda>(name, count). ''#   '' @ pad_left 5 (decimal count) @ '' file(s)  '' @ name) (dt_signers d)
                @ [''#''])
           @ [''# Before submitting:'']
           @ concat (map note_lines (dt_review d))
           @ [[]])) @ body))"

end
