(* ===== verification/Obs_Compare.thy ===== *)
theory Obs_Compare
  imports Obs_Diff
begin

text \<open>
  What a comparison of two snapshots guarantees: no service or file that differs is dropped,
  nothing the privacy policy refuses gets through, and reading a diff backwards is comparing
  the snapshots the other way round.
\<close>

section \<open>Services\<close>

lemma crowded_iff:
  "n \<in> set (crowded_names flt rs) \<longleftrightarrow> 1 < count_list (map (\<lambda>r. canonical_name flt (sv_name r)) rs) n"
proof -
  have "(n, m) \<in> set (filter (\<lambda>(_, count). 1 < count) (tally ks)) \<longleftrightarrow> m = count_list ks n \<and> 1 < m"
    for ks m by (auto simp: set_tally intro: ccontr [OF notE [OF _ count_notin]])
  then show ?thesis by (force simp: crowded_names_def image_iff)
qed

lemma two_crowd:
  assumes "r \<in> set rs" and "s \<in> set rs" and "r \<noteq> s" and "f r = f s"
  shows "1 < count_list (map f rs) (f r)"
proof -
  have "card {r, s} \<le> card (set (filter (\<lambda>x. f x = f r) rs))"
    using assms by (intro card_mono) auto
  also have "\<dots> \<le> length (filter (\<lambda>x. f x = f r) rs)" by (rule card_length)
  also have "\<dots> = count_list (map f rs) (f r)" by (induction rs) auto
  finally show ?thesis using assms(3) by simp
qed

definition stable_name :: "noise_filter \<Rightarrow> service_record \<Rightarrow> bool" where
  "stable_name flt r \<longleftrightarrow>
     canonical_name flt (canonical_name flt (sv_name r)) = canonical_name flt (sv_name r)"

lemma same_index_key:
  assumes "stable_name flt r" and "stable_name flt s"
    and "service_index_key flt crowded (sv_name r) = service_index_key flt crowded (sv_name s)"
  shows "canonical_name flt (sv_name r) = canonical_name flt (sv_name s)"
  using assms by (auto simp: service_index_key_def stable_name_def Let_def split: if_splits)

lemma index_key_inj:
  assumes "distinct (map sv_name rs)" and "list_all (stable_name flt) rs"
    and "set (crowded_names flt rs) \<subseteq> set crowded" and "r \<in> set rs" and "s \<in> set rs"
    and key: "service_index_key flt crowded (sv_name r) = service_index_key flt crowded (sv_name s)"
  shows "r = s"
proof (rule ccontr)
  assume "r \<noteq> s"
  have same: "canonical_name flt (sv_name r) = canonical_name flt (sv_name s)"
    by (rule same_index_key [OF _ _ key]) (use assms in \<open>auto simp: list_all_iff\<close>)
  have "canonical_name flt (sv_name r) \<in> set (crowded_names flt rs)"
    unfolding crowded_iff
    by (rule two_crowd [where f = "\<lambda>r. canonical_name flt (sv_name r)"]) (fact assms same \<open>r \<noteq> s\<close>)+
  with assms(3) same key have "sv_name r = sv_name s" by (auto simp: service_index_key_def Let_def)
  with assms(1,4,5) \<open>r \<noteq> s\<close> show False by (auto simp: distinct_map inj_on_def)
qed

lemma service_change_of_None [simp]: "service_change_of k None None = None"
  by (simp add: service_change_of_def)

lemma service_change_of_cases:
  "service_change_of k old new = Some c \<Longrightarrow>
     sc_name c = k \<and> sc_before c = old \<and> sc_after c = new
     \<and> (sc_kind c = Added \<longleftrightarrow> old = None) \<and> (sc_kind c = Removed \<longleftrightarrow> new = None)"
  by (auto simp: service_change_of_def Let_def split: option.splits if_splits)

lemma service_change_of_either:
  "service_change_of k (Some r) new = None \<longleftrightarrow> (\<exists>s. new = Some s \<and> field_changes r s = [])"
  "service_change_of k old (Some r) = None \<longleftrightarrow> (\<exists>s. old = Some s \<and> field_changes s r = [])"
  by (auto simp: service_change_of_def Let_def split: option.splits)

text \<open>
  No service is dropped: when the names on each side are distinct and no template name
  itself ends in an instance suffix, every service of either snapshot is in a change, or the
  other snapshot has one of the same template with equal configuration.  Every change shows
  records of the snapshots, is of the kind its two records say, and comes in order of name.
\<close>

theorem services_none_dropped:
  assumes "distinct (map sv_name before)" and "distinct (map sv_name after)"
    and "list_all (stable_name flt) (before @ after)"
  shows "(r \<in> set before \<longrightarrow>
           (\<exists>c \<in> set (compare_services before after flt). sc_before c = Some r)
           \<or> (\<exists>s \<in> set after. canonical_name flt (sv_name s) = canonical_name flt (sv_name r)
                \<and> field_changes r s = []))
    \<and> (r \<in> set after \<longrightarrow>
           (\<exists>c \<in> set (compare_services before after flt). sc_after c = Some r)
           \<or> (\<exists>s \<in> set before. canonical_name flt (sv_name s) = canonical_name flt (sv_name r)
                \<and> field_changes s r = []))
    \<and> (\<forall>c \<in> set (compare_services before after flt).
         (\<forall>s. sc_before c = Some s \<longrightarrow> s \<in> set before) \<and> (\<forall>s. sc_after c = Some s \<longrightarrow> s \<in> set after)
         \<and> (sc_kind c = Added \<longleftrightarrow> sc_before c = None) \<and> (sc_kind c = Removed \<longleftrightarrow> sc_after c = None))
    \<and> sorted_wrt (<) (map sc_name (compare_services before after flt))"
proof -
  let ?crowded = "ordered_set (crowded_names flt before @ crowded_names flt after)"
  let ?key = "\<lambda>r. service_index_key flt ?crowded (sv_name r)"
  let ?b = "index_by ?key before" and ?a = "index_by ?key after"
  have changes: "compare_services before after flt = joined service_change_of ?b ?a"
    by (simp add: compare_services_def Let_def)
  have member: "c \<in> set (compare_services before after flt)
      \<longleftrightarrow> (\<exists>k. service_change_of k (map_of ?b k) (map_of ?a k) = Some c)" for c
    unfolding changes by (rule set_joined) simp
  have at_before: "map_of ?b (?key r) = Some r" if "r \<in> set before" for r
    by (rule index_by_only [OF that], rule index_key_inj [OF assms(1)]) (use assms(3) that in auto)
  have at_after: "map_of ?a (?key r) = Some r" if "r \<in> set after" for r
    by (rule index_by_only [OF that], rule index_key_inj [OF assms(2)]) (use assms(3) that in auto)
  have template: "canonical_name flt (sv_name s) = canonical_name flt (sv_name r)"
    if "?key s = ?key r" "r \<in> set (before @ after)" "s \<in> set (before @ after)" for r s
    by (rule same_index_key [OF _ _ that(1)]) (use assms(3) that in \<open>auto simp: list_all_iff\<close>)
  have from_before: "(\<exists>c \<in> set (compare_services before after flt). sc_before c = Some r)
      \<or> (\<exists>s \<in> set after. canonical_name flt (sv_name s) = canonical_name flt (sv_name r)
           \<and> field_changes r s = [])" if r: "r \<in> set before" for r
  proof (cases "service_change_of (?key r) (map_of ?b (?key r)) (map_of ?a (?key r))")
    case (Some c)
    with member service_change_of_cases [OF Some] at_before [OF r] show ?thesis by metis
  next
    case None
    then obtain s where "map_of ?a (?key r) = Some s" "field_changes r s = []"
      unfolding at_before [OF r] service_change_of_either by blast
    with index_by_Some [of ?key after "?key r" s] template [of s r] r show ?thesis by auto
  qed
  have from_after: "(\<exists>c \<in> set (compare_services before after flt). sc_after c = Some r)
      \<or> (\<exists>s \<in> set before. canonical_name flt (sv_name s) = canonical_name flt (sv_name r)
           \<and> field_changes s r = [])" if r: "r \<in> set after" for r
  proof (cases "service_change_of (?key r) (map_of ?b (?key r)) (map_of ?a (?key r))")
    case (Some c)
    with member service_change_of_cases [OF Some] at_after [OF r] show ?thesis by metis
  next
    case None
    then obtain s where "map_of ?b (?key r) = Some s" "field_changes s r = []"
      unfolding at_after [OF r] service_change_of_either by blast
    with index_by_Some [of ?key before "?key r" s] template [of s r] r show ?thesis by auto
  qed
  have "sorted_wrt (<) (map sc_name (compare_services before after flt))"
    unfolding changes by (rule joined_ascending) (auto dest: service_change_of_cases)
  with from_before from_after show ?thesis
    by (auto simp: member dest!: service_change_of_cases index_by_Some)
qed

section \<open>Files\<close>

text \<open>The record a side has of a path, up to letter case: the last one not excluded.\<close>

definition file_at :: "file_record list \<Rightarrow> string \<Rightarrow> file_record option" where
  "file_at records path =
     find (\<lambda>r. to_ascii_lowercase (fr_path r) = path)
       (rev (filter (\<lambda>r. \<not> is_excluded_path (fr_path r)) records))"

lemma file_atD:
  "file_at records path = Some r \<Longrightarrow>
     r \<in> set records \<and> \<not> is_excluded_path (fr_path r) \<and> to_ascii_lowercase (fr_path r) = path"
  by (auto simp: file_at_def dest: find_SomeD)

lemma map_of_file_index [simp]: "map_of (fst (file_index records rf)) path = file_at records path"
  by (simp add: file_index_def file_at_def index_by_find)

lemma file_change_of_None [simp]: "file_change_of k None None = None"
  by (simp add: file_change_of_def)

lemma file_change_of_cases:
  "file_change_of k old new = Some c \<Longrightarrow>
     fx_before c = old \<and> fx_after c = new
     \<and> (fx_kind c = Added \<longleftrightarrow> old = None) \<and> (fx_kind c = Removed \<longleftrightarrow> new = None)
     \<and> (case new of Some r \<Rightarrow> fx_path c = fr_path r \<and> fx_signer c = fr_signer r
                             \<and> fx_is_driver_image c = is_driver_image r
        | None \<Rightarrow> \<exists>r. old = Some r \<and> fx_path c = fr_path r \<and> fx_signer c = fr_signer r
                             \<and> fx_is_driver_image c = is_driver_image r)"
  by (auto simp: file_change_of_def Let_def split: option.splits if_splits)

text \<open>A modified file has a field other than its time, so the noise filter never fires.\<close>

lemma file_field_changes_first:
  "file_field_changes before after = f # fs \<Longrightarrow> fc_field f \<noteq> ''modified_utc''"
  by (auto simp: file_field_changes_def field_diff_def Let_def split: if_splits)

lemma file_rule_never: "file_change_of k old new = Some c \<Longrightarrow> file_rule_for flt c = None"
  by (cases "fx_fields c")
    (auto simp: file_change_of_def file_rule_for_def Let_def
       dest: file_field_changes_first split: option.splits if_splits)

lemma joined_file_rules:
  "c \<in> set (joined file_change_of a b) \<Longrightarrow> file_rule_for flt c = None"
  by (auto simp: set_joined dest: file_rule_never)

lemma compare_files_eq:
  "fst (compare_files before after flt rf)
     = (joined file_change_of (fst (file_index before rf)) (fst (file_index after rf)), [])"
proof -
  let ?changes = "joined file_change_of (fst (file_index before rf)) (fst (file_index after rf))"
  have "filter (\<lambda>c. file_rule_for flt c = None) ?changes = ?changes"
    by (simp add: filter_id_conv joined_file_rules)
  moreover have "List.map_filter (\<lambda>c. map_option (\<lambda>rule. \<lparr>sf_rule = rule, sf_change = c\<rparr>)
      (file_rule_for flt c)) ?changes = []"
    by (simp add: List.map_filter_def joined_file_rules)
  ultimately show ?thesis by (simp add: compare_files_def file_index_def Let_def)
qed

text \<open>
  The file changes are exactly the differences: at each path, up to letter case and outside
  the exclusions, the change between the records the two snapshots have of it, if there is one,
  in order of path; and the noise filter never moves one aside.
\<close>

theorem files_compared:
  "snd (fst (compare_files before after flt rf)) = []
   \<and> (c \<in> set (fst (fst (compare_files before after flt rf)))
        \<longleftrightarrow> (\<exists>path. file_change_of path (file_at before path) (file_at after path) = Some c))
   \<and> sorted_wrt (<) (map (\<lambda>c. to_ascii_lowercase (fx_path c))
       (fst (fst (compare_files before after flt rf))))"
proof -
  have "to_ascii_lowercase (fx_path d) = k"
    if "file_change_of k (file_at before k) (file_at after k) = Some d" for k d
    using file_change_of_cases [OF that] file_atD by (auto split: option.splits)
  then have "sorted_wrt (<) (map (\<lambda>c. to_ascii_lowercase (fx_path c))
      (joined file_change_of (fst (file_index before rf)) (fst (file_index after rf))))"
    by (intro joined_ascending) simp
  then show ?thesis by (simp add: compare_files_eq set_joined)
qed

section \<open>Registry\<close>

lemma registry_change_of_None [simp]: "registry_change_of None None = None"
  by (simp add: registry_change_of_def)

text \<open>Admitting along a list keeps the index of what was admitted.\<close>

lemma admitted_index_of:
  "fst (fold (admit_into p) records (m, rf)) =
     fold (\<lambda>r. btree_insert (registry_identity_of r) r)
       (map cow_value (List.map_filter (\<lambda>r. am_record (admit p r)) records)) m"
  by (induction records arbitrary: m rf)
    (auto simp: admit_into_def List.map_filter_simps Let_def split: option.splits)

definition admitted_records :: "policy \<Rightarrow> registry_record list \<Rightarrow> registry_record list" where
  "admitted_records p records =
     map cow_value (List.map_filter (\<lambda>r. am_record (admit p r)) records)"

lemma admitted_index_index_by:
  "fst (admitted_index records p rf) = index_by registry_identity_of (admitted_records p records)"
  by (simp add: admitted_index_def admitted_index_of index_by_def admitted_records_def)

lemma admitted_records_clean: "r \<in> set (admitted_records p records) \<Longrightarrow> clean_record p r"
  by (auto simp: admitted_records_def dest: admit_value)

definition registry_at :: "policy \<Rightarrow> registry_record list \<Rightarrow> string \<times> string \<Rightarrow> registry_record option" where
  "registry_at p records k = find (\<lambda>r. registry_identity_of r = k) (rev (admitted_records p records))"

lemma registry_atD:
  "registry_at p records k = Some r \<Longrightarrow> clean_record p r \<and> registry_identity_of r = k"
  by (auto simp: registry_at_def dest!: find_SomeD intro: admitted_records_clean)

lemma fst_compare_registry:
  "fst (compare_registry before after p rf) =
     joined (\<lambda>_. registry_change_of)
       (index_by registry_identity_of (admitted_records p before))
       (index_by registry_identity_of (admitted_records p after))"
proof -
  obtain i1 rf1 where 1: "admitted_index before p rf = (i1, rf1)" by fastforce
  obtain i2 rf2 where 2: "admitted_index after p rf1 = (i2, rf2)" by fastforce
  have "i1 = index_by registry_identity_of (admitted_records p before)"
    using admitted_index_index_by [of before p rf] 1 by simp
  moreover have "i2 = index_by registry_identity_of (admitted_records p after)"
    using admitted_index_index_by [of after p rf1] 2 by simp
  ultimately show ?thesis by (simp add: compare_registry_def 1 2)
qed

lemma set_compare_registry:
  "c \<in> set (fst (compare_registry before after p rf)) \<longleftrightarrow>
     (\<exists>k. registry_change_of (registry_at p before k) (registry_at p after k) = Some c)"
  unfolding fst_compare_registry by (subst set_joined) (simp_all add: index_by_find registry_at_def)

lemma modification_Some:
  assumes "modification old new = Some c"
  shows "rx_kind c = Modified" and "rx_key c = rr_key new" and "rx_view c = rr_view new"
    and "rx_before c = Some (only_differing (differing_names old new) old)"
    and "rx_after c = Some (only_differing (differing_names old new) new)"
    and "rx_fields c = map (value_field old new) (differing_names old new)"
    and "differing_names old new \<noteq> []"
  using assms by (auto simp: modification_def value_differences_def split: if_splits)

lemma differing_names_member:
  "n \<in> set (differing_names old new) \<longleftrightarrow> map_of (comparables old) n \<noteq> map_of (comparables new) n"
  by (auto simp: differing_names_def) (metis map_of_eq_None_iff)+

text \<open>
  The registry changes are exactly the differences between what the policy admits of the two
  snapshots, key by key and view by view, and a modification shows of each record the values
  whose type and data differ and no other.
\<close>

theorem registry_compared:
  "(c \<in> set (fst (compare_registry before after p rf)) \<longleftrightarrow>
      (\<exists>k. registry_change_of (registry_at p before k) (registry_at p after k) = Some c))
   \<and> (modification old new = None \<longleftrightarrow> comparables old = comparables new)
   \<and> (modification old new = Some m \<longrightarrow>
        (\<exists>was now. rx_before m = Some was \<and> rx_after m = Some now
           \<and> rr_values was = filter (\<lambda>v. map_of (comparables old) (rv_name v)
                                          \<noteq> map_of (comparables new) (rv_name v)) (rr_values old)
           \<and> rr_values now = filter (\<lambda>v. map_of (comparables old) (rv_name v)
                                          \<noteq> map_of (comparables new) (rv_name v)) (rr_values new)))"
proof -
  have ordered: "ordered_entries (comparables r)" for r
    unfolding comparables_def by (rule btree.index_ok) simp
  have "modification old new = None \<longleftrightarrow> set (differing_names old new) = {}"
    by (simp add: modification_def value_differences_def)
  also have "\<dots> \<longleftrightarrow> map_of (comparables old) = map_of (comparables new)"
    by (simp only: fun_eq_iff set_eq_iff differing_names_member) simp
  also have "\<dots> \<longleftrightarrow> comparables old = comparables new"
    using ordered_entries_unique [OF ordered ordered] by blast
  finally show ?thesis
    by (auto simp: set_compare_registry only_differing_def differing_names_member
        modification_Some)
qed

section \<open>The whole comparison\<close>

text \<open>What one side contributes to the emptied lists, whatever has been counted before.\<close>

lemma fst_emptied_directories:
  "fst (emptied_directories before after cov rf) = fst (emptied_directories before after cov no_refiltered)"
  by (simp add: emptied_directories_def Let_def split: option.splits)

lemma fst_emptied_keys:
  "fst (emptied_keys before after cov rf) = fst (emptied_keys before after cov no_refiltered)"
  by (simp add: emptied_keys_def Let_def split: option.splits)

lemma fst_compare_files:
  "fst (compare_files before after flt rf) = fst (compare_files before after flt no_refiltered)"
  by (simp add: compare_files_eq file_index_def)

lemma fst_compare_registry_rf:
  "fst (compare_registry before after p rf) = fst (compare_registry before after p no_refiltered)"
  by (simp add: fst_compare_registry)

definition compared_coverage :: "snapshot \<Rightarrow> snapshot \<Rightarrow> coverage" where
  "compared_coverage before after =
     fst (drop_excluded_denials (intersect_coverage (sn_coverage before) (sn_coverage after)))"

definition compared_services :: "snapshot \<Rightarrow> snapshot \<Rightarrow> noise_filter \<Rightarrow> service_change list" where
  "compared_services before after flt =
     (if covers_domain (compared_coverage before after) ServicesDomain
      then compare_services (sn_services before) (sn_services after) flt else [])"

definition compared_files :: "snapshot \<Rightarrow> snapshot \<Rightarrow> noise_filter \<Rightarrow> file_change list" where
  "compared_files before after flt =
     (if covers_domain (compared_coverage before after) FilesystemDomain
      then fst (fst (compare_files (sn_files before) (sn_files after) flt no_refiltered)) else [])"

definition compared_registry :: "snapshot \<Rightarrow> snapshot \<Rightarrow> registry_change list" where
  "compared_registry before after =
     (if covers_domain (compared_coverage before after) RegistryDomain
      then fst (compare_registry (sn_registry before) (sn_registry after) current_policy no_refiltered)
      else [])"

lemma compared_moved_files:
  "snd (fst (compare_files before after flt rf)) = []"
  by (simp add: compare_files_eq)

lemma compare_Inr:
  assumes "compare before after flt = Inr d"
  shows "format_error before after = None"
    and "df_coverage d = compared_coverage before after"
    and "df_services d = filter (\<lambda>c. rule_for flt c = None) (compared_services before after flt)"
    and "df_suppressed d = List.map_filter (\<lambda>c. map_option (\<lambda>rule. \<lparr>su_rule = rule, su_change = c\<rparr>)
           (rule_for flt c)) (compared_services before after flt)"
    and "df_files d = compared_files before after flt"
    and "df_suppressed_files d = []"
    and "df_registry d = compared_registry before after"
    and "df_signers d = signer_counts (df_files d)"
    and "df_rebooted_between d = rebooted_between before after"
    and "df_emptied_directories d =
           fst (emptied_directories before after (compared_coverage before after) no_refiltered)"
    and "df_emptied_keys d =
           fst (emptied_keys before after (compared_coverage before after) no_refiltered)"
    and "df_formerly_empty_directories d =
           fst (emptied_directories after before (compared_coverage before after) no_refiltered)"
    and "df_formerly_empty_keys d =
           fst (emptied_keys after before (compared_coverage before after) no_refiltered)"
    and "df_format_version d = diff_format_version"
    and "df_intersection_of d = None"
    and "df_before_taken_utc d = sn_taken_utc before" and "df_after_taken_utc d = sn_taken_utc after"
proof -
  show none: "format_error before after = None"
    using assms by (cases "format_error before after") (simp_all add: compare_def)
  note unfolded = assms [unfolded compare_def none option.case Let_def split_beta, THEN Inr_inject]
  note parts = compared_coverage_def compared_services_def compared_files_def
    compared_registry_def compared_moved_files
  show "df_coverage d = compared_coverage before after"
    "df_services d = filter (\<lambda>c. rule_for flt c = None) (compared_services before after flt)"
    "df_suppressed d = List.map_filter (\<lambda>c. map_option (\<lambda>rule. \<lparr>su_rule = rule, su_change = c\<rparr>)
           (rule_for flt c)) (compared_services before after flt)"
    "df_rebooted_between d = rebooted_between before after"
    "df_format_version d = diff_format_version" "df_intersection_of d = None"
    "df_before_taken_utc d = sn_taken_utc before" "df_after_taken_utc d = sn_taken_utc after"
    unfolding unfolded [symmetric] by (simp_all add: parts)
  show "df_files d = compared_files before after flt" "df_suppressed_files d = []"
    "df_signers d = signer_counts (df_files d)"
    unfolding unfolded [symmetric]
    by (simp_all add: parts fst_compare_files [where rf = "no_refiltered\<lparr>rf_access_denied := _\<rparr>"])
  show "df_registry d = compared_registry before after"
    unfolding unfolded [symmetric] by (simp add: parts fst_compare_registry)
  show "df_emptied_directories d =
           fst (emptied_directories before after (compared_coverage before after) no_refiltered)"
    "df_formerly_empty_directories d =
           fst (emptied_directories after before (compared_coverage before after) no_refiltered)"
    unfolding unfolded [symmetric] by (simp_all add: parts, (subst fst_emptied_directories, simp)+)
  show "df_emptied_keys d =
           fst (emptied_keys before after (compared_coverage before after) no_refiltered)"
    "df_formerly_empty_keys d =
           fst (emptied_keys after before (compared_coverage before after) no_refiltered)"
    unfolding unfolded [symmetric] by (simp_all add: parts, (subst fst_emptied_keys, simp)+)
qed

section \<open>Nothing private\<close>

lemma clean_only_differing: "clean_record p r \<Longrightarrow> clean_record p (only_differing ns r)"
  by (auto simp: clean_record_def only_differing_def list_all_iff)

text \<open>Every record a registry change shows is one the policy would keep as it stands.\<close>

definition private_registry :: "policy \<Rightarrow> registry_change \<Rightarrow> bool" where
  "private_registry p c \<longleftrightarrow>
     pred_option (clean_record p) (rx_before c) \<and> pred_option (clean_record p) (rx_after c)"

definition private_diff :: "policy \<Rightarrow> diff \<Rightarrow> bool" where
  "private_diff p d \<longleftrightarrow>
     list_all (private_registry p) (df_registry d)
     \<and> list_all (\<lambda>c. \<not> is_excluded_path (fx_path c)) (df_files d)
     \<and> list_all (\<lambda>e. \<not> is_excluded_path (fx_path (sf_change e))) (df_suppressed_files d)
     \<and> pred_option (list_all (\<lambda>x. \<not> is_excluded_path x)) (df_emptied_directories d)
     \<and> pred_option (list_all (\<lambda>x. \<not> is_excluded_path x)) (df_formerly_empty_directories d)
     \<and> pred_option (list_all (\<lambda>k. \<not> is_excluded_key (kr_key k))) (df_emptied_keys d)
     \<and> pred_option (list_all (\<lambda>k. \<not> is_excluded_key (kr_key k))) (df_formerly_empty_keys d)
     \<and> list_all (\<lambda>a. \<not> denial_excluded a) (cv_access_denied (df_coverage d))"

lemma registry_change_of_private:
  assumes "registry_change_of old new = Some c"
    and "pred_option (clean_record p) old" and "pred_option (clean_record p) new"
  shows "private_registry p c"
  using assms clean_only_differing
  by (auto simp: registry_change_of_def private_registry_def registry_added_def registry_removed_def
      modification_Some(4,5) split: option.splits)

lemma compared_registry_private: "list_all (private_registry current_policy) (compared_registry before after)"
  using registry_atD
  by (force simp: compared_registry_def list_all_iff set_compare_registry option.pred_set
      intro!: registry_change_of_private [where p = current_policy])

lemma compared_files_private:
  "list_all (\<lambda>c. \<not> is_excluded_path (fx_path c)) (compared_files before after flt)"
proof -
  have "\<not> is_excluded_path (fx_path c)"
    if "file_change_of k (file_at xs k) (file_at ys k) = Some c" for k c xs ys
    using file_change_of_cases [OF that] by (auto dest: file_atD split: option.splits)
  then show ?thesis
    using files_compared by (force simp: compared_files_def list_all_iff)
qed

lemma emptied_directories_private:
  "pred_option (list_all (\<lambda>x. \<not> is_excluded_path x)) (fst (emptied_directories before after cov rf))"
  by (auto simp: emptied_directories_def Let_def list_all_iff split: option.splits)

lemma emptied_keys_private:
  "pred_option (list_all (\<lambda>k. \<not> is_excluded_key (kr_key k))) (fst (emptied_keys before after cov rf))"
  by (auto simp: emptied_keys_def Let_def list_all_iff split: option.splits)

lemma drop_excluded_denials_private:
  "list_all (\<lambda>a. \<not> denial_excluded a) (cv_access_denied (fst (drop_excluded_denials c)))"
  by (simp add: drop_excluded_denials_def Let_def list_all_iff)

lemma compared_diff_private: "compare before after flt = Inr d \<Longrightarrow> private_diff current_policy d"
  unfolding private_diff_def
  by (simp add: compare_Inr compared_registry_private compared_files_private
      emptied_directories_private emptied_keys_private compared_coverage_def
      drop_excluded_denials_private)

text \<open>
  Whatever the snapshots hold, a diff of them carries nothing the current policy refuses: no
  record or emptied key of an excluded registry subtree, no refused value, no excluded path
  among files and directories, and no denial naming one.
\<close>

theorem compare_private: "compare before after flt = Inr d \<Longrightarrow> private_diff current_policy d"
  by (rule compared_diff_private)

section \<open>Backwards\<close>

lemma reversed_kind_twice [simp]: "reversed_kind (reversed_kind k) = k"
  by (cases k) simp_all

lemma reversed_field_twice [simp]: "reversed_field (reversed_field f) = f"
  by (simp add: reversed_field_def)

text \<open>A change whose flags are those of its later record.\<close>

definition flagged_service :: "service_change \<Rightarrow> bool" where
  "flagged_service c \<longleftrightarrow>
     pred_option (\<lambda>r. sc_is_driver c = is_driver_service r \<and> sc_is_boot_start c = is_boot_start r)
       (later_record (sc_after c) (sc_before c))"

definition flagged_file :: "file_change \<Rightarrow> bool" where
  "flagged_file c \<longleftrightarrow> pred_option (\<lambda>r. fx_signer c = fr_signer r) (later_record (fx_after c) (fx_before c))"

lemma reversed_service_twice: "flagged_service c \<Longrightarrow> reversed_service (reversed_service c) = c"
  by (cases c) (auto simp: reversed_service_def flagged_service_def later_record_def Let_def comp_def
      split: option.splits)

lemma reversed_file_twice: "flagged_file c \<Longrightarrow> reversed_file (reversed_file c) = c"
  by (cases c) (auto simp: reversed_file_def flagged_file_def later_record_def comp_def split: option.splits)

lemma reversed_registry_twice [simp]: "reversed_registry (reversed_registry c) = c"
  by (cases c) (simp add: reversed_registry_def comp_def)

lemma service_change_of_flagged: "service_change_of k old new = Some c \<Longrightarrow> flagged_service c"
  by (auto simp: service_change_of_def flagged_service_def later_record_def Let_def
      split: option.splits if_splits)

lemma file_change_of_flagged: "file_change_of k old new = Some c \<Longrightarrow> flagged_file c"
  by (auto simp: file_change_of_def flagged_file_def later_record_def Let_def
      split: option.splits if_splits)

lemma compared_services_flagged: "c \<in> set (compared_services before after flt) \<Longrightarrow> flagged_service c"
  by (auto simp: compared_services_def compare_services_def Let_def set_joined
      dest: service_change_of_flagged split: if_splits)

lemma compared_files_flagged: "c \<in> set (compared_files before after flt) \<Longrightarrow> flagged_file c"
  using files_compared by (auto simp: compared_files_def dest: file_change_of_flagged split: if_splits)

lemma map_filter_cong: "(\<And>x. x \<in> set xs \<Longrightarrow> f x = g x) \<Longrightarrow> List.map_filter f xs = List.map_filter g xs"
  by (induction xs) (auto simp: List.map_filter_simps split: option.splits)

text \<open>
  Reading a diff backwards twice gives the diff back.
\<close>

theorem reversed_involutive:
  assumes "compare before after flt = Inr d"
  shows "reversed (reversed d) = d"
proof -
  have services: "map (reversed_service \<circ> reversed_service) (df_services d) = df_services d"
    by (rule map_idI) (auto simp: compare_Inr [OF assms] reversed_service_twice compared_services_flagged)
  have files: "map (reversed_file \<circ> reversed_file) (df_files d) = df_files d"
    by (rule map_idI) (auto simp: compare_Inr [OF assms] reversed_file_twice compared_files_flagged)
  have moved: "map ((\<lambda>e. \<lparr>su_rule = su_rule e, su_change = reversed_service (su_change e)\<rparr>)
      \<circ> (\<lambda>e. \<lparr>su_rule = su_rule e, su_change = reversed_service (su_change e)\<rparr>)) (df_suppressed d)
      = df_suppressed d"
    by (rule map_idI)
      (auto simp: compare_Inr [OF assms] reversed_service_twice compared_services_flagged)
  have registry: "map (reversed_registry \<circ> reversed_registry) (df_registry d) = df_registry d"
    by (simp add: comp_def)
  show ?thesis
    using services files moved registry compare_Inr(6,8) [OF assms]
    by (cases d) (simp add: reversed_def Let_def)
qed

lemma field_diff_swap: "field_diff n new old = map reversed_field (field_diff n old new)"
  by (simp add: field_diff_def reversed_field_def)

lemma field_changes_swap: "field_changes new old = map reversed_field (field_changes old new)"
  unfolding field_changes_def map_append by (simp only: field_diff_swap [symmetric])

lemma file_field_changes_swap:
  "file_field_changes new old = map reversed_field (file_field_changes old new)"
proof -
  let ?parts = "\<lambda>old new. field_diff ''size'' (decimal (unat (fr_size old))) (decimal (unat (fr_size new)))
        @ field_diff ''sha256'' (case fr_sha256 old of None \<Rightarrow> [] | Some h \<Rightarrow> h)
            (case fr_sha256 new of None \<Rightarrow> [] | Some h \<Rightarrow> h)
        @ field_diff ''signer'' (case fr_signer old of None \<Rightarrow> [] | Some s \<Rightarrow> s)
            (case fr_signer new of None \<Rightarrow> [] | Some s \<Rightarrow> s)"
  have parts: "?parts new old = map reversed_field (?parts old new)"
    unfolding map_append by (simp only: field_diff_swap [symmetric])
  show ?thesis
    unfolding file_field_changes_def Let_def parts
    by (simp add: field_diff_swap [of "''modified_utc''" "fr_modified_utc new"])
qed

lemma service_change_of_swap:
  "service_change_of k new old = map_option reversed_service (service_change_of k old new)"
proof (cases "\<exists>r s. old = Some r \<and> new = Some s")
  case True
  then obtain r s where "old = Some r" "new = Some s" by blast
  then show ?thesis
    by (simp add: service_change_of_def reversed_service_def later_record_def Let_def
        field_changes_swap [of s r])
next
  case False
  then show ?thesis
    by (auto simp: service_change_of_def reversed_service_def later_record_def split: option.splits)
qed

lemma compare_services_swap:
  "compare_services after before flt = map reversed_service (compare_services before after flt)"
proof -
  have "ordered_set (crowded_names flt after @ crowded_names flt before)
      = ordered_set (crowded_names flt before @ crowded_names flt after)"
    by (rule ordered_set_eqI) auto
  then show ?thesis
    unfolding compare_services_def Let_def map_joined
    by (simp only:) (rule joined_flip, rule service_change_of_swap)
qed

text \<open>A file or key change without the letter case its path or key is spelled in.\<close>

definition fold_file :: "file_change \<Rightarrow> file_change" where
  "fold_file c = c\<lparr>fx_path := to_ascii_lowercase (fx_path c)\<rparr>"

definition fold_registry :: "registry_change \<Rightarrow> registry_change" where
  "fold_registry c = c\<lparr>rx_key := to_ascii_lowercase (rx_key c)\<rparr>"

lemma file_change_of_swap:
  assumes "\<And>r. old = Some r \<Longrightarrow> to_ascii_lowercase (fr_path r) = k"
    and "\<And>r. new = Some r \<Longrightarrow> to_ascii_lowercase (fr_path r) = k"
  shows "map_option fold_file (file_change_of k new old)
    = map_option (fold_file \<circ> reversed_file) (file_change_of k old new)"
proof (cases "\<exists>r s. old = Some r \<and> new = Some s")
  case True
  then obtain r s where "old = Some r" "new = Some s" by blast
  with assms show ?thesis
    by (simp add: file_change_of_def reversed_file_def later_record_def Let_def fold_file_def
        is_driver_image_def file_field_changes_swap [of s r])
next
  case False
  then show ?thesis
    by (auto simp: file_change_of_def reversed_file_def later_record_def split: option.splits)
qed

lemma differing_names_swap: "differing_names new old = differing_names old new"
proof -
  have "ordered_set (map fst (comparables new) @ map fst (comparables old))
      = ordered_set (map fst (comparables old) @ map fst (comparables new))"
    by (rule ordered_set_eqI) auto
  then show ?thesis by (simp add: differing_names_def eq_commute)
qed

lemma registry_change_of_swap:
  assumes "\<And>r. old = Some r \<Longrightarrow> registry_identity_of r = k"
    and "\<And>r. new = Some r \<Longrightarrow> registry_identity_of r = k"
  shows "map_option fold_registry (registry_change_of new old)
    = map_option (fold_registry \<circ> reversed_registry) (registry_change_of old new)"
proof (cases "\<exists>r s. old = Some r \<and> new = Some s")
  case True
  then obtain r s where rs: "old = Some r" "new = Some s" by blast
  have "value_field s r n = reversed_field (value_field r s n)" for n
    by (simp add: value_field_def reversed_field_def)
  moreover have "to_ascii_lowercase (rr_key r) = to_ascii_lowercase (rr_key s)" "rr_view r = rr_view s"
    using rs assms by (auto simp: registry_identity_of_def)
  ultimately show ?thesis
    by (simp add: rs registry_change_of_def modification_def value_differences_def
        reversed_registry_def Let_def fold_registry_def differing_names_swap [of s r] comp_def)
next
  case False
  then show ?thesis
    by (auto simp: registry_change_of_def reversed_registry_def registry_added_def
        registry_removed_def split: option.splits)
qed

lemma compare_files_swap:
  "map fold_file (fst (fst (compare_files after before flt rf)))
    = map (fold_file \<circ> reversed_file) (fst (fst (compare_files before after flt rf)))"
  unfolding compare_files_eq fst_conv map_joined
  by (rule joined_flip, rule file_change_of_swap) (auto dest: file_atD)

lemma compare_registry_swap:
  "map fold_registry (fst (compare_registry after before p rf))
    = map (fold_registry \<circ> reversed_registry) (fst (compare_registry before after p rf))"
  unfolding fst_compare_registry map_joined
  by (rule joined_flip, rule registry_change_of_swap) (auto dest: index_by_Some)

lemma abs_diff_commute: "abs_diff a b = abs_diff b a"
  by (auto simp: abs_diff_def)

lemma rebooted_between_swap: "rebooted_between after before = rebooted_between before after"
  by (simp add: rebooted_between_def abs_diff_commute split: option.splits)

lemma covers_compared: "covers_domain (compared_coverage before after) x
    \<longleftrightarrow> covers_domain (sn_coverage before) x \<and> covers_domain (sn_coverage after) x"
proof -
  have "covers_domain (fst (drop_excluded_denials c)) x = covers_domain c x" for c
    by (simp add: drop_excluded_denials_def covers_domain_def Let_def)
  then show ?thesis by (simp add: compared_coverage_def)
qed

lemma format_error_swap: "format_error before after = None \<Longrightarrow> format_error after before = None"
  by (auto simp: format_error_def split: if_splits option.splits)

lemma emptied_directories_cov:
  "(\<And>x. covers_domain c x = covers_domain c' x) \<Longrightarrow>
     emptied_directories before after c rf = emptied_directories before after c' rf"
  by (simp add: emptied_directories_def)

lemma emptied_keys_cov:
  "(\<And>x. covers_domain c x = covers_domain c' x) \<Longrightarrow>
     emptied_keys before after c rf = emptied_keys before after c' rf"
  by (simp add: emptied_keys_def)

lemma rule_for_reversed [simp]: "rule_for flt (reversed_service c) = rule_for flt c"
  by (simp add: rule_for_def reversed_service_def Let_def)

text \<open>
  Reading a diff backwards is comparing the two snapshots the other way round: the same
  services, restart and emptied lists, and the same files and keys up to the letter case a path
  or key that kept its name was spelled in.
\<close>

theorem reversed_is_swapped:
  assumes "compare before after flt = Inr d"
  shows "\<exists>e. compare after before flt = Inr e
    \<and> df_services e = df_services (reversed d) \<and> df_suppressed e = df_suppressed (reversed d)
    \<and> map fold_file (df_files e) = map fold_file (df_files (reversed d))
    \<and> map fold_registry (df_registry e) = map fold_registry (df_registry (reversed d))
    \<and> df_rebooted_between e = df_rebooted_between (reversed d)
    \<and> df_emptied_directories e = df_emptied_directories (reversed d)
    \<and> df_formerly_empty_directories e = df_formerly_empty_directories (reversed d)
    \<and> df_emptied_keys e = df_emptied_keys (reversed d)
    \<and> df_formerly_empty_keys e = df_formerly_empty_keys (reversed d)
    \<and> df_before_taken_utc e = df_before_taken_utc (reversed d)
    \<and> df_after_taken_utc e = df_after_taken_utc (reversed d)"
proof -
  have "format_error after before = None"
    by (rule format_error_swap) (rule compare_Inr(1) [OF assms])
  then obtain e where e: "compare after before flt = Inr e"
    by (simp add: compare_def Let_def split_beta)
  have cov: "covers_domain (compared_coverage after before) x
      = covers_domain (compared_coverage before after) x" for x
    by (auto simp: covers_compared)
  have services: "compared_services after before flt = map reversed_service (compared_services before after flt)"
    by (simp add: compared_services_def cov
        compare_services_swap [of "sn_services after" "sn_services before"])
  have files: "map fold_file (compared_files after before flt)
      = map (fold_file \<circ> reversed_file) (compared_files before after flt)"
    by (simp add: compared_files_def cov
        compare_files_swap [of "sn_files after" "sn_files before"])
  have registry: "map fold_registry (compared_registry after before)
      = map (fold_registry \<circ> reversed_registry) (compared_registry before after)"
    by (simp add: compared_registry_def cov
        compare_registry_swap [of "sn_registry after" "sn_registry before"])
  have moved: "List.map_filter (\<lambda>c. map_option (\<lambda>rule. \<lparr>su_rule = rule, su_change = c\<rparr>) (rule_for flt c))
        (map reversed_service cs)
      = map (\<lambda>e. \<lparr>su_rule = su_rule e, su_change = reversed_service (su_change e)\<rparr>)
          (List.map_filter (\<lambda>c. map_option (\<lambda>rule. \<lparr>su_rule = rule, su_change = c\<rparr>) (rule_for flt c)) cs)"
    for cs
    by (induction cs) (auto simp: List.map_filter_simps split: option.splits)
  have kept: "filter (\<lambda>c. rule_for flt c = None) (map reversed_service cs)
      = map reversed_service (filter (\<lambda>c. rule_for flt c = None) cs)" for cs
    by (induction cs) auto
  note E = compare_Inr [OF e] and D = compare_Inr [OF assms]
  have "df_services e = df_services (reversed d)"
    "df_suppressed e = df_suppressed (reversed d)"
    by (simp_all add: reversed_def Let_def E(3,4) D(3,4) services moved kept)
  moreover have "map fold_file (df_files e) = map fold_file (df_files (reversed d))"
    "map fold_registry (df_registry e) = map fold_registry (df_registry (reversed d))"
    using files registry by (simp_all add: reversed_def Let_def E(5,7) D(5,7))
  moreover have "df_emptied_directories e = df_emptied_directories (reversed d)"
    "df_formerly_empty_directories e = df_formerly_empty_directories (reversed d)"
    "df_emptied_keys e = df_emptied_keys (reversed d)"
    "df_formerly_empty_keys e = df_formerly_empty_keys (reversed d)"
    by (simp_all add: reversed_def Let_def E(10-13) D(10-13) emptied_directories_cov [OF cov]
        emptied_keys_cov [OF cov])
  moreover have "df_rebooted_between e = df_rebooted_between (reversed d)"
    "df_before_taken_utc e = df_before_taken_utc (reversed d)"
    "df_after_taken_utc e = df_after_taken_utc (reversed d)"
    by (simp_all add: reversed_def Let_def E(9,16,17) D(9,16,17) rebooted_between_swap)
  ultimately show ?thesis using e by blast
qed

section \<open>Examples\<close>

definition plain_service :: "string \<Rightarrow> string \<Rightarrow> service_record" where
  "plain_service name start =
     \<lparr>sv_name = name, sv_display_name = name, sv_service_type = ''kernel_driver'',
      sv_start_type = start, sv_error_control = ''normal'', sv_binary_path = [],
      sv_load_order_group = [], sv_start_name = [], sv_dependencies = [], sv_description = [],
      sv_delayed_auto_start = False\<rparr>"

definition plain_file :: "string \<Rightarrow> nat \<Rightarrow> file_record" where
  "plain_file path n =
     \<lparr>fr_path = win path, fr_size = of_nat n, fr_modified_utc = [], fr_sha256 = None,
      fr_signer = None, fr_not_hashed = None\<rparr>"

definition plain_snapshot :: "service_record list \<Rightarrow> file_record list \<Rightarrow> registry_record list \<Rightarrow> snapshot" where
  "plain_snapshot services files records =
     \<lparr>sn_format_version = 2, sn_taken_utc = [], sn_domain_started_utc = [], sn_boot_session = None,
      sn_harness_version = [], sn_label = [],
      sn_coverage = \<lparr>cv_captured = all_domains, cv_not_captured = [], cv_access_denied = []\<rparr>,
      sn_services = services, sn_files = files, sn_registry = records, sn_registry_policy = None,
      sn_filesystem_policy = None, sn_file_empty_directories = None, sn_registry_empty_keys = None\<rparr>"

text \<open>
  A per-user instance of a template that has a suffix of its own takes the index key of an
  instance that kept its full name, and one of the two services is lost.
\<close>

lemma service_dropped_without_trace:
  "map sc_name (compare_services
     [plain_service ''Svc_abcd'' ''boot'', plain_service ''Svc_ffff'' ''boot'',
      plain_service ''Svc_abcd_1234'' ''boot''] [] standard_filter) = [''Svc_abcd'', ''Svc_ffff'']"
  by code_simp

theorem services_none_dropped_witness:
  "\<exists>c \<in> set (compare_services [plain_service ''vgk'' ''system''] [plain_service ''vgk'' ''demand'']
       standard_filter). sc_before c = Some (plain_service ''vgk'' ''system'')"
proof -
  have "distinct (map sv_name [plain_service ''vgk'' ''system''])"
    "distinct (map sv_name [plain_service ''vgk'' ''demand''])"
    "list_all (stable_name standard_filter)
       ([plain_service ''vgk'' ''system''] @ [plain_service ''vgk'' ''demand''])"
    "field_changes (plain_service ''vgk'' ''system'') (plain_service ''vgk'' ''demand'') \<noteq> []"
    by code_simp+
  with services_none_dropped [of "[plain_service ''vgk'' ''system'']" "[plain_service ''vgk'' ''demand'']"
      standard_filter "plain_service ''vgk'' ''system''"]
  show ?thesis by auto
qed

definition plain_value :: "string \<Rightarrow> string \<Rightarrow> registry_value" where
  "plain_value name data =
     \<lparr>rv_name = name, rv_kind = ''sz'', rv_data = data, rv_oversized_bytes = None\<rparr>"

definition plain_record :: "string \<Rightarrow> registry_value list \<Rightarrow> registry_record" where
  "plain_record key vs = \<lparr>rr_key = win key, rr_view = ''64'', rr_values = vs\<rparr>"

definition sample_before :: snapshot where
  "sample_before =
     plain_snapshot [plain_service ''vgk'' ''system''] [plain_file ''C:/x/vgk.sys'' 8]
       [plain_record ''HKLM/SOFTWARE/Vgk'' [plain_value ''Hostname'' ''me'', plain_value ''Path'' ''a'']]"

definition sample_after :: snapshot where
  "sample_after =
     plain_snapshot [plain_service ''vgk'' ''demand''] [plain_file ''C:/x/VGK.sys'' 9]
       [plain_record ''HKLM/SOFTWARE/Vgk'' [plain_value ''Hostname'' ''you'', plain_value ''Path'' ''b''],
        plain_record ''HKLM/SOFTWARE/Microsoft/Cryptography'' [plain_value ''x'' ''y'']]"

lemma sample_compared:
  "\<exists>d. compare sample_before sample_after standard_filter = Inr d
     \<and> df_registry d \<noteq> [] \<and> df_services d \<noteq> [] \<and> df_files d \<noteq> []"
proof -
  have "case compare sample_before sample_after standard_filter of
      Inl _ \<Rightarrow> False | Inr d \<Rightarrow> df_registry d \<noteq> [] \<and> df_services d \<noteq> [] \<and> df_files d \<noteq> []"
    by code_simp
  then show ?thesis by (cases "compare sample_before sample_after standard_filter") auto
qed

theorem compare_private_witness:
  "\<exists>d. compare sample_before sample_after standard_filter = Inr d \<and> df_registry d \<noteq> []
     \<and> private_diff current_policy d"
  using sample_compared compare_private [of sample_before sample_after standard_filter] by blast

theorem reversed_involutive_witness:
  "\<exists>d. compare sample_before sample_after standard_filter = Inr d \<and> df_services d \<noteq> []
     \<and> reversed (reversed d) = d"
  using sample_compared reversed_involutive [of sample_before sample_after standard_filter] by blast

theorem reversed_is_swapped_witness:
  "\<exists>d e. compare sample_before sample_after standard_filter = Inr d \<and> df_files d \<noteq> []
     \<and> compare sample_after sample_before standard_filter = Inr e
     \<and> df_services e = df_services (reversed d)"
  using sample_compared reversed_is_swapped [of sample_before sample_after standard_filter] by blast

theorem registry_compared_witness:
  "map rv_name (rr_values (the (rx_after (the (modification
      (plain_record ''HKLM/SOFTWARE/Vgk'' [plain_value ''a'' ''1'', plain_value ''b'' ''2''])
      (plain_record ''HKLM/SOFTWARE/Vgk'' [plain_value ''a'' ''1'', plain_value ''b'' ''3'']))))))
   = [''b'']"
proof -
  let ?old = "plain_record ''HKLM/SOFTWARE/Vgk'' [plain_value ''a'' ''1'', plain_value ''b'' ''2'']"
  let ?new = "plain_record ''HKLM/SOFTWARE/Vgk'' [plain_value ''a'' ''1'', plain_value ''b'' ''3'']"
  have "modification ?old ?new \<noteq> None" by code_simp
  then obtain m where m: "modification ?old ?new = Some m" by blast
  have "map rv_name (filter (\<lambda>v. map_of (comparables ?old) (rv_name v) \<noteq> map_of (comparables ?new) (rv_name v))
      (rr_values ?new)) = [''b'']" by code_simp
  moreover obtain now where "rx_after m = Some now" and "rr_values now
      = filter (\<lambda>v. map_of (comparables ?old) (rv_name v) \<noteq> map_of (comparables ?new) (rv_name v)) (rr_values ?new)"
    using registry_compared [where old = ?old and new = ?new and m = m] m by blast
  ultimately show ?thesis by (simp only: m option.sel)
qed

end
