(* ===== verification/Obs_Refilter.thy ===== *)
theory Obs_Refilter
  imports Obs_Compare
begin

text \<open>
  Bringing a diff that already exists under the current policy and format: \<open>refilter\<close> of
  \<open>tools/observe/src/diff.rs\<close>.  What it leaves is private, and a private diff of the current
  format it leaves alone.
\<close>

section \<open>Definitions\<close>

definition flatten_options :: "'a option list \<Rightarrow> 'a list" where
  "flatten_options = List.map_filter (\<lambda>x. x)"

definition untouched :: "policy \<Rightarrow> registry_change \<Rightarrow> bool" where
  "untouched p c \<longleftrightarrow>
     list_all (\<lambda>r. case am_record (admit p r) of Some (Borrowed _) \<Rightarrow> True | _ \<Rightarrow> False)
       (flatten_options [rx_before c, rx_after c])"

definition admit_owned ::
    "policy \<Rightarrow> registry_record option \<Rightarrow> refiltered \<Rightarrow> registry_record option \<times> refiltered" where
  "admit_owned p r report =
     (case r of
        None \<Rightarrow> (None, report)
      | Some r \<Rightarrow>
          let a = admit p r;
              report = report\<lparr>rf_registry_values := rf_registry_values report + am_refused_values a\<rparr>
          in case am_record a of
               None \<Rightarrow> (None, report\<lparr>rf_registry_records := Suc (rf_registry_records report)\<rparr>)
             | Some (Borrowed _) \<Rightarrow> (Some r, report)
             | Some (Owned owned) \<Rightarrow> (Some owned, report))"

definition refilter_change ::
    "policy \<Rightarrow> bool \<Rightarrow> registry_change \<Rightarrow> registry_change list \<times> refiltered
       \<Rightarrow> registry_change list \<times> refiltered" where
  "refilter_change p upgrading c st =
     (let (kept, report) = st
      in if \<not> upgrading \<and> untouched p c then (kept @ [c], report)
         else
           let (before, report) = admit_owned p (rx_before c) report;
               (after, report) = admit_owned p (rx_after c) report
           in (kept @ flatten_options [registry_change_of before after], report))"

definition retain_keys :: "reg_key_ref list option \<Rightarrow> reg_key_ref list option \<times> nat" where
  "retain_keys known =
     (case known of
        None \<Rightarrow> (None, 0)
      | Some ks \<Rightarrow>
          let kept = filter (\<lambda>k. \<not> is_excluded_key (kr_key k)) ks
          in (Some kept, length ks - length kept))"

definition retain_directories :: "string list option \<Rightarrow> string list option \<times> nat" where
  "retain_directories known =
     (case known of
        None \<Rightarrow> (None, 0)
      | Some ds \<Rightarrow>
          let kept = filter (\<lambda>d. \<not> is_excluded_path d) ds
          in (Some kept, length ds - length kept))"

text \<open>The records an excluded file change held.\<close>

definition records_held :: "file_change \<Rightarrow> nat" where
  "records_held c =
     (if is_excluded_path (fx_path c)
      then (if fx_before c = None then 0 else 1) + (if fx_after c = None then 0 else 1)
      else 0)"

definition drop_excluded_files :: "diff \<Rightarrow> diff \<times> nat" where
  "drop_excluded_files d =
     (let dropped = sum_list (map records_held (df_files d))
                    + sum_list (map (\<lambda>e. records_held (sf_change e)) (df_suppressed_files d));
          files = filter (\<lambda>c. \<not> is_excluded_path (fx_path c)) (df_files d);
          moved = filter (\<lambda>e. \<not> is_excluded_path (fx_path (sf_change e))) (df_suppressed_files d)
      in (d\<lparr>df_files := files, df_suppressed_files := moved,
            df_signers := (if 0 < dropped then signer_counts files else df_signers d)\<rparr>, dropped))"

definition refilter :: "diff \<Rightarrow> policy \<Rightarrow> diff \<times> refiltered" where
  "refilter d p =
     (let (cov, denied) = drop_excluded_denials (df_coverage d);
          (emptied, n1) = retain_keys (df_emptied_keys d);
          (formerly, n2) = retain_keys (df_formerly_empty_keys d);
          (directories, n3) = retain_directories (df_emptied_directories d);
          (formerly_directories, n4) = retain_directories (df_formerly_empty_directories d);
          (d', files) = drop_excluded_files d;
          report = no_refiltered\<lparr>rf_access_denied := denied, rf_emptied_keys := n1 + n2,
                     rf_emptied_directories := n3 + n4, rf_files := files\<rparr>;
          upgrading = (df_format_version d \<noteq> diff_format_version);
          (registry, report) = fold (refilter_change p upgrading) (df_registry d) ([], report)
      in (d'\<lparr>df_coverage := cov, df_emptied_keys := emptied, df_formerly_empty_keys := formerly,
            df_emptied_directories := directories,
            df_formerly_empty_directories := formerly_directories,
            df_registry := registry, df_format_version := diff_format_version,
            df_refiltered := absorb (df_refiltered d) report\<rparr>, report))"

section \<open>Registry changes one by one\<close>

lemma flatten_options_simps [simp]:
  "flatten_options [] = []"
  "flatten_options (None # xs) = flatten_options xs"
  "flatten_options (Some x # xs) = x # flatten_options xs"
  by (simp_all add: flatten_options_def List.map_filter_simps)

lemma untouched_private: "untouched p c \<longleftrightarrow> private_registry p c"
proof -
  have "(case am_record (admit p r) of Some (Borrowed _) \<Rightarrow> True | _ \<Rightarrow> False) \<longleftrightarrow> clean_record p r" for r
  proof (cases "clean_record p r")
    case True
    then show ?thesis by (simp add: admit_of_clean)
  next
    case False
    then have "am_record (admit p r) \<noteq> Some (Borrowed r')" for r' by (simp add: admit_Borrowed)
    with False show ?thesis by (simp split: option.splits cow.splits)
  qed
  then show ?thesis
    by (cases "rx_before c"; cases "rx_after c") (simp_all add: untouched_def private_registry_def)
qed

definition admitted_side :: "policy \<Rightarrow> registry_record option \<Rightarrow> registry_record option" where
  "admitted_side p r = Option.bind r (\<lambda>r. map_option cow_value (am_record (admit p r)))"

lemma fst_admit_owned: "fst (admit_owned p r report) = admitted_side p r"
proof (cases r)
  case (Some q)
  then show ?thesis
    using admit_Borrowed [of p q]
    by (auto simp: admit_owned_def admitted_side_def Let_def split: option.splits cow.splits)
qed (simp add: admit_owned_def admitted_side_def)

definition rebuilt :: "policy \<Rightarrow> bool \<Rightarrow> registry_change \<Rightarrow> registry_change list" where
  "rebuilt p upgrading c =
     (if \<not> upgrading \<and> untouched p c then [c]
      else flatten_options
             [registry_change_of (admitted_side p (rx_before c)) (admitted_side p (rx_after c))])"

lemma fst_refilter_change: "fst (refilter_change p u c st) = fst st @ rebuilt p u c"
  by (simp add: refilter_change_def rebuilt_def split_beta Let_def fst_admit_owned)

lemma fst_fold_refilter: "fst (fold (refilter_change p u) cs st) = fst st @ concat (map (rebuilt p u) cs)"
  by (induction cs arbitrary: st) (simp_all add: fst_refilter_change)

lemma admitted_side_clean: "pred_option (clean_record p) (admitted_side p r)"
  by (cases r) (auto simp: admitted_side_def option.pred_set dest!: admit_value)

lemma rebuilt_private: "list_all (private_registry p) (rebuilt p u c)"
proof -
  have "list_all (private_registry p) (flatten_options [registry_change_of old new])"
    if "pred_option (clean_record p) old" "pred_option (clean_record p) new" for old new
    using registry_change_of_private [OF _ that]
    by (cases "registry_change_of old new") simp_all
  then show ?thesis by (simp add: rebuilt_def untouched_private admitted_side_clean)
qed

lemma fold_refilter_untouched:
  "list_all (private_registry p) cs \<Longrightarrow>
     fold (refilter_change p False) cs (kept, report) = (kept @ cs, report)"
  by (induction cs arbitrary: kept) (simp_all add: refilter_change_def untouched_private)

section \<open>The whole diff\<close>

lemma retain_keys_private:
  "pred_option (list_all (\<lambda>k. \<not> is_excluded_key (kr_key k))) (fst (retain_keys ks))"
  "pred_option (list_all (\<lambda>k. \<not> is_excluded_key (kr_key k))) ks \<Longrightarrow> retain_keys ks = (ks, 0)"
  by (cases ks; simp add: retain_keys_def Let_def list_all_iff filter_id_conv)+

lemma retain_directories_private:
  "pred_option (list_all (\<lambda>d. \<not> is_excluded_path d)) (fst (retain_directories ds))"
  "pred_option (list_all (\<lambda>d. \<not> is_excluded_path d)) ds \<Longrightarrow> retain_directories ds = (ds, 0)"
  by (cases ds; simp add: retain_directories_def Let_def list_all_iff filter_id_conv)+

lemma drop_excluded_denials_none:
  "list_all (\<lambda>a. \<not> denial_excluded a) (cv_access_denied c) \<Longrightarrow> drop_excluded_denials c = (c, 0)"
  by (simp add: drop_excluded_denials_def Let_def list_all_iff filter_id_conv)

lemma drop_excluded_files_none:
  assumes "list_all (\<lambda>c. \<not> is_excluded_path (fx_path c)) (df_files d)"
    and "list_all (\<lambda>e. \<not> is_excluded_path (fx_path (sf_change e))) (df_suppressed_files d)"
  shows "drop_excluded_files d = (d, 0)"
proof -
  have sums: "sum_list (map records_held (df_files d)) = 0"
    "sum_list (map (\<lambda>e. records_held (sf_change e)) (df_suppressed_files d)) = 0"
    using assms by (simp_all add: list_all_iff records_held_def)
  have "filter (\<lambda>c. \<not> is_excluded_path (fx_path c)) (df_files d) = df_files d"
    "filter (\<lambda>e. \<not> is_excluded_path (fx_path (sf_change e))) (df_suppressed_files d) = df_suppressed_files d"
    using assms by (simp_all add: list_all_iff filter_id_conv)
  then show ?thesis unfolding drop_excluded_files_def Let_def sums by simp
qed

lemma refilter_private: "private_diff p (fst (refilter d p))"
proof -
  have "list_all (private_registry p) (concat (map (rebuilt p u) cs))" for u cs
    using rebuilt_private by (induction cs) (auto simp: list_all_append)
  moreover have "list_all (\<lambda>c. \<not> is_excluded_path (fx_path c)) (df_files (fst (drop_excluded_files d)))"
    "list_all (\<lambda>e. \<not> is_excluded_path (fx_path (sf_change e)))
       (df_suppressed_files (fst (drop_excluded_files d)))"
    by (simp_all add: drop_excluded_files_def Let_def list_all_iff)
  ultimately show ?thesis
    by (simp add: private_diff_def refilter_def split_beta Let_def fst_fold_refilter
        retain_keys_private retain_directories_private drop_excluded_denials_private)
qed

lemma refilter_format: "df_format_version (fst (refilter d p)) = diff_format_version"
  by (simp add: refilter_def split_beta Let_def)

lemma absorb_nothing [simp]: "absorb r no_refiltered = r"
  by (cases r) (simp add: absorb_def no_refiltered_def)

lemma refilter_of_private:
  assumes "private_diff p d" and "df_format_version d = diff_format_version"
  shows "refilter d p = (d, no_refiltered)"
proof -
  have report: "no_refiltered\<lparr>rf_access_denied := 0, rf_emptied_keys := 0 + 0,
      rf_emptied_directories := 0 + 0, rf_files := 0\<rparr> = no_refiltered"
    by (simp add: no_refiltered_def)
  have parts: "drop_excluded_denials (df_coverage d) = (df_coverage d, 0)"
    "retain_keys (df_emptied_keys d) = (df_emptied_keys d, 0)"
    "retain_keys (df_formerly_empty_keys d) = (df_formerly_empty_keys d, 0)"
    "retain_directories (df_emptied_directories d) = (df_emptied_directories d, 0)"
    "retain_directories (df_formerly_empty_directories d) = (df_formerly_empty_directories d, 0)"
    "drop_excluded_files d = (d, 0)"
    "fold (refilter_change p False) (df_registry d) ([], no_refiltered) = (df_registry d, no_refiltered)"
    using assms(1)
    by (simp_all add: private_diff_def drop_excluded_denials_none retain_keys_private
        retain_directories_private drop_excluded_files_none fold_refilter_untouched)
  show ?thesis
    unfolding refilter_def parts Let_def prod.case report assms(2)
    by (simp add: parts(7)) (simp add: assms(2)[symmetric])
qed

text \<open>
  Refiltering any diff leaves nothing the policy refuses, and refiltering again changes
  nothing and counts nothing; neither does refiltering what a comparison produced.
\<close>

theorem refilter_idempotent:
  "private_diff p (fst (refilter d p))
   \<and> refilter (fst (refilter d p)) p = (fst (refilter d p), no_refiltered)
   \<and> (compare before after flt = Inr e \<longrightarrow> refilter e current_policy = (e, no_refiltered))"
  using refilter_private refilter_format refilter_of_private compared_diff_private compare_Inr(14) by blast

theorem refilter_idempotent_witness:
  "\<exists>d. compare sample_before sample_after standard_filter = Inr d \<and> df_registry d \<noteq> []
     \<and> refilter d current_policy = (d, no_refiltered)"
  using sample_compared refilter_idempotent [where before = sample_before and after = sample_after
      and flt = standard_filter] by blast

end
