(* ===== verification/Obs_Intersect.thy ===== *)
theory Obs_Intersect
  imports Obs_Refilter
begin

text \<open>
  What several footprints have in common, \<open>tools/observe/src/intersect.rs\<close>: the changes every
  footprint holds, matched by identity and never by content, as a diff.
\<close>

section \<open>Definitions\<close>

datatype intersect_error =
  TooFew nat
  | DifferingFormats "32 word list"
  | Repeated string
  | Nested

definition intersect_error_text :: "intersect_error \<Rightarrow> string" where
  "intersect_error_text e =
     (case e of
        TooFew count \<Rightarrow>
          ''an intersection needs at least two footprints, and '' @ decimal count @ '' was given''
      | DifferingFormats formats \<Rightarrow>
          ''the footprints come from snapshot formats {''
          @ join_with '', '' (map (\<lambda>f. decimal (unat f)) formats)
          @ ''}, which record different things; intersect footprints whose snapshots were taken with one build''
      | Repeated before_taken_utc \<Rightarrow>
          ''the footprint whose earlier snapshot was taken at '' @ before_taken_utc
          @ '' was given more than once, which would count one title as two''
      | Nested \<Rightarrow>
          ''a footprint is itself an intersection; intersect the footprints it came from instead, so each title counts once'')"

definition folded :: "string \<Rightarrow> string" where
  "folded s = to_ascii_lowercase s"

definition service_identity :: "service_change \<Rightarrow> string" where
  "service_identity c = folded (sc_name c)"

definition file_identity :: "file_change \<Rightarrow> string" where
  "file_identity c = folded (fx_path c)"

definition registry_identity :: "registry_change \<Rightarrow> string" where
  "registry_identity c = folded (rx_key c) @ [CHR 0x00] @ rx_view c"

definition key_identity :: "reg_key_ref \<Rightarrow> string" where
  "key_identity k = folded (kr_key k) @ [CHR 0x00] @ kr_view k"

definition indexed_side ::
    "('t \<Rightarrow> string) \<Rightarrow> ('s \<Rightarrow> 't) \<Rightarrow> 't list \<times> 's list
       \<Rightarrow> (string \<times> 't) list \<times> (string \<times> 's) list" where
  "indexed_side identity change_of side =
     (index_by identity (fst side), index_by (\<lambda>e. identity (change_of e)) (snd side))"

definition shared ::
    "('t list \<times> 's list) list \<Rightarrow> ('t \<Rightarrow> string) \<Rightarrow> ('s \<Rightarrow> 't) \<Rightarrow> 't list \<times> 's list" where
  "shared sides identity change_of =
     (let indexed = map (indexed_side identity change_of) sides
      in case indexed of
           [] \<Rightarrow> ([], [])
         | (first_kept, first_suppressed) # _ \<Rightarrow>
             let candidates = ordered_set (map fst first_kept @ map fst first_suppressed);
                 everywhere = (\<lambda>key. list_all (\<lambda>(kept, suppressed).
                   map_of kept key \<noteq> None \<or> map_of suppressed key \<noteq> None) indexed);
                 kept_at = (\<lambda>key. find_map (\<lambda>(kept, _). map_of kept key) indexed)
             in (List.map_filter (\<lambda>key. if everywhere key then kept_at key else None) candidates,
                 List.map_filter (\<lambda>key. if everywhere key \<and> kept_at key = None
                                        then map_of first_suppressed key else None) candidates))"

definition shared_list :: "'a list option list \<Rightarrow> ('a \<Rightarrow> string) \<Rightarrow> 'a list option" where
  "shared_list known identity =
     (if None \<in> set known then None
      else case flatten_options known of
             [] \<Rightarrow> None
           | first # rest \<Rightarrow>
               Some (filter (\<lambda>entry. list_all (\<lambda>other. identity entry \<in> set (map identity other)) rest) first))"

definition rebooted_in_any :: "diff list \<Rightarrow> bool option" where
  "rebooted_in_any footprints =
     (let answers = map df_rebooted_between footprints
      in if Some True \<in> set answers then Some True
         else if list_all (\<lambda>a. a = Some False) answers then Some False
         else None)"

fun repeated_footprint :: "(string \<times> string) list \<Rightarrow> diff list \<Rightarrow> string option" where
  "repeated_footprint seen [] = None"
| "repeated_footprint seen (f # fs) =
     (let times = (df_before_taken_utc f, df_after_taken_utc f)
      in if times \<in> set seen then Some (df_before_taken_utc f)
         else repeated_footprint (times # seen) fs)"

definition footprint_of :: "diff \<Rightarrow> footprint" where
  "footprint_of f =
     \<lparr>ft_before_taken_utc = df_before_taken_utc f, ft_after_taken_utc = df_after_taken_utc f,
      ft_changes = length (df_services f) + length (df_suppressed f) + length (df_files f)
        + length (df_suppressed_files f) + length (df_registry f)\<rparr>"

definition intersect_errors :: "diff list \<Rightarrow> intersect_error option" where
  "intersect_errors footprints =
     (if length footprints < 2 then Some (TooFew (length footprints))
      else if list_ex (\<lambda>f. df_intersection_of f \<noteq> None) footprints then Some Nested
      else case repeated_footprint [] footprints of
             Some t \<Rightarrow> Some (Repeated t)
           | None \<Rightarrow>
               let formats = ordered_set (map df_snapshot_format_version footprints)
               in if 1 < length formats then Some (DifferingFormats formats) else None)"

definition intersect :: "diff list \<Rightarrow> intersect_error + diff" where
  "intersect footprints =
     (case intersect_errors footprints of
        Some e \<Rightarrow> Inl e
      | None \<Rightarrow>
          let fs = map (\<lambda>f. fst (refilter f current_policy)) footprints;
              (services, suppressed) =
                shared (map (\<lambda>f. (df_services f, df_suppressed f)) fs) service_identity su_change;
              (files, suppressed_files) =
                shared (map (\<lambda>f. (df_files f, df_suppressed_files f)) fs) file_identity sf_change;
              (registry, _) =
                shared (map (\<lambda>f. (df_registry f, [])) fs) registry_identity (\<lambda>c. c)
          in Inr \<lparr>df_format_version = diff_format_version,
                  df_snapshot_format_version = df_snapshot_format_version (hd fs),
                  df_before_taken_utc = Min (set (map df_before_taken_utc fs)),
                  df_after_taken_utc = Max (set (map df_after_taken_utc fs)),
                  df_rebooted_between = rebooted_in_any fs,
                  df_emptied_directories = shared_list (map df_emptied_directories fs) folded,
                  df_emptied_keys = shared_list (map df_emptied_keys fs) key_identity,
                  df_formerly_empty_directories =
                    shared_list (map df_formerly_empty_directories fs) folded,
                  df_formerly_empty_keys = shared_list (map df_formerly_empty_keys fs) key_identity,
                  df_coverage = fold (\<lambda>f c. intersect_coverage c (df_coverage f)) (tl fs)
                    (df_coverage (hd fs)),
                  df_services = services,
                  df_suppressed = suppressed,
                  df_files = files,
                  df_suppressed_files = suppressed_files,
                  df_registry = registry,
                  df_registry_policy_changed = list_ex df_registry_policy_changed fs,
                  df_filesystem_policy_changed = list_ex df_filesystem_policy_changed fs,
                  df_libraries = common (map df_libraries fs),
                  df_signers = signer_counts files,
                  df_refiltered = fold (\<lambda>f r. absorb r (df_refiltered f)) fs no_refiltered,
                  df_intersection_of = Some (map footprint_of fs)\<rparr>)"

section \<open>Shared changes\<close>

text \<open>Whether one side has an identity among its kept changes, or at all.\<close>

definition keeps :: "('t \<Rightarrow> string) \<Rightarrow> 't list \<times> 's list \<Rightarrow> string \<Rightarrow> bool" where
  "keeps identity side i \<longleftrightarrow> i \<in> identity ` set (fst side)"

definition holds :: "('t \<Rightarrow> string) \<Rightarrow> ('s \<Rightarrow> 't) \<Rightarrow> 't list \<times> 's list \<Rightarrow> string \<Rightarrow> bool" where
  "holds identity change_of side i \<longleftrightarrow>
     i \<in> identity ` set (fst side) \<or> i \<in> identity ` change_of ` set (snd side)"

lemma indexed_kept: "map_of (fst (indexed_side identity change_of side)) i = None \<longleftrightarrow> \<not> keeps identity side i"
  by (auto simp: indexed_side_def keeps_def)

lemma indexed_held:
  "map_of (fst (indexed_side identity change_of side)) i \<noteq> None
     \<or> map_of (snd (indexed_side identity change_of side)) i \<noteq> None
   \<longleftrightarrow> holds identity change_of side i"
proof -
  have "map_of (snd (indexed_side identity change_of side)) i \<noteq> None
      \<longleftrightarrow> i \<in> (\<lambda>e. identity (change_of e)) ` set (snd side)"
    by (auto simp: indexed_side_def simp del: not_None_eq)
  then show ?thesis by (simp only: indexed_kept holds_def keeps_def image_image not_not)
qed

definition held_everywhere ::
    "('t \<Rightarrow> string) \<Rightarrow> ('s \<Rightarrow> 't) \<Rightarrow> ('t list \<times> 's list) list \<Rightarrow> string \<Rightarrow> bool" where
  "held_everywhere identity change_of sides i \<longleftrightarrow> list_all (\<lambda>s. holds identity change_of s i) sides"

definition kept_first ::
    "('t \<Rightarrow> string) \<Rightarrow> ('s \<Rightarrow> 't) \<Rightarrow> ('t list \<times> 's list) list \<Rightarrow> string \<Rightarrow> 't option" where
  "kept_first identity change_of sides i =
     find_map (\<lambda>s. map_of (fst (indexed_side identity change_of s)) i) sides"

lemma find_map_map: "find_map f (map g xs) = find_map (\<lambda>x. f (g x)) xs"
  by (induction xs) (auto split: option.splits)

lemma kept_first_None:
  "kept_first identity change_of sides i = None \<longleftrightarrow> (\<forall>s \<in> set sides. \<not> keeps identity s i)"
  by (simp add: kept_first_def indexed_kept)

lemma kept_first_Some:
  "kept_first identity change_of sides i = Some c \<Longrightarrow>
     identity c = i \<and> (\<exists>s \<in> set sides. c \<in> set (fst s))"
  by (auto simp: kept_first_def indexed_side_def dest!: find_map_SomeD index_by_Some)

definition candidates :: "('t \<Rightarrow> string) \<Rightarrow> ('s \<Rightarrow> 't) \<Rightarrow> 't list \<times> 's list \<Rightarrow> string list" where
  "candidates identity change_of side =
     ordered_set (map fst (fst (indexed_side identity change_of side))
                  @ map fst (snd (indexed_side identity change_of side)))"

lemma shared_Cons:
  shows "fst (shared (first # rest) identity change_of) =
      List.map_filter (\<lambda>i. if held_everywhere identity change_of (first # rest) i
        then kept_first identity change_of (first # rest) i else None) (candidates identity change_of first)"
    and "snd (shared (first # rest) identity change_of) =
      List.map_filter (\<lambda>i. if held_everywhere identity change_of (first # rest) i
          \<and> kept_first identity change_of (first # rest) i = None
        then map_of (snd (indexed_side identity change_of first)) i else None) (candidates identity change_of first)"
proof -
  have everywhere: "list_all (\<lambda>(kept, suppressed). map_of kept i \<noteq> None \<or> map_of suppressed i \<noteq> None)
      (map (indexed_side identity change_of) (first # rest))
      = held_everywhere identity change_of (first # rest) i" for i
    by (simp only: held_everywhere_def list.pred_map comp_def split_beta indexed_held)
  have kept: "find_map (\<lambda>(kept, _). map_of kept i) (map (indexed_side identity change_of) (first # rest))
      = kept_first identity change_of (first # rest) i" for i
    by (simp only: kept_first_def find_map_map split_beta)
  obtain k s where side: "indexed_side identity change_of first = (k, s)" by fastforce
  show "fst (shared (first # rest) identity change_of) =
      List.map_filter (\<lambda>i. if held_everywhere identity change_of (first # rest) i
        then kept_first identity change_of (first # rest) i else None) (candidates identity change_of first)"
    "snd (shared (first # rest) identity change_of) =
      List.map_filter (\<lambda>i. if held_everywhere identity change_of (first # rest) i
          \<and> kept_first identity change_of (first # rest) i = None
        then map_of (snd (indexed_side identity change_of first)) i else None) (candidates identity change_of first)"
    unfolding shared_def Let_def everywhere kept candidates_def by (simp_all add: side cong: if_cong)
qed

lemma candidates_held:
  "set (candidates identity change_of side) = {i. holds identity change_of side i}"
  using indexed_held [of identity change_of side]
  by (auto simp: candidates_def map_of_eq_None_iff simp del: set_map) (auto simp: image_iff)

text \<open>The changes shared by all sides, by identity.\<close>

lemma shared_kept:
  assumes "sides \<noteq> []"
  shows "i \<in> identity ` set (fst (shared sides identity change_of)) \<longleftrightarrow>
    (\<forall>s \<in> set sides. holds identity change_of s i) \<and> (\<exists>s \<in> set sides. keeps identity s i)"
proof -
  obtain first rest where sides: "sides = first # rest" using assms by (cases sides) auto
  have "i \<in> identity ` set (fst (shared sides identity change_of)) \<longleftrightarrow>
      holds identity change_of first i \<and> held_everywhere identity change_of sides i
      \<and> kept_first identity change_of sides i \<noteq> None"
    unfolding sides shared_Cons(1)
    by (auto simp: candidates_held image_iff dest: kept_first_Some split: if_splits)
  then show ?thesis by (auto simp: sides held_everywhere_def kept_first_None list_all_iff)
qed

lemma shared_suppressed:
  assumes "sides \<noteq> []"
  shows "i \<in> identity ` change_of ` set (snd (shared sides identity change_of)) \<longleftrightarrow>
    (\<forall>s \<in> set sides. holds identity change_of s i) \<and> (\<forall>s \<in> set sides. \<not> keeps identity s i)"
proof -
  obtain first rest where sides: "sides = first # rest" using assms by (cases sides) auto
  have moved: "map_of (snd (indexed_side identity change_of first)) j = Some e \<Longrightarrow> identity (change_of e) = j"
    for j e by (auto simp: indexed_side_def dest: index_by_Some)
  have "i \<in> identity ` change_of ` set (snd (shared sides identity change_of)) \<longleftrightarrow>
      holds identity change_of first i \<and> held_everywhere identity change_of sides i
      \<and> kept_first identity change_of sides i = None
      \<and> map_of (snd (indexed_side identity change_of first)) i \<noteq> None"
    unfolding sides shared_Cons(2)
    by (auto simp: candidates_held image_iff dest: moved split: if_splits)
  then show ?thesis
    using indexed_held [of identity change_of first i] indexed_kept [of identity change_of first i]
    by (auto simp: sides held_everywhere_def kept_first_None list_all_iff)
qed

lemma shared_members:
  "c \<in> set (fst (shared sides identity change_of)) \<Longrightarrow> \<exists>s \<in> set sides. c \<in> set (fst s)"
  "e \<in> set (snd (shared sides identity change_of)) \<Longrightarrow> \<exists>s \<in> set sides. e \<in> set (snd s)"
proof -
  assume c: "c \<in> set (fst (shared sides identity change_of))"
  then obtain first rest where "sides = first # rest" by (cases sides) (auto simp: shared_def)
  with c obtain i where "kept_first identity change_of sides i = Some c"
    by (auto simp: shared_Cons(1) split: if_splits)
  then show "\<exists>s \<in> set sides. c \<in> set (fst s)" by (blast dest: kept_first_Some)
next
  assume e: "e \<in> set (snd (shared sides identity change_of))"
  then obtain first rest where "sides = first # rest" by (cases sides) (auto simp: shared_def)
  with e show "\<exists>s \<in> set sides. e \<in> set (snd s)"
    by (auto simp: shared_Cons(2) indexed_side_def dest!: index_by_Some split: if_splits)
qed

lemma shared_ordered: "sorted_wrt (<) (map identity (fst (shared sides identity change_of)))"
proof (cases sides)
  case (Cons first rest)
  show ?thesis
    unfolding Cons shared_Cons(1)
    by (rule map_filter_ascending)
      (auto simp: candidates_def ordered_set_ascending dest: kept_first_Some split: if_splits)
qed (simp add: shared_def)

section \<open>The whole intersection\<close>

abbreviation filtered :: "diff \<Rightarrow> diff" where
  "filtered f \<equiv> fst (refilter f current_policy)"

lemma refilter_services [simp]:
  "df_services (fst (refilter f p)) = df_services f"
  "df_suppressed (fst (refilter f p)) = df_suppressed f"
  by (simp_all add: refilter_def drop_excluded_files_def split_beta Let_def)

lemma covers_refilter [simp]: "covers_domain (df_coverage (fst (refilter f p))) x = covers_domain (df_coverage f) x"
  by (simp add: refilter_def drop_excluded_denials_def covers_domain_def split_beta Let_def)

lemma intersect_Inr:
  assumes "intersect fs = Inr d"
  shows "intersect_errors fs = None"
    and "df_services d = fst (shared (map (\<lambda>f. (df_services f, df_suppressed f)) (map filtered fs))
           service_identity su_change)"
    and "df_suppressed d = snd (shared (map (\<lambda>f. (df_services f, df_suppressed f)) (map filtered fs))
           service_identity su_change)"
    and "df_files d = fst (shared (map (\<lambda>f. (df_files f, df_suppressed_files f)) (map filtered fs))
           file_identity sf_change)"
    and "df_suppressed_files d = snd (shared (map (\<lambda>f. (df_files f, df_suppressed_files f)) (map filtered fs))
           file_identity sf_change)"
    and "df_registry d = fst (shared (map (\<lambda>f. (df_registry f, [])) (map filtered fs))
           registry_identity (\<lambda>c. c))"
    and "df_coverage d = fold (\<lambda>f c. intersect_coverage c (df_coverage f)) (tl (map filtered fs))
           (df_coverage (hd (map filtered fs)))"
    and "df_emptied_directories d = shared_list (map df_emptied_directories (map filtered fs)) folded"
    and "df_emptied_keys d = shared_list (map df_emptied_keys (map filtered fs)) key_identity"
    and "df_formerly_empty_directories d =
           shared_list (map df_formerly_empty_directories (map filtered fs)) folded"
    and "df_formerly_empty_keys d = shared_list (map df_formerly_empty_keys (map filtered fs)) key_identity"
proof -
  show none: "intersect_errors fs = None"
    using assms by (cases "intersect_errors fs") (simp_all add: intersect_def)
  note unfolded = assms [unfolded intersect_def none option.case Let_def split_beta, THEN Inr_inject]
  show "df_services d = fst (shared (map (\<lambda>f. (df_services f, df_suppressed f)) (map filtered fs))
           service_identity su_change)"
    "df_suppressed d = snd (shared (map (\<lambda>f. (df_services f, df_suppressed f)) (map filtered fs))
           service_identity su_change)"
    "df_files d = fst (shared (map (\<lambda>f. (df_files f, df_suppressed_files f)) (map filtered fs))
           file_identity sf_change)"
    "df_suppressed_files d = snd (shared (map (\<lambda>f. (df_files f, df_suppressed_files f)) (map filtered fs))
           file_identity sf_change)"
    "df_registry d = fst (shared (map (\<lambda>f. (df_registry f, [])) (map filtered fs))
           registry_identity (\<lambda>c. c))"
    "df_coverage d = fold (\<lambda>f c. intersect_coverage c (df_coverage f)) (tl (map filtered fs))
           (df_coverage (hd (map filtered fs)))"
    "df_emptied_directories d = shared_list (map df_emptied_directories (map filtered fs)) folded"
    "df_emptied_keys d = shared_list (map df_emptied_keys (map filtered fs)) key_identity"
    "df_formerly_empty_directories d =
           shared_list (map df_formerly_empty_directories (map filtered fs)) folded"
    "df_formerly_empty_keys d = shared_list (map df_formerly_empty_keys (map filtered fs)) key_identity"
    unfolding unfolded [symmetric] by simp_all
qed

lemma intersect_some: "intersect_errors fs = None \<Longrightarrow> fs \<noteq> []"
  by (auto simp: intersect_errors_def)

lemma covers_fold:
  "covers_domain (fold (\<lambda>f c. intersect_coverage c (df_coverage f)) fs c) x
     \<longleftrightarrow> covers_domain c x \<and> (\<forall>f \<in> set fs. covers_domain (df_coverage f) x)"
  by (induction fs arbitrary: c) auto

text \<open>The identities a footprint holds, kept or moved aside.\<close>

definition has_service :: "diff \<Rightarrow> string \<Rightarrow> bool" where
  "has_service f i \<longleftrightarrow> i \<in> service_identity ` (set (df_services f) \<union> su_change ` set (df_suppressed f))"

definition has_file :: "diff \<Rightarrow> string \<Rightarrow> bool" where
  "has_file f i \<longleftrightarrow> i \<in> file_identity ` (set (df_files f) \<union> sf_change ` set (df_suppressed_files f))"

text \<open>
  C15. The intersection holds exactly what every footprint holds, by identity: a service or file
  that every footprint has, kept when one of them kept it and suppressed when all suppressed
  it; a registry key every refiltered footprint has; and it covers what all of them covered.
\<close>

theorem intersect_shared:
  assumes "intersect fs = Inr d"
  shows "(i \<in> service_identity ` set (df_services d) \<longleftrightarrow>
            (\<forall>f \<in> set fs. has_service f i) \<and> (\<exists>f \<in> set fs. i \<in> service_identity ` set (df_services f)))
    \<and> (i \<in> service_identity ` su_change ` set (df_suppressed d) \<longleftrightarrow>
            (\<forall>f \<in> set fs. has_service f i) \<and> (\<forall>f \<in> set fs. i \<notin> service_identity ` set (df_services f)))
    \<and> (has_file d i \<longleftrightarrow> (\<forall>f \<in> set fs. has_file (filtered f) i))
    \<and> (i \<in> registry_identity ` set (df_registry d) \<longleftrightarrow>
            (\<forall>f \<in> set fs. i \<in> registry_identity ` set (df_registry (filtered f))))
    \<and> (covers_domain (df_coverage d) x \<longleftrightarrow> (\<forall>f \<in> set fs. covers_domain (df_coverage f) x))"
proof -
  have "fs \<noteq> []" using intersect_Inr(1) [OF assms] by (rule intersect_some)
  then have sides: "map g (map filtered fs) \<noteq> []" for g :: "diff \<Rightarrow> 'z" by simp
  have services: "i \<in> service_identity ` set (df_services d) \<longleftrightarrow>
      (\<forall>f \<in> set fs. has_service f i) \<and> (\<exists>f \<in> set fs. i \<in> service_identity ` set (df_services f))"
    "i \<in> service_identity ` su_change ` set (df_suppressed d) \<longleftrightarrow>
      (\<forall>f \<in> set fs. has_service f i) \<and> (\<forall>f \<in> set fs. i \<notin> service_identity ` set (df_services f))"
    unfolding intersect_Inr(2,3) [OF assms] shared_kept [OF sides] shared_suppressed [OF sides]
    by (simp_all add: holds_def keeps_def has_service_def image_Un)
  have files: "has_file d i \<longleftrightarrow> (\<forall>f \<in> set fs. has_file (filtered f) i)"
    unfolding has_file_def image_Un Un_iff intersect_Inr(4,5) [OF assms]
      shared_kept [OF sides] shared_suppressed [OF sides]
    by (auto simp: holds_def keeps_def)
  have registry: "i \<in> registry_identity ` set (df_registry d) \<longleftrightarrow>
      (\<forall>f \<in> set fs. i \<in> registry_identity ` set (df_registry (filtered f)))"
    unfolding intersect_Inr(6) [OF assms] shared_kept [OF sides]
    using \<open>fs \<noteq> []\<close> by (auto simp: holds_def keeps_def) (metis list.set_intros(1) neq_Nil_conv)
  have "covers_domain (df_coverage d) x \<longleftrightarrow> (\<forall>f \<in> set fs. covers_domain (df_coverage f) x)"
    unfolding intersect_Inr(7) [OF assms] covers_fold using \<open>fs \<noteq> []\<close> by (cases fs) simp_all
  with services files registry show ?thesis by blast
qed

lemma shared_list_subset:
  "shared_list xss identity = Some xs \<Longrightarrow> \<exists>ys. Some ys \<in> set xss \<and> set xs \<subseteq> set ys"
proof -
  assume xs: "shared_list xss identity = Some xs"
  then have none: "None \<notin> set xss" by (auto simp: shared_list_def split: if_splits)
  then have "x = Some (the x)" if "x \<in> set xss" for x using that by (cases x) auto
  then have "map (Some \<circ> the) xss = xss" by (intro map_idI) simp
  then obtain yss where "xss = map Some yss" by (metis map_map)
  moreover have "flatten_options (map Some yss) = yss" by (induction yss) simp_all
  ultimately show ?thesis
    using xs none by (cases yss) (auto simp: shared_list_def)
qed

lemma shared_list_all:
  assumes "\<And>f. f \<in> set fs \<Longrightarrow> pred_option (list_all P) (g f)"
  shows "pred_option (list_all P) (shared_list (map g fs) identity)"
proof (cases "shared_list (map g fs) identity")
  case (Some xs)
  obtain ys where "Some ys \<in> set (map g fs)" and sub: "set xs \<subseteq> set ys"
    using shared_list_subset [OF Some] by blast
  then obtain f where "f \<in> set fs" "g f = Some ys" by auto
  with assms [of f] sub Some show ?thesis by (auto simp: list_all_iff)
qed simp

lemma coverage_denials_all:
  assumes "list_all P (cv_access_denied a)" and "list_all P (cv_access_denied b)"
  shows "list_all P (cv_access_denied (intersect_coverage a b))"
  using assms dedup_by_key_subset [of denial_key "sort_key denial_key (cv_access_denied a @ cv_access_denied b)"]
  by (auto simp: intersect_coverage_def Let_def list_all_iff)

lemma fold_coverage_denials_all:
  "list_all P (cv_access_denied c) \<Longrightarrow> \<forall>f \<in> set fs. list_all P (cv_access_denied (df_coverage f)) \<Longrightarrow>
   list_all P (cv_access_denied (fold (\<lambda>f c. intersect_coverage c (df_coverage f)) fs c))"
  by (induction fs arbitrary: c) (simp_all add: coverage_denials_all)

text \<open>
  An intersection carries nothing the current policy refuses, whatever its footprints hold.
\<close>

theorem intersect_private:
  assumes "intersect fs = Inr d"
  shows "private_diff current_policy d"
proof -
  have "fs \<noteq> []" using intersect_Inr(1) [OF assms] by (rule intersect_some)
  have all: "private_diff current_policy f" if "f \<in> set (map filtered fs)" for f
    using that refilter_private by auto
  have "list_all (private_registry current_policy) (df_registry d)"
    unfolding intersect_Inr(6) [OF assms] list_all_iff
    using all by (force simp: private_diff_def list_all_iff dest!: shared_members(1))
  moreover have "list_all (\<lambda>c. \<not> is_excluded_path (fx_path c)) (df_files d)"
    "list_all (\<lambda>e. \<not> is_excluded_path (fx_path (sf_change e))) (df_suppressed_files d)"
    unfolding intersect_Inr(4,5) [OF assms] list_all_iff
    using all by (force simp: private_diff_def list_all_iff dest!: shared_members)+
  moreover have "pred_option (list_all (\<lambda>x. \<not> is_excluded_path x)) (df_emptied_directories d)"
    "pred_option (list_all (\<lambda>x. \<not> is_excluded_path x)) (df_formerly_empty_directories d)"
    "pred_option (list_all (\<lambda>k. \<not> is_excluded_key (kr_key k))) (df_emptied_keys d)"
    "pred_option (list_all (\<lambda>k. \<not> is_excluded_key (kr_key k))) (df_formerly_empty_keys d)"
    unfolding intersect_Inr(8-11) [OF assms]
    by (rule shared_list_all; use all in \<open>simp add: private_diff_def\<close>)+
  moreover have "list_all (\<lambda>a. \<not> denial_excluded a) (cv_access_denied (df_coverage d))"
    unfolding intersect_Inr(7) [OF assms]
    by (rule fold_coverage_denials_all) (use all \<open>fs \<noteq> []\<close> in \<open>cases fs; auto simp: private_diff_def\<close>)+
  ultimately show ?thesis by (simp add: private_diff_def)
qed

lemma repeated_footprint_None:
  "repeated_footprint seen fs = None \<longleftrightarrow>
     distinct (map (\<lambda>f. (df_before_taken_utc f, df_after_taken_utc f)) fs)
     \<and> set (map (\<lambda>f. (df_before_taken_utc f, df_after_taken_utc f)) fs) \<inter> set seen = {}"
  by (induction seen fs rule: repeated_footprint.induct) (auto simp: Let_def)

lemma one_format:
  "length (ordered_set xs) \<le> 1 \<longleftrightarrow> (\<forall>x \<in> set xs. \<forall>y \<in> set xs. x = y)"
proof -
  have "distinct (ordered_set xs)" using ordered_set_ascending strict_sorted_iff by blast
  then have "length (ordered_set xs) = card (set xs)"
    by (metis distinct_card set_ordered_set)
  then show ?thesis by (simp add: card_le_Suc0_iff_eq)
qed

text \<open>
  Footprints intersect exactly when there are at least two, none is itself an intersection,
  no two have the same pair of times and all come from one snapshot format.
\<close>

theorem intersect_accepts:
  "(\<exists>d. intersect fs = Inr d) \<longleftrightarrow>
     2 \<le> length fs \<and> list_all (\<lambda>f. df_intersection_of f = None) fs
     \<and> distinct (map (\<lambda>f. (df_before_taken_utc f, df_after_taken_utc f)) fs)
     \<and> (\<forall>f \<in> set fs. \<forall>g \<in> set fs. df_snapshot_format_version f = df_snapshot_format_version g)"
proof -
  have "(\<exists>d. intersect fs = Inr d) \<longleftrightarrow> intersect_errors fs = None"
    by (auto simp: intersect_def split_beta Let_def split: option.splits)
  also have "\<dots> \<longleftrightarrow> 2 \<le> length fs \<and> list_all (\<lambda>f. df_intersection_of f = None) fs
     \<and> distinct (map (\<lambda>f. (df_before_taken_utc f, df_after_taken_utc f)) fs)
     \<and> length (ordered_set (map df_snapshot_format_version fs)) \<le> 1"
    by (cases "repeated_footprint [] fs")
      (use repeated_footprint_None [of "[]" fs] in
        \<open>auto simp: intersect_errors_def Let_def list_ex_iff list_all_iff\<close>)
  finally show ?thesis unfolding one_format by simp
qed

section \<open>Examples\<close>

definition plain_diff :: "string \<Rightarrow> service_record list \<Rightarrow> registry_record list \<Rightarrow> diff" where
  "plain_diff taken services records =
     \<lparr>df_format_version = 2, df_snapshot_format_version = 2, df_before_taken_utc = taken,
      df_after_taken_utc = taken, df_rebooted_between = None, df_emptied_directories = None,
      df_emptied_keys = None, df_formerly_empty_directories = None, df_formerly_empty_keys = None,
      df_coverage = \<lparr>cv_captured = all_domains, cv_not_captured = [], cv_access_denied = []\<rparr>,
      df_services = List.map_filter (\<lambda>r. service_change_of (sv_name r) None (Some r)) services,
      df_suppressed = [], df_files = [], df_suppressed_files = [],
      df_registry = map registry_added records, df_registry_policy_changed = False,
      df_filesystem_policy_changed = False, df_libraries = [], df_signers = [],
      df_refiltered = no_refiltered, df_intersection_of = None\<rparr>"

definition sample_footprints :: "diff list" where
  "sample_footprints =
     [plain_diff ''1'' [plain_service ''ACE'' ''boot'', plain_service ''one'' ''auto'']
        [plain_record ''HKLM/SOFTWARE/Ace'' [plain_value ''Hostname'' ''me'', plain_value ''v'' ''1'']],
      plain_diff ''2'' [plain_service ''ace'' ''boot'', plain_service ''two'' ''auto'']
        [plain_record ''HKLM/SOFTWARE/ACE'' [plain_value ''v'' ''2'']]]"

theorem intersect_accepts_witness: "\<exists>d. intersect sample_footprints = Inr d"
  unfolding intersect_accepts by code_simp

lemma sample_intersects: "\<exists>d. intersect sample_footprints = Inr d"
proof -
  have "intersect_errors sample_footprints = None" by code_simp
  then show ?thesis by (simp add: intersect_def split_beta Let_def)
qed

theorem intersect_shared_witness:
  "\<exists>d. intersect sample_footprints = Inr d
     \<and> ''ace'' \<in> service_identity ` set (df_services d) \<and> ''one'' \<notin> service_identity ` set (df_services d)"
proof -
  obtain d where d: "intersect sample_footprints = Inr d" using sample_intersects by blast
  have "list_all (\<lambda>f. has_service f ''ace'') sample_footprints"
    "list_ex (\<lambda>f. ''ace'' \<in> service_identity ` set (df_services f)) sample_footprints"
    "\<not> list_all (\<lambda>f. has_service f ''one'') sample_footprints"
    by code_simp+
  with intersect_shared [OF d, of "''ace''"] intersect_shared [OF d, of "''one''"] d show ?thesis
    by (auto simp: list_all_iff list_ex_iff)
qed

theorem intersect_private_witness:
  "\<exists>d. intersect sample_footprints = Inr d \<and> private_diff current_policy d"
  using sample_intersects intersect_private [of sample_footprints] by blast

end
