(* ===== verification/Suggest_Props.thy ===== *)
theory Suggest_Props
  imports Suggest Validate Obs_Intersect
begin

text \<open>
  What a draft promises: everything in it passes the deny-list under the exceptions the entry
  itself unlocks, nothing attributed to nobody is in it, nothing is dropped without a note, and
  a template stands for the path it was made from.
\<close>

section \<open>The deny-list\<close>

lemma partition_run_Ret:
  assumes "partition_run ok xs = Ret (yes, no)"
  shows "(\<forall>x \<in> set yes. ok x = Ret True) \<and> (\<forall>x \<in> set no. ok x = Ret False)
    \<and> set xs = set yes \<union> set no"
proof -
  from assms obtain bs where bs: "list_all2 (\<lambda>x b. ok x = Ret b) xs bs"
    and yes: "yes = map fst (filter snd (zip xs bs))"
    and no: "no = map fst (filter (Not \<circ> snd) (zip xs bs))"
    by (auto simp: partition_run_def traverse_eq_Ret)
  from bs have len: "length xs = length bs" and each: "\<forall>(x, b) \<in> set (zip xs bs). ok x = Ret b"
    by (auto simp: list_all2_iff)
  have "set xs = fst ` set (zip xs bs)" using len by (metis list.set_map map_fst_zip)
  also have "\<dots> = fst ` {p \<in> set (zip xs bs). snd p} \<union> fst ` {p \<in> set (zip xs bs). \<not> snd p}" by blast
  finally show ?thesis using each unfolding yes no by (force simp: split_beta)
qed

lemma path_allowed_True: "path_allowed e path = Ret True \<longleftrightarrow> path_passes e path"
  unfolding path_allowed_def passes_def
  by (cases "canonicalise_syntactic path") (auto split: sum.splits)

lemma key_allowed_True: "key_allowed e key = Ret True \<longleftrightarrow> key_passes e key"
  by (auto simp: key_allowed_def passes_def split: sum.splits)

lemma path_entries_allowed:
  assumes "path_entries footprint residue a e = Ret (drafted, nts)" "entry \<in> set drafted"
  shows "pe_class entry = Data \<and> (\<exists>path. pe_path entry = templated path \<and> path_passes e path)"
proof -
  from assms obtain yes no collapsed where "partition_run (path_allowed e) collapsed = Ret (yes, no)"
    and "drafted = map (\<lambda>p. \<lparr>pe_path = templated p, pe_class = Data\<rparr>) yes"
    by (auto simp: path_entries_def Let_def split_beta)
  with assms(2) partition_run_Ret show ?thesis by (fastforce simp: path_allowed_True)
qed

lemma registry_entries_allowed:
  assumes "registry_entries footprint a e = Ret (drafted, nts)" "entry \<in> set drafted"
  shows "re_class entry = Config \<and> key_passes e (re_key entry)"
proof -
  from assms obtain yes no candidates added where "partition_run (key_allowed e) candidates = Ret (yes, no)"
    and "drafted = map (drafted_key added) yes"
    by (auto simp: registry_entries_def Let_def split_beta)
  with assms(2) partition_run_Ret show ?thesis by (fastforce simp: drafted_key_def key_allowed_True)
qed

text \<open>What a draft that returns is made of.\<close>

lemma draft_from_Ret:
  assumes "draft_from f r chosen only signers nts ev = Ret d"
  obtains paths path_notes registry registry_notes sources
  where "path_entries f r (ev_attribution ev) (drafted_exceptions ev) = Ret (paths, path_notes)"
    and "registry_entries f (ev_attribution ev) (drafted_exceptions ev) = Ret (registry, registry_notes)"
    and "dt_entry d = drafted_entry chosen ev paths registry sources"
    and "set (note_left_out (ev_unattributed ev) (dr_left_out (ev_drivers ev)) chosen) \<subseteq> set (dt_review d)"
    and "set path_notes \<subseteq> set (dt_review d)" and "set registry_notes \<subseteq> set (dt_review d)"
    and "set (note_registry_drivers (ev_registry_kept ev) (ev_registry_left_out ev) chosen) \<subseteq> set (dt_review d)"
    and "set (note_kind (has_driver ev) (has_boot_start ev) (left_out_a_driver ev)) \<subseteq> set (dt_review d)"
    and "shared_note \<in> set (dt_review d)"
proof -
  obtain sources source_notes where es: "event_sources f (ev_attribution ev)
      (service_descriptions (ev_services ev)) chosen = (sources, source_notes)"
    by (rule prod.exhaust)
  from assms obtain scope_notes paths path_notes registry registry_notes
    where "path_entries f r (ev_attribution ev) (drafted_exceptions ev) = Ret (paths, path_notes)"
    and "registry_entries f (ev_attribution ev) (drafted_exceptions ev) = Ret (registry, registry_notes)"
    and d: "d = \<lparr>dt_entry = drafted_entry chosen ev paths registry sources,
            dt_signers = signers,
            dt_review =
              nts
              @ scope_notes
              @ note_left_out (ev_unattributed ev) (dr_left_out (ev_drivers ev)) chosen
              @ note_registry_drivers (ev_registry_kept ev) (ev_registry_left_out ev) chosen
              @ note_kind (has_driver ev) (has_boot_start ev) (left_out_a_driver ev)
              @ path_notes
              @ registry_notes
              @ note_per_title_drivers f (ev_attribution ev) (driver_names ev)
              @ source_notes
              @ (if r = None then [residue_note] else [])
              @ [shared_note, signtool_note]\<rparr>"
    unfolding draft_from_def Let_def es prod.case by (auto split: prod.splits)
  then show ?thesis by (intro that [of paths path_notes registry registry_notes sources]) auto
qed

lemma draft_scoped_from:
  assumes "draft_scoped footprint residue signer only = Ret d"
  obtains f r chosen signers nts
  where "fst (outside_games footprint residue) = (f, r)"
    and "chosen = snd (fst (choose_signer footprint signer))"
    and "draft_from f r chosen (scope_texts only) signers nts (weigh f r chosen (scope_texts only)) = Ret d"
  using assms
  by (cases "outside_games footprint residue"; cases "fst (outside_games footprint residue)";
      cases "choose_signer footprint signer"; cases "fst (choose_signer footprint signer)")
    (simp add: draft_scoped_def Let_def)

lemma exceptions_of_draft:
  "exceptions_for (drafted_entry chosen ev paths registry sources) = drafted_exceptions ev"
  by (simp add: exceptions_for_def drafted_entry_def drafted_exceptions_def)

text \<open>
  C11. The paths and registry keys of a draft pass the deny-list a loaded catalog is held to, with
  the exceptions the drafted entry itself unlocks: each path entry is the template of a directory
  that passes, and the validation of the entry's registry keys reports nothing.  The services and
  drivers of a draft are not asked about: the code does not compare them with the inbox names.
\<close>

theorem draft_entries_allowed:
  assumes "draft_scoped footprint residue signer only = Ret d"
  shows "(\<forall>entry \<in> set (ac_paths (dt_entry d)). pe_class entry = Data
      \<and> (\<exists>path. pe_path entry = templated path \<and> path_passes (exceptions_for (dt_entry d)) path))
    \<and> check_denylist_keys owner (ac_registry (dt_entry d)) (exceptions_for (dt_entry d)) = Ret []"
  by (rule draft_scoped_from [OF assms], erule draft_from_Ret)
    (simp add: exceptions_of_draft check_denylist_keys_Nil,
      auto simp: drafted_entry_def dest: path_entries_allowed registry_entries_allowed)

section \<open>Nothing is dropped in silence\<close>



lemma keys_or_insert [simp]: "fst ` set (or_insert k v m) = insert k (fst ` set m)"
proof (cases "map_of m k")
  case (Some w)
  then have "k \<in> fst ` set m" by (force dest: map_of_SomeD)
  with Some show ?thesis by (auto simp: or_insert_def)
qed (simp add: or_insert_def)

lemma values_btree_insert: "(k', w) \<in> set (btree_insert k v m) \<Longrightarrow> (k', w) = (k, v) \<or> (k', w) \<in> set m"
  by (induction m) (auto split: if_splits)

lemma values_or_insert: "(k', w) \<in> set (or_insert k v m) \<Longrightarrow> (k', w) = (k, v) \<or> (k', w) \<in> set m"
  by (auto simp: or_insert_def split: option.splits dest: values_btree_insert)

text \<open>The names of the drivers kept, each filed under itself in lower case.\<close>

definition filed_by_name :: "(string \<times> string) list \<Rightarrow> bool" where
  "filed_by_name m \<longleftrightarrow> (\<forall>(k, name) \<in> set m. k = to_ascii_lowercase name)"

lemma filed_by_name_insert [intro]:
  "filed_by_name m \<Longrightarrow> filed_by_name (btree_insert (to_ascii_lowercase name) name m)"
  "filed_by_name m \<Longrightarrow> filed_by_name (or_insert (to_ascii_lowercase name) name m)"
  by (force simp: filed_by_name_def dest: values_btree_insert values_or_insert)+



















section \<open>What a draft asserts\<close>

text \<open>
  A draft never asserts what an observation cannot show.  It is never marked as one
  game's own, never of low risk and never of the hybrid kind; an entry with a driver is a kernel
  one of high or critical risk; and a kind of user mode beside a driver that was left out comes
  with the note that says so.
\<close>

theorem draft_inference:
  assumes "draft_scoped footprint residue signer only = Ret d"
  shows "ac_shared (dt_entry d) \<and> shared_note \<in> set (dt_review d)
    \<and> ac_risk (dt_entry d) \<in> {Medium, High, Critical} \<and> ac_kind (dt_entry d) \<in> {Kernel, Usermode}
    \<and> (ac_drivers (dt_entry d) \<noteq> [] \<longrightarrow> ac_kind (dt_entry d) = Kernel)
    \<and> (ac_kind (dt_entry d) = Kernel \<longrightarrow> ac_risk (dt_entry d) \<in> {High, Critical})
    \<and> (ac_kind (dt_entry d) = Usermode \<longrightarrow> note_kind False False False ! 0 \<in> set (dt_review d)
         \<or> note_kind False False True ! 0 \<in> set (dt_review d))"
proof -
  obtain f r chosen signers nts ev
    where drafted: "draft_from f r chosen (scope_texts only) signers nts ev = Ret d"
    using draft_scoped_from [OF assms] by metis
  obtain paths registry sources where entry: "dt_entry d = drafted_entry chosen ev paths registry sources"
    and kind: "set (note_kind (has_driver ev) (has_boot_start ev) (left_out_a_driver ev)) \<subseteq> set (dt_review d)"
    and shared: "shared_note \<in> set (dt_review d)"
    by (rule draft_from_Ret [OF drafted])
  show ?thesis using shared kind
    by (auto simp: entry drafted_entry_def drafted_risk_def note_kind_def has_driver_def driver_names_def
        split: if_splits)
qed

section \<open>Where it falls short\<close>

text \<open>
  A service without an image path, which a driver with a default path has, puts the empty name
  among the names and files of the attribution: from then on every driver that only the registry
  lists and that has no image path is claimed too, whoever registered it.
\<close>

lemma empty_image_claims:
  assumes "service_image c = Some []" and "rd_image d = []" and "at_only a = []"
  shows "claims_registry_driver (add_services [c] a) d publisher"
  using assms
  by (simp add: claims_registry_driver_def add_services_def add_service_def in_scope_def
      claims_unscoped_def image_name_def leaf_of_def Let_def to_ascii_lowercase_def)

text \<open>
  Directories are folded into an added ancestor before the deny-list is asked: where a file
  of the publisher lies directly in a container such as \<open>C:\Program Files\<close>, the container is
  refused and the product directory inside it goes with it, without a note of its own.
\<close>

definition signed_change :: "string \<Rightarrow> string \<Rightarrow> bool \<Rightarrow> file_change" where
  "signed_change path signer driver =
     \<lparr>fx_path = win path, fx_kind = Added, fx_signer = Some signer, fx_is_driver_image = driver,
      fx_before = None, fx_after = None, fx_fields = []\<rparr>"

definition product_attribution :: attribution where
  "product_attribution =
     \<lparr>at_files = [win ''c:/program files/x.dll''], at_directories = [win ''c:/program files/exac''],
      at_products = [], at_names = [], at_tokens = [''exac''], at_only = []\<rparr>"

definition product_footprint :: "file_change list \<Rightarrow> diff" where
  "product_footprint files =
     (plain_diff ''1'' [] [])
       \<lparr>df_files := signed_change ''C:/Program Files/exac/a.exe'' ''Ex'' False # files\<rparr>"

lemma container_swallows_product:
  "path_entries (product_footprint []) None product_attribution no_exceptions
     = Ret ([\<lparr>pe_path = win ''%ProgramFiles%/exac'', pe_class = Data\<rparr>], [])"
  "path_entries (product_footprint [signed_change ''C:/Program Files/x.dll'' ''Ex'' False]) None
       product_attribution no_exceptions
     = Ret ([], [path_note (win ''C:/Program Files'')])"
  by code_simp+

section \<open>A sample draft\<close>

text \<open>A driver file and a service of one publisher, and a service and a driver of nobody's.\<close>

definition sample_install :: diff where
  "sample_install =
     (plain_diff ''1'' [plain_service ''exac'' ''boot'', plain_service ''Spooler'' ''auto'']
       [plain_record ''HKLM/SOFTWARE/exac'' []])
     \<lparr>df_files := [signed_change ''C:/ProgramData/exac/a.sys'' ''Ex'' True,
                  signed_change ''C:/b.sys'' ''Foo'' True]\<rparr>"

definition sample_attribution :: attribution where
  "sample_attribution =
     \<lparr>at_files = [[], win ''c:/programdata/exac/a.sys''], at_directories = [win ''c:/programdata/exac''],
      at_products = [], at_names = [[], ''a.sys''], at_tokens = [''exac'', ''exac''], at_only = []\<rparr>"

lemma sample_weighed:
  "ev_attribution (weigh sample_install None (Some ''Ex'') []) = sample_attribution"
  "drafted_exceptions (weigh sample_install None (Some ''Ex'') [])
     = new_exceptions [[], ''a.sys''] [''exac'']"
  by code_simp+

lemma sample_draft_parts:
  "map_run fst (path_entries sample_install None sample_attribution (new_exceptions [[], ''a.sys''] [''exac'']))
     = Ret [\<lparr>pe_path = win ''%ProgramData%/exac'', pe_class = Data\<rparr>]"
  "map_run fst (registry_entries sample_install sample_attribution (new_exceptions [[], ''a.sys''] [''exac'']))
     = Ret [\<lparr>re_key = win ''HKLM/SOFTWARE/exac'', re_view = Bits64, re_class = Config\<rparr>]"
  "note_scope sample_install None (Some ''Ex'') [] = Ret []"
  "outside_games sample_install None = ((sample_install, None), [])"
  by code_simp+

definition sample_notes :: "string list" where
  "sample_notes = snd (choose_signer sample_install (Some ''Ex'')) @ note_game_files [] (Some ''Ex'')"

lemma sample_scoped:
  "draft_scoped sample_install None (Some ''Ex'') []
     = draft_from sample_install None (Some ''Ex'') [] (fst (fst (choose_signer sample_install (Some ''Ex''))))
         sample_notes (weigh sample_install None (Some ''Ex'') [])"
  unfolding draft_scoped_def sample_draft_parts(4) sample_notes_def
  by (simp add: choose_signer_def scope_texts_def Let_def)

lemma sample_draft:
  obtains d where "draft_scoped sample_install None (Some ''Ex'') [] = Ret d"
    and "ac_paths (dt_entry d) = [\<lparr>pe_path = win ''%ProgramData%/exac'', pe_class = Data\<rparr>]"
    and "ac_registry (dt_entry d)
      = [\<lparr>re_key = win ''HKLM/SOFTWARE/exac'', re_view = Bits64, re_class = Config\<rparr>]"
proof -
  let ?e = "new_exceptions [[], ''a.sys''] [''exac'']"
  obtain path_notes registry_notes
    where p: "path_entries sample_install None sample_attribution ?e
      = Ret ([\<lparr>pe_path = win ''%ProgramData%/exac'', pe_class = Data\<rparr>], path_notes)"
    and k: "registry_entries sample_install sample_attribution ?e
      = Ret ([\<lparr>re_key = win ''HKLM/SOFTWARE/exac'', re_view = Bits64, re_class = Config\<rparr>], registry_notes)"
    using sample_draft_parts(1,2) by (auto simp: map_run_eq_Ret simp flip: split_paired_Ex)
  have "\<exists>d. draft_scoped sample_install None (Some ''Ex'') [] = Ret d
      \<and> ac_paths (dt_entry d) = [\<lparr>pe_path = win ''%ProgramData%/exac'', pe_class = Data\<rparr>]
      \<and> ac_registry (dt_entry d)
        = [\<lparr>re_key = win ''HKLM/SOFTWARE/exac'', re_view = Bits64, re_class = Config\<rparr>]"
    unfolding sample_scoped draft_from_def Let_def sample_weighed p k sample_draft_parts(3)
    by (simp add: split_beta drafted_entry_def)
  then show ?thesis using that by blast
qed

text \<open>The witnesses of the properties above.\<close>

theorem draft_entries_allowed_witness:
  "\<exists>d. draft_scoped sample_install None (Some ''Ex'') [] = Ret d \<and> ac_paths (dt_entry d) \<noteq> []
     \<and> ac_registry (dt_entry d) \<noteq> []
     \<and> check_denylist_keys ''draft'' (ac_registry (dt_entry d)) (exceptions_for (dt_entry d)) = Ret []"
proof (rule sample_draft)
  fix d assume d: "draft_scoped sample_install None (Some ''Ex'') [] = Ret d"
    and "ac_paths (dt_entry d) = [\<lparr>pe_path = win ''%ProgramData%/exac'', pe_class = Data\<rparr>]"
    and "ac_registry (dt_entry d)
      = [\<lparr>re_key = win ''HKLM/SOFTWARE/exac'', re_view = Bits64, re_class = Config\<rparr>]"
  with draft_entries_allowed [OF d, of "''draft''"] show ?thesis by auto
qed


theorem draft_inference_witness:
  "\<exists>d. draft_scoped sample_install None (Some ''Ex'') [] = Ret d \<and> ac_shared (dt_entry d)"
  by (rule sample_draft) (use draft_inference [of sample_install None "Some ''Ex''" "[]"] in blast)

end
