(* ===== verification/Suggest_Templates.thy ===== *)
theory Suggest_Templates
  imports Suggest_Text Expand
begin

text \<open>
  The templates of a draft against the catalog's own expansion: writing a path with a variable
  (\<open>suggest.rs\<close>) and expanding the variable (\<open>catalog/expand.rs\<close>) meet in the path.
\<close>

abbreviation percent :: char where "percent \<equiv> CHR ''%''"

lemma find_percent_none: "percent \<notin> set s \<Longrightarrow> find_sub s [percent] = None"
  by (induction s) auto

lemma find_percent_first: "percent \<notin> set s \<Longrightarrow> find_sub (s @ percent # t) [percent] = Some (length s)"
  by (induction s) auto

text \<open>A template with one variable at its start, and one with none.\<close>

lemma expand_variable:
  assumes "percent \<notin> set name" "percent \<notin> set tail" "known_variable name" "vals name = Some [v]"
  shows "expand_with (''%'' @ name @ ''%'' @ tail) vals = Inr [v @ tail]"
  using find_percent_first [OF assms(1), of tail] find_percent_none [OF assms(2)] assms(3,4)
  by (simp add: expand_with_def expand_loop.simps)

lemma expand_plain: "percent \<notin> set path \<Longrightarrow> expand_with path vals = Inr [path]"
  by (simp add: expand_with_def expand_loop.simps find_percent_none)

lemma strip_component_prefixD:
  assumes "strip_component_prefix path prefix = Some tail"
  shows "\<exists>head. path = head @ tail \<and> to_ascii_lowercase head = to_ascii_lowercase prefix
    \<and> (tail = [] \<or> hd tail = backslash)"
proof -
  from assms have "path = take (length prefix) path @ tail"
    "eq_ignore_ascii_case (take (length prefix) path) prefix" "tail = [] \<or> starts_with tail [backslash]"
    by (auto simp: strip_component_prefix_def get_to_def Let_def split: if_splits)
  then show ?thesis by (metis eq_ignore_ascii_case_def starts_with_iff append_Cons list.sel(1))
qed

text \<open>A match of a table of variables is one of its variables before the rest of the path.\<close>

lemma variable_templateD:
  assumes "find_map (variable_template path) table = Some t"
  obtains name prefix head tail where "(name, prefix) \<in> set table" and "t = ''%'' @ name @ ''%'' @ tail"
    and "path = head @ tail" and "to_ascii_lowercase head = to_ascii_lowercase prefix"
proof -
  from find_map_SomeD [OF assms] obtain name prefix
    where v: "(name, prefix) \<in> set table" "variable_template path (name, prefix) = Some t" by auto
  then obtain tail where "t = ''%'' @ name @ ''%'' @ tail" "strip_component_prefix path prefix = Some tail"
    by (auto simp: variable_template_def)
  with v(1) that show thesis by (blast dest: strip_component_prefixD)
qed

lemma from_separator:
  "dropWhile (\<lambda>c. c \<noteq> b) s = [] \<or> (\<exists>r. dropWhile (\<lambda>c. c \<noteq> b) s = b # r)"
  by (induction s) auto

lemma split_profileD:
  assumes "split_profile path = Some (profile, rest)"
  shows "\<exists>users. path = take 3 path @ users @ [backslash] @ profile @ rest
    \<and> to_ascii_lowercase users = to_ascii_lowercase ''Users'' \<and> (rest = [] \<or> (\<exists>r. rest = backslash # r))"
proof -
  from assms obtain tail below where tail: "strip_component_prefix (drop 3 path) ''Users'' = Some tail"
    and below: "tail = backslash # below"
    and profile: "profile = takeWhile (\<lambda>c. c \<noteq> backslash) below" "rest = drop (length profile) below"
    by (auto simp: split_profile_def Let_def strip_prefix_Some split: if_splits option.splits)
  from strip_component_prefixD [OF tail] obtain users
    where users: "drop 3 path = users @ tail" "to_ascii_lowercase users = to_ascii_lowercase ''Users''" by blast
  have dropped: "rest = dropWhile (\<lambda>c. c \<noteq> backslash) below"
    unfolding profile by (simp add: dropWhile_eq_drop)
  have "below = profile @ rest" unfolding dropped profile by simp
  then have "path = take 3 path @ users @ [backslash] @ profile @ rest"
    using users(1) below append_take_drop_id [of 3 path] by simp
  moreover have "rest = [] \<or> (\<exists>r. rest = backslash # r)"
    unfolding dropped by (rule from_separator)
  ultimately show ?thesis using users(2) by blast
qed

text \<open>The values of the variables on the machine of a path: its own profile, if it is in one.\<close>

definition values_beside :: "string \<Rightarrow> string \<Rightarrow> string list option" where
  "values_beside path name =
     (case split_profile path of
        None \<Rightarrow> candidates_for name
      | Some (profile, _) \<Rightarrow>
          let home = take 3 path @ ''Users'' @ [backslash] @ profile;
              up = to_ascii_uppercase name
          in if up = ''LOCALAPPDATA'' then Some [home @ win ''/AppData/Local'']
             else if up = ''APPDATA'' then Some [home @ win ''/AppData/Roaming'']
             else if up \<in> {''USERPROFILE'', ''PUBLIC''} then Some [home]
             else candidates_for name)"

lemma profile_variable_names:
  "(name, prefix) \<in> set profile_variables \<Longrightarrow>
     percent \<notin> set name \<and> known_variable name \<and> prefix \<noteq> []
     \<and> (name = ''LOCALAPPDATA'' \<and> prefix = win ''AppData/Local''
        \<or> name = ''APPDATA'' \<and> prefix = win ''AppData/Roaming'')"
proof -
  have "list_all (\<lambda>(name, prefix). percent \<notin> set name \<and> known_variable name \<and> prefix \<noteq> []
     \<and> (name = ''LOCALAPPDATA'' \<and> prefix = win ''AppData/Local''
        \<or> name = ''APPDATA'' \<and> prefix = win ''AppData/Roaming'')) profile_variables"
    by code_simp
  then show "(name, prefix) \<in> set profile_variables \<Longrightarrow> ?thesis" by (auto simp: list_all_iff)
qed

lemma names_upper:
  "to_ascii_uppercase ''LOCALAPPDATA'' = ''LOCALAPPDATA''"
  "to_ascii_uppercase ''APPDATA'' = ''APPDATA''"
  "to_ascii_uppercase ''USERPROFILE'' = ''USERPROFILE''"
  "to_ascii_uppercase ''PUBLIC'' = ''PUBLIC''"
  "win ''/AppData/Local'' = backslash # win ''AppData/Local''"
  "win ''/AppData/Roaming'' = backslash # win ''AppData/Roaming''"
  by code_simp+

lemma profile_variable_values:
  assumes "(name, prefix) \<in> set profile_variables" and "split_profile path = Some (profile, rest)"
  shows "values_beside path name = Some [(take 3 path @ ''Users'' @ [backslash] @ profile) @ [backslash] @ prefix]"
proof -
  have "name = ''LOCALAPPDATA'' \<and> prefix = win ''AppData/Local''
      \<or> name = ''APPDATA'' \<and> prefix = win ''AppData/Roaming''"
    using profile_variable_names [OF assms(1)] by blast
  then show ?thesis
  proof (elim disjE conjE)
    assume n: "name = ''LOCALAPPDATA''" and p: "prefix = win ''AppData/Local''"
    show ?thesis unfolding values_beside_def assms(2) n p names_upper by simp
  next
    assume n: "name = ''APPDATA''" and p: "prefix = win ''AppData/Roaming''"
    show ?thesis unfolding values_beside_def assms(2) n p names_upper by simp
  qed
qed

lemma home_values:
  assumes "split_profile path = Some (profile, rest)" and "name \<in> {''USERPROFILE'', ''PUBLIC''}"
  shows "values_beside path name = Some [take 3 path @ ''Users'' @ [backslash] @ profile]"
proof -
  from assms(2) consider (home) "name = ''USERPROFILE''" | (shared) "name = ''PUBLIC''" by blast
  then show ?thesis
  proof cases
    case home
    show ?thesis unfolding values_beside_def assms(1) home names_upper by simp
  next
    case shared
    show ?thesis unfolding values_beside_def assms(1) shared names_upper by simp
  qed
qed

lemma home_names:
  "percent \<notin> set ''USERPROFILE'' \<and> known_variable ''USERPROFILE''"
  "percent \<notin> set ''PUBLIC'' \<and> known_variable ''PUBLIC''"
  by code_simp+

lemma roundtrip_outside:
  assumes "percent \<notin> set path" and outside: "split_profile path = None"
  shows "\<exists>p. expand_with (templated path) (values_beside path) = Inr [p] \<and> eq_ignore_ascii_case p path"
proof (cases "find_map (variable_template path) machine_variables")
  case None
  then have "templated path = path" by (simp only: templated_def outside option.case)
  with assms show ?thesis by (simp add: expand_plain eq_ignore_ascii_case_def)
next
  case (Some t)
  then obtain name prefix head tail where v: "(name, prefix) \<in> set machine_variables"
    and t: "t = ''%'' @ name @ ''%'' @ tail" "path = head @ tail"
    and head: "to_ascii_lowercase head = to_ascii_lowercase prefix"
    by (rule variable_templateD)
  from v have "percent \<notin> set name" "known_variable name" "candidates_for name = Some [prefix]"
    by (auto simp: machine_variables_def, code_simp+)
  moreover have "values_beside path = candidates_for"
    by (rule ext) (simp add: values_beside_def outside)
  ultimately have "expand_with (templated path) (values_beside path) = Inr [prefix @ tail]"
    using outside Some assms t by (simp add: templated_def expand_variable [unfolded append.simps])
  then show ?thesis using head t by (simp add: eq_ignore_ascii_case_def lower_append)
qed

lemma roundtrip_inside:
  assumes plain: "percent \<notin> set rest" and inside: "split_profile path = Some (profile, rest)"
  shows "\<exists>p. expand_with (templated path) (values_beside path) = Inr [p] \<and> eq_ignore_ascii_case p path"
proof -
  obtain users where path: "path = take 3 path @ users @ [backslash] @ profile @ rest"
    and users: "to_ascii_lowercase users = to_ascii_lowercase ''Users''"
    and rest: "rest = [] \<or> (\<exists>r. rest = backslash # r)"
    using split_profileD [OF inside] by blast
  let ?home = "take 3 path @ ''Users'' @ [backslash] @ profile"
  have home: "eq_ignore_ascii_case (?home @ rest) path"
    unfolding eq_ignore_ascii_case_def by (subst (2) path) (simp only: lower_append users append_assoc)
  have through: ?thesis
    if "templated path = ''%'' @ name @ ''%'' @ tail" "percent \<notin> set tail" "percent \<notin> set name"
      "known_variable name" "values_beside path name = Some [v]" "v @ tail = ?home @ rest" for name tail v
    using expand_variable [of name tail "values_beside path" v] that home by auto
  show ?thesis
  proof (cases "eq_ignore_ascii_case profile ''public''")
    case True
    then have "templated path = ''%'' @ ''PUBLIC'' @ ''%'' @ rest"
      by (simp add: templated_def inside)
    then show ?thesis
      by (rule through [OF _ plain conjunct1 [OF home_names(2)] conjunct2 [OF home_names(2)]
            home_values [OF inside]]) simp_all
  next
    case False
    let ?inner = "case strip_prefix rest [backslash] of Some r \<Rightarrow> r | None \<Rightarrow> rest"
    show ?thesis
    proof (cases "find_map (variable_template ?inner) profile_variables")
      case None
      then have "templated path = ''%'' @ ''USERPROFILE'' @ ''%'' @ rest"
        using False unfolding templated_def inside by (simp del: find_map_None)
      then show ?thesis
        by (rule through [OF _ plain conjunct1 [OF home_names(1)] conjunct2 [OF home_names(1)]
              home_values [OF inside]]) simp_all
    next
      case (Some t)
      then obtain name prefix head tail where v: "(name, prefix) \<in> set profile_variables"
        and t: "t = ''%'' @ name @ ''%'' @ tail" "?inner = head @ tail"
        and head: "to_ascii_lowercase head = to_ascii_lowercase prefix"
        by (rule variable_templateD)
      note names = profile_variable_names [OF v]
      then have "head \<noteq> []" using head by (auto simp: to_ascii_lowercase_def)
      with t(2) rest have inner: "rest = [backslash] @ head @ tail"
        by (auto simp: strip_prefix_def)
      have "templated path = ''%'' @ name @ ''%'' @ tail"
        using inside False Some t by (simp add: templated_def)
      moreover have "percent \<notin> set tail" using plain inner by simp
      ultimately have "expand_with (templated path) (values_beside path) = Inr [(?home @ [backslash] @ prefix) @ tail]"
        using expand_variable [where vals = "values_beside path", OF _ _ _ profile_variable_values [OF v inside], of tail]
          names by simp
      moreover have "eq_ignore_ascii_case ((?home @ [backslash] @ prefix) @ tail) path"
        using home unfolding inner eq_ignore_ascii_case_def by (simp only: lower_append append_assoc head)
      ultimately show ?thesis by blast
    qed
  qed
qed

text \<open>What a template copies of a path: all of it, or what follows the name of the profile.\<close>

definition copied_part :: "string \<Rightarrow> string" where
  "copied_part path = (case split_profile path of None \<Rightarrow> path | Some (_, rest) \<Rightarrow> rest)"

text \<open>
  C20. A template stands for the path it was made from, as long as the part that is copied from
  the path, all of it or what follows the name of the profile, has no percent sign: expanded by the
  catalog's own expansion, with variables that stand for the directories of the path's own profile
  (whatever its name, the placeholder of a redacted one included) or, outside a profile, for the
  values that validation uses, it gives one path, the same up to the case of ASCII letters.
\<close>

theorem templated_roundtrip:
  assumes "percent \<notin> set (copied_part path)"
  shows "\<exists>p. expand_with (templated path) (values_beside path) = Inr [p] \<and> eq_ignore_ascii_case p path"
proof (cases "split_profile path")
  case None
  with assms show ?thesis by (intro roundtrip_outside) (simp_all add: copied_part_def)
next
  case (Some pair)
  obtain profile rest where pair: "pair = (profile, rest)" by fastforce
  with Some assms show ?thesis by (intro roundtrip_inside [of rest path profile]) (simp_all add: copied_part_def)
qed

theorem templated_roundtrip_witness:
  "\<exists>p. expand_with (templated (win ''C:/Users/%USER%/AppData/Local/ExAC''))
         (values_beside (win ''C:/Users/%USER%/AppData/Local/ExAC'')) = Inr [p]
     \<and> eq_ignore_ascii_case p (win ''C:/Users/%USER%/AppData/Local/ExAC'')
     \<and> templated (win ''C:/Users/%USER%/AppData/Local/ExAC'') = win ''%LOCALAPPDATA%/ExAC''"
proof -
  have "percent \<notin> set (copied_part (win ''C:/Users/%USER%/AppData/Local/ExAC''))"
    and "templated (win ''C:/Users/%USER%/AppData/Local/ExAC'') = win ''%LOCALAPPDATA%/ExAC''"
    by code_simp+
  then show ?thesis using templated_roundtrip [of "win ''C:/Users/%USER%/AppData/Local/ExAC''"] by blast
qed

text \<open>A percent sign in the part that is copied is taken for a variable: the template of such a
  path does not expand.\<close>

lemma percent_in_path_unexpandable:
  "templated (win ''C:/100%/x'') = win ''C:/100%/x''
   \<and> expand_with (templated (win ''C:/100%/x'')) vals = Inl UnterminatedVariable"
proof -
  have same: "templated (win ''C:/100%/x'') = win ''C:/100%/x''" by code_simp
  have "find_sub (win ''C:/100%/x'') ''%'' = Some 6" "find_sub (drop 7 (win ''C:/100%/x'')) ''%'' = None"
    by code_simp+
  then show ?thesis unfolding same expand_with_def by (simp add: expand_loop.simps)
qed

end
