(* ===== verification/Json.thy ===== *)
theory Json
  imports Rust_Str "HOL-Library.Word"
begin

text \<open>
  JSON values as \<open>serde_json::Value\<close> holds them: an object is its members in their order, a
  number is an unsigned or a negative 64-bit integer or the text of another number.  Reading
  and printing are parameters of what uses them.
\<close>

datatype json_number = PosInt "64 word" | NegInt int | OtherNumber string

datatype json =
  JsonNull | JsonBool bool | JsonNumber json_number | JsonString string
  | JsonArray "json list" | JsonObject "(string \<times> json) list"

fun json_get :: "json \<Rightarrow> string \<Rightarrow> json option" where
  "json_get (JsonObject members) k = map_of members k"
| "json_get _ k = None"

fun json_str :: "json \<Rightarrow> string option" where
  "json_str (JsonString s) = Some s"
| "json_str _ = None"

fun json_u64 :: "json \<Rightarrow> 64 word option" where
  "json_u64 (JsonNumber (PosInt w)) = Some w"
| "json_u64 _ = None"

section \<open>Walking a document\<close>

text \<open>Every text of a document, in the order a walk meets them: each key, each string.\<close>

fun texts_of :: "json \<Rightarrow> string list" where
  "texts_of (JsonString s) = [s]"
| "texts_of (JsonArray xs) = concat (map texts_of xs)"
| "texts_of (JsonObject ms) = concat (map (\<lambda>(k, x). k # texts_of x) ms)"
| "texts_of _ = []"

text \<open>How deep a document nests, which is what a walk over it descends.\<close>

fun depth :: "json \<Rightarrow> nat" where
  "depth (JsonArray xs) = Suc (sum_list (map depth xs))"
| "depth (JsonObject ms) = Suc (sum_list (map (\<lambda>(k, x). depth x) ms))"
| "depth _ = 1"

lemma depth_pos [simp]: "0 < depth x"
  by (cases x) auto

lemma depth_array: "x \<in> set xs \<Longrightarrow> depth x < depth (JsonArray xs)"
  by (simp add: less_Suc_eq_le member_le_sum_list)

lemma depth_object: "(k, x) \<in> set ms \<Longrightarrow> depth x < depth (JsonObject ms)"
  using member_le_sum_list [of "depth x" "map (\<lambda>(k, x). depth x) ms"]
  by (force simp: less_Suc_eq_le)

text \<open>A walk that rewrites a list and threads a state through it.\<close>

fun map_state :: "('a \<Rightarrow> 's \<Rightarrow> 'b \<times> 's) \<Rightarrow> 'a list \<Rightarrow> 's \<Rightarrow> 'b list \<times> 's" where
  "map_state f [] s = ([], s)"
| "map_state f (x # xs) s =
     (let (y, s) = f x s; (ys, s) = map_state f xs s in (y # ys, s))"

lemma map_state_cong [fundef_cong]:
  "xs = ys \<Longrightarrow> s = t \<Longrightarrow> (\<And>x u. x \<in> set ys \<Longrightarrow> f x u = g x u) \<Longrightarrow>
   map_state f xs s = map_state g ys t"
  by (induction xs arbitrary: ys s t) auto

lemma map_state_all2:
  "(\<And>x s. x \<in> set xs \<Longrightarrow> P x (fst (f x s))) \<Longrightarrow> list_all2 P xs (fst (map_state f xs s))"
  by (induction xs arbitrary: s) (auto simp: split_beta Let_def)

end
