(* ===== verification/Utf16.thy ===== *)
theory Utf16
  imports Rust_Str
begin

text \<open>
  Texts as the code points they encode: UTF-8 in a \<open>String\<close>, UTF-16 at the Windows interfaces.
  A unit is a natural number below 65536.  Reading what was written gives the text back.
\<close>

section \<open>Bytes as text\<close>

definition byte_in :: "nat \<Rightarrow> nat \<Rightarrow> char \<Rightarrow> bool" where
  "byte_in lo hi c \<longleftrightarrow> lo \<le> (of_char c :: nat) \<and> (of_char c :: nat) \<le> hi"

text \<open>\<open>std::str::from_utf8\<close> accepts exactly the well-formed byte sequences.\<close>

fun is_utf8 :: "string \<Rightarrow> bool" where
  "is_utf8 [] = True"
| "is_utf8 (a # s) =
     (if byte_in 0 127 a then is_utf8 s
      else if byte_in 194 223 a then
        (case s of b # s' \<Rightarrow> is_continuation_byte b \<and> is_utf8 s' | _ \<Rightarrow> False)
      else if byte_in 224 239 a then
        (case s of
           b # c # s' \<Rightarrow>
             is_continuation_byte b \<and> is_continuation_byte c
             \<and> (byte_in 224 224 a \<longrightarrow> byte_in 160 191 b) \<and> (byte_in 237 237 a \<longrightarrow> byte_in 128 159 b)
             \<and> is_utf8 s'
         | _ \<Rightarrow> False)
      else if byte_in 240 244 a then
        (case s of
           b # c # d # s' \<Rightarrow>
             is_continuation_byte b \<and> is_continuation_byte c \<and> is_continuation_byte d
             \<and> (byte_in 240 240 a \<longrightarrow> byte_in 144 191 b) \<and> (byte_in 244 244 a \<longrightarrow> byte_in 128 143 b)
             \<and> is_utf8 s'
         | _ \<Rightarrow> False)
      else False)"

section \<open>Encoding\<close>

text \<open>
  The code points of a UTF-8 text, and \<open>encode_utf16\<close> of them.  A \<open>str\<close> never ends inside a
  character; the replacement character stands where one would.
\<close>

definition low_bits :: "nat \<Rightarrow> char \<Rightarrow> nat" where
  "low_bits n c = of_char c mod 2 ^ n"

fun code_points :: "string \<Rightarrow> nat list" where
  "code_points [] = []"
| "code_points (a # s) =
     (if (of_char a :: nat) < 192 then of_char a # code_points s
      else if (of_char a :: nat) < 224 then
        (case s of b # s \<Rightarrow> (low_bits 5 a * 64 + low_bits 6 b) # code_points s | _ \<Rightarrow> [65533])
      else if (of_char a :: nat) < 240 then
        (case s of b # c # s \<Rightarrow>
           (low_bits 4 a * 4096 + low_bits 6 b * 64 + low_bits 6 c) # code_points s | _ \<Rightarrow> [65533])
      else
        (case s of b # c # d # s \<Rightarrow>
           (low_bits 3 a * 262144 + low_bits 6 b * 4096 + low_bits 6 c * 64 + low_bits 6 d)
             # code_points s | _ \<Rightarrow> [65533]))"

definition utf16_units :: "nat \<Rightarrow> nat list" where
  "utf16_units n =
     (if n < 65536 then [n]
      else [55296 + (n - 65536) div 1024, 56320 + (n - 65536) mod 1024])"

definition encode_utf16 :: "string \<Rightarrow> nat list" where
  "encode_utf16 s = concat (map utf16_units (code_points s))"

section \<open>Decoding\<close>

definition utf8_bytes :: "nat \<Rightarrow> string" where
  "utf8_bytes n =
     (if n < 128 then [char_of n]
      else if n < 2048 then [char_of (192 + n div 64), char_of (128 + n mod 64)]
      else if n < 65536 then
        [char_of (224 + n div 4096), char_of (128 + n div 64 mod 64), char_of (128 + n mod 64)]
      else
        [char_of (240 + n div 262144), char_of (128 + n div 4096 mod 64), char_of (128 + n div 64 mod 64),
         char_of (128 + n mod 64)])"

text \<open>A surrogate without its other half is no code point.\<close>

fun utf16_points :: "nat list \<Rightarrow> nat option list" where
  "utf16_points [] = []"
| "utf16_points (u # us) =
     (if u < 55296 \<or> 57344 \<le> u then Some u # utf16_points us
      else if 56320 \<le> u then None # utf16_points us
      else (case us of
              [] \<Rightarrow> [None]
            | v # vs \<Rightarrow>
                if 56320 \<le> v \<and> v < 57344
                then Some (65536 + (u - 55296) * 1024 + (v - 56320)) # utf16_points vs
                else None # utf16_points us))"

definition from_utf16_lossy :: "nat list \<Rightarrow> string" where
  "from_utf16_lossy us =
     concat (map (\<lambda>p. utf8_bytes (case p of Some n \<Rightarrow> n | None \<Rightarrow> 65533)) (utf16_points us))"

text \<open>\<open>String::from_utf16\<close>, which has no replacement.\<close>

definition from_utf16 :: "nat list \<Rightarrow> string option" where
  "from_utf16 us = (if None \<in> set (utf16_points us) then None else Some (from_utf16_lossy us))"

section \<open>Texts that end in a zero\<close>

definition to_wide :: "string \<Rightarrow> nat list" where
  "to_wide s = encode_utf16 s @ [0]"

definition wide_to_string :: "nat list \<Rightarrow> string" where
  "wide_to_string buffer = from_utf16_lossy (takeWhile (\<lambda>u. u \<noteq> 0) buffer)"

text \<open>The units of a buffer of bytes, the lower byte first; an odd byte at the end is no unit.\<close>

fun le_units :: "string \<Rightarrow> nat list" where
  "le_units (a # b # s) = (of_char a + 256 * of_char b) # le_units s"
| "le_units _ = []"

section \<open>Reading what was written\<close>

definition scalar :: "nat \<Rightarrow> bool" where
  "scalar n \<longleftrightarrow> n < 55296 \<or> 57344 \<le> n \<and> n < 1114112"

lemma points_of_units:
  assumes "scalar n"
  shows "utf16_points (utf16_units n @ us) = Some n # utf16_points us"
proof (cases "n < 65536")
  case True
  with assms show ?thesis by (auto simp: utf16_units_def scalar_def)
next
  case False
  then have "n < 1114112" using assms by (auto simp: scalar_def)
  with False have "(n - 65536) div 1024 < 1024" by (simp add: less_mult_imp_div_less)
  moreover have "65536 + (n - 65536) div 1024 * 1024 + (n - 65536) mod 1024 = n" using False by simp
  ultimately show ?thesis using False by (simp add: utf16_units_def)
qed

lemma points_of_text: "list_all scalar ns \<Longrightarrow> utf16_points (concat (map utf16_units ns)) = map Some ns"
  by (induction ns) (auto simp: points_of_units)

text \<open>A byte above a multiple of a power of two, as the bits below it.\<close>

lemma low_bits_above:
  assumes "base \<le> (of_char c :: nat)" and "(of_char c :: nat) < base + 2 ^ m" and "2 ^ m dvd base"
  obtains i :: nat where "of_char c = base + i" "i < 2 ^ m" "low_bits m c = i"
proof -
  obtain i where i: "(of_char c :: nat) = base + i" using assms(1) le_Suc_ex by blast
  with assms(2) have "i < 2 ^ m" by simp
  moreover from this have "low_bits m c = i"
    using assms(3) unfolding low_bits_def i by (simp add: mod_add_eq dvd_imp_mod_0 flip: mod_add_left_eq)
  ultimately show thesis using that i by blast
qed

lemma continuation_bits:
  assumes "is_continuation_byte b"
  obtains p :: nat where "of_char b = 128 + p" "p < 64" "low_bits 6 b = p"
  using assms by (auto simp: is_continuation_byte_def intro: low_bits_above [of 128 b 6])

lemma split_64: "q < 64 \<Longrightarrow> (k * 64 + q) mod 64 = (q :: nat) \<and> (k * 64 + q) div 64 = k"
  by simp

lemma char_of_eq: "n = (of_char c :: nat) \<Longrightarrow> char_of n = c"
  by simp

text \<open>The bytes of the code points of a well-formed text are the text.\<close>

lemma two_bytes:
  assumes "byte_in 194 223 a" and "is_continuation_byte b"
  shows "utf8_bytes (low_bits 5 a * 64 + low_bits 6 b) = [a, b] \<and> scalar (low_bits 5 a * 64 + low_bits 6 b)"
proof -
  obtain i :: nat where i: "of_char a = 192 + i" "i < 32" "low_bits 5 a = i"
    using assms(1) by (auto simp: byte_in_def intro: low_bits_above [of 192 a 5])
  then have "2 \<le> i" using assms(1) by (simp add: byte_in_def)
  moreover
  obtain p where p: "of_char b = 128 + p" "p < 64" "low_bits 6 b = p"
    using assms(2) by (rule continuation_bits)
  ultimately show ?thesis using i by (simp add: utf8_bytes_def scalar_def char_of_eq)
qed

lemma three_bytes:
  assumes "byte_in 224 239 a" and "is_continuation_byte b" and "is_continuation_byte c"
    and "byte_in 224 224 a \<longrightarrow> byte_in 160 191 b" and "byte_in 237 237 a \<longrightarrow> byte_in 128 159 b"
  defines "n \<equiv> low_bits 4 a * 4096 + low_bits 6 b * 64 + low_bits 6 c"
  shows "utf8_bytes n = [a, b, c] \<and> scalar n"
proof -
  obtain i :: nat where i: "of_char a = 224 + i" "i < 16" "low_bits 4 a = i"
    using assms(1) by (auto simp: byte_in_def intro: low_bits_above [of 224 a 4])
  obtain p where p: "of_char b = 128 + p" "p < 64" "low_bits 6 b = p"
    using assms(2) by (rule continuation_bits)
  obtain q where q: "of_char c = 128 + q" "q < 64" "low_bits 6 c = q"
    using assms(3) by (rule continuation_bits)
  have low: "i = 0 \<longrightarrow> 32 \<le> p" and high: "i = 13 \<longrightarrow> p < 32"
    using assms(4,5) i(1) p(1) by (auto simp: byte_in_def)
  have n: "n = (i * 64 + p) * 64 + q" by (simp add: n_def i p q)
  then have "n mod 64 = q" "n div 64 = i * 64 + p" using split_64 [OF q(2), of "i * 64 + p"] by simp_all
  moreover from this have "n div 4096 = i" "n div 64 mod 64 = p"
    using p(2) div_mult2_eq [of n 64 64] by simp_all
  moreover have linear: "n = 4096 * i + 64 * p + q" using n by simp
  then have "n < 65536" using i(2) p(2) q(2) by linarith
  moreover have "2048 \<le> n" using linear low by (cases "i = 0") linarith+
  moreover have "n < 55296 \<or> 57344 \<le> n"
  proof -
    consider "i < 13" | "i = 13" | "14 \<le> i" by linarith
    then show ?thesis by cases (use linear high p(2) q(2) in linarith)+
  qed
  ultimately show ?thesis using i p q by (simp add: utf8_bytes_def scalar_def char_of_eq)
qed

lemma four_bytes:
  assumes "byte_in 240 244 a" and "is_continuation_byte b" and "is_continuation_byte c" and "is_continuation_byte d"
    and "byte_in 240 240 a \<longrightarrow> byte_in 144 191 b" and "byte_in 244 244 a \<longrightarrow> byte_in 128 143 b"
  defines "n \<equiv> low_bits 3 a * 262144 + low_bits 6 b * 4096 + low_bits 6 c * 64 + low_bits 6 d"
  shows "utf8_bytes n = [a, b, c, d] \<and> scalar n"
proof -
  obtain i :: nat where i: "of_char a = 240 + i" "i < 8" "low_bits 3 a = i"
    using assms(1) by (auto simp: byte_in_def intro: low_bits_above [of 240 a 3])
  then have i5: "i < 5" using assms(1) by (simp add: byte_in_def)
  obtain p where p: "of_char b = 128 + p" "p < 64" "low_bits 6 b = p"
    using assms(2) by (rule continuation_bits)
  obtain q where q: "of_char c = 128 + q" "q < 64" "low_bits 6 c = q"
    using assms(3) by (rule continuation_bits)
  obtain r where r: "of_char d = 128 + r" "r < 64" "low_bits 6 d = r"
    using assms(4) by (rule continuation_bits)
  have low: "i = 0 \<longrightarrow> 16 \<le> p" and high: "i = 4 \<longrightarrow> p < 16"
    using assms(5,6) i(1) p(1) by (auto simp: byte_in_def)
  have n: "n = ((i * 64 + p) * 64 + q) * 64 + r" by (simp add: n_def i p q r)
  then have "n mod 64 = r" "n div 64 = (i * 64 + p) * 64 + q"
    using split_64 [OF r(2), of "(i * 64 + p) * 64 + q"] by simp_all
  moreover from this have "n div 64 mod 64 = q" "n div 4096 = i * 64 + p"
    using split_64 [OF q(2), of "i * 64 + p"] div_mult2_eq [of n 64 64] by simp_all
  moreover from this have "n div 4096 mod 64 = p" "n div 262144 = i"
    using p(2) div_mult2_eq [of n 4096 64] by simp_all
  moreover have linear: "n = 262144 * i + 4096 * p + 64 * q + r" using n by simp
  then have "65536 \<le> n" using low by (cases "i = 0") linarith+
  moreover have "n < 1114112"
  proof (cases "i = 4")
    case True
    then show ?thesis using linear high p(2) q(2) r(2) by linarith
  next
    case False
    then show ?thesis using linear i5 p(2) q(2) r(2) by linarith
  qed
  ultimately show ?thesis using i p q r by (simp add: utf8_bytes_def scalar_def char_of_eq)
qed

lemma code_points_bytes:
  "is_utf8 s \<Longrightarrow> concat (map utf8_bytes (code_points s)) = s \<and> list_all scalar (code_points s)"
proof (induction s rule: is_utf8.induct)
  case (2 a s)
  note lead = byte_in_def [of _ _ a]
  consider (1) "byte_in 0 127 a" | (2) "byte_in 194 223 a" | (3) "byte_in 224 239 a" | (4) "byte_in 240 244 a"
    using "2.prems" by (auto split: if_splits)
  then show ?case
  proof cases
    case 1
    then have "utf8_bytes (of_char a) = [a]" "scalar (of_char a)" "code_points (a # s) = of_char a # code_points s"
      by (simp_all add: lead utf8_bytes_def scalar_def)
    with 1 "2.IH"(1) "2.prems" show ?thesis by simp
  next
    case 2
    then have "\<not> byte_in 0 127 a" by (simp add: lead)
    with 2 "2.prems" obtain b t where "s = b # t" "is_continuation_byte b" "is_utf8 t"
      by (auto split: list.splits)
    with 2 \<open>\<not> byte_in 0 127 a\<close> "2.IH"(2) two_bytes [of a b] show ?thesis by (simp add: lead)
  next
    case 3
    then have no: "\<not> byte_in 0 127 a" "\<not> byte_in 194 223 a" by (simp_all add: lead)
    with 3 "2.prems" obtain b c t where "s = b # c # t" "is_utf8 t" "is_continuation_byte b" "is_continuation_byte c"
      "byte_in 224 224 a \<longrightarrow> byte_in 160 191 b" "byte_in 237 237 a \<longrightarrow> byte_in 128 159 b"
      by (auto split: list.splits)
    with 3 no "2.IH"(3) three_bytes [of a b c] show ?thesis by (simp add: lead)
  next
    case 4
    then have no: "\<not> byte_in 0 127 a" "\<not> byte_in 194 223 a" "\<not> byte_in 224 239 a" by (simp_all add: lead)
    with 4 "2.prems" obtain b c d t where "s = b # c # d # t" "is_utf8 t" "is_continuation_byte b"
      "is_continuation_byte c" "is_continuation_byte d"
      "byte_in 240 240 a \<longrightarrow> byte_in 144 191 b" "byte_in 244 244 a \<longrightarrow> byte_in 128 143 b"
      by (auto split: list.splits)
    with 4 no "2.IH"(4) four_bytes [of a b c d] show ?thesis by (simp add: lead)
  qed
qed simp

lemma zero_code_point: "is_utf8 s \<Longrightarrow> CHR 0x00 \<notin> set s \<Longrightarrow> 0 \<notin> set (code_points s)"
proof
  assume "is_utf8 s" "CHR 0x00 \<notin> set s" "0 \<in> set (code_points s)"
  moreover have "utf8_bytes 0 = [CHR 0x00]" by code_simp
  ultimately have "CHR 0x00 \<in> set (concat (map utf8_bytes (code_points s)))" by force
  then show False using code_points_bytes \<open>is_utf8 s\<close> \<open>CHR 0x00 \<notin> set s\<close> by simp
qed

lemma zero_unit: "0 \<notin> set ns \<Longrightarrow> 0 \<notin> set (concat (map utf16_units ns))"
  by (induction ns) (auto simp: utf16_units_def)

text \<open>
  A text without a zero that is written for Windows and read back is the same text, whatever
  follows it in the buffer.
\<close>

theorem wide_roundtrip:
  assumes "is_utf8 s" and "CHR 0x00 \<notin> set s"
  shows "wide_to_string (to_wide s @ rest) = s"
proof -
  have bytes: "concat (map utf8_bytes (code_points s)) = s" "list_all scalar (code_points s)"
    using code_points_bytes [OF assms(1)] by simp_all
  have "0 \<notin> set (encode_utf16 s)"
    unfolding encode_utf16_def using zero_unit zero_code_point [OF assms] by blast
  then have "takeWhile (\<lambda>u. u \<noteq> 0) (to_wide s @ rest) = encode_utf16 s"
    unfolding to_wide_def append_assoc by (subst takeWhile_append2) (auto intro: gr0I)
  then show ?thesis
    using bytes by (simp add: wide_to_string_def from_utf16_lossy_def encode_utf16_def points_of_text comp_def)
qed

theorem wide_roundtrip_witness:
  "wide_to_string (to_wide [CHR 0xF0, CHR 0x9F, CHR 0x98, CHR 0x80, CHR ''a''] @ [7]) =
     [CHR 0xF0, CHR 0x9F, CHR 0x98, CHR 0x80, CHR ''a'']"
proof (rule wide_roundtrip)
  show "is_utf8 [CHR 0xF0, CHR 0x9F, CHR 0x98, CHR 0x80, CHR ''a'']" by code_simp
qed simp

end
