(* ===== verification/Redact.thy ===== *)
theory Redact
  imports Json Ordered_Map Scan_Str Utf16
begin

text \<open>
  Removing personal identity from a document: \<open>tools/observe/src/redact.rs\<close>.  A text is its
  UTF-8 bytes; every slice the code takes is at the edge of a match of a whole text or of an
  ASCII byte, which is a character boundary, so no slice here panics.

  An iterator over the non-overlapping matches of a pattern and a loop that advances past
  what it found are the same scan, \<open>pick\<close>.
\<close>

section \<open>Constants\<close>

definition min_name_len :: nat where "min_name_len = 3"
definition max_contexts :: nat where "max_contexts = 5"
definition context_chars :: nat where "context_chars = 24"

definition user_placeholder :: string where "user_placeholder = ''%USER%''"
definition sid_placeholder :: string where "sid_placeholder = ''S-1-5-21-%REDACTED%''"
definition identity_sid_placeholder :: string where
  "identity_sid_placeholder = ''S-1-5-99-%REDACTED%''"
definition host_placeholder :: string where "host_placeholder = ''%COMPUTER%''"
definition email_placeholder :: string where "email_placeholder = ''%EMAIL%''"
definition id_placeholder :: string where "id_placeholder = ''%ID%''"

definition identifying_sids :: "(string \<times> string) list" where
  "identifying_sids =
     [(''S-1-5-21-'', sid_placeholder), (''S-1-5-99-'', identity_sid_placeholder)]"

definition binary_prefix :: string where "binary_prefix = ''binary:''"

definition identifier_names :: "string list" where
  "identifier_names =
     [''sessionid'', ''deviceid'', ''machineid'', ''clientid'', ''installid'', ''userid'',
      ''accountid'', ''roleid'', ''_uid'']"

section \<open>Names\<close>

definition find_ignoring_case :: "string \<Rightarrow> string \<Rightarrow> nat list" where
  "find_ignoring_case t needle =
     (if needle = [] \<or> length t < length needle then []
      else match_indices (to_ascii_lowercase t) (to_ascii_lowercase needle))"

definition is_shared_profile :: "string \<Rightarrow> bool" where
  "is_shared_profile name \<longleftrightarrow>
     eq_ignore_ascii_case name ''public''
     \<or> eq_ignore_ascii_case name ''default''
     \<or> eq_ignore_ascii_case name ''all users''
     \<or> eq_ignore_ascii_case name ''default user''"

definition profile_name :: "string \<Rightarrow> string option" where
  "profile_name t =
     (let path = (case strip_prefix t (win ''//?/'') of Some r \<Rightarrow> r | None \<Rightarrow> t)
      in if length path < 3 \<or> \<not> is_alphabetic_byte (path ! 0) \<or> path ! 1 \<noteq> CHR '':''
            \<or> path ! 2 \<noteq> backslash then None
         else
           let rest = drop 3 path
           in case strip_prefix (to_ascii_lowercase rest) (win ''users/'') of
                None \<Rightarrow> None
              | Some after \<Rightarrow>
                  let start = length rest - length after;
                      name = takeWhile (\<lambda>c. c \<noteq> backslash) (drop start rest)
                  in if name = [] \<or> is_shared_profile name \<or> name = user_placeholder
                        \<or> list_ex (\<lambda>c. c \<in> set (''*?/[]:;|=,+<>'' @ [CHR 0x22])) name
                     then None else Some name)"

fun collect_names :: "json \<Rightarrow> string list \<Rightarrow> string list" where
  "collect_names (JsonString t) names =
     (case profile_name t of Some n \<Rightarrow> ordered_set (n # names) | None \<Rightarrow> names)"
| "collect_names (JsonArray xs) names = fold collect_names xs names"
| "collect_names (JsonObject ms) names = fold (\<lambda>(k, x). collect_names x) ms names"
| "collect_names _ names = names"

definition discover_names :: "json \<Rightarrow> string list" where
  "discover_names v = collect_names v []"

section \<open>Binary values\<close>

definition hex_value :: "char \<Rightarrow> nat" where
  "hex_value c =
     (if is_digit_byte c then of_char c - 48
      else if is_upper_byte c then of_char c - 55 else of_char c - 87)"

fun hex_pairs :: "string \<Rightarrow> string" where
  "hex_pairs (a # b # s) = char_of (16 * hex_value a + hex_value b) # hex_pairs s"
| "hex_pairs _ = []"

definition decode_hex :: "string \<Rightarrow> string option" where
  "decode_hex t =
     (if length t < 2 \<or> odd (length t) \<or> \<not> list_all is_hexdigit_byte t then None
      else Some (hex_pairs t))"

definition hex_digit :: "bool \<Rightarrow> nat \<Rightarrow> char" where
  "hex_digit upper n =
     (if upper then ''0123456789ABCDEF'' ! n else ''0123456789abcdef'' ! n)"

definition encode_hex :: "string \<Rightarrow> bool \<Rightarrow> string" where
  "encode_hex bytes upper =
     concat (map (\<lambda>b. [hex_digit upper (of_char b div 16), hex_digit upper (of_char b mod 16)]) bytes)"

definition encode_text :: "string \<Rightarrow> bool \<Rightarrow> string" where
  "encode_text t wide =
     (if wide then
        concat (map (\<lambda>u. [char_of (u mod 256), char_of (u div 256)])
          (concat (map utf16_units (code_points t))))
      else t)"

definition is_word_at :: "string \<Rightarrow> bool \<Rightarrow> nat \<Rightarrow> bool" where
  "is_word_at bytes wide at \<longleftrightarrow>
     at < length bytes \<and> is_ascii_alphanumeric (bytes ! at)
     \<and> (\<not> wide \<or> Suc at < length bytes \<and> bytes ! Suc at = CHR 0x00)"

definition find_encoded :: "string \<Rightarrow> string \<Rightarrow> bool \<Rightarrow> bool \<Rightarrow> nat list" where
  "find_encoded bytes name wide bounded =
     (let pattern = encode_text name wide;
          unit = (if wide then 2 else 1);
          matches = (\<lambda>at. eq_ignore_ascii_case (take (length pattern) (drop at bytes)) pattern);
          alone = (\<lambda>at. \<not> bounded
            \<or> (at < unit \<or> \<not> is_word_at bytes wide (at - unit))
              \<and> \<not> is_word_at bytes wide (at + length pattern))
      in if pattern = [] \<or> length bytes < length pattern then []
         else pick (\<lambda>at. matches at \<and> alone at) (length pattern)
                (Suc (length bytes) - length pattern) 0 0)"

text \<open>The loop that copies what is between the hits and puts a replacement at each.\<close>

fun spliced :: "string \<Rightarrow> string \<Rightarrow> nat \<Rightarrow> nat \<Rightarrow> nat list \<Rightarrow> string" where
  "spliced bytes replacement width copied [] = drop copied bytes"
| "spliced bytes replacement width copied (start # starts) =
     take (start - copied) (drop copied bytes) @ replacement
       @ spliced bytes replacement width (start + width) starts"

section \<open>Rewriting a text\<close>

text \<open>\<open>replace_bare_name\<close>: the loop over the occurrences, with what is copied so far.\<close>

fun bare_name_loop :: "string \<Rightarrow> nat \<Rightarrow> string \<Rightarrow> nat \<Rightarrow> nat list \<Rightarrow> string \<times> bool" where
  "bare_name_loop t n placeholder cursor [] = (drop cursor t, False)"
| "bare_name_loop t n placeholder cursor (start # starts) =
     (if start < cursor then bare_name_loop t n placeholder cursor starts
      else
        let stop = start + n;
            before_ok = (start = 0 \<or> \<not> is_ascii_alphanumeric (t ! (start - 1)));
            after_ok = (length t \<le> stop \<or> \<not> is_ascii_alphanumeric (t ! stop))
        in if before_ok \<and> after_ok then
             (take (start - cursor) (drop cursor t) @ placeholder
                @ fst (bare_name_loop t n placeholder stop starts), True)
           else bare_name_loop t n placeholder cursor starts)"

definition replace_bare_name :: "string \<Rightarrow> string \<Rightarrow> string \<Rightarrow> string option" where
  "replace_bare_name t name placeholder =
     (let starts = find_ignoring_case t name
      in if starts = [] then None
         else let (result, hit) = bare_name_loop t (length name) placeholder 0 starts
              in if hit then Some result else None)"

definition users_segment :: string where
  "users_segment = win ''/users/''"

function profiles_loop :: "string \<Rightarrow> string \<times> bool" where
  "profiles_loop t =
     (case find_sub (to_ascii_lowercase t) users_segment of
        None \<Rightarrow> (t, False)
      | Some found \<Rightarrow>
          let start = found + length users_segment;
              name = takeWhile (\<lambda>c. c \<noteq> backslash) (drop start t);
              (later, hit) = profiles_loop (drop (start + length name) t)
          in if is_shared_profile name \<or> name = user_placeholder \<or> name = []
             then (take start t @ name @ later, hit)
             else (take start t @ user_placeholder @ later, True))"
  by pat_completeness auto
termination
  by (relation "measure length")
    (auto dest!: find_sub_Some dest: arg_cong [where f = length]
      simp: users_segment_def win_def to_ascii_lowercase_def)

declare profiles_loop.simps [simp del]

definition replace_user_profiles :: "string \<Rightarrow> string option" where
  "replace_user_profiles t = (let (result, hit) = profiles_loop t in if hit then Some result else None)"

lemma drop_shorter: "p \<noteq> [] \<Longrightarrow> n - k < m + (length p + n)"
  by (cases p) auto

function sid_loop :: "string \<Rightarrow> string \<Rightarrow> string \<Rightarrow> string \<times> bool" where
  "sid_loop prefix placeholder t =
     (case find_sub t prefix of
        None \<Rightarrow> (t, False)
      | Some found \<Rightarrow>
          let later = drop (found + length prefix) t
          in if prefix = [] then (t, False)
             else if starts_with later (drop (length prefix) placeholder) then
               let (done, hit) = sid_loop prefix placeholder
                     (drop (length placeholder - length prefix) later)
               in (take found t @ placeholder @ done, hit)
             else
               let taken = length (takeWhile (\<lambda>c. is_digit_byte c \<or> c = CHR ''-'') later);
                   (done, hit) = sid_loop prefix placeholder (drop taken later)
               in (take found t @ placeholder @ done, True))"
  by pat_completeness auto
termination
  by (relation "measure (\<lambda>(_, _, t). length t)")
    (auto dest!: find_sub_Some dest: arg_cong [where f = length]
      simp: drop_shorter)

declare sid_loop.simps [simp del]

definition replace_sid_domain :: "string \<Rightarrow> string \<Rightarrow> string \<Rightarrow> string option" where
  "replace_sid_domain t prefix placeholder =
     (if \<not> contains_sub t prefix then None
      else let (result, hit) = sid_loop prefix placeholder t in if hit then Some result else None)"

text \<open>One pass per domain: the text so far and the placeholders used.\<close>

definition replace_domain ::
    "string \<times> string \<Rightarrow> string \<times> string list \<Rightarrow> string \<times> string list" where
  "replace_domain domain st =
     (case replace_sid_domain (fst st) (fst domain) (snd domain) of
        Some replaced \<Rightarrow> (replaced, snd st @ [snd domain])
      | None \<Rightarrow> st)"

definition replace_sids :: "string \<Rightarrow> (string \<times> string list) option" where
  "replace_sids t =
     (let (result, used) = fold replace_domain identifying_sids (t, [])
      in if used = [] then None else Some (result, used))"

definition replace_unc_hosts :: "string \<Rightarrow> string option" where
  "replace_unc_hosts t =
     (if \<not> starts_with t [backslash, backslash] then None
      else
        let rest = drop 2 t
        in if starts_with rest ''.'' \<or> starts_with rest ''?'' then None
           else
             let host = takeWhile (\<lambda>c. c \<noteq> backslash) rest
             in if host = [] \<or> host = host_placeholder then None
                else Some ([backslash, backslash] @ host_placeholder @ drop (length host) rest))"

section \<open>E-mail addresses\<close>

definition is_local_byte :: "char \<Rightarrow> bool" where
  "is_local_byte c \<longleftrightarrow> is_ascii_alphanumeric c \<or> c \<in> set ''._%+-''"

definition is_domain_byte :: "char \<Rightarrow> bool" where
  "is_domain_byte c \<longleftrightarrow> is_ascii_alphanumeric c \<or> c \<in> set ''.-''"

definition image_extensions :: "string list" where
  "image_extensions =
     [''png'', ''jpg'', ''jpeg'', ''gif'', ''svg'', ''webp'', ''bmp'', ''ico'']"

definition is_scale_suffix :: "string \<Rightarrow> bool" where
  "is_scale_suffix domain \<longleftrightarrow>
     (case rsplit_once domain ''.'' of
        None \<Rightarrow> False
      | Some (scale, extension) \<Rightarrow>
          (case (if ends_with scale ''x'' then strip_suffix scale ''x'' else strip_suffix scale ''X'') of
             None \<Rightarrow> False
           | Some number \<Rightarrow>
               number \<noteq> [] \<and> is_digit_byte (hd number)
               \<and> list_all (\<lambda>c. is_digit_byte c \<or> c = CHR ''.'') number
               \<and> list_ex (\<lambda>image. eq_ignore_ascii_case image extension) image_extensions))"

definition is_email_domain :: "string \<Rightarrow> bool" where
  "is_email_domain domain \<longleftrightarrow>
     (let labels = split_char (CHR ''.'') domain
      in \<not> is_scale_suffix domain
         \<and> 2 \<le> length labels
         \<and> list_all (\<lambda>l. l \<noteq> [] \<and> \<not> starts_with l ''-'' \<and> \<not> ends_with l ''-'') labels
         \<and> 2 \<le> length (last labels) \<and> list_all is_alphabetic_byte (last labels))"

definition at_sign :: char where "at_sign = CHR ''@''"

text \<open>The local part before the \<open>@\<close> at an index, and the domain after it.\<close>

definition local_start :: "string \<Rightarrow> nat \<Rightarrow> nat \<Rightarrow> nat" where
  "local_start t copied at =
     at - length (takeWhile is_local_byte (rev (take (at - copied) (drop copied t))))"

definition email_domain :: "string \<Rightarrow> nat \<Rightarrow> string" where
  "email_domain t at =
     trim_end_matches (\<lambda>c. c \<in> set ''.-'') (takeWhile is_domain_byte (drop (Suc at) t))"

function emails_loop :: "string \<Rightarrow> nat \<Rightarrow> nat \<Rightarrow> string \<times> bool" where
  "emails_loop t copied search =
     (case find_sub (drop search t) [at_sign] of
        None \<Rightarrow> (drop copied t, False)
      | Some offset \<Rightarrow>
          let at = search + offset;
              start = local_start t copied at;
              domain = email_domain t at
          in if start < at \<and> is_email_domain domain then
               let stop = Suc at + length domain
               in (take (start - copied) (drop copied t) @ email_placeholder
                     @ fst (emails_loop t stop stop), True)
             else emails_loop t copied (Suc at))"
  by pat_completeness auto
termination
  by (relation "measure (\<lambda>(t, _, search). length t - search)")
    (auto dest!: find_sub_Some dest: arg_cong [where f = length])

declare emails_loop.simps [simp del]

definition replace_emails :: "string \<Rightarrow> string option" where
  "replace_emails t =
     (if at_sign \<notin> set t then None
      else let (result, hit) = emails_loop t 0 0 in if hit then Some result else None)"

section \<open>Rewriting a binary value\<close>

text \<open>How far the digits and hyphens of a SID reach, in whole units of the encoding.\<close>

definition sid_byte :: "char \<Rightarrow> bool" where
  "sid_byte c \<longleftrightarrow> is_digit_byte c \<or> c = CHR ''-''"

fun sid_run :: "bool \<Rightarrow> string \<Rightarrow> nat" where
  "sid_run wide (c # d # s) =
     (if \<not> sid_byte c \<or> wide \<and> d \<noteq> CHR 0x00 then 0
      else if wide then 2 + sid_run wide s else Suc (sid_run wide (d # s)))"
| "sid_run wide [c] = (if \<not> wide \<and> sid_byte c then 1 else 0)"
| "sid_run wide [] = 0"

function sid_bytes_loop ::
    "bool \<Rightarrow> string \<Rightarrow> string \<Rightarrow> string \<Rightarrow> string \<Rightarrow> string \<times> bool" where
  "sid_bytes_loop wide pattern already replacement bytes =
     (case bytes of
        [] \<Rightarrow> ([], False)
      | b # bs \<Rightarrow>
          if length bytes < length pattern then (bytes, False)
          else if take (length pattern) bytes \<noteq> pattern then
            let (later, hit) = sid_bytes_loop wide pattern already replacement bs in (b # later, hit)
          else
            let after = drop (length pattern) bytes;
                run = sid_run wide after
            in if starts_with after already then
                 let n = length pattern + length already - 1;
                     (later, hit) = sid_bytes_loop wide pattern already replacement (drop n bs)
                 in (b # take n bs @ later, hit)
               else if run = 0 then
                 let (later, hit) = sid_bytes_loop wide pattern already replacement bs
                 in (b # later, hit)
               else
                 let (later, hit) = sid_bytes_loop wide pattern already replacement (drop run after)
                 in (replacement @ later, True))"
  by pat_completeness auto
termination
  by (relation "measure (\<lambda>(_, _, _, _, bytes). length bytes)") auto

declare sid_bytes_loop.simps [simp del]

definition replace_domain_in_bytes ::
    "bool \<Rightarrow> string \<times> string \<Rightarrow> string \<times> string list \<Rightarrow> string \<times> string list" where
  "replace_domain_in_bytes wide domain st =
     (let (prefix, placeholder) = domain;
          (rebuilt, hit) = sid_bytes_loop wide (encode_text prefix wide)
            (encode_text (drop (length prefix) placeholder) wide) (encode_text placeholder wide) (fst st)
      in if hit then (rebuilt, snd st @ [placeholder]) else st)"

definition replace_sids_in_bytes :: "string \<Rightarrow> bool \<Rightarrow> (string \<times> string list) option" where
  "replace_sids_in_bytes bytes wide =
     (let (current, used) = fold (replace_domain_in_bytes wide) identifying_sids (bytes, [])
      in if used = [] then None else Some (current, used))"

definition replace_name_in_bytes ::
    "string \<Rightarrow> string \<Rightarrow> bool \<Rightarrow> string \<times> string list \<Rightarrow> string \<times> string list" where
  "replace_name_in_bytes name placeholder wide st =
     (let starts = find_encoded (fst st) name wide True
      in if starts = [] then st
         else (spliced (fst st) (encode_text placeholder wide) (length (encode_text name wide)) 0 starts,
               snd st @ [placeholder]))"

definition replace_in_hex :: "string \<Rightarrow> (string \<times> string) list \<Rightarrow> (string \<times> string list) option" where
  "replace_in_hex t names =
     (case decode_hex t of
        None \<Rightarrow> None
      | Some bytes \<Rightarrow>
          let st = fold (\<lambda>wide st.
                     case replace_sids_in_bytes (fst st) wide of
                       Some (rebuilt, placeholders) \<Rightarrow> (rebuilt, snd st @ placeholders)
                     | None \<Rightarrow> st) [False, True] (bytes, []);
              (bytes, applied) = fold (\<lambda>(name, placeholder) st.
                     fold (replace_name_in_bytes name placeholder) [False, True] st) names st
          in if applied = [] then None
             else Some (encode_hex bytes (list_ex is_upper_byte t), applied))"

section \<open>Rewriting one string\<close>

text \<open>One substitution: the text so far and the placeholders applied.\<close>

definition substitute ::
    "(string \<Rightarrow> string option) \<Rightarrow> string \<Rightarrow> string \<times> string list \<Rightarrow> string \<times> string list" where
  "substitute f placeholder st =
     (case f (fst st) of Some replaced \<Rightarrow> (replaced, snd st @ [placeholder]) | None \<Rightarrow> st)"

definition redact_text_with ::
    "string \<Rightarrow> (string \<times> string) list \<Rightarrow> string \<times> string list" where
  "redact_text_with t names =
     (let st = substitute replace_emails email_placeholder (t, []);
          st = substitute replace_user_profiles user_placeholder st;
          st = (case replace_sids (fst st) of
                  Some (replaced, placeholders) \<Rightarrow> (replaced, snd st @ placeholders)
                | None \<Rightarrow> st);
          st = substitute replace_unc_hosts host_placeholder st;
          st = fold (\<lambda>(name, placeholder).
                 substitute (\<lambda>t. replace_bare_name t name placeholder) placeholder) names st;
          (prefix, hex) = (case strip_prefix (fst st) binary_prefix of
                             Some rest \<Rightarrow> (binary_prefix, rest) | None \<Rightarrow> ([], fst st))
      in case replace_in_hex hex names of
           Some (replaced, placeholders) \<Rightarrow> (prefix @ replaced, snd st @ placeholders)
         | None \<Rightarrow> st)"

section \<open>Rewriting a document\<close>

definition without_unity_hash :: "string \<Rightarrow> string" where
  "without_unity_hash name =
     (case rsplit_once name ''_h'' of
        Some (stem, hash) \<Rightarrow> if hash \<noteq> [] \<and> list_all is_digit_byte hash then stem else name
      | None \<Rightarrow> name)"

definition names_an_identifier :: "string \<Rightarrow> bool" where
  "names_an_identifier name \<longleftrightarrow>
     list_ex (ends_with (to_ascii_lowercase (without_unity_hash name))) identifier_names"

definition masked_text :: "bool \<Rightarrow> string \<Rightarrow> string option" where
  "masked_text typed t =
     (let (kind, data) = (case split_once t '':'' of
                            Some (kind, data) \<Rightarrow> if typed then (Some kind, data) else (None, t)
                          | None \<Rightarrow> (None, t))
      in if data = [] \<or> data = id_placeholder then None
         else Some (case kind of None \<Rightarrow> id_placeholder | Some k \<Rightarrow> k @ '':'' @ id_placeholder))"

fun set_member :: "string \<Rightarrow> json \<Rightarrow> (string \<times> json) list \<Rightarrow> (string \<times> json) list" where
  "set_member k v [] = []"
| "set_member k v ((l, x) # ms) = (if l = k then (l, v) # ms else (l, x) # set_member k v ms)"

definition mask_target ::
    "bool \<Rightarrow> string \<Rightarrow> (string \<times> json) list \<times> (string \<times> nat) list
       \<Rightarrow> (string \<times> json) list \<times> (string \<times> nat) list" where
  "mask_target typed target st =
     (case map_of (fst st) target of
        Some (JsonString t) \<Rightarrow>
          (case masked_text typed t of
             Some masked \<Rightarrow> (set_member target (JsonString masked) (fst st), bump id_placeholder (snd st))
           | None \<Rightarrow> st)
      | _ \<Rightarrow> st)"

definition mask_identifier ::
    "(string \<times> json) list \<Rightarrow> (string \<times> nat) list \<Rightarrow> (string \<times> json) list \<times> (string \<times> nat) list" where
  "mask_identifier fields applied =
     (let named = (\<lambda>key. case map_of fields key of
                            Some (JsonString s) \<Rightarrow> names_an_identifier s | _ \<Rightarrow> False)
      in if named ''name'' \<and> map_of fields ''data'' \<noteq> None then
           mask_target False ''data'' (fields, applied)
         else if named ''field'' \<and> map_of fields ''before'' \<noteq> None then
           fold (mask_target True) [''before'', ''after''] (fields, applied)
         else (fields, applied))"

text \<open>Masking puts texts in the place of texts, so what it leaves nests no deeper.\<close>

lemma set_member_members: "(l, x) \<in> set (set_member k v ms) \<Longrightarrow> (l, x) \<in> set ms \<or> l = k \<and> x = v"
  by (induction ms) (auto split: if_splits)

lemma mask_target_members:
  "(k, x) \<in> set (fst (mask_target typed target st)) \<Longrightarrow>
   (k, x) \<in> set (fst st) \<or> (\<exists>t u. x = JsonString t \<and> (k, JsonString u) \<in> set (fst st))"
  by (auto simp: mask_target_def split: option.splits json.splits dest!: set_member_members)
    (metis map_of_SomeD)

lemma mask_identifier_members:
  "(k, x) \<in> set (fst (mask_identifier fields applied)) \<Longrightarrow>
   (k, x) \<in> set fields \<or> (\<exists>t u. x = JsonString t \<and> (k, JsonString u) \<in> set fields)"
  by (auto simp: mask_identifier_def Let_def split: if_splits dest!: mask_target_members)

lemma mask_identifier_depth:
  assumes "(k, x) \<in> set (fst (mask_identifier fields applied))"
  shows "depth x < depth (JsonObject fields)"
proof -
  from mask_identifier_members [OF assms]
  obtain y where "(k, y) \<in> set fields" "depth x = depth y" by force
  with depth_object [of k y fields] show ?thesis by simp
qed

function rewrite_value ::
    "(string \<times> string) list \<Rightarrow> json \<Rightarrow> (string \<times> nat) list \<Rightarrow> json \<times> (string \<times> nat) list" where
  "rewrite_value names (JsonString t) applied =
     (let (replaced, hits) = redact_text_with t names
      in if hits = [] then (JsonString t, applied) else (JsonString replaced, fold bump hits applied))"
| "rewrite_value names (JsonArray xs) applied =
     (let (ys, applied) = map_state (rewrite_value names) xs applied in (JsonArray ys, applied))"
| "rewrite_value names (JsonObject fields) applied =
     (let masked = mask_identifier fields applied;
          (members, applied) =
            map_state (\<lambda>m applied. let (y, applied) = rewrite_value names (snd m) applied
                                   in ((fst m, y), applied)) (fst masked) (snd masked)
      in (JsonObject members, applied))"
| "rewrite_value names JsonNull applied = (JsonNull, applied)"
| "rewrite_value names (JsonBool b) applied = (JsonBool b, applied)"
| "rewrite_value names (JsonNumber n) applied = (JsonNumber n, applied)"
  by pat_completeness auto
termination
proof (relation "measure (\<lambda>(_, v, _). depth v)")
qed (auto intro: depth_array mask_identifier_depth simp del: depth.simps)

section \<open>Auditing a document\<close>

record residual =
  rs_count :: nat
  rs_contexts :: "string list"

definition no_residual :: residual where
  "no_residual = \<lparr>rs_count = 0, rs_contexts = []\<rparr>"

text \<open>The characters of a UTF-8 text, each its bytes.\<close>

function chars_of :: "string \<Rightarrow> string list" where
  "chars_of [] = []"
| "chars_of (c # s) =
     (c # takeWhile is_continuation_byte s) # chars_of (dropWhile is_continuation_byte s)"
  by pat_completeness auto
termination
  by (relation "measure length") (simp_all add: less_Suc_eq_le length_dropWhile_le)

definition ellipsis :: string where
  "ellipsis = [CHR 0xE2, CHR 0x80, CHR 0xA6]"

definition context_of :: "string \<Rightarrow> nat \<Rightarrow> nat \<Rightarrow> string" where
  "context_of t start len =
     (let preceding = concat (rev (take context_chars (rev (chars_of (take start t)))));
          following = concat (take context_chars (chars_of (drop (start + len) t)));
          opening = (if length preceding < start then ellipsis else []);
          closing = (if start + len + length following < length t then ellipsis else [])
      in opening @ preceding @ ''[NAME]'' @ following @ closing)"

definition add_occurrence :: "string \<Rightarrow> residual \<Rightarrow> residual" where
  "add_occurrence shown r =
     \<lparr>rs_count = Suc (rs_count r),
      rs_contexts = (if length (rs_contexts r) < max_contexts then rs_contexts r @ [shown]
                     else rs_contexts r)\<rparr>"

definition record_occurrences :: "string \<Rightarrow> string \<Rightarrow> residual \<Rightarrow> residual" where
  "record_occurrences t name r =
     (let r = fold (\<lambda>start. add_occurrence (context_of t start (length name)))
                (find_ignoring_case t name) r;
          hex = (case strip_prefix t binary_prefix of Some rest \<Rightarrow> rest | None \<Rightarrow> t)
      in case decode_hex hex of
           None \<Rightarrow> r
         | Some bytes \<Rightarrow>
             fold (\<lambda>wide. fold (\<lambda>_. add_occurrence
                 (''[NAME] as '' @ (if wide then ''UTF-16'' else ''ASCII'') @ '' inside a ''
                    @ decimal (length bytes) @ ''-byte binary value''))
               (find_encoded bytes name wide False)) [False, True] r)"

fun audit_value :: "json \<Rightarrow> string \<Rightarrow> residual \<Rightarrow> residual" where
  "audit_value (JsonString t) name r = record_occurrences t name r"
| "audit_value (JsonArray xs) name r = fold (\<lambda>x. audit_value x name) xs r"
| "audit_value (JsonObject ms) name r =
     fold (\<lambda>(key, x) r. audit_value x name (record_occurrences key name r)) ms r"
| "audit_value _ name r = r"

section \<open>Redacting a document\<close>

record extra_names =
  ex_accounts :: "string list"
  ex_computers :: "string list"
  ex_identifiers :: "string list"

record redaction_report =
  rp_applied :: "(string \<times> nat) list"
  rp_names :: "string list"
  rp_computers :: "string list"
  rp_identifiers :: nat
  rp_skipped :: "string list"
  rp_residual :: "(string \<times> residual) list"

text \<open>One supplied name: the names it joins and the names skipped so far.\<close>

definition add_supplied :: "string \<Rightarrow> string list \<times> string list \<Rightarrow> string list \<times> string list" where
  "add_supplied supplied st =
     (let (into, skipped) = st;
          name = trim supplied
      in if name = [] then (into, skipped)
         else if length name < min_name_len then (into, skipped @ [name])
         else if list_ex (\<lambda>known. eq_ignore_ascii_case known name) into then (into, skipped)
         else (into @ [name], skipped))"

definition audit_name ::
    "json \<Rightarrow> string \<Rightarrow> (string \<times> residual) list \<Rightarrow> (string \<times> residual) list" where
  "audit_name v name found =
     (let r = audit_value v name no_residual
      in if 0 < rs_count r then btree_insert name r found else found)"

definition redact_document :: "json \<Rightarrow> extra_names \<Rightarrow> json \<times> redaction_report" where
  "redact_document v extra =
     (let (accounts, skipped) = fold add_supplied (ex_accounts extra) (discover_names v, []);
          (computers, skipped) = fold add_supplied (ex_computers extra) ([], skipped);
          (identifiers, skipped) = fold add_supplied (ex_identifiers extra) ([], skipped);
          names = map (\<lambda>n. (n, user_placeholder)) accounts
                  @ map (\<lambda>n. (n, host_placeholder)) computers
                  @ map (\<lambda>n. (n, id_placeholder)) identifiers;
          (redacted, applied) = rewrite_value names v [];
          found = fold (\<lambda>(name, _). audit_name redacted name) names []
      in (redacted,
          \<lparr>rp_applied = applied, rp_names = accounts, rp_computers = computers,
           rp_identifiers = length identifiers, rp_skipped = skipped, rp_residual = found\<rparr>))"

text \<open>Printing a document is a parameter, in its two layouts.\<close>

definition render_like ::
    "(json \<Rightarrow> string + string) \<Rightarrow> (json \<Rightarrow> string + string) \<Rightarrow> string \<Rightarrow> json \<Rightarrow> string + string" where
  "render_like to_string_pretty to_string source document =
     (if CHR 0x0A \<in> set (trim source) then to_string_pretty document else to_string document)"

end
