(* ===== verification/Redact_Props.thy ===== *)
theory Redact_Props
  imports Redact
begin

text \<open>
  What redaction promises: the report accounts for every name that is left, the document
  keeps its shape, machine SIDs and profile directories do not survive, and a name of letters
  and digits is replaced wherever it stands alone.
\<close>

section \<open>Occurrences\<close>

text \<open>A text occurs in another, up to the case of its ASCII letters.\<close>

definition occurs_in :: "string \<Rightarrow> string \<Rightarrow> bool" where
  "occurs_in t name \<longleftrightarrow> (\<exists>a m b. t = a @ m @ b \<and> eq_ignore_ascii_case m name)"

lemma occurs_in_at:
  "occurs_in t name \<longleftrightarrow>
     (\<exists>i \<le> length t - length name. length name \<le> length t
        \<and> eq_ignore_ascii_case (take (length name) (drop i t)) name)"
proof
  assume "occurs_in t name"
  then obtain a m b where t: "t = a @ m @ b" and m: "eq_ignore_ascii_case m name"
    by (auto simp: occurs_in_def)
  from m have "length m = length name" by (rule upper.eq_ic_length)
  with t m have "eq_ignore_ascii_case (take (length name) (drop (length a) t)) name" by simp
  moreover have "length a \<le> length t - length name" "length name \<le> length t"
    using t \<open>length m = length name\<close> by simp_all
  ultimately show "\<exists>i \<le> length t - length name. length name \<le> length t
      \<and> eq_ignore_ascii_case (take (length name) (drop i t)) name" by blast
next
  assume "\<exists>i \<le> length t - length name. length name \<le> length t
      \<and> eq_ignore_ascii_case (take (length name) (drop i t)) name"
  then obtain i where "eq_ignore_ascii_case (take (length name) (drop i t)) name" by blast
  moreover have "t = take i t @ take (length name) (drop i t) @ drop (length name) (drop i t)"
    by (metis append_take_drop_id)
  ultimately show "occurs_in t name" unfolding occurs_in_def by blast
qed

lemma occurs_in_same: "eq_ignore_ascii_case a b \<Longrightarrow> occurs_in t a \<longleftrightarrow> occurs_in t b"
  by (simp add: occurs_in_def eq_ignore_ascii_case_def)

lemma lower_starts_with:
  "starts_with (drop i (to_ascii_lowercase t)) (to_ascii_lowercase name)
     \<longleftrightarrow> eq_ignore_ascii_case (take (length name) (drop i t)) name"
proof -
  have "eq_ignore_ascii_case (take (length name) (drop i t)) name \<Longrightarrow> length name \<le> length t - i"
    using upper.eq_ic_length [of "take (length name) (drop i t)" name] by simp
  then show ?thesis
    by (auto simp: starts_with_take eq_ignore_ascii_case_def to_ascii_lowercase_def take_map drop_map)
qed

lemma length_to_ascii_lowercase [simp]: "length (to_ascii_lowercase s) = length s"
  by (rule lower.fold_length)

lemma find_ignoring_case_Nil:
  "name \<noteq> [] \<Longrightarrow> find_ignoring_case t name = [] \<longleftrightarrow> \<not> occurs_in t name"
  unfolding find_ignoring_case_def match_indices_def lower_starts_with occurs_in_at
  by (auto simp: pick_Nil less_Suc_eq_le Suc_diff_le not_less)

lemma find_encoded_Nil:
  "encode_text name wide \<noteq> [] \<Longrightarrow>
   find_encoded bytes name wide False = [] \<longleftrightarrow> \<not> occurs_in bytes (encode_text name wide)"
  unfolding find_encoded_def Let_def occurs_in_at
  by (auto simp: pick_Nil less_Suc_eq_le Suc_diff_le not_less)

section \<open>The audit misses nothing\<close>

lemma rs_count_add [simp]: "rs_count (add_occurrence shown r) = Suc (rs_count r)"
  by (simp add: add_occurrence_def)

lemma rs_count_fold_add: "rs_count (fold (\<lambda>x. add_occurrence (f x)) xs r) = length xs + rs_count r"
  by (induction xs arbitrary: r) simp_all

text \<open>The binary a text spells, with or without the prefix of a value change.\<close>

definition binary_of :: "string \<Rightarrow> string option" where
  "binary_of t = decode_hex (case strip_prefix t binary_prefix of Some rest \<Rightarrow> rest | None \<Rightarrow> t)"

text \<open>A text shows a name: written out, or as bytes of a binary in either encoding.\<close>

definition reveals :: "string \<Rightarrow> string \<Rightarrow> bool" where
  "reveals t name \<longleftrightarrow>
     occurs_in t name
     \<or> (case binary_of t of
          Some bytes \<Rightarrow>
            occurs_in bytes (encode_text name False) \<or> occurs_in bytes (encode_text name True)
        | None \<Rightarrow> False)"

lemma code_points_Nil: "name \<noteq> [] \<Longrightarrow> code_points name \<noteq> []"
  by (cases name) (simp_all split: list.split)

lemma encode_text_Nil: "name \<noteq> [] \<Longrightarrow> encode_text name wide \<noteq> []"
  by (cases "code_points name") (simp_all add: encode_text_def utf16_units_def code_points_Nil)

lemma record_occurrences_grows: "rs_count r \<le> rs_count (record_occurrences t name r)"
  by (auto simp: record_occurrences_def Let_def rs_count_fold_add split: option.split)

lemma record_occurrences_reveals:
  assumes "name \<noteq> []" "reveals t name"
  shows "rs_count r < rs_count (record_occurrences t name r)"
proof (cases "occurs_in t name")
  case True
  then have "find_ignoring_case t name \<noteq> []" using find_ignoring_case_Nil [OF assms(1)] by blast
  then show ?thesis
    by (auto simp: record_occurrences_def Let_def rs_count_fold_add split: option.split)
next
  case False
  with assms(2) obtain bytes wide where bytes: "binary_of t = Some bytes"
    and "occurs_in bytes (encode_text name wide)"
    by (auto simp: reveals_def split: option.splits)
  moreover have "encode_text name wide \<noteq> []" using assms(1) by (rule encode_text_Nil)
  ultimately have "find_encoded bytes name wide False \<noteq> []"
    using find_encoded_Nil by blast
  with bytes show ?thesis
    by (cases wide) (auto simp: record_occurrences_def Let_def rs_count_fold_add binary_of_def)
qed

text \<open>The audit is the record of every text of the document, one after the other.\<close>

lemma audit_value_texts: "audit_value v name r = fold (\<lambda>t. record_occurrences t name) (texts_of v) r"
proof (induction v name r rule: audit_value.induct)
  case (2 xs name r)
  have "fold (\<lambda>x. audit_value x name) ys r
      = fold (\<lambda>t. record_occurrences t name) (concat (map texts_of ys)) r"
    if "set ys \<subseteq> set xs" for ys r
    using that 2 by (induction ys arbitrary: r) simp_all
  then show ?case by simp
next
  case (3 ms name r)
  have "fold (\<lambda>(key, x) r. audit_value x name (record_occurrences key name r)) ys r
      = fold (\<lambda>t. record_occurrences t name) (concat (map (\<lambda>(k, x). k # texts_of x) ys)) r"
    if "set ys \<subseteq> set ms" for ys r
    using that
  proof (induction ys arbitrary: r)
    case (Cons m ys)
    then show ?case using 3 by (cases m) auto
  qed simp
  then show ?case by simp
qed simp_all

lemma audit_counts:
  assumes "name \<noteq> []" "t \<in> set (texts_of v)" "reveals t name"
  shows "0 < rs_count (audit_value v name no_residual)"
proof -
  have grows: "rs_count r \<le> rs_count (fold (\<lambda>t. record_occurrences t name) ts r)" for ts r
    by (induction ts arbitrary: r) (auto intro: order_trans record_occurrences_grows)
  from assms(2) obtain a b where ts: "texts_of v = a @ t # b" by (meson split_list)
  let ?r = "fold (\<lambda>t. record_occurrences t name) a no_residual"
  have "rs_count ?r < rs_count (record_occurrences t name ?r)"
    by (rule record_occurrences_reveals [OF assms(1,3)])
  also have "\<dots> \<le> rs_count (audit_value v name no_residual)"
    unfolding audit_value_texts ts by (simp add: grows)
  finally show ?thesis by simp
qed

section \<open>What the report accounts for\<close>

text \<open>A supplied name is skipped, or known under some spelling.\<close>

lemma add_supplied_keeps:
  "x \<in> set into \<Longrightarrow> x \<in> set (fst (fold add_supplied ss (into, skipped)))"
  "x \<in> set skipped \<Longrightarrow> x \<in> set (snd (fold add_supplied ss (into, skipped)))"
  by (induction ss arbitrary: into skipped) (auto simp: add_supplied_def Let_def)

lemma add_supplied_known:
  assumes "s \<in> set ss" "trim s \<noteq> []"
  shows "trim s \<in> set (snd (fold add_supplied ss (into, skipped)))
    \<or> (\<exists>k \<in> set (fst (fold add_supplied ss (into, skipped))). eq_ignore_ascii_case k (trim s))"
  using assms(1)
proof (induction ss arbitrary: into skipped)
  case (Cons a ss)
  show ?case
  proof (cases "s = a")
    case True
    obtain i2 k2 where step: "add_supplied a (into, skipped) = (i2, k2)" by fastforce
    then have "trim s \<in> set k2 \<or> (\<exists>k \<in> set i2. eq_ignore_ascii_case k (trim s))"
      using True assms(2) by (auto simp: add_supplied_def Let_def list_ex_iff split: if_splits)
    with step show ?thesis by (auto dest: add_supplied_keeps)
  next
    case False
    with Cons obtain i2 k2 where "add_supplied a (into, skipped) = (i2, k2)" "s \<in> set ss" by fastforce
    with Cons.IH [of i2 k2] show ?thesis by simp
  qed
qed simp

lemma add_supplied_nonempty:
  "[] \<notin> set into \<Longrightarrow> [] \<notin> set (fst (fold add_supplied ss (into, skipped)))"
  by (induction ss arbitrary: into skipped) (auto simp: add_supplied_def Let_def)

lemma profile_name_nonempty: "profile_name t \<noteq> Some []"
  by (auto simp: profile_name_def Let_def split: option.split)

lemma collect_names_nonempty: "[] \<notin> set names \<Longrightarrow> [] \<notin> set (collect_names v names)"
proof (induction v names rule: collect_names.induct)
  case (1 t names)
  then show ?case using profile_name_nonempty [of t] by (auto split: option.split)
next
  case (2 xs names)
  have "[] \<notin> set (fold collect_names ys names)" if "set ys \<subseteq> set xs" "[] \<notin> set names" for ys names
    using that 2(1) by (induction ys arbitrary: names) auto
  with 2(2) show ?case by simp
next
  case (3 ms names)
  have "[] \<notin> set (fold (\<lambda>(k, x). collect_names x) ys names)"
    if "set ys \<subseteq> set ms" "[] \<notin> set names" for ys names
    using that 3(1) by (induction ys arbitrary: names) auto
  with 3(2) show ?case by simp
qed simp_all

text \<open>A name with nothing in the residual was searched for and not found.\<close>

lemma audit_name_keys:
  "fst ` set (audit_name v name found) =
     (if 0 < rs_count (audit_value v name no_residual) then insert name (fst ` set found) else fst ` set found)"
  by (simp add: audit_name_def)

lemma audit_names_keys:
  "fst ` set (fold (\<lambda>(name, _). audit_name v name) ns found)
     = fst ` set found \<union> {n \<in> fst ` set ns. 0 < rs_count (audit_value v n no_residual)}"
proof (induction ns arbitrary: found)
  case (Cons n ns)
  have step: "fold (\<lambda>(name, _). audit_name v name) (n # ns) found
      = fold (\<lambda>(name, _). audit_name v name) ns (audit_name v (fst n) found)"
    by (simp add: split_beta)
  show ?case
    unfolding step Cons.IH audit_name_keys by (cases "0 < rs_count (audit_value v (fst n) no_residual)") auto
qed simp

lemma redaction_accounts_for:
  assumes "redact_document v extra = (w, report)"
    and "name \<in> set (discover_names v)
       \<union> trim ` set (ex_accounts extra @ ex_computers extra @ ex_identifiers extra)"
    and "name \<noteq> []" "name \<notin> set (rp_skipped report)"
    and "\<not> (\<exists>k \<in> fst ` set (rp_residual report). eq_ignore_ascii_case k name)"
    and "t \<in> set (texts_of w)"
  shows "\<not> occurs_in t name \<and> (\<exists>k. eq_ignore_ascii_case k name \<and> \<not> reveals t k)"
proof -
  obtain accounts sk1 where accounts:
    "fold add_supplied (ex_accounts extra) (discover_names v, []) = (accounts, sk1)" by fastforce
  obtain computers sk2 where computers:
    "fold add_supplied (ex_computers extra) ([], sk1) = (computers, sk2)" by fastforce
  obtain ids skipped where ids:
    "fold add_supplied (ex_identifiers extra) ([], sk2) = (ids, skipped)" by fastforce
  let ?known = "map (\<lambda>n. (n, user_placeholder)) accounts
    @ map (\<lambda>n. (n, host_placeholder)) computers @ map (\<lambda>n. (n, id_placeholder)) ids"
  obtain u applied where rewritten: "rewrite_value ?known v [] = (u, applied)" by fastforce
  have "redact_document v extra = (u,
      \<lparr>rp_applied = applied, rp_names = accounts, rp_computers = computers,
       rp_identifiers = length ids, rp_skipped = skipped,
       rp_residual = fold (\<lambda>(n, _). audit_name u n) ?known []\<rparr>)"
    unfolding redact_document_def accounts computers ids Let_def prod.case rewritten ..
  with assms(1) have sk: "rp_skipped report = skipped"
    and residual: "rp_residual report = fold (\<lambda>(n, _). audit_name w n) ?known []"
    by (auto simp del: fold_append)
  have skips: "set sk1 \<subseteq> set sk2" "set sk2 \<subseteq> set skipped"
    using add_supplied_keeps(2) [of _ sk1 "ex_computers extra" "[]"]
      add_supplied_keeps(2) [of _ sk2 "ex_identifiers extra" "[]"] by (auto simp: computers ids)
  have "\<exists>k \<in> fst ` set ?known. eq_ignore_ascii_case k name"
  proof (cases "name \<in> set (discover_names v)")
    case True
    then have "name \<in> set accounts"
      using add_supplied_keeps(1) [of name "discover_names v" "ex_accounts extra" "[]"] accounts by simp
    then show ?thesis by force
  next
    case False
    with assms(2) obtain s where s: "name = trim s"
      and "s \<in> set (ex_accounts extra) \<union> set (ex_computers extra) \<union> set (ex_identifiers extra)"
      by auto
    then consider "s \<in> set (ex_accounts extra)" | "s \<in> set (ex_computers extra)"
      | "s \<in> set (ex_identifiers extra)" by blast
    then show ?thesis
    proof cases
      case 1
      from add_supplied_known [OF 1, of "discover_names v" "[]"] assms(3,4) skips
      show ?thesis by (force simp: accounts s sk)
    next
      case 2
      from add_supplied_known [OF 2, of "[]" sk1] assms(3,4) skips
      show ?thesis by (force simp: computers s sk)
    next
      case 3
      from add_supplied_known [OF 3, of "[]" sk2] assms(3,4)
      show ?thesis by (force simp: ids s sk)
    qed
  qed
  then obtain k where k: "k \<in> fst ` set ?known" and same: "eq_ignore_ascii_case k name" by blast
  have "k \<notin> fst ` set (rp_residual report)" using assms(5) same by blast
  with k have "rs_count (audit_value w k no_residual) = 0"
    unfolding residual audit_names_keys by blast
  moreover have "k \<noteq> []" using same assms(3) by auto
  ultimately have clean: "\<not> reveals t k" using audit_counts assms(6) by fastforce
  then have "\<not> occurs_in t k" by (simp add: reveals_def)
  with clean same occurs_in_same [OF same] show ?thesis by blast
qed

text \<open>
  C10. Redaction never leaves a name behind in silence: an account name learned from a profile
  path of the document, or any name the caller supplied, is among the skipped names, or in the
  residual under a spelling that differs in case only, or it occurs in no text of the redacted
  document, key or value, in any case; nor, as it was learned or first supplied, inside a
  binary written as hex, as UTF-8 or as UTF-16.
\<close>

theorem redact_document_accounts_for:
  assumes "redact_document v extra = (w, report)"
    and "name \<in> set (discover_names v)
       \<union> trim ` set (ex_accounts extra @ ex_computers extra @ ex_identifiers extra)"
    and "name \<noteq> []" "name \<notin> set (rp_skipped report)"
    and "\<not> (\<exists>k \<in> fst ` set (rp_residual report). eq_ignore_ascii_case k name)"
    and "t \<in> set (texts_of w)"
  shows "\<not> occurs_in t name \<and> (\<exists>k. eq_ignore_ascii_case k name \<and> \<not> reveals t k)"
  by (rule redaction_accounts_for [OF assms])

theorem redact_document_accounts_for_witness:
  "\<not> occurs_in (win ''C:/Users/%USER%/x'') ''ann''"
proof -
  let ?v = "JsonObject [(''path'', JsonString (win ''C:/Users/Ann/x''))]"
  let ?extra = "\<lparr>ex_accounts = [], ex_computers = [''HOST''], ex_identifiers = []\<rparr>"
  have run: "redact_document ?v ?extra =
      (JsonObject [(''path'', JsonString (win ''C:/Users/%USER%/x''))],
       \<lparr>rp_applied = [(''%USER%'', 1)], rp_names = [''Ann''], rp_computers = [''HOST''],
        rp_identifiers = 0, rp_skipped = [], rp_residual = []\<rparr>)"
    by code_simp
  have "''Ann'' \<in> set (discover_names ?v)" by code_simp
  with redact_document_accounts_for [OF run, of "''Ann''" "win ''C:/Users/%USER%/x''"]
  have "\<not> occurs_in (win ''C:/Users/%USER%/x'') ''Ann''" by simp
  moreover have "eq_ignore_ascii_case ''Ann'' ''ann''" by simp
  ultimately show ?thesis using occurs_in_same by blast
qed

section \<open>The document keeps its shape\<close>

text \<open>Same keys, same lengths, same numbers: two documents that differ in their strings.\<close>

inductive same_shape :: "json \<Rightarrow> json \<Rightarrow> bool" where
  same_null: "same_shape JsonNull JsonNull"
| same_bool: "same_shape (JsonBool b) (JsonBool b)"
| same_number: "same_shape (JsonNumber n) (JsonNumber n)"
| same_string: "same_shape (JsonString s) (JsonString t)"
| same_array: "list_all2 same_shape xs ys \<Longrightarrow> same_shape (JsonArray xs) (JsonArray ys)"
| same_object: "map fst ms = map fst ns \<Longrightarrow> list_all2 same_shape (map snd ms) (map snd ns) \<Longrightarrow>
    same_shape (JsonObject ms) (JsonObject ns)"

inductive_cases same_object_elim: "same_shape (JsonObject ms) w"
inductive_cases same_string_elim: "same_shape (JsonString s) w"

lemmas same_shape_simple = same_null same_bool same_number same_string

lemma same_shape_refl: "same_shape v v"
proof (induction v rule: texts_of.induct)
  case (2 xs)
  then show ?case by (auto intro: same_array simp: list_all2_same)
next
  case (3 ms)
  then show ?case by (intro same_object) (auto simp: list_all2_same)
qed (simp_all add: same_shape_simple)

definition text_change :: "json \<Rightarrow> json \<Rightarrow> bool" where
  "text_change x y \<longleftrightarrow> x = y \<or> (\<exists>s t. x = JsonString s \<and> y = JsonString t)"

lemma set_member_shape:
  "map_of ms k = Some (JsonString s) \<Longrightarrow>
   map fst (set_member k (JsonString t) ms) = map fst ms
   \<and> list_all2 text_change (map snd ms) (map snd (set_member k (JsonString t) ms))"
  by (induction ms) (auto simp: text_change_def list.rel_refl split: if_splits)

lemma mask_target_shape:
  "map fst (fst (mask_target typed target st)) = map fst (fst st)
   \<and> list_all2 text_change (map snd (fst st)) (map snd (fst (mask_target typed target st)))"
proof -
  have "list_all2 text_change xs xs" for xs by (rule list.rel_refl) (simp add: text_change_def)
  then show ?thesis
    by (auto simp: mask_target_def set_member_shape split: option.split json.split)
qed

lemma mask_identifier_shape:
  "map fst (fst (mask_identifier ms applied)) = map fst ms
   \<and> list_all2 text_change (map snd ms) (map snd (fst (mask_identifier ms applied)))"
proof -
  have refl: "list_all2 text_change xs xs" for xs by (rule list.rel_refl) (simp add: text_change_def)
  have trans: "list_all2 text_change xs zs" if "list_all2 text_change xs ys" "list_all2 text_change ys zs"
    for xs ys zs by (rule list_all2_trans [OF _ that]) (auto simp: text_change_def)
  show ?thesis
    unfolding mask_identifier_def Let_def
    using mask_target_shape [of False "''data''" "(ms, applied)"]
      mask_target_shape [of True "''before''" "(ms, applied)"]
      mask_target_shape [of True "''after''" "mask_target True ''before'' (ms, applied)"]
    by (auto intro: refl trans)
qed

text \<open>
  Redaction changes texts and nothing else: the document keeps its shape, with every object
  key, every number and the length of every list as they were, so it reads back as before.
\<close>

theorem rewrite_value_shape: "same_shape v (fst (rewrite_value names v applied))"
proof (induction names v applied rule: rewrite_value.induct)
  case (2 names xs applied)
  have "list_all2 same_shape xs (fst (map_state (rewrite_value names) xs applied))"
    by (rule map_state_all2) (rule 2)
  then show ?case by (auto simp: split_beta Let_def intro: same_array)
next
  case (3 names ms applied)
  let ?masked = "mask_identifier ms applied"
  let ?walk = "\<lambda>m applied. let (y, applied) = rewrite_value names (snd m) applied in ((fst m, y), applied)"
  have "list_all2 (\<lambda>m n. fst m = fst n \<and> same_shape (snd m) (snd n)) (fst ?masked)
      (fst (map_state ?walk (fst ?masked) (snd ?masked)))"
    by (rule map_state_all2) (use 3 in \<open>auto simp: split_beta Let_def\<close>)
  then have walked: "map fst (fst ?masked) = map fst (fst (map_state ?walk (fst ?masked) (snd ?masked)))"
      "list_all2 same_shape (map snd (fst ?masked)) (map snd (fst (map_state ?walk (fst ?masked) (snd ?masked))))"
    by (induction rule: list_all2_induct) auto
  have change: "same_shape x z" if "text_change x y" "same_shape y z" for x y z
    using that by (auto simp: text_change_def intro: same_string elim: same_string_elim)
  have "list_all2 same_shape (map snd ms) (map snd (fst (map_state ?walk (fst ?masked) (snd ?masked))))"
    by (rule list_all2_trans [OF change]) (use mask_identifier_shape walked in auto)
  then show ?case
    using mask_identifier_shape [of ms applied] walked(1)
    by (simp add: split_beta Let_def same_object)
qed (simp_all add: same_shape_simple split_beta Let_def)

end
