(* ===== verification/Redact_Texts.thy ===== *)
theory Redact_Texts
  imports Redact_Props
begin

text \<open>
  What each substitution of a text achieves: a name of letters and digits, machine SIDs,
  profile directories, and the hex digits of a binary value.
\<close>

section \<open>Names that stand alone\<close>

lemma eq_ic_nth: "eq_ignore_ascii_case a b \<Longrightarrow> i < length b \<Longrightarrow> lower_byte (a ! i) = lower_byte (b ! i)"
  by (metis eq_ignore_ascii_case_def nth_map to_ascii_lowercase_def upper.eq_ic_length)

definition alone_at :: "string \<Rightarrow> nat \<Rightarrow> nat \<Rightarrow> bool" where
  "alone_at t n i \<longleftrightarrow>
     (i = 0 \<or> \<not> is_ascii_alphanumeric (t ! (i - 1)))
     \<and> (length t \<le> i + n \<or> \<not> is_ascii_alphanumeric (t ! (i + n)))"

definition stands_alone :: "string \<Rightarrow> string \<Rightarrow> nat \<Rightarrow> bool" where
  "stands_alone t name i \<longleftrightarrow>
     eq_ignore_ascii_case (take (length name) (drop i t)) name \<and> alone_at t (length name) i"

lemma bare_name_loop_splice:
  "sorted_wrt (\<lambda>i j. i + n \<le> j) starts \<Longrightarrow> \<forall>s \<in> set starts. cursor \<le> s \<Longrightarrow>
   bare_name_loop t n placeholder cursor starts =
     (spliced t placeholder n cursor (filter (alone_at t n) starts), filter (alone_at t n) starts \<noteq> [])"
proof (induction starts arbitrary: cursor)
  case (Cons s starts)
  then have onward: "bare_name_loop t n placeholder (s + n) starts =
      (spliced t placeholder n (s + n) (filter (alone_at t n) starts), filter (alone_at t n) starts \<noteq> [])"
    and same: "bare_name_loop t n placeholder cursor starts =
      (spliced t placeholder n cursor (filter (alone_at t n) starts), filter (alone_at t n) starts \<noteq> [])"
    by simp_all
  have "bare_name_loop t n placeholder cursor (s # starts) =
      (if alone_at t n s
       then (take (s - cursor) (drop cursor t) @ placeholder
               @ fst (bare_name_loop t n placeholder (s + n) starts), True)
       else bare_name_loop t n placeholder cursor starts)"
    using Cons.prems by (simp add: alone_at_def Let_def not_less)
  then show ?case by (simp add: onward same)
qed simp

text \<open>Inside an occurrence of a name of letters and digits no other occurrence stands alone.\<close>

lemma alone_not_inside:
  assumes "list_all is_ascii_alphanumeric name"
    and "eq_ignore_ascii_case (take (length name) (drop i t)) name" and "i < j" "j < i + length name"
  shows "\<not> alone_at t n j"
proof -
  have "length name \<le> length t - i" using upper.eq_ic_length [OF assms(2)] by simp
  then have "take (length name) (drop i t) ! (j - 1 - i) = t ! (j - 1)" using assms(3,4) by simp
  with eq_ic_nth [OF assms(2), of "j - 1 - i"] assms(3,4)
  have "lower_byte (t ! (j - 1)) = lower_byte (name ! (j - 1 - i))" by simp
  then have "is_ascii_alphanumeric (t ! (j - 1)) = is_ascii_alphanumeric (name ! (j - 1 - i))"
    by (metis is_ascii_alphanumeric_lower)
  moreover have "is_ascii_alphanumeric (name ! (j - 1 - i))"
    using assms(1,3,4) by (simp add: list_all_length)
  ultimately show ?thesis using assms(3) by (simp add: alone_at_def)
qed

text \<open>
  A name of ASCII letters and digits is replaced exactly where it stands alone, in any
  letter case: no such place is missed, nothing else is touched, and the text is left alone
  when there is none.
\<close>

theorem bare_name_everywhere:
  assumes "name \<noteq> []" "list_all is_ascii_alphanumeric name"
  shows "replace_bare_name t name placeholder =
    (let starts = filter (stands_alone t name) [0..<length t]
     in if starts = [] then None else Some (spliced t placeholder (length name) 0 starts))"
proof (cases "length t < length name")
  case True
  then have "\<not> stands_alone t name i" for i
    using upper.eq_ic_length [of "take (length name) (drop i t)" name] by (auto simp: stands_alone_def)
  with True assms(1) show ?thesis by (simp add: replace_bare_name_def find_ignoring_case_def)
next
  case False
  let ?n = "length name"
  let ?P = "\<lambda>i. eq_ignore_ascii_case (take ?n (drop i t)) name"
  let ?count = "Suc (length t) - ?n"
  let ?starts = "pick ?P ?n ?count 0 0"
  have n: "0 < ?n" using assms(1) by simp
  have starts: "find_ignoring_case t name = ?starts"
    using False assms(1) by (simp add: find_ignoring_case_def match_indices_def lower_starts_with)
  have "filter (alone_at t ?n) ?starts = filter (\<lambda>j. ?P j \<and> alone_at t ?n j) [0..<0 + ?count]"
    by (rule pick_misses_none) (use alone_not_inside [OF assms(2)] in auto)
  also have "\<dots> = filter (stands_alone t name) [0..<?count]"
    by (simp add: stands_alone_def [abs_def])
  also have "\<dots> = filter (stands_alone t name) [0..<length t]"
  proof -
    have "\<not> stands_alone t name i" if "?count \<le> i" for i
      using upper.eq_ic_length [of "take ?n (drop i t)" name] that n by (auto simp: stands_alone_def)
    moreover have "[0..<length t] = [0..<?count] @ [?count..<length t]"
      using upt_add_eq_append [of 0 ?count "length t - ?count"] n False by simp
    ultimately show ?thesis by simp
  qed
  finally have alone: "filter (alone_at t ?n) ?starts = filter (stands_alone t name) [0..<length t]" .
  have "bare_name_loop t ?n placeholder 0 ?starts =
      (spliced t placeholder ?n 0 (filter (alone_at t ?n) ?starts), filter (alone_at t ?n) ?starts \<noteq> [])"
    by (rule bare_name_loop_splice) (use pick_spaced [OF n] in auto)
  then show ?thesis
    by (cases "?starts = []") (simp_all add: replace_bare_name_def starts alone Let_def flip: alone)
qed

theorem bare_name_everywhere_witness:
  "replace_bare_name ''L.Bob.cdp bob7'' ''bob'' user_placeholder = Some ''L.%USER%.cdp bob7''"
proof -
  have "replace_bare_name ''L.Bob.cdp bob7'' ''bob'' user_placeholder =
    (let starts = filter (stands_alone ''L.Bob.cdp bob7'' ''bob'') [0..<length ''L.Bob.cdp bob7'']
     in if starts = [] then None
        else Some (spliced ''L.Bob.cdp bob7'' user_placeholder (length ''bob'') 0 starts))"
    by (rule bare_name_everywhere) code_simp+
  also have "\<dots> = Some ''L.%USER%.cdp bob7''" by code_simp
  finally show ?thesis .
qed

text \<open>
  A name that overlaps itself is another matter: an occurrence that does not stand alone hides
  one inside it that does, which survives.
\<close>

lemma overlapping_name_survives:
  "stands_alone ''xa.a.a'' ''a.a'' 3 \<and> replace_bare_name ''xa.a.a'' ''a.a'' id_placeholder = None"
  by code_simp

text \<open>
  An account called like a placeholder is rewritten inside the placeholder, on this pass and on
  every later one, and is reported as left over for ever.
\<close>

lemma account_named_user:
  "fst (redact_text_with (win ''C:/Users/user/x'') [(''user'', user_placeholder)]) = win ''C:/Users/%%USER%%/x''
   \<and> occurs_in (win ''C:/Users/%%USER%%/x'') ''user''"
proof
  show "fst (redact_text_with (win ''C:/Users/user/x'') [(''user'', user_placeholder)])
      = win ''C:/Users/%%USER%%/x''" by code_simp
  have "find_ignoring_case (win ''C:/Users/%%USER%%/x'') ''user'' \<noteq> []" by code_simp
  then show "occurs_in (win ''C:/Users/%%USER%%/x'') ''user''"
    using find_ignoring_case_Nil [of "''user''"] by blast
qed

section \<open>Machine identifiers\<close>

lemma starts_with_append_other:
  "y = [] \<or> hd y \<notin> set q \<Longrightarrow> starts_with (x @ y) q \<longleftrightarrow> starts_with x q"
proof (induction x q rule: starts_with.induct)
  case (2 p ps)
  then show ?case by (cases y) auto
qed auto

lemma starts_with_longer: "starts_with x q \<Longrightarrow> starts_with (x @ y) q"
  by (auto simp: starts_with_iff)

lemma find_sub_take: "p \<noteq> [] \<Longrightarrow> find_sub t p = Some n \<Longrightarrow> find_sub (take n t) p = None"
proof (induction t arbitrary: n)
  case (Cons c t)
  show ?case
  proof (cases "starts_with (c # t) p")
    case False
    with Cons.prems obtain m where m: "find_sub t p = Some m" "n = Suc m" by auto
    have "\<not> starts_with (c # take m t) p"
      using False starts_with_longer [of "c # take m t" p "drop m t"] by auto
    with Cons m show ?thesis by simp
  qed (use Cons.prems in simp)
qed simp

text \<open>Every occurrence of a mark is followed by a tail.\<close>

fun followed :: "string \<Rightarrow> string \<Rightarrow> string \<Rightarrow> bool" where
  "followed p suf [] = True"
| "followed p suf (c # s) =
     ((starts_with (c # s) p \<longrightarrow> starts_with (drop (length p) (c # s)) suf) \<and> followed p suf s)"

lemma followed_iff: "p \<noteq> [] \<Longrightarrow> followed p suf s \<longleftrightarrow> (\<forall>a b. s = a @ p @ b \<longrightarrow> starts_with b suf)"
proof (induction s)
  case (Cons c s)
  have "(\<forall>a b. c # s = a @ p @ b \<longrightarrow> starts_with b suf) \<longleftrightarrow>
      (\<forall>b. c # s = p @ b \<longrightarrow> starts_with b suf) \<and> (\<forall>a b. s = a @ p @ b \<longrightarrow> starts_with b suf)"
  proof -
    have "c # s = a @ p @ b \<longleftrightarrow> a = [] \<and> c # s = p @ b \<or> (\<exists>x. a = c # x \<and> s = x @ p @ b)" for a b
      by (cases a) auto
    then show ?thesis by blast
  qed
  moreover have "(\<forall>b. c # s = p @ b \<longrightarrow> starts_with b suf) \<longleftrightarrow>
      (starts_with (c # s) p \<longrightarrow> starts_with (drop (length p) (c # s)) suf)"
    by (auto simp: starts_with_iff)
  ultimately show ?case using Cons by simp
qed simp

lemma followed_drop: "followed p suf s \<Longrightarrow> followed p suf (drop n s)"
  by (induction s arbitrary: n) (auto simp: drop_Cons split: nat.split)

lemma followed_none: "p \<noteq> [] \<Longrightarrow> find_sub s p = None \<Longrightarrow> followed p suf s"
  by (induction s) (auto split: if_splits)

lemma followed_skip: "p \<noteq> [] \<Longrightarrow> hd p \<notin> set x \<Longrightarrow> followed p suf (x @ y) = followed p suf y"
proof (induction x)
  case (Cons c x)
  then have "\<not> starts_with (c # x @ y) p" by (cases p) auto
  with Cons show ?case by simp
qed simp

text \<open>
  A mark whose first byte comes again neither in it nor in its tail.  Text beginning with that
  byte, joined at the end, completes no mark and no tail of what is before it.
\<close>

locale mark =
  fixes prefix suffix :: string
  assumes prefix_nonempty: "prefix \<noteq> []"
    and lead_once: "hd prefix \<notin> set (tl prefix)"
    and lead_not_tail: "hd prefix \<notin> set suffix"
begin

lemma followed_append:
  assumes "y = [] \<or> hd y = hd prefix"
  shows "followed prefix suffix (x @ y) \<longleftrightarrow> followed prefix suffix x \<and> followed prefix suffix y"
proof (induction x)
  case (Cons c x)
  obtain a p where p: "prefix = a # p" using prefix_nonempty by (cases prefix) auto
  have "starts_with (x @ y) p \<longleftrightarrow> starts_with x p"
    by (rule starts_with_append_other) (use assms lead_once p in auto)
  then have head: "starts_with (c # x @ y) prefix \<longleftrightarrow> starts_with (c # x) prefix" by (simp add: p)
  have "starts_with (drop (length prefix) (c # x) @ y) suffix
      \<longleftrightarrow> starts_with (drop (length prefix) (c # x)) suffix"
    by (rule starts_with_append_other) (use assms lead_not_tail in auto)
  moreover have "drop (length prefix) (c # x @ y) = drop (length prefix) (c # x) @ y"
    if "starts_with (c # x) prefix"
  proof -
    from that obtain r where r: "c # x = prefix @ r" by (auto simp: starts_with_iff)
    then have whole: "c # x @ y = prefix @ r @ y" by (metis append_Cons append_assoc)
    show ?thesis unfolding whole unfolding r by simp
  qed
  ultimately show ?case using Cons head by auto
qed simp

lemma followed_marked: "followed prefix suffix (prefix @ suffix @ y) \<longleftrightarrow> followed prefix suffix y"
proof -
  obtain a p where p: "prefix = a # p" using prefix_nonempty by (cases prefix) auto
  have "hd prefix \<notin> set (p @ suffix)" using lead_once lead_not_tail p by simp
  from followed_skip [OF prefix_nonempty this, of suffix y]
  show ?thesis by (simp add: p)
qed

text \<open>One turn of the loop, with what is before and after the mark it finds.\<close>

definition loop_skip :: "string \<Rightarrow> nat" where
  "loop_skip b =
     (if starts_with b suffix then length suffix
      else length (takeWhile (\<lambda>c. is_digit_byte c \<or> c = CHR ''-'') b))"

lemma loop_step:
  assumes "find_sub t prefix = Some n"
  obtains a b where "t = a @ prefix @ b" "length a = n"
    and "sid_loop prefix (prefix @ suffix) t =
      (a @ prefix @ suffix @ fst (sid_loop prefix (prefix @ suffix) (drop (loop_skip b) b)),
       starts_with b suffix \<longrightarrow> snd (sid_loop prefix (prefix @ suffix) (drop (loop_skip b) b)))"
proof -
  from find_sub_Some [OF assms] obtain a b where t: "t = a @ prefix @ b" "length a = n" by blast
  then have parts: "take n t = a" "drop (n + length prefix) t = b" by simp_all
  have "sid_loop prefix (prefix @ suffix) t =
      (a @ prefix @ suffix @ fst (sid_loop prefix (prefix @ suffix) (drop (loop_skip b) b)),
       starts_with b suffix \<longrightarrow> snd (sid_loop prefix (prefix @ suffix) (drop (loop_skip b) b)))"
    using assms prefix_nonempty
    by (simp add: sid_loop.simps [of _ _ t] Let_def split_beta parts loop_skip_def)
  with that t show ?thesis by blast
qed

lemma loop_none: "find_sub t prefix = None \<Longrightarrow> sid_loop prefix placeholder t = (t, False)"
  by (simp add: sid_loop.simps [of _ _ t])

lemma loop_shorter: "t = a @ prefix @ b \<Longrightarrow> length (drop k b) < length t"
  using prefix_nonempty by (simp add: drop_shorter)

lemma loop_followed: "followed prefix suffix (fst (sid_loop prefix (prefix @ suffix) t))"
proof (induction "length t" arbitrary: t rule: less_induct)
  case less
  show ?case
  proof (cases "find_sub t prefix")
    case None
    then show ?thesis by (simp add: loop_none followed_none prefix_nonempty)
  next
    case (Some n)
    from loop_step [OF Some] obtain a b where t: "t = a @ prefix @ b" "length a = n"
      and loop: "fst (sid_loop prefix (prefix @ suffix) t)
        = a @ prefix @ suffix @ fst (sid_loop prefix (prefix @ suffix) (drop (loop_skip b) b))"
      by (metis fst_conv)
    have "followed prefix suffix a"
      using followed_none [OF prefix_nonempty find_sub_take [OF prefix_nonempty Some]] t by simp
    with less [OF loop_shorter [OF t(1)]] show ?thesis
      unfolding loop using prefix_nonempty by (simp add: followed_append followed_marked)
  qed
qed

text \<open>On text that is clean already the loop changes nothing.\<close>

lemma loop_clean: "followed prefix suffix t \<Longrightarrow> sid_loop prefix (prefix @ suffix) t = (t, False)"
proof (induction "length t" arbitrary: t rule: less_induct)
  case less
  show ?case
  proof (cases "find_sub t prefix")
    case None
    then show ?thesis by (rule loop_none)
  next
    case (Some n)
    from loop_step [OF Some] obtain a b where t: "t = a @ prefix @ b" "length a = n"
      and loop: "sid_loop prefix (prefix @ suffix) t =
        (a @ prefix @ suffix @ fst (sid_loop prefix (prefix @ suffix) (drop (loop_skip b) b)),
         starts_with b suffix \<longrightarrow> snd (sid_loop prefix (prefix @ suffix) (drop (loop_skip b) b)))"
      by metis
    with less(2) have after: "starts_with b suffix" by (simp add: followed_iff [OF prefix_nonempty])
    then obtain c where b: "b = suffix @ c" by (auto simp: starts_with_iff)
    have rest: "drop (loop_skip b) b = c" using after by (simp add: loop_skip_def) (simp add: b)
    have "drop (n + length prefix + length suffix) t = c" by (simp add: t b)
    with followed_drop [OF less(2)] have "followed prefix suffix c" by metis
    with less(1) [OF loop_shorter [OF t(1)], of "loop_skip b"]
    show ?thesis unfolding loop rest by (simp add: t(1) b after)
  qed
qed

lemma loop_unhit: "\<not> snd (sid_loop prefix (prefix @ suffix) t) \<Longrightarrow> fst (sid_loop prefix (prefix @ suffix) t) = t"
proof (induction "length t" arbitrary: t rule: less_induct)
  case less
  show ?case
  proof (cases "find_sub t prefix")
    case None
    then show ?thesis by (simp add: loop_none)
  next
    case (Some n)
    from loop_step [OF Some] obtain a b where t: "t = a @ prefix @ b" "length a = n"
      and loop: "sid_loop prefix (prefix @ suffix) t =
        (a @ prefix @ suffix @ fst (sid_loop prefix (prefix @ suffix) (drop (loop_skip b) b)),
         starts_with b suffix \<longrightarrow> snd (sid_loop prefix (prefix @ suffix) (drop (loop_skip b) b)))"
      by metis
    with less(2) have after: "starts_with b suffix"
      and unhit: "\<not> snd (sid_loop prefix (prefix @ suffix) (drop (loop_skip b) b))" by auto
    then obtain c where b: "b = suffix @ c" by (auto simp: starts_with_iff)
    have rest: "drop (loop_skip b) b = c" using after by (simp add: loop_skip_def) (simp add: b)
    from less(1) [OF loop_shorter [OF t(1)] unhit] show ?thesis
      unfolding loop rest by (simp add: t(1) b)
  qed
qed

text \<open>What another mark of the same lead and length is followed by stays as it was.\<close>

lemma loop_keeps_other:
  assumes "mark q suffix" "hd q = hd prefix" "length q = length prefix" "q \<noteq> prefix"
  shows "followed q suffix t \<Longrightarrow> followed q suffix (fst (sid_loop prefix (prefix @ suffix) t))"
proof (induction "length t" arbitrary: t rule: less_induct)
  case less
  have q: "q \<noteq> []" using assms(1) by (simp add: mark_def)
  note append = mark.followed_append [OF assms(1)]
  show ?case
  proof (cases "find_sub t prefix")
    case None
    then show ?thesis using less(2) by (simp add: sid_loop.simps [of _ _ t])
  next
    case (Some n)
    from loop_step [OF Some] obtain a b where t: "t = a @ prefix @ b" "length a = n"
      and loop: "fst (sid_loop prefix (prefix @ suffix) t)
        = a @ prefix @ suffix @ fst (sid_loop prefix (prefix @ suffix) (drop (loop_skip b) b))"
      by (metis fst_conv)
    have "followed q suffix a"
      using less(2) append [of "prefix @ b" a] assms(2) prefix_nonempty by (simp add: t)
    moreover have "followed q suffix (prefix @ suffix @ y) = followed q suffix y" for y
    proof -
      obtain c p where p: "prefix = c # p" using prefix_nonempty by (cases prefix) auto
      have "\<not> starts_with (prefix @ suffix @ y) q"
        using assms(3,4) by (auto simp: starts_with_take)
      moreover have "hd q \<notin> set (p @ suffix)" using assms(2) lead_once lead_not_tail p by simp
      ultimately show ?thesis using followed_skip [OF q, of "p @ suffix" suffix y] by (simp add: p)
    qed
    moreover have "followed q suffix (fst (sid_loop prefix (prefix @ suffix) (drop k b)))" for k
    proof (rule less(1))
      have "drop (k + length prefix + n) t = drop k b" using t by simp
      with followed_drop [OF less(2)] show "followed q suffix (drop k b)" by metis
    qed (rule loop_shorter [OF t(1)])
    ultimately show ?thesis
      unfolding loop using append assms(2) prefix_nonempty by simp
  qed
qed

end

definition redacted_tail :: string where
  "redacted_tail = ''%REDACTED%''"

interpretation machine: mark "''S-1-5-21-''" redacted_tail
  by unfold_locales (simp_all add: redacted_tail_def)

interpretation identity: mark "''S-1-5-99-''" redacted_tail
  by unfold_locales (simp_all add: redacted_tail_def)

lemma sid_placeholders:
  "sid_placeholder = ''S-1-5-21-'' @ redacted_tail"
  "identity_sid_placeholder = ''S-1-5-99-'' @ redacted_tail"
  by (simp_all add: sid_placeholder_def identity_sid_placeholder_def redacted_tail_def)

text \<open>The text after the substitution, and after one pass of it.\<close>

definition without_sids :: "string \<Rightarrow> string" where
  "without_sids t = (case replace_sids t of Some (r, _) \<Rightarrow> r | None \<Rightarrow> t)"

lemma replace_domain_machine:
  "fst (replace_domain (''S-1-5-21-'', sid_placeholder) st) = fst (sid_loop ''S-1-5-21-'' sid_placeholder (fst st))"
  using machine.loop_unhit [of "fst st"] machine.loop_none [of "fst st" sid_placeholder]
  unfolding sid_placeholders
  by (auto simp: replace_domain_def replace_sid_domain_def contains_sub_def split_beta)

lemma replace_domain_identity:
  "fst (replace_domain (''S-1-5-99-'', identity_sid_placeholder) st)
     = fst (sid_loop ''S-1-5-99-'' identity_sid_placeholder (fst st))"
  using identity.loop_unhit [of "fst st"] identity.loop_none [of "fst st" identity_sid_placeholder]
  unfolding sid_placeholders
  by (auto simp: replace_domain_def replace_sid_domain_def contains_sub_def split_beta)

lemma replace_domain_used:
  "snd (replace_domain d st) = snd st \<Longrightarrow> fst (replace_domain d st) = fst st"
  by (auto simp: replace_domain_def split: option.splits)

lemma replace_domain_grows: "\<exists>more. snd (replace_domain d st) = snd st @ more"
  by (auto simp: replace_domain_def split: option.splits)

lemma without_sids_loops:
  "without_sids t =
     fst (sid_loop ''S-1-5-99-'' identity_sid_placeholder (fst (sid_loop ''S-1-5-21-'' sid_placeholder t)))"
proof -
  let ?one = "replace_domain (''S-1-5-21-'', sid_placeholder) (t, [])"
  let ?two = "replace_domain (''S-1-5-99-'', identity_sid_placeholder) ?one"
  have loops: "fst ?two =
      fst (sid_loop ''S-1-5-99-'' identity_sid_placeholder (fst (sid_loop ''S-1-5-21-'' sid_placeholder t)))"
    by (simp add: replace_domain_identity replace_domain_machine)
  have "fst ?two = t" if "snd ?two = []"
  proof -
    from that replace_domain_grows [of "(''S-1-5-99-'', identity_sid_placeholder)" ?one]
    have "snd ?one = []" by auto
    with that replace_domain_used [of _ ?one] replace_domain_used [of _ "(t, [])"] show ?thesis by simp
  qed
  then have "without_sids t = fst ?two"
    by (simp add: without_sids_def replace_sids_def identifying_sids_def split_beta Let_def)
  with loops show ?thesis by simp
qed

text \<open>
  No machine SID survives: after the substitution, every mark of an account SID is followed
  by the placeholder's tail, in both domains; and redacting the text again changes nothing.
\<close>

theorem sids_redacted:
  "(\<forall>(mark, placeholder) \<in> set identifying_sids. \<forall>a b.
      without_sids t = a @ mark @ b \<longrightarrow> starts_with b redacted_tail)
   \<and> replace_sids (without_sids t) = None"
proof -
  let ?one = "fst (sid_loop ''S-1-5-21-'' sid_placeholder t)"
  have "followed ''S-1-5-21-'' redacted_tail ?one"
    unfolding sid_placeholders by (rule machine.loop_followed)
  then have first: "followed ''S-1-5-21-'' redacted_tail (without_sids t)"
    unfolding without_sids_loops sid_placeholders
    by (intro identity.loop_keeps_other machine.mark_axioms) simp_all
  have second: "followed ''S-1-5-99-'' redacted_tail (without_sids t)"
    unfolding without_sids_loops sid_placeholders by (rule identity.loop_followed)
  have "replace_sids (without_sids t) = None"
    using machine.loop_clean [OF first] identity.loop_clean [OF second]
    by (simp add: replace_sids_def identifying_sids_def replace_domain_def replace_sid_domain_def
        sid_placeholders)
  with first second show ?thesis by (auto simp: identifying_sids_def followed_iff)
qed

theorem sids_redacted_witness:
  "starts_with (drop 12 (without_sids ''id S-1-5-21-7-8-1001'')) redacted_tail"
proof -
  have "without_sids ''id S-1-5-21-7-8-1001'' = ''id '' @ ''S-1-5-21-'' @ redacted_tail" by code_simp
  moreover have "(''S-1-5-21-'', sid_placeholder) \<in> set identifying_sids"
    by (simp add: identifying_sids_def)
  ultimately have "starts_with redacted_tail redacted_tail"
    using sids_redacted [of "''id S-1-5-21-7-8-1001''"] by blast
  then show ?thesis
    using \<open>without_sids _ = _\<close> by simp
qed

end
