(* ===== verification/Redact_Paths.thy ===== *)
theory Redact_Paths
  imports Redact_Texts
begin

text \<open>What redaction makes of profile directories, and of the digits of a binary value.\<close>

section \<open>Profile directories\<close>

text \<open>A profile directory's name that may stay.\<close>

definition kept_profile :: "string \<Rightarrow> bool" where
  "kept_profile name \<longleftrightarrow> is_shared_profile name \<or> name = user_placeholder \<or> name = []"

definition segment_of :: "string \<Rightarrow> string" where
  "segment_of s = takeWhile (\<lambda>c. c \<noteq> backslash) s"

definition at_users :: "string \<Rightarrow> bool" where
  "at_users s \<longleftrightarrow> starts_with (to_ascii_lowercase s) users_segment"

fun settled :: "string \<Rightarrow> bool" where
  "settled [] = True"
| "settled (c # s) =
     ((at_users (c # s) \<longrightarrow> kept_profile (segment_of (drop 7 (c # s)))) \<and> settled s)"

lemma users_segment_chars: "users_segment = backslash # ''users'' @ [backslash]"
  by (simp add: users_segment_def win_def)

lemma length_users_segment [simp]: "length users_segment = 7"
  by (simp add: users_segment_chars)

lemma at_users_iff: "at_users s \<longleftrightarrow> (\<exists>m b. s = m @ b \<and> eq_ignore_ascii_case m users_segment)"
proof
  assume "at_users s"
  then have len: "7 \<le> length s" and eq: "take 7 (to_ascii_lowercase s) = users_segment"
    by (auto simp: at_users_def starts_with_take)
  then have "to_ascii_lowercase (take 7 s) = users_segment"
    by (simp add: to_ascii_lowercase_def take_map)
  then have "eq_ignore_ascii_case (take 7 s) users_segment"
    by (metis lower.eq_ic_fold_left upper.eq_ic_refl)
  then show "\<exists>m b. s = m @ b \<and> eq_ignore_ascii_case m users_segment"
    by (metis append_take_drop_id)
next
  assume "\<exists>m b. s = m @ b \<and> eq_ignore_ascii_case m users_segment"
  then obtain m b where s: "s = m @ b" and m: "eq_ignore_ascii_case m users_segment" by blast
  from m have "to_ascii_lowercase m = users_segment"
    by (simp add: eq_ignore_ascii_case_def) (simp add: users_segment_chars to_ascii_lowercase_def)
  then show "at_users s" by (simp add: at_users_def s to_ascii_lowercase_def)
qed

lemma settled_iff:
  "settled t \<longleftrightarrow>
     (\<forall>a m b. t = a @ m @ b \<longrightarrow> eq_ignore_ascii_case m users_segment \<longrightarrow> kept_profile (segment_of b))"
proof (induction t)
  case Nil
  then show ?case by (auto simp: users_segment_chars)
next
  case (Cons c s)
  have split: "c # s = a @ m @ b \<longleftrightarrow> a = [] \<and> c # s = m @ b \<or> (\<exists>x. a = c # x \<and> s = x @ m @ b)"
    for a m b by (cases a) auto
  have "length m = 7" if "eq_ignore_ascii_case m users_segment" for m
    using upper.eq_ic_length [OF that] by simp
  then have "(at_users (c # s) \<longrightarrow> kept_profile (segment_of (drop 7 (c # s)))) \<longleftrightarrow>
      (\<forall>m b. c # s = m @ b \<longrightarrow> eq_ignore_ascii_case m users_segment \<longrightarrow> kept_profile (segment_of b))"
    unfolding at_users_iff by (metis append_eq_conv_conj)
  with Cons show ?case unfolding split settled.simps by blast
qed

lemma settled_skip: "backslash \<notin> set x \<Longrightarrow> settled (x @ y) = settled y"
proof (induction x)
  case (Cons c x)
  then have "lower_byte c \<noteq> backslash" by (cases c) auto
  then have "\<not> at_users (c # x @ y)"
    by (simp add: at_users_def users_segment_chars to_ascii_lowercase_def)
  with Cons show ?case by simp
qed simp

lemma lower_byte_backslash: "lower_byte c = backslash \<longleftrightarrow> c = backslash"
  by (cases c) auto

lemma at_users_segment:
  "at_users (backslash # s) \<Longrightarrow> eq_ignore_ascii_case (segment_of s) ''users''"
proof -
  assume "at_users (backslash # s)"
  then have "\<exists>b. to_ascii_lowercase s = ''users'' @ backslash # b"
    by (auto simp: at_users_def users_segment_chars to_ascii_lowercase_def starts_with_iff)
  then obtain b where s: "map lower_byte s = ''users'' @ backslash # b"
    by (auto simp: to_ascii_lowercase_def)
  have "map lower_byte (segment_of s) = takeWhile (\<lambda>c. c \<noteq> backslash) (map lower_byte s)"
    by (simp add: segment_of_def takeWhile_map comp_def lower_byte_backslash)
  with s have "map lower_byte (segment_of s) = ''users''" by simp
  then show ?thesis by (simp add: eq_ignore_ascii_case_def to_ascii_lowercase_def)
qed

lemma kept_not_users: "kept_profile name \<Longrightarrow> \<not> eq_ignore_ascii_case name ''users''"
proof
  assume kept: "kept_profile name" and users: "eq_ignore_ascii_case name ''users''"
  have shared: "\<not> eq_ignore_ascii_case name s"
    if "\<not> eq_ignore_ascii_case s ''users''" for s
    using users that by (metis upper.eq_ic_sym upper.eq_ic_trans)
  have "\<not> is_shared_profile name"
    unfolding is_shared_profile_def by (intro conjI notI; simp add: shared)
  with kept users show False by (auto simp: kept_profile_def user_placeholder_def)
qed

lemma at_users_take: "7 \<le> length s \<Longrightarrow> take 7 s = take 7 r \<Longrightarrow> at_users s = at_users r"
  if "7 \<le> length r"
  using that unfolding at_users_def starts_with_take
  by (simp add: to_ascii_lowercase_def take_map)

text \<open>Before the first segment found there is none, whatever is put after it.\<close>

lemma settled_first:
  "find_sub (to_ascii_lowercase t) users_segment = Some n \<Longrightarrow>
   settled (take (n + 7) t @ y) = settled (drop n (take (n + 7) t) @ y)"
proof (induction t arbitrary: n)
  case Nil
  then show ?case by (simp add: to_ascii_lowercase_def users_segment_chars)
next
  case (Cons c t)
  show ?case
  proof (cases "at_users (c # t)")
    case True
    with Cons.prems have "n = 0" by (simp add: at_users_def to_ascii_lowercase_def)
    then show ?thesis by simp
  next
    case False
    with Cons.prems obtain m where m: "find_sub (to_ascii_lowercase t) users_segment = Some m" "n = Suc m"
      by (auto simp: at_users_def to_ascii_lowercase_def)
    from find_sub_Some [OF m(1)] have len: "m + 7 \<le> length t"
      by (auto simp: to_ascii_lowercase_def dest: arg_cong [where f = length])
    have "at_users (c # take (m + 7) t @ y) = at_users (c # t)"
      by (rule at_users_take) (use len in simp_all)
    with False have "\<not> at_users (c # take (m + 7) t @ y)" by simp
    moreover have "take (n + 7) (c # t) = c # take (m + 7) t" "drop n (c # take (m + 7) t) = drop m (take (m + 7) t)"
      unfolding m(2) by (simp_all only: add_Suc take_Suc_Cons drop_Suc_Cons)
    ultimately show ?thesis using Cons.IH [OF m(1)] by simp
  qed
qed

text \<open>The loop keeps the first byte, so what a name was followed by still follows it.\<close>

lemma profiles_loop_hd: "t = [] \<and> fst (profiles_loop t) = [] \<or> t \<noteq> [] \<and> fst (profiles_loop t) \<noteq> []
    \<and> hd (fst (profiles_loop t)) = hd t"
proof (cases "find_sub (to_ascii_lowercase t) users_segment")
  case None
  then show ?thesis by (simp add: profiles_loop.simps [of t])
next
  case (Some n)
  from find_sub_Some [OF Some] have "t \<noteq> []" "take (n + 7) t \<noteq> []"
    by (auto simp: to_ascii_lowercase_def users_segment_chars)
  then show ?thesis using Some by (simp add: profiles_loop.simps [of t] Let_def split_beta)
qed

lemma profiles_loop_settled: "settled (fst (profiles_loop t))"
proof (induction t rule: profiles_loop.induct)
  case (1 t)
  show ?case
  proof (cases "find_sub (to_ascii_lowercase t) users_segment")
    case None
    have "settled t"
      unfolding settled_iff
    proof (intro allI impI)
      fix a m b assume t: "t = a @ m @ b" and m: "eq_ignore_ascii_case m users_segment"
      from m have "to_ascii_lowercase m = users_segment"
        by (simp add: eq_ignore_ascii_case_def) (simp add: users_segment_chars to_ascii_lowercase_def)
      with t have "contains_sub (to_ascii_lowercase t) users_segment"
        by (auto simp: contains_sub_iff to_ascii_lowercase_def)
      with None show "kept_profile (segment_of b)" by (simp add: contains_sub_def)
    qed
    with None show ?thesis by (simp add: profiles_loop.simps [of t])
  next
    case (Some n)
    define name where "name = segment_of (drop (n + 7) t)"
    define rest where "rest = drop (n + 7 + length name) t"
    define later where "later = fst (profiles_loop rest)"
    define kept where "kept = (if kept_profile name then name else user_placeholder)"
    have rest: "drop (n + 7) t = name @ rest"
      unfolding name_def rest_def segment_of_def
      by (metis add.commute append_take_drop_id drop_drop takeWhile_eq_take)
    have "rest = [] \<or> hd rest = backslash"
    proof -
      have "rest = dropWhile (\<lambda>c. c \<noteq> backslash) (drop (n + 7) t)"
        using rest unfolding name_def segment_of_def by (metis same_append_eq takeWhile_dropWhile_id)
      then show ?thesis
        using hd_dropWhile [of "\<lambda>c. c \<noteq> backslash" "drop (n + 7) t"] by (cases rest) auto
    qed
    then have later_hd: "later = [] \<or> hd later = backslash"
      using profiles_loop_hd [of rest] by (auto simp: later_def)
    have result: "fst (profiles_loop t) = take (n + 7) t @ kept @ later"
      using Some
      by (auto simp: profiles_loop.simps [of t] Let_def split_beta kept_def kept_profile_def name_def
          segment_of_def later_def rest_def)
    have ih: "settled later"
      unfolding later_def rest_def name_def segment_of_def by (rule 1 [OF Some refl refl, simplified])
    have kept: "kept_profile kept" "backslash \<notin> set kept"
      by (auto simp: kept_def kept_profile_def user_placeholder_def name_def segment_of_def
          dest: takeWhile_no_stop)
    have segment: "segment_of (kept @ later) = kept"
      unfolding segment_of_def using later_hd kept(2)
      by (cases later) (auto simp: takeWhile_append)
    from find_sub_Some [OF Some] obtain a b where
      "to_ascii_lowercase t = a @ users_segment @ b" "length a = n" by blast
    then have found: "to_ascii_lowercase (drop n (take (n + 7) t)) = users_segment"
      by (simp add: to_ascii_lowercase_def drop_take flip: take_map drop_map)
    obtain w where w: "drop n (take (n + 7) t) = backslash # w @ [backslash]" "backslash \<notin> set w" "length w = 5"
    proof -
      define d where "d = drop n (take (n + 7) t)"
      have "length d = 7"
        using arg_cong [OF found, of length] unfolding d_def
        by (simp only: length_to_ascii_lowercase length_users_segment)
      then obtain c0 c1 c2 c3 c4 c5 c6 where "d = [c0, c1, c2, c3, c4, c5, c6]"
        by (auto simp: length_Suc_conv eval_nat_numeral)
      then have cs: "drop n (take (n + 7) t) = [c0, c1, c2, c3, c4, c5, c6]" by (simp only: d_def)
      from found have "map lower_byte [c0, c1, c2, c3, c4, c5, c6] = backslash # ''users'' @ [backslash]"
        unfolding cs by (simp add: to_ascii_lowercase_def users_segment_chars)
      then have "lower_byte c0 = backslash" "lower_byte c6 = backslash"
        "backslash \<notin> lower_byte ` {c1, c2, c3, c4, c5}" by simp_all
      then have "c0 = backslash" "c6 = backslash" "backslash \<notin> {c1, c2, c3, c4, c5}"
        by (auto simp: lower_byte_backslash image_iff)
      with cs that [of "[c1, c2, c3, c4, c5]"] show ?thesis by simp
    qed
    have "settled (fst (profiles_loop t)) = settled (backslash # w @ backslash # kept @ later)"
      unfolding result settled_first [OF Some] w by simp
    also have "\<dots> = settled (w @ backslash # kept @ later)"
      using kept(1) w(3) by (simp add: segment)
    also have "\<dots> = settled (backslash # kept @ later)" by (rule settled_skip [OF w(2)])
    also have "\<dots> = settled (kept @ later)"
      using at_users_segment [of "kept @ later"] kept_not_users [OF kept(1)] by (auto simp: segment)
    also have "\<dots> = settled later" by (rule settled_skip [OF kept(2)])
    finally show ?thesis using ih by simp
  qed
qed

text \<open>The text after the substitution.\<close>

definition without_profiles :: "string \<Rightarrow> string" where
  "without_profiles t = (case replace_user_profiles t of Some r \<Rightarrow> r | None \<Rightarrow> t)"

lemma profiles_loop_unhit: "\<not> snd (profiles_loop t) \<Longrightarrow> fst (profiles_loop t) = t"
proof (induction t rule: profiles_loop.induct)
  case (1 t)
  show ?case
  proof (cases "find_sub (to_ascii_lowercase t) users_segment")
    case None
    then show ?thesis by (simp add: profiles_loop.simps [of t])
  next
    case (Some n)
    define name where "name = takeWhile (\<lambda>c. c \<noteq> backslash) (drop (n + 7) t)"
    define rest where "rest = drop (n + 7 + length name) t"
    have "t = take (n + 7) t @ name @ rest"
      unfolding name_def rest_def by (metis add.commute append_take_drop_id drop_drop takeWhile_eq_take)
    moreover have "fst (profiles_loop rest) = rest" if "\<not> snd (profiles_loop rest)"
      using that unfolding rest_def name_def by (rule 1(1) [OF Some refl refl, simplified])
    ultimately show ?thesis
      using Some 1(2)
      by (auto simp: profiles_loop.simps [of t] Let_def split_beta name_def [symmetric] rest_def [symmetric]
          split: if_splits)
  qed
qed

text \<open>
  C18. The pass of the redaction that replaces profile folders (\<open>replace_user_profiles\<close>) misses
  none: in the text as that pass leaves it, whatever follows a \<open>Users\<close> segment, in any letter case
  and anywhere in the text, up to the next separator, is the placeholder, one of the shared
  profiles, or nothing.  What later passes make of that text is not said here.
\<close>

theorem profiles_redacted:
  "\<forall>a m b. without_profiles t = a @ m @ b \<longrightarrow> eq_ignore_ascii_case m users_segment \<longrightarrow>
     kept_profile (segment_of b)"
proof -
  have "without_profiles t = fst (profiles_loop t)"
    using profiles_loop_unhit [of t]
    by (auto simp: without_profiles_def replace_user_profiles_def split_beta)
  then show ?thesis using profiles_loop_settled settled_iff by metis
qed

theorem profiles_redacted_witness: "kept_profile (segment_of (win ''%USER%/x''))"
proof -
  have "without_profiles (win ''D:/USERS/ann/x'') = win ''D:'' @ win ''/USERS/'' @ win ''%USER%/x''"
    by code_simp
  moreover have "eq_ignore_ascii_case (win ''/USERS/'') users_segment" by code_simp
  ultimately show ?thesis using profiles_redacted [of "win ''D:/USERS/ann/x''"] by blast
qed

section \<open>Binary values\<close>

lemma hex_digits_table:
  "list_all (\<lambda>upper. list_all (\<lambda>n. hex_value (hex_digit upper n) = n
      \<and> is_hexdigit_byte (hex_digit upper n)) [0..<16]) [False, True]"
  by code_simp

lemma hex_digits: "n < 16 \<Longrightarrow> hex_value (hex_digit upper n) = n \<and> is_hexdigit_byte (hex_digit upper n)"
  using hex_digits_table by (cases upper) (simp_all add: list_all_iff)

lemma nibble: "(of_char b :: nat) div 16 < 16"
proof -
  have "(of_char b :: nat) = of_char b mod 256" by simp
  also have "\<dots> < 256" by (rule mod_less_divisor) simp
  finally show ?thesis by (simp add: div_less_iff_less_mult)
qed

lemma hex_pairs_encode: "hex_pairs (encode_hex bytes upper) = bytes"
proof (induction bytes)
  case (Cons b bytes)
  have "hex_value (hex_digit upper (of_char b div 16)) = of_char b div 16"
    "hex_value (hex_digit upper (of_char b mod 16)) = of_char b mod 16"
    using nibble [of b] by (simp_all add: hex_digits)
  then show ?case using Cons by (simp add: encode_hex_def)
qed (simp add: encode_hex_def)

text \<open>
  A binary value survives the change of its digits: the hex written for any bytes but none
  reads back as those bytes, in either case of the digits.
\<close>

theorem hex_roundtrip:
  assumes "bytes \<noteq> []"
  shows "decode_hex (encode_hex bytes upper) = Some bytes"
proof -
  have "length (encode_hex bytes upper) = 2 * length bytes"
    by (induction bytes) (simp_all add: encode_hex_def)
  moreover have "list_all is_hexdigit_byte (encode_hex bytes upper)"
    by (induction bytes) (auto simp: encode_hex_def hex_digits nibble)
  moreover have "2 \<le> 2 * length bytes" using assms by (cases bytes) simp_all
  ultimately show ?thesis using assms by (simp add: decode_hex_def hex_pairs_encode)
qed

theorem hex_roundtrip_witness: "decode_hex (encode_hex ''bob'' True) = Some ''bob''"
  by (rule hex_roundtrip) simp

end
