(* ===== verification/Wire.thy ===== *)
theory Wire
  imports Json
begin

text \<open>
  The frames between the broker spike and its client:
  \<open>spikes/s3-split-privilege/broker/src/proto.rs\<close> and the framing of \<open>pipe.rs\<close>.  A frame is
  the length of the body as four little-endian bytes, and the body.  Writing and reading JSON
  are parameters; a read of the pipe is one of its outcomes.
\<close>

section \<open>Envelopes\<close>

definition max_frame :: nat where
  "max_frame = 16 * 1024 * 1024"

definition protocol_version :: "32 word" where
  "protocol_version = 1"

record envelope =
  en_v :: "32 word"
  en_id :: "string option"
  en_kind :: string
  en_seq :: "64 word option"
  en_payload :: json

definition response :: "string option \<Rightarrow> string \<Rightarrow> json \<Rightarrow> envelope" where
  "response i k payload =
     \<lparr>en_v = protocol_version, en_id = i, en_kind = k, en_seq = None, en_payload = payload\<rparr>"

definition event :: "64 word \<Rightarrow> string \<Rightarrow> json \<Rightarrow> envelope" where
  "event s k payload =
     \<lparr>en_v = protocol_version, en_id = None, en_kind = k, en_seq = Some s, en_payload = payload\<rparr>"

datatype frame_error = Closed | Broken string | TooLarge "32 word" | Malformed string

definition frame_error_text :: "frame_error \<Rightarrow> string" where
  "frame_error_text e =
     (case e of
        Closed \<Rightarrow> ''peer closed between frames''
      | Broken r \<Rightarrow> ''pipe broken mid-frame: '' @ r
      | TooLarge n \<Rightarrow>
          ''frame of '' @ decimal (unat n) @ '' bytes exceeds the '' @ decimal max_frame @ '' byte cap''
      | Malformed m \<Rightarrow> ''malformed frame: '' @ m)"

section \<open>Encoding\<close>

text \<open>\<open>u32::to_le_bytes\<close> and \<open>u32::from_le_bytes\<close>.\<close>

definition to_le_bytes :: "32 word \<Rightarrow> string" where
  "to_le_bytes w = map (\<lambda>i. char_of (unat w div 256 ^ i mod 256)) [0, 1, 2, 3]"

definition from_le_bytes :: "string \<Rightarrow> 32 word" where
  "from_le_bytes bytes =
     of_nat (sum_list (map (\<lambda>i. of_char (bytes ! i) * 256 ^ i) [0, 1, 2, 3]))"

definition encode :: "(envelope \<Rightarrow> string + string) \<Rightarrow> envelope \<Rightarrow> frame_error + string" where
  "encode to_vec e =
     (case to_vec e of
        Inl reason \<Rightarrow> Inl (Malformed reason)
      | Inr body \<Rightarrow>
          if 2 ^ 32 \<le> length body then Inl (TooLarge (- 1))
          else let len = of_nat (length body)
               in if max_frame < length body then Inl (TooLarge len)
                  else Inr (to_le_bytes len @ body))"

definition decode :: "(string \<Rightarrow> string + envelope) \<Rightarrow> string \<Rightarrow> frame_error + envelope" where
  "decode from_slice body = (case from_slice body of Inl r \<Rightarrow> Inl (Malformed r) | Inr e \<Rightarrow> Inr e)"

definition check_len :: "32 word \<Rightarrow> frame_error + nat" where
  "check_len len = (if max_frame < unat len then Inl (TooLarge len) else Inr (unat len))"

section \<open>Reading from the pipe\<close>

text \<open>
  One \<open>ReadFile\<close> of a message-mode pipe: the rest of the message, a full buffer with more to
  come, the peer gone, or another error.
\<close>

datatype read_outcome = ReadAll string | MoreData string | PeerGone | ReadFailed string

definition chunk_size :: nat where
  "chunk_size = 64 * 1024"

text \<open>
  The loop that collects one message, and the reads that are left for the next one; \<open>None\<close>
  when the outcomes run out and it blocks.
\<close>

fun read_message ::
    "string \<Rightarrow> read_outcome list \<Rightarrow> ((frame_error + string) \<times> read_outcome list) option" where
  "read_message message [] = None"
| "read_message message (ReadAll chunk # later) = Some (Inr (message @ chunk), later)"
| "read_message message (MoreData chunk # later) =
     (if max_frame < length (message @ chunk) then Some (Inl (TooLarge (- 1)), later)
      else read_message (message @ chunk) later)"
| "read_message message (PeerGone # later) = Some (Inl Closed, later)"
| "read_message message (ReadFailed reason # later) = Some (Inl (Broken reason), later)"

definition parse_message :: "(string \<Rightarrow> string + envelope) \<Rightarrow> string \<Rightarrow> frame_error + envelope" where
  "parse_message from_slice message =
     (if message = [] then Inl Closed
      else if length message < 4 then
        Inl (Malformed (decimal (length message) @ '' byte message cannot hold a length prefix''))
      else case check_len (from_le_bytes (take 4 message)) of
             Inl e \<Rightarrow> Inl e
           | Inr declared \<Rightarrow>
               let body = drop 4 message
               in if length body \<noteq> declared then
                    Inl (Malformed (''length prefix says '' @ decimal declared
                           @ '' bytes, message carried '' @ decimal (length body)))
                  else decode from_slice body)"

definition read_frame ::
    "(string \<Rightarrow> string + envelope) \<Rightarrow> read_outcome list
     \<Rightarrow> ((frame_error + envelope) \<times> read_outcome list) option" where
  "read_frame from_slice outcomes =
     (case read_message [] outcomes of
        None \<Rightarrow> None
      | Some (Inl e, later) \<Rightarrow> Some (Inl e, later)
      | Some (Inr message, later) \<Rightarrow> Some (parse_message from_slice message, later))"

text \<open>
  How a message-mode pipe hands over a message to reads of \<open>chunk_size\<close> bytes: Windows answers
  \<open>ERROR_MORE_DATA\<close> only when the buffer is full.
\<close>

function pipe_reads :: "string \<Rightarrow> read_outcome list" where
  "pipe_reads s =
     (if length s \<le> chunk_size then [ReadAll s]
      else MoreData (take chunk_size s) # pipe_reads (drop chunk_size s))"
  by pat_completeness auto
termination
  by (relation "measure length") (auto simp: chunk_size_def)

declare pipe_reads.simps [simp del]

section \<open>Properties\<close>

lemma bytes_of_nat:
  fixes n :: nat
  assumes "n < 2 ^ 32"
  shows "(\<Sum>i\<leftarrow>[0, 1, 2, 3]. n div 256 ^ i mod 256 * 256 ^ i) = n"
proof -
  have "n div 16777216 < 256" using assms by (simp add: div_less_iff_less_mult)
  then have d: "n div 16777216 mod 256 = n div 16777216" by simp
  have c: "n div 65536 = n div 65536 mod 256 + n div 16777216 * 256"
    using mod_div_mult_eq [of "n div 65536" 256] by (simp add: div_mult2_eq [symmetric])
  have b: "n div 256 = n div 256 mod 256 + n div 65536 * 256"
    using mod_div_mult_eq [of "n div 256" 256] by (simp add: div_mult2_eq [symmetric])
  have a: "n = n mod 256 + n div 256 * 256" by simp
  have "n = n mod 256 + (n div 256 mod 256
      + (n div 65536 mod 256 + n div 16777216 * 256) * 256) * 256"
    unfolding c [symmetric] b [symmetric] by (rule a)
  then show ?thesis by (simp add: d distrib_right ac_simps)
qed

lemma from_to_le_bytes [simp]: "from_le_bytes (to_le_bytes w) = w"
proof -
  have "unat w < 2 ^ 32" using unsigned_less [of w, where ?'a = nat] by simp
  note sum = bytes_of_nat [OF this]
  have "from_le_bytes (to_le_bytes w)
      = of_nat (\<Sum>i\<leftarrow>[0, 1, 2, 3]. unat w div 256 ^ i mod 256 * 256 ^ i)"
    by (simp add: from_le_bytes_def to_le_bytes_def)
  then show ?thesis unfolding sum by simp
qed

lemma length_to_le_bytes [simp]: "length (to_le_bytes w) = 4"
  by (simp add: to_le_bytes_def)

lemma read_pipe_reads:
  "length message + length s \<le> max_frame + 4 \<Longrightarrow> chunk_size dvd length message \<Longrightarrow>
   read_message message (pipe_reads s @ later) = Some (Inr (message @ s), later)"
proof (induction s arbitrary: message rule: pipe_reads.induct)
  case (1 s)
  show ?case
  proof (cases "length s \<le> chunk_size")
    case True
    then show ?thesis by (simp add: pipe_reads.simps)
  next
    case False
    let ?next = "message @ take chunk_size s"
    have len: "length ?next = length message + chunk_size" using False by simp
    have whole: "chunk_size dvd length ?next" unfolding len using 1(3) by simp
    have "length ?next < max_frame + 4" using 1(2) False len by simp
    moreover obtain k where "length ?next = 65536 * k"
      using whole by (auto simp: chunk_size_def elim!: dvdE)
    ultimately have fits: "length ?next \<le> max_frame" by (simp add: max_frame_def)
    have rest: "length ?next + length (drop chunk_size s) \<le> max_frame + 4" using 1(2) False by simp
    have "read_message message (pipe_reads s @ later)
        = read_message ?next (pipe_reads (drop chunk_size s) @ later)"
      using False fits by (simp add: pipe_reads.simps [of s])
    also have "\<dots> = Some (Inr (?next @ drop chunk_size s), later)"
      by (rule 1(1) [OF False rest whole])
    finally show ?thesis by simp
  qed
qed

lemma parse_message_accepted:
  "parse_message from_slice m = Inr e \<longleftrightarrow>
   4 \<le> length m \<and> unat (from_le_bytes (take 4 m)) = length m - 4
   \<and> length m - 4 \<le> max_frame \<and> from_slice (drop 4 m) = Inr e"
  unfolding parse_message_def check_len_def decode_def
  by (cases "from_slice (drop 4 m)") (auto simp: Let_def not_less)

lemma read_frame_accepted:
  "read_frame from_slice outcomes = Some (Inr e, later) \<longleftrightarrow>
   (\<exists>m. read_message [] outcomes = Some (Inr m, later) \<and> parse_message from_slice m = Inr e)"
  by (auto simp: read_frame_def split: option.splits sum.splits prod.splits)

text \<open>
  Any other split of the message over the reads: the pieces that more followed, and the last one.
\<close>

abbreviation split_reads :: "string list \<Rightarrow> string \<Rightarrow> read_outcome list" where
  "split_reads pieces final \<equiv> map MoreData pieces @ [ReadAll final]"

lemma read_split:
  "length (message @ concat pieces) \<le> max_frame \<Longrightarrow>
   read_message message (split_reads pieces final @ later)
   = Some (Inr (message @ concat pieces @ final), later)"
proof (induction pieces arbitrary: message)
  case (Cons piece pieces)
  have "length ((message @ piece) @ concat pieces) \<le> max_frame" using Cons(2) by simp
  from Cons(1) [OF this] show ?case using Cons(2) by simp
qed simp

lemma split_too_large:
  "length message \<le> max_frame \<Longrightarrow> max_frame < length (message @ concat pieces) \<Longrightarrow>
   \<exists>left. read_message message (split_reads pieces final @ later)
     = Some (Inl (TooLarge (- 1)), left)"
proof (induction pieces arbitrary: message)
  case (Cons piece pieces)
  then show ?case using Cons(1) [of "message @ piece"] by (auto simp: not_less)
qed simp

text \<open>
  C16. A frame that was encoded is read back, whatever its size up to the cap: when the pipe
  fills each buffer of 64 KiB before the next, as Windows does, and also for any other split of
  the message over the reads, exactly when no more than the cap (16 MiB) came before the last
  read.  The reader gets the envelope that was written, and what follows it in the pipe is left
  for the next read.
\<close>

theorem frame_roundtrip:
  assumes "encode to_vec e = Inr frame"
    and "\<And>body. to_vec e = Inr body \<Longrightarrow> from_slice body = Inr e"
  shows "read_frame from_slice (pipe_reads frame @ later) = Some (Inr e, later)
    \<and> (\<forall>pieces final. concat pieces @ final = frame \<longrightarrow>
        (read_frame from_slice (split_reads pieces final @ later) = Some (Inr e, later)
         \<longleftrightarrow> length (concat pieces) \<le> max_frame))"
proof -
  from assms(1) obtain body where body: "to_vec e = Inr body" and len: "length body \<le> max_frame"
    and frame: "frame = to_le_bytes (of_nat (length body)) @ body"
    by (auto simp: encode_def Let_def split: sum.splits if_splits)
  have declared: "unat (of_nat (length body) :: 32 word) = length body"
    using len by (simp add: unsigned_of_nat take_bit_nat_eq_self max_frame_def)
  have "read_message [] (pipe_reads frame @ later) = Some (Inr ([] @ frame), later)"
    by (rule read_pipe_reads) (use len in \<open>simp_all add: frame\<close>)
  moreover have parsed: "parse_message from_slice frame = Inr e"
    using len assms(2) [OF body] by (simp add: parse_message_accepted frame declared)
  ultimately have "read_frame from_slice (pipe_reads frame @ later) = Some (Inr e, later)"
    by (simp add: read_frame_accepted)
  moreover have "read_frame from_slice (split_reads pieces final @ later) = Some (Inr e, later)
      \<longleftrightarrow> length (concat pieces) \<le> max_frame" if split: "concat pieces @ final = frame" for pieces final
  proof (cases "length (concat pieces) \<le> max_frame")
    case True
    then show ?thesis using read_split [of "[]" pieces final later] parsed split
      by (simp add: read_frame_accepted)
  next
    case False
    then show ?thesis using split_too_large [of "[]" pieces final later]
      by (auto simp: read_frame_def)
  qed
  ultimately show ?thesis by blast
qed

theorem frame_roundtrip_witness:
  "read_frame (\<lambda>_. Inr (response (Some ''1'') ''HelloAck'' JsonNull))
     (pipe_reads (to_le_bytes 2 @ ''{}'') @ [PeerGone])
     = Some (Inr (response (Some ''1'') ''HelloAck'' JsonNull), [PeerGone])
   \<and> read_frame (\<lambda>_. Inr (response (Some ''1'') ''HelloAck'' JsonNull))
       (split_reads [to_le_bytes 2, ''{''] ''}'' @ [PeerGone])
       = Some (Inr (response (Some ''1'') ''HelloAck'' JsonNull), [PeerGone])"
proof -
  have "encode (\<lambda>_. Inr ''{}'') (response (Some ''1'') ''HelloAck'' JsonNull)
      = Inr (to_le_bytes 2 @ ''{}'')"
    by (simp add: encode_def max_frame_def Let_def)
  note read = frame_roundtrip [OF this, of "\<lambda>_. Inr (response (Some ''1'') ''HelloAck'' JsonNull)"
      "[PeerGone]"]
  have "length (concat [to_le_bytes 2, ''{'']) \<le> max_frame" by (simp add: max_frame_def)
  with read show ?thesis by (simp del: map_append list.map append_Cons append_Nil)
qed

fun chunk_of :: "read_outcome \<Rightarrow> string" where
  "chunk_of (ReadAll chunk) = chunk"
| "chunk_of (MoreData chunk) = chunk"
| "chunk_of _ = []"

text \<open>Everything some reads put into the buffer, in order.\<close>

abbreviation gathered :: "read_outcome list \<Rightarrow> string" where
  "gathered outcomes \<equiv> concat (map chunk_of outcomes)"

lemma waiting_is_bounded:
  "read_message message outcomes = None \<Longrightarrow> length message \<le> max_frame \<Longrightarrow>
   length (message @ gathered outcomes) \<le> max_frame"
  by (induction message outcomes rule: read_message.induct) (auto split: if_splits)

lemma read_message_takes:
  assumes "read_message message outcomes = Some (result, later)" and "length message \<le> max_frame"
    and "\<forall>r \<in> set outcomes. length (chunk_of r) \<le> chunk_size"
  shows "\<exists>taken. outcomes = taken @ later
    \<and> length (message @ gathered taken) \<le> max_frame + chunk_size
    \<and> (\<forall>m. result = Inr m \<longrightarrow> m = message @ gathered taken)"
  using assms
proof (induction message outcomes rule: read_message.induct)
  case (3 message chunk outcomes)
  show ?case
  proof (cases "max_frame < length (message @ chunk)")
    case True
    then show ?thesis using 3(2-4) by (intro exI [of _ "[MoreData chunk]"]) auto
  next
    case False
    then obtain taken where "outcomes = taken @ later"
      "length ((message @ chunk) @ gathered taken) \<le> max_frame + chunk_size"
      "\<forall>m. result = Inr m \<longrightarrow> m = (message @ chunk) @ gathered taken"
      using 3(1) [OF False] 3(2-4) by auto
    then show ?thesis by (intro exI [of _ "MoreData chunk # taken"]) simp
  qed
qed (force intro: exI [of _ "[r]" for r])+

text \<open>
  C17. What a hostile peer can make the reader hold is bounded at every moment, with reads of at
  most a buffer: as long as it waits for more, all it has taken from the pipe is within the frame
  cap; when it stops, with a message or with an error, it has taken at most the cap and one
  buffer.  And an envelope is only ever parsed from exactly what it took, whose body is within
  the cap and of the length the prefix declares.
\<close>

theorem read_frame_bounded:
  assumes "\<forall>r \<in> set outcomes. length (chunk_of r) \<le> chunk_size"
  shows "case read_frame from_slice outcomes of
      None \<Rightarrow> length (gathered outcomes) \<le> max_frame
    | Some (result, later) \<Rightarrow>
        \<exists>taken. outcomes = taken @ later \<and> length (gathered taken) \<le> max_frame + chunk_size
          \<and> (\<forall>e. result = Inr e \<longrightarrow>
                4 \<le> length (gathered taken) \<and> length (gathered taken) \<le> max_frame + 4
                \<and> unat (from_le_bytes (take 4 (gathered taken))) = length (gathered taken) - 4
                \<and> from_slice (drop 4 (gathered taken)) = Inr e)"
proof (cases "read_message [] outcomes")
  case None
  then show ?thesis using waiting_is_bounded [of "[]" outcomes] by (simp add: read_frame_def)
next
  case (Some answer)
  obtain result later where answer: "answer = (result, later)" by (cases answer)
  obtain taken where taken: "outcomes = taken @ later"
    "length (gathered taken) \<le> max_frame + chunk_size"
    "\<forall>m. result = Inr m \<longrightarrow> m = gathered taken"
    using read_message_takes [OF Some [unfolded answer] _ assms] by auto
  show ?thesis
  proof (cases result)
    case (Inl e)
    then have "read_frame from_slice outcomes = Some (Inl e, later)"
      by (simp add: read_frame_def Some answer)
    then show ?thesis using taken by auto
  next
    case (Inr m)
    then have "read_frame from_slice outcomes = Some (parse_message from_slice (gathered taken), later)"
      using taken(3) by (simp add: read_frame_def Some answer)
    then show ?thesis using taken(1,2) by (auto simp: parse_message_accepted)
  qed
qed

theorem read_frame_bounded_witness:
  "length (gathered [MoreData (to_le_bytes 2), MoreData ''{'']) \<le> max_frame
   \<and> length (gathered [MoreData (to_le_bytes 2), ReadAll ''{}'']) \<le> max_frame + chunk_size"
proof -
  let ?waiting = "[MoreData (to_le_bytes 2), MoreData ''{'']"
  let ?whole = "[MoreData (to_le_bytes 2), ReadAll ''{}'']"
  let ?parse = "\<lambda>_. Inr (event 1 ''StageEvent'' JsonNull)"
  have waits: "read_frame ?parse ?waiting = None" by (simp add: read_frame_def max_frame_def)
  have reads: "read_frame ?parse ?whole = Some (Inr (event 1 ''StageEvent'' JsonNull), [])"
    by (simp add: read_frame_def max_frame_def parse_message_accepted)
  have "\<forall>r \<in> set ?waiting. length (chunk_of r) \<le> chunk_size"
    and "\<forall>r \<in> set ?whole. length (chunk_of r) \<le> chunk_size" by (simp_all add: chunk_size_def)
  from this [THEN read_frame_bounded [of _ ?parse], unfolded waits reads] show ?thesis by simp
qed

text \<open>
  A message refused as too large is only read up to the cap: what is left of it stays in the
  pipe, and the next read takes it for a message of its own.  So a peer can hide a frame behind
  the first buffers of an oversized message.
\<close>

lemma oversized_message_hides_frame:
  fixes chunk :: string
  assumes "length chunk = chunk_size" "parse_message from_slice frame = Inr e"
  shows "\<exists>rs later. rs = replicate 257 (MoreData chunk) @ [ReadAll frame]
    \<and> read_frame from_slice rs = Some (Inl (TooLarge (- 1)), later)
    \<and> read_frame from_slice later = Some (Inr e, [])"
proof -
  have "read_message message (replicate (Suc k) (MoreData chunk) @ later)
      = Some (Inl (TooLarge (- 1)), later)"
    if "length message + k * chunk_size = max_frame" for k message later
    using that
  proof (induction k arbitrary: message)
    case 0
    then show ?case using assms(1) by (simp add: chunk_size_def)
  next
    case (Suc k)
    have "length (message @ chunk) + k * chunk_size = max_frame" using Suc(2) assms(1) by simp
    from Suc(1) [OF this] show ?case using Suc(2) assms(1) by simp
  qed
  from this [of "[]" 256 "[ReadAll frame]"]
  have "read_frame from_slice (replicate 257 (MoreData chunk) @ [ReadAll frame])
      = Some (Inl (TooLarge (- 1)), [ReadAll frame])"
    by (simp add: read_frame_def max_frame_def chunk_size_def)
  moreover have "read_frame from_slice [ReadAll frame] = Some (Inr e, [])"
    using assms(2) by (simp add: read_frame_def)
  ultimately show ?thesis by blast
qed

end
