(* ===== verification/Job.thy ===== *)
theory Job
  imports Wire Ordered_Map
begin

text \<open>
  The synthetic job of the broker spike and its record: \<open>job.rs\<close> and \<open>state.rs\<close> under
  \<open>spikes/s3-split-privilege/broker/src\<close>.  The thread is a machine that takes one action at a
  time, because a client reads the log, and the process may die, between any two of them.  The
  time of a statement and whether the database carries it out are inputs of the action.
\<close>

section \<open>The database\<close>

record job_row =
  jr_created_utc :: string
  jr_completed_utc :: "string option"
  jr_status :: string
  jr_app_version :: string
  jr_catalog_version :: string
  jr_last_seq :: int

record stage_row =
  sr_started_utc :: string
  sr_ended_utc :: "string option"
  sr_result :: string
  sr_notes :: "string option"

record database =
  db_jobs :: "string \<rightharpoonup> job_row"
  db_stages :: "string \<times> 32 word \<rightharpoonup> stage_row"

definition empty_database :: database where
  "empty_database = \<lparr>db_jobs = (\<lambda>_. None), db_stages = (\<lambda>_. None)\<rparr>"

datatype journal_mode = Wal | DeleteJournal | Truncate

fun pragma :: "journal_mode \<Rightarrow> string" where
  "pragma Wal = ''WAL''"
| "pragma DeleteJournal = ''DELETE''"
| "pragma Truncate = ''TRUNCATE''"

text \<open>\<open>i64::try_from(n).unwrap_or(i64::MAX)\<close>.\<close>

definition as_i64 :: "64 word \<Rightarrow> int" where
  "as_i64 n = (if uint n < 2 ^ 63 then uint n else 2 ^ 63 - 1)"

text \<open>
  What SQLite answers while a database is opened: whether each statement works, and the
  journal mode it adopted.
\<close>

record open_outcome =
  oo_open :: "string option"
  oo_journal :: "string + string"
  oo_schema :: "string option"
  oo_insert :: "string option"

definition insert_job_row ::
    "string \<Rightarrow> string \<Rightarrow> string \<Rightarrow> string \<Rightarrow> database \<Rightarrow> database" where
  "insert_job_row i now app_version catalog_version db =
     db\<lparr>db_jobs := (db_jobs db)(i \<mapsto>
       (case db_jobs db i of
          Some row \<Rightarrow> row\<lparr>jr_status := ''running''\<rparr>
        | None \<Rightarrow> \<lparr>jr_created_utc = now, jr_completed_utc = None, jr_status = ''running'',
                    jr_app_version = app_version, jr_catalog_version = catalog_version,
                    jr_last_seq = 0\<rparr>))\<rparr>"

definition open_store ::
    "open_outcome \<Rightarrow> string \<Rightarrow> journal_mode \<Rightarrow> string \<Rightarrow> string \<Rightarrow> string \<Rightarrow> database \<Rightarrow> string + database" where
  "open_store oo i journal now app_version catalog_version db =
     (case oo_open oo of
        Some e \<Rightarrow> Inl (''opening: '' @ e)
      | None \<Rightarrow>
          (case oo_journal oo of
             Inl e \<Rightarrow> Inl (''PRAGMA journal_mode: '' @ e)
           | Inr adopted \<Rightarrow>
               if \<not> eq_ignore_ascii_case adopted (pragma journal) then
                 Inl (''asked for journal_mode '' @ pragma journal @ '' but the database adopted '' @ adopted)
               else case oo_schema oo of
                      Some e \<Rightarrow> Inl (''applying the schema: '' @ e)
                    | None \<Rightarrow>
                        (case oo_insert oo of
                           Some e \<Rightarrow> Inl (''inserting the job row: '' @ e)
                         | None \<Rightarrow> Inr (insert_job_row i now app_version catalog_version db))))"

definition stage_started :: "string \<Rightarrow> 32 word \<Rightarrow> string \<Rightarrow> database \<Rightarrow> database" where
  "stage_started i stage now db =
     db\<lparr>db_stages := (db_stages db)((i, stage) \<mapsto>
       (case db_stages db (i, stage) of
          Some row \<Rightarrow> row\<lparr>sr_started_utc := now\<rparr>
        | None \<Rightarrow> \<lparr>sr_started_utc = now, sr_ended_utc = None, sr_result = ''running'',
                    sr_notes = None\<rparr>))\<rparr>"

text \<open>An \<open>UPDATE\<close> of a row that is not there changes nothing.\<close>

definition update_row :: "'k \<Rightarrow> ('r \<Rightarrow> 'r) \<Rightarrow> ('k \<rightharpoonup> 'r) \<Rightarrow> 'k \<rightharpoonup> 'r" where
  "update_row k f m = m(k := map_option f (m k))"

definition stage_finished ::
    "string \<Rightarrow> 32 word \<Rightarrow> string \<Rightarrow> string \<Rightarrow> 64 word \<Rightarrow> string \<Rightarrow> database \<Rightarrow> database" where
  "stage_finished i stage outcome remark last_seq now db =
     db\<lparr>db_stages := update_row (i, stage)
          (\<lambda>r. r\<lparr>sr_ended_utc := Some now, sr_result := outcome, sr_notes := Some remark\<rparr>) (db_stages db),
        db_jobs := update_row i (\<lambda>r. r\<lparr>jr_last_seq := as_i64 last_seq\<rparr>) (db_jobs db)\<rparr>"

definition job_finished :: "string \<Rightarrow> string \<Rightarrow> 64 word \<Rightarrow> string \<Rightarrow> database \<Rightarrow> database" where
  "job_finished i status last_seq now db =
     db\<lparr>db_jobs := update_row i
          (\<lambda>r. r\<lparr>jr_completed_utc := Some now, jr_status := status, jr_last_seq := as_i64 last_seq\<rparr>)
          (db_jobs db)\<rparr>"

section \<open>The log\<close>

definition stage_keys :: "string list" where
  "stage_keys =
     [''preflight'', ''plan'', ''vendor_uninstall'', ''services'', ''reboot'', ''residue_sweep'', ''verify'']"

text \<open>\<open>json!({...})\<close>: an object of this crate keeps its members by name.\<close>

definition json_object :: "(string \<times> json) list \<Rightarrow> json" where
  "json_object ms = JsonObject (fold (\<lambda>(k, x). btree_insert k x) ms [])"

definition json_nat :: "32 word \<Rightarrow> json" where
  "json_nat n = JsonNumber (PosInt (ucast n))"

record event_log =
  el_events :: "envelope list"
  el_finished :: bool

definition empty_log :: event_log where
  "empty_log = \<lparr>el_events = [], el_finished = False\<rparr>"

definition next_seq :: "event_log \<Rightarrow> 64 word" where
  "next_seq log = of_nat (length (el_events log)) + 1"

definition last_seq :: "event_log \<Rightarrow> 64 word" where
  "last_seq log = of_nat (length (el_events log))"

definition push :: "string \<Rightarrow> 32 word \<Rightarrow> string \<Rightarrow> string \<Rightarrow> json \<Rightarrow> event_log \<Rightarrow> event_log" where
  "push i stage state message_key args log =
     log\<lparr>el_events := el_events log @ [event (next_seq log) ''StageEvent'' (json_object
       [(''job_id'', JsonString i), (''stage'', json_nat stage), (''state'', JsonString state),
        (''message_key'', JsonString message_key), (''args'', args)])]\<rparr>"

definition complete :: "string \<Rightarrow> event_log \<Rightarrow> event_log" where
  "complete i log =
     \<lparr>el_events = el_events log @ [event (next_seq log) ''JobComplete'' (json_object
        [(''job_id'', JsonString i), (''status'', JsonString ''completed''),
         (''residual_count'', json_nat 0)])],
      el_finished = True\<rparr>"

text \<open>What a reader gets: the events after a number, and whether the job has finished.\<close>

definition events_after :: "event_log \<Rightarrow> 64 word \<Rightarrow> envelope list \<times> bool" where
  "events_after log after =
     (drop (min (unat after) (length (el_events log))) (el_events log), el_finished log)"

section \<open>The thread\<close>

text \<open>
  Where the thread is: about to record the start of a stage, to announce it, to wait for a
  tick and report it, to commit the stage, to announce its end; then to record and to announce
  the end of the job.
\<close>

datatype job_pc =
  RecordStart nat | AnnounceStart nat | Progress nat "32 word" | CommitStage nat | AnnounceDone nat
  | RecordEnd | AnnounceEnd | Ended

record job =
  jb_id :: string
  jb_ticks :: "32 word"
  jb_pc :: job_pc
  jb_log :: event_log
  jb_database :: database

text \<open>The name of a message of a stage.\<close>

definition stage_message :: "nat \<Rightarrow> string \<Rightarrow> string" where
  "stage_message stage state = ''stage.'' @ stage_keys ! stage @ ''.'' @ state"

definition start_job :: "string \<Rightarrow> 32 word \<Rightarrow> database \<Rightarrow> job" where
  "start_job i ticks db =
     \<lparr>jb_id = i, jb_ticks = ticks, jb_pc = RecordStart 0, jb_log = empty_log, jb_database = db\<rparr>"

text \<open>What follows a stage, and what follows a progress report.\<close>

definition after_stage :: "nat \<Rightarrow> job_pc" where
  "after_stage stage = (if Suc stage < length stage_keys then RecordStart (Suc stage) else RecordEnd)"

definition after_tick :: "32 word \<Rightarrow> nat \<Rightarrow> 32 word \<Rightarrow> job_pc" where
  "after_tick ticks stage done = (if done < ticks then Progress stage (done + 1) else CommitStage stage)"

text \<open>One action: a statement that fails is logged and the job goes on.\<close>

definition job_step :: "bool \<Rightarrow> string \<Rightarrow> job \<Rightarrow> job" where
  "job_step ok now j =
     (let i = jb_id j; log = jb_log j; db = jb_database j
      in case jb_pc j of
           RecordStart stage \<Rightarrow>
             j\<lparr>jb_database := (if ok then stage_started i (of_nat stage) now db else db),
               jb_pc := AnnounceStart stage\<rparr>
         | AnnounceStart stage \<Rightarrow>
             j\<lparr>jb_log := push i (of_nat stage) ''started'' (stage_message stage ''started'') (json_object []) log,
               jb_pc := after_tick (jb_ticks j) stage 0\<rparr>
         | Progress stage progress \<Rightarrow>
             j\<lparr>jb_log := push i (of_nat stage) ''progress'' (stage_message stage ''progress'')
                 (json_object [(''current'', json_nat progress), (''total'', json_nat (jb_ticks j))]) log,
               jb_pc := after_tick (jb_ticks j) stage progress\<rparr>
         | CommitStage stage \<Rightarrow>
             j\<lparr>jb_database := (if ok then stage_finished i (of_nat stage) ''ok'' ''synthetic'' (last_seq log) now db
                              else db),
               jb_pc := AnnounceDone stage\<rparr>
         | AnnounceDone stage \<Rightarrow>
             j\<lparr>jb_log := push i (of_nat stage) ''done'' (stage_message stage ''done'') (json_object []) log,
               jb_pc := after_stage stage\<rparr>
         | RecordEnd \<Rightarrow>
             j\<lparr>jb_database := (if ok then job_finished i ''completed'' (last_seq log) now db else db),
               jb_pc := AnnounceEnd\<rparr>
         | AnnounceEnd \<Rightarrow> j\<lparr>jb_log := complete i log, jb_pc := Ended\<rparr>
         | Ended \<Rightarrow> j)"

inductive job_run :: "job \<Rightarrow> job \<Rightarrow> bool" for start :: job where
  job_run_start: "job_run start start"
| job_run_step: "job_run start j \<Longrightarrow> job_run start (job_step ok now j)"

end
