(* ===== verification/Job_Props.thy ===== *)
theory Job_Props
  imports Job
begin

text \<open>
  What the job of the broker spike promises: its log grows along one script, each event
  numbered by its place; it ends after a known number of actions, whatever the database does;
  and the resume point in the database never runs ahead of the log.
\<close>

section \<open>The script\<close>

text \<open>The events without their numbers: a kind and a payload.\<close>

type_synonym body = "string \<times> json"

definition stage_body :: "string \<Rightarrow> nat \<Rightarrow> string \<Rightarrow> json \<Rightarrow> body" where
  "stage_body i stage state args =
     (''StageEvent'', json_object
       [(''job_id'', JsonString i), (''stage'', json_nat (of_nat stage)), (''state'', JsonString state),
        (''message_key'', JsonString (stage_message stage state)), (''args'', args)])"

definition progress_body :: "string \<Rightarrow> 32 word \<Rightarrow> nat \<Rightarrow> nat \<Rightarrow> body" where
  "progress_body i ticks stage progress =
     stage_body i stage ''progress''
       (json_object [(''current'', json_nat (of_nat progress)), (''total'', json_nat ticks)])"

definition end_body :: "string \<Rightarrow> body" where
  "end_body i =
     (''JobComplete'', json_object
       [(''job_id'', JsonString i), (''status'', JsonString ''completed''), (''residual_count'', json_nat 0)])"

definition reports :: "string \<Rightarrow> 32 word \<Rightarrow> nat \<Rightarrow> nat \<Rightarrow> body list" where
  "reports i ticks stage first =
     map (progress_body i ticks stage) [first..<Suc (unat ticks)]
     @ [stage_body i stage ''done'' (json_object [])]"

definition stage_bodies :: "string \<Rightarrow> 32 word \<Rightarrow> nat \<Rightarrow> body list" where
  "stage_bodies i ticks stage =
     stage_body i stage ''started'' (json_object []) # reports i ticks stage 1"

definition bodies_from :: "string \<Rightarrow> 32 word \<Rightarrow> nat \<Rightarrow> body list" where
  "bodies_from i ticks stage =
     concat (map (stage_bodies i ticks) [stage..<length stage_keys]) @ [end_body i]"

fun number :: "nat \<Rightarrow> body list \<Rightarrow> envelope list" where
  "number n [] = []"
| "number n (b # bs) = event (of_nat n + 1) (fst b) (snd b) # number (Suc n) bs"

definition script :: "string \<Rightarrow> 32 word \<Rightarrow> envelope list" where
  "script i ticks = number 0 (bodies_from i ticks 0)"

lemma number_append: "number n (as @ bs) = number n as @ number (n + length as) bs"
  by (induction as arbitrary: n) auto

lemma length_number [simp]: "length (number n bs) = length bs"
  by (induction bs arbitrary: n) auto

lemma take_number: "take k (number n bs) = number n (take k bs)"
  by (induction n bs arbitrary: k rule: number.induct) (auto simp: take_Cons split: nat.splits)

lemma nth_number: "k < length bs \<Longrightarrow> number n bs ! k = event (of_nat (n + k) + 1) (fst (bs ! k)) (snd (bs ! k))"
  by (induction n bs arbitrary: k rule: number.induct) (auto simp: nth_Cons split: nat.splits)

lemma length_stage_keys [simp]: "length stage_keys = 7"
  by (simp add: stage_keys_def)

lemma length_stage_bodies [simp]: "length (stage_bodies i ticks stage) = unat ticks + 2"
  by (simp add: stage_bodies_def reports_def)

lemma length_bodies_from: "length (bodies_from i ticks stage) = (7 - stage) * (unat ticks + 2) + 1"
  by (simp add: bodies_from_def length_concat comp_def sum_list_triv)

section \<open>The log follows the script\<close>

text \<open>What the thread has still to say at each place.\<close>

fun to_say :: "string \<Rightarrow> 32 word \<Rightarrow> job_pc \<Rightarrow> body list" where
  "to_say i ticks (RecordStart s) = bodies_from i ticks s"
| "to_say i ticks (AnnounceStart s) = bodies_from i ticks s"
| "to_say i ticks (Progress s p) = reports i ticks s (unat p) @ bodies_from i ticks (Suc s)"
| "to_say i ticks (CommitStage s) = stage_body i s ''done'' (json_object []) # bodies_from i ticks (Suc s)"
| "to_say i ticks (AnnounceDone s) = stage_body i s ''done'' (json_object []) # bodies_from i ticks (Suc s)"
| "to_say i ticks RecordEnd = [end_body i]"
| "to_say i ticks AnnounceEnd = [end_body i]"
| "to_say i ticks Ended = []"

fun pc_ok :: "32 word \<Rightarrow> job_pc \<Rightarrow> bool" where
  "pc_ok ticks (RecordStart s) \<longleftrightarrow> s < 7"
| "pc_ok ticks (AnnounceStart s) \<longleftrightarrow> s < 7"
| "pc_ok ticks (Progress s p) \<longleftrightarrow> s < 7 \<and> 0 < p \<and> p \<le> ticks"
| "pc_ok ticks (CommitStage s) \<longleftrightarrow> s < 7"
| "pc_ok ticks (AnnounceDone s) \<longleftrightarrow> s < 7"
| "pc_ok ticks _ \<longleftrightarrow> True"

lemma bodies_from_step:
  "s < 7 \<Longrightarrow> bodies_from i ticks s =
     stage_body i s ''started'' (json_object []) # reports i ticks s 1 @ bodies_from i ticks (Suc s)"
  by (simp add: bodies_from_def stage_bodies_def upt_conv_Cons)

lemma to_say_after_stage:
  "s < 7 \<Longrightarrow> to_say i ticks (after_stage s) = bodies_from i ticks (Suc s) \<and> pc_ok ticks (after_stage s)"
  by (auto simp: after_stage_def bodies_from_def)

lemma unat_next:
  assumes "p < (ticks :: 32 word)"
  shows "unat (p + 1) = Suc (unat p)"
  using assms unsigned_less [of ticks, where 'a = nat] by (simp add: unat_word_ariths word_less_nat_alt)

lemma to_say_after_tick:
  assumes "s < 7" "p \<le> ticks"
  shows "to_say i ticks (after_tick ticks s p) = reports i ticks s (Suc (unat p)) @ bodies_from i ticks (Suc s)"
    and "pc_ok ticks (after_tick ticks s p)"
proof -
  consider "p < ticks" | "p = ticks" using assms(2) by fastforce
  then show "to_say i ticks (after_tick ticks s p) = reports i ticks s (Suc (unat p)) @ bodies_from i ticks (Suc s)"
    by cases (simp_all add: after_tick_def unat_next, simp add: reports_def)
  show "pc_ok ticks (after_tick ticks s p)"
    using assms unat_next [of p ticks]
    by (auto simp: after_tick_def word_less_nat_alt word_le_nat_alt)
qed

lemma reports_Cons:
  "p \<le> ticks \<Longrightarrow> reports i ticks s (unat p) =
     progress_body i ticks s (unat p) # reports i ticks s (Suc (unat p))"
  by (auto simp: reports_def upt_conv_Cons word_le_nat_alt not_less_eq_eq le_antisym)

text \<open>
  The invariant: the log is the numbered part of the script before what is still to say, and
  the job has finished exactly when nothing is.
\<close>

definition follows_script :: "job \<Rightarrow> bool" where
  "follows_script j \<longleftrightarrow>
     pc_ok (jb_ticks j) (jb_pc j)
     \<and> (\<exists>said. el_events (jb_log j) = number 0 said
          \<and> said @ to_say (jb_id j) (jb_ticks j) (jb_pc j) = bodies_from (jb_id j) (jb_ticks j) 0)
     \<and> (el_finished (jb_log j) \<longleftrightarrow> jb_pc j = Ended)"

lemma start_follows: "follows_script (start_job i ticks db)"
  by (simp add: follows_script_def start_job_def empty_log_def)

text \<open>An action that says the next event keeps the invariant.\<close>

lemma say_next:
  assumes "follows_script j"
    and "to_say (jb_id j) (jb_ticks j) (jb_pc j) = b # to_say (jb_id j) (jb_ticks j) pc"
    and "pc_ok (jb_ticks j) pc" and "el_finished log \<longleftrightarrow> pc = Ended"
    and "el_events log = el_events (jb_log j) @ [event (next_seq (jb_log j)) (fst b) (snd b)]"
  shows "follows_script (j\<lparr>jb_log := log, jb_pc := pc\<rparr>)"
proof -
  from assms(1) obtain said where said: "el_events (jb_log j) = number 0 said"
    and rest: "said @ to_say (jb_id j) (jb_ticks j) (jb_pc j) = bodies_from (jb_id j) (jb_ticks j) 0"
    by (auto simp: follows_script_def)
  have "el_events log = number 0 (said @ [b])"
    unfolding assms(5) using said by (simp add: number_append next_seq_def)
  with rest assms(2-4) show ?thesis by (auto simp: follows_script_def)
qed

lemma job_step_follows:
  assumes "follows_script j"
  shows "follows_script (job_step ok now j)"
proof -
  let ?i = "jb_id j" and ?t = "jb_ticks j"
  have pc: "pc_ok ?t (jb_pc j)" and fin: "el_finished (jb_log j) \<longleftrightarrow> jb_pc j = Ended"
    using assms by (auto simp: follows_script_def)
  show ?thesis
  proof (cases "jb_pc j")
    case (AnnounceStart s)
    then have "s < 7" using pc by simp
    with AnnounceStart fin show ?thesis
      using to_say_after_tick(1) [of s 0 ?t ?i] to_say_after_tick(2) [of s 0 ?t]
      by (simp add: job_step_def Let_def,
        intro say_next [OF assms, where b = "stage_body ?i s ''started'' (json_object [])"])
        (auto simp: bodies_from_step push_def stage_body_def after_tick_def split: if_splits)
  next
    case (Progress s p)
    then have "s < 7" "p \<le> ?t" using pc by simp_all
    with Progress fin show ?thesis
      using to_say_after_tick(1) [of s p ?t ?i] to_say_after_tick(2) [of s p ?t]
      by (simp add: job_step_def Let_def,
        intro say_next [OF assms, where b = "progress_body ?i ?t s (unat p)"])
        (auto simp: reports_Cons push_def stage_body_def progress_body_def after_tick_def split: if_splits)
  next
    case (AnnounceDone s)
    then have "s < 7" using pc by simp
    with AnnounceDone fin show ?thesis
      using to_say_after_stage [of s ?i ?t]
      by (simp add: job_step_def Let_def,
        intro say_next [OF assms, where b = "stage_body ?i s ''done'' (json_object [])"])
        (auto simp: push_def stage_body_def after_stage_def split: if_splits)
  next
    case AnnounceEnd
    with fin show ?thesis
      by (simp add: job_step_def Let_def, intro say_next [OF assms, where b = "end_body ?i"])
        (auto simp: complete_def end_body_def)
  qed (use assms in \<open>auto simp: follows_script_def job_step_def Let_def bodies_from_def\<close>)
qed

lemma job_run_follows: "job_run start j \<Longrightarrow> follows_script start \<Longrightarrow> follows_script j"
  by (induction rule: job_run.induct) (auto intro: job_step_follows)

lemma job_step_same [simp]:
  "jb_id (job_step ok now j) = jb_id j" "jb_ticks (job_step ok now j) = jb_ticks j"
  by (auto simp: job_step_def Let_def split: job_pc.splits)

lemma job_run_same: "job_run start j \<Longrightarrow> jb_id j = jb_id start \<and> jb_ticks j = jb_ticks start"
  by (induction rule: job_run.induct) auto

text \<open>What the invariant says of the log alone.\<close>

lemma follows_log:
  assumes "follows_script j"
  shows "el_events (jb_log j) = take (length (el_events (jb_log j))) (script (jb_id j) (jb_ticks j))"
    and "el_finished (jb_log j) \<longleftrightarrow> el_events (jb_log j) = script (jb_id j) (jb_ticks j)"
proof -
  from assms obtain said where said: "el_events (jb_log j) = number 0 said"
    and rest: "said @ to_say (jb_id j) (jb_ticks j) (jb_pc j) = bodies_from (jb_id j) (jb_ticks j) 0"
    and fin: "el_finished (jb_log j) \<longleftrightarrow> jb_pc j = Ended"
    by (auto simp: follows_script_def)
  show "el_events (jb_log j) = take (length (el_events (jb_log j))) (script (jb_id j) (jb_ticks j))"
    by (simp add: said script_def take_number flip: rest)
  have "jb_pc j = Ended \<longleftrightarrow> to_say (jb_id j) (jb_ticks j) (jb_pc j) = []"
    by (cases "jb_pc j") (simp_all add: reports_def bodies_from_def)
  moreover have "number 0 said = number 0 (said @ rs) \<longleftrightarrow> rs = []" for rs
    by (metis append_Nil2 append_eq_conv_conj length_number length_append add_cancel_left_right length_0_conv)
  ultimately show "el_finished (jb_log j) \<longleftrightarrow> el_events (jb_log j) = script (jb_id j) (jb_ticks j)"
    by (simp add: said script_def fin flip: rest)
qed

lemma length_script: "length (script i ticks) = 7 * (unat ticks + 2) + 1"
  by (simp add: script_def length_bodies_from)

lemma script_numbered:
  "k < length (script i ticks) \<Longrightarrow> en_seq (script i ticks ! k) = Some (of_nat k + 1)"
  by (simp add: script_def nth_number event_def)

text \<open>
  At every moment the log is the beginning of one script, event by event and number by
  number: seven stages in their order, each started, reported tick by tick and done, then the
  end of the job.  It is marked finished exactly when it is the whole script, and no failing
  statement of the database changes any of this.
\<close>

theorem job_log_follows_script:
  assumes "job_run (start_job i ticks db) j"
  shows "el_events (jb_log j) = take (length (el_events (jb_log j))) (script i ticks)
    \<and> (el_finished (jb_log j) \<longleftrightarrow> el_events (jb_log j) = script i ticks)
    \<and> (\<forall>k < length (el_events (jb_log j)). en_seq (el_events (jb_log j) ! k) = Some (of_nat k + 1))"
proof -
  have j: "follows_script j" "jb_id j = i" "jb_ticks j = ticks"
    using job_run_follows [OF assms start_follows] job_run_same [OF assms]
    by (simp_all add: start_job_def)
  note log = follows_log [OF j(1), unfolded j(2,3)]
  have "length (el_events (jb_log j)) \<le> length (script i ticks)"
    using arg_cong [OF log(1), of length] by simp
  then have "en_seq (el_events (jb_log j) ! k) = Some (of_nat k + 1)" if "k < length (el_events (jb_log j))" for k
    using that log(1) script_numbered [of k i ticks] by (metis nth_take order_less_le_trans)
  with log show ?thesis by blast
qed

section \<open>The job ends\<close>

text \<open>The actions left at each place.\<close>

fun steps_left :: "32 word \<Rightarrow> job_pc \<Rightarrow> nat" where
  "steps_left ticks (RecordStart s) = (7 - s) * (unat ticks + 4) + 2"
| "steps_left ticks (AnnounceStart s) = (7 - s) * (unat ticks + 4) + 1"
| "steps_left ticks (Progress s p) = (7 - s) * (unat ticks + 4) + 1 - unat p"
| "steps_left ticks (CommitStage s) = (6 - s) * (unat ticks + 4) + 4"
| "steps_left ticks (AnnounceDone s) = (6 - s) * (unat ticks + 4) + 3"
| "steps_left ticks RecordEnd = 2"
| "steps_left ticks AnnounceEnd = 1"
| "steps_left ticks Ended = 0"

lemma one_stage_less: "s < 7 \<Longrightarrow> (7 - s) * (n + 4) = (6 - s) * (n + 4) + n + (4 :: nat)"
proof -
  assume "s < 7"
  then have "7 - s = Suc (6 - s)" by simp
  then show ?thesis by simp
qed

lemma steps_after_tick:
  "s < 7 \<Longrightarrow> p \<le> ticks \<Longrightarrow>
     steps_left ticks (after_tick ticks s p) = (7 - s) * (unat ticks + 4) - unat p"
  using one_stage_less [of s "unat ticks"]
  by (auto simp: after_tick_def unat_next not_less word_le_nat_alt)

lemma steps_after_stage: "s < 7 \<Longrightarrow> steps_left ticks (after_stage s) = (6 - s) * (unat ticks + 4) + 2"
  by (auto simp: after_stage_def dest: less_antisym)

lemma job_step_progresses:
  assumes "follows_script j"
  shows "steps_left (jb_ticks j) (jb_pc (job_step ok now j)) = steps_left (jb_ticks j) (jb_pc j) - 1"
proof -
  have pc: "pc_ok (jb_ticks j) (jb_pc j)" using assms by (simp add: follows_script_def)
  then have "unat p \<le> (7 - s) * (unat (jb_ticks j) + 4)" if "jb_pc j = Progress s p" for s p
    using that one_stage_less [of s "unat (jb_ticks j)"] by (simp add: word_le_nat_alt)
  then show ?thesis
    using pc one_stage_less [of _ "unat (jb_ticks j)"]
    by (cases "jb_pc j") (auto simp: job_step_def Let_def steps_after_tick steps_after_stage)
qed

definition job_actions :: "(bool \<times> string) list \<Rightarrow> job \<Rightarrow> job" where
  "job_actions inputs = fold (\<lambda>(ok, now). job_step ok now) inputs"

lemma job_actions_keep:
  "follows_script j \<Longrightarrow> follows_script (job_actions inputs j)
     \<and> jb_id (job_actions inputs j) = jb_id j \<and> jb_ticks (job_actions inputs j) = jb_ticks j
     \<and> steps_left (jb_ticks j) (jb_pc (job_actions inputs j))
         = steps_left (jb_ticks j) (jb_pc j) - length inputs"
proof (induction inputs arbitrary: j)
  case (Cons x inputs)
  obtain ok now where x: "x = (ok, now)" by fastforce
  show ?case
    using Cons.IH [OF job_step_follows [OF Cons.prems, of ok now]] job_step_progresses [OF Cons.prems, of ok now]
    by (simp add: job_actions_def x)
qed (simp add: job_actions_def)

lemma steps_left_0: "pc_ok ticks pc \<Longrightarrow> steps_left ticks pc = 0 \<longleftrightarrow> pc = Ended"
  using one_stage_less [of _ "unat ticks"] by (cases pc) (auto simp: word_le_nat_alt)

lemma enough_actions:
  assumes "follows_script j" and "steps_left (jb_ticks j) (jb_pc j) \<le> length inputs"
  shows "el_finished (jb_log (job_actions inputs j))
    \<and> el_events (jb_log (job_actions inputs j)) = script (jb_id j) (jb_ticks j)"
proof -
  let ?k = "job_actions inputs j"
  note k = job_actions_keep [OF assms(1), of inputs]
  then have "jb_pc ?k = Ended"
    using assms(2) steps_left_0 [of "jb_ticks j" "jb_pc ?k"] by (auto simp: follows_script_def)
  then have "el_finished (jb_log ?k)" using k by (simp add: follows_script_def)
  with k follows_log(2) [of ?k] show ?thesis by simp
qed

text \<open>
  The job ends.  After as many actions as its seven stages and their ticks take, and
  whatever its statements and clocks do on the way, it has finished and its log is the whole
  script; it waits for no client.
\<close>

theorem job_finishes:
  assumes "7 * (unat ticks + 4) + 2 \<le> length inputs"
  shows "el_finished (jb_log (job_actions inputs (start_job i ticks db)))
    \<and> el_events (jb_log (job_actions inputs (start_job i ticks db))) = script i ticks"
  using enough_actions [OF start_follows, of i ticks db inputs] assms by (simp add: start_job_def)

section \<open>The resume point\<close>

definition resume_behind :: "job \<Rightarrow> bool" where
  "resume_behind j \<longleftrightarrow>
     (\<forall>row. db_jobs (jb_database j) (jb_id j) = Some row \<longrightarrow>
        jr_last_seq row \<le> int (length (el_events (jb_log j)))
        \<and> (jr_status row = ''completed'' \<longrightarrow>
             jb_pc j \<in> {AnnounceEnd, Ended}
             \<and> jr_last_seq row = int (length (script (jb_id j) (jb_ticks j))) - 1))"

lemma log_short:
  assumes "follows_script j"
  shows "as_i64 (last_seq (jb_log j)) = int (length (el_events (jb_log j)))"
proof -
  have "length (el_events (jb_log j)) \<le> 7 * (unat (jb_ticks j) + 2) + 1"
    using arg_cong [OF follows_log(1) [OF assms], of length] by (simp add: length_script)
  moreover have "unat (jb_ticks j) < 2 ^ 32" using unsigned_less [of "jb_ticks j", where 'a = nat] by simp
  ultimately have "length (el_events (jb_log j)) < 2 ^ 63" by simp
  then show ?thesis
    by (simp add: as_i64_def last_seq_def unsigned_of_nat take_bit_nat_eq_self uint_nat)
qed

lemma length_push [simp]: "length (el_events (push i s state k args log)) = Suc (length (el_events log))"
  by (simp add: push_def)

lemma stage_started_jobs [simp]: "db_jobs (stage_started i s now db) = db_jobs db"
  by (simp add: stage_started_def)

lemma job_step_resume:
  assumes "follows_script j" and "resume_behind j"
  shows "resume_behind (job_step ok now j)"
proof -
  have short: "as_i64 (last_seq (jb_log j)) = int (length (el_events (jb_log j)))"
    by (rule log_short [OF assms(1)])
  have last: "int (length (el_events (jb_log j))) = int (length (script (jb_id j) (jb_ticks j))) - 1"
    if "jb_pc j = RecordEnd"
  proof -
    from assms(1) that obtain said where "el_events (jb_log j) = number 0 said"
      and "said @ [end_body (jb_id j)] = bodies_from (jb_id j) (jb_ticks j) 0"
      by (auto simp: follows_script_def)
    then show ?thesis by (simp add: script_def flip: \<open>said @ _ = _\<close>)
  qed
  show ?thesis
    using assms(2) short last
    by (cases "jb_pc j")
      (auto simp: resume_behind_def job_step_def Let_def stage_finished_def job_finished_def update_row_def
        complete_def after_tick_def after_stage_def split: option.splits)
qed

lemma job_run_resume: "job_run start j \<Longrightarrow> follows_script start \<Longrightarrow> resume_behind start \<Longrightarrow> resume_behind j"
  by (induction rule: job_run.induct) (auto intro: job_step_resume job_run_follows)

text \<open>
  The resume point never runs ahead: of a job recorded for the first time the database
  names a number the log has reached, and once it calls the job completed, the number of the
  last event but the closing one.
\<close>

theorem resume_point_behind:
  assumes "db_jobs db i = None"
    and "job_run (start_job i ticks (insert_job_row i now app_version catalog_version db)) j"
    and "db_jobs (jb_database j) i = Some row"
  shows "jr_last_seq row \<le> int (length (el_events (jb_log j)))
    \<and> (jr_status row = ''completed'' \<longrightarrow> jr_last_seq row = int (length (script i ticks)) - 1)"
proof -
  let ?start = "start_job i ticks (insert_job_row i now app_version catalog_version db)"
  have "resume_behind ?start"
    using assms(1) by (simp add: resume_behind_def start_job_def insert_job_row_def)
  then have "resume_behind j" by (rule job_run_resume [OF assms(2) start_follows])
  with assms(3) job_run_same [OF assms(2)] show ?thesis
    by (auto simp: resume_behind_def start_job_def)
qed

text \<open>
  A job recorded again under the same name, which a broker started again with the session of
  one that died does, keeps the resume point of the first: the log starts empty, and the number
  in the database is ahead of it until the first commit.
\<close>

lemma reopened_resume_point_ahead:
  assumes "db_jobs db i = Some row" and "0 < jr_last_seq row"
  shows "\<exists>row. db_jobs (jb_database (start_job i ticks (insert_job_row i now app_version catalog_version db))) i = Some row
    \<and> jr_status row = ''running''
    \<and> int (length (el_events (jb_log (start_job i ticks (insert_job_row i now app_version catalog_version db)))))
        < jr_last_seq row"
  using assms by (simp add: start_job_def insert_job_row_def empty_log_def)

section \<open>Witnesses\<close>

definition sample_job :: job where
  "sample_job = start_job ''s3'' 1 (insert_job_row ''s3'' ''t'' ''0'' ''0'' empty_database)"

lemma sample_running: "job_run sample_job (job_actions (replicate n (True, ''t'')) sample_job)"
proof -
  have "job_run sample_job j \<Longrightarrow> job_run sample_job (job_actions (replicate n (True, ''t'')) j)" for j
    by (induction n arbitrary: j) (auto simp: job_actions_def intro: job_run_step)
  then show ?thesis by (simp add: job_run_start)
qed

theorem job_log_follows_script_witness:
  "el_events (jb_log (job_actions (replicate 3 (True, ''t'')) sample_job)) \<noteq> []
   \<and> en_seq (el_events (jb_log (job_actions (replicate 3 (True, ''t'')) sample_job)) ! 0) = Some 1"
proof -
  have "length (el_events (jb_log (job_actions (replicate 3 (True, ''t'')) sample_job))) = 2"
    by code_simp
  with job_log_follows_script [OF sample_running [of 3, unfolded sample_job_def], folded sample_job_def]
  show ?thesis by force
qed

theorem job_finishes_witness:
  "el_finished (jb_log (job_actions (replicate 37 (False, [])) (start_job ''s3'' 1 empty_database)))"
  using job_finishes [of 1 "replicate 37 (False, [])"] by simp

theorem resume_point_behind_witness:
  "\<exists>row. db_jobs (jb_database (job_actions (replicate 4 (True, ''t'')) sample_job)) ''s3'' = Some row
     \<and> jr_last_seq row = 2
     \<and> jr_last_seq row \<le> int (length (el_events (jb_log (job_actions (replicate 4 (True, ''t'')) sample_job))))"
proof -
  have "map_option jr_last_seq (db_jobs (jb_database (job_actions (replicate 4 (True, ''t'')) sample_job)) ''s3'') = Some 2"
    by code_simp
  then obtain row where "db_jobs (jb_database (job_actions (replicate 4 (True, ''t'')) sample_job)) ''s3'' = Some row"
    "jr_last_seq row = 2" by auto
  moreover have "db_jobs empty_database ''s3'' = None" by (simp add: empty_database_def)
  ultimately show ?thesis
    using resume_point_behind [OF _ sample_running [of 4, unfolded sample_job_def], folded sample_job_def]
    by blast
qed

end
