(* ===== verification/Std_Path.thy ===== *)
theory Std_Path
  imports Rust_Str
begin

text \<open>
  \<open>std::path::Path\<close> on Windows, as far as the code uses it: the prefix of a path, its last
  component, and \<open>parent\<close>.  Components are read from the back; empty ones and \<open>.\<close> are passed
  over, except that a verbatim prefix keeps \<open>.\<close> and takes the backslash only as a separator.
\<close>

definition is_separator :: "char \<Rightarrow> bool" where
  "is_separator c \<longleftrightarrow> c = backslash \<or> c = CHR ''/''"

definition until :: "(char \<Rightarrow> bool) \<Rightarrow> string \<Rightarrow> string" where
  "until stop s = takeWhile (\<lambda>c. \<not> stop c) s"

text \<open>The length of a server and share after \<open>at\<close> bytes, with the separator between them.\<close>

definition server_share :: "(char \<Rightarrow> bool) \<Rightarrow> string \<Rightarrow> nat \<times> nat" where
  "server_share stop s =
     (let server = until stop s; share = until stop (drop (length server + 1) s)
      in (length server, length share))"

datatype path_prefix =
  NoPrefix | Disk | Unc nat | DeviceNs nat | Verbatim nat | VerbatimUnc nat | VerbatimDisk

definition is_verbatim :: "path_prefix \<Rightarrow> bool" where
  "is_verbatim p \<longleftrightarrow> (case p of Verbatim _ \<Rightarrow> True | VerbatimUnc _ \<Rightarrow> True | VerbatimDisk \<Rightarrow> True | _ \<Rightarrow> False)"

text \<open>The first bytes of a prefix may be written with slashes, but not those of a verbatim one.\<close>

definition unified :: "string \<Rightarrow> string" where
  "unified s = map (\<lambda>c. if c = CHR ''/'' then backslash else c) s"

definition share_length :: "nat \<times> nat \<Rightarrow> nat" where
  "share_length ss = (case ss of (server, share) \<Rightarrow> server + (if share = 0 then 0 else share + 1))"

definition parse_prefix :: "string \<Rightarrow> path_prefix" where
  "parse_prefix path =
     (let head = unified (take 8 path)
      in if starts_with head (win ''//'') then
           if starts_with head (win ''//?/'') \<and> CHR ''/'' \<notin> set (take 8 path) then
             if starts_with head (win ''//?/UNC/'') then
               VerbatimUnc (share_length (server_share (\<lambda>c. c = backslash) (drop 8 path)))
             else
               let body = drop 4 path
               in if 2 \<le> length body \<and> is_alphabetic_byte (body ! 0) \<and> body ! 1 = CHR '':''
                     \<and> (length body = 2 \<or> is_separator (body ! 2))
                  then VerbatimDisk
                  else Verbatim (length (until (\<lambda>c. c = backslash) body))
           else if starts_with head (win ''//./'') then
             DeviceNs (length (until is_separator (drop 4 path)))
           else
             let ss = server_share is_separator (drop 2 path)
             in if 0 < fst ss \<and> 0 < snd ss then Unc (share_length ss) else NoPrefix
         else if 2 \<le> length path \<and> is_alphabetic_byte (path ! 0) \<and> path ! 1 = CHR '':'' then Disk
         else NoPrefix)"

fun prefix_length :: "path_prefix \<Rightarrow> nat" where
  "prefix_length NoPrefix = 0"
| "prefix_length Disk = 2"
| "prefix_length (Unc n) = 2 + n"
| "prefix_length (DeviceNs n) = 4 + n"
| "prefix_length (Verbatim n) = 4 + n"
| "prefix_length (VerbatimUnc n) = 8 + n"
| "prefix_length VerbatimDisk = 6"

definition physical_root :: "string \<Rightarrow> bool" where
  "physical_root path \<longleftrightarrow>
     (case drop (prefix_length (parse_prefix path)) path of [] \<Rightarrow> False | c # _ \<Rightarrow> is_separator c)"

definition has_root :: "string \<Rightarrow> bool" where
  "has_root path \<longleftrightarrow> physical_root path \<or> parse_prefix path \<notin> {NoPrefix, Disk}"

definition leading_dot :: "string \<Rightarrow> bool" where
  "leading_dot path \<longleftrightarrow>
     \<not> has_root path
     \<and> (case drop (prefix_length (parse_prefix path)) path of
          [c] \<Rightarrow> c = CHR ''.''
        | c # d # _ \<Rightarrow> c = CHR ''.'' \<and> is_separator d
        | [] \<Rightarrow> False)"

text \<open>Where the components after the root begin.\<close>

definition body_start :: "string \<Rightarrow> nat" where
  "body_start path =
     prefix_length (parse_prefix path) + (if physical_root path then 1 else 0)
     + (if leading_dot path then 1 else 0)"

section \<open>Reading from the back\<close>

definition separates :: "bool \<Rightarrow> char \<Rightarrow> bool" where
  "separates verbatim c \<longleftrightarrow> (if verbatim then c = backslash else is_separator c)"

definition last_component :: "bool \<Rightarrow> string \<Rightarrow> string" where
  "last_component verbatim body = rev (until (separates verbatim) (rev body))"

definition without_last :: "bool \<Rightarrow> string \<Rightarrow> string" where
  "without_last verbatim body = take (length body - length (last_component verbatim body) - 1) body"

text \<open>A component that counts.\<close>

definition counts :: "bool \<Rightarrow> string \<Rightarrow> bool" where
  "counts verbatim component \<longleftrightarrow> component \<noteq> [] \<and> (component = ''.'' \<longrightarrow> verbatim)"

lemma without_last_shorter: "body \<noteq> [] \<Longrightarrow> length (without_last verbatim body) < length body"
  by (cases body) (auto simp: without_last_def)

function trim_right :: "bool \<Rightarrow> string \<Rightarrow> string" where
  "trim_right verbatim body =
     (if body = [] \<or> counts verbatim (last_component verbatim body) then body
      else trim_right verbatim (without_last verbatim body))"
  by pat_completeness auto
termination
  by (relation "measure (\<lambda>(_, body). length body)") (auto simp: without_last_shorter)

function pop :: "bool \<Rightarrow> string \<Rightarrow> string option" where
  "pop verbatim body =
     (if body = [] then None
      else if counts verbatim (last_component verbatim body) then Some (without_last verbatim body)
      else pop verbatim (without_last verbatim body))"
  by pat_completeness auto
termination
  by (relation "measure (\<lambda>(_, body). length body)") (auto simp: without_last_shorter)

declare trim_right.simps [simp del] pop.simps [simp del]

text \<open>\<open>Path::parent\<close>.\<close>

definition path_parent :: "string \<Rightarrow> string option" where
  "path_parent path =
     (let verbatim = is_verbatim (parse_prefix path); n = body_start path
      in case pop verbatim (drop n path) of
           Some body \<Rightarrow> Some (take n path @ trim_right verbatim body)
         | None \<Rightarrow>
             if leading_dot path then Some (take (n - 1) path) else None)"

text \<open>\<open>Path::file_name\<close>: the last component, unless it is one of the two dotted ones.\<close>

definition path_file_name :: "string \<Rightarrow> string option" where
  "path_file_name path =
     (let verbatim = is_verbatim (parse_prefix path);
          body = trim_right verbatim (drop (body_start path) path);
          name = last_component verbatim body
      in if body = [] \<or> name = ''.'' \<or> name = ''..'' then None else Some name)"

text \<open>\<open>Path::extension\<close>: after the last dot of the name, unless that is its first byte.\<close>

definition path_extension :: "string \<Rightarrow> string option" where
  "path_extension path =
     (case path_file_name path of
        None \<Rightarrow> None
      | Some name \<Rightarrow>
          (case rsplit_once name ''.'' of
             Some (stem, extension) \<Rightarrow> if stem = [] then None else Some extension
           | None \<Rightarrow> None))"

text \<open>A parent is a shorter path.\<close>

lemma trim_right_length: "length (trim_right verbatim body) \<le> length body"
proof (induction verbatim body rule: trim_right.induct)
  case (1 verbatim body)
  then show ?case
    using without_last_shorter [of body verbatim] by (subst trim_right.simps) (auto simp: less_imp_le_nat)
qed

lemma pop_length: "pop verbatim body = Some b \<Longrightarrow> length b < length body"
proof (induction verbatim body rule: pop.induct)
  case (1 verbatim body)
  from 1(2) show ?case
    using without_last_shorter [of body verbatim] 1(1)
    by (subst (asm) pop.simps) (auto split: if_splits dest: order.strict_trans)
qed

lemma path_parent_shorter: "path_parent path = Some p \<Longrightarrow> length p < length path"
proof -
  assume parent: "path_parent path = Some p"
  let ?n = "body_start path" and ?v = "is_verbatim (parse_prefix path)"
  show ?thesis
  proof (cases "pop ?v (drop ?n path)")
    case (Some b)
    with parent have "p = take ?n path @ trim_right ?v b" by (simp add: path_parent_def Let_def)
    with pop_length [OF Some] trim_right_length [of ?v b] show ?thesis by auto
  next
    case None
    with parent have dot: "leading_dot path" and p: "p = take (?n - 1) path"
      by (auto simp: path_parent_def Let_def split: if_splits)
    from dot have "\<not> physical_root path" "prefix_length (parse_prefix path) < length path"
      by (auto simp: leading_dot_def has_root_def split: list.splits) (metis drop_all list.distinct(1) not_le)+
    with dot p show ?thesis by (simp add: body_start_def)
  qed
qed

section \<open>Joining\<close>

text \<open>
  \<open>PathBuf::push\<close> of a plain name, one component without a prefix or a root.  A drive alone
  takes the name without a separator; a verbatim path is put together anew from its components.
\<close>

definition verbatim_components :: "string \<Rightarrow> string list" where
  "verbatim_components path =
     filter (\<lambda>c. c \<noteq> []) (split_on (\<lambda>c. c = backslash) (drop (body_start path) path))"

definition push_name :: "string \<Rightarrow> string \<Rightarrow> string" where
  "push_name path name =
     (let prefix = parse_prefix path
      in if is_verbatim prefix then
           take (prefix_length prefix) path @ backslash # join_with [backslash] (verbatim_components path @ [name])
         else if path = [] \<or> is_separator (last path) \<or> prefix = Disk \<and> length path = 2 then path @ name
         else path @ backslash # name)"

text \<open>\<open>Path::with_file_name\<close>.\<close>

definition with_file_name :: "string \<Rightarrow> string \<Rightarrow> string" where
  "with_file_name path name =
     push_name (case path_file_name path of
                  None \<Rightarrow> path
                | Some _ \<Rightarrow> (case path_parent path of Some parent \<Rightarrow> parent | None \<Rightarrow> path)) name"

text \<open>A file in a folder of a drive.\<close>

lemma last_component_file:
  assumes "list_all (\<lambda>c. \<not> is_separator c) leaf"
  shows "last_component False (folder @ backslash # leaf) = leaf"
proof -
  have "\<not> separates False c" if "c \<in> set (rev leaf)" for c
    using assms that by (simp add: separates_def list_all_iff)
  moreover have "separates False backslash" by (simp add: separates_def is_separator_def)
  ultimately have "until (separates False) (rev leaf @ backslash # rev folder) = rev leaf"
    unfolding until_def by (subst takeWhile_append2) simp_all
  then show ?thesis by (simp add: last_component_def)
qed

lemma parent_of_drive_file:
  assumes "is_alphabetic_byte d" and "list_all (\<lambda>c. \<not> is_separator c) name" "name \<notin> {[], ''.''}"
    and "list_all (\<lambda>c. \<not> is_separator c) folder" "folder \<notin> {[], ''.''}"
  shows "path_parent ((d # '':'' @ [backslash] @ higher @ [backslash] @ folder) @ backslash # name)
    = Some (d # '':'' @ [backslash] @ higher @ [backslash] @ folder)"
proof -
  let ?path = "(d # '':'' @ [backslash] @ higher @ [backslash] @ folder) @ backslash # name"
  have d: "d \<noteq> backslash" "d \<noteq> CHR ''/''" using assms(1) by (auto simp: is_alphabetic_byte_def)
  then have prefix: "parse_prefix ?path = Disk"
    using assms(1) by (simp add: parse_prefix_def unified_def win_def Let_def)
  then have "physical_root ?path" "\<not> leading_dot ?path"
    by (simp_all add: physical_root_def leading_dot_def has_root_def is_separator_def)
  then have start: "body_start ?path = 3" "\<not> leading_dot ?path" using prefix by (simp_all add: body_start_def)
  have "last_component False ((higher @ backslash # folder) @ backslash # name) = name"
    by (rule last_component_file [OF assms(2)])
  then have "pop False ((higher @ backslash # folder) @ backslash # name) = Some (higher @ backslash # folder)"
    using assms(3) by (subst pop.simps) (simp add: counts_def without_last_def)
  moreover have "trim_right False (higher @ backslash # folder) = higher @ backslash # folder"
    using assms(5) last_component_file [OF assms(4), of higher] by (subst trim_right.simps) (simp add: counts_def)
  ultimately show ?thesis
    using start prefix by (simp add: path_parent_def is_verbatim_def eval_nat_numeral)
qed

end
