(* ===== verification/Client_Check.thy ===== *)
theory Client_Check
  imports Std_Path "HOL-Library.Word"
begin

text \<open>
  Who may talk to the broker spike: \<open>client_check.rs\<close>, the descriptor check of \<open>pipe.rs\<close>,
  \<open>admit\<close> of \<open>main.rs\<close> and the fact lines of \<open>facts.rs\<close>.  What Windows says of a process
  (its image and when it was created) is an input.
\<close>

section \<open>Facts\<close>

definition one_line :: "string \<Rightarrow> string" where
  "one_line value =
     map (\<lambda>c. if c = CHR 0x0D \<or> c = CHR 0x0A \<or> c = CHR ''|'' then CHR '' '' else c) value"

section \<open>The client's image\<close>

record client_identity =
  ci_pid :: "32 word"
  ci_image_path :: string
  ci_created_ticks :: "64 word"

datatype refusal_reason =
  WrongDirectory string string | WrongFileName string string | WrongSession string string

text \<open>Each carries what was expected and what was found.\<close>

fun refusal_text :: "refusal_reason \<Rightarrow> string" where
  "refusal_text (WrongDirectory expected actual) =
     ''client image is in '' @ actual @ '', expected the broker's own directory '' @ expected"
| "refusal_text (WrongFileName expected actual) =
     ''client image is '' @ actual @ '', expected '' @ expected"
| "refusal_text (WrongSession expected actual) =
     ''Hello carried session '' @ actual @ '', expected '' @ expected"

text \<open>
  A moment is what \<open>duration_since(UNIX_EPOCH)\<close> gives: seconds and nanoseconds, or nothing for
  one before it.  The sum is of 64-bit words.
\<close>

type_synonym moment = "(64 word \<times> 32 word) option"

definition epoch_difference_seconds :: "64 word" where
  "epoch_difference_seconds = 11644473600"

definition observed_ticks :: "64 word \<Rightarrow> 32 word \<Rightarrow> 64 word" where
  "observed_ticks secs nanos = (secs + epoch_difference_seconds) * 10000000 + ucast nanos div 100"

definition predates :: "client_identity \<Rightarrow> moment \<Rightarrow> bool" where
  "predates identity observed_at =
     (case observed_at of
        None \<Rightarrow> False
      | Some (secs, nanos) \<Rightarrow> ci_created_ticks identity \<le> observed_ticks secs nanos)"

definition file_name_of :: "string \<Rightarrow> string" where
  "file_name_of path = last (split_on is_separator path)"

definition equal_ignoring_case :: "string \<Rightarrow> string \<Rightarrow> bool" where
  "equal_ignoring_case left right \<longleftrightarrow>
     length left = length right \<and> list_all (\<lambda>(a, b). lower_byte a = lower_byte b) (zip left right)"

definition verify_image :: "client_identity \<Rightarrow> string \<Rightarrow> string \<Rightarrow> string + refusal_reason option" where
  "verify_image identity broker_image expected_file_name =
     (case path_parent broker_image of
        None \<Rightarrow> Inl (''broker image path has no directory: '' @ broker_image)
      | Some broker_directory \<Rightarrow>
          (case path_parent (ci_image_path identity) of
             None \<Rightarrow> Inl (''client image path has no directory: '' @ ci_image_path identity)
           | Some client_directory \<Rightarrow>
               if \<not> equal_ignoring_case broker_directory client_directory then
                 Inr (Some (WrongDirectory broker_directory client_directory))
               else
                 let client_file_name = file_name_of (ci_image_path identity)
                 in if \<not> equal_ignoring_case client_file_name expected_file_name then
                      Inr (Some (WrongFileName expected_file_name client_file_name))
                    else Inr None))"

definition verify_session :: "string \<Rightarrow> string \<Rightarrow> refusal_reason option" where
  "verify_session claimed expected =
     (if equal_ignoring_case claimed expected then None else Some (WrongSession expected claimed))"

text \<open>\<open>identify\<close> is Windows' answer about the process.\<close>

definition admit_client ::
    "(32 word \<Rightarrow> string + client_identity) \<Rightarrow> 32 word \<Rightarrow> moment \<Rightarrow> string \<Rightarrow> string \<Rightarrow> string + unit" where
  "admit_client identify client_pid asked_at broker_image expected_file_name =
     (case identify client_pid of
        Inl e \<Rightarrow> Inl (''unidentifiable: '' @ e)
      | Inr identity \<Rightarrow>
          if \<not> predates identity asked_at then
            Inl (''process id '' @ decimal (unat client_pid) @ '' was recycled between the two calls'')
          else
            (case verify_image identity broker_image expected_file_name of
               Inr None \<Rightarrow> Inr ()
             | Inr (Some refusal) \<Rightarrow>
                 Inl (refusal_text refusal @ '' (pid '' @ decimal (unat (ci_pid identity)) @ '', image ''
                      @ ci_image_path identity @ '')'')
             | Inl e \<Rightarrow> Inl (''verification failed: '' @ e)))"

section \<open>The descriptor of the pipe\<close>

definition pipe_name :: "string \<Rightarrow> string" where
  "pipe_name session = win ''//./pipe/wardsweep-s3-'' @ session"

definition requested_sddl :: "string \<Rightarrow> string" where
  "requested_sddl user_sid = ''D:P(A;;GA;;;SY)(A;;GA;;;BA)(A;;GRGW;;;'' @ user_sid @ '')''"

definition canonical_sddl :: "string \<Rightarrow> string" where
  "canonical_sddl user_sid = ''D:P(A;;FA;;;SY)(A;;FA;;;BA)(A;;0x12019f;;;'' @ user_sid @ '')''"

record dacl_verdict =
  dv_observed :: string
  dv_expected :: string
  dv_matches_expected :: bool
  dv_protected :: bool
  dv_grants_everyone :: bool
  dv_grants_authenticated_users :: bool
  dv_grants_launching_user :: bool

definition acceptable :: "dacl_verdict \<Rightarrow> bool" where
  "acceptable v \<longleftrightarrow>
     dv_matches_expected v \<and> dv_protected v \<and> \<not> dv_grants_everyone v
     \<and> \<not> dv_grants_authenticated_users v \<and> dv_grants_launching_user v"

definition assess_dacl :: "string \<Rightarrow> string \<Rightarrow> dacl_verdict" where
  "assess_dacl observed user_sid =
     \<lparr>dv_observed = observed, dv_expected = canonical_sddl user_sid,
      dv_matches_expected = eq_ignore_ascii_case observed (canonical_sddl user_sid),
      dv_protected = starts_with observed ''D:P'',
      dv_grants_everyone = contains_sub observed '';;;WD)'',
      dv_grants_authenticated_users = contains_sub observed '';;;AU)'',
      dv_grants_launching_user = contains_sub observed ('';;;'' @ user_sid @ '')'')\<rparr>"

section \<open>Properties\<close>

lemma equal_ignoring_case_eq: "equal_ignoring_case a b \<longleftrightarrow> eq_ignore_ascii_case a b"
proof -
  have "length a = length b \<Longrightarrow>
      list_all (\<lambda>(x, y). lower_byte x = lower_byte y) (zip a b) \<longleftrightarrow> map lower_byte a = map lower_byte b"
    by (induction a b rule: list_induct2) auto
  then show ?thesis
    by (auto simp: equal_ignoring_case_def eq_ignore_ascii_case_def to_ascii_lowercase_def dest: map_eq_imp_length_eq)
qed

text \<open>The check, guard by guard.\<close>

lemma admit_client_iff:
  "admit_client identify pid asked_at broker_image expected = Inr () \<longleftrightarrow>
     (\<exists>identity directory client_directory. identify pid = Inr identity \<and> predates identity asked_at
        \<and> path_parent broker_image = Some directory
        \<and> path_parent (ci_image_path identity) = Some client_directory
        \<and> eq_ignore_ascii_case directory client_directory
        \<and> eq_ignore_ascii_case (file_name_of (ci_image_path identity)) expected)"
  by (auto simp: admit_client_def verify_image_def equal_ignoring_case_eq Let_def
      split: sum.splits option.splits)

text \<open>A fact stays on one line and in one field.\<close>

lemma one_line_fields: "set (one_line value) \<inter> {CHR 0x0D, CHR 0x0A, CHR ''|''} = {}"
  by (auto simp: one_line_def)

text \<open>The descriptor that was asked for does not pass as the one that comes back.\<close>

lemma requested_not_accepted: "\<not> acceptable (assess_dacl (requested_sddl user) user)"
proof -
  have "length (requested_sddl user) \<noteq> length (canonical_sddl user)"
    by (simp add: requested_sddl_def canonical_sddl_def)
  then show ?thesis
    by (auto simp: acceptable_def assess_dacl_def eq_ignore_ascii_case_def to_ascii_lowercase_def
        dest: map_eq_imp_length_eq)
qed

text \<open>The recycled-id check cannot be fooled by the width of the sum while ticks fit in a word.\<close>

lemma observed_ticks_exact:
  assumes "unat secs + 11644473600 < 2 ^ 64 div 10000000" and "unat nanos < 1000000000"
  shows "unat (observed_ticks secs nanos) = (unat secs + 11644473600) * 10000000 + unat nanos div 100"
proof -
  have sum: "unat (secs + epoch_difference_seconds) = unat secs + 11644473600"
    using assms(1) by (simp add: epoch_difference_seconds_def unat_word_ariths)
  then have prod: "unat ((secs + epoch_difference_seconds) * 10000000) = (unat secs + 11644473600) * 10000000"
    using assms(1) by (subst unat_word_ariths(2), unfold sum) simp
  have "unat (ucast nanos div 100 :: 64 word) = unat nanos div 100"
    using assms(2) by (simp add: unat_div unsigned_ucast_eq take_bit_nat_eq_self)
  then show ?thesis
    unfolding observed_ticks_def using prod assms by (simp add: unat_word_ariths)
qed

end
