(* ===== verification/Broker.thy ===== *)
theory Broker
  imports Job_Props Client_Check
begin

text \<open>
  The serving side of the broker spike, \<open>main.rs\<close>: it accepts one client at a time, answers its
  commands and streams the events of the job to it, while the job's thread goes on.  Thread and
  server interleave: a state has both, and an action is of one of them.  What the world decides
  is in the action: a client's identity and frames, whether a write arrives, what the database
  answers, the time.
\<close>

section \<open>Configuration and state\<close>

record config =
  bc_session :: string
  bc_journal :: journal_mode
  bc_ticks_per_stage :: "32 word"
  bc_ignore_client_verification :: bool
  bc_elevated :: bool
  bc_version :: string
  bc_pid :: "32 word"
  bc_database_path :: string

definition synthetic_catalog_version :: string where
  "synthetic_catalog_version = ''0 (spike, no catalog loaded)''"

text \<open>What follows the replies to a command.\<close>

datatype next_step =
  KeepServing "64 word" | StartStream "64 word" | LeaveClient "64 word" | ShutDown

text \<open>
  The server: waiting for a client, reading a command at a cursor, writing replies, asking for
  events, writing a batch of events with the finished flag that came with it, or gone.
\<close>

datatype server =
  Accepting
| Serving "64 word"
| Replying "envelope list" next_step
| Fetching "64 word"
| Sending "envelope list" bool "64 word"
| Stopped

text \<open>
  \<open>bk_stream\<close> is where the current stream began, while there is one, and the events of it that
  were written so far; the code keeps the first and the last number of them.
\<close>

record broker =
  bk_job :: "job option"
  bk_database :: database
  bk_server :: server
  bk_stream :: "(64 word \<times> envelope list) option"

definition start_broker :: "database \<Rightarrow> broker" where
  "start_broker db = \<lparr>bk_job = None, bk_database = db, bk_server = Accepting, bk_stream = None\<rparr>"

section \<open>Commands\<close>

definition ack :: "envelope \<Rightarrow> envelope" where
  "ack command = response (en_id command) ''Ack'' (json_object [])"

definition error_reply :: "string option \<Rightarrow> string \<Rightarrow> string \<Rightarrow> json \<Rightarrow> envelope" where
  "error_reply i code message_key args =
     response i ''Error'' (json_object
       [(''code'', JsonString code), (''message_key'', JsonString message_key), (''args'', args),
        (''recoverable'', JsonBool True)])"

definition bad_frame :: envelope where
  "bad_frame = error_reply None ''E_BAD_FRAME'' ''err.ipc.bad_frame'' (json_object [])"

definition unknown_command :: "envelope \<Rightarrow> envelope" where
  "unknown_command command =
     error_reply (en_id command) ''E_UNKNOWN_COMMAND'' ''err.ipc.unknown_command''
       (json_object [(''type'', JsonString (en_kind command))])"

definition json_u64_of :: "64 word \<Rightarrow> json" where
  "json_u64_of n = JsonNumber (PosInt n)"

definition field_u64 :: "envelope \<Rightarrow> string \<Rightarrow> 64 word option" where
  "field_u64 command k = Option.bind (json_get (en_payload command) k) json_u64"

definition job_last_seq :: "job option \<Rightarrow> 64 word" where
  "job_last_seq job = (case job of None \<Rightarrow> 0 | Some j \<Rightarrow> last_seq (jb_log j))"

definition job_has_finished :: "job option \<Rightarrow> bool" where
  "job_has_finished job = (case job of None \<Rightarrow> False | Some j \<Rightarrow> el_finished (jb_log j))"

definition job_id_json :: "job option \<Rightarrow> json" where
  "job_id_json job = (case job of None \<Rightarrow> JsonNull | Some j \<Rightarrow> JsonString (jb_id j))"

definition hello_ack :: "config \<Rightarrow> envelope \<Rightarrow> job option \<Rightarrow> 64 word \<Rightarrow> envelope" where
  "hello_ack cfg command job cursor =
     response (en_id command) ''HelloAck'' (json_object
       [(''broker_version'', JsonString (bc_version cfg)),
        (''catalog_version'', JsonString synthetic_catalog_version),
        (''elevated'', JsonBool (bc_elevated cfg)),
        (''broker_pid'', json_nat (bc_pid cfg)),
        (''protocol'', json_nat protocol_version),
        (''job_id'', job_id_json job),
        (''job_last_seq'', json_u64_of (job_last_seq job)),
        (''job_finished'', JsonBool (job_has_finished job)),
        (''database'', JsonString (bc_database_path cfg)),
        (''resumed_from'', json_u64_of cursor)])"

definition job_state :: "envelope \<Rightarrow> job option \<Rightarrow> envelope" where
  "job_state command job =
     response (en_id command) ''JobState'' (json_object
       [(''job_id'', job_id_json job), (''last_seq'', json_u64_of (job_last_seq job)),
        (''finished'', JsonBool (job_has_finished job))])"

definition scan_batch :: "nat \<Rightarrow> envelope" where
  "scan_batch batch =
     response None ''ScanBatch'' (json_object
       [(''findings'', JsonArray (map (\<lambda>n. json_object
           [(''id'', JsonString (''finding-'' @ decimal batch @ ''-'' @ decimal n)),
            (''kind'', JsonString ''synthetic''),
            (''message_key'', JsonString ''finding.synthetic'')]) [0..<5])),
        (''scanned_count'', json_nat (of_nat ((batch + 1) * 5))), (''elapsed_ms'', json_nat 0)])"

definition synthetic_scan :: "envelope list" where
  "synthetic_scan =
     map scan_batch [0..<3]
     @ [response None ''ScanComplete'' (json_object
          [(''total'', json_nat 15), (''partial'', JsonBool False), (''access_denied_paths'', JsonArray [])])]"

definition session_of :: "envelope \<Rightarrow> string" where
  "session_of command =
     (case Option.bind (json_get (en_payload command) ''session'') json_str of Some s \<Rightarrow> s | None \<Rightarrow> [])"

definition job_name :: "config \<Rightarrow> string" where
  "job_name cfg = ''s3-'' @ bc_session cfg"

text \<open>
  The replies to a command, what follows them, and the job afterwards; or the error that ends
  the connection, when the database of a new job cannot be opened.
\<close>

definition dispatch ::
    "config \<Rightarrow> open_outcome \<Rightarrow> string \<Rightarrow> envelope \<Rightarrow> 64 word \<Rightarrow> database \<Rightarrow> job option
      \<Rightarrow> string + (envelope list \<times> next_step) \<times> job option" where
  "dispatch cfg oo now command cursor db job =
     (let k = en_kind command
      in if k = ''Hello'' then
           (case verify_session (session_of command) (bc_session cfg) of
              Some _ \<Rightarrow> Inr (([], LeaveClient cursor), job)
            | None \<Rightarrow>
                let from = (case field_u64 command ''resume_from'' of Some n \<Rightarrow> n | None \<Rightarrow> 0)
                in Inr (([hello_ack cfg command job from], KeepServing from), job))
         else if k = ''ScanStart'' then Inr ((ack command # synthetic_scan, KeepServing cursor), job)
         else if k = ''ApplyPlan'' then
           (case job of
              Some _ \<Rightarrow> Inr (([ack command], StartStream cursor), job)
            | None \<Rightarrow>
                (case open_store oo (job_name cfg) (bc_journal cfg) now (bc_version cfg)
                        synthetic_catalog_version db of
                   Inl e \<Rightarrow> Inl e
                 | Inr db \<Rightarrow>
                     Inr (([ack command], StartStream cursor),
                          Some (start_job (job_name cfg) (bc_ticks_per_stage cfg) db))))
         else if k = ''JobResume'' then
           let from = (case field_u64 command ''from_seq'' of Some n \<Rightarrow> n | None \<Rightarrow> cursor)
           in Inr (([ack command], if job = None then KeepServing from else StartStream from), job)
         else if k = ''JobStatus'' then Inr (([job_state command job], KeepServing cursor), job)
         else if k = ''Shutdown'' then Inr (([ack command], ShutDown), job)
         else Inr (([unknown_command command], KeepServing cursor), job))"

section \<open>Actions\<close>

datatype write_outcome = Written | ReaderGone | WriteFailed string

datatype action =
  JobActs bool string
| Accepts "string + unit"
| AcceptFails string
| Reads "frame_error + envelope" open_outcome string
| Writes write_outcome
| Fetches

text \<open>Going on after the last reply.\<close>

definition enter :: "next_step \<Rightarrow> broker \<Rightarrow> broker" where
  "enter nx bk =
     (case nx of
        KeepServing cursor \<Rightarrow> bk\<lparr>bk_server := Serving cursor\<rparr>
      | StartStream cursor \<Rightarrow> bk\<lparr>bk_server := Fetching cursor, bk_stream := Some (cursor, [])\<rparr>
      | LeaveClient _ \<Rightarrow> bk\<lparr>bk_server := Accepting\<rparr>
      | ShutDown \<Rightarrow> bk\<lparr>bk_server := Stopped\<rparr>)"

definition reply :: "envelope list \<Rightarrow> next_step \<Rightarrow> broker \<Rightarrow> broker" where
  "reply es nx bk = (if es = [] then enter nx bk else bk\<lparr>bk_server := Replying es nx\<rparr>)"

text \<open>The client left or the connection failed: the next one is awaited, and the job goes on.\<close>

definition drop_client :: "broker \<Rightarrow> broker" where
  "drop_client bk = bk\<lparr>bk_server := Accepting, bk_stream := None\<rparr>"

text \<open>After a batch: complete when the job had finished and its last event is written.\<close>

definition after_batch :: "bool \<Rightarrow> 64 word \<Rightarrow> broker \<Rightarrow> broker" where
  "after_batch finished cursor bk =
     bk\<lparr>bk_server :=
       (if finished \<and> job_last_seq (bk_job bk) \<le> cursor then Serving cursor else Fetching cursor)\<rparr>"

definition send :: "envelope list \<Rightarrow> bool \<Rightarrow> 64 word \<Rightarrow> broker \<Rightarrow> broker" where
  "send es finished cursor bk =
     (if es = [] then after_batch finished cursor bk else bk\<lparr>bk_server := Sending es finished cursor\<rparr>)"

definition seq_of :: "envelope \<Rightarrow> 64 word \<Rightarrow> 64 word" where
  "seq_of e cursor = (case en_seq e of Some n \<Rightarrow> n | None \<Rightarrow> cursor + 1)"

definition read_command ::
    "config \<Rightarrow> frame_error + envelope \<Rightarrow> open_outcome \<Rightarrow> string \<Rightarrow> 64 word \<Rightarrow> broker \<Rightarrow> broker" where
  "read_command cfg frame oo now cursor bk =
     (case frame of
        Inl Closed \<Rightarrow> drop_client bk
      | Inl (Broken _) \<Rightarrow> drop_client bk
      | Inl _ \<Rightarrow> reply [bad_frame] (KeepServing cursor) bk
      | Inr command \<Rightarrow>
          (case dispatch cfg oo now command cursor (bk_database bk) (bk_job bk) of
             Inl _ \<Rightarrow> drop_client bk
           | Inr ((es, nx), job) \<Rightarrow> reply es nx (bk\<lparr>bk_job := job\<rparr>)))"

text \<open>One reply: the acknowledgement of a shutdown is written to whoever is still there.\<close>

definition write_reply :: "write_outcome \<Rightarrow> envelope \<Rightarrow> envelope list \<Rightarrow> next_step \<Rightarrow> broker \<Rightarrow> broker" where
  "write_reply w e es nx bk =
     (case w of
        Written \<Rightarrow> reply es nx bk
      | ReaderGone \<Rightarrow> if nx = ShutDown then enter ShutDown bk else drop_client bk
      | WriteFailed _ \<Rightarrow> drop_client bk)"

definition write_event ::
    "write_outcome \<Rightarrow> envelope \<Rightarrow> envelope list \<Rightarrow> bool \<Rightarrow> 64 word \<Rightarrow> broker \<Rightarrow> broker" where
  "write_event w e es finished cursor bk =
     (case w of
        Written \<Rightarrow>
          send es finished (seq_of e cursor)
            (bk\<lparr>bk_stream := map_option (\<lambda>(from, got). (from, got @ [e])) (bk_stream bk)\<rparr>)
      | _ \<Rightarrow> drop_client bk)"

text \<open>
  The state after an action, if the action can happen now.  A pipe that cannot wait for a client
  or name one ends the server, and with it the process and its job.
\<close>

definition broker_next :: "config \<Rightarrow> action \<Rightarrow> broker \<Rightarrow> broker option" where
  "broker_next cfg a bk =
     (case (a, bk_server bk) of
        (_, Stopped) \<Rightarrow> None
      | (JobActs ok now, _) \<Rightarrow>
          map_option (\<lambda>j. bk\<lparr>bk_job := Some (job_step ok now j)\<rparr>) (bk_job bk)
      | (Accepts verdict, Accepting) \<Rightarrow>
          Some (if verdict = Inr () \<or> bc_ignore_client_verification cfg
                then bk\<lparr>bk_server := Serving 0, bk_stream := None\<rparr> else bk)
      | (AcceptFails _, Accepting) \<Rightarrow> Some (bk\<lparr>bk_server := Stopped\<rparr>)
      | (Reads frame oo now, Serving cursor) \<Rightarrow> Some (read_command cfg frame oo now cursor (bk\<lparr>bk_stream := None\<rparr>))
      | (Writes w, Replying (e # es) nx) \<Rightarrow> Some (write_reply w e es nx bk)
      | (Writes w, Sending (e # es) finished cursor) \<Rightarrow> Some (write_event w e es finished cursor bk)
      | (Fetches, Fetching cursor) \<Rightarrow>
          (case bk_job bk of
             None \<Rightarrow> None
           | Some j \<Rightarrow>
               let (es, finished) = events_after (jb_log j) cursor
               in Some (send es finished cursor bk))
      | _ \<Rightarrow> None)"

inductive reachable :: "config \<Rightarrow> broker \<Rightarrow> bool" for cfg :: config where
  reachable_start: "reachable cfg (start_broker db)"
| reachable_step: "reachable cfg bk \<Longrightarrow> broker_next cfg a bk = Some bk' \<Longrightarrow> reachable cfg bk'"

fun broker_run :: "config \<Rightarrow> action list \<Rightarrow> broker \<Rightarrow> broker option" where
  "broker_run cfg [] bk = Some bk"
| "broker_run cfg (a # as) bk = Option.bind (broker_next cfg a bk) (broker_run cfg as)"

end
