(* ===== verification/Broker_Props.thy ===== *)
theory Broker_Props
  imports Broker
begin

text \<open>
  What the broker promises its clients: a stream is a segment of the job's script from where the
  client asked, without a gap or a repetition, whatever happens in between; it is complete when
  the server says so; and neither a client that leaves nor one that never comes stops the job.
\<close>

section \<open>Segments of the log\<close>

text \<open>The events written of a stream from a number are the log's, up to the cursor.\<close>

definition at_cursor :: "envelope list \<Rightarrow> 64 word \<Rightarrow> envelope list \<Rightarrow> 64 word \<Rightarrow> bool" where
  "at_cursor log from got c \<longleftrightarrow>
     unat c = unat from + length got \<and> got = take (length got) (drop (unat from) log)"

lemma at_cursor_start: "at_cursor log c [] c"
  by (simp add: at_cursor_def)

lemma take_prefix: "xs = take (length xs) ys \<Longrightarrow> xs = take (length xs) (ys @ zs)"
proof -
  assume xs: "xs = take (length xs) ys"
  then have "length xs \<le> length ys" by (metis length_take min.cobounded1 min.commute)
  with xs show ?thesis by simp
qed

lemma take_drop_grows:
  "xs = take (length xs) (drop n log) \<Longrightarrow> xs = take (length xs) (drop n (log @ later))"
  unfolding drop_append by (rule take_prefix)

lemma at_cursor_grows: "at_cursor log from got c \<Longrightarrow> at_cursor (log @ later) from got c"
  unfolding at_cursor_def by (blast intro: take_drop_grows)

lemma at_cursor_next:
  assumes "at_cursor log from got c" and "drop (unat c) log = e # later"
    and "c' = c + 1" and "length log < 2 ^ 64"
  shows "at_cursor log from (got @ [e]) c'" and "drop (unat c') log = later"
proof -
  have c: "unat c < length log" using assms(2) by (metis drop_eq_Nil2 list.discI not_le_imp_less)
  then have unat: "unat c' = Suc (unat c)"
    using assms(3,4) by (simp add: unat_word_ariths)
  have e: "log ! unat c = e" using assms(2) c by (metis Cons_nth_drop_Suc list.inject)
  then show "at_cursor log from (got @ [e]) c'"
    using assms(1) c unat by (auto simp: at_cursor_def take_Suc_conv_app_nth)
  show "drop (unat c') log = later" using assms(2) unat by (metis drop_Suc list.sel(3) tl_drop)
qed

section \<open>The invariant\<close>

text \<open>The job is the one of this broker, and on its script.\<close>

definition own_job :: "config \<Rightarrow> job \<Rightarrow> bool" where
  "own_job cfg j \<longleftrightarrow>
     follows_script j \<and> jb_id j = job_name cfg \<and> jb_ticks j = bc_ticks_per_stage cfg"

definition log_of :: "broker \<Rightarrow> envelope list" where
  "log_of bk = (case bk_job bk of None \<Rightarrow> [] | Some j \<Rightarrow> el_events (jb_log j))"

definition streaming :: "config \<Rightarrow> broker \<Rightarrow> bool" where
  "streaming cfg bk \<longleftrightarrow>
     (case bk_server bk of
        Fetching c \<Rightarrow>
          bk_job bk \<noteq> None \<and> (\<exists>from got. bk_stream bk = Some (from, got) \<and> at_cursor (log_of bk) from got c)
      | Sending es finished c \<Rightarrow>
          es \<noteq> [] \<and> bk_job bk \<noteq> None
          \<and> (\<exists>from got. bk_stream bk = Some (from, got) \<and> at_cursor (log_of bk) from got c)
          \<and> es = take (length es) (drop (unat c) (log_of bk))
          \<and> (finished \<longrightarrow> job_has_finished (bk_job bk) \<and> es = drop (unat c) (log_of bk))
      | Serving c \<Rightarrow>
          (\<forall>from got. bk_stream bk = Some (from, got) \<longrightarrow>
             job_has_finished (bk_job bk) \<and> at_cursor (log_of bk) from got c \<and> drop (unat c) (log_of bk) = [])
      | Replying es nx \<Rightarrow> bk_stream bk = None \<and> (\<forall>c. nx = StartStream c \<longrightarrow> bk_job bk \<noteq> None)
      | _ \<Rightarrow> bk_stream bk = None)"

definition owned :: "config \<Rightarrow> broker \<Rightarrow> bool" where
  "owned cfg bk \<longleftrightarrow> (\<forall>j. bk_job bk = Some j \<longrightarrow> own_job cfg j)"

definition sound :: "config \<Rightarrow> broker \<Rightarrow> bool" where
  "sound cfg bk \<longleftrightarrow> streaming cfg bk \<and> owned cfg bk"

lemma own_log:
  assumes "own_job cfg j"
  shows "length (el_events (jb_log j)) < 2 ^ 64"
    and "k < length (el_events (jb_log j)) \<Longrightarrow> en_seq (el_events (jb_log j) ! k) = Some (of_nat k + 1)"
proof -
  have log: "el_events (jb_log j) = take (length (el_events (jb_log j))) (script (jb_id j) (jb_ticks j))"
    using assms by (intro follows_log(1)) (simp add: own_job_def)
  then have short: "length (el_events (jb_log j)) \<le> length (script (jb_id j) (jb_ticks j))"
    by (metis length_take min.cobounded1)
  moreover have "unat (jb_ticks j) < 2 ^ 32" using unsigned_less [of "jb_ticks j", where 'a = nat] by simp
  ultimately show "length (el_events (jb_log j)) < 2 ^ 64" by (simp add: length_script)
  show "en_seq (el_events (jb_log j) ! k) = Some (of_nat k + 1)" if "k < length (el_events (jb_log j))"
    using that short log script_numbered [of k] by (metis nth_take order_less_le_trans)
qed

lemma job_step_log:
  assumes "follows_script j"
  shows "\<exists>later. el_events (jb_log (job_step ok now j)) = el_events (jb_log j) @ later"
    and "el_finished (jb_log j) \<Longrightarrow> job_step ok now j = j"
proof -
  show "\<exists>later. el_events (jb_log (job_step ok now j)) = el_events (jb_log j) @ later"
    by (cases "jb_pc j") (auto simp: job_step_def Let_def push_def complete_def)
  show "job_step ok now j = j" if "el_finished (jb_log j)"
    using that assms by (simp add: follows_script_def job_step_def Let_def)
qed

text \<open>The job acts.\<close>

lemma job_acts_sound:
  assumes "sound cfg bk" and "bk_job bk = Some j"
  shows "sound cfg (bk\<lparr>bk_job := Some (job_step ok now j)\<rparr>)"
proof -
  have own: "own_job cfg j" using assms by (simp add: sound_def owned_def)
  then have j: "follows_script j" by (simp add: own_job_def)
  obtain later where later: "el_events (jb_log (job_step ok now j)) = el_events (jb_log j) @ later"
    using job_step_log(1) [OF j] by blast
  have fin: "job_step ok now j = j" if "el_finished (jb_log j)" by (rule job_step_log(2) [OF j that])
  let ?bk = "bk\<lparr>bk_job := Some (job_step ok now j)\<rparr>"
  have log: "log_of ?bk = log_of bk @ later" by (simp add: log_of_def later assms(2))
  have "own_job cfg (job_step ok now j)" using own by (simp add: own_job_def job_step_follows)
  moreover have "streaming cfg ?bk"
  proof (cases "job_has_finished (bk_job bk)")
    case True
    then have "?bk = bk" using fin assms(2) by (simp add: job_has_finished_def)
    with assms(1) show ?thesis by (simp add: sound_def owned_def)
  next
    case False
    with assms(1) have "streaming cfg bk" by (simp add: sound_def owned_def)
    with False show ?thesis
      by (cases "bk_server bk")
        (auto simp: streaming_def log assms(2) simp del: take_append drop_append
          intro: at_cursor_grows take_drop_grows)
  qed
  ultimately show ?thesis by (simp add: sound_def owned_def)
qed

text \<open>The server acts.\<close>

lemma after_batch_sound:
  assumes "owned cfg bk" and "bk_job bk \<noteq> None" and "bk_stream bk = Some (from, got)"
    and "at_cursor (log_of bk) from got c"
    and "finished \<longrightarrow> job_has_finished (bk_job bk) \<and> drop (unat c) (log_of bk) = []"
  shows "sound cfg (after_batch finished c bk)"
  using assms by (auto simp: sound_def owned_def after_batch_def streaming_def log_of_def)

lemma send_sound:
  assumes "owned cfg bk" and "bk_job bk \<noteq> None" and "bk_stream bk = Some (from, got)"
    and "at_cursor (log_of bk) from got c" and "es = take (length es) (drop (unat c) (log_of bk))"
    and "finished \<longrightarrow> job_has_finished (bk_job bk) \<and> es = drop (unat c) (log_of bk)"
  shows "sound cfg (send es finished c bk)"
proof (cases "es = []")
  case True
  with assms show ?thesis unfolding send_def by (auto intro: after_batch_sound)
next
  case False
  with assms show ?thesis by (auto simp: send_def sound_def owned_def streaming_def log_of_def)
qed

lemma drop_client_sound: "sound cfg bk \<Longrightarrow> sound cfg (drop_client bk)"
  by (auto simp: sound_def owned_def streaming_def drop_client_def)

lemma enter_sound:
  "sound cfg bk \<Longrightarrow> bk_stream bk = None \<Longrightarrow> (\<And>c. nx = StartStream c \<Longrightarrow> bk_job bk \<noteq> None)
    \<Longrightarrow> sound cfg (enter nx bk)"
  by (cases nx) (auto simp: sound_def owned_def streaming_def enter_def at_cursor_start)

lemma reply_sound:
  "sound cfg bk \<Longrightarrow> bk_stream bk = None \<Longrightarrow> (\<And>c. nx = StartStream c \<Longrightarrow> bk_job bk \<noteq> None)
    \<Longrightarrow> sound cfg (reply es nx bk)"
  unfolding reply_def by (auto intro: enter_sound) (auto simp: sound_def owned_def streaming_def)

lemma dispatch_job:
  assumes "dispatch cfg oo now command c db job = Inr ((es, nx), job')"
    and "\<And>j. job = Some j \<Longrightarrow> own_job cfg j"
  shows "(\<forall>j. job' = Some j \<longrightarrow> own_job cfg j) \<and> (\<forall>c. nx = StartStream c \<longrightarrow> job' \<noteq> None)
    \<and> (job \<noteq> None \<longrightarrow> job' = job)"
  using assms start_follows
  by (auto simp: dispatch_def Let_def own_job_def split: if_splits option.splits sum.splits)
    (auto simp: start_job_def)

lemma read_command_sound:
  assumes "sound cfg bk" and "bk_stream bk = None" and "bk_server bk = Serving cursor"
  shows "sound cfg (read_command cfg frame oo now cursor bk)"
proof (cases frame)
  case (Inl e)
  with assms show ?thesis
    by (cases e) (auto simp: read_command_def intro: drop_client_sound reply_sound)
next
  case (Inr command)
  show ?thesis
  proof (cases "dispatch cfg oo now command cursor (bk_database bk) (bk_job bk)")
    case Inl
    with Inr assms show ?thesis by (simp add: read_command_def drop_client_sound)
  next
    case out: (Inr out)
    obtain es nx job where o: "out = ((es, nx), job)" by (metis prod.exhaust)
    have "(\<forall>j. job = Some j \<longrightarrow> own_job cfg j) \<and> (\<forall>c. nx = StartStream c \<longrightarrow> job \<noteq> None)"
      using dispatch_job [OF out [unfolded o]] assms(1) by (auto simp: sound_def owned_def)
    moreover from this assms have "sound cfg (bk\<lparr>bk_job := job\<rparr>)"
      by (auto simp: sound_def owned_def streaming_def)
    ultimately show ?thesis
      using assms(2) Inr out o by (auto simp: read_command_def intro!: reply_sound)
  qed
qed

lemma write_reply_sound:
  assumes "sound cfg bk" and "bk_server bk = Replying (e # es) nx"
  shows "sound cfg (write_reply w e es nx bk)"
proof -
  have "bk_stream bk = None" "\<And>c. nx = StartStream c \<Longrightarrow> bk_job bk \<noteq> None"
    using assms by (auto simp: sound_def owned_def streaming_def)
  then show ?thesis
    using assms(1) by (cases w) (auto simp: write_reply_def intro!: reply_sound enter_sound drop_client_sound)
qed

text \<open>The numbers on the events are those of their places in the log.\<close>

lemma seq_at_cursor:
  assumes "own_job cfg j" and "drop (unat c) (el_events (jb_log j)) = e # es"
  shows "seq_of e c = c + 1"
proof -
  have c: "unat c < length (el_events (jb_log j))"
    using assms(2) by (metis drop_eq_Nil2 list.discI not_le_imp_less)
  moreover have "el_events (jb_log j) ! unat c = e" using assms(2) c by (metis Cons_nth_drop_Suc list.inject)
  ultimately show ?thesis using own_log(2) [OF assms(1), of "unat c"] by (simp add: seq_of_def)
qed

lemma write_event_sound:
  assumes "sound cfg bk" and "bk_server bk = Sending (e # es) finished c"
  shows "sound cfg (write_event w e es finished c bk)"
proof -
  have streams: "streaming cfg bk" using assms(1) by (simp add: sound_def)
  then obtain start got where stream: "bk_stream bk = Some (start, got)"
    and at: "at_cursor (log_of bk) start got c"
    unfolding streaming_def assms(2) by auto
  from streams have job: "bk_job bk \<noteq> None"
    and batch: "e # es = take (length (e # es)) (drop (unat c) (log_of bk))"
    and fin: "finished \<longrightarrow> job_has_finished (bk_job bk) \<and> e # es = drop (unat c) (log_of bk)"
    unfolding streaming_def assms(2) server.case by blast+
  then obtain j where j: "bk_job bk = Some j" by blast
  have own: "own_job cfg j" and log: "log_of bk = el_events (jb_log j)"
    using assms(1) j by (simp_all add: sound_def owned_def log_of_def)
  obtain later where later: "drop (unat c) (log_of bk) = e # later" "es = take (length es) later"
    using batch by (cases "drop (unat c) (log_of bk)") auto
  have seq: "seq_of e c = c + 1" using seq_at_cursor [OF own] later(1) log by simp
  note next_at = at_cursor_next [OF at later(1) seq] own_log(1) [OF own, folded log]
  let ?bk = "bk\<lparr>bk_stream := Some (start, got @ [e])\<rparr>"
  have "sound cfg (send es finished (seq_of e c) ?bk)" if "w = Written"
  proof (rule send_sound)
    show "owned cfg ?bk" using assms(1) by (simp add: sound_def owned_def)
  qed (use next_at fin later j in \<open>auto simp: log_of_def\<close>)
  then show ?thesis
    using assms(1) stream by (cases w) (auto simp: write_event_def intro: drop_client_sound)
qed

text \<open>Which actions there are in which state.\<close>

lemma broker_next_cases:
  assumes "broker_next cfg a bk = Some bk'"
  obtains (JobActs) ok now j where "a = JobActs ok now" "bk_job bk = Some j"
      "bk' = bk\<lparr>bk_job := Some (job_step ok now j)\<rparr>" "bk_server bk \<noteq> Stopped"
  | (Accepts) verdict where "a = Accepts verdict" "bk_server bk = Accepting"
      "bk' = (if verdict = Inr () \<or> bc_ignore_client_verification cfg
              then bk\<lparr>bk_server := Serving 0, bk_stream := None\<rparr> else bk)"
  | (AcceptFails) e where "a = AcceptFails e" "bk_server bk = Accepting" "bk' = bk\<lparr>bk_server := Stopped\<rparr>"
  | (Reads) frame oo now c where "a = Reads frame oo now" "bk_server bk = Serving c"
      "bk' = read_command cfg frame oo now c (bk\<lparr>bk_stream := None\<rparr>)"
  | (Replies) w e es nx where "a = Writes w" "bk_server bk = Replying (e # es) nx"
      "bk' = write_reply w e es nx bk"
  | (Sends) w e es finished c where "a = Writes w" "bk_server bk = Sending (e # es) finished c"
      "bk' = write_event w e es finished c bk"
  | (Fetches) c j where "a = Fetches" "bk_server bk = Fetching c" "bk_job bk = Some j"
      "bk' = send (drop (min (unat c) (length (el_events (jb_log j)))) (el_events (jb_log j)))
               (el_finished (jb_log j)) c bk"
  using assms that
  by (auto simp: broker_next_def events_after_def Let_def
      split: action.splits server.splits list.splits option.splits)

lemma broker_next_sound:
  assumes "sound cfg bk" and "broker_next cfg a bk = Some bk'"
  shows "sound cfg bk'"
  using assms(2)
proof (cases rule: broker_next_cases)
  case (JobActs ok now j)
  with assms(1) show ?thesis by (simp add: job_acts_sound)
next
  case (Accepts verdict)
  with assms(1) show ?thesis by (auto simp: sound_def owned_def streaming_def)
next
  case (AcceptFails e)
  with assms(1) show ?thesis by (simp add: sound_def owned_def streaming_def)
next
  case (Reads frame oo now c)
  with assms(1) have "sound cfg (bk\<lparr>bk_stream := None\<rparr>)" by (auto simp: sound_def owned_def streaming_def)
  with Reads show ?thesis by (simp add: read_command_sound)
next
  case (Replies w e es nx)
  with assms(1) show ?thesis by (simp add: write_reply_sound)
next
  case (Sends w e es finished c)
  with assms(1) show ?thesis by (simp add: write_event_sound)
next
  case (Fetches c j)
  then obtain start got where "bk_stream bk = Some (start, got)" "at_cursor (log_of bk) start got c"
    using assms(1) by (auto simp: sound_def streaming_def)
  moreover have "drop (min (unat c) (length (log_of bk))) (log_of bk) = drop (unat c) (log_of bk)"
    by (simp add: min_def)
  ultimately have "sound cfg (send (drop (min (unat c) (length (log_of bk))) (log_of bk))
      (el_finished (jb_log j)) c bk)"
    using Fetches(3) assms(1) by (intro send_sound) (auto simp: job_has_finished_def sound_def)
  moreover have "log_of bk = el_events (jb_log j)" using Fetches(3) by (simp add: log_of_def)
  ultimately show ?thesis using Fetches(4) by simp
qed

lemma reachable_sound: "reachable cfg bk \<Longrightarrow> sound cfg bk"
proof (induction rule: reachable.induct)
  case (reachable_start db)
  then show ?case by (simp add: sound_def owned_def streaming_def start_broker_def)
qed (rule broker_next_sound)

section \<open>What a client gets\<close>

definition broker_script :: "config \<Rightarrow> envelope list" where
  "broker_script cfg = script (job_name cfg) (bc_ticks_per_stage cfg)"

lemma own_script:
  assumes "own_job cfg j"
  shows "el_events (jb_log j) = take (length (el_events (jb_log j))) (broker_script cfg)"
    and "el_finished (jb_log j) \<longleftrightarrow> el_events (jb_log j) = broker_script cfg"
  using assms follows_log [of j] by (simp_all add: own_job_def broker_script_def)

lemma stream_segment:
  assumes "sound cfg bk" and "bk_stream bk = Some (start, got)"
  shows "\<exists>c. at_cursor (log_of bk) start got c
    \<and> (case bk_server bk of Serving d \<Rightarrow> d = c | Fetching d \<Rightarrow> d = c | Sending _ _ d \<Rightarrow> d = c | _ \<Rightarrow> False)"
  using assms by (cases "bk_server bk") (auto simp: sound_def streaming_def)

lemma segment_of_prefix:
  assumes "got = take (length got) (drop n xs)" and "xs = take m ys"
  shows "got = take (length got) (drop n ys)"
  using assms by (metis take_drop take_prefix append_take_drop_id drop_append)

lemma written_segment:
  assumes "reachable cfg bk" and "bk_stream bk = Some (start, got)"
  shows "got = take (length got) (drop (unat start) (broker_script cfg))
    \<and> (bk_server bk \<in> range Serving \<longrightarrow> got = drop (unat start) (broker_script cfg))"
proof -
  have sound: "sound cfg bk" by (rule reachable_sound [OF assms(1)])
  then obtain c where at: "at_cursor (log_of bk) start got c"
    using stream_segment [OF _ assms(2)] by blast
  have prefix: "log_of bk = take (length (log_of bk)) (broker_script cfg)"
    using sound own_script(1) by (cases "bk_job bk") (auto simp: log_of_def sound_def owned_def)
  have "got = drop (unat start) (broker_script cfg)" if "bk_server bk = Serving d" for d
  proof -
    have fin: "job_has_finished (bk_job bk)" and "at_cursor (log_of bk) start got d"
      and "drop (unat d) (log_of bk) = []"
      using sound that assms(2) by (auto simp: sound_def streaming_def)
    moreover from fin sound have "log_of bk = broker_script cfg"
      by (auto simp: job_has_finished_def log_of_def sound_def owned_def own_script(2) split: option.splits)
    ultimately show ?thesis by (simp add: at_cursor_def)
  qed
  moreover have "got = take (length got) (drop (unat start) (broker_script cfg))"
    using at prefix segment_of_prefix by (auto simp: at_cursor_def)
  ultimately show ?thesis by blast
qed

text \<open>
  C5. Every stream is a segment of the job's script: what was written of it is the script from
  the number the client gave on, without a gap, a repetition or a change of order, whatever the
  job, the database and other clients did meanwhile; and when the server takes the next command
  after it, the client has had all of it.
\<close>

theorem stream_is_segment:
  assumes "reachable cfg bk" and "bk_stream bk = Some (start, got)"
  shows "got = take (length got) (drop (unat start) (broker_script cfg))
    \<and> (bk_server bk \<in> range Serving \<longrightarrow> got = drop (unat start) (broker_script cfg))"
  by (rule written_segment [OF assms])

text \<open>
  A client that was cut off and comes back with the number it reached gets the rest: what the
  two streams wrote, one after the other, is the whole script.
\<close>

theorem reconnect_is_exact:
  assumes "reachable cfg bk" and "bk_stream bk = Some (0, got)"
    and "reachable cfg bk'" and "bk_stream bk' = Some (of_nat (length got), rest)"
    and "bk_server bk' = Serving c"
  shows "got @ rest = broker_script cfg"
proof -
  have got: "got = take (length got) (broker_script cfg)" using written_segment [OF assms(1,2)] by simp
  then have "length got \<le> length (broker_script cfg)" by (metis length_take min.cobounded1)
  moreover have "length (broker_script cfg) < 2 ^ 64"
    using unsigned_less [of "bc_ticks_per_stage cfg", where 'a = nat]
    by (simp add: broker_script_def length_script)
  ultimately have "unat (of_nat (length got) :: 64 word) = length got"
    by (simp add: unsigned_of_nat take_bit_nat_eq_self)
  moreover have "rest = drop (unat (of_nat (length got) :: 64 word)) (broker_script cfg)"
    using written_segment [OF assms(3,4)] assms(5) by blast
  ultimately show ?thesis using got by (metis append_take_drop_id)
qed

section \<open>A feed\<close>

text \<open>
  The abstract server of one client: a script, a place in it where the client started and how
  much was handed over.  Its only step hands over the next event.
\<close>

inductive feed_step :: "envelope list \<Rightarrow> 64 word \<times> envelope list \<Rightarrow> envelope \<Rightarrow> 64 word \<times> envelope list \<Rightarrow> bool"
  for s :: "envelope list" where
  hand_over: "unat start + length got < length s \<Longrightarrow> e = s ! (unat start + length got) \<Longrightarrow>
    feed_step s (start, got) e (start, got @ [e])"

inductive_simps feed_step_simps: "feed_step s (start, got) e feed"

lemma send_stream [simp]: "bk_stream (send es finished c bk) = bk_stream bk"
  by (simp add: send_def after_batch_def)

lemma reply_stream: "bk_stream bk = None \<Longrightarrow> bk_stream (reply es nx bk) \<in> {None} \<union> range (\<lambda>c. Some (c, []))"
  by (cases nx) (auto simp: reply_def enter_def)

text \<open>
  C12. The broker refines the feed: while it streams to a client, an action of any of its parts
  leaves the stream as it is, ends it, or writes exactly the event the feed hands over next.
\<close>

theorem broker_refines_feed:
  assumes "reachable cfg bk" and "broker_next cfg a bk = Some bk'"
    and "bk_stream bk = Some (start, got)" and "bk_stream bk' \<noteq> None"
  shows "bk_stream bk' = Some (start, got)
    \<or> (\<exists>e. a = Writes Written \<and> bk_stream bk' = Some (start, got @ [e])
         \<and> feed_step (broker_script cfg) (start, got) e (start, got @ [e]))"
  using assms(2)
proof (cases rule: broker_next_cases)
  case (Reads frame oo now c)
  let ?bk = "bk\<lparr>bk_stream := None\<rparr>"
  have "bk_stream (read_command cfg frame oo now c ?bk) = None"
  proof (cases frame)
    case (Inl e)
    then show ?thesis by (cases e) (simp_all add: read_command_def drop_client_def reply_def)
  next
    case (Inr command)
    then show ?thesis
      by (auto simp: read_command_def drop_client_def reply_def enter_def dispatch_def Let_def
          split: sum.splits prod.splits option.splits if_splits)
  qed
  with Reads assms(4) show ?thesis by simp
next
  case (Replies w e es nx)
  then show ?thesis
    using assms(3) reachable_sound [OF assms(1)] by (simp add: sound_def streaming_def)
next
  case (Sends w e es finished c)
  have sound: "sound cfg bk" "sound cfg bk'"
    using reachable_sound assms(1) reachable_step [OF assms(1,2)] by blast+
  show ?thesis
  proof (cases w)
    case Written
    then have new: "bk_stream bk' = Some (start, got @ [e])"
      using Sends assms(3) by (simp add: write_event_def)
    have segment: "got @ [e] = take (Suc (length got)) (drop (unat start) (broker_script cfg))"
      using written_segment [OF reachable_step [OF assms(1,2)] new] by simp
    then have "length (drop (unat start) (broker_script cfg)) > length got"
      by (metis Suc_le_eq length_append_singleton length_take min.cobounded2 min.commute)
    moreover from this have "e = broker_script cfg ! (unat start + length got)"
      using arg_cong [OF segment, of last] by (simp add: last_conv_nth)
    ultimately show ?thesis
      using new Sends(1) Written by (auto simp: feed_step_simps)
  qed (use Sends assms(4) in \<open>auto simp: write_event_def drop_client_def\<close>)
qed (use assms(3,4) in \<open>auto split: if_splits\<close>)

section \<open>The job outlives its clients\<close>

lemma read_command_job:
  "bk_job bk = Some j \<Longrightarrow> bk_job (read_command cfg frame oo now c bk) = Some j"
  by (auto simp: read_command_def drop_client_def reply_def enter_def dispatch_def Let_def
      split: sum.splits prod.splits option.splits frame_error.splits next_step.splits if_splits)

lemma other_actions_job:
  assumes "broker_next cfg a bk = Some bk'" and "bk_job bk = Some j" and "a \<notin> range (case_prod JobActs)"
  shows "bk_job bk' = Some j"
  using assms(1)
proof (cases rule: broker_next_cases)
  case (Reads frame oo now c)
  with assms(2) show ?thesis by (simp add: read_command_job)
next
  case (Replies w e es nx)
  with assms(2) show ?thesis
    by (auto simp: write_reply_def reply_def enter_def drop_client_def split: write_outcome.splits next_step.splits)
next
  case (Sends w e es finished c)
  with assms(2) show ?thesis
    by (auto simp: write_event_def send_def after_batch_def drop_client_def split: write_outcome.splits)
qed (use assms(2,3) in \<open>auto simp: send_def after_batch_def image_iff split: if_splits\<close>)

fun is_job_action :: "action \<Rightarrow> bool" where
  "is_job_action (JobActs _ _) \<longleftrightarrow> True"
| "is_job_action _ \<longleftrightarrow> False"

lemma broker_run_job:
  assumes "broker_run cfg as bk = Some bk'" and "bk_job bk = Some j"
  shows "\<exists>inputs. bk_job bk' = Some (job_actions inputs j) \<and> length inputs = length (filter is_job_action as)"
  using assms
proof (induction "as" arbitrary: bk j)
  case Nil
  then show ?case by (auto simp: job_actions_def intro: exI [of _ "[]"])
next
  case (Cons a "as")
  then obtain b where b: "broker_next cfg a bk = Some b" "broker_run cfg as b = Some bk'"
    by (auto split: bind_splits)
  show ?case
  proof (cases "is_job_action a")
    case True
    then obtain ok now where a: "a = JobActs ok now" by (cases a) auto
    with b(1) Cons.prems(2) have "bk_job b = Some (job_step ok now j)"
      by (auto simp: broker_next_def split: server.splits)
    from Cons.IH [OF b(2) this] obtain inputs where
      "bk_job bk' = Some (job_actions inputs (job_step ok now j))"
      "length inputs = length (filter is_job_action as)" by blast
    then show ?thesis using a by (intro exI [of _ "(ok, now) # inputs"]) (simp add: job_actions_def)
  next
    case False
    then have "a \<notin> range (case_prod JobActs)" by auto
    from Cons.IH [OF b(2) other_actions_job [OF b(1) Cons.prems(2) this]] False show ?thesis by simp
  qed
qed

lemma steps_left_bound: "pc_ok ticks pc \<Longrightarrow> steps_left ticks pc \<le> 7 * (unat ticks + 4) + 2"
proof (cases pc)
  case (RecordStart s)
  then show ?thesis using mult_le_mono1 [of "7 - s" 7 "unat ticks + 4"] by simp
next
  case (AnnounceStart s)
  then show ?thesis using mult_le_mono1 [of "7 - s" 7 "unat ticks + 4"] by simp
next
  case (Progress s p)
  then show ?thesis using mult_le_mono1 [of "7 - s" 7 "unat ticks + 4"] by simp
next
  case (CommitStage s)
  then show ?thesis using mult_le_mono1 [of "6 - s" 6 "unat ticks + 4"] by simp
next
  case (AnnounceDone s)
  then show ?thesis using mult_le_mono1 [of "6 - s" 6 "unat ticks + 4"] by simp
qed auto

text \<open>
  C21. The job outlives its clients: from any state with a job, whatever clients connect, ask,
  fail or leave on the way, once its thread has acted often enough the job has finished with the
  whole script in its log.
\<close>

theorem job_outlives_clients:
  assumes "reachable cfg bk" and "bk_job bk \<noteq> None" and "broker_run cfg as bk = Some bk'"
    and "7 * (unat (bc_ticks_per_stage cfg) + 4) + 2 \<le> length (filter is_job_action as)"
  shows "\<exists>j. bk_job bk' = Some j \<and> el_finished (jb_log j) \<and> el_events (jb_log j) = broker_script cfg"
proof -
  from assms(2) obtain j where j: "bk_job bk = Some j" by blast
  have own: "own_job cfg j" using reachable_sound [OF assms(1)] j by (simp add: sound_def owned_def)
  obtain inputs where inputs: "bk_job bk' = Some (job_actions inputs j)"
    "length inputs = length (filter is_job_action as)"
    using broker_run_job [OF assms(3) j] by blast
  have "pc_ok (jb_ticks j) (jb_pc j)" using own unfolding own_job_def follows_script_def by blast
  from steps_left_bound [OF this]
  have "steps_left (jb_ticks j) (jb_pc j) \<le> 7 * (unat (jb_ticks j) + 4) + 2" .
  then show ?thesis
    using enough_actions [of j inputs] own inputs assms(4) by (simp add: own_job_def broker_script_def)
qed

section \<open>A stream ends\<close>

lemma last_seq_reached:
  assumes "owned cfg bk" and "drop (unat c) (log_of bk) = []"
  shows "job_last_seq (bk_job bk) \<le> c"
proof (cases "bk_job bk")
  case (Some j)
  with assms have "length (el_events (jb_log j)) \<le> unat c" "length (el_events (jb_log j)) < 2 ^ 64"
    using own_log(1) by (auto simp: log_of_def owned_def)
  then show ?thesis
    using Some by (simp add: job_last_seq_def last_seq_def word_le_nat_alt unsigned_of_nat take_bit_nat_eq_self)
qed (simp add: job_last_seq_def)

lemma batch_ends:
  "sound cfg bk \<Longrightarrow> bk_server bk = Sending es True c \<Longrightarrow> bk_stream bk = Some (start, got) \<Longrightarrow>
    \<exists>bk' d got'. broker_run cfg (replicate (length es) (Writes Written)) bk = Some bk'
      \<and> bk_server bk' = Serving d \<and> bk_stream bk' = Some (start, got')"
proof (induction es arbitrary: bk c got)
  case Nil
  then show ?case by (simp add: sound_def streaming_def)
next
  case (Cons e es)
  let ?bk = "write_event Written e es True c bk"
  have step: "broker_next cfg (Writes Written) bk = Some ?bk" using Cons.prems(2) by (simp add: broker_next_def)
  have sound: "sound cfg ?bk" by (rule write_event_sound [OF Cons.prems(1,2)])
  have stream: "bk_stream ?bk = Some (start, got @ [e])" using Cons.prems(3) by (simp add: write_event_def)
  show ?case
  proof (cases es)
    case (Cons e' es')
    then have "bk_server ?bk = Sending es True (seq_of e c)" by (simp add: write_event_def send_def)
    from Cons.IH [OF sound this stream] step show ?thesis by simp
  next
    case Nil
    have fin: "job_has_finished (bk_job bk)" and last: "drop (unat c) (log_of bk) = [e]"
      and owned: "owned cfg bk" using Cons.prems Nil unfolding sound_def streaming_def by auto
    then obtain j where j: "bk_job bk = Some j" by (auto simp: job_has_finished_def split: option.splits)
    then have own: "own_job cfg j" and log: "log_of bk = el_events (jb_log j)"
      using owned by (simp_all add: owned_def log_of_def)
    have seq: "seq_of e c = c + 1" using seq_at_cursor [OF own, of c e "[]"] last log by simp
    have "at_cursor (log_of bk) c [] c" by (simp add: at_cursor_def)
    from at_cursor_next(2) [OF this last seq] own_log(1) [OF own] log
    have "drop (unat (seq_of e c)) (log_of bk) = []" by simp
    from last_seq_reached [OF owned this] have "bk_server ?bk = Serving (seq_of e c)"
      using Nil by (simp add: write_event_def send_def after_batch_def)
    with step stream Nil show ?thesis by simp
  qed
qed

lemma reachable_run: "reachable cfg bk \<Longrightarrow> broker_run cfg as bk = Some bk' \<Longrightarrow> reachable cfg bk'"
proof (induction "as" arbitrary: bk)
  case (Cons a "as")
  then show ?case by (auto split: bind_splits intro: reachable_step)
qed simp

text \<open>
  C22. A stream ends: once the job has finished, a server that is about to ask for events needs
  one request and as many writes as events are missing to be back at the next command, and by
  then it has written all the script has after the number the client gave.
\<close>

theorem stream_completes:
  assumes "reachable cfg bk" and "bk_server bk = Fetching c" and "job_has_finished (bk_job bk)"
  shows "\<exists>bk' start. broker_run cfg
        (Fetches # replicate (length (broker_script cfg) - unat c) (Writes Written)) bk = Some bk'
      \<and> bk_server bk' \<in> range Serving
      \<and> bk_stream bk' = Some (start, drop (unat start) (broker_script cfg))"
proof -
  have sound: "sound cfg bk" by (rule reachable_sound [OF assms(1)])
  from sound assms(2) obtain start got where stream: "bk_stream bk = Some (start, got)"
    by (auto simp: sound_def streaming_def)
  from assms(3) obtain j where j: "bk_job bk = Some j" "el_finished (jb_log j)"
    by (auto simp: job_has_finished_def split: option.splits)
  then have log: "el_events (jb_log j) = broker_script cfg"
    using sound own_script(2) by (auto simp: sound_def owned_def)
  let ?es = "drop (min (unat c) (length (broker_script cfg))) (broker_script cfg)"
  let ?bk = "send ?es True c bk"
  let ?as = "Fetches # replicate (length (broker_script cfg) - unat c) (Writes Written)"
  have step: "broker_next cfg Fetches bk = Some ?bk"
    using assms(2) j log by (simp add: broker_next_def events_after_def)
  have "length ?es = length (broker_script cfg) - unat c" by (simp add: min_def)
  moreover have "\<exists>bk' d got'. broker_run cfg (replicate (length ?es) (Writes Written)) ?bk = Some bk'
      \<and> bk_server bk' = Serving d \<and> bk_stream bk' = Some (start, got')"
  proof (cases "?es = []")
    case True
    have owned: "owned cfg bk" using sound by (simp add: sound_def)
    have "drop (unat c) (log_of bk) = []" using j log True by (simp add: log_of_def min_def split: if_splits)
    from last_seq_reached [OF owned this] stream True show ?thesis
      by (simp add: send_def after_batch_def)
  next
    case False
    then show ?thesis
      by (intro batch_ends [OF broker_next_sound [OF sound step]]) (simp_all add: send_def stream)
  qed
  ultimately obtain bk' d got' where run: "broker_run cfg ?as bk = Some bk'"
    and d: "bk_server bk' = Serving d" and stream': "bk_stream bk' = Some (start, got')"
    using step by auto
  with written_segment [OF reachable_run [OF assms(1) run] stream'] show ?thesis by blast
qed

section \<open>What may be written\<close>

definition is_reply :: "envelope \<Rightarrow> bool" where
  "is_reply e \<longleftrightarrow> en_v e = protocol_version \<and> en_seq e = None"

lemma is_reply_response [simp]: "is_reply (response i k p)"
  by (simp add: is_reply_def response_def)

lemma scan_replies: "e \<in> set synthetic_scan \<Longrightarrow> is_reply e"
  unfolding synthetic_scan_def scan_batch_def by auto

lemma dispatch_replies:
  "dispatch cfg oo now command c db job = Inr ((es, nx), job') \<Longrightarrow> e \<in> set es \<Longrightarrow> is_reply e"
  by (auto simp: dispatch_def Let_def ack_def hello_ack_def job_state_def unknown_command_def error_reply_def
      scan_replies split: if_splits option.splits sum.splits)

definition replying :: "broker \<Rightarrow> bool" where
  "replying bk \<longleftrightarrow> (\<forall>es nx. bk_server bk = Replying es nx \<longrightarrow> (\<forall>e \<in> set es. is_reply e))"

lemma replying_other: "bk_server bk \<notin> range (case_prod Replying) \<Longrightarrow> replying bk"
  by (force simp: replying_def)

lemma replying_enter [simp]: "replying (enter nx bk)"
  by (cases nx) (simp_all add: replying_def enter_def)

lemma replying_reply: "(\<And>e. e \<in> set es \<Longrightarrow> is_reply e) \<Longrightarrow> replying (reply es nx bk)"
  unfolding reply_def by auto (auto simp: replying_def)

lemma replying_drop [simp]: "replying (drop_client bk)"
  by (simp add: replying_def drop_client_def)

lemma replying_send [simp]: "replying (send es finished c bk)"
  by (simp add: replying_def send_def after_batch_def)

lemma read_command_replies: "replying (read_command cfg frame oo now c bk)"
proof (cases frame)
  case (Inl e)
  then show ?thesis
    by (cases e) (auto simp: read_command_def bad_frame_def error_reply_def intro!: replying_reply)
next
  case (Inr command)
  then show ?thesis
    by (auto simp: read_command_def split: sum.splits prod.splits
        intro!: replying_reply dest: dispatch_replies)
qed

lemma broker_next_replies:
  assumes "replying bk" and "broker_next cfg a bk = Some bk'"
  shows "replying bk'"
  using assms(2)
proof (cases rule: broker_next_cases)
  case (Replies w e es nx)
  then have "\<And>x. x \<in> set es \<Longrightarrow> is_reply x" using assms(1) by (simp add: replying_def)
  with Replies show ?thesis by (cases w) (auto simp: write_reply_def intro: replying_reply)
next
  case (Sends w e es finished c)
  then show ?thesis by (cases w) (auto simp: write_event_def)
next
  case (Reads frame oo now c)
  then show ?thesis by (simp add: read_command_replies)
next
  case (Fetches c j)
  then show ?thesis by simp
qed (use assms(1) in \<open>auto simp: replying_def\<close>)

lemma segment_nth: "xs = take (length xs) ys \<Longrightarrow> k < length xs \<Longrightarrow> xs ! k = ys ! k"
  by (metis nth_take)

lemma script_events: "e \<in> set (script i ticks) \<Longrightarrow> en_v e = protocol_version \<and> en_id e = None \<and> en_seq e \<noteq> None"
  by (auto simp: script_def in_set_conv_nth nth_number event_def)

text \<open>
  C23. Everything the broker is about to write is well formed: of the protocol's version, a reply
  without a sequence number, and an event without an id and with the number that follows
  what the client has.
\<close>

theorem envelopes_well_formed:
  assumes "reachable cfg bk"
  shows "(\<forall>es nx. bk_server bk = Replying es nx \<longrightarrow>
        (\<forall>e \<in> set es. en_v e = protocol_version \<and> en_seq e = None))
    \<and> (\<forall>es finished c. bk_server bk = Sending es finished c \<longrightarrow>
        (\<forall>k < length es. en_v (es ! k) = protocol_version \<and> en_id (es ! k) = None
           \<and> en_seq (es ! k) = Some (c + of_nat k + 1)))"
proof -
  have "replying bk"
    using assms
  proof (induction rule: reachable.induct)
    case (reachable_start db)
    then show ?case by (simp add: replying_def start_broker_def)
  qed (rule broker_next_replies)
  moreover have "en_v (es ! k) = protocol_version \<and> en_id (es ! k) = None \<and> en_seq (es ! k) = Some (c + of_nat k + 1)"
    if "bk_server bk = Sending es finished c" and k: "k < length es" for es finished c k
  proof -
    from reachable_sound [OF assms] that(1) obtain j where j: "bk_job bk = Some j" "own_job cfg j"
      and es: "es = take (length es) (drop (unat c) (el_events (jb_log j)))"
      by (auto simp: sound_def streaming_def owned_def log_of_def)
    from es k have place: "unat c + k < length (el_events (jb_log j))"
      by (metis add.commute length_drop length_take less_diff_conv min_less_iff_conj)
    then have nth: "es ! k = el_events (jb_log j) ! (unat c + k)"
      using segment_nth [OF es k] by (simp add: nth_drop)
    have "es ! k \<in> set (broker_script cfg)"
      using own_script(1) [OF j(2)] place nth by (metis in_set_takeD nth_mem)
    then show ?thesis
      using own_log(2) [OF j(2) place] nth script_events by (auto simp: broker_script_def)
  qed
  ultimately show ?thesis unfolding replying_def is_reply_def by blast
qed

text \<open>A client that never sends a greeting, and so no session, is served all the same.\<close>

lemma served_without_hello:
  assumes "open_store oo (job_name cfg) (bc_journal cfg) now (bc_version cfg) synthetic_catalog_version db
    = Inr db'"
  shows "broker_run cfg [Accepts (Inr ()), Reads (Inr (response i ''ApplyPlan'' p)) oo now] (start_broker db)
    = Some \<lparr>bk_job = Some (start_job (job_name cfg) (bc_ticks_per_stage cfg) db'), bk_database = db,
            bk_server = Replying [ack (response i ''ApplyPlan'' p)] (StartStream 0), bk_stream = None\<rparr>"
  using assms
  by (simp add: broker_next_def start_broker_def read_command_def dispatch_def reply_def response_def)

section \<open>A session\<close>

definition sample_config :: config where
  "sample_config =
     \<lparr>bc_session = ''1'', bc_journal = Wal, bc_ticks_per_stage = 0, bc_ignore_client_verification = False,
      bc_elevated = True, bc_version = ''0'', bc_pid = 7, bc_database_path = ''b.db''\<rparr>"

definition sample_opened :: open_outcome where
  "sample_opened = \<lparr>oo_open = None, oo_journal = Inr ''wal'', oo_schema = None, oo_insert = None\<rparr>"

definition sample_apply :: envelope where
  "sample_apply = response (Some ''c1'') ''ApplyPlan'' (json_object [])"

definition sample_resume :: "64 word \<Rightarrow> envelope" where
  "sample_resume n = response (Some ''c2'') ''JobResume'' (json_object [(''from_seq'', json_u64_of n)])"

definition sample_command :: "envelope \<Rightarrow> action" where
  "sample_command command = Reads (Inr command) sample_opened ''t''"

text \<open>A client starts the job, gets two events and is gone; another asks for the rest.\<close>

definition sample_start :: "action list" where
  "sample_start =
     [Accepts (Inr ()), sample_command sample_apply, Writes Written]
     @ replicate 4 (JobActs True ''t'') @ [Fetches, Writes Written]"

definition sample_rest :: "action list" where
  "sample_rest =
     [Writes ReaderGone] @ replicate 28 (JobActs True ''t'')
     @ [Accepts (Inr ()), sample_command (sample_resume 1), Writes Written]"

fun run_from_start :: "action list \<Rightarrow> (broker \<Rightarrow> 'a) \<Rightarrow> 'a option" where
  "run_from_start as f = map_option f (broker_run sample_config as (start_broker empty_database))"

lemma sample_reachable:
  assumes "run_from_start as f = Some x"
  shows "\<exists>bk. reachable sample_config bk \<and> f bk = x"
proof -
  from assms obtain bk where "broker_run sample_config as (start_broker empty_database) = Some bk" "x = f bk"
    by auto
  with reachable_run [OF reachable_start] show ?thesis by blast
qed

lemma sample_cut_off:
  "\<exists>bk e. reachable sample_config bk \<and> bk_stream bk = Some (0, [e]) \<and> bk_server bk \<notin> range Serving
     \<and> bk_job bk \<noteq> None \<and> broker_next sample_config (Writes Written) bk \<noteq> None"
proof -
  have "run_from_start sample_start (\<lambda>bk. (map_option (\<lambda>(from, got). (from, map en_seq got)) (bk_stream bk),
      (case bk_server bk of Serving _ \<Rightarrow> False | _ \<Rightarrow> True), bk_job bk = None,
      broker_next sample_config (Writes Written) bk = None)) = Some (Some (0, [Some 1]), True, False, False)"
    by code_simp
  from sample_reachable [OF this] show ?thesis by (auto simp: map_eq_Cons_conv)
qed

lemma sample_resumed:
  "\<exists>bk. reachable sample_config bk \<and> bk_server bk = Fetching 1 \<and> bk_stream bk = Some (1, [])
     \<and> job_has_finished (bk_job bk)"
proof -
  have "run_from_start (sample_start @ sample_rest) (\<lambda>bk. (bk_stream bk, bk_server bk, job_has_finished (bk_job bk)))
      = Some (Some (1, []), Fetching 1, True)"
    by code_simp
  from sample_reachable [OF this] show ?thesis by blast
qed

lemma sample_streamed:
  "\<exists>bk rest. reachable sample_config bk \<and> bk_server bk = Serving 15 \<and> bk_stream bk = Some (1, rest)
     \<and> map en_seq rest = map (\<lambda>n. Some (of_nat n)) [2..<16]"
proof -
  have "run_from_start (sample_start @ sample_rest @ Fetches # replicate 14 (Writes Written))
      (\<lambda>bk. (map_option (\<lambda>(from, got). (from, map en_seq got)) (bk_stream bk), bk_server bk))
      = Some (Some (1, map (\<lambda>n. Some (of_nat n)) [2..<16]), Serving 15)"
    by code_simp
  from sample_reachable [OF this] show ?thesis by auto
qed

text \<open>A segment of the sample, what a reconnection brings, and a step of the feed.\<close>

theorem stream_is_segment_witness:
  "\<exists>rest. rest = drop (unat (1 :: 64 word)) (broker_script sample_config) \<and> length rest = 14"
proof -
  obtain bk rest where "reachable sample_config bk" and "bk_server bk = Serving 15"
    and "bk_stream bk = Some (1, rest)" and "map en_seq rest = map (\<lambda>n. Some (of_nat n)) [2..<16]"
    using sample_streamed by blast
  then have "rest = drop (unat (1 :: 64 word)) (broker_script sample_config)" and "length (map en_seq rest) = 14"
    using stream_is_segment [of sample_config bk 1 rest] by auto
  then show ?thesis by auto
qed

theorem reconnect_is_exact_witness:
  "\<exists>e rest. e # rest = broker_script sample_config \<and> length rest = 14"
proof -
  obtain bk rest where rest: "reachable sample_config bk" "bk_server bk = Serving 15"
    "bk_stream bk = Some (1, rest)" "map en_seq rest = map (\<lambda>n. Some (of_nat n)) [2..<16]"
    using sample_streamed by blast
  obtain bk' e where e: "reachable sample_config bk'" "bk_stream bk' = Some (0, [e])"
    using sample_cut_off by blast
  have "[e] @ rest = broker_script sample_config"
    by (rule reconnect_is_exact [OF e rest(1)]) (simp_all add: rest)
  moreover have "length rest = 14" using arg_cong [OF rest(4), of length] by simp
  ultimately show ?thesis by auto
qed

theorem broker_refines_feed_witness:
  "\<exists>e e'. feed_step (broker_script sample_config) (0, [e]) e' (0, [e, e'])"
proof -
  obtain bk e bk' where bk: "reachable sample_config bk" "bk_stream bk = Some (0, [e])"
    "broker_next sample_config (Writes Written) bk = Some bk'" "bk_server bk \<notin> range Serving" "bk_job bk \<noteq> None"
    using sample_cut_off by auto
  then have "\<exists>e'. bk_stream bk' = Some (0, [e, e'])"
  proof (cases rule: broker_next_cases [OF bk(3)])
    case (1 ok now j)
    then show ?thesis by simp
  next
    case (5 w x es nx)
    with bk(2) reachable_sound [OF bk(1)] show ?thesis by (simp add: sound_def streaming_def)
  next
    case (6 w x es finished c)
    with bk(2) show ?thesis by (simp add: write_event_def)
  qed simp_all
  with broker_refines_feed [OF bk(1,3,2)] show ?thesis by fastforce
qed

theorem job_outlives_clients_witness:
  "\<exists>bk j. broker_run sample_config (Writes ReaderGone # replicate 30 (JobActs False [])) bk \<noteq> None
     \<and> bk_job (the (broker_run sample_config (Writes ReaderGone # replicate 30 (JobActs False [])) bk)) = Some j
     \<and> el_events (jb_log j) = broker_script sample_config"
proof -
  let ?as = "Writes ReaderGone # replicate 30 (JobActs False [])"
  have "run_from_start sample_start (\<lambda>bk. (bk_job bk = None, broker_run sample_config ?as bk = None))
      = Some (False, False)"
    by code_simp
  from sample_reachable [OF this] obtain bk bk' where "reachable sample_config bk" "bk_job bk \<noteq> None"
    "broker_run sample_config ?as bk = Some bk'" by blast
  moreover have "7 * (unat (bc_ticks_per_stage sample_config) + 4) + 2 \<le> length (filter is_job_action ?as)"
    by (simp add: sample_config_def)
  ultimately show ?thesis
    using job_outlives_clients [of sample_config bk ?as bk'] by (intro exI [of _ bk]) auto
qed

theorem stream_completes_witness:
  "\<exists>bk start. reachable sample_config bk \<and> bk_server bk \<in> range Serving
     \<and> bk_stream bk = Some (start, drop (unat start) (broker_script sample_config))"
proof -
  obtain bk where bk: "reachable sample_config bk" "bk_server bk = Fetching 1" "job_has_finished (bk_job bk)"
    using sample_resumed by blast
  show ?thesis using stream_completes [OF bk] reachable_run [OF bk(1)] by blast
qed

theorem envelopes_well_formed_witness:
  "\<exists>bk e. reachable sample_config bk \<and> bk_server bk = Replying [e] (StartStream 0)
     \<and> en_kind e = ''Ack'' \<and> en_seq e = None"
proof -
  have "run_from_start [Accepts (Inr ()), sample_command sample_apply]
      (\<lambda>bk. case bk_server bk of Replying es (StartStream c) \<Rightarrow> Some (map en_kind es, c) | _ \<Rightarrow> None)
      = Some (Some ([''Ack''], 0))"
    by code_simp
  from sample_reachable [OF this] obtain bk where r: "reachable sample_config bk"
    and "(case bk_server bk of Replying es (StartStream c) \<Rightarrow> Some (map en_kind es, c) | _ \<Rightarrow> None)
      = Some ([''Ack''], 0)" by blast
  then obtain e where bk: "bk_server bk = Replying [e] (StartStream 0)" "en_kind e = ''Ack''"
    by (auto split: server.splits next_step.splits)
  have "en_seq e = None"
    using envelopes_well_formed [OF r, THEN conjunct1, rule_format, OF bk(1), of e] by simp
  with r bk show ?thesis by blast
qed

end
