(* ===== verification/Broker_Access.thy ===== *)
theory Broker_Access
  imports Broker_Props
begin

text \<open>
  Whose commands the broker spike obeys: the check of a client (\<open>Client_Check\<close>, \<open>admit\<close> of
  \<open>main.rs\<close>) and the loop that serves it (\<open>Broker\<close>) taken together, over every run.
\<close>

section \<open>The client being served\<close>

fun is_accept :: "action \<Rightarrow> bool" where
  "is_accept (Accepts _) = True"
| "is_accept _ = False"

text \<open>The actions that obey a client: reading its frame, writing to it, fetching events for it.\<close>

fun for_client :: "action \<Rightarrow> bool" where
  "for_client (Reads _ _ _) = True"
| "for_client (Writes _) = True"
| "for_client Fetches = True"
| "for_client _ = False"

definition has_client :: "broker \<Rightarrow> bool" where
  "has_client bk \<longleftrightarrow> bk_server bk \<noteq> Accepting \<and> bk_server bk \<noteq> Stopped"

text \<open>The step at \<open>i\<close> admitted a client, and no client came after it before step \<open>n\<close>.\<close>

definition admitted_at :: "action list \<Rightarrow> nat \<Rightarrow> nat \<Rightarrow> bool" where
  "admitted_at as n i \<longleftrightarrow>
     i < n \<and> as ! i = Accepts (Inr ()) \<and> (\<forall>j. i < j \<and> j < n \<longrightarrow> \<not> is_accept (as ! j))"

lemma broker_run_append:
  "broker_run cfg (xs @ ys) bk = Option.bind (broker_run cfg xs bk) (broker_run cfg ys)"
  by (induction xs arbitrary: bk) (auto split: bind_splits)

lemma broker_run_split:
  assumes "broker_run cfg as bk = Some bk'" and "as = earlier @ a # later"
  obtains b b' where "broker_run cfg earlier bk = Some b" "broker_next cfg a b = Some b'"
  using assms by (auto simp: broker_run_append bind_eq_Some_conv)

lemma for_client_has_client:
  "broker_next cfg a bk = Some bk' \<Longrightarrow> for_client a \<Longrightarrow> has_client bk"
  by (cases a; cases "bk_server bk") (auto simp: broker_next_def has_client_def)

lemma client_comes_from:
  assumes "broker_next cfg a bk = Some bk'" and "has_client bk'"
    and "\<not> bc_ignore_client_verification cfg"
  shows "a = Accepts (Inr ()) \<or> \<not> is_accept a \<and> has_client bk"
  using assms
  by (cases a; cases "bk_server bk") (auto simp: broker_next_def has_client_def split: if_splits)

lemma client_was_admitted:
  assumes "broker_run cfg as (start_broker db) = Some bk" and "has_client bk"
    and "\<not> bc_ignore_client_verification cfg"
  shows "\<exists>i. admitted_at as (length as) i"
  using assms(1,2)
proof (induction as arbitrary: bk rule: rev_induct)
  case Nil
  then show ?case by (auto simp: start_broker_def has_client_def)
next
  case (snoc a as)
  then obtain b where b: "broker_run cfg as (start_broker db) = Some b" "broker_next cfg a b = Some bk"
    by (auto simp: broker_run_append bind_eq_Some_conv)
  from client_comes_from [OF b(2) snoc.prems(2) assms(3)] show ?case
  proof
    assume "a = Accepts (Inr ())"
    then show ?thesis by (intro exI [of _ "length as"]) (auto simp: admitted_at_def)
  next
    assume a: "\<not> is_accept a \<and> has_client b"
    with snoc.IH [OF b(1)] obtain i where "admitted_at as (length as) i" by blast
    with a have "admitted_at (as @ [a]) (length (as @ [a])) i"
      by (auto simp: admitted_at_def nth_append less_Suc_eq)
    then show ?thesis by blast
  qed
qed

text \<open>
  C24. Unless the check was switched off (\<open>--ignore-client-verification\<close>), whatever the broker
  does for a client -- reading a command of it, answering, fetching or sending events -- it does
  for a process that was checked when it connected: in every run, the last client to come before
  that step was one that Windows named, that existed before the broker asked, and whose image lies
  in the broker's own directory under the expected name, up to the case of ASCII letters.
\<close>

theorem only_own_clients_are_served:
  assumes "broker_run cfg as (start_broker db) = Some bk"
    and "\<not> bc_ignore_client_verification cfg"
    and "\<forall>i < length as. is_accept (as ! i) \<longrightarrow>
          as ! i = Accepts (admit_client (identify i) (pid i) (asked i) broker_image expected)"
    and "n < length as" and "for_client (as ! n)"
  shows "\<exists>i < n. as ! i = Accepts (Inr ()) \<and> (\<forall>j. i < j \<and> j < n \<longrightarrow> \<not> is_accept (as ! j)) \<and>
    (\<exists>identity directory client_directory. identify i (pid i) = Inr identity
       \<and> predates identity (asked i)
       \<and> path_parent broker_image = Some directory
       \<and> path_parent (ci_image_path identity) = Some client_directory
       \<and> eq_ignore_ascii_case directory client_directory
       \<and> eq_ignore_ascii_case (file_name_of (ci_image_path identity)) expected)"
proof -
  let ?earlier = "take n as"
  have "as = ?earlier @ as ! n # drop (Suc n) as" by (rule id_take_nth_drop [OF assms(4)])
  then obtain b b' where run: "broker_run cfg ?earlier (start_broker db) = Some b"
    and step: "broker_next cfg (as ! n) b = Some b'"
    using broker_run_split assms(1) by metis
  from client_was_admitted [OF run for_client_has_client [OF step assms(5)] assms(2)] assms(4)
  obtain i where i: "admitted_at as n i" by (auto simp: admitted_at_def)
  then have "Accepts (Inr ()) = Accepts (admit_client (identify i) (pid i) (asked i) broker_image expected)"
    using assms(3,4) by (auto simp: admitted_at_def)
  then have "admit_client (identify i) (pid i) (asked i) broker_image expected = Inr ()" by simp
  with i show ?thesis unfolding admitted_at_def admit_client_iff by blast
qed

text \<open>A stranger comes and is turned away, then the broker's own client asks for the status.\<close>

definition sample_image :: string where
  "sample_image = win ''C:/WS/broker.exe''"

definition sample_client :: "string \<Rightarrow> client_identity" where
  "sample_client path = \<lparr>ci_pid = 4, ci_image_path = path, ci_created_ticks = 0\<rparr>"

definition sample_identify :: "nat \<Rightarrow> 32 word \<Rightarrow> string + client_identity" where
  "sample_identify i _ =
     Inr (sample_client (if i = 0 then win ''C:/Temp/ui.exe'' else win ''c:/ws/UI.exe''))"

definition sample_verdict :: "nat \<Rightarrow> string + unit" where
  "sample_verdict i = admit_client (sample_identify i) 4 (Some (0, 0)) sample_image ''ui.exe''"

definition sample_visits :: "action list" where
  "sample_visits =
     [Accepts (sample_verdict 0), Accepts (sample_verdict 1),
      sample_command (response None ''JobStatus'' JsonNull)]"

theorem only_own_clients_are_served_witness:
  "\<exists>i < 2. \<exists>identity. sample_identify i 4 = Inr identity
     \<and> eq_ignore_ascii_case (file_name_of (ci_image_path identity)) ''ui.exe''
     \<and> path_parent (ci_image_path identity) \<noteq> path_parent (win ''C:/Temp/ui.exe'')"
proof -
  have "sample_verdict 0 \<noteq> Inr ()" "sample_verdict 1 = Inr ()" by code_simp+
  then have "broker_run sample_config sample_visits (start_broker empty_database) \<noteq> None"
    by (simp add: sample_visits_def broker_next_def start_broker_def sample_config_def sample_command_def)
  then obtain bk where run: "broker_run sample_config sample_visits (start_broker empty_database) = Some bk"
    by blast
  have "\<forall>i < length sample_visits. is_accept (sample_visits ! i) \<longrightarrow>
      sample_visits ! i = Accepts (admit_client (sample_identify i) 4 (Some (0, 0)) sample_image ''ui.exe'')"
    by (simp add: sample_visits_def sample_verdict_def sample_command_def less_Suc_eq all_conj_distrib
        nth_Cons split: nat.split)
  from only_own_clients_are_served [OF run _ this, of 2]
  obtain i identity directory client_directory where found: "i < 2" "sample_identify i 4 = Inr identity"
    "path_parent sample_image = Some directory"
    "path_parent (ci_image_path identity) = Some client_directory"
    "eq_ignore_ascii_case directory client_directory"
    "eq_ignore_ascii_case (file_name_of (ci_image_path identity)) ''ui.exe''"
    by (auto simp: sample_config_def sample_visits_def sample_command_def)
  have places: "path_parent sample_image = Some (win ''C:/WS'')"
    "path_parent (win ''C:/Temp/ui.exe'') = Some (win ''C:/Temp'')"
    "\<not> eq_ignore_ascii_case (win ''C:/WS'') (win ''C:/Temp'')" by code_simp+
  then have "path_parent (ci_image_path identity) \<noteq> path_parent (win ''C:/Temp/ui.exe'')"
    using found(3-5) by auto
  with found(1,2,6) show ?thesis by blast
qed

end
