(* ===== verification/Scan_Model.thy ===== *)
theory Scan_Model
  imports Schema
begin

text \<open>
  What an audit reads and what it reports, after \<open>core/src/scan/view.rs\<close> and
  \<open>core/src/scan/model.rs\<close>.  The \<open>MachineView\<close> trait is a record of functions: every theorem
  about an audit holds for every machine.  Writing one record as JSON belongs to
  \<open>serde_json\<close> and is a parameter of \<open>to_ndjson\<close>.
\<close>

section \<open>The machine\<close>

datatype 'a lookup = Found 'a | Absent | Unreadable string

record service_status =
  ss_image :: string
  ss_stale :: bool

record service_key_info =
  sk_name :: string
  sk_image :: string
  sk_service_type :: "32 word"

definition is_driver :: "service_key_info \<Rightarrow> bool" where
  "is_driver k \<longleftrightarrow> sk_service_type k = 1 \<or> sk_service_type k = 2 \<or> sk_service_type k = 8"

record driver_keys =
  dk_drivers :: "service_key_info list"
  dk_unreadable :: "(string \<times> string) list"

datatype file_kind = IsFile | IsDirectory | IsReparsePoint

datatype signature = Verified string | Unsigned | Invalid | UnknownSignature string

datatype reg_view = View64 | View32

record machine_view =
  mv_service :: "string \<Rightarrow> service_status lookup"
  mv_service_key :: "string \<Rightarrow> service_key_info lookup"
  mv_driver_keys :: "driver_keys lookup"
  mv_registry_key :: "string \<Rightarrow> reg_view \<Rightarrow> unit lookup"
  mv_path :: "string \<Rightarrow> file_kind lookup"
  mv_signature :: "string \<Rightarrow> signature"

section \<open>The report\<close>

definition report_version :: "32 word" where
  "report_version = 1"

datatype classification = Confirmed | Probable | Suspicious

datatype artifact =
    ServiceArtifact string "string option" bool
  | DriverArtifact string "string option" string bool
  | RegistryKeyArtifact string reg_view
  | PathArtifact string bool

record finding =
  fd_anticheat :: string
  fd_risk :: risk
  fd_artifact :: artifact
  fd_classification :: classification
  fd_evidence :: "string list"

record protected_item =
  pr_anticheat :: string
  pr_target :: string
  pr_reason :: string

record unreadable_item =
  un_anticheat :: "string option"
  un_item :: string
  un_reason :: string

record disbelieved_item =
  db_anticheat :: string
  db_item :: string
  db_reason :: string

record report =
  rp_v :: "32 word"
  rp_findings :: "finding list"
  rp_protected :: "protected_item list"
  rp_disbelieved :: "disbelieved_item list"
  rp_unreadable :: "unreadable_item list"

definition partial :: "report \<Rightarrow> bool" where
  "partial r \<longleftrightarrow> rp_unreadable r \<noteq> []"

definition count_of :: "report \<Rightarrow> classification \<Rightarrow> nat" where
  "count_of r c = length (filter (\<lambda>f. fd_classification f = c) (rp_findings r))"

section \<open>The report as JSON lines\<close>

record summary =
  sm_findings :: nat
  sm_confirmed :: nat
  sm_probable :: nat
  sm_suspicious :: nat
  sm_protected :: nat
  sm_disbelieved :: nat
  sm_unreadable :: nat
  sm_partial :: bool

datatype json_body =
  FindingBody finding | ProtectedBody protected_item | DisbelievedBody disbelieved_item
  | UnreadableBody unreadable_item | SummaryBody summary

record json_record =
  jr_v :: "32 word"
  jr_type :: string
  jr_body :: json_body

definition record_of :: "json_body \<Rightarrow> json_record" where
  "record_of body =
     \<lparr>jr_v = report_version,
      jr_type = (case body of
                   FindingBody _ \<Rightarrow> ''finding''
                 | ProtectedBody _ \<Rightarrow> ''protected''
                 | DisbelievedBody _ \<Rightarrow> ''disbelieved''
                 | UnreadableBody _ \<Rightarrow> ''unreadable''
                 | SummaryBody _ \<Rightarrow> ''summary''),
      jr_body = body\<rparr>"

definition summary_of :: "report \<Rightarrow> summary" where
  "summary_of r =
     \<lparr>sm_findings = length (rp_findings r),
      sm_confirmed = count_of r Confirmed,
      sm_probable = count_of r Probable,
      sm_suspicious = count_of r Suspicious,
      sm_protected = length (rp_protected r),
      sm_disbelieved = length (rp_disbelieved r),
      sm_unreadable = length (rp_unreadable r),
      sm_partial = partial r\<rparr>"

definition report_records :: "report \<Rightarrow> json_record list" where
  "report_records r =
     map (record_of \<circ> FindingBody) (rp_findings r)
     @ map (record_of \<circ> ProtectedBody) (rp_protected r)
     @ map (record_of \<circ> DisbelievedBody) (rp_disbelieved r)
     @ map (record_of \<circ> UnreadableBody) (rp_unreadable r)
     @ [record_of (SummaryBody (summary_of r))]"

text \<open>The lines in order, each written by \<open>serde_json\<close>; the first error ends the writing.\<close>

fun write_lines :: "(json_record \<Rightarrow> 'e + string) \<Rightarrow> json_record list \<Rightarrow> 'e + string list" where
  "write_lines write [] = Inr []"
| "write_lines write (r # rs) =
     (case write r of
        Inl e \<Rightarrow> Inl e
      | Inr line \<Rightarrow> map_sum id (\<lambda>ls. line # ls) (write_lines write rs))"

text \<open>\<open>lines.join("\n")\<close> and the closing newline.\<close>

definition newline :: char where
  "newline = CHR 0x0A"

fun join_lines :: "string list \<Rightarrow> string" where
  "join_lines [] = []"
| "join_lines [l] = l"
| "join_lines (l # ls) = l @ newline # join_lines ls"

definition to_ndjson :: "(json_record \<Rightarrow> 'e + string) \<Rightarrow> report \<Rightarrow> 'e + string" where
  "to_ndjson write r =
     map_sum id (\<lambda>ls. join_lines ls @ [newline]) (write_lines write (report_records r))"

lemma write_lines_Inr:
  "write_lines write rs = Inr ls \<longleftrightarrow> list_all2 (\<lambda>r l. write r = Inr l) rs ls"
proof (induction rs arbitrary: ls)
  case Nil
  then show ?case by auto
next
  case (Cons r rs)
  show ?case
  proof (cases "write r")
    case (Inl e)
    then show ?thesis by (auto simp: list_all2_Cons1)
  next
    case (Inr l)
    then show ?thesis using Cons by (cases "write_lines write rs") (auto simp: list_all2_Cons1)
  qed
qed

lemma split_join_lines:
  "ls \<noteq> [] \<Longrightarrow> list_all (\<lambda>l. newline \<notin> set l) ls \<Longrightarrow>
   split_char newline (join_lines ls @ [newline]) = ls @ [[]]"
proof (induction ls rule: join_lines.induct)
  case (2 l)
  then have "split_char newline l = [l]" by (auto intro: split_on_none)
  then show ?case
    using split_on_append_sep [of "\<lambda>c. c = newline" newline l "[]"] by simp
next
  case (3 l l' ls)
  have "split_char newline (l @ newline # (join_lines (l' # ls) @ [newline]))
      = split_char newline l @ split_char newline (join_lines (l' # ls) @ [newline])"
    by (rule split_on_append_sep) simp
  moreover have "split_char newline l = [l]" using "3.prems" by (auto intro: split_on_none)
  ultimately show ?case using 3 by simp
qed simp

lemma counts_add: "count_of r Confirmed + count_of r Probable + count_of r Suspicious = length (rp_findings r)"
proof -
  have "length (filter (\<lambda>f. fd_classification f = Confirmed) fs)
      + length (filter (\<lambda>f. fd_classification f = Probable) fs)
      + length (filter (\<lambda>f. fd_classification f = Suspicious) fs) = length fs" for fs
  proof (induction fs)
    case (Cons f fs)
    then show ?case by (cases "fd_classification f") simp_all
  qed simp
  then show ?thesis by (simp add: count_of_def)
qed

text \<open>
  When every record is written on one line, the text splits back into one line per
  finding, protected, disbelieved and unreadable item in that order, each of the report's
  version, and a closing summary whose three classification counts add up to its findings.
\<close>

theorem ndjson_lines:
  assumes "to_ndjson write r = Inr out" and "\<And>j l. write j = Inr l \<Longrightarrow> newline \<notin> set l"
  shows "list_all2 (\<lambda>j l. write j = Inr l \<and> jr_v j = report_version)
      (report_records r) (butlast (split_char newline out))
    \<and> last (split_char newline out) = []
    \<and> sm_confirmed (summary_of r) + sm_probable (summary_of r) + sm_suspicious (summary_of r)
        = sm_findings (summary_of r)"
proof -
  obtain ls where ls: "write_lines write (report_records r) = Inr ls"
    and joined: "out = join_lines ls @ [newline]"
    using assms(1) by (cases "write_lines write (report_records r)") (auto simp: to_ndjson_def)
  from ls have all: "list_all2 (\<lambda>j l. write j = Inr l) (report_records r) ls"
    by (simp add: write_lines_Inr)
  then have "ls \<noteq> []" by (auto simp: report_records_def)
  moreover have "list_all (\<lambda>l. newline \<notin> set l) ls"
    using all assms(2) by (fastforce simp: list_all_length list_all2_conv_all_nth)
  ultimately have "split_char newline out = ls @ [[]]" by (simp add: joined split_join_lines)
  moreover have "list_all (\<lambda>j. jr_v j = report_version) (report_records r)"
    by (auto simp: report_records_def record_of_def list_all_iff)
  then have "list_all2 (\<lambda>j l. write j = Inr l \<and> jr_v j = report_version) (report_records r) ls"
    using all by (simp add: list_all2_conv_all_nth list_all_length)
  ultimately show ?thesis
    by (simp add: summary_of_def counts_add)
qed

theorem ndjson_lines_witness:
  "split_char newline (''finding'' @ newline # ''summary'' @ [newline]) = [''finding'', ''summary'', []]
   \<and> last (split_char newline (''finding'' @ newline # ''summary'' @ [newline])) = []"
proof -
  let ?f = "\<lparr>fd_anticheat = ''x'', fd_risk = Low, fd_artifact = PathArtifact ''p'' False,
      fd_classification = Probable, fd_evidence = []\<rparr>"
  let ?r = "\<lparr>rp_v = 1, rp_findings = [?f], rp_protected = [], rp_disbelieved = [], rp_unreadable = []\<rparr>"
  let ?w = "\<lambda>j. Inr (if jr_type j = ''finding'' then ''finding'' else ''summary'') :: unit + string"
  have written: "to_ndjson ?w ?r = Inr (''finding'' @ newline # ''summary'' @ [newline])"
    by (simp add: to_ndjson_def report_records_def record_of_def)
  have "newline \<notin> set l" if "?w j = Inr l" for j l
    using that by (cases "jr_type j = ''finding''") (auto simp: newline_def)
  from ndjson_lines [OF written this] show ?thesis
    by (auto simp: newline_def)
qed

end
