(* ===== verification/Engine.thy ===== *)
theory Engine
  imports Scan_Model Validate
begin

text \<open>
  The audit of \<open>core/src/scan/engine.rs\<close>: every catalog entry matched against the machine.
  The mutable report and the list of pending findings are a state that every operation takes
  and returns; an operation that canonicalises can panic and returns a \<open>run\<close>.  Byte slices
  that follow an ASCII match cannot panic and are \<open>take\<close> and \<open>drop\<close>.
\<close>

section \<open>The environment\<close>

record environment =
  env_values :: "string \<rightharpoonup> string list"
  env_unreadable :: "(string \<times> string) list"

definition new_environment :: environment where
  "new_environment = \<lparr>env_values = Map.empty, env_unreadable = []\<rparr>"

definition with_values :: "environment \<Rightarrow> string \<Rightarrow> string list \<Rightarrow> environment" where
  "with_values env name vals = env\<lparr>env_values := (env_values env)(to_ascii_uppercase name \<mapsto> vals)\<rparr>"

definition with_unreadable :: "environment \<Rightarrow> string \<Rightarrow> string \<Rightarrow> environment" where
  "with_unreadable env item reason = env\<lparr>env_unreadable := env_unreadable env @ [(item, reason)]\<rparr>"

definition env_lookup :: "environment \<Rightarrow> string \<Rightarrow> string list option" where
  "env_lookup env name = env_values env (to_ascii_uppercase name)"

definition system_root :: "environment \<Rightarrow> string" where
  "system_root env =
     (case env_lookup env ''SystemRoot'' of
        Some (first # _) \<Rightarrow> first
      | _ \<Rightarrow> win ''C:/Windows'')"

section \<open>Reading an image path\<close>

definition quote :: char where
  "quote = CHR 0x22"

definition image_text :: "string \<Rightarrow> string" where
  "image_text configured =
     (let text = trim configured in
      case strip_prefix text [quote] of
        Some quoted \<Rightarrow> takeWhile (\<lambda>c. c \<noteq> quote) quoted
      | None \<Rightarrow>
          let lowered = to_ascii_lowercase text;
              ends = List.map_filter
                (\<lambda>extension. map_option (\<lambda>at. at + length extension) (find_sub lowered extension))
                [''.exe'', ''.sys'', ''.dll'']
          in case ends of
               [] \<Rightarrow> text
             | e # es \<Rightarrow> take (fold min es e) text)"

definition image_file :: "string \<Rightarrow> string \<Rightarrow> string option" where
  "image_file configured root =
     (let text = trim (image_text configured) in
      if text = [] then None
      else
        let lowered = to_ascii_lowercase text in
        Some (case strip_prefix lowered (win ''/systemroot/'') of
                Some rest \<Rightarrow> root @ [backslash] @ drop (length text - length rest) text
              | None \<Rightarrow>
                  (case strip_prefix lowered (win ''%systemroot%/'') of
                     Some rest \<Rightarrow> root @ [backslash] @ drop (length text - length rest) text
                   | None \<Rightarrow>
                       if starts_with lowered (win ''/??/'') then drop 4 text
                       else if starts_with lowered (win ''system32/'') then root @ [backslash] @ text
                       else text)))"

definition file_name :: "string \<Rightarrow> string option" where
  "file_name path =
     (let name = last (split_char backslash path) in if name \<noteq> [] then Some name else None)"

definition is_signable :: "string \<Rightarrow> bool" where
  "is_signable path \<longleftrightarrow>
     list_ex (\<lambda>extension. ends_with (to_ascii_lowercase path) extension)
       [''.exe'', ''.dll'', ''.sys'', ''.msi'']"

definition describe :: "file_kind \<Rightarrow> string" where
  "describe k =
     (case k of
        IsFile \<Rightarrow> ''the file''
      | IsDirectory \<Rightarrow> ''the directory''
      | IsReparsePoint \<Rightarrow> ''a link'')"

section \<open>Judging a signature\<close>

definition attestation_signer :: string where
  "attestation_signer = ''Microsoft Windows Hardware Compatibility Publisher''"

definition ours :: "anti_cheat \<Rightarrow> string \<Rightarrow> bool" where
  "ours entry signer \<longleftrightarrow> list_ex (\<lambda>name. eq_ignore_ascii_case name signer) (ac_authenticode_cn entry)"

definition judge :: "signature \<Rightarrow> anti_cheat \<Rightarrow> classification \<times> string" where
  "judge sig entry =
     (case sig of
        Verified signer \<Rightarrow>
          if eq_ignore_ascii_case signer attestation_signer then
            (Probable, ''signed by '' @ signer
               @ '', Microsoft'' @ [CHR 0x27] @ ''s attestation of a kernel driver, which names no vendor to check'')
          else if ours entry signer then (Confirmed, ''signed by '' @ signer)
          else if ac_authenticode_cn entry = [] then
            (Probable, ''signed by '' @ signer @ ''; the catalog names no publisher to check it against'')
          else (Suspicious, ''signed by '' @ signer @ '', not by the publisher the catalog names'')
      | Unsigned \<Rightarrow> (Suspicious, ''not signed'')
      | Invalid \<Rightarrow> (Suspicious, ''its signature does not verify'')
      | UnknownSignature reason \<Rightarrow>
          (Probable, ''its signature could not be checked ('' @ reason @ ''), which is unknown, not unsigned''))"

section \<open>The state of one entry's audit\<close>

record pending =
  pd_artifact :: artifact
  pd_evidence :: "string list"
  pd_judged :: "classification option"

record audit_state =
  st_report :: report
  st_found :: "pending list"

record audit_context =
  cx_entry :: anti_cheat
  cx_exceptions :: exceptions
  cx_machine :: machine_view
  cx_environment :: environment
  cx_driver_keys :: "service_key_info list"

definition push_found :: "pending \<Rightarrow> audit_state \<Rightarrow> audit_state" where
  "push_found p st = st\<lparr>st_found := st_found st @ [p]\<rparr>"

definition push_unreadable :: "audit_context \<Rightarrow> string \<Rightarrow> string \<Rightarrow> audit_state \<Rightarrow> audit_state" where
  "push_unreadable cx item reason st =
     st\<lparr>st_report := (st_report st)\<lparr>rp_unreadable := rp_unreadable (st_report st)
       @ [\<lparr>un_anticheat = Some (ac_id (cx_entry cx)), un_item = item, un_reason = reason\<rparr>]\<rparr>\<rparr>"

definition push_protected :: "audit_context \<Rightarrow> string \<Rightarrow> string \<Rightarrow> audit_state \<Rightarrow> audit_state" where
  "push_protected cx target reason st =
     st\<lparr>st_report := (st_report st)\<lparr>rp_protected := rp_protected (st_report st)
       @ [\<lparr>pr_anticheat = ac_id (cx_entry cx), pr_target = target, pr_reason = reason\<rparr>]\<rparr>\<rparr>"

definition push_disbelieved :: "audit_context \<Rightarrow> string \<Rightarrow> string \<Rightarrow> audit_state \<Rightarrow> audit_state" where
  "push_disbelieved cx item reason st =
     st\<lparr>st_report := (st_report st)\<lparr>rp_disbelieved := rp_disbelieved (st_report st)
       @ [\<lparr>db_anticheat = ac_id (cx_entry cx), db_item = item, db_reason = reason\<rparr>]\<rparr>\<rparr>"

definition services_key :: string where
  "services_key = win ''HKLM/SYSTEM/CurrentControlSet/Services''"

section \<open>Services\<close>

definition judge_image :: "audit_context \<Rightarrow> string \<Rightarrow> classification \<times> string" where
  "judge_image cx img = judge (mv_signature (cx_machine cx) img) (cx_entry cx)"

text \<open>The signature's word on a configured image, and the evidence it adds.\<close>

definition image_verdict :: "audit_context \<Rightarrow> string \<Rightarrow> classification option \<times> string list" where
  "image_verdict cx configured =
     (case image_file configured (system_root (cx_environment cx)) of
        None \<Rightarrow> (None, [])
      | Some img \<Rightarrow>
          (case mv_path (cx_machine cx) img of
             Found IsFile \<Rightarrow>
               (Some (fst (judge_image cx img)),
                [''image `'' @ img @ ''`: '' @ snd (judge_image cx img)])
           | Unreadable reason \<Rightarrow> (None, [''image `'' @ img @ ''` could not be read: '' @ reason])
           | _ \<Rightarrow> (None, [''image `'' @ img @ ''` is not on disk''])))"

definition with_image ::
    "audit_context \<Rightarrow> artifact \<Rightarrow> string \<Rightarrow> string \<Rightarrow> audit_state \<Rightarrow> audit_state" where
  "with_image cx art configured why st =
     push_found \<lparr>pd_artifact = art, pd_evidence = why # snd (image_verdict cx configured),
                 pd_judged = fst (image_verdict cx configured)\<rparr> st"

definition scan_service :: "audit_context \<Rightarrow> string \<Rightarrow> audit_state \<Rightarrow> audit_state" where
  "scan_service cx name st =
     (case mv_service (cx_machine cx) name of
        Found status \<Rightarrow>
          if ss_stale status then
            push_disbelieved cx name
              (''the service control manager still lists it, and every query ''
               @ ''fails with \"file not found\": its key is gone and SCM has not ''
               @ ''noticed. Not reported as present.'') st
          else
            with_image cx (ServiceArtifact name (Some (ss_image status)) False) (ss_image status)
              ''the service control manager lists it'' st
      | Absent \<Rightarrow>
          (case mv_service_key (cx_machine cx) name of
             Found key \<Rightarrow>
               with_image cx
                 (ServiceArtifact name (if sk_image key \<noteq> [] then Some (sk_image key) else None) True)
                 (sk_image key)
                 (''its key is in `Services` and the service control manager does not ''
                  @ ''list it: written past SCM (docs/05)'') st
           | Absent \<Rightarrow> st
           | Unreadable reason \<Rightarrow>
               push_unreadable cx (services_key @ [backslash] @ name) reason st)
      | Unreadable reason \<Rightarrow> push_unreadable cx name reason st)"

section \<open>Drivers\<close>

definition names_file :: "audit_context \<Rightarrow> string \<Rightarrow> service_key_info \<Rightarrow> bool" where
  "names_file cx file key \<longleftrightarrow>
     (case Option.bind (image_file (sk_image key) (system_root (cx_environment cx))) file_name of
        None \<Rightarrow> False
      | Some name \<Rightarrow> eq_ignore_ascii_case name file)"

definition scan_unregistered_driver :: "audit_context \<Rightarrow> string \<Rightarrow> audit_state \<Rightarrow> audit_state" where
  "scan_unregistered_driver cx file st =
     (let img = system_root (cx_environment cx) @ win ''/System32/drivers/'' @ file in
      case mv_path (cx_machine cx) img of
        Found IsFile \<Rightarrow>
          push_found \<lparr>pd_artifact = DriverArtifact file None img True,
                      pd_evidence = [''an image with no driver key registering it'',
                                     ''image: '' @ snd (judge_image cx img)],
                      pd_judged = Some (fst (judge_image cx img))\<rparr> st
      | Unreadable reason \<Rightarrow> push_unreadable cx img reason st
      | _ \<Rightarrow> st)"

definition scan_registered_driver ::
    "audit_context \<Rightarrow> string \<Rightarrow> service_key_info \<Rightarrow> audit_state \<Rightarrow> audit_state" where
  "scan_registered_driver cx file key st =
     (let img = (case image_file (sk_image key) (system_root (cx_environment cx)) of
                     Some i \<Rightarrow> i | None \<Rightarrow> sk_image key);
          present = (mv_path (cx_machine cx) img = Found IsFile);
          registered = ''registered by `'' @ services_key @ [backslash] @ sk_name key @ ''`''
      in push_found
           \<lparr>pd_artifact = DriverArtifact file (Some (sk_name key)) img present,
            pd_evidence =
              registered #
              (if present then [''image: '' @ snd (judge_image cx img)]
               else [''the image is not on disk, which for some drivers is their normal state ''
                     @ ''while no game runs'']),
            pd_judged = (if present then Some (fst (judge_image cx img)) else None)\<rparr> st)"

definition scan_driver :: "audit_context \<Rightarrow> string \<Rightarrow> audit_state \<Rightarrow> audit_state" where
  "scan_driver cx file st =
     (let registered = filter (names_file cx file) (cx_driver_keys cx) in
      if registered = [] then scan_unregistered_driver cx file st
      else fold (scan_registered_driver cx file) registered st)"

section \<open>Registry keys\<close>

definition views :: "string \<Rightarrow> view \<Rightarrow> reg_view list" where
  "views key v =
     (let redirected = is_char_boundary key 14
            \<and> eq_ignore_ascii_case (take 14 key) (win ''HKLM/SOFTWARE/'')
      in case v of
           Bits32 \<Rightarrow> [View32]
         | Both \<Rightarrow> if redirected then [View64, View32] else [View64]
         | Bits64 \<Rightarrow> [View64])"

definition reg_view_debug :: "reg_view \<Rightarrow> string" where
  "reg_view_debug v = (case v of View64 \<Rightarrow> ''Bits64'' | View32 \<Rightarrow> ''Bits32'')"

text \<open>The reason a key is refused, if it is.\<close>

definition key_refusal :: "audit_context \<Rightarrow> string \<Rightarrow> string option run" where
  "key_refusal cx key =
     (case canonicalise_reg_key key of
        Inl e \<Rightarrow> Ret (Some (reg_key_error_text e))
      | Inr canonical \<Rightarrow>
          map_run (\<lambda>r. map_option deny_reason_text (err_of r))
            (check_registry_key canonical (cx_exceptions cx)))"

definition scan_registry_key :: "audit_context \<Rightarrow> string \<Rightarrow> reg_view \<Rightarrow> audit_state \<Rightarrow> audit_state run" where
  "scan_registry_key cx key v st =
     map_run (\<lambda>refused.
       case refused of
         Some reason \<Rightarrow> push_protected cx key reason st
       | None \<Rightarrow>
           (case mv_registry_key (cx_machine cx) key v of
              Found _ \<Rightarrow>
                push_found \<lparr>pd_artifact = RegistryKeyArtifact key v,
                            pd_evidence = [case v of
                               View64 \<Rightarrow> ''present in the 64-bit view''
                             | View32 \<Rightarrow> ''present in the 32-bit view (WOW6432Node)''],
                            pd_judged = None\<rparr> st
            | Absent \<Rightarrow> st
            | Unreadable reason \<Rightarrow>
                push_unreadable cx (key @ '' ('' @ reg_view_debug v @ '')'') reason st))
       (key_refusal cx key)"

section \<open>Paths\<close>

definition path_refusal :: "audit_context \<Rightarrow> string \<Rightarrow> file_kind \<Rightarrow> string option run" where
  "path_refusal cx path k =
     (if k = IsReparsePoint then Ret (Some (deny_reason_text ReparsePointInPath))
      else map_run (\<lambda>r. case r of
               Inl e \<Rightarrow> Some (path_error_text e)
             | Inr canonical \<Rightarrow>
                 map_option deny_reason_text
                   (err_of (check_path canonical (cx_exceptions cx) CatalogLoad)))
             (canonicalise_syntactic path))"

definition scan_expansion :: "audit_context \<Rightarrow> string \<Rightarrow> audit_state \<Rightarrow> audit_state run" where
  "scan_expansion cx path st =
     (case mv_path (cx_machine cx) path of
        Absent \<Rightarrow> Ret st
      | Unreadable reason \<Rightarrow> Ret (push_unreadable cx path reason st)
      | Found k \<Rightarrow>
          map_run (\<lambda>refused.
            case refused of
              Some reason \<Rightarrow> push_protected cx path reason st
            | None \<Rightarrow>
                let signable = (k = IsFile \<and> is_signable path) in
                push_found
                  \<lparr>pd_artifact = PathArtifact path (k = IsDirectory),
                   pd_evidence = (if signable then [snd (judge_image cx path)]
                                  else [describe k @ '' exists'']),
                   pd_judged = (if signable then Some (fst (judge_image cx path)) else None)\<rparr> st)
            (path_refusal cx path k))"

definition scan_path :: "audit_context \<Rightarrow> string \<Rightarrow> audit_state \<Rightarrow> audit_state run" where
  "scan_path cx template st =
     (case expand_with template (env_lookup (cx_environment cx)) of
        Inl e \<Rightarrow> Ret (push_unreadable cx template (''cannot be expanded: '' @ expand_error_text e) st)
      | Inr expanded \<Rightarrow> fold_run (scan_expansion cx) expanded st)"

section \<open>Settling and running\<close>

definition settle_one :: "anti_cheat \<Rightarrow> bool \<Rightarrow> bool \<Rightarrow> pending \<Rightarrow> finding" where
  "settle_one entry confirmed suspicious p =
     (let rest = (if confirmed \<and> \<not> suspicious
                  then (Confirmed, [''the entry'' @ [CHR 0x27] @ ''s signed files confirm the publisher''])
                  else (Probable, [''nothing found confirms the publisher, so this rests on the name alone'']))
      in \<lparr>fd_anticheat = ac_id entry,
          fd_risk = ac_risk entry,
          fd_artifact = pd_artifact p,
          fd_classification = (case pd_judged p of Some c \<Rightarrow> c | None \<Rightarrow> fst rest),
          fd_evidence = pd_evidence p @ (case pd_judged p of Some _ \<Rightarrow> [] | None \<Rightarrow> snd rest)\<rparr>)"

definition settle :: "audit_context \<Rightarrow> audit_state \<Rightarrow> report" where
  "settle cx st =
     (let confirmed = list_ex (\<lambda>p. pd_judged p = Some Confirmed) (st_found st);
          suspicious = list_ex (\<lambda>p. pd_judged p = Some Suspicious) (st_found st)
      in (st_report st)\<lparr>rp_findings := rp_findings (st_report st)
           @ map (settle_one (cx_entry cx) confirmed suspicious) (st_found st)\<rparr>)"

definition audit_entry :: "audit_context \<Rightarrow> report \<Rightarrow> report run" where
  "audit_entry cx r =
     (let st = \<lparr>st_report = r, st_found = []\<rparr>;
          st = fold (scan_service cx) (ac_services (cx_entry cx)) st;
          st = fold (scan_driver cx) (ac_drivers (cx_entry cx)) st
      in bind_run
           (fold_run (\<lambda>entry. fold_run (scan_registry_key cx (re_key entry))
               (views (re_key entry) (re_view entry))) (ac_registry (cx_entry cx)) st) (\<lambda>st.
         bind_run
           (fold_run (\<lambda>entry. scan_path cx (pe_path entry)) (ac_paths (cx_entry cx)) st) (\<lambda>st.
         Ret (settle cx st))))"

definition first_report :: "machine_view \<Rightarrow> environment \<Rightarrow> report" where
  "first_report machine env =
     \<lparr>rp_v = report_version, rp_findings = [], rp_protected = [], rp_disbelieved = [],
      rp_unreadable =
        map (\<lambda>(item, reason). \<lparr>un_anticheat = None, un_item = item, un_reason = reason\<rparr>)
          (env_unreadable env)
        @ (case mv_driver_keys machine of
             Found ks \<Rightarrow>
               map (\<lambda>(name, reason). \<lparr>un_anticheat = None,
                      un_item = services_key @ [backslash] @ name, un_reason = reason\<rparr>)
                 (dk_unreadable ks)
           | Absent \<Rightarrow> []
           | Unreadable reason \<Rightarrow>
               [\<lparr>un_anticheat = None, un_item = services_key, un_reason = reason\<rparr>])\<rparr>"

definition read_driver_keys :: "machine_view \<Rightarrow> service_key_info list" where
  "read_driver_keys machine =
     (case mv_driver_keys machine of Found ks \<Rightarrow> dk_drivers ks | _ \<Rightarrow> [])"

definition context_for :: "machine_view \<Rightarrow> environment \<Rightarrow> anti_cheat \<Rightarrow> audit_context" where
  "context_for machine env entry =
     \<lparr>cx_entry = entry, cx_exceptions = exceptions_for entry, cx_machine = machine,
      cx_environment = env, cx_driver_keys = read_driver_keys machine\<rparr>"

definition audit :: "catalog \<Rightarrow> machine_view \<Rightarrow> environment \<Rightarrow> report run" where
  "audit c machine env =
     fold_run (\<lambda>entry. audit_entry (context_for machine env entry)) (cat_anticheat c)
       (first_report machine env)"

end
