(* ===== verification/Windows.thy ===== *)
theory Windows
  imports Engine Libraries Std_Path Utf16
begin

text \<open>
  The machine as the scan reads it through Win32, \<open>core/src/scan/win.rs\<close>.  The calls themselves
  are a record of their answers: a status, and what was written on success.  Everything the
  code makes of an answer is here: which failures mean absence, how a listing that stops is
  reported, what a text in the registry is, what a signature is worth.
\<close>

unbundle bit_operations_syntax

section \<open>Win32\<close>

type_synonym win32_error = "32 word"

definition error_success :: win32_error where "error_success = 0"
definition error_file_not_found :: win32_error where "error_file_not_found = 2"
definition error_access_denied :: win32_error where "error_access_denied = 5"
definition error_insufficient_buffer :: win32_error where "error_insufficient_buffer = 122"
definition error_more_data :: win32_error where "error_more_data = 234"
definition error_no_more_items :: win32_error where "error_no_more_items = 259"
definition error_service_does_not_exist :: win32_error where "error_service_does_not_exist = 1060"

text \<open>The \<open>HRESULT\<close> of an error, as a \<open>windows::core::Error\<close> carries it, and its text.\<close>

definition to_hresult :: "win32_error \<Rightarrow> 32 word" where
  "to_hresult e = (if e = 0 then 0 else 0x80070000 OR (e AND 0xFFFF))"

type_synonym com_error = "32 word \<times> string"

datatype value_flag = RtSz | RtExpandSz | NoExpand | SubkeyWow6432

datatype io_failure = NotFoundError | OtherError string

text \<open>
  \<open>wn_subkeys\<close> is what \<open>RegEnumKeyExW\<close> answers at 0, 1, 2 and so on: the names up to the first
  answer that is not a success, and that answer.  \<open>wn_trust\<close> and \<open>wn_signer\<close> have the number of
  the attempt, because asking again may give another answer.  Names passed to Win32 end in a
  zero.
\<close>

record 'h win32 =
  wn_root :: "hive \<Rightarrow> 'h"
  wn_open_key :: "'h \<Rightarrow> nat list \<Rightarrow> reg_view \<Rightarrow> win32_error + 'h"
  wn_subkeys :: "'h \<Rightarrow> nat list list \<times> win32_error"
  wn_value_size :: "'h \<Rightarrow> nat list \<Rightarrow> nat list \<Rightarrow> value_flag list \<Rightarrow> win32_error \<times> 32 word"
  wn_value :: "'h \<Rightarrow> nat list \<Rightarrow> nat list \<Rightarrow> value_flag list \<Rightarrow> nat \<Rightarrow> win32_error \<times> nat list \<times> 32 word"
  wn_dword :: "'h \<Rightarrow> nat list \<Rightarrow> win32_error \<times> 32 word"
  wn_manager :: "com_error + 'h"
  wn_open_service :: "'h \<Rightarrow> nat list \<Rightarrow> com_error + 'h"
  wn_config_size :: "'h \<Rightarrow> com_error option"
  wn_config :: "'h \<Rightarrow> com_error + nat list option"
  wn_metadata :: "string \<Rightarrow> io_failure + 32 word \<times> bool"
  wn_is_dir :: "string \<Rightarrow> bool"
  wn_trust :: "nat \<Rightarrow> string \<Rightarrow> 32 word \<times> 32 word"
  wn_signer :: "nat \<Rightarrow> string \<Rightarrow> string option"
  wn_variable :: "string \<Rightarrow> string option"

section \<open>The registry\<close>

definition services_path :: string where
  "services_path = win ''SYSTEM/CurrentControlSet/Services''"

definition describe_error :: "win32_error \<Rightarrow> string" where
  "describe_error e =
     (if e = error_access_denied then ''access denied'' else ''Win32 error '' @ decimal (unat e))"

definition absent_or_unreadable :: "win32_error \<Rightarrow> 'a lookup" where
  "absent_or_unreadable e =
     (if e = error_file_not_found then Absent else Unreadable (describe_error e))"

definition open_key :: "'h win32 \<Rightarrow> 'h \<Rightarrow> string \<Rightarrow> reg_view \<Rightarrow> win32_error + 'h" where
  "open_key w root path v = wn_open_key w root (to_wide path) v"

text \<open>Names of up to 256 units, the registry's limit.\<close>

definition subkeys :: "'h win32 \<Rightarrow> 'h \<Rightarrow> win32_error + string list" where
  "subkeys w key =
     (case wn_subkeys w key of
        (names, status) \<Rightarrow>
          if status = error_no_more_items then Inr (map (\<lambda>n. from_utf16_lossy (take 256 n)) names)
          else Inl status)"

definition div_ceil :: "nat \<Rightarrow> nat \<Rightarrow> nat" where
  "div_ceil n d = (n + d - 1) div d"

definition read_string :: "'h win32 \<Rightarrow> 'h \<Rightarrow> string \<Rightarrow> string \<Rightarrow> value_flag list \<Rightarrow> string option" where
  "read_string w root key v flags =
     (case wn_value_size w root (to_wide key) (to_wide v) flags of
        (sized, bytes) \<Rightarrow>
          if sized \<noteq> error_success \<or> bytes = 0 then None
          else
            (case wn_value w root (to_wide key) (to_wide v) flags (div_ceil (unat bytes) 2) of
               (status, buffer, written) \<Rightarrow>
                 if status \<noteq> error_success then None
                 else
                   let units = min (unat written div 2) (length buffer);
                       t = trim (trim_end_matches (\<lambda>c. c = CHR 0x00) (from_utf16_lossy (take units buffer)))
                   in if t = [] then None else Some t))"

definition read_dword :: "'h win32 \<Rightarrow> 'h \<Rightarrow> string \<Rightarrow> 32 word option" where
  "read_dword w key v =
     (case wn_dword w key (to_wide v) of (status, n) \<Rightarrow> if status = error_success then Some n else None)"

definition read_service_key :: "'h win32 \<Rightarrow> 'h \<Rightarrow> string \<Rightarrow> service_key_info" where
  "read_service_key w key name =
     \<lparr>sk_name = name,
      sk_image = (case read_string w key [] ''ImagePath'' [RtSz, RtExpandSz, NoExpand] of
                    Some t \<Rightarrow> t | None \<Rightarrow> []),
      sk_service_type = (case read_dword w key ''Type'' of Some n \<Rightarrow> n | None \<Rightarrow> 0)\<rparr>"

definition win_service_key :: "'h win32 \<Rightarrow> string \<Rightarrow> service_key_info lookup" where
  "win_service_key w name =
     (case open_key w (wn_root w Hklm) (services_path @ backslash # name) View64 of
        Inr key \<Rightarrow> Found (read_service_key w key name)
      | Inl e \<Rightarrow> absent_or_unreadable e)"

text \<open>One key below \<open>Services\<close>: one that vanished since the listing is passed over.\<close>

definition add_driver_key :: "'h win32 \<Rightarrow> 'h \<Rightarrow> string \<Rightarrow> driver_keys \<Rightarrow> driver_keys" where
  "add_driver_key w services name found =
     (case open_key w services name View64 of
        Inr key \<Rightarrow>
          let entry = read_service_key w key name
          in if is_driver entry then found\<lparr>dk_drivers := dk_drivers found @ [entry]\<rparr> else found
      | Inl e \<Rightarrow>
          if e = error_file_not_found then found
          else found\<lparr>dk_unreadable := dk_unreadable found @ [(name, describe_error e)]\<rparr>)"

definition win_driver_keys :: "'h win32 \<Rightarrow> driver_keys lookup" where
  "win_driver_keys w =
     (case open_key w (wn_root w Hklm) services_path View64 of
        Inl e \<Rightarrow> absent_or_unreadable e
      | Inr services \<Rightarrow>
          (case subkeys w services of
             Inl e \<Rightarrow> Unreadable (''listing its keys stopped part-way: '' @ describe_error e)
           | Inr names \<Rightarrow>
               Found (fold (add_driver_key w services) names \<lparr>dk_drivers = [], dk_unreadable = []\<rparr>)))"

definition win_registry_key :: "'h win32 \<Rightarrow> string \<Rightarrow> reg_view \<Rightarrow> unit lookup" where
  "win_registry_key w key v =
     (case canonicalise_reg_key key of
        Inl e \<Rightarrow> Unreadable (reg_key_error_text e)
      | Inr canonical \<Rightarrow>
          (case open_key w (wn_root w (key_hive canonical)) (join_with [backslash] (key_components canonical)) v of
             Inr _ \<Rightarrow> Found ()
           | Inl e \<Rightarrow> absent_or_unreadable e))"

section \<open>Files\<close>

definition reparse_point :: "32 word" where "reparse_point = 0x400"

definition win_path :: "'h win32 \<Rightarrow> string \<Rightarrow> file_kind lookup" where
  "win_path w path =
     (case wn_metadata w path of
        Inr (attributes, is_dir) \<Rightarrow>
          if attributes AND reparse_point \<noteq> 0 then Found IsReparsePoint
          else if is_dir then Found IsDirectory
          else Found IsFile
      | Inl NotFoundError \<Rightarrow> Absent
      | Inl (OtherError e) \<Rightarrow> Unreadable e)"

section \<open>Services\<close>

text \<open>The bytes of the configuration are its image: a null pointer, or units that may not decode.\<close>

definition query_service :: "'h win32 \<Rightarrow> string \<Rightarrow> service_status lookup" where
  "query_service w name =
     (case wn_manager w of
        Inl (_, e) \<Rightarrow> Unreadable (''the service control manager: '' @ e)
      | Inr manager \<Rightarrow>
          (case wn_open_service w manager (to_wide name) of
             Inl (code, e) \<Rightarrow>
               if code = to_hresult error_service_does_not_exist then Absent
               else if code = to_hresult error_access_denied then Unreadable ''access denied''
               else Unreadable e
           | Inr service \<Rightarrow>
               (let read = (case wn_config w service of
                      Inl (_, e) \<Rightarrow> Unreadable e
                    | Inr img \<Rightarrow>
                        Found \<lparr>ss_image = (case Option.bind img from_utf16 of Some t \<Rightarrow> t | None \<Rightarrow> []),
                               ss_stale = False\<rparr>)
                in case wn_config_size w service of
                     Some (code, e) \<Rightarrow>
                       if code = to_hresult error_file_not_found then Found \<lparr>ss_image = [], ss_stale = True\<rparr>
                       else if code \<noteq> to_hresult error_insufficient_buffer \<and> code \<noteq> to_hresult error_more_data
                       then Unreadable e
                       else read
                   | None \<Rightarrow> read)))"

section \<open>Signatures\<close>

definition trust_e_nosignature :: "32 word" where "trust_e_nosignature = 0x800B0100"
definition cert_e_expired :: "32 word" where "cert_e_expired = 0x800B0101"

definition not_signed :: "32 word list" where
  "not_signed = [trust_e_nosignature, 0x800B0003, 0x800B0001]"

definition not_known_offline :: "32 word list" where
  "not_known_offline = [0x800B010E, 0x80092012, 0x80092013]"

definition invalid_signature :: "32 word list" where
  "invalid_signature =
     [0x80096010, 0x80096004, 0x800B0004, 0x800B0109, 0x800B010C, 0x80092010, 0x800B0110, 0x800B0111]"

text \<open>\<open>{:#010x}\<close>: eight hexadecimal digits after \<open>0x\<close>.\<close>

fun hex_digits_of :: "nat \<Rightarrow> nat \<Rightarrow> string" where
  "hex_digits_of 0 n = []"
| "hex_digits_of (Suc k) n = hex_digits_of k (n div 16) @ [''0123456789abcdef'' ! (n mod 16)]"

definition hex_code :: "32 word \<Rightarrow> string" where
  "hex_code n = ''0x'' @ hex_digits_of 8 (unat n)"

definition verify_file :: "'h win32 \<Rightarrow> nat \<Rightarrow> string \<Rightarrow> signature" where
  "verify_file w attempt path =
     (case wn_trust w attempt path of
        (code, reason) \<Rightarrow>
          if code = 0 \<or> code = cert_e_expired \<or> code \<in> set not_known_offline then
            (case wn_signer w attempt path of
               Some signer \<Rightarrow> Verified signer
             | None \<Rightarrow> UnknownSignature ''it verifies, and its signer could not be read'')
          else if code = trust_e_nosignature then
            (if reason \<in> set not_signed then Unsigned
             else UnknownSignature (''no signature could be read, error '' @ hex_code reason))
          else if code \<in> set invalid_signature then Invalid
          else UnknownSignature (''WinVerifyTrust returned '' @ hex_code code))"

definition win_signature :: "'h win32 \<Rightarrow> string \<Rightarrow> signature" where
  "win_signature w path =
     (case verify_file w 0 path of
        UnknownSignature _ \<Rightarrow> verify_file w 1 path
      | settled \<Rightarrow> settled)"

definition win_machine :: "'h win32 \<Rightarrow> machine_view" where
  "win_machine w =
     \<lparr>mv_service = query_service w, mv_service_key = win_service_key w, mv_driver_keys = win_driver_keys w,
      mv_registry_key = win_registry_key w, mv_path = win_path w, mv_signature = win_signature w\<rparr>"

section \<open>The environment\<close>

definition steam_install :: "'h win32 \<Rightarrow> string option" where
  "steam_install w =
     find (wn_is_dir w)
       (map (replace_byte (CHR ''/'') backslash)
         (List.map_filter (\<lambda>(root, key, v, flags). read_string w root key v flags)
           [(wn_root w Hklm, win ''SOFTWARE/Valve/Steam'', ''InstallPath'', [RtSz, SubkeyWow6432]),
            (wn_root w Hkcu, win ''Software/Valve/Steam'', ''SteamPath'', [RtSz])]))"

definition epic_manifests :: "'h win32 \<Rightarrow> string option" where
  "epic_manifests w =
     map_option (\<lambda>data. push_name (push_name (push_name (push_name data ''Epic'') ''EpicGamesLauncher'') ''Data'')
       ''Manifests'') (wn_variable w ''ProgramData'')"

definition variable_values :: "'h win32 \<Rightarrow> found_libraries \<Rightarrow> string \<Rightarrow> string list" where
  "variable_values w found name =
     (let of_launcher = (\<lambda>l. map lib_path (filter (\<lambda>library. lib_launcher library = l) (fl_libraries found)))
      in if name = ''STEAM_LIBRARY'' then of_launcher Steam
         else if name = ''EPIC_LIBRARY'' then of_launcher Epic
         else (case wn_variable w name of Some v \<Rightarrow> [v] | None \<Rightarrow> []))"

definition win_environment ::
    "'h win32 \<Rightarrow> file_system \<Rightarrow> (string \<Rightarrow> string + string option) \<Rightarrow> string \<Rightarrow> environment" where
  "win_environment w fs json missing =
     (let found = discover fs json missing (steam_install w) (epic_manifests w);
          env = fold (\<lambda>name env. with_values env name (variable_values w found name)) known_variables new_environment
      in fold (\<lambda>m env. with_unreadable env (lu_path m) (lu_reason m)) (fl_unreadable found) env)"

end
