(* ===== verification/Verify.thy ===== *)
theory Verify
  imports Utf16
begin

text \<open>
  The check of a catalog's detached signature, after \<open>core/src/catalog/verify.rs\<close>.  Hex
  decoding belongs to the \<open>hex\<close> package and the curve to \<open>ed25519_dalek\<close>: they are
  parameters.  A signature is its 64 bytes.  Bytes are texts only when they are valid UTF-8.
\<close>

section \<open>Verification\<close>

definition public_key_len :: nat where
  "public_key_len = 32"

definition signature_len :: nat where
  "signature_len = 64"

datatype verify_error = MalformedPublicKey | InvalidPublicKey | MalformedSignature | SignatureMismatch

definition verify_error_text :: "verify_error \<Rightarrow> string" where
  "verify_error_text e =
     (case e of
        MalformedPublicKey \<Rightarrow> ''public key is not '' @ decimal public_key_len @ '' bytes of hex''
      | InvalidPublicKey \<Rightarrow> ''public key is not a valid Ed25519 key''
      | MalformedSignature \<Rightarrow> ''signature is not '' @ decimal signature_len @ '' bytes''
      | SignatureMismatch \<Rightarrow> ''catalog signature does not match'')"

text \<open>What the packages do: hex text to bytes, 32 bytes to a key, and the strict check.\<close>

record 'key crypto =
  hex_decode :: "string \<Rightarrow> string option"
  key_from_bytes :: "string \<Rightarrow> 'key option"
  verify_strict :: "'key \<Rightarrow> string \<Rightarrow> string \<Rightarrow> bool"

definition parse_public_key :: "'key crypto \<Rightarrow> string \<Rightarrow> verify_error + 'key" where
  "parse_public_key cr hex_text =
     (case hex_decode cr (trim hex_text) of
        None \<Rightarrow> Inl MalformedPublicKey
      | Some bytes \<Rightarrow>
          if length bytes \<noteq> public_key_len then Inl MalformedPublicKey
          else (case key_from_bytes cr bytes of
                  None \<Rightarrow> Inl InvalidPublicKey
                | Some key \<Rightarrow> Inr key))"

definition parse_signature :: "'key crypto \<Rightarrow> string \<Rightarrow> verify_error + string" where
  "parse_signature cr raw =
     (if length raw = signature_len then Inr raw
      else if \<not> is_utf8 raw then Inl MalformedSignature
      else (case hex_decode cr (trim raw) of
              None \<Rightarrow> Inl MalformedSignature
            | Some bytes \<Rightarrow> if length bytes \<noteq> signature_len then Inl MalformedSignature else Inr bytes))"

definition verify_detached :: "'key crypto \<Rightarrow> string \<Rightarrow> string \<Rightarrow> string \<Rightarrow> verify_error + unit" where
  "verify_detached cr catalog_bytes sig public_key_hex =
     (case parse_public_key cr public_key_hex of
        Inl e \<Rightarrow> Inl e
      | Inr key \<Rightarrow>
          (case parse_signature cr sig of
             Inl e \<Rightarrow> Inl e
           | Inr s \<Rightarrow> if verify_strict cr key catalog_bytes s then Inr () else Inl SignatureMismatch))"

section \<open>Properties\<close>

lemma parse_public_key_Inr:
  "parse_public_key cr h = Inr key \<longleftrightarrow>
     (\<exists>bytes. hex_decode cr (trim h) = Some bytes \<and> length bytes = public_key_len
        \<and> key_from_bytes cr bytes = Some key)"
  by (auto simp: parse_public_key_def split: option.splits)

lemma parse_signature_Inr:
  "parse_signature cr raw = Inr s \<longleftrightarrow>
     length s = signature_len
     \<and> (raw = s \<or> length raw \<noteq> signature_len \<and> is_utf8 raw \<and> hex_decode cr (trim raw) = Some s)"
  by (auto simp: parse_signature_def split: option.splits)

text \<open>
  A catalog is accepted exactly when the key text decodes to the 32 bytes of a valid key,
  the signature is 64 bytes as they stand or as hex, and the strict check accepts these over
  the catalog's raw bytes.  There is no other way to acceptance.
\<close>

theorem verify_detached_accepts:
  "verify_detached cr body sig h = Inr () \<longleftrightarrow>
     (\<exists>bytes key s. hex_decode cr (trim h) = Some bytes \<and> length bytes = 32
        \<and> key_from_bytes cr bytes = Some key
        \<and> length s = 64 \<and> (sig = s \<or> length sig \<noteq> 64 \<and> is_utf8 sig \<and> hex_decode cr (trim sig) = Some s)
        \<and> verify_strict cr key body s)"
proof -
  have "verify_detached cr body sig h = Inr () \<longleftrightarrow>
      (\<exists>key s. parse_public_key cr h = Inr key \<and> parse_signature cr sig = Inr s \<and> verify_strict cr key body s)"
    by (auto simp: verify_detached_def split: sum.splits)
  then show ?thesis
    unfolding parse_public_key_Inr parse_signature_Inr
    by (auto simp: public_key_len_def signature_len_def)
qed

lemma ascii_is_utf8: "ascii_str s \<Longrightarrow> is_utf8 s"
proof (induction s)
  case (Cons a s)
  then show ?case by (cases a) (simp add: byte_in_def is_ascii_byte_def)
qed simp

text \<open>
  The two encodings of a signature are one: a trimmed-equal hex rendering and the raw 64
  bytes get the same verdict, as a trailing newline after the key does not change it.
\<close>

theorem signature_encodings_agree:
  assumes "ascii_str hex" and "length hex \<noteq> signature_len" and "length s = signature_len"
    and "hex_decode cr (trim hex) = Some s" and "trim h = trim h'"
  shows "verify_detached cr body hex h = verify_detached cr body s h'"
proof -
  have "parse_signature cr hex = parse_signature cr s"
    using assms by (simp add: parse_signature_def ascii_is_utf8)
  moreover have "parse_public_key cr h = parse_public_key cr h'"
    using assms(5) by (simp add: parse_public_key_def)
  ultimately show ?thesis
    by (cases "parse_public_key cr h'") (simp_all add: verify_detached_def)
qed

text \<open>A hex decoding and a key package to run the check with.\<close>

definition hex_digit :: "char \<Rightarrow> nat option" where
  "hex_digit c =
     (let n = (of_char c :: nat) in
      if is_digit_byte c then Some (n - 48)
      else if 97 \<le> n \<and> n \<le> 102 then Some (n - 87)
      else if 65 \<le> n \<and> n \<le> 70 then Some (n - 55)
      else None)"

fun unhex :: "string \<Rightarrow> string option" where
  "unhex [] = Some []"
| "unhex [a] = None"
| "unhex (a # b # s) =
     (case (hex_digit a, hex_digit b, unhex s) of
        (Some m, Some n, Some bytes) \<Rightarrow> Some (char_of (16 * m + n) # bytes)
      | _ \<Rightarrow> None)"

definition sample_crypto :: "string crypto" where
  "sample_crypto =
     \<lparr>hex_decode = unhex, key_from_bytes = Some,
      verify_strict = (\<lambda>key body s. take 32 s = key \<and> body = ''body'')\<rparr>"

theorem signature_encodings_agree_witness:
  "verify_detached sample_crypto ''body'' (concat (replicate 64 ''61'') @ [CHR 0x0A]) (concat (replicate 32 ''61''))
     = verify_detached sample_crypto ''body'' (replicate 64 (CHR ''a'')) (concat (replicate 32 ''61'') @ [CHR 0x0A])"
  by (rule signature_encodings_agree; code_simp)

end
