(* ===== verification/Catalog_Load.thy ===== *)
theory Catalog_Load
  imports Validate Verify
begin

text \<open>
  From a catalog's bytes to a catalog that may be used: \<open>parse_bytes\<close> of \<open>catalog/mod.rs\<close> and the
  chain of four checks that the command line applies when it loads a catalog and the catalog
  tool before it signs one; and what the runs of both end with.  Reading TOML belongs to the
  \<open>toml\<close> package and is a parameter.
\<close>

section \<open>Parsing\<close>

datatype parse_error = TomlError string | NotUtf8

fun parse_error_text :: "parse_error \<Rightarrow> string" where
  "parse_error_text (TomlError e) = ''catalog is not valid: '' @ e"
| "parse_error_text NotUtf8 = ''catalog is not valid UTF-8''"

definition parse_catalog :: "(string \<Rightarrow> string + catalog) \<Rightarrow> string \<Rightarrow> parse_error + catalog" where
  "parse_catalog toml text = (case toml text of Inl e \<Rightarrow> Inl (TomlError e) | Inr c \<Rightarrow> Inr c)"

definition parse_bytes :: "(string \<Rightarrow> string + catalog) \<Rightarrow> string \<Rightarrow> parse_error + catalog" where
  "parse_bytes toml bytes = (if is_utf8 bytes then parse_catalog toml bytes else Inl NotUtf8)"

lemma parse_bytes_Inr: "parse_bytes toml bytes = Inr c \<longleftrightarrow> is_utf8 bytes \<and> toml bytes = Inr c"
  by (auto simp: parse_bytes_def parse_catalog_def split: sum.splits)

section \<open>The four checks\<close>

text \<open>What each of them reports, in order; the first and the third may panic.\<close>

definition integrity_problems :: "catalog \<Rightarrow> problem list run" where
  "integrity_problems c =
     bind_run (validate c) (\<lambda>validity.
     bind_run (check_denylist c) (\<lambda>denied.
       Ret (validity @ check_refs c @ denied @ audit_shared c True)))"

lemma integrity_Nil:
  "integrity_problems c = Ret [] \<longleftrightarrow>
     validate c = Ret [] \<and> check_refs c = [] \<and> check_denylist c = Ret [] \<and> audit_shared c True = []"
  by (auto simp: integrity_problems_def)

section \<open>Text\<close>

text \<open>A line of output.\<close>

definition say :: "string \<Rightarrow> string" where
  "say s = s @ [CHR 0x0A]"

text \<open>\<open>{:<w}\<close>: padded to a width counted in characters.\<close>

definition char_count :: "string \<Rightarrow> nat" where
  "char_count s = length (filter (\<lambda>c. \<not> is_continuation_byte c) s)"

definition pad_right :: "nat \<Rightarrow> string \<Rightarrow> string" where
  "pad_right w s = s @ replicate (w - char_count s) (CHR '' '')"

definition em_dash :: string where
  "em_dash = [CHR 0xE2, CHR 0x80, CHR 0x94]"

section \<open>Outcomes\<close>

type_synonym exit_code = "8 word"

definition exit_ok :: exit_code where "exit_ok = 0"
definition exit_nothing :: exit_code where "exit_nothing = 1"
definition exit_scan_error :: exit_code where "exit_scan_error = 2"
definition exit_partial :: exit_code where "exit_partial = 3"
definition exit_catalog_failed :: exit_code where "exit_catalog_failed = 9"
definition exit_usage :: exit_code where "exit_usage = 64"

lemmas exit_codes =
  exit_ok_def exit_nothing_def exit_scan_error_def exit_partial_def exit_catalog_failed_def exit_usage_def

text \<open>How a run ends: the code, the two streams, and the files the run wrote
  in full; of a write that failed nothing is known, but where a program's model says what it
  left behind.\<close>

record outcome =
  oc_code :: exit_code
  oc_out :: string
  oc_err :: string
  oc_written :: "(string \<times> string) list"

definition ended :: "exit_code \<Rightarrow> string \<Rightarrow> string \<Rightarrow> outcome" where
  "ended code out err = \<lparr>oc_code = code, oc_out = out, oc_err = err, oc_written = []\<rparr>"

lemma ended_simps [simp]:
  "oc_code (ended code out err) = code" "oc_out (ended code out err) = out"
  "oc_err (ended code out err) = err" "oc_written (ended code out err) = []"
  by (simp_all add: ended_def)

end
