(* ===== verification/Panics.thy ===== *)
theory Panics
  imports Denylist
begin

text \<open>
  Where a slice cannot fall inside a character.  Every panic the model has comes from such a
  slice, and what is ASCII has a boundary before each of its bytes.
\<close>

lemma key_segments_set: "c \<in> set (key_segments parts) \<Longrightarrow> \<exists>p \<in> set parts. set c \<subseteq> upper_byte ` set p"
proof -
  assume "c \<in> set (key_segments parts)"
  then obtain p where "p \<in> set parts" and c: "c = to_ascii_uppercase (trim p)"
    by (auto simp: key_segments_def)
  moreover have "set c \<subseteq> upper_byte ` set p"
    using set_trim [of p] by (auto simp: c to_ascii_uppercase_def)
  ultimately show ?thesis by blast
qed

lemma reg_key_ascii:
  assumes "canonicalise_reg_key s = Inr k" and "ascii_str s" and "c \<in> set (key_components k)"
  shows "ascii_str c"
proof -
  let ?t = "trim_matches (\<lambda>c. c = backslash) (trim (replace_byte (CHR ''/'') backslash s))"
  have "ascii_str (trim (replace_byte (CHR ''/'') backslash s))"
    using assms(2) by (intro ascii_str_trim ascii_str_replace) simp_all
  then have ascii: "ascii_str ?t" using set_trim_matches ascii_str_subset by blast
  from assms have "c \<in> set (key_segments (tl (split_char backslash ?t)))"
    by (auto simp: canonicalise_reg_key_def Let_def split: if_splits option.splits)
  then obtain p where p: "p \<in> set (tl (split_char backslash ?t))" and sub: "set c \<subseteq> upper_byte ` set p"
    using key_segments_set by blast
  have "set p \<subseteq> set ?t"
    using list.set_sel(2) [OF split_on_nonempty p] by (auto dest: split_on_segments)
  with ascii have "\<forall>b \<in> set p. is_ascii_byte b" by (auto simp: ascii_str_def list_all_iff)
  with sub have "\<forall>b \<in> set c. is_ascii_byte b" by force
  then show ?thesis by (simp add: ascii_str_def list_all_iff)
qed

lemma ascii_no_slice:
  assumes "\<And>c. c \<in> set comps \<Longrightarrow> ascii_str c"
  shows "\<not> slices_inside_character comps"
  using assms by (auto simp: slices_inside_character_def is_char_boundary_ascii)

lemma check_key_ascii:
  assumes "canonicalise_reg_key s = Inr k" and "ascii_str s"
  shows "check_registry_key k e \<noteq> Panic"
proof -
  have "\<not> slices_inside_character (key_components k)"
    using assms ascii_no_slice reg_key_ascii by blast
  then show ?thesis by (simp add: check_registry_key_panic)
qed

lemma fold_run_total: "(\<And>x s. x \<in> set xs \<Longrightarrow> f x s \<noteq> Panic) \<Longrightarrow> fold_run f xs s \<noteq> Panic"
proof (induction xs arbitrary: s)
  case (Cons x xs)
  then have "f x s \<noteq> Panic" by simp
  then obtain t where "f x s = Ret t" by (cases "f x s") auto
  with Cons show ?case by simp
qed simp

end
