(* ===== verification/Audit_Report.thy ===== *)
theory Audit_Report
  imports Engine Panics
begin

text \<open>
  What an audit's report is worth, whatever the machine: that every finding was seen and
  allowed, what its verdict rests on, that nothing present is missed, that a failed read makes
  the scan partial, and when the audit returns.
\<close>

section \<open>What is behind a finding\<close>

text \<open>The verdicts of a signature that exists: who confirms, who makes suspicious.\<close>

definition vendor_signed :: "machine_view \<Rightarrow> anti_cheat \<Rightarrow> string \<Rightarrow> bool" where
  "vendor_signed m entry path \<longleftrightarrow>
     mv_path m path = Found IsFile
     \<and> (case mv_signature m path of
          Verified signer \<Rightarrow> ours entry signer \<and> \<not> eq_ignore_ascii_case signer attestation_signer
        | _ \<Rightarrow> False)"

definition wrongly_signed :: "machine_view \<Rightarrow> anti_cheat \<Rightarrow> string \<Rightarrow> bool" where
  "wrongly_signed m entry path \<longleftrightarrow>
     mv_path m path = Found IsFile
     \<and> (case mv_signature m path of
          Verified signer \<Rightarrow>
            ac_authenticode_cn entry \<noteq> [] \<and> \<not> ours entry signer
            \<and> \<not> eq_ignore_ascii_case signer attestation_signer
        | Unsigned \<Rightarrow> True
        | Invalid \<Rightarrow> True
        | UnknownSignature _ \<Rightarrow> False)"

lemma judge_Confirmed:
  "fst (judge sig entry) = Confirmed \<longleftrightarrow>
     (\<exists>signer. sig = Verified signer \<and> ours entry signer \<and> \<not> eq_ignore_ascii_case signer attestation_signer)"
  by (cases sig) (auto simp: judge_def)

lemma judge_Suspicious:
  "fst (judge sig entry) = Suspicious \<longleftrightarrow>
     sig = Unsigned \<or> sig = Invalid
     \<or> (\<exists>signer. sig = Verified signer \<and> ac_authenticode_cn entry \<noteq> [] \<and> \<not> ours entry signer
          \<and> \<not> eq_ignore_ascii_case signer attestation_signer)"
  by (cases sig) (auto simp: judge_def)

lemma judge_image_Confirmed:
  "mv_path (cx_machine cx) p = Found IsFile \<Longrightarrow>
   fst (judge_image cx p) = Confirmed \<longleftrightarrow> vendor_signed (cx_machine cx) (cx_entry cx) p"
  by (auto simp: judge_image_def judge_Confirmed vendor_signed_def split: signature.splits)

lemma judge_image_Suspicious:
  "mv_path (cx_machine cx) p = Found IsFile \<Longrightarrow>
   fst (judge_image cx p) = Suspicious \<longleftrightarrow> wrongly_signed (cx_machine cx) (cx_entry cx) p"
  by (auto simp: judge_image_def judge_Suspicious wrongly_signed_def split: signature.splits)

text \<open>
  What the machine shows of an entry, artifact by artifact: a service the manager lists, or one
  with only a key; a driver some key registers, or an image without one; a key of the entry in a
  view it asks for, and an expansion of one of its paths, when the deny-list lets them through.
\<close>

definition driver_image :: "audit_context \<Rightarrow> service_key_info \<Rightarrow> string" where
  "driver_image cx k =
     (case image_file (sk_image k) (system_root (cx_environment cx)) of Some i \<Rightarrow> i | None \<Rightarrow> sk_image k)"

definition drivers_path :: "audit_context \<Rightarrow> string \<Rightarrow> string" where
  "drivers_path cx name = system_root (cx_environment cx) @ win ''/System32/drivers/'' @ name"

definition present :: "audit_context \<Rightarrow> artifact \<Rightarrow> bool" where
  "present cx a \<longleftrightarrow>
     (case a of
        ServiceArtifact name img registry_only \<Rightarrow>
          name \<in> set (ac_services (cx_entry cx))
          \<and> (if registry_only
             then mv_service (cx_machine cx) name = Absent
               \<and> (\<exists>k. mv_service_key (cx_machine cx) name = Found k
                    \<and> img = (if sk_image k \<noteq> [] then Some (sk_image k) else None))
             else \<exists>status. mv_service (cx_machine cx) name = Found status \<and> \<not> ss_stale status
               \<and> img = Some (ss_image status))
      | DriverArtifact name service img on_disk \<Rightarrow>
          name \<in> set (ac_drivers (cx_entry cx))
          \<and> on_disk = (mv_path (cx_machine cx) img = Found IsFile)
          \<and> (case service of
               None \<Rightarrow> on_disk \<and> img = drivers_path cx name
                 \<and> (\<forall>k \<in> set (cx_driver_keys cx). \<not> names_file cx name k)
             | Some s \<Rightarrow> \<exists>k \<in> set (cx_driver_keys cx). sk_name k = s \<and> names_file cx name k
                 \<and> img = driver_image cx k)
      | RegistryKeyArtifact key v \<Rightarrow>
          (\<exists>entry \<in> set (ac_registry (cx_entry cx)). re_key entry = key \<and> v \<in> set (views key (re_view entry)))
          \<and> key_passes (cx_exceptions cx) key \<and> mv_registry_key (cx_machine cx) key v = Found ()
      | PathArtifact path directory \<Rightarrow>
          (\<exists>entry \<in> set (ac_paths (cx_entry cx)). \<exists>paths.
             expand_with (pe_path entry) (env_lookup (cx_environment cx)) = Inr paths \<and> path \<in> set paths)
          \<and> path_passes (cx_exceptions cx) path
          \<and> (\<exists>k. mv_path (cx_machine cx) path = Found k \<and> k \<noteq> IsReparsePoint \<and> directory = (k = IsDirectory)))"

text \<open>
  The file whose signature speaks for an artifact: the image of a service or driver, the path
  itself where it is of a kind that is signed.
\<close>

definition judged_file :: "audit_context \<Rightarrow> artifact \<Rightarrow> string option" where
  "judged_file cx a =
     (case a of
        ServiceArtifact _ img _ \<Rightarrow> Option.bind img (\<lambda>i. image_file i (system_root (cx_environment cx)))
      | DriverArtifact _ _ img on_disk \<Rightarrow> if on_disk then Some img else None
      | RegistryKeyArtifact _ _ \<Rightarrow> None
      | PathArtifact path directory \<Rightarrow> if \<not> directory \<and> is_signable path then Some path else None)"

definition own_signed :: "audit_context \<Rightarrow> artifact \<Rightarrow> bool" where
  "own_signed cx a \<longleftrightarrow> (\<exists>p. judged_file cx a = Some p \<and> vendor_signed (cx_machine cx) (cx_entry cx) p)"

definition own_wrong :: "audit_context \<Rightarrow> artifact \<Rightarrow> bool" where
  "own_wrong cx a \<longleftrightarrow> (\<exists>p. judged_file cx a = Some p \<and> wrongly_signed (cx_machine cx) (cx_entry cx) p)"

definition own_on_disk :: "audit_context \<Rightarrow> artifact \<Rightarrow> bool" where
  "own_on_disk cx a \<longleftrightarrow> (\<exists>p. judged_file cx a = Some p \<and> mv_path (cx_machine cx) p = Found IsFile)"

text \<open>What the audit judges of an artifact before it settles the entry.\<close>

definition own_verdict :: "audit_context \<Rightarrow> artifact \<Rightarrow> classification option" where
  "own_verdict cx a =
     (case judged_file cx a of
        None \<Rightarrow> None
      | Some p \<Rightarrow> if mv_path (cx_machine cx) p = Found IsFile then Some (fst (judge_image cx p)) else None)"

lemma own_verdict_cases:
  "own_verdict cx a = Some Confirmed \<longleftrightarrow> own_signed cx a"
  "own_verdict cx a = Some Suspicious \<longleftrightarrow> own_wrong cx a"
  "own_verdict cx a = None \<longleftrightarrow> \<not> own_on_disk cx a"
proof -
  have signed: "vendor_signed (cx_machine cx) (cx_entry cx) p \<Longrightarrow> mv_path (cx_machine cx) p = Found IsFile"
    and wrong: "wrongly_signed (cx_machine cx) (cx_entry cx) p \<Longrightarrow> mv_path (cx_machine cx) p = Found IsFile"
    for p by (simp_all add: vendor_signed_def wrongly_signed_def)
  show "own_verdict cx a = Some Confirmed \<longleftrightarrow> own_signed cx a"
    "own_verdict cx a = Some Suspicious \<longleftrightarrow> own_wrong cx a"
    "own_verdict cx a = None \<longleftrightarrow> \<not> own_on_disk cx a"
    unfolding own_verdict_def own_signed_def own_wrong_def own_on_disk_def
    by (auto simp: judge_image_Confirmed judge_image_Suspicious split: option.splits dest: signed wrong)
qed

definition fair_pending :: "audit_context \<Rightarrow> pending \<Rightarrow> bool" where
  "fair_pending cx p \<longleftrightarrow>
     pd_judged p = own_verdict cx (pd_artifact p) \<and> present cx (pd_artifact p)"

definition all_fair :: "audit_context \<Rightarrow> audit_state \<Rightarrow> bool" where
  "all_fair cx st \<longleftrightarrow> list_all (fair_pending cx) (st_found st)"

lemma all_fair_push [simp]:
  "all_fair cx (push_found p st) \<longleftrightarrow> all_fair cx st \<and> fair_pending cx p"
  "all_fair cx (push_unreadable cx item reason st) = all_fair cx st"
  "all_fair cx (push_protected cx item reason st) = all_fair cx st"
  "all_fair cx (push_disbelieved cx item reason st) = all_fair cx st"
  by (simp_all add: all_fair_def push_found_def push_unreadable_def push_protected_def push_disbelieved_def)

lemma image_verdict_own:
  "judged_file cx a = image_file configured (system_root (cx_environment cx)) \<Longrightarrow>
   fst (image_verdict cx configured) = own_verdict cx a"
  by (simp add: image_verdict_def own_verdict_def split: option.split lookup.split file_kind.split)

lemma image_file_empty [simp]: "image_file [] root = None"
  by code_simp

lemma with_image_fair:
  assumes "all_fair cx st" and "present cx (ServiceArtifact name img ro)"
    and "img = Some configured \<or> img = None \<and> configured = []"
  shows "all_fair cx (with_image cx (ServiceArtifact name img ro) configured why st)"
proof -
  have "judged_file cx (ServiceArtifact name img ro)
      = image_file configured (system_root (cx_environment cx))"
    using assms(3) by (auto simp: judged_file_def)
  from image_verdict_own [OF this] show ?thesis
    using assms(1,2) by (simp add: with_image_def fair_pending_def)
qed

lemma scan_service_fair:
  "name \<in> set (ac_services (cx_entry cx)) \<Longrightarrow> all_fair cx st \<Longrightarrow> all_fair cx (scan_service cx name st)"
  by (auto simp: scan_service_def present_def intro!: with_image_fair split: lookup.splits)

lemma scan_registered_driver_fair:
  assumes "name \<in> set (ac_drivers (cx_entry cx))" and "key \<in> set (cx_driver_keys cx)"
    and "names_file cx name key" and "all_fair cx st"
  shows "all_fair cx (scan_registered_driver cx name key st)"
  using assms
  by (auto simp: scan_registered_driver_def Let_def fair_pending_def present_def own_verdict_def
      judged_file_def driver_image_def)

lemma fold_invariant_set:
  "P s \<Longrightarrow> (\<And>x s. x \<in> set xs \<Longrightarrow> P s \<Longrightarrow> P (f x s)) \<Longrightarrow> P (fold f xs s)"
  by (induction xs arbitrary: s) simp_all

lemma scan_unregistered_driver_fair:
  assumes "name \<in> set (ac_drivers (cx_entry cx))" and "all_fair cx st"
    and "\<forall>k \<in> set (cx_driver_keys cx). \<not> names_file cx name k"
  shows "all_fair cx (scan_unregistered_driver cx name st)"
proof (cases "mv_path (cx_machine cx) (drivers_path cx name)")
  case (Found k)
  with assms show ?thesis
    by (cases k) (simp_all add: scan_unregistered_driver_def Let_def fair_pending_def
        present_def own_verdict_def judged_file_def drivers_path_def)
qed (use assms in \<open>simp_all add: scan_unregistered_driver_def Let_def drivers_path_def\<close>)

lemma scan_driver_fair:
  assumes "file \<in> set (ac_drivers (cx_entry cx))" and "all_fair cx st"
  shows "all_fair cx (scan_driver cx file st)"
proof (cases "filter (names_file cx file) (cx_driver_keys cx) = []")
  case True
  then have "\<forall>k \<in> set (cx_driver_keys cx). \<not> names_file cx file k" by (simp add: filter_empty_conv)
  from scan_unregistered_driver_fair [OF assms this] True show ?thesis
    by (simp only: scan_driver_def Let_def simp_thms if_True)
next
  case False
  have "all_fair cx (fold (scan_registered_driver cx file)
      (filter (names_file cx file) (cx_driver_keys cx)) st)"
    by (rule fold_invariant_set [where P = "all_fair cx", OF assms(2)])
       (use assms(1) scan_registered_driver_fair in auto)
  with False show ?thesis by (simp only: scan_driver_def Let_def if_False)
qed

lemma key_refusal_None:
  "key_refusal cx key = Ret None \<longleftrightarrow> key_passes (cx_exceptions cx) key"
proof (cases "canonicalise_reg_key key")
  case (Inr k)
  have "err_of r = None \<longleftrightarrow> r = Inr ()" for r :: "deny_reason + unit"
    by (cases r) simp_all
  with Inr show ?thesis
    by (cases "check_registry_key k (cx_exceptions cx)") (simp_all add: key_refusal_def passes_def del: err_of_None)
qed (simp add: key_refusal_def passes_def)

lemma path_refusal_None:
  "path_refusal cx path k = Ret None \<longleftrightarrow> k \<noteq> IsReparsePoint \<and> path_passes (cx_exceptions cx) path"
proof -
  have unit: "err_of r = None \<longleftrightarrow> r = Inr ()" for r :: "deny_reason + unit"
    by (cases r) simp_all
  show ?thesis
  proof (cases "canonicalise_syntactic path")
    case (Ret r)
    then show ?thesis
      by (cases r) (simp_all add: path_refusal_def passes_def unit del: err_of_None)
  qed (simp add: path_refusal_def passes_def)
qed

lemma scan_registry_key_fair:
  assumes "scan_registry_key cx (re_key entry) v st = Ret st'" and "all_fair cx st"
    and "entry \<in> set (ac_registry (cx_entry cx))" and "v \<in> set (views (re_key entry) (re_view entry))"
  shows "all_fair cx st'"
proof -
  obtain refused where refused: "key_refusal cx (re_key entry) = Ret refused"
    using assms(1) by (cases "key_refusal cx (re_key entry)") (auto simp: scan_registry_key_def)
  show ?thesis
  proof (cases refused)
    case None
    with refused have "key_passes (cx_exceptions cx) (re_key entry)" by (simp flip: key_refusal_None)
    with assms refused None show ?thesis
      by (cases "mv_registry_key (cx_machine cx) (re_key entry) v")
         (auto simp: scan_registry_key_def fair_pending_def present_def own_verdict_def judged_file_def)
  next
    case (Some reason)
    with assms refused show ?thesis by (auto simp: scan_registry_key_def)
  qed
qed

lemma scan_expansion_fair:
  assumes "scan_expansion cx path st = Ret st'" and "all_fair cx st"
    and "\<exists>entry \<in> set (ac_paths (cx_entry cx)). \<exists>paths.
      expand_with (pe_path entry) (env_lookup (cx_environment cx)) = Inr paths \<and> path \<in> set paths"
  shows "all_fair cx st'"
proof (cases "mv_path (cx_machine cx) path")
  case (Found k)
  with assms(1) obtain refused where refused: "path_refusal cx path k = Ret refused"
    by (auto simp: scan_expansion_def)
  show ?thesis
  proof (cases refused)
    case None
    with refused have "k \<noteq> IsReparsePoint" "path_passes (cx_exceptions cx) path"
      by (auto simp: path_refusal_None)
    then have "fair_pending cx \<lparr>pd_artifact = PathArtifact path (k = IsDirectory),
        pd_evidence = ev, pd_judged = (if k = IsFile \<and> is_signable path
          then Some (fst (judge_image cx path)) else None)\<rparr>" for ev
      using Found assms(3)
      by (cases k) (simp_all add: fair_pending_def present_def own_verdict_def judged_file_def)
    with assms Found refused None show ?thesis
      by (auto simp: scan_expansion_def Let_def)
  next
    case (Some reason)
    with assms Found refused show ?thesis by (auto simp: scan_expansion_def)
  qed
qed (use assms in \<open>auto simp: scan_expansion_def\<close>)

lemma scan_path_fair:
  assumes "scan_path cx (pe_path entry) st = Ret st'" and "all_fair cx st"
    and "entry \<in> set (ac_paths (cx_entry cx))"
  shows "all_fair cx st'"
proof (cases "expand_with (pe_path entry) (env_lookup (cx_environment cx))")
  case (Inr paths)
  with assms(1) have "fold_run (scan_expansion cx) paths st = Ret st'" by (simp add: scan_path_def)
  then show ?thesis using assms(2)
    by (rule fold_run_invariant) (use Inr assms(3) scan_expansion_fair in blast)
qed (use assms in \<open>auto simp: scan_path_def\<close>)

section \<open>What is never lost\<close>

text \<open>One state or report below another: everything recorded stays recorded.\<close>

definition report_le :: "report \<Rightarrow> report \<Rightarrow> bool" where
  "report_le r r' \<longleftrightarrow>
     set (rp_findings r) \<subseteq> set (rp_findings r') \<and> set (rp_protected r) \<subseteq> set (rp_protected r')
     \<and> set (rp_disbelieved r) \<subseteq> set (rp_disbelieved r')
     \<and> set (rp_unreadable r) \<subseteq> set (rp_unreadable r') \<and> rp_v r = rp_v r'"

definition state_le :: "audit_state \<Rightarrow> audit_state \<Rightarrow> bool" where
  "state_le st st' \<longleftrightarrow>
     report_le (st_report st) (st_report st') \<and> set (st_found st) \<subseteq> set (st_found st')
     \<and> rp_findings (st_report st) = rp_findings (st_report st')"

lemma report_le_refl [simp]: "report_le r r"
  by (simp add: report_le_def)

lemma report_le_trans: "report_le a b \<Longrightarrow> report_le b c \<Longrightarrow> report_le a c"
  by (auto simp: report_le_def)

lemma state_le_refl [simp]: "state_le st st"
  by (simp add: state_le_def)

lemma state_le_trans: "state_le a b \<Longrightarrow> state_le b c \<Longrightarrow> state_le a c"
  by (auto simp: state_le_def intro: report_le_trans)

lemma state_le_push [simp]:
  "state_le st (push_found p st)" "state_le st (push_unreadable cx item reason st)"
  "state_le st (push_protected cx item reason st)" "state_le st (push_disbelieved cx item reason st)"
  by (auto simp: state_le_def report_le_def push_found_def push_unreadable_def push_protected_def
      push_disbelieved_def)

lemma scan_service_le [simp]: "state_le st (scan_service cx name st)"
  by (auto simp: scan_service_def with_image_def split: lookup.splits)

lemma scan_registered_driver_le [simp]: "state_le st (scan_registered_driver cx file key st)"
  by (simp add: scan_registered_driver_def Let_def)

lemma fold_le: "(\<And>x s. state_le s (f x s)) \<Longrightarrow> state_le st (fold f xs st)"
proof (induction xs arbitrary: st)
  case (Cons x xs)
  then have "state_le st (f x st)" "state_le (f x st) (fold f xs (f x st))" by blast+
  then show ?case by (auto intro: state_le_trans)
qed simp

lemma scan_driver_le [simp]: "state_le st (scan_driver cx file st)"
proof (cases "filter (names_file cx file) (cx_driver_keys cx) = []")
  case True
  then show ?thesis
    by (auto simp: scan_driver_def scan_unregistered_driver_def Let_def split: lookup.splits file_kind.splits)
next
  case False
  have "state_le st (fold (scan_registered_driver cx file)
      (filter (names_file cx file) (cx_driver_keys cx)) st)"
    by (rule fold_le) simp
  with False show ?thesis by (simp add: scan_driver_def Let_def)
qed

lemma scan_registry_key_le: "scan_registry_key cx key v st = Ret st' \<Longrightarrow> state_le st st'"
  by (auto simp: scan_registry_key_def split: option.splits lookup.splits)

lemma scan_expansion_le: "scan_expansion cx path st = Ret st' \<Longrightarrow> state_le st st'"
  by (auto simp: scan_expansion_def Let_def split: option.splits lookup.splits)

lemma fold_run_le:
  assumes "fold_run f xs st = Ret st'" and "\<And>x s t. f x s = Ret t \<Longrightarrow> state_le s t"
  shows "state_le st st'"
proof (rule fold_run_invariant [OF assms(1), of "state_le st"])
  show "state_le st st" by simp
qed (use assms(2) state_le_trans in blast)

lemma scan_path_le:
  assumes "scan_path cx template st = Ret st'"
  shows "state_le st st'"
proof (cases "expand_with template (env_lookup (cx_environment cx))")
  case (Inr paths)
  with assms have "fold_run (scan_expansion cx) paths st = Ret st'" by (simp add: scan_path_def)
  then show ?thesis by (rule fold_run_le) (rule scan_expansion_le)
qed (use assms in \<open>auto simp: scan_path_def\<close>)

lemma scan_key_entry_le:
  "fold_run (scan_registry_key cx key) vs st = Ret st' \<Longrightarrow> state_le st st'"
  by (erule fold_run_le) (erule scan_registry_key_le)

section \<open>One entry\<close>

text \<open>The states of an entry's audit between its four loops.\<close>

definition after_services :: "audit_context \<Rightarrow> report \<Rightarrow> audit_state" where
  "after_services cx r = fold (scan_service cx) (ac_services (cx_entry cx)) \<lparr>st_report = r, st_found = []\<rparr>"

definition after_drivers :: "audit_context \<Rightarrow> report \<Rightarrow> audit_state" where
  "after_drivers cx r = fold (scan_driver cx) (ac_drivers (cx_entry cx)) (after_services cx r)"

lemma audit_entry_stages:
  assumes "audit_entry cx r = Ret r'"
  obtains st1 st2 where
    "fold_run (\<lambda>entry. fold_run (scan_registry_key cx (re_key entry)) (views (re_key entry) (re_view entry)))
       (ac_registry (cx_entry cx)) (after_drivers cx r) = Ret st1"
    and "fold_run (\<lambda>entry. scan_path cx (pe_path entry)) (ac_paths (cx_entry cx)) st1 = Ret st2"
    and "r' = settle cx st2"
  using assms by (auto simp: audit_entry_def after_services_def after_drivers_def Let_def)

lemma stages_le:
  "state_le \<lparr>st_report = r, st_found = []\<rparr> (after_services cx r)"
  "state_le (after_services cx r) (after_drivers cx r)"
  by (auto simp: after_services_def after_drivers_def intro!: fold_le)

lemma stages_fair: "all_fair cx (after_drivers cx r)"
proof -
  have "all_fair cx (after_services cx r)"
    unfolding after_services_def
    by (rule fold_invariant_set) (auto simp: all_fair_def [of cx "\<lparr>st_report = r, st_found = []\<rparr>"]
        intro: scan_service_fair)
  then show ?thesis
    unfolding after_drivers_def by (rule fold_invariant_set) (auto intro: scan_driver_fair)
qed

lemma settle_report:
  "rp_unreadable (settle cx st) = rp_unreadable (st_report st)"
  "rp_protected (settle cx st) = rp_protected (st_report st)"
  "rp_disbelieved (settle cx st) = rp_disbelieved (st_report st)"
  "rp_v (settle cx st) = rp_v (st_report st)"
  by (simp_all add: settle_def Let_def)

lemma settle_findings:
  "f \<in> set (rp_findings (settle cx st)) \<longleftrightarrow>
     f \<in> set (rp_findings (st_report st))
     \<or> (\<exists>p \<in> set (st_found st). f = settle_one (cx_entry cx)
          (list_ex (\<lambda>p. pd_judged p = Some Confirmed) (st_found st))
          (list_ex (\<lambda>p. pd_judged p = Some Suspicious) (st_found st)) p)"
  by (auto simp: settle_def Let_def)

lemma settle_le: "report_le (st_report st) (settle cx st)"
  by (auto simp: report_le_def settle_def Let_def)

text \<open>
  What a finding of one entry says, among the findings of that entry: the entry's name, an
  artifact the machine shows, and the verdict of its own file; where that file is not there to
  judge, the verdict the other files of the entry agree on.
\<close>

definition settled_fairly :: "audit_context \<Rightarrow> finding set \<Rightarrow> finding \<Rightarrow> bool" where
  "settled_fairly cx S f \<longleftrightarrow>
     (fd_classification f = Confirmed \<longleftrightarrow>
        own_signed cx (fd_artifact f)
        \<or> \<not> own_on_disk cx (fd_artifact f) \<and> (\<exists>g \<in> S. own_signed cx (fd_artifact g))
          \<and> (\<forall>g \<in> S. \<not> own_wrong cx (fd_artifact g)))
     \<and> (fd_classification f = Suspicious \<longleftrightarrow> own_wrong cx (fd_artifact f))"

definition of_entry :: "audit_context \<Rightarrow> finding \<Rightarrow> bool" where
  "of_entry cx f \<longleftrightarrow>
     fd_anticheat f = ac_id (cx_entry cx) \<and> fd_risk f = ac_risk (cx_entry cx) \<and> present cx (fd_artifact f)"

definition fair_among :: "finding set \<Rightarrow> audit_context \<Rightarrow> finding \<Rightarrow> bool" where
  "fair_among F cx f \<longleftrightarrow>
     (\<exists>S \<subseteq> F. f \<in> S \<and> (\<forall>g \<in> S. of_entry cx g) \<and> settled_fairly cx S f)"

lemma fair_among_mono: "fair_among F cx f \<Longrightarrow> F \<subseteq> F' \<Longrightarrow> fair_among F' cx f"
  unfolding fair_among_def by (meson subset_trans)

lemma settle_one_fair:
  assumes "all_fair cx st" and "p \<in> set (st_found st)"
  defines "settled \<equiv> settle_one (cx_entry cx) (list_ex (\<lambda>p. pd_judged p = Some Confirmed) (st_found st))
      (list_ex (\<lambda>p. pd_judged p = Some Suspicious) (st_found st))"
  shows "fair_among (settled ` set (st_found st)) cx (settled p)"
proof -
  have fair: "pd_judged q = own_verdict cx (pd_artifact q)" "present cx (pd_artifact q)"
    if "q \<in> set (st_found st)" for q
    using assms(1) that by (auto simp: all_fair_def list_all_iff fair_pending_def)
  have art: "fd_artifact (settled q) = pd_artifact q" "fd_anticheat (settled q) = ac_id (cx_entry cx)"
    "fd_risk (settled q) = ac_risk (cx_entry cx)" for q
    by (simp_all add: settled_def settle_one_def Let_def)
  have signed: "list_ex (\<lambda>p. pd_judged p = Some Confirmed) (st_found st)
      \<longleftrightarrow> (\<exists>q \<in> set (st_found st). own_signed cx (pd_artifact q))"
    and wrong: "list_ex (\<lambda>p. pd_judged p = Some Suspicious) (st_found st)
      \<longleftrightarrow> (\<exists>q \<in> set (st_found st). own_wrong cx (pd_artifact q))"
    using fair(1) own_verdict_cases by (auto simp: list_ex_iff)
  have class_of: "fd_classification (settled p) = (case own_verdict cx (pd_artifact p) of
      Some c \<Rightarrow> c
    | None \<Rightarrow> if (\<exists>q \<in> set (st_found st). own_signed cx (pd_artifact q))
               \<and> \<not> (\<exists>q \<in> set (st_found st). own_wrong cx (pd_artifact q)) then Confirmed else Probable)"
    using fair(1) [OF assms(2)]
    unfolding settled_def settle_one_def Let_def signed wrong by (simp split: option.split)
  have "settled_fairly cx (settled ` set (st_found st)) (settled p)"
    unfolding settled_fairly_def class_of art ball_simps bex_simps
    using own_verdict_cases [of cx "pd_artifact p"] by (auto split: option.splits)
  moreover have "\<forall>g \<in> settled ` set (st_found st). of_entry cx g"
    using fair(2) art by (auto simp: of_entry_def)
  ultimately show ?thesis using assms(2) unfolding fair_among_def by blast
qed

lemma audit_entry_findings:
  assumes "audit_entry cx r = Ret r'" and "f \<in> set (rp_findings r')" and "f \<notin> set (rp_findings r)"
  shows "fair_among (set (rp_findings r')) cx f"
  using assms(1)
proof (rule audit_entry_stages)
  fix st1 st2
  assume keys: "fold_run (\<lambda>entry. fold_run (scan_registry_key cx (re_key entry))
      (views (re_key entry) (re_view entry))) (ac_registry (cx_entry cx)) (after_drivers cx r) = Ret st1"
    and paths: "fold_run (\<lambda>entry. scan_path cx (pe_path entry)) (ac_paths (cx_entry cx)) st1 = Ret st2"
    and r': "r' = settle cx st2"
  have "all_fair cx st1"
    by (rule fold_run_invariant [where P = "all_fair cx", OF keys stages_fair])
       (rule fold_run_invariant [where P = "all_fair cx"], assumption+, rule scan_registry_key_fair)
  have fair: "all_fair cx st2"
    by (rule fold_run_invariant [where P = "all_fair cx", OF paths \<open>all_fair cx st1\<close>]) (rule scan_path_fair)
  have "state_le (after_drivers cx r) st1"
    using keys by (rule fold_run_le) (rule scan_key_entry_le)
  moreover have "state_le st1 st2"
    using paths by (rule fold_run_le) (rule scan_path_le)
  ultimately have same: "rp_findings (st_report st2) = rp_findings r"
    using stages_le(1) [of r cx] stages_le(2) [of cx r] by (auto simp: state_le_def)
  let ?settled = "settle_one (cx_entry cx) (list_ex (\<lambda>p. pd_judged p = Some Confirmed) (st_found st2))
      (list_ex (\<lambda>p. pd_judged p = Some Suspicious) (st_found st2))"
  obtain p where p: "p \<in> set (st_found st2)" "f = ?settled p"
    using assms(2,3) by (auto simp: r' settle_findings same)
  have "?settled ` set (st_found st2) \<subseteq> set (rp_findings r')" by (auto simp: r' settle_findings)
  with settle_one_fair [OF fair p(1)] show "fair_among (set (rp_findings r')) cx f"
    unfolding p(2) by (rule fair_among_mono)
qed

lemma audit_entry_le:
  assumes "audit_entry cx r = Ret r'"
  shows "report_le r r'"
  using assms
proof (rule audit_entry_stages)
  fix st1 st2
  assume keys: "fold_run (\<lambda>entry. fold_run (scan_registry_key cx (re_key entry))
      (views (re_key entry) (re_view entry))) (ac_registry (cx_entry cx)) (after_drivers cx r) = Ret st1"
    and paths: "fold_run (\<lambda>entry. scan_path cx (pe_path entry)) (ac_paths (cx_entry cx)) st1 = Ret st2"
    and r': "r' = settle cx st2"
  have "state_le (after_drivers cx r) st1"
    using keys by (rule fold_run_le) (rule scan_key_entry_le)
  moreover have "state_le st1 st2"
    using paths by (rule fold_run_le) (rule scan_path_le)
  ultimately have "state_le \<lparr>st_report = r, st_found = []\<rparr> st2"
    using stages_le(1) [of r cx] stages_le(2) [of cx r] state_le_trans by meson
  then have "report_le r (st_report st2)" by (simp add: state_le_def)
  then show "report_le r r'" unfolding r' using settle_le by (rule report_le_trans)
qed

section \<open>What one step leaves behind\<close>

text \<open>A property of states that later steps keep, reached by one step of an entry's audit.\<close>

definition kept :: "(audit_state \<Rightarrow> bool) \<Rightarrow> bool" where
  "kept Q \<longleftrightarrow> (\<forall>st st'. state_le st st' \<longrightarrow> Q st \<longrightarrow> Q st')"

lemma keptD: "kept Q \<Longrightarrow> state_le st st' \<Longrightarrow> Q st \<Longrightarrow> Q st'"
  unfolding kept_def by blast

lemma kept_found: "kept (\<lambda>st. \<exists>p \<in> set (st_found st). pd_artifact p = a)"
  by (auto simp: kept_def state_le_def)

lemma kept_unreadable: "kept (\<lambda>st. rp_unreadable (st_report st) \<noteq> [])"
  unfolding kept_def state_le_def report_le_def by (metis set_empty2 subset_empty)

lemma fold_reaches:
  assumes "kept Q" and "x \<in> set xs" and "\<And>s. Q (f x s)" and "\<And>x s. state_le s (f x s)"
  shows "Q (fold f xs s)"
  using assms(2)
proof (induction xs arbitrary: s)
  case (Cons y xs)
  show ?case
  proof (cases "x = y")
    case True
    have "state_le (f x s) (fold f xs (f x s))" by (rule fold_le) (rule assms(4))
    from keptD [OF assms(1) this assms(3)] True show ?thesis by simp
  next
    case False
    with Cons show ?thesis by simp
  qed
qed simp

lemma fold_run_kept:
  assumes "kept Q" and "fold_run f xs s = Ret t" and "x \<in> set xs"
    and "\<And>s t. f x s = Ret t \<Longrightarrow> Q t" and "\<And>y s t. f y s = Ret t \<Longrightarrow> state_le s t"
  shows "Q t"
  using assms(2,3)
proof (rule fold_run_reaches)
  show "\<And>y s t. y \<in> set xs \<Longrightarrow> Q s \<Longrightarrow> f y s = Ret t \<Longrightarrow> Q t"
    using keptD [OF assms(1)] assms(5) by blast
qed (rule assms(4))

lemma audit_entry_reaches:
  assumes "audit_entry cx r = Ret r'" and "kept Q"
    and step: "(\<exists>name \<in> set (ac_services (cx_entry cx)). \<forall>st. Q (scan_service cx name st))
      \<or> (\<exists>file \<in> set (ac_drivers (cx_entry cx)). \<forall>st. Q (scan_driver cx file st))
      \<or> (\<exists>entry \<in> set (ac_registry (cx_entry cx)). \<exists>v \<in> set (views (re_key entry) (re_view entry)).
           \<forall>st st'. scan_registry_key cx (re_key entry) v st = Ret st' \<longrightarrow> Q st')
      \<or> (\<exists>entry \<in> set (ac_paths (cx_entry cx)).
           \<forall>st st'. scan_path cx (pe_path entry) st = Ret st' \<longrightarrow> Q st')"
  obtains st where "Q st" and "r' = settle cx st"
  using assms(1)
proof (rule audit_entry_stages)
  fix st1 st2
  assume keys: "fold_run (\<lambda>entry. fold_run (scan_registry_key cx (re_key entry))
      (views (re_key entry) (re_view entry))) (ac_registry (cx_entry cx)) (after_drivers cx r) = Ret st1"
    and paths: "fold_run (\<lambda>entry. scan_path cx (pe_path entry)) (ac_paths (cx_entry cx)) st1 = Ret st2"
    and r': "r' = settle cx st2"
  have le1: "state_le (after_drivers cx r) st1"
    using keys by (rule fold_run_le) (rule scan_key_entry_le)
  have le2: "state_le st1 st2"
    using paths by (rule fold_run_le) (rule scan_path_le)
  note le0 = stages_le(2) [of cx r]
  from step have "Q st2"
  proof (elim disjE bexE)
    fix name assume "name \<in> set (ac_services (cx_entry cx))" "\<forall>st. Q (scan_service cx name st)"
    then have "Q (after_services cx r)"
      unfolding after_services_def by - (rule fold_reaches [OF assms(2), of name], simp_all)
    then show "Q st2" using le0 le1 le2 keptD [OF assms(2)] by meson
  next
    fix name assume "name \<in> set (ac_drivers (cx_entry cx))" "\<forall>st. Q (scan_driver cx name st)"
    then have "Q (after_drivers cx r)"
      unfolding after_drivers_def by - (rule fold_reaches [OF assms(2), of name], simp_all)
    then show "Q st2" using le1 le2 keptD [OF assms(2)] by meson
  next
    fix entry v
    assume entry: "entry \<in> set (ac_registry (cx_entry cx))" "v \<in> set (views (re_key entry) (re_view entry))"
      and Q: "\<forall>st st'. scan_registry_key cx (re_key entry) v st = Ret st' \<longrightarrow> Q st'"
    have "Q st1"
      using keys entry(1)
    proof (rule fold_run_kept [OF assms(2)])
      fix s t
      assume "fold_run (scan_registry_key cx (re_key entry)) (views (re_key entry) (re_view entry)) s = Ret t"
      then show "Q t"
        using entry(2) by (rule fold_run_kept [OF assms(2)]) (use Q scan_registry_key_le in blast)+
    qed (rule scan_key_entry_le)
    then show "Q st2" using le2 keptD [OF assms(2)] by meson
  next
    fix entry
    assume "entry \<in> set (ac_paths (cx_entry cx))"
      and "\<forall>st st'. scan_path cx (pe_path entry) st = Ret st' \<longrightarrow> Q st'"
    with paths show "Q st2"
      by - (rule fold_run_kept [OF assms(2) paths], assumption, blast, rule scan_path_le)
  qed
  with r' that show thesis by blast
qed

section \<open>What each artifact leaves\<close>

lemma scan_service_found:
  assumes "present cx (ServiceArtifact name img registry_only)"
  shows "\<exists>p \<in> set (st_found (scan_service cx name st)). pd_artifact p = ServiceArtifact name img registry_only"
  using assms by (cases registry_only) (auto simp: present_def scan_service_def with_image_def push_found_def)

lemma scan_driver_found:
  assumes "present cx (DriverArtifact name service img on_disk)"
  shows "\<exists>p \<in> set (st_found (scan_driver cx name st)).
    pd_artifact p = DriverArtifact name service img on_disk"
proof (cases service)
  case None
  with assms have "filter (names_file cx name) (cx_driver_keys cx) = []"
    by (auto simp: present_def filter_empty_conv)
  then have "scan_driver cx name st = scan_unregistered_driver cx name st"
    by (simp only: scan_driver_def Let_def simp_thms if_True)
  moreover have "on_disk" "img = drivers_path cx name" "mv_path (cx_machine cx) img = Found IsFile"
    using assms None by (auto simp: present_def)
  ultimately show ?thesis
    using None by (simp add: scan_unregistered_driver_def drivers_path_def Let_def push_found_def)
next
  case (Some s)
  let ?Q = "\<lambda>st. \<exists>p \<in> set (st_found st). pd_artifact p = DriverArtifact name service img on_disk"
  from assms Some obtain k where k: "k \<in> set (cx_driver_keys cx)" "names_file cx name k" "sk_name k = s"
    "img = driver_image cx k" "on_disk = (mv_path (cx_machine cx) img = Found IsFile)"
    by (auto simp: present_def)
  have one: "?Q (scan_registered_driver cx name k st)" for st
    using k Some by (simp add: scan_registered_driver_def driver_image_def Let_def push_found_def)
  have listed: "k \<in> set (filter (names_file cx name) (cx_driver_keys cx))" using k by simp
  have "?Q (fold (scan_registered_driver cx name) (filter (names_file cx name) (cx_driver_keys cx)) st)"
    by (rule fold_reaches [where Q = ?Q and x = k]) (fact kept_found listed one scan_registered_driver_le)+
  moreover have "filter (names_file cx name) (cx_driver_keys cx) \<noteq> []" using listed by force
  ultimately show ?thesis by (simp only: scan_driver_def Let_def if_False)
qed

lemma scan_registry_key_found:
  assumes "scan_registry_key cx key v st = Ret st'" and "key_passes (cx_exceptions cx) key"
    and "mv_registry_key (cx_machine cx) key v = Found ()"
  shows "\<exists>p \<in> set (st_found st'). pd_artifact p = RegistryKeyArtifact key v"
  using assms by (auto simp: scan_registry_key_def push_found_def simp flip: key_refusal_None)

lemma scan_expansion_found:
  assumes "scan_expansion cx path st = Ret st'" and "path_passes (cx_exceptions cx) path"
    and "mv_path (cx_machine cx) path = Found k" and "k \<noteq> IsReparsePoint"
  shows "\<exists>p \<in> set (st_found st'). pd_artifact p = PathArtifact path (k = IsDirectory)"
proof -
  have "path_refusal cx path k = Ret None" using assms by (simp add: path_refusal_None)
  with assms show ?thesis by (auto simp: scan_expansion_def Let_def push_found_def)
qed

lemma scan_path_kept:
  assumes "kept Q" and "expand_with template (env_lookup (cx_environment cx)) = Inr paths"
    and "path \<in> set paths" and "\<And>s t. scan_expansion cx path s = Ret t \<Longrightarrow> Q t"
    and "scan_path cx template st = Ret st'"
  shows "Q st'"
proof -
  have "fold_run (scan_expansion cx) paths st = Ret st'"
    using assms(2,5) by (simp add: scan_path_def)
  then show ?thesis
    using assms(3) by (rule fold_run_kept [OF assms(1)]) (fact assms(4) scan_expansion_le)+
qed

lemma settle_artifact:
  "p \<in> set (st_found st) \<Longrightarrow>
   \<exists>f \<in> set (rp_findings (settle cx st)). fd_artifact f = pd_artifact p \<and> fd_anticheat f = ac_id (cx_entry cx)"
proof -
  let ?f = "settle_one (cx_entry cx) (list_ex (\<lambda>p. pd_judged p = Some Confirmed) (st_found st))
      (list_ex (\<lambda>p. pd_judged p = Some Suspicious) (st_found st)) p"
  assume "p \<in> set (st_found st)"
  then have "?f \<in> set (rp_findings (settle cx st))" unfolding settle_findings by blast
  moreover have "fd_artifact ?f = pd_artifact p \<and> fd_anticheat ?f = ac_id (cx_entry cx)"
    by (simp add: settle_one_def Let_def)
  ultimately show ?thesis by blast
qed

lemma audit_entry_reports:
  assumes "audit_entry cx r = Ret r'" and "present cx a"
  shows "\<exists>f \<in> set (rp_findings r'). fd_artifact f = a \<and> fd_anticheat f = ac_id (cx_entry cx)"
proof -
  let ?Q = "\<lambda>st. \<exists>p \<in> set (st_found st). pd_artifact p = a"
  have "(\<exists>name \<in> set (ac_services (cx_entry cx)). \<forall>st. ?Q (scan_service cx name st))
      \<or> (\<exists>file \<in> set (ac_drivers (cx_entry cx)). \<forall>st. ?Q (scan_driver cx file st))
      \<or> (\<exists>entry \<in> set (ac_registry (cx_entry cx)). \<exists>v \<in> set (views (re_key entry) (re_view entry)).
           \<forall>st st'. scan_registry_key cx (re_key entry) v st = Ret st' \<longrightarrow> ?Q st')
      \<or> (\<exists>entry \<in> set (ac_paths (cx_entry cx)).
           \<forall>st st'. scan_path cx (pe_path entry) st = Ret st' \<longrightarrow> ?Q st')"
  proof (cases a)
    case (ServiceArtifact name img registry_only)
    then have "name \<in> set (ac_services (cx_entry cx))" using assms(2) by (simp add: present_def)
    then show ?thesis using scan_service_found assms(2) unfolding ServiceArtifact by blast
  next
    case (DriverArtifact name service img on_disk)
    then have "name \<in> set (ac_drivers (cx_entry cx))" using assms(2) by (simp add: present_def)
    then show ?thesis using scan_driver_found assms(2) unfolding DriverArtifact by blast
  next
    case (RegistryKeyArtifact key v)
    with assms(2) show ?thesis
      by (auto simp: present_def dest: scan_registry_key_found)
  next
    case (PathArtifact path directory)
    with assms(2) obtain entry paths k where
      "entry \<in> set (ac_paths (cx_entry cx))"
      and expand: "expand_with (pe_path entry) (env_lookup (cx_environment cx)) = Inr paths" "path \<in> set paths"
      and ok: "path_passes (cx_exceptions cx) path" "mv_path (cx_machine cx) path = Found k"
        "k \<noteq> IsReparsePoint" and directory: "directory = (k = IsDirectory)"
      by (auto simp: present_def)
    moreover have "?Q st'" if "scan_path cx (pe_path entry) st = Ret st'" for st st'
      using kept_found expand _ that
    proof (rule scan_path_kept)
      show "\<And>s t. scan_expansion cx path s = Ret t \<Longrightarrow> ?Q t"
        using scan_expansion_found ok unfolding PathArtifact directory by blast
    qed
    ultimately show ?thesis by blast
  qed
  with assms(1) kept_found obtain st where "?Q st" "r' = settle cx st"
    by (rule audit_entry_reaches)
  then show ?thesis using settle_artifact by metis
qed

section \<open>What cannot be read\<close>

text \<open>The reads of an entry whose failure the audit records.\<close>

definition unreadable_in :: "audit_context \<Rightarrow> bool" where
  "unreadable_in cx \<longleftrightarrow>
     (\<exists>name \<in> set (ac_services (cx_entry cx)).
        (\<exists>e. mv_service (cx_machine cx) name = Unreadable e)
        \<or> mv_service (cx_machine cx) name = Absent
          \<and> (\<exists>e. mv_service_key (cx_machine cx) name = Unreadable e))
     \<or> (\<exists>file \<in> set (ac_drivers (cx_entry cx)).
          (\<forall>k \<in> set (cx_driver_keys cx). \<not> names_file cx file k)
          \<and> (\<exists>e. mv_path (cx_machine cx) (system_root (cx_environment cx) @ win ''/System32/drivers/'' @ file)
                 = Unreadable e))
     \<or> (\<exists>entry \<in> set (ac_registry (cx_entry cx)). key_passes (cx_exceptions cx) (re_key entry)
          \<and> (\<exists>v \<in> set (views (re_key entry) (re_view entry)). \<exists>e.
               mv_registry_key (cx_machine cx) (re_key entry) v = Unreadable e))
     \<or> (\<exists>entry \<in> set (ac_paths (cx_entry cx)).
          case expand_with (pe_path entry) (env_lookup (cx_environment cx)) of
            Inl _ \<Rightarrow> True
          | Inr paths \<Rightarrow> \<exists>path \<in> set paths. \<exists>e. mv_path (cx_machine cx) path = Unreadable e)"

lemma push_unreadable_recorded [simp]: "rp_unreadable (st_report (push_unreadable cx item reason st)) \<noteq> []"
  by (simp add: push_unreadable_def)

lemma scan_driver_unreadable:
  assumes "\<forall>k \<in> set (cx_driver_keys cx). \<not> names_file cx name k"
    and "mv_path (cx_machine cx) (system_root (cx_environment cx) @ win ''/System32/drivers/'' @ name) = Unreadable e"
  shows "rp_unreadable (st_report (scan_driver cx name st)) \<noteq> []"
proof -
  have "filter (names_file cx name) (cx_driver_keys cx) = []" using assms(1) by (simp add: filter_empty_conv)
  then have "scan_driver cx name st = scan_unregistered_driver cx name st"
    by (simp only: scan_driver_def Let_def simp_thms if_True)
  then show ?thesis using assms(2) by (simp add: scan_unregistered_driver_def Let_def)
qed

lemma audit_entry_unreadable:
  assumes "audit_entry cx r = Ret r'" and "unreadable_in cx"
  shows "rp_unreadable r' \<noteq> []"
proof -
  let ?Q = "\<lambda>st. rp_unreadable (st_report st) \<noteq> []"
  have "(\<exists>name \<in> set (ac_services (cx_entry cx)). \<forall>st. ?Q (scan_service cx name st))
      \<or> (\<exists>file \<in> set (ac_drivers (cx_entry cx)). \<forall>st. ?Q (scan_driver cx file st))
      \<or> (\<exists>entry \<in> set (ac_registry (cx_entry cx)). \<exists>v \<in> set (views (re_key entry) (re_view entry)).
           \<forall>st st'. scan_registry_key cx (re_key entry) v st = Ret st' \<longrightarrow> ?Q st')
      \<or> (\<exists>entry \<in> set (ac_paths (cx_entry cx)).
           \<forall>st st'. scan_path cx (pe_path entry) st = Ret st' \<longrightarrow> ?Q st')"
    using assms(2) unfolding unreadable_in_def
  proof (elim disjE)
    assume "\<exists>name \<in> set (ac_services (cx_entry cx)).
        (\<exists>e. mv_service (cx_machine cx) name = Unreadable e)
        \<or> mv_service (cx_machine cx) name = Absent \<and> (\<exists>e. mv_service_key (cx_machine cx) name = Unreadable e)"
    then obtain name where "name \<in> set (ac_services (cx_entry cx))" "\<forall>st. ?Q (scan_service cx name st)"
      by (auto simp: scan_service_def)
    then show ?thesis by blast
  next
    assume "\<exists>file \<in> set (ac_drivers (cx_entry cx)). (\<forall>k \<in> set (cx_driver_keys cx). \<not> names_file cx file k)
        \<and> (\<exists>e. mv_path (cx_machine cx) (system_root (cx_environment cx) @ win ''/System32/drivers/'' @ file)
               = Unreadable e)"
    then show ?thesis using scan_driver_unreadable by blast
  next
    assume "\<exists>entry \<in> set (ac_registry (cx_entry cx)). key_passes (cx_exceptions cx) (re_key entry)
        \<and> (\<exists>v \<in> set (views (re_key entry) (re_view entry)). \<exists>e.
             mv_registry_key (cx_machine cx) (re_key entry) v = Unreadable e)"
    then obtain entry v e where entry: "entry \<in> set (ac_registry (cx_entry cx))"
      and v: "v \<in> set (views (re_key entry) (re_view entry))"
      and none: "key_refusal cx (re_key entry) = Ret None"
      and bad: "mv_registry_key (cx_machine cx) (re_key entry) v = Unreadable e"
      by (auto simp flip: key_refusal_None)
    have "?Q st'" if "scan_registry_key cx (re_key entry) v st = Ret st'" for st st'
      using that none bad by (auto simp: scan_registry_key_def)
    with entry v show ?thesis by blast
  next
    assume "\<exists>entry \<in> set (ac_paths (cx_entry cx)).
        case expand_with (pe_path entry) (env_lookup (cx_environment cx)) of
          Inl _ \<Rightarrow> True
        | Inr paths \<Rightarrow> \<exists>path \<in> set paths. \<exists>e. mv_path (cx_machine cx) path = Unreadable e"
    then obtain entry where entry: "entry \<in> set (ac_paths (cx_entry cx))"
      and bad: "case expand_with (pe_path entry) (env_lookup (cx_environment cx)) of
          Inl _ \<Rightarrow> True
        | Inr paths \<Rightarrow> \<exists>path \<in> set paths. \<exists>e. mv_path (cx_machine cx) path = Unreadable e" by blast
    have "?Q st'" if run: "scan_path cx (pe_path entry) st = Ret st'" for st st'
    proof (cases "expand_with (pe_path entry) (env_lookup (cx_environment cx))")
      case (Inl e)
      with run show ?thesis by (auto simp: scan_path_def)
    next
      case (Inr paths)
      with bad obtain path e where "path \<in> set paths" "mv_path (cx_machine cx) path = Unreadable e" by auto
      then show ?thesis
        using kept_unreadable Inr _ _ run by (elim scan_path_kept) (auto simp: scan_expansion_def)
    qed
    with entry show ?thesis by blast
  qed
  with assms(1) kept_unreadable obtain st where "?Q st" "r' = settle cx st"
    by (rule audit_entry_reaches)
  then show ?thesis by (simp add: settle_report)
qed

section \<open>The whole audit\<close>

lemma audit_le:
  assumes "audit c m env = Ret r"
  shows "report_le (first_report m env) r"
  using assms unfolding audit_def
proof (rule fold_run_invariant)
  show "\<And>ac s t. report_le (first_report m env) s \<Longrightarrow> audit_entry (context_for m env ac) s = Ret t
      \<Longrightarrow> report_le (first_report m env) t"
    using audit_entry_le report_le_trans by blast
qed simp

lemma audit_fair:
  assumes "audit c m env = Ret r" and "f \<in> set (rp_findings r)"
  shows "\<exists>ac \<in> set (cat_anticheat c). fair_among (set (rp_findings r)) (context_for m env ac) f"
proof -
  let ?P = "\<lambda>r. \<forall>f \<in> set (rp_findings r). \<exists>ac \<in> set (cat_anticheat c).
    fair_among (set (rp_findings r)) (context_for m env ac) f"
  have "?P r"
    using assms(1) unfolding audit_def
  proof (rule fold_run_invariant [where P = ?P])
    show "?P (first_report m env)" by (simp add: first_report_def)
  next
    fix ac s t
    assume ac: "ac \<in> set (cat_anticheat c)" and P: "?P s" and step: "audit_entry (context_for m env ac) s = Ret t"
    have "set (rp_findings s) \<subseteq> set (rp_findings t)"
      using audit_entry_le [OF step] by (simp add: report_le_def)
    then show "?P t" using ac P audit_entry_findings [OF step] fair_among_mono by meson
  qed
  with assms(2) show ?thesis by blast
qed

lemma audit_of_entry:
  assumes "audit c m env = Ret r" and "f \<in> set (rp_findings r)"
  shows "\<exists>ac \<in> set (cat_anticheat c). fd_anticheat f = ac_id ac \<and> fd_risk f = ac_risk ac
    \<and> present (context_for m env ac) (fd_artifact f)"
  using audit_fair [OF assms] by (auto simp: fair_among_def of_entry_def context_for_def)

lemma audit_reaches:
  assumes "audit c m env = Ret r" and "ac \<in> set (cat_anticheat c)"
    and "\<And>s t. audit_entry (context_for m env ac) s = Ret t \<Longrightarrow> Q t"
    and "\<And>s t. report_le s t \<Longrightarrow> Q s \<Longrightarrow> Q t"
  shows "Q r"
  using assms(1,2) unfolding audit_def
proof (rule fold_run_reaches)
  show "\<And>y s t. y \<in> set (cat_anticheat c) \<Longrightarrow> Q s \<Longrightarrow> audit_entry (context_for m env y) s = Ret t \<Longrightarrow> Q t"
    using assms(4) audit_entry_le by blast
qed (rule assms(3))

text \<open>
  Nothing is reported that was not seen and allowed: every finding names a catalog entry
  and an artifact the machine showed of it; a registry key it reports passed the key check and a
  path the path check, with that entry's own carve-outs, and no path is a link.
\<close>

theorem audit_findings_allowed:
  assumes "audit c m env = Ret r" and "f \<in> set (rp_findings r)"
  shows "\<exists>ac \<in> set (cat_anticheat c). fd_anticheat f = ac_id ac \<and> fd_risk f = ac_risk ac
    \<and> present (context_for m env ac) (fd_artifact f)"
  by (rule audit_of_entry [OF assms])


lemma present_reported:
  assumes "audit c m env = Ret r" and "ac \<in> set (cat_anticheat c)"
    and "present (context_for m env ac) a"
  shows "\<exists>f \<in> set (rp_findings r). fd_artifact f = a \<and> fd_anticheat f = ac_id ac"
  using assms(1,2)
proof (rule audit_reaches)
  show "\<exists>f \<in> set (rp_findings t). fd_artifact f = a \<and> fd_anticheat f = ac_id ac"
    if "audit_entry (context_for m env ac) s = Ret t" for s t
    using audit_entry_reports [OF that assms(3)] by (simp add: context_for_def)
qed (auto simp: report_le_def)

lemma unread_partial:
  assumes "audit c m env = Ret r"
    and "env_unreadable env \<noteq> []
      \<or> (case mv_driver_keys m of Found ks \<Rightarrow> dk_unreadable ks \<noteq> [] | Absent \<Rightarrow> False | Unreadable _ \<Rightarrow> True)
      \<or> (\<exists>ac \<in> set (cat_anticheat c). unreadable_in (context_for m env ac))"
  shows "partial r"
proof -
  have keep: "rp_unreadable s \<noteq> [] \<Longrightarrow> report_le s t \<Longrightarrow> rp_unreadable t \<noteq> []" for s t
    unfolding report_le_def by (metis set_empty2 subset_empty)
  consider "rp_unreadable (first_report m env) \<noteq> []"
    | ac where "ac \<in> set (cat_anticheat c)" "unreadable_in (context_for m env ac)"
    using assms(2) by (auto simp: first_report_def split: lookup.splits)
  then show ?thesis
  proof cases
    case 1
    with keep audit_le [OF assms(1)] show ?thesis by (auto simp: partial_def)
  next
    case 2
    have "rp_unreadable r \<noteq> []"
      using assms(1) 2(1)
    proof (rule audit_reaches)
      show "rp_unreadable t \<noteq> []" if "audit_entry (context_for m env ac) s = Ret t" for s t
        using that 2(2) by (rule audit_entry_unreadable)
    qed (use keep in blast)
    then show ?thesis by (simp add: partial_def)
  qed
qed

text \<open>
  A scan that could not read a launcher's libraries, the driver keys, a service, an
  unregistered driver's image, an allowed key in some view or a path, or could not expand a
  template, is partial.
\<close>

theorem audit_unreadable_is_partial:
  assumes "audit c m env = Ret r"
    and "env_unreadable env \<noteq> []
      \<or> (case mv_driver_keys m of Found ks \<Rightarrow> dk_unreadable ks \<noteq> [] | Absent \<Rightarrow> False | Unreadable _ \<Rightarrow> True)
      \<or> (\<exists>ac \<in> set (cat_anticheat c). unreadable_in (context_for m env ac))"
  shows "partial r"
  by (rule unread_partial [OF assms])

text \<open>
  C7. Nothing present is missed: every service the service manager lists and can answer for,
  every one it does not list that has a key, every driver a key registers and every image without
  one, every allowed key in every view the catalog asks for and every allowed expansion of every
  path that exists is a finding of its entry, so one key in both views is two findings.
\<close>

theorem audit_complete:
  assumes "audit c m env = Ret r" and "ac \<in> set (cat_anticheat c)"
    and "present (context_for m env ac) a"
  shows "\<exists>f \<in> set (rp_findings r). fd_artifact f = a \<and> fd_anticheat f = ac_id ac"
  by (rule present_reported [OF assms])

text \<open>
  The machine shows nothing of an entry: of each of its services neither the manager nor the
  registry has anything, or the manager only still lists it with its key gone; no driver key names
  a driver of it and its image is not among the drivers; each key and each expansion is absent or
  one the deny-list refuses, or, for a path, a link.
\<close>

definition nothing_shown :: "audit_context \<Rightarrow> bool" where
  "nothing_shown cx \<longleftrightarrow>
     (\<forall>name \<in> set (ac_services (cx_entry cx)).
        mv_service (cx_machine cx) name = Absent \<and> mv_service_key (cx_machine cx) name = Absent
        \<or> (\<exists>status. mv_service (cx_machine cx) name = Found status \<and> ss_stale status))
     \<and> (\<forall>name \<in> set (ac_drivers (cx_entry cx)).
          (\<forall>k \<in> set (cx_driver_keys cx). \<not> names_file cx name k)
          \<and> mv_path (cx_machine cx) (drivers_path cx name) \<in> {Absent, Found IsDirectory, Found IsReparsePoint})
     \<and> (\<forall>entry \<in> set (ac_registry (cx_entry cx)). key_passes (cx_exceptions cx) (re_key entry) \<longrightarrow>
          (\<forall>v \<in> set (views (re_key entry) (re_view entry)).
             mv_registry_key (cx_machine cx) (re_key entry) v = Absent))
     \<and> (\<forall>entry \<in> set (ac_paths (cx_entry cx)). \<exists>paths.
          expand_with (pe_path entry) (env_lookup (cx_environment cx)) = Inr paths
          \<and> (\<forall>path \<in> set paths. path_passes (cx_exceptions cx) path \<longrightarrow>
               mv_path (cx_machine cx) path \<in> {Absent, Found IsReparsePoint}))"

lemma nothing_shown_if:
  assumes none: "\<And>a. \<not> present cx a" and read: "\<not> unreadable_in cx"
  shows "nothing_shown cx"
  unfolding nothing_shown_def
proof (intro conjI ballI impI)
  fix name assume name: "name \<in> set (ac_services (cx_entry cx))"
  show "mv_service (cx_machine cx) name = Absent \<and> mv_service_key (cx_machine cx) name = Absent
      \<or> (\<exists>status. mv_service (cx_machine cx) name = Found status \<and> ss_stale status)"
  proof (cases "mv_service (cx_machine cx) name")
    case (Found status)
    then show ?thesis
      using none [of "ServiceArtifact name (Some (ss_image status)) False"] name by (auto simp: present_def)
  next
    case Absent
    then show ?thesis
    proof (cases "mv_service_key (cx_machine cx) name")
      case (Found k)
      then show ?thesis
        using none [of "ServiceArtifact name (if sk_image k \<noteq> [] then Some (sk_image k) else None) True"]
          name Absent by (simp add: present_def)
    qed (use read name Absent in \<open>auto simp: unreadable_in_def\<close>)
  qed (use read name in \<open>auto simp: unreadable_in_def\<close>)
next
  fix name k assume name: "name \<in> set (ac_drivers (cx_entry cx))" and k: "k \<in> set (cx_driver_keys cx)"
  show "\<not> names_file cx name k"
    using none [of "DriverArtifact name (Some (sk_name k)) (driver_image cx k)
        (mv_path (cx_machine cx) (driver_image cx k) = Found IsFile)"] name k
    by (auto simp: present_def)
next
  fix name assume name: "name \<in> set (ac_drivers (cx_entry cx))"
  have keys: "\<forall>k \<in> set (cx_driver_keys cx). \<not> names_file cx name k"
  proof
    fix k assume "k \<in> set (cx_driver_keys cx)"
    then show "\<not> names_file cx name k"
      using none [of "DriverArtifact name (Some (sk_name k)) (driver_image cx k)
          (mv_path (cx_machine cx) (driver_image cx k) = Found IsFile)"] name
      by (auto simp: present_def)
  qed
  then have "mv_path (cx_machine cx) (drivers_path cx name) \<noteq> Found IsFile"
    using none [of "DriverArtifact name None (drivers_path cx name) True"] name by (auto simp: present_def)
  moreover have "mv_path (cx_machine cx) (drivers_path cx name) \<noteq> Unreadable e" for e
    using read keys name by (auto simp: unreadable_in_def drivers_path_def)
  ultimately show "mv_path (cx_machine cx) (drivers_path cx name) \<in> {Absent, Found IsDirectory, Found IsReparsePoint}"
    by (cases "mv_path (cx_machine cx) (drivers_path cx name)") (auto intro: file_kind.exhaust)
next
  fix entry v
  assume entry: "entry \<in> set (ac_registry (cx_entry cx))" "key_passes (cx_exceptions cx) (re_key entry)"
    and v: "v \<in> set (views (re_key entry) (re_view entry))"
  show "mv_registry_key (cx_machine cx) (re_key entry) v = Absent"
  proof (cases "mv_registry_key (cx_machine cx) (re_key entry) v")
    case (Found u)
    then show ?thesis
      using none [of "RegistryKeyArtifact (re_key entry) v"] entry v by (auto simp: present_def)
  qed (use read entry v in \<open>auto simp: unreadable_in_def\<close>)
next
  fix entry assume entry: "entry \<in> set (ac_paths (cx_entry cx))"
  with read obtain paths where paths: "expand_with (pe_path entry) (env_lookup (cx_environment cx)) = Inr paths"
    by (cases "expand_with (pe_path entry) (env_lookup (cx_environment cx))") (auto simp: unreadable_in_def)
  moreover have "mv_path (cx_machine cx) path \<in> {Absent, Found IsReparsePoint}"
    if path: "path \<in> set paths" "path_passes (cx_exceptions cx) path" for path
  proof (cases "mv_path (cx_machine cx) path")
    case (Found k)
    then show ?thesis
      using none [of "PathArtifact path (k = IsDirectory)"] entry paths path by (auto simp: present_def)
  qed (use read entry paths path(1) in \<open>auto simp: unreadable_in_def split: sum.splits\<close>)
  ultimately show "\<exists>paths. expand_with (pe_path entry) (env_lookup (cx_environment cx)) = Inr paths
      \<and> (\<forall>path \<in> set paths. path_passes (cx_exceptions cx) path \<longrightarrow>
           mv_path (cx_machine cx) path \<in> {Absent, Found IsReparsePoint})"
    by blast
qed

section \<open>Panics\<close>

lemma key_refusal_ascii: "ascii_str key \<Longrightarrow> key_refusal cx key \<noteq> Panic"
  by (auto simp: key_refusal_def dest: check_key_ascii split: sum.splits)

lemma path_refusal_ascii: "ascii_str path \<Longrightarrow> path_refusal cx path k \<noteq> Panic"
  by (simp add: path_refusal_def canonicalise_ascii)

text \<open>The texts an entry's audit canonicalises: its keys and the expansions that exist.\<close>

definition ascii_entry :: "audit_context \<Rightarrow> bool" where
  "ascii_entry cx \<longleftrightarrow>
     (\<forall>entry \<in> set (ac_registry (cx_entry cx)). ascii_str (re_key entry))
     \<and> (\<forall>entry \<in> set (ac_paths (cx_entry cx)).
          case expand_with (pe_path entry) (env_lookup (cx_environment cx)) of
            Inl _ \<Rightarrow> True
          | Inr paths \<Rightarrow> \<forall>path \<in> set paths. ascii_str path \<or> mv_path (cx_machine cx) path = Absent)"

lemma audit_entry_total: "ascii_entry cx \<Longrightarrow> audit_entry cx r \<noteq> Panic"
proof -
  assume ascii: "ascii_entry cx"
  have keys: "fold_run (scan_registry_key cx (re_key entry)) vs st \<noteq> Panic"
    if "entry \<in> set (ac_registry (cx_entry cx))" for entry vs st
    using ascii that
    by (intro fold_run_total) (simp add: scan_registry_key_def ascii_entry_def key_refusal_ascii)
  have one: "scan_expansion cx path st \<noteq> Panic"
    if "ascii_str path \<or> mv_path (cx_machine cx) path = Absent" for path st
    using that by (auto simp: scan_expansion_def path_refusal_ascii split: lookup.splits)
  have paths: "scan_path cx (pe_path entry) st \<noteq> Panic"
    if "entry \<in> set (ac_paths (cx_entry cx))" for entry st
  proof (cases "expand_with (pe_path entry) (env_lookup (cx_environment cx))")
    case (Inr expanded)
    have "\<forall>path \<in> set expanded. ascii_str path \<or> mv_path (cx_machine cx) path = Absent"
      using bspec [OF conjunct2 [OF ascii [unfolded ascii_entry_def]] that] Inr by simp
    then have "fold_run (scan_expansion cx) expanded st \<noteq> Panic" by (intro fold_run_total one) simp
    with Inr show ?thesis by (simp add: scan_path_def)
  qed (simp add: scan_path_def)
  have "fold_run (\<lambda>entry. fold_run (scan_registry_key cx (re_key entry))
      (views (re_key entry) (re_view entry))) (ac_registry (cx_entry cx)) st \<noteq> Panic" for st
    by (rule fold_run_total) (rule keys)
  moreover have "fold_run (\<lambda>entry. scan_path cx (pe_path entry)) (ac_paths (cx_entry cx)) st \<noteq> Panic" for st
    by (rule fold_run_total) (rule paths)
  ultimately show ?thesis
    by (simp add: audit_entry_def Let_def bind_run_eq_Panic)
qed

lemma audit_total:
  assumes "\<forall>ac \<in> set (cat_anticheat c). ascii_entry (context_for m env ac)"
  shows "audit c m env \<noteq> Panic"
  unfolding audit_def using assms by (intro fold_run_total audit_entry_total) blast

text \<open>
  C13. The audit returns a report whenever the catalog's keys and the expansions that exist on
  the machine are ASCII, whatever the machine answers.
\<close>

theorem audit_returns:
  assumes "\<forall>ac \<in> set (cat_anticheat c). ascii_entry (context_for m env ac)"
  shows "\<exists>r. audit c m env = Ret r"
  using audit_total [OF assms] by (cases "audit c m env") auto

section \<open>Examples\<close>

definition sample_entry :: anti_cheat where
  "sample_entry = (blank_anti_cheat ''exac'')\<lparr>
     ac_authenticode_cn := [''Ex Corp''],
     ac_registry := [\<lparr>re_key = win ''HKLM/SOFTWARE/ExAC'', re_view = Both, re_class = Config\<rparr>],
     ac_paths := [\<lparr>pe_path = win ''D:/Games/ExAC/exac.exe'', pe_class = Install\<rparr>]\<rparr>"

definition sample_machine :: machine_view where
  "sample_machine =
     \<lparr>mv_service = (\<lambda>_. Absent), mv_service_key = (\<lambda>_. Absent), mv_driver_keys = Absent,
      mv_registry_key = (\<lambda>_ v. case v of View32 \<Rightarrow> Found () | View64 \<Rightarrow> Unreadable ''denied''),
      mv_path = (\<lambda>_. Found IsFile), mv_signature = (\<lambda>_. Verified ''EX CORP'')\<rparr>"

definition sample_audit_catalog :: catalog where
  "sample_audit_catalog = blank_catalog\<lparr>cat_anticheat := [sample_entry]\<rparr>"

definition sample_report :: report where
  "sample_report =
     (case audit sample_audit_catalog sample_machine new_environment of
        Ret r \<Rightarrow> r
      | Panic \<Rightarrow> first_report sample_machine new_environment)"

lemma sample_audit: "audit sample_audit_catalog sample_machine new_environment = Ret sample_report"
  by code_simp

lemma sample_entries: "cat_anticheat sample_audit_catalog = [sample_entry]"
  by (simp add: sample_audit_catalog_def blank_catalog_def)

lemma sample_findings:
  "map fd_classification (rp_findings sample_report) = [Confirmed, Confirmed]"
  by code_simp

lemma sample_finding: "\<exists>f. f \<in> set (rp_findings sample_report) \<and> fd_classification f = Confirmed"
  using sample_findings by (cases "rp_findings sample_report") auto

theorem audit_findings_allowed_witness:
  "\<exists>f. f \<in> set (rp_findings sample_report)
     \<and> present (context_for sample_machine new_environment sample_entry) (fd_artifact f)"
proof -
  obtain f where "f \<in> set (rp_findings sample_report)" using sample_finding by blast
  with audit_findings_allowed [OF sample_audit this] show ?thesis by (auto simp: sample_entries)
qed


theorem audit_complete_witness:
  "\<exists>f \<in> set (rp_findings sample_report).
     fd_artifact f = RegistryKeyArtifact (win ''HKLM/SOFTWARE/ExAC'') View32"
proof -
  have views: "View32 \<in> set (views (win ''HKLM/SOFTWARE/ExAC'') Both)" by code_simp
  have "key_passes (exceptions_for sample_entry) (win ''HKLM/SOFTWARE/ExAC'')" by code_simp
  with views have "present (context_for sample_machine new_environment sample_entry)
      (RegistryKeyArtifact (win ''HKLM/SOFTWARE/ExAC'') View32)"
    by (simp add: present_def context_for_def sample_entry_def sample_machine_def)
  with audit_complete [OF sample_audit, of sample_entry] show ?thesis by (auto simp: sample_entries)
qed

theorem audit_unreadable_is_partial_witness: "partial sample_report"
proof -
  have "mv_registry_key sample_machine (win ''HKLM/SOFTWARE/ExAC'') View64 = Unreadable ''denied''"
    by (simp add: sample_machine_def)
  moreover have "View64 \<in> set (views (win ''HKLM/SOFTWARE/ExAC'') Both)"
    and "key_passes (exceptions_for sample_entry) (win ''HKLM/SOFTWARE/ExAC'')" by code_simp+
  ultimately have "unreadable_in (context_for sample_machine new_environment sample_entry)"
    by (auto simp: unreadable_in_def context_for_def sample_entry_def)
  then show ?thesis
    using audit_unreadable_is_partial [OF sample_audit] by (simp add: sample_entries)
qed

theorem audit_returns_witness: "\<exists>r. audit sample_audit_catalog sample_machine new_environment = Ret r"
proof (rule audit_returns)
  have "ascii_entry (context_for sample_machine new_environment sample_entry)" by code_simp
  then show "\<forall>ac \<in> set (cat_anticheat sample_audit_catalog).
      ascii_entry (context_for sample_machine new_environment ac)"
    by (simp add: sample_entries)
qed

section \<open>Two limits of the audit\<close>

text \<open>
  An image that exists in the configuration and cannot be read: the audit says so in the
  evidence of a service, calls a driver's image not on disk, and records neither as
  unreadable, so the scan is not partial.
\<close>

definition blind_machine :: machine_view where
  "blind_machine =
     \<lparr>mv_service = (\<lambda>_. Found \<lparr>ss_image = win ''C:/ExAC/svc.exe'', ss_stale = False\<rparr>),
      mv_service_key = (\<lambda>_. Absent),
      mv_driver_keys = Found \<lparr>dk_drivers = [\<lparr>sk_name = ''exac'', sk_image = win ''C:/ExAC/exac.sys'',
                                             sk_service_type = 1\<rparr>], dk_unreadable = []\<rparr>,
      mv_registry_key = (\<lambda>_ _. Absent), mv_path = (\<lambda>_. Unreadable ''denied''),
      mv_signature = (\<lambda>_. Unsigned)\<rparr>"

definition blind_catalog :: catalog where
  "blind_catalog = blank_catalog\<lparr>cat_anticheat :=
     [(blank_anti_cheat ''exac'')\<lparr>ac_services := [''exac''], ac_drivers := [''exac.sys'']\<rparr>]\<rparr>"

lemma unreadable_image_unrecorded:
  "case audit blind_catalog blind_machine new_environment of
     Panic \<Rightarrow> False
   | Ret r \<Rightarrow> \<not> partial r \<and> map fd_artifact (rp_findings r) =
       [ServiceArtifact ''exac'' (Some (win ''C:/ExAC/svc.exe'')) False,
        DriverArtifact ''exac.sys'' (Some ''exac'') (win ''C:/ExAC/exac.sys'') False]"
  by code_simp

text \<open>
  A game library whose folder begins with a letter outside ASCII: the first existing expansion
  below it makes the audit panic.
\<close>

definition library_catalog :: catalog where
  "library_catalog = blank_catalog\<lparr>cat_anticheat :=
     [(blank_anti_cheat ''exac'')\<lparr>ac_paths :=
        [\<lparr>pe_path = win ''%STEAM_LIBRARY%/ExAC'', pe_class = Install\<rparr>]\<rparr>]\<rparr>"

lemma library_outside_ascii_panics:
  "audit library_catalog sample_machine
     (with_values new_environment ''STEAM_LIBRARY'' [win ''D:/'' @ [CHR 0xC3, CHR 0x9C] @ ''bung'']) = Panic"
  by code_simp

end
