(* ===== verification/Cli.thy ===== *)
theory Cli
  imports Catalog_Load Std_Path Audit_Report
begin

text \<open>
  The command line, \<open>cli/src/bin/wardsweep.rs\<close>: from the parsed arguments to what is printed,
  what is written and the exit code.  The world is a record: files, the environment, the
  harness as a process, the machine to scan.  Parsing arguments belongs to \<open>clap\<close>, TOML to
  \<open>toml\<close>, JSON to \<open>serde_json\<close>, the signature check to \<open>ed25519_dalek\<close>: parameters.
\<close>

section \<open>Arguments\<close>

datatype scan_mode = AuditMode | OrphanMode | FullMode

datatype catalog_command = VerifyCatalog | ListCatalog | ShowEntry string

datatype command =
  CatalogCommand catalog_command
| ScanCommand scan_mode bool "string option"
| ObserveCommand "string list"

record cli_args =
  cl_catalog :: "string option"
  cl_data_dir :: "string option"
  cl_command :: command

section \<open>The world\<close>

record 'key cli_world =
  cw_current_exe :: "string + string"
  cw_is_file :: "string \<Rightarrow> bool"
  cw_run :: "string \<Rightarrow> string list \<Rightarrow> string + int option"
  cw_program_data :: "string option"
  cw_read :: "string \<Rightarrow> string option"
  cw_write :: "string \<Rightarrow> string \<Rightarrow> string option"
  cw_toml :: "string \<Rightarrow> string + catalog"
  cw_crypto :: "'key crypto"
  cw_public_key :: string
  cw_version :: string
  cw_machine :: machine_view
  cw_environment :: environment
  cw_encode :: "json_record \<Rightarrow> string + string"

section \<open>The harness\<close>

definition harness_name :: string where
  "harness_name = ''wardsweep-observe'' @ ''.exe''"

definition harness_beside :: "string \<Rightarrow> string" where
  "harness_beside exe = with_file_name exe harness_name"

definition exit_code_of :: "int option \<Rightarrow> exit_code" where
  "exit_code_of code =
     (case code of
        Some n \<Rightarrow> if 0 \<le> n \<and> n < 256 then word_of_int n else exit_scan_error
      | None \<Rightarrow> exit_scan_error)"

definition run_observe :: "'key cli_world \<Rightarrow> string list \<Rightarrow> outcome" where
  "run_observe w args =
     (case cw_current_exe w of
        Inl e \<Rightarrow>
          ended exit_scan_error []
            (say (''cannot tell where this executable is, so cannot find the harness: '' @ e))
      | Inr exe \<Rightarrow>
          let harness = harness_beside exe
          in if \<not> cw_is_file w harness then
               ended exit_scan_error []
                 (say (''the observation harness is not installed: '' @ harness @ '' does not exist'')
                  @ say (''  it is a separate download on the release page (docs/14-DISTRIBUTION-TRUST.md), or build it with `cargo build --release -p wardsweep-observe`, and put ''
                         @ harness_name @ '' in ''
                         @ (case path_parent harness of Some dir \<Rightarrow> dir | None \<Rightarrow> ''this executable'')))
             else (case cw_run w harness args of
                     Inr status \<Rightarrow> ended (exit_code_of status) [] []
                   | Inl e \<Rightarrow> ended exit_scan_error [] (say (''cannot run '' @ harness @ '': '' @ e))))"

section \<open>Loading a catalog\<close>

definition default_data_dir :: "'key cli_world \<Rightarrow> string" where
  "default_data_dir w =
     push_name (case cw_program_data w of Some dir \<Rightarrow> dir | None \<Rightarrow> win ''C:/ProgramData'') ''WardSweep''"

definition resolve_catalog_path :: "'key cli_world \<Rightarrow> string option \<Rightarrow> string option \<Rightarrow> string" where
  "resolve_catalog_path w explicit data_dir =
     (case explicit of
        Some path \<Rightarrow> path
      | None \<Rightarrow>
          push_name (push_name (case data_dir of Some dir \<Rightarrow> dir | None \<Rightarrow> default_data_dir w) ''catalog'')
            ''catalog.toml'')"

definition signature_path :: "string \<Rightarrow> string" where
  "signature_path catalog = catalog @ ''.sig''"

text \<open>\<open>str::parse\<close> to a \<open>u64\<close>: an optional plus sign, digits, and no overflow.\<close>

definition parse_u64 :: "string \<Rightarrow> nat option" where
  "parse_u64 s =
     (let digits = (case strip_prefix s ''+'' of Some r \<Rightarrow> r | None \<Rightarrow> s);
          n = foldl (\<lambda>n c. 10 * n + (of_char c - 48)) 0 digits
      in if digits = [] \<or> \<not> list_all is_digit_byte digits \<or> 2 ^ 64 \<le> n then None else Some n)"

fun all_some :: "'a option list \<Rightarrow> 'a list option" where
  "all_some [] = Some []"
| "all_some (None # xs) = None"
| "all_some (Some x # xs) = map_option (\<lambda>ys. x # ys) (all_some xs)"

definition parse_version :: "string \<Rightarrow> nat list option" where
  "parse_version version =
     all_some (map parse_u64
       (split_char (CHR ''.'') (hd (split_on (\<lambda>c. c = CHR ''-'' \<or> c = CHR ''+'') (trim version)))))"

definition version_part :: "nat list \<Rightarrow> nat \<Rightarrow> nat" where
  "version_part parts index = (if index < length parts then parts ! index else 0)"

fun compare_from :: "nat \<Rightarrow> nat list \<Rightarrow> nat list \<Rightarrow> nat \<Rightarrow> bool" where
  "compare_from 0 required running index = False"
| "compare_from (Suc left) required running index =
     (let want = version_part required index; have' = version_part running index
      in if want \<noteq> have' then have' < want else compare_from left required running (Suc index))"

definition requires_newer :: "string \<Rightarrow> string \<Rightarrow> bool option" where
  "requires_newer required running =
     (case parse_version required of
        None \<Rightarrow> None
      | Some want \<Rightarrow>
          (case parse_version running of
             None \<Rightarrow> None
           | Some have' \<Rightarrow> Some (compare_from (max (length want) (length have')) want have' 0)))"

definition version_warning :: "'key cli_world \<Rightarrow> catalog \<Rightarrow> string" where
  "version_warning w c =
     (case requires_newer (minimum_app_version c) (cw_version w) of
        Some True \<Rightarrow>
          say (''warning: this catalog expects WardSweep '' @ minimum_app_version c
               @ '' or later, and this is '' @ cw_version w)
      | Some False \<Rightarrow> []
      | None \<Rightarrow>
          say (''warning: cannot compare the catalog'' @ [CHR 0x27] @ ''s minimum_app_version `'' @ minimum_app_version c
               @ ''` with '' @ cw_version w))"

text \<open>What a refusal says.\<close>

definition no_catalog :: "string \<Rightarrow> string" where
  "no_catalog path =
     say (''no catalog at '' @ path)
     @ say (win ''  pass --catalog <path>, or install one under %ProgramData%/WardSweep/catalog'')"

definition no_signature :: "string \<Rightarrow> string" where
  "no_signature path =
     say (''no signature at '' @ path) @ say ''  an unverified catalog is refused, never used with a warning''"

definition not_valid :: "verify_error \<Rightarrow> string" where
  "not_valid e = say (''catalog signature is not valid: '' @ verify_error_text e)"

definition not_readable :: "parse_error \<Rightarrow> string" where
  "not_readable e = say (''catalog is signed but not readable: '' @ parse_error_text e)"

definition fails_checks :: "problem list \<Rightarrow> string" where
  "fails_checks problems =
     say (''catalog is signed but fails '' @ decimal (length problems)
          @ '' integrity check(s), and is refused:'')
     @ concat (map (\<lambda>p. say (''  '' @ problem_text p)) problems)"

text \<open>The catalog with the warnings, or the exit code with the reasons.\<close>

definition load_verified :: "'key cli_world \<Rightarrow> string \<Rightarrow> ((exit_code \<times> string) + (catalog \<times> string)) run" where
  "load_verified w path =
     (case cw_read w path of
        None \<Rightarrow> Ret (Inl (exit_nothing, no_catalog path))
      | Some bytes \<Rightarrow>
          (case cw_read w (signature_path path) of
             None \<Rightarrow> Ret (Inl (exit_catalog_failed, no_signature (signature_path path)))
           | Some sig \<Rightarrow>
               (case verify_detached (cw_crypto w) bytes sig (cw_public_key w) of
                  Inl e \<Rightarrow> Ret (Inl (exit_catalog_failed, not_valid e))
                | Inr _ \<Rightarrow>
                    (case parse_bytes (cw_toml w) bytes of
                       Inl e \<Rightarrow> Ret (Inl (exit_catalog_failed, not_readable e))
                     | Inr c \<Rightarrow>
                         map_run (\<lambda>problems.
                           if problems \<noteq> [] then Inl (exit_catalog_failed, fails_checks problems)
                           else Inr (c, version_warning w c))
                         (integrity_problems c)))))"

section \<open>Inspecting the catalog\<close>

fun kind_debug :: "ac_kind \<Rightarrow> string" where
  "kind_debug Kernel = ''Kernel''"
| "kind_debug Usermode = ''Usermode''"
| "kind_debug Hybrid = ''Hybrid''"

fun risk_debug :: "risk \<Rightarrow> string" where
  "risk_debug Low = ''Low''"
| "risk_debug Medium = ''Medium''"
| "risk_debug High = ''High''"
| "risk_debug Critical = ''Critical''"

fun class_debug :: "class_of \<Rightarrow> string" where
  "class_debug Install = ''Install''"
| "class_debug Data = ''Data''"
| "class_debug Config = ''Config''"
| "class_debug Service = ''Service''"
| "class_debug Cache = ''Cache''"
| "class_debug Log = ''Log''"
| "class_debug Save = ''Save''"

definition join_or_none :: "string list \<Rightarrow> string" where
  "join_or_none values = (if values = [] then ''-'' else join_with '', '' values)"

definition catalog_summary :: "string \<Rightarrow> catalog \<Rightarrow> string" where
  "catalog_summary path c =
     say (''catalog:        '' @ path)
     @ say (''schema version: '' @ decimal (unat (schema_version c)))
     @ say (''catalog version: '' @ catalog_version c)
     @ say (''minimum app:    '' @ minimum_app_version c)
     @ say ''signature:      valid''
     @ say (''entries:        '' @ decimal (length (cat_anticheat c)) @ '' anti-cheat, ''
            @ decimal (length (cat_game c)) @ '' game, '' @ decimal (length (cat_launcher c)) @ '' launcher'')"

definition list_line :: "anti_cheat \<Rightarrow> string" where
  "list_line ac =
     say (pad_right 24 (ac_id ac) @ '' '' @ pad_right 10 (to_ascii_lowercase (kind_debug (ac_kind ac)))
          @ '' shared='' @ pad_right 5 (bool_text (ac_shared ac)) @ '' risk='' @ risk_debug (ac_risk ac))"

definition show_entry :: "anti_cheat \<Rightarrow> string" where
  "show_entry ac =
     say (ac_display ac @ '' ('' @ ac_id ac @ '')'')
     @ say (''  kind:      '' @ kind_debug (ac_kind ac))
     @ say (''  risk:      '' @ risk_debug (ac_risk ac))
     @ say (''  shared:    '' @ bool_text (ac_shared ac))
     @ say (''  services:  '' @ join_or_none (ac_services ac))
     @ say (''  drivers:   '' @ join_or_none (ac_drivers ac))
     @ say (''  publisher: '' @ join_or_none (ac_authenticode_cn ac))
     @ concat (map (\<lambda>e. say (''  path       ['' @ class_debug (pe_class e) @ ''] '' @ pe_path e)) (ac_paths ac))
     @ concat (map (\<lambda>e. say (''  registry   ['' @ class_debug (re_class e) @ ''] '' @ re_key e)) (ac_registry ac))"

definition run_catalog :: "catalog_command \<Rightarrow> string \<Rightarrow> catalog \<Rightarrow> outcome" where
  "run_catalog command path c =
     (case command of
        VerifyCatalog \<Rightarrow> ended exit_ok (catalog_summary path c) []
      | ListCatalog \<Rightarrow>
          if cat_anticheat c = [] then
            ended exit_nothing
              (say ''the catalog defines no anti-cheat entries yet''
               @ say (''  entries must come from an observation diff '' @ em_dash
                      @ '' see docs/16-OBSERVATION-HARNESS.md'')) []
          else ended exit_ok (concat (map list_line (cat_anticheat c))) []
      | ShowEntry i \<Rightarrow>
          (case find (\<lambda>ac. ac_id ac = i) (cat_anticheat c) of
             None \<Rightarrow> ended exit_nothing [] (say (''no anti-cheat with id `'' @ i @ ''` in '' @ path))
           | Some ac \<Rightarrow> ended exit_ok (show_entry ac) []))"

section \<open>A report in words\<close>

definition report_exit_code :: "report \<Rightarrow> exit_code" where
  "report_exit_code r =
     (if partial r then exit_partial else if rp_findings r = [] then exit_nothing else exit_ok)"

definition verdict_line :: "report \<Rightarrow> string" where
  "verdict_line r =
     (let found = decimal (length (rp_findings r)) @ '' finding(s): '' @ decimal (count_of r Confirmed)
            @ '' confirmed, '' @ decimal (count_of r Probable) @ '' probable, ''
            @ decimal (count_of r Suspicious) @ '' suspicious''
      in if partial r then
           found @ ''. Partial: '' @ decimal (length (rp_unreadable r))
             @ '' item(s) could not be read; run elevated for a complete picture''
         else found @ ''.'')"

fun classification_name :: "classification \<Rightarrow> string" where
  "classification_name Confirmed = ''confirmed''"
| "classification_name Probable = ''probable''"
| "classification_name Suspicious = ''suspicious''"

fun artifact_line :: "artifact \<Rightarrow> string" where
  "artifact_line (ServiceArtifact name img registry_only) =
     ''service '' @ name @ (if registry_only then '', in the registry only'' else [])"
| "artifact_line (DriverArtifact leaf service img on_disk) =
     ''driver '' @ leaf @ (case service of None \<Rightarrow> [] | Some s \<Rightarrow> '', registered as '' @ s)
     @ (if on_disk then [] else '', image not on disk'')"
| "artifact_line (RegistryKeyArtifact key v) =
     ''key '' @ key @ (case v of View64 \<Rightarrow> '', 64-bit view'' | View32 \<Rightarrow> '', 32-bit view'')"
| "artifact_line (PathArtifact path directory) = (if directory then ''folder '' else ''file '') @ path"

definition entry_title :: "catalog \<Rightarrow> string \<Rightarrow> string" where
  "entry_title c i =
     (case find (\<lambda>entry. ac_id entry = i) (cat_anticheat c) of Some entry \<Rightarrow> ac_display entry | None \<Rightarrow> i)"

definition finding_lines :: "finding \<Rightarrow> string" where
  "finding_lines f =
     say (''  '' @ pad_right 11 (classification_name (fd_classification f)) @ '' '' @ artifact_line (fd_artifact f))
     @ concat (map (\<lambda>line. say (''              '' @ line)) (fd_evidence f))"

text \<open>The findings, each run of one entry's under its title.\<close>

fun render_findings :: "catalog \<Rightarrow> string option \<Rightarrow> finding list \<Rightarrow> string" where
  "render_findings c current [] = []"
| "render_findings c current (f # fs) =
     (if current \<noteq> Some (fd_anticheat f)
      then say (entry_title c (fd_anticheat f) @ '' ('' @ fd_anticheat f @ '')'') else [])
     @ finding_lines f @ render_findings c (Some (fd_anticheat f)) fs"

definition render_report :: "report \<Rightarrow> catalog \<Rightarrow> string" where
  "render_report r c =
     render_findings c None (rp_findings r)
     @ concat (map (\<lambda>i. say (''protected   '' @ pr_target i @ '' ('' @ pr_anticheat i @ ''): '' @ pr_reason i))
         (rp_protected r))
     @ concat (map (\<lambda>i. say (''disbelieved '' @ db_item i @ '' ('' @ db_anticheat i @ ''): '' @ db_reason i))
         (rp_disbelieved r))
     @ concat (map (\<lambda>i. say (''unreadable  '' @ un_item i @ '': '' @ un_reason i)) (rp_unreadable r))
     @ say (verdict_line r)"

section \<open>Scanning\<close>

definition not_json :: "string \<Rightarrow> string" where
  "not_json e = say (''the report could not be written as JSON: '' @ e)"

definition not_written :: "string \<Rightarrow> string \<Rightarrow> string" where
  "not_written path e = say (''cannot write '' @ path @ '': '' @ e)"

definition needs_counting :: string where
  "needs_counting = say ''--mode orphan and --mode full need reference counting, which waits for spike S2 (docs/13-P0-SPIKES.md); this build audits''"

definition run_scan :: "'key cli_world \<Rightarrow> catalog \<Rightarrow> bool \<Rightarrow> string option \<Rightarrow> outcome run" where
  "run_scan w c as_json leaf =
     map_run (\<lambda>r.
       case (if as_json then to_ndjson (cw_encode w) r else Inr (render_report r c)) of
         Inl e \<Rightarrow> ended exit_scan_error [] (not_json e)
       | Inr text \<Rightarrow>
           let remark = (if as_json \<or> leaf \<noteq> None then say (verdict_line r) else [])
           in case leaf of
                None \<Rightarrow> ended (report_exit_code r) text remark
              | Some path \<Rightarrow>
                  (case cw_write w path text of
                     Some e \<Rightarrow> ended exit_scan_error [] (not_written path e)
                   | None \<Rightarrow> (ended (report_exit_code r) [] remark)\<lparr>oc_written := [(path, text)]\<rparr>))
       (audit c (cw_machine w) (cw_environment w))"

section \<open>The program\<close>

text \<open>What came before goes first on the error stream.\<close>

definition after_remarks :: "string \<Rightarrow> outcome \<Rightarrow> outcome" where
  "after_remarks remarks r = r\<lparr>oc_err := remarks @ oc_err r\<rparr>"

definition run_command :: "'key cli_world \<Rightarrow> cli_args \<Rightarrow> outcome run" where
  "run_command w cl =
     (let path = resolve_catalog_path w (cl_catalog cl) (cl_data_dir cl)
      in case cl_command cl of
           ObserveCommand args \<Rightarrow> Ret (run_observe w args)
         | CatalogCommand command \<Rightarrow>
             bind_run (load_verified w path) (\<lambda>loaded.
               Ret (case loaded of
                      Inl (code, why) \<Rightarrow> ended code [] why
                    | Inr (c, remarks) \<Rightarrow> after_remarks remarks (run_catalog command path c)))
         | ScanCommand mode as_json leaf \<Rightarrow>
             if mode \<noteq> AuditMode then
               Ret (ended exit_usage [] needs_counting)
             else
               bind_run (load_verified w path) (\<lambda>loaded.
                 case loaded of
                   Inl (code, why) \<Rightarrow>
                     Ret (ended (if code = exit_nothing then exit_scan_error else code) [] why)
                 | Inr (c, remarks) \<Rightarrow> map_run (after_remarks remarks) (run_scan w c as_json leaf)))"

text \<open>\<open>clap\<close>'s answer about the arguments: a message, and whether it is an error, or the arguments.\<close>

definition cli_main :: "'key cli_world \<Rightarrow> (bool \<times> string) + cli_args \<Rightarrow> outcome run" where
  "cli_main w parsed =
     (case parsed of
        Inl (usage_error, text) \<Rightarrow>
          Ret (if usage_error then ended exit_usage [] text else ended exit_ok text [])
      | Inr cl \<Rightarrow> run_command w cl)"

end
