(* ===== verification/Catalog_Tool.thy ===== *)
theory Catalog_Tool
  imports Catalog_Load
begin

text \<open>
  The catalog tool, \<open>tools/catalog/src/main.rs\<close>: the checks as separate commands, the check of a
  signature, making a key pair and signing.  An error that reaches \<open>main\<close> is its text, the
  contexts before the cause.  Hex, the curve, the random source and the files are the world's.
\<close>

section \<open>The world\<close>

datatype create_outcome = Created | AlreadyExists | CreateFailed string

record 'key tool_world =
  tw_read :: "string \<Rightarrow> string + string"
  tw_write :: "string \<Rightarrow> string \<Rightarrow> string option"
  tw_create_new :: "string \<Rightarrow> create_outcome"
  tw_fill_created :: "string \<Rightarrow> string \<Rightarrow> string option"
  tw_random :: "string + string"
  tw_toml :: "string \<Rightarrow> string + catalog"
  tw_crypto :: "'key crypto"
  tw_hex_encode :: "string \<Rightarrow> string"
  tw_hex_error :: "string \<Rightarrow> string"
  tw_public_of :: "string \<Rightarrow> string"
  tw_sign :: "string \<Rightarrow> string \<Rightarrow> string"

datatype tool_command =
  ToolValidate string
| ToolVerify string string string
| ToolCheckDenylist string
| ToolCheckRefs string
| ToolAuditShared string bool
| ToolKeygen string string
| ToolSign string string string

text \<open>An error and what was printed on the error stream before it, or an outcome.\<close>

type_synonym tool_result = "(string \<times> string) + outcome"

definition fails :: "string \<Rightarrow> tool_result" where
  "fails e = Inl ([], e)"

section \<open>Checks\<close>

definition load_catalog :: "'key tool_world \<Rightarrow> string \<Rightarrow> string + catalog" where
  "load_catalog w path =
     (case tw_read w path of
        Inl e \<Rightarrow> Inl (''cannot read catalog at '' @ path @ '': '' @ e)
      | Inr bytes \<Rightarrow>
          (case parse_bytes (tw_toml w) bytes of
             Inl e \<Rightarrow> Inl (''cannot parse '' @ path @ '': '' @ parse_error_text e)
           | Inr c \<Rightarrow> Inr c))"

definition report_problems :: "string \<Rightarrow> string \<Rightarrow> problem list \<Rightarrow> outcome" where
  "report_problems path check problems =
     (if problems = [] then ended exit_ok (say (''ok: '' @ path @ '' passed '' @ check)) []
      else ended exit_catalog_failed []
             (say (path @ '': '' @ check @ '' found '' @ decimal (length problems) @ '' problem''
                   @ (if length problems = 1 then [] else ''s'') @ '':'')
              @ concat (map (\<lambda>p. say (''  '' @ problem_text p)) problems)))"

definition run_check ::
    "'key tool_world \<Rightarrow> string \<Rightarrow> string \<Rightarrow> (catalog \<Rightarrow> problem list run) \<Rightarrow> tool_result run" where
  "run_check w path check problems =
     (case load_catalog w path of
        Inl e \<Rightarrow> Ret (fails e)
      | Inr c \<Rightarrow> map_run (\<lambda>ps. Inr (report_problems path check ps)) (problems c))"

section \<open>Signatures\<close>

text \<open>\<open>read_to_string\<close>.\<close>

definition read_text :: "'key tool_world \<Rightarrow> string \<Rightarrow> string + string" where
  "read_text w path =
     (case tw_read w path of
        Inl e \<Rightarrow> Inl e
      | Inr bytes \<Rightarrow> if is_utf8 bytes then Inr bytes else Inl ''stream did not contain valid UTF-8'')"

definition verified_line :: "string \<Rightarrow> catalog \<Rightarrow> string" where
  "verified_line path c =
     say (''ok: '' @ path @ '' signature verifies (catalog_version '' @ catalog_version c @ '', ''
          @ decimal (length (cat_anticheat c)) @ '' anti-cheat, '' @ decimal (length (cat_game c)) @ '' game, ''
          @ decimal (length (cat_launcher c)) @ '' launcher)'')"

definition verify_signature :: "'key tool_world \<Rightarrow> string \<Rightarrow> string \<Rightarrow> string \<Rightarrow> tool_result" where
  "verify_signature w toml sig pubkey =
     (case tw_read w toml of
        Inl e \<Rightarrow> fails (''cannot read catalog at '' @ toml @ '': '' @ e)
      | Inr body \<Rightarrow>
          (case tw_read w sig of
             Inl e \<Rightarrow> fails (''cannot read signature at '' @ sig @ '': '' @ e)
           | Inr s \<Rightarrow>
               (case read_text w pubkey of
                  Inl e \<Rightarrow> fails (''cannot read public key at '' @ pubkey @ '': '' @ e)
                | Inr key \<Rightarrow>
                    (case verify_detached (tw_crypto w) body s key of
                       Inr () \<Rightarrow>
                         (case parse_bytes (tw_toml w) body of
                            Inl e \<Rightarrow> fails (parse_error_text e)
                          | Inr c \<Rightarrow> Inr (ended exit_ok (verified_line toml c) []))
                     | Inl e \<Rightarrow>
                         Inr (ended exit_catalog_failed []
                           (say (toml @ '': signature verification failed: '' @ verify_error_text e)
                            @ (if e = SignatureMismatch then
                                 say ''  the signature covers raw bytes; check .gitattributes still marks catalog/*.toml as -text so line endings survive checkout''
                               else [])))))))"

section \<open>Keys\<close>

definition keygen :: "'key tool_world \<Rightarrow> string \<Rightarrow> string \<Rightarrow> tool_result" where
  "keygen w out_secret out_public =
     (case tw_random w of
        Inl e \<Rightarrow> fails (''cannot read OS randomness: '' @ e)
      | Inr seed \<Rightarrow>
          let public_hex = tw_hex_encode w (tw_public_of w seed);
              secret_text = say (tw_hex_encode w seed)
          in (case tw_create_new w out_secret of
                AlreadyExists \<Rightarrow> fails (out_secret @ '' already exists; refusing to overwrite a signing key'')
              | CreateFailed e \<Rightarrow> fails (''cannot create '' @ out_secret @ '': '' @ e)
              | Created \<Rightarrow>
                  (case tw_fill_created w out_secret secret_text of
                     Some e \<Rightarrow> fails (''cannot write '' @ out_secret @ '': '' @ e)
                   | None \<Rightarrow>
                       (case tw_write w out_public (say public_hex) of
                          Some e \<Rightarrow> fails (''cannot write '' @ out_public @ '': '' @ e)
                        | None \<Rightarrow>
                            Inr \<lparr>oc_code = exit_ok,
                                 oc_out = say (''public key: '' @ public_hex) @ say (''written:    '' @ out_public),
                                 oc_err = say (''the secret key is at '' @ out_secret @ '' '' @ em_dash
                                   @ '' it must never enter the repository, and anyone holding it can sign a catalog this build will trust''),
                                 oc_written = [(out_secret, secret_text), (out_public, say public_hex)]\<rparr>))))"

definition decode_secret :: "'key tool_world \<Rightarrow> string \<Rightarrow> string + string" where
  "decode_secret w seed_hex =
     (case hex_decode (tw_crypto w) (trim seed_hex) of
        None \<Rightarrow> Inl (''secret key is not hex: '' @ tw_hex_error w (trim seed_hex))
      | Some seed \<Rightarrow> if length seed = 32 then Inr seed else Inl ''secret key is not 32 bytes'')"

definition sign_catalog :: "'key tool_world \<Rightarrow> string \<Rightarrow> string \<Rightarrow> string \<Rightarrow> tool_result run" where
  "sign_catalog w toml secret out =
     (case tw_read w toml of
        Inl e \<Rightarrow> Ret (fails (''cannot read '' @ toml @ '': '' @ e))
      | Inr body \<Rightarrow>
          (case parse_bytes (tw_toml w) body of
             Inl e \<Rightarrow> Ret (fails (parse_error_text e))
           | Inr c \<Rightarrow>
               map_run (\<lambda>problems.
                 if problems \<noteq> [] then
                   Inl (concat (map (\<lambda>p. say (''  '' @ problem_text p)) problems),
                     ''refusing to sign a catalog that fails the checks catalog-verify.yml runs'')
                 else
                   (case read_text w secret of
                      Inl e \<Rightarrow> fails (''cannot read secret key at '' @ secret @ '': '' @ e)
                    | Inr seed_hex \<Rightarrow>
                        (case decode_secret w seed_hex of
                           Inl e \<Rightarrow> fails e
                         | Inr seed \<Rightarrow>
                             let sig = tw_sign w seed body
                             in (case tw_write w out sig of
                                   Some e \<Rightarrow> fails (''cannot write '' @ out @ '': '' @ e)
                                 | None \<Rightarrow>
                                     Inr ((ended exit_ok (say (''signed '' @ toml @ '' -> '' @ out)) [])
                                       \<lparr>oc_written := [(out, sig)]\<rparr>)))))
               (integrity_problems c)))"

section \<open>The program\<close>

fun run_tool :: "'key tool_world \<Rightarrow> tool_command \<Rightarrow> tool_result run" where
  "run_tool w (ToolValidate toml) = run_check w toml ''schema validation'' validate"
| "run_tool w (ToolCheckRefs toml) = run_check w toml ''referential integrity'' (Ret \<circ> check_refs)"
| "run_tool w (ToolCheckDenylist toml) = run_check w toml ''deny-list conflict check'' check_denylist"
| "run_tool w (ToolAuditShared toml require_evidence) =
     run_check w toml ''shared-flag audit'' (\<lambda>c. Ret (audit_shared c require_evidence))"
| "run_tool w (ToolVerify toml sig pubkey) = Ret (verify_signature w toml sig pubkey)"
| "run_tool w (ToolKeygen out_secret out_public) = Ret (keygen w out_secret out_public)"
| "run_tool w (ToolSign toml secret out) = sign_catalog w toml secret out"

definition tool_main :: "'key tool_world \<Rightarrow> (bool \<times> string) + tool_command \<Rightarrow> outcome run" where
  "tool_main w parsed =
     (case parsed of
        Inl (usage_error, text) \<Rightarrow>
          Ret (if usage_error then ended exit_usage [] text else ended exit_ok text [])
      | Inr command \<Rightarrow>
          map_run (\<lambda>r. case r of
              Inr result \<Rightarrow> result
            | Inl (printed, e) \<Rightarrow> ended exit_catalog_failed [] (printed @ say (''error: '' @ e)))
            (run_tool w command))"

end
