(* ===== verification/Cli_Props.thy ===== *)
theory Cli_Props
  imports Cli Catalog_Tool
begin

text \<open>
  What the command line promises: a scan's exit code rests on a catalog that was verified and
  checked, and on the whole machine; a refused catalog is not used for anything; the version
  warning is the order of versions; and what the catalog tool signs is what loads.
\<close>

section \<open>Loading\<close>

text \<open>A catalog that may be used, and the text it came from.\<close>

definition trusted_catalog :: "'key cli_world \<Rightarrow> string \<Rightarrow> catalog \<Rightarrow> bool" where
  "trusted_catalog w path c \<longleftrightarrow>
     (\<exists>bytes sig. cw_read w path = Some bytes \<and> cw_read w (path @ ''.sig'') = Some sig
        \<and> verify_detached (cw_crypto w) bytes sig (cw_public_key w) = Inr ()
        \<and> is_utf8 bytes \<and> cw_toml w bytes = Inr c
        \<and> validate c = Ret [] \<and> check_refs c = [] \<and> check_denylist c = Ret [] \<and> audit_shared c True = [])"

text \<open>How loading goes, step by step.\<close>

lemma load_verified_cases:
  obtains (NoCatalog) "cw_read w path = None" "load_verified w path = Ret (Inl (exit_nothing, no_catalog path))"
  | (Refused) bytes why where "cw_read w path = Some bytes" "\<nexists>c. trusted_catalog w path c"
      "load_verified w path = Ret (Inl (exit_catalog_failed, why))"
  | (Panics) bytes sig c where "load_verified w path = Panic" "\<nexists>c. trusted_catalog w path c"
      "cw_read w path = Some bytes" "cw_read w (path @ ''.sig'') = Some sig"
      "verify_detached (cw_crypto w) bytes sig (cw_public_key w) = Inr ()"
      "cw_toml w bytes = Inr c" "integrity_problems c = Panic"
  | (Loaded) c where "trusted_catalog w path c" "load_verified w path = Ret (Inr (c, version_warning w c))"
proof (cases "cw_read w path")
  case None
  then show ?thesis by (intro NoCatalog) (simp_all add: load_verified_def)
next
  case bytes: (Some bytes)
  show ?thesis
  proof (cases "cw_read w (signature_path path)")
    case None
    with bytes show ?thesis by (intro Refused) (simp_all add: load_verified_def trusted_catalog_def signature_path_def)
  next
    case sig: (Some sig)
    show ?thesis
    proof (cases "verify_detached (cw_crypto w) bytes sig (cw_public_key w)")
      case (Inl e)
      with bytes sig show ?thesis
        by (intro Refused) (simp_all add: load_verified_def trusted_catalog_def signature_path_def)
    next
      case verified: (Inr u)
      show ?thesis
      proof (cases "parse_bytes (cw_toml w) bytes")
        case (Inl e)
        then have "\<not> (is_utf8 bytes \<and> (\<exists>c. cw_toml w bytes = Inr c))" by (metis Inr_not_Inl parse_bytes_Inr)
        with bytes have "\<nexists>c. trusted_catalog w path c" by (auto simp: trusted_catalog_def)
        with Inl bytes sig verified show ?thesis
          by (intro Refused [of bytes "not_readable e"]) (simp_all add: load_verified_def)
      next
        case c: (Inr c)
        then have parsed: "is_utf8 bytes" "cw_toml w bytes = Inr c" by (simp_all add: parse_bytes_Inr)
        have trusted: "trusted_catalog w path d \<longleftrightarrow> d = c \<and> integrity_problems c = Ret []" for d
          using bytes sig verified parsed by (auto simp: trusted_catalog_def signature_path_def integrity_Nil)
        show ?thesis
        proof (cases "integrity_problems c")
          case Panic
          with bytes sig verified c trusted parsed show ?thesis
            by (intro Panics) (simp_all add: load_verified_def signature_path_def)
        next
          case (Ret problems)
          with bytes sig verified c have load: "load_verified w path =
              Ret (if problems \<noteq> [] then Inl (exit_catalog_failed, fails_checks problems)
                   else Inr (c, version_warning w c))" by (simp add: load_verified_def)
          show ?thesis
          proof (cases "problems = []")
            case True
            with Ret load trusted show ?thesis by (intro Loaded [of c]) simp_all
          next
            case False
            with Ret load trusted show ?thesis by (intro Refused [OF bytes]) simp_all
          qed
        qed
      qed
    qed
  qed
qed

lemma load_verified_Inr:
  "load_verified w path = Ret (Inr (c, remarks)) \<longleftrightarrow> trusted_catalog w path c \<and> remarks = version_warning w c"
proof -
  have one: "trusted_catalog w path c \<Longrightarrow> trusted_catalog w path d \<Longrightarrow> c = d" for c d
    by (auto simp: trusted_catalog_def)
  have read: "trusted_catalog w path c \<Longrightarrow> cw_read w path \<noteq> None" for c by (auto simp: trusted_catalog_def)
  show ?thesis by (cases rule: load_verified_cases [of w path]) (use one read in auto)
qed

lemma load_verified_Inl:
  "load_verified w path = Ret (Inl (code, why)) \<Longrightarrow>
     code \<in> {exit_nothing, exit_catalog_failed} \<and> (code = exit_nothing \<longleftrightarrow> cw_read w path = None)"
  by (cases rule: load_verified_cases [of w path]) (auto simp: exit_codes)

section \<open>Scanning\<close>

text \<open>The codes of a scan that ran to its end.\<close>

definition completed :: "exit_code \<Rightarrow> bool" where
  "completed code \<longleftrightarrow> code \<in> {exit_ok, exit_nothing, exit_partial}"

lemma report_exit_code_cases:
  "report_exit_code r = exit_ok \<longleftrightarrow> rp_unreadable r = [] \<and> rp_findings r \<noteq> []"
  "report_exit_code r = exit_nothing \<longleftrightarrow> rp_unreadable r = [] \<and> rp_findings r = []"
  "report_exit_code r = exit_partial \<longleftrightarrow> rp_unreadable r \<noteq> []"
  by (simp_all add: report_exit_code_def partial_def exit_codes)

lemma run_scan_completed:
  assumes "run_scan w c as_json leaf = Ret r" and "completed (oc_code r)"
  shows "\<exists>report. audit c (cw_machine w) (cw_environment w) = Ret report \<and> oc_code r = report_exit_code report"
proof -
  obtain report where report: "audit c (cw_machine w) (cw_environment w) = Ret report"
    using assms(1) by (auto simp: run_scan_def)
  let ?text = "if as_json then to_ndjson (cw_encode w) report else Inr (render_report report c)"
  have failed: "\<not> completed exit_scan_error" by (simp add: completed_def exit_codes)
  have "oc_code r = report_exit_code report"
  proof (cases ?text)
    case (Inl e)
    with report assms(1) have "oc_code r = exit_scan_error" by (auto simp: run_scan_def)
    with failed assms(2) show ?thesis by simp
  next
    case (Inr t)
    show ?thesis
    proof (cases leaf)
      case None
      with Inr report assms(1) show ?thesis by (auto simp: run_scan_def Let_def)
    next
      case (Some path)
      with Inr report assms failed show ?thesis
        by (cases "cw_write w path t") (auto simp: run_scan_def Let_def)
    qed
  qed
  with report show ?thesis by blast
qed

lemma scan_completed:
  assumes "cli_main w (Inr cl) = Ret r" and "cl_command cl = ScanCommand mode as_json leaf"
    and "completed (oc_code r)"
  shows "mode = AuditMode
    \<and> (\<exists>c report. trusted_catalog w (resolve_catalog_path w (cl_catalog cl) (cl_data_dir cl)) c
         \<and> audit c (cw_machine w) (cw_environment w) = Ret report \<and> oc_code r = report_exit_code report)"
proof -
  let ?path = "resolve_catalog_path w (cl_catalog cl) (cl_data_dir cl)"
  have mode: "mode = AuditMode"
    using assms by (auto simp: cli_main_def run_command_def completed_def exit_codes split: if_splits)
  then obtain loaded where load: "load_verified w ?path = Ret loaded"
    and r: "(case loaded of
        Inl (code, why) \<Rightarrow> Ret (ended (if code = exit_nothing then exit_scan_error else code) [] why)
      | Inr (c, remarks) \<Rightarrow> map_run (after_remarks remarks) (run_scan w c as_json leaf)) = Ret r"
    using assms(1,2) by (auto simp: cli_main_def run_command_def Let_def)
  show ?thesis
  proof (cases loaded)
    case (Inl refused)
    obtain code why where refused: "refused = (code, why)" by fastforce
    with Inl load have "code \<in> {exit_nothing, exit_catalog_failed}" by (auto dest: load_verified_Inl)
    with Inl refused r assms(3) show ?thesis by (auto simp: completed_def exit_codes)
  next
    case (Inr accepted)
    obtain c remarks where accepted: "accepted = (c, remarks)" by fastforce
    with Inr load have "trusted_catalog w ?path c" by (simp add: load_verified_Inr)
    moreover from Inr accepted r obtain r' where "run_scan w c as_json leaf = Ret r'" "r = after_remarks remarks r'"
      by auto
    ultimately show ?thesis
      using run_scan_completed [of w c as_json leaf r'] assms(3) mode by (auto simp: after_remarks_def)
  qed
qed

text \<open>
  C1. A scan that says it went through had a catalog that was read, verified over its raw
  bytes with the key of this build, parsed, and passed all four checks; its code is the
  report's of the audit of this machine with that catalog: 0 for findings and nothing unread,
  1 for neither, 3 as soon as anything could not be read.  Each finding is an artifact of an
  entry of it that the machine showed (a service, a driver, a key in a view the entry asks for,
  an expansion of one of its paths); keys and paths, and only those, were also let through by
  the deny-list.
\<close>

theorem scan_rests_on_verified_catalog:
  assumes "cli_main w (Inr cl) = Ret r" and "cl_command cl = ScanCommand mode as_json leaf"
    and "oc_code r \<in> {exit_ok, exit_nothing, exit_partial}"
  shows "mode = AuditMode
    \<and> (\<exists>c report. trusted_catalog w (resolve_catalog_path w (cl_catalog cl) (cl_data_dir cl)) c
         \<and> audit c (cw_machine w) (cw_environment w) = Ret report
         \<and> (oc_code r = exit_ok \<longleftrightarrow> rp_unreadable report = [] \<and> rp_findings report \<noteq> [])
         \<and> (oc_code r = exit_nothing \<longleftrightarrow> rp_unreadable report = [] \<and> rp_findings report = [])
         \<and> (\<forall>f \<in> set (rp_findings report). \<exists>ac \<in> set (cat_anticheat c). fd_anticheat f = ac_id ac
              \<and> present (context_for (cw_machine w) (cw_environment w) ac) (fd_artifact f)))"
proof -
  have "completed (oc_code r)" using assms(3) by (simp add: completed_def)
  then obtain c report where mode: "mode = AuditMode"
    and c: "trusted_catalog w (resolve_catalog_path w (cl_catalog cl) (cl_data_dir cl)) c"
    and report: "audit c (cw_machine w) (cw_environment w) = Ret report"
    and code: "oc_code r = report_exit_code report"
    using scan_completed [OF assms(1,2)] by blast
  have "\<forall>f \<in> set (rp_findings report). \<exists>ac \<in> set (cat_anticheat c). fd_anticheat f = ac_id ac
      \<and> present (context_for (cw_machine w) (cw_environment w) ac) (fd_artifact f)"
    using audit_of_entry [OF report] by blast
  with mode c report show ?thesis unfolding code report_exit_code_cases by blast
qed


text \<open>
  C9. A catalog that is missing, unsigned, wrongly signed, not readable or fails a check is not
  used: whatever the machine, the command prints nothing but the reasons on the error stream,
  writes no file and does not end with success, and a scan does not end with \<^emph>\<open>nothing found\<close>.
  The one other outcome is that a check of a catalog whose signature verifies panics.
\<close>

theorem refused_catalog_unused:
  assumes "cl_command cl = CatalogCommand what \<or> cl_command cl = ScanCommand AuditMode as_json leaf"
    and "path = resolve_catalog_path w (cl_catalog cl) (cl_data_dir cl)"
    and "\<nexists>bytes sig c. cw_read w path = Some bytes \<and> cw_read w (path @ ''.sig'') = Some sig
      \<and> verify_detached (cw_crypto w) bytes sig (cw_public_key w) = Inr ()
      \<and> is_utf8 bytes \<and> cw_toml w bytes = Inr c
      \<and> validate c = Ret [] \<and> check_refs c = [] \<and> check_denylist c = Ret [] \<and> audit_shared c True = []"
  shows "(\<exists>code why. cli_main (w\<lparr>cw_machine := m, cw_environment := env\<rparr>) (Inr cl) = Ret (ended code [] why)
      \<and> code \<in> {exit_nothing, exit_scan_error, exit_catalog_failed}
      \<and> (code = exit_nothing \<longrightarrow> cl_command cl = CatalogCommand what \<and> cw_read w path = None))
    \<or> cli_main (w\<lparr>cw_machine := m, cw_environment := env\<rparr>) (Inr cl) = Panic
      \<and> (\<exists>bytes sig c. cw_read w path = Some bytes \<and> cw_read w (path @ ''.sig'') = Some sig
           \<and> verify_detached (cw_crypto w) bytes sig (cw_public_key w) = Inr ()
           \<and> cw_toml w bytes = Inr c \<and> integrity_problems c = Panic)"
proof -
  let ?w = "w\<lparr>cw_machine := m, cw_environment := env\<rparr>"
  have same_path: "resolve_catalog_path ?w = resolve_catalog_path w"
    by (intro ext) (simp add: resolve_catalog_path_def default_data_dir_def cong: option.case_cong)
  have "version_warning ?w = version_warning w" by (intro ext) (simp add: version_warning_def cong: option.case_cong bool.case_cong)
  then have load: "load_verified ?w = load_verified w"
    by (intro ext) (simp add: load_verified_def cong: option.case_cong sum.case_cong if_cong)
  have untrusted: "\<nexists>c. trusted_catalog w path c" using assms(3) by (auto simp: trusted_catalog_def)
  have refused: "\<exists>code'. cli_main ?w (Inr cl) = Ret (ended code' [] why)
      \<and> code' \<in> {exit_nothing, exit_scan_error, exit_catalog_failed}
      \<and> (code' = exit_nothing \<longrightarrow> cl_command cl = CatalogCommand what \<and> code = exit_nothing)"
    if "load_verified w path = Ret (Inl (code, why))" for code why
    using that assms(1) load_verified_Inl [OF that]
    by (auto simp: cli_main_def run_command_def same_path load exit_codes assms(2))
  show ?thesis
  proof (cases rule: load_verified_cases [of w path])
    case NoCatalog
    then show ?thesis using refused [OF NoCatalog(2)] by blast
  next
    case (Refused bytes why)
    then show ?thesis using refused [OF Refused(3)] by (force simp: exit_codes)
  next
    case (Panics bytes sig c)
    then have "cli_main ?w (Inr cl) = Panic"
      using assms(1) by (auto simp: cli_main_def run_command_def same_path load assms(2))
    with Panics show ?thesis by blast
  next
    case (Loaded c)
    with untrusted show ?thesis by blast
  qed
qed

section \<open>Versions\<close>

lemma compare_from_first:
  "compare_from n want have' k \<longleftrightarrow>
     (\<exists>i. k \<le> i \<and> i < k + n \<and> version_part have' i < version_part want i
        \<and> (\<forall>j. k \<le> j \<and> j < i \<longrightarrow> version_part want j = version_part have' j))"
proof (induction n arbitrary: k)
  case (Suc n)
  show ?case
  proof (cases "version_part want k = version_part have' k")
    case True
    then have "compare_from (Suc n) want have' k \<longleftrightarrow> compare_from n want have' (Suc k)" by (simp add: Let_def)
    also have "\<dots> \<longleftrightarrow> (\<exists>i. k \<le> i \<and> i < k + Suc n \<and> version_part have' i < version_part want i
        \<and> (\<forall>j. k \<le> j \<and> j < i \<longrightarrow> version_part want j = version_part have' j))"
      unfolding Suc.IH using True by (metis Suc_leD Suc_leI add_Suc_shift le_neq_implies_less nat_less_le)
    finally show ?thesis .
  next
    case False
    then have "compare_from (Suc n) want have' k \<longleftrightarrow> version_part have' k < version_part want k"
      by (simp add: Let_def)
    moreover have "i = k" if "k \<le> i" "\<forall>j. k \<le> j \<and> j < i \<longrightarrow> version_part want j = version_part have' j" for i
      using that False by (metis le_neq_implies_less le_refl)
    ultimately show ?thesis by (metis le_refl less_add_Suc1 not_le add_Suc_right)
  qed
qed simp

text \<open>
  The version warning is the order of versions: of two that can be read, the first is newer
  exactly when it is greater at the first place where they differ, places that are not written
  counting as zero.
\<close>

theorem requires_newer_lexicographic:
  assumes "parse_version required = Some want" and "parse_version running = Some have'"
  shows "requires_newer required running =
    Some (\<exists>i. version_part have' i < version_part want i \<and> (\<forall>j < i. version_part want j = version_part have' j))"
proof -
  have "i < max (length want) (length have')" if "version_part have' i < version_part want i" for i
    using that by (auto simp: version_part_def split: if_splits)
  then show ?thesis using assms by (auto simp: requires_newer_def compare_from_first)
qed

section \<open>Signing and loading\<close>

text \<open>What is documented of the signature package: sizes, and that a signature verifies.\<close>

definition signing_works :: "'key crypto \<Rightarrow> (string \<Rightarrow> string) \<Rightarrow> (string \<Rightarrow> string \<Rightarrow> string) \<Rightarrow> bool" where
  "signing_works cr public_of sign \<longleftrightarrow>
     (\<forall>seed. length seed = 32 \<longrightarrow>
        length (public_of seed) = public_key_len
        \<and> (\<exists>key. key_from_bytes cr (public_of seed) = Some key
             \<and> (\<forall>body. length (sign seed body) = signature_len \<and> verify_strict cr key body (sign seed body))))"

lemma signature_accepted:
  assumes "signing_works cr public_of sign" and "length seed = 32"
    and "hex_decode cr (trim key_hex) = Some (public_of seed)"
  shows "verify_detached cr body (sign seed body) key_hex = Inr ()"
proof -
  obtain key where "key_from_bytes cr (public_of seed) = Some key" "length (public_of seed) = public_key_len"
    and s: "length (sign seed body) = signature_len" "verify_strict cr key body (sign seed body)"
    using assms(1,2) by (auto simp: signing_works_def)
  then have "parse_public_key cr key_hex = Inr key" using assms(3) by (simp add: parse_public_key_Inr)
  moreover have "parse_signature cr (sign seed body) = Inr (sign seed body)" using s by (simp add: parse_signature_def)
  ultimately show ?thesis using s by (simp add: verify_detached_def)
qed

lemma sign_catalog_ok:
  assumes "sign_catalog t toml secret out = Ret (Inr r)"
  obtains body c seed_hex seed where "tw_read t toml = Inr body" "is_utf8 body" "tw_toml t body = Inr c"
    "integrity_problems c = Ret []" "tw_read t secret = Inr seed_hex" "decode_secret t seed_hex = Inr seed"
    "oc_written r = [(out, tw_sign t seed body)]"
proof -
  from assms obtain body c where body: "tw_read t toml = Inr body" "parse_bytes (tw_toml t) body = Inr c"
    unfolding sign_catalog_def fails_def by (auto split: sum.splits)
  with assms obtain problems where problems: "integrity_problems c = Ret problems"
    by (auto simp: sign_catalog_def)
  with assms body have "problems = []" by (auto simp: sign_catalog_def split: if_splits)
  with assms body problems obtain seed_hex where hex: "read_text t secret = Inr seed_hex"
    by (cases "read_text t secret") (auto simp: sign_catalog_def fails_def)
  with assms body problems \<open>problems = []\<close> obtain seed where seed: "decode_secret t seed_hex = Inr seed"
    by (cases "decode_secret t seed_hex") (auto simp: sign_catalog_def fails_def)
  have "oc_written r = [(out, tw_sign t seed body)]"
    using assms body problems \<open>problems = []\<close> hex seed
    by (cases "tw_write t out (tw_sign t seed body)") (auto simp: sign_catalog_def fails_def Let_def)
  moreover have "tw_read t secret = Inr seed_hex"
    using hex by (auto simp: read_text_def split: sum.splits if_splits)
  ultimately show thesis
    using that body problems \<open>problems = []\<close> seed by (auto simp: parse_bytes_Inr)
qed

text \<open>
  C25. What the catalog tool signs, the command line loads: when \<^verbatim>\<open>sign\<close> succeeds, the catalog it
  signed, beside the signature it wrote, is accepted by a build whose key is that of the
  secret, so a maintainer cannot sign what users' machines refuse.
\<close>

theorem signed_catalog_loads:
  assumes "tool_main t (Inr (ToolSign toml secret out)) = Ret r" and "oc_code r = exit_ok"
    and "tw_read t toml = Inr body" and "tw_read t secret = Inr secret_text" and "oc_written r = [(out, sig)]"
    and "signing_works (tw_crypto t) (tw_public_of t) (tw_sign t)"
    and "cw_crypto w = tw_crypto t" and "cw_toml w = tw_toml t"
    and "\<And>seed. decode_secret t secret_text = Inr seed \<Longrightarrow>
      hex_decode (tw_crypto t) (trim (cw_public_key w)) = Some (tw_public_of t seed)"
    and "cw_read w path = Some body" and "cw_read w (path @ ''.sig'') = Some sig"
  shows "\<exists>c. tw_toml t body = Inr c \<and> load_verified w path = Ret (Inr (c, version_warning w c))"
proof -
  obtain x where x: "sign_catalog t toml secret out = Ret x" using assms(1) by (auto simp: tool_main_def)
  have "\<exists>r'. x = Inr r' \<and> r = r'"
  proof (cases x)
    case (Inl e)
    obtain printed reason where "e = (printed, reason)" by fastforce
    with Inl assms(1) x have "oc_code r = exit_catalog_failed" by (auto simp: tool_main_def)
    with assms(2) show ?thesis by (simp add: exit_codes)
  qed (use assms(1) x in \<open>simp add: tool_main_def\<close>)
  then obtain r' where sign: "sign_catalog t toml secret out = Ret (Inr r')" "r = r'" using x by blast
  from sign(1) obtain c seed where c: "is_utf8 body" "tw_toml t body = Inr c" "integrity_problems c = Ret []"
    and seed: "decode_secret t secret_text = Inr seed" and sig: "sig = tw_sign t seed body"
    by (rule sign_catalog_ok) (use assms(3-5) sign(2) in auto)
  from seed have "length seed = 32"
    by (auto simp: decode_secret_def split: option.splits if_splits)
  then have "verify_detached (tw_crypto t) body sig (cw_public_key w) = Inr ()"
    using signature_accepted assms(6,9) seed sig by blast
  with assms c have "trusted_catalog w path c" by (auto simp: trusted_catalog_def integrity_Nil)
  with c show ?thesis using load_verified_Inr by blast
qed

section \<open>Runs\<close>

definition toy_crypto :: "string crypto" where
  "toy_crypto =
     \<lparr>hex_decode = Some, key_from_bytes = Some, verify_strict = (\<lambda>key body s. s = key @ key)\<rparr>"

definition sample_seed :: string where
  "sample_seed = replicate 32 (CHR ''k'')"

definition sample_world :: "machine_view \<Rightarrow> string cli_world" where
  "sample_world m =
     \<lparr>cw_current_exe = Inr ''w.exe'', cw_is_file = (\<lambda>_. False), cw_run = (\<lambda>_ _. Inr (Some 0)),
      cw_program_data = None,
      cw_read = (\<lambda>path. if path = ''c'' then Some ''text''
                 else if path = ''c.sig'' then Some (sample_seed @ sample_seed) else None),
      cw_write = (\<lambda>_ _. None), cw_toml = (\<lambda>_. Inr sample_audit_catalog), cw_crypto = toy_crypto,
      cw_public_key = sample_seed, cw_version = ''0.1.0'', cw_machine = m,
      cw_environment = new_environment, cw_encode = (\<lambda>_. Inr [])\<rparr>"

definition sample_args :: cli_args where
  "sample_args =
     \<lparr>cl_catalog = Some ''c'', cl_data_dir = None, cl_command = ScanCommand AuditMode False None\<rparr>"

lemma sample_path [simp]: "resolve_catalog_path w (cl_catalog sample_args) (cl_data_dir sample_args) = ''c''"
  by (simp add: resolve_catalog_path_def sample_args_def)

lemma sample_verified: "verify_detached toy_crypto ''text'' (sample_seed @ sample_seed) sample_seed = Inr ()"
  by code_simp

lemma sample_trusted: "trusted_catalog (sample_world m) ''c'' sample_audit_catalog"
proof -
  have "integrity_problems sample_audit_catalog = Ret []" by code_simp
  moreover have "is_utf8 ''text''" by code_simp
  ultimately show ?thesis
    unfolding trusted_catalog_def integrity_Nil by (simp add: sample_world_def sample_verified)
qed

lemma sample_scan:
  assumes "audit sample_audit_catalog m new_environment = Ret report"
  shows "\<exists>r. cli_main (sample_world m) (Inr sample_args) = Ret r \<and> oc_code r = report_exit_code report"
proof -
  have "load_verified (sample_world m) ''c''
      = Ret (Inr (sample_audit_catalog, version_warning (sample_world m) sample_audit_catalog))"
    using sample_trusted by (simp add: load_verified_Inr)
  moreover have "cl_command sample_args = ScanCommand AuditMode False None" by (simp add: sample_args_def)
  moreover have "cw_machine (sample_world m) = m" "cw_environment (sample_world m) = new_environment"
    by (simp_all add: sample_world_def)
  ultimately show ?thesis
    using assms by (simp add: cli_main_def run_command_def Let_def run_scan_def after_remarks_def)
qed

definition empty_machine :: machine_view where
  "empty_machine =
     \<lparr>mv_service = (\<lambda>_. Absent), mv_service_key = (\<lambda>_. Absent), mv_driver_keys = Absent,
      mv_registry_key = (\<lambda>_ _. Absent), mv_path = (\<lambda>_. Absent), mv_signature = (\<lambda>_. Unsigned)\<rparr>"

theorem scan_rests_on_verified_catalog_witness:
  "\<exists>c report. trusted_catalog (sample_world sample_machine) ''c'' c
     \<and> audit c (cw_machine (sample_world sample_machine)) (cw_environment (sample_world sample_machine)) = Ret report"
proof -
  obtain r where "cli_main (sample_world sample_machine) (Inr sample_args) = Ret r"
    and code: "oc_code r = report_exit_code sample_report"
    using sample_scan [OF sample_audit] by blast
  moreover have "cl_command sample_args = ScanCommand AuditMode False None" by (simp add: sample_args_def)
  moreover have "oc_code r \<in> {exit_ok, exit_nothing, exit_partial}"
    unfolding code by (simp add: report_exit_code_def)
  ultimately show ?thesis using scan_rests_on_verified_catalog by fastforce
qed


text \<open>The sample catalog with a signature for another text.\<close>

definition forged_world :: "string cli_world" where
  "forged_world = (sample_world empty_machine)\<lparr>cw_read := (\<lambda>path. Some ''text'')\<rparr>"

theorem refused_catalog_unused_witness:
  "\<exists>code why. cli_main (forged_world\<lparr>cw_machine := sample_machine, cw_environment := new_environment\<rparr>)
      (Inr sample_args) = Ret (ended code [] why)
    \<and> code \<in> {exit_scan_error, exit_catalog_failed}"
proof -
  have "verify_detached toy_crypto ''text'' ''text'' sample_seed \<noteq> Inr ()" by code_simp
  then have forged: "verify_detached (cw_crypto forged_world) ''text'' ''text'' (cw_public_key forged_world) \<noteq> Inr ()"
    by (simp add: forged_world_def sample_world_def)
  have read: "cw_read forged_world path = Some ''text''" for path by (simp add: forged_world_def)
  have "cl_command sample_args = ScanCommand AuditMode False None" by (simp add: sample_args_def)
  then show ?thesis
    using refused_catalog_unused [where cl = sample_args and w = forged_world and what = ListCatalog
        and as_json = False and leaf = None and path = "''c''" and m = sample_machine and env = new_environment]
      forged by (auto simp: read)
qed

theorem requires_newer_lexicographic_witness: "requires_newer ''0.10'' ''0.9.3-dev'' = Some True"
proof -
  have digit: "parse_u64 [c] = Some (of_char c - 48)" if "is_digit_byte c" for c
    using that by (auto simp: parse_u64_def strip_prefix_def is_digit_byte_def Let_def)
  have "parse_u64 ''10'' = Some 10" by (simp add: parse_u64_def strip_prefix_def is_digit_byte_def)
  moreover have "trim ''0.10'' = ''0.10''" "trim ''0.9.3-dev'' = ''0.9.3-dev''" by code_simp+
  ultimately have "parse_version ''0.10'' = Some [0, 10]" "parse_version ''0.9.3-dev'' = Some [0, 9, 3]"
    by (simp_all add: parse_version_def digit is_digit_byte_def)
  from requires_newer_lexicographic [OF this] show ?thesis
    by (auto simp: version_part_def less_Suc_eq intro!: exI [of _ 1])
qed

text \<open>Signing the sample catalog and loading it.\<close>

definition sample_tool :: "string tool_world" where
  "sample_tool =
     \<lparr>tw_read = (\<lambda>path. if path = ''c'' then Inr ''text'' else Inr sample_seed), tw_write = (\<lambda>_ _. None),
      tw_create_new = (\<lambda>_. AlreadyExists), tw_fill_created = (\<lambda>_ _. None), tw_random = Inl [],
      tw_toml = (\<lambda>_. Inr sample_audit_catalog), tw_crypto = toy_crypto, tw_hex_encode = id,
      tw_hex_error = id, tw_public_of = id, tw_sign = (\<lambda>seed body. seed @ seed)\<rparr>"

theorem signed_catalog_loads_witness:
  "\<exists>c. load_verified (sample_world empty_machine) ''c''
     = Ret (Inr (c, version_warning (sample_world empty_machine) c))"
proof -
  let ?r = "(ended exit_ok (say (''signed '' @ ''c'' @ '' -> '' @ ''c.sig'')) [])
    \<lparr>oc_written := [(''c.sig'', sample_seed @ sample_seed)]\<rparr>"
  have checks: "integrity_problems sample_audit_catalog = Ret []" and utf8: "is_utf8 ''text''"
    and seed: "is_utf8 sample_seed" "decode_secret sample_tool sample_seed = Inr sample_seed" by code_simp+
  have read: "tw_read sample_tool ''c'' = Inr ''text''" "tw_read sample_tool ''k'' = Inr sample_seed"
    and toml: "tw_toml sample_tool ''text'' = Inr sample_audit_catalog" by (simp_all add: sample_tool_def)
  have "parse_bytes (tw_toml sample_tool) ''text'' = Inr sample_audit_catalog"
    using utf8 toml by (simp add: parse_bytes_Inr del: is_utf8.simps)
  moreover have "read_text sample_tool ''k'' = Inr sample_seed"
    using seed(1) read by (simp add: read_text_def del: is_utf8.simps)
  moreover have "tw_sign sample_tool sample_seed ''text'' = sample_seed @ sample_seed"
    "tw_write sample_tool ''c.sig'' (sample_seed @ sample_seed) = None" by (simp_all add: sample_tool_def)
  ultimately have "tool_main sample_tool (Inr (ToolSign ''c'' ''k'' ''c.sig'')) = Ret ?r"
    using checks read seed(2) by (simp add: tool_main_def sign_catalog_def Let_def)
  moreover have "signing_works (tw_crypto sample_tool) (tw_public_of sample_tool) (tw_sign sample_tool)"
    by (simp add: signing_works_def sample_tool_def toy_crypto_def public_key_len_def signature_len_def)
  moreover have "hex_decode (tw_crypto sample_tool) (trim (cw_public_key (sample_world empty_machine)))
      = Some (tw_public_of sample_tool s)" if "decode_secret sample_tool sample_seed = Inr s" for s
  proof -
    have "trim sample_seed = sample_seed" by code_simp
    with that seed(2) show ?thesis by (simp add: sample_tool_def sample_world_def toy_crypto_def)
  qed
  moreover have "cw_crypto (sample_world empty_machine) = tw_crypto sample_tool"
    "cw_toml (sample_world empty_machine) = tw_toml sample_tool"
    "cw_read (sample_world empty_machine) ''c'' = Some ''text''"
    "cw_read (sample_world empty_machine) (''c'' @ ''.sig'') = Some (sample_seed @ sample_seed)"
    by (simp_all add: sample_tool_def sample_world_def)
  ultimately show ?thesis
    using signed_catalog_loads [of sample_tool _ _ _ ?r, OF _ _ read] by fastforce
qed

end
