(* ===== verification/Windows_Props.thy ===== *)
theory Windows_Props
  imports Windows Cli_Props
begin

text \<open>
  What the Windows machine view promises the scan: that something is absent only because Windows
  said that it does not exist, that a listing loses nothing, what a verified signature rests on,
  and, with the command line, that being denied a look is never a clean machine.
\<close>

section \<open>A sample\<close>

text \<open>A machine that refuses everything: the manager denies, the list of services stops.\<close>

definition sample_win32 :: "unit win32" where
  "sample_win32 =
     \<lparr>wn_root = (\<lambda>_. ()), wn_open_key = (\<lambda>_ _ _. Inr ()), wn_subkeys = (\<lambda>_. ([], error_access_denied)),
      wn_value_size = (\<lambda>_ _ _ _. (error_success, 0)), wn_value = (\<lambda>_ _ _ _ _. (error_success, [], 0)),
      wn_dword = (\<lambda>_ _. (error_success, 1)), wn_manager = Inr (),
      wn_open_service = (\<lambda>_ _. Inl (to_hresult error_access_denied, ''denied'')),
      wn_config_size = (\<lambda>_. None), wn_config = (\<lambda>_. Inr None), wn_metadata = (\<lambda>_. Inl NotFoundError),
      wn_is_dir = (\<lambda>_. False), wn_trust = (\<lambda>_ _. (0, 0)), wn_signer = (\<lambda>_ _. None),
      wn_variable = (\<lambda>_. None)\<rparr>"

section \<open>Absence\<close>

lemma absent_or_unreadable_Absent [simp]: "absent_or_unreadable e = Absent \<longleftrightarrow> e = error_file_not_found"
  by (simp add: absent_or_unreadable_def)

lemma to_hresult_values:
  "to_hresult error_file_not_found = 0x80070002" "to_hresult error_access_denied = 0x80070005"
  "to_hresult error_insufficient_buffer = 0x8007007A" "to_hresult error_more_data = 0x800700EA"
  "to_hresult error_service_does_not_exist = 0x80070424"
  by (simp_all add: to_hresult_def error_file_not_found_def error_access_denied_def
      error_insufficient_buffer_def error_more_data_def error_service_does_not_exist_def)

lemma query_service_Absent:
  "query_service w name = Absent \<longleftrightarrow>
     (\<exists>manager e. wn_manager w = Inr manager
        \<and> wn_open_service w manager (to_wide name) = Inl (to_hresult error_service_does_not_exist, e))"
  by (auto simp: query_service_def Let_def to_hresult_values split: sum.splits prod.splits option.splits if_splits)

text \<open>
  Absent means that Windows answered \<^emph>\<open>no such thing\<close>: a service the manager does not know, a
  key, the list of services or a path that is not found.  Every other failure, of the manager,
  of the call, of the reading of a key's name, is not absence.
\<close>

theorem absent_only_when_not_found:
  "(mv_service (win_machine w) name = Absent \<longleftrightarrow>
      (\<exists>manager e. wn_manager w = Inr manager
         \<and> wn_open_service w manager (to_wide name) = Inl (to_hresult error_service_does_not_exist, e)))
   \<and> (mv_service_key (win_machine w) name = Absent \<longleftrightarrow>
        wn_open_key w (wn_root w Hklm) (to_wide (services_path @ backslash # name)) View64
          = Inl error_file_not_found)
   \<and> (mv_driver_keys (win_machine w) = Absent \<longleftrightarrow>
        wn_open_key w (wn_root w Hklm) (to_wide services_path) View64 = Inl error_file_not_found)
   \<and> (mv_registry_key (win_machine w) key v = Absent \<longleftrightarrow>
        (\<exists>canonical. canonicalise_reg_key key = Inr canonical
           \<and> wn_open_key w (wn_root w (key_hive canonical))
               (to_wide (join_with [backslash] (key_components canonical))) v = Inl error_file_not_found))
   \<and> (mv_path (win_machine w) path = Absent \<longleftrightarrow> wn_metadata w path = Inl NotFoundError)"
  unfolding win_machine_def machine_view.simps query_service_Absent
  by (auto simp: win_service_key_def win_driver_keys_def win_registry_key_def win_path_def open_key_def
      split: sum.splits prod.splits io_failure.splits)

section \<open>The list of drivers\<close>

text \<open>What a listed name contributes: a driver, or a key that could not be read.\<close>

definition listed_driver :: "'h win32 \<Rightarrow> 'h \<Rightarrow> string \<Rightarrow> service_key_info option" where
  "listed_driver w services name =
     (case open_key w services name View64 of
        Inr key \<Rightarrow>
          if is_driver (read_service_key w key name) then Some (read_service_key w key name) else None
      | Inl _ \<Rightarrow> None)"

definition listed_unreadable :: "'h win32 \<Rightarrow> 'h \<Rightarrow> string \<Rightarrow> (string \<times> string) option" where
  "listed_unreadable w services name =
     (case open_key w services name View64 of
        Inr _ \<Rightarrow> None
      | Inl e \<Rightarrow> if e = error_file_not_found then None else Some (name, describe_error e))"

lemma fold_driver_keys:
  "fold (add_driver_key w services) names found =
     \<lparr>dk_drivers = dk_drivers found @ List.map_filter (listed_driver w services) names,
      dk_unreadable = dk_unreadable found @ List.map_filter (listed_unreadable w services) names\<rparr>"
proof (induction names arbitrary: found)
  case (Cons name names)
  have "add_driver_key w services name found =
      \<lparr>dk_drivers = dk_drivers found @ List.map_filter (listed_driver w services) [name],
       dk_unreadable = dk_unreadable found @ List.map_filter (listed_unreadable w services) [name]\<rparr>"
    by (auto simp: add_driver_key_def listed_driver_def listed_unreadable_def Let_def List.map_filter_def
        split: sum.splits)
  then show ?case by (simp add: Cons.IH List.map_filter_simps split: option.splits)
qed (simp add: List.map_filter_simps)

lemma driver_keys_Found:
  assumes "open_key w (wn_root w Hklm) services_path View64 = Inr services" and "subkeys w services = Inr names"
  shows "mv_driver_keys (win_machine w) =
    Found \<lparr>dk_drivers = List.map_filter (listed_driver w services) names,
           dk_unreadable = List.map_filter (listed_unreadable w services) names\<rparr>"
  using assms by (simp add: win_machine_def win_driver_keys_def fold_driver_keys)

section \<open>Signatures\<close>

text \<open>What Windows answered when a file counts as verified or as unsigned.\<close>

lemma verify_file_Verified:
  "verify_file w n path = Verified signer \<longleftrightarrow>
     fst (wn_trust w n path) \<in> {0, cert_e_expired} \<union> set not_known_offline \<and> wn_signer w n path = Some signer"
  by (auto simp: verify_file_def split: prod.splits option.splits)

lemma verify_file_Unsigned:
  "verify_file w n path = Unsigned \<longleftrightarrow>
     fst (wn_trust w n path) = trust_e_nosignature \<and> snd (wn_trust w n path) \<in> set not_signed"
  by (auto simp: verify_file_def trust_e_nosignature_def cert_e_expired_def not_known_offline_def
      split: prod.splits option.splits)

lemma win_signature_attempt:
  assumes "win_signature w path = s" and "\<And>why. s \<noteq> UnknownSignature why"
  shows "\<exists>n \<in> {0, 1}. verify_file w n path = s"
  using assms by (auto simp: win_signature_def split: signature.splits)

text \<open>
  C37. A file counts as signed only if Windows verified it in one of at most two attempts, an
  expired certificate and a revocation unknown offline included, and its signer was read in
  that same attempt; a signature with a bad digest, an untrusted root or a revoked
  certificate never counts.  It counts as unsigned only if Windows said why it is not signed.
\<close>

theorem signature_rests_on_trust:
  "(mv_signature (win_machine w) path = Verified signer \<longrightarrow>
      (\<exists>n \<in> {0, 1}. fst (wn_trust w n path) \<in> {0, cert_e_expired} \<union> set not_known_offline
         \<and> fst (wn_trust w n path) \<notin> set invalid_signature \<and> wn_signer w n path = Some signer))
   \<and> (mv_signature (win_machine w) path = Unsigned \<longrightarrow>
        (\<exists>n \<in> {0, 1}. fst (wn_trust w n path) = trust_e_nosignature \<and> snd (wn_trust w n path) \<in> set not_signed))"
proof -
  have good: "code \<notin> set invalid_signature" if "code \<in> {0, cert_e_expired} \<union> set not_known_offline" for code
    using that by (auto simp: cert_e_expired_def not_known_offline_def invalid_signature_def)
  have "\<exists>n \<in> {0, 1}. verify_file w n path = s"
    if "mv_signature (win_machine w) path = s" "s = Verified signer \<or> s = Unsigned" for s
    using that by (intro win_signature_attempt) (auto simp: win_machine_def)
  from this [of "Verified signer"] this [of Unsigned] good show ?thesis
    by (auto simp: verify_file_Verified verify_file_Unsigned)
qed

text \<open>A file Windows finds expired at the second attempt only, and whose signer is read there.\<close>

theorem signature_rests_on_trust_witness:
  "\<exists>w :: unit win32. mv_signature (win_machine w) ''f'' = Verified ''Vendor''
     \<and> (\<exists>n \<in> {0, 1}. fst (wn_trust w n ''f'') \<in> {0, cert_e_expired} \<union> set not_known_offline
          \<and> fst (wn_trust w n ''f'') \<notin> set invalid_signature \<and> wn_signer w n ''f'' = Some ''Vendor'')"
proof -
  let ?w = "sample_win32\<lparr>wn_trust := (\<lambda>n _. (if n = 0 then 1 else cert_e_expired, 0)),
    wn_signer := (\<lambda>n _. if n = 0 then None else Some ''Vendor'')\<rparr>"
  have verified: "mv_signature (win_machine ?w) ''f'' = Verified ''Vendor''"
    by (simp add: win_machine_def win_signature_def verify_file_def invalid_signature_def cert_e_expired_def
        trust_e_nosignature_def not_known_offline_def)
  show ?thesis
    by (rule exI, rule conjI, rule verified, rule mp [OF conjunct1 [OF signature_rests_on_trust] verified])
qed

section \<open>Denied\<close>

text \<open>
  What Windows may refuse a scan, call by call.  A refusal is any answer but \<^emph>\<open>not found\<close>, access
  denied among them: of the service manager as such or of a service the catalog names, or of its
  key when the manager does not know it; of the \<open>Services\<close> key, of a name while its keys are
  listed, or of a key so listed; of a key of the entry the deny-list lets through; of a path.
\<close>

definition refused_service :: "'h win32 \<Rightarrow> anti_cheat \<Rightarrow> bool" where
  "refused_service sys ac \<longleftrightarrow>
     (\<exists>name \<in> set (ac_services ac).
        (\<exists>e. wn_manager sys = Inl e)
        \<or> (\<exists>manager code e. wn_manager sys = Inr manager
             \<and> wn_open_service sys manager (to_wide name) = Inl (code, e)
             \<and> (code \<noteq> to_hresult error_service_does_not_exist
                \<or> (\<exists>status. status \<noteq> error_file_not_found
                     \<and> wn_open_key sys (wn_root sys Hklm) (to_wide (services_path @ backslash # name)) View64
                       = Inl status))))"

definition refused_drivers :: "'h win32 \<Rightarrow> bool" where
  "refused_drivers sys \<longleftrightarrow>
     (case wn_open_key sys (wn_root sys Hklm) (to_wide services_path) View64 of
        Inl status \<Rightarrow> status \<noteq> error_file_not_found
      | Inr services \<Rightarrow>
          snd (wn_subkeys sys services) \<noteq> error_no_more_items
          \<or> (\<exists>name \<in> set (fst (wn_subkeys sys services)). \<exists>status. status \<noteq> error_file_not_found
               \<and> wn_open_key sys services (to_wide (from_utf16_lossy (take 256 name))) View64 = Inl status))"

definition refused_key :: "'h win32 \<Rightarrow> anti_cheat \<Rightarrow> bool" where
  "refused_key sys ac \<longleftrightarrow>
     (\<exists>entry \<in> set (ac_registry ac). key_passes (exceptions_for ac) (re_key entry)
        \<and> (\<exists>canonical status. canonicalise_reg_key (re_key entry) = Inr canonical
             \<and> status \<noteq> error_file_not_found
             \<and> (\<exists>v \<in> set (views (re_key entry) (re_view entry)).
                  wn_open_key sys (wn_root sys (key_hive canonical))
                    (to_wide (join_with [backslash] (key_components canonical))) v = Inl status)))"

definition refused_path :: "'h win32 \<Rightarrow> environment \<Rightarrow> anti_cheat \<Rightarrow> bool" where
  "refused_path sys env ac \<longleftrightarrow>
     (\<exists>entry \<in> set (ac_paths ac). \<exists>paths path e. expand_with (pe_path entry) (env_lookup env) = Inr paths
        \<and> path \<in> set paths \<and> wn_metadata sys path = Inl (OtherError e))"

lemma absent_or_unreadable_other:
  "status \<noteq> error_file_not_found \<Longrightarrow> \<exists>e. absent_or_unreadable status = Unreadable e"
  by (simp add: absent_or_unreadable_def)

lemma refused_service_unreadable:
  assumes "refused_service sys ac"
  shows "unreadable_in (context_for (win_machine sys) env ac)"
proof -
  obtain name where name: "name \<in> set (ac_services ac)"
    and refusal: "(\<exists>e. query_service sys name = Unreadable e)
      \<or> query_service sys name = Absent \<and> (\<exists>e. win_service_key sys name = Unreadable e)"
  proof -
    from assms obtain name where name: "name \<in> set (ac_services ac)" and
      "(\<exists>e. wn_manager sys = Inl e)
        \<or> (\<exists>manager code e. wn_manager sys = Inr manager
             \<and> wn_open_service sys manager (to_wide name) = Inl (code, e)
             \<and> (code \<noteq> to_hresult error_service_does_not_exist
                \<or> (\<exists>status. status \<noteq> error_file_not_found
                     \<and> wn_open_key sys (wn_root sys Hklm) (to_wide (services_path @ backslash # name)) View64
                       = Inl status)))"
      unfolding refused_service_def by blast
    then show thesis
    proof (elim disjE exE conjE)
      fix e assume "wn_manager sys = Inl e"
      then show thesis by (intro that [OF name]) (cases e; simp add: query_service_def)
    next
      fix manager code e
      assume "wn_manager sys = Inr manager" "wn_open_service sys manager (to_wide name) = Inl (code, e)"
        "code \<noteq> to_hresult error_service_does_not_exist"
      then show thesis by (intro that [OF name]) (simp add: query_service_def)
    next
      fix manager code e status
      assume call: "wn_manager sys = Inr manager" "wn_open_service sys manager (to_wide name) = Inl (code, e)"
        and status: "status \<noteq> error_file_not_found"
          "wn_open_key sys (wn_root sys Hklm) (to_wide (services_path @ backslash # name)) View64 = Inl status"
      have "\<exists>e. win_service_key sys name = Unreadable e"
        using absent_or_unreadable_other [OF status(1)] status(2)
        by (simp add: win_service_key_def open_key_def)
      with call show thesis by (intro that [OF name]) (simp add: query_service_def)
    qed
  qed
  then show ?thesis by (auto simp: unreadable_in_def context_for_def win_machine_def)
qed

lemma refused_drivers_unreadable:
  assumes "refused_drivers sys"
  shows "case mv_driver_keys (win_machine sys) of
      Found ks \<Rightarrow> dk_unreadable ks \<noteq> [] | Absent \<Rightarrow> False | Unreadable _ \<Rightarrow> True"
proof (cases "wn_open_key sys (wn_root sys Hklm) (to_wide services_path) View64")
  case (Inl status)
  with assms have "status \<noteq> error_file_not_found" by (simp add: refused_drivers_def)
  with Inl obtain e where "mv_driver_keys (win_machine sys) = Unreadable e"
    by (simp add: win_machine_def win_driver_keys_def open_key_def absent_or_unreadable_def)
  then show ?thesis by simp
next
  case (Inr services)
  then have opened: "open_key sys (wn_root sys Hklm) services_path View64 = Inr services"
    by (simp add: open_key_def)
  show ?thesis
  proof (cases "subkeys sys services")
    case (Inl status)
    with opened show ?thesis by (simp add: win_machine_def win_driver_keys_def)
  next
    case names: (Inr names)
    then obtain raw where raw: "wn_subkeys sys services = (raw, error_no_more_items)"
      "names = map (\<lambda>n. from_utf16_lossy (take 256 n)) raw"
      by (auto simp: subkeys_def split: prod.splits if_splits)
    with assms Inr obtain name status where "name \<in> set names" "status \<noteq> error_file_not_found"
      "open_key sys services name View64 = Inl status"
      by (auto simp: refused_drivers_def open_key_def)
    then have "listed_unreadable sys services name \<noteq> None" "name \<in> set names"
      by (simp_all add: listed_unreadable_def)
    then have "List.map_filter (listed_unreadable sys services) names \<noteq> []"
      by (auto simp: List.map_filter_def filter_empty_conv)
    then show ?thesis by (simp add: driver_keys_Found [OF opened names])
  qed
qed

lemma refused_key_unreadable:
  assumes "refused_key sys ac"
  shows "unreadable_in (context_for (win_machine sys) env ac)"
proof -
  obtain entry canonical status v where entry: "entry \<in> set (ac_registry ac)"
    "key_passes (exceptions_for ac) (re_key entry)"
    and canonical: "canonicalise_reg_key (re_key entry) = Inr canonical"
    and status: "status \<noteq> error_file_not_found" and v: "v \<in> set (views (re_key entry) (re_view entry))"
    and call: "wn_open_key sys (wn_root sys (key_hive canonical))
      (to_wide (join_with [backslash] (key_components canonical))) v = Inl status"
    using assms unfolding refused_key_def by blast
  have "\<exists>e. mv_registry_key (win_machine sys) (re_key entry) v = Unreadable e"
    using absent_or_unreadable_other [OF status] canonical call
    by (auto simp: win_machine_def win_registry_key_def open_key_def)
  with entry v show ?thesis unfolding unreadable_in_def context_for_def by auto
qed

lemma refused_path_unreadable:
  "refused_path sys env ac \<Longrightarrow> unreadable_in (context_for (win_machine sys) env ac)"
  by (force simp: refused_path_def unreadable_in_def context_for_def win_machine_def win_path_def)

text \<open>
  C8. To be denied a look is never a clean machine: when Windows refuses the service manager or a
  service of the catalog, the key of one the manager does not know, the \<open>Services\<close> key, its
  listing or a key listed in it, an allowed key of the catalog in a view it asks for, or one of
  its paths, with any answer but \<^emph>\<open>not found\<close>, a scan that goes through is partial and says so in
  its exit code.
\<close>

theorem denied_is_partial:
  assumes "cli_main w (Inr cl) = Ret r" and "cl_command cl = ScanCommand mode as_json leaf"
    and "oc_code r \<in> {exit_ok, exit_nothing, exit_partial}" and "cw_machine w = win_machine sys"
    and "trusted_catalog w (resolve_catalog_path w (cl_catalog cl) (cl_data_dir cl)) c"
    and "refused_drivers sys \<or> (\<exists>ac \<in> set (cat_anticheat c).
      refused_service sys ac \<or> refused_key sys ac \<or> refused_path sys (cw_environment w) ac)"
  shows "oc_code r = exit_partial"
proof -
  have "completed (oc_code r)" using assms(3) by (simp add: completed_def)
  then obtain c' report where c': "trusted_catalog w (resolve_catalog_path w (cl_catalog cl) (cl_data_dir cl)) c'"
    and report: "audit c' (win_machine sys) (cw_environment w) = Ret report"
    and code: "oc_code r = report_exit_code report"
    using scan_completed [OF assms(1,2)] assms(4) by auto
  have same: "c' = c" using c' assms(5) by (auto simp: trusted_catalog_def)
  have "partial report"
    using assms(6) refused_drivers_unreadable refused_service_unreadable refused_key_unreadable
      refused_path_unreadable unread_partial [OF report] unfolding same by blast
  with code show ?thesis by (simp add: report_exit_code_def)
qed

theorem denied_is_partial_witness:
  "\<exists>r. cli_main (sample_world (win_machine sample_win32)) (Inr sample_args) = Ret r \<and> oc_code r = exit_partial"
proof -
  let ?w = "sample_world (win_machine sample_win32)"
  have "ascii_entry (context_for (win_machine sample_win32) new_environment sample_entry)
      \<longleftrightarrow> ascii_entry (context_for empty_machine new_environment sample_entry)"
  proof -
    have paths: "mv_path (win_machine sample_win32) = mv_path empty_machine"
      by (intro ext) (simp add: win_machine_def win_path_def sample_win32_def empty_machine_def)
    show ?thesis unfolding ascii_entry_def context_for_def audit_context.simps paths by (rule refl)
  qed
  moreover have "ascii_entry (context_for empty_machine new_environment sample_entry)" by code_simp
  ultimately have "audit sample_audit_catalog (win_machine sample_win32) new_environment \<noteq> Panic"
    by (intro audit_total) (simp add: sample_entries)
  then have "\<exists>report. audit sample_audit_catalog (win_machine sample_win32) new_environment = Ret report"
    by (cases "audit sample_audit_catalog (win_machine sample_win32) new_environment") auto
  then obtain report r where r: "cli_main ?w (Inr sample_args) = Ret r"
    and code: "oc_code r = report_exit_code report"
    using sample_scan by blast
  have "oc_code r = exit_partial"
  proof (rule denied_is_partial [OF r])
    show "cl_command sample_args = ScanCommand AuditMode False None" by (simp add: sample_args_def)
    show "oc_code r \<in> {exit_ok, exit_nothing, exit_partial}" unfolding code by (simp add: report_exit_code_def)
    show "cw_machine ?w = win_machine sample_win32" by (simp add: sample_world_def)
    show "trusted_catalog ?w (resolve_catalog_path ?w (cl_catalog sample_args) (cl_data_dir sample_args))
        sample_audit_catalog" using sample_trusted by simp
  qed (simp add: refused_drivers_def sample_win32_def error_access_denied_def error_no_more_items_def)
  with r show ?thesis by blast
qed

end
