(* ===== verification/Topmost.thy ===== *)
theory Topmost
  imports Rust_Str "HOL-Library.Multiset"
begin

text \<open>
  What the two walks of a snapshot share: worklists that follow what a place holds, and the
  topmost places with nothing beneath them.

  A place has at most one parent.  Marking upwards stops at the first place that is marked
  already, because whoever marked it has marked all above it.  That argument is made once, in
  the locale \<open>ancestry\<close>, and interpreted for directories and for registry keys.
\<close>

section \<open>Nothing beneath\<close>

definition topmost :: "(string \<Rightarrow> string option) \<Rightarrow> string set \<Rightarrow> string list \<Rightarrow> string list" where
  "topmost parent marked read =
     sort (filter (\<lambda>k. k \<notin> marked
        \<and> (case parent k of Some p \<Rightarrow> p \<notin> set read \<or> p \<in> marked | None \<Rightarrow> True)) read)"

definition parents :: "(string \<Rightarrow> string option) \<Rightarrow> (string \<times> string) set" where
  "parents parent = {(k, p). parent k = Some p}"

text \<open>Something is kept at a place or below it.\<close>

definition holds_below :: "(string \<Rightarrow> string option) \<Rightarrow> string list \<Rightarrow> string \<Rightarrow> bool" where
  "holds_below parent holding k \<longleftrightarrow> (\<exists>h \<in> set holding. (h, k) \<in> (parents parent)\<^sup>*)"

locale ancestry =
  fixes parent :: "string \<Rightarrow> string option" and mark :: "string \<Rightarrow> string set \<Rightarrow> string set"
  assumes parent_shorter: "parent k = Some p \<Longrightarrow> length p < length k"
    and mark_step: "mark k marked =
      (if k \<in> marked then marked
       else case parent k of Some p \<Rightarrow> mark p (insert k marked) | None \<Rightarrow> insert k marked)"
begin

lemma ancestors_step: "(parents parent)\<^sup>* `` {k} = insert k (case parent k of
    Some p \<Rightarrow> (parents parent)\<^sup>* `` {p} | None \<Rightarrow> {})"
  by (auto simp: parents_def intro: converse_rtrancl_into_rtrancl elim: converse_rtranclE split: option.splits)

lemma ancestor_shorter: "(k, p) \<in> (parents parent)\<^sup>* \<Longrightarrow> length p \<le> length k"
  by (induction rule: rtrancl_induct) (auto simp: parents_def dest: parent_shorter)

definition closed_up :: "string set \<Rightarrow> bool" where
  "closed_up marked \<longleftrightarrow> (parents parent)\<^sup>* `` marked \<subseteq> marked"

text \<open>
  While marking goes up from \<open>k\<close>, what is marked is a set closed upwards and the places passed
  on the way, which are longer than \<open>k\<close>: a mark found at \<open>k\<close> is one of the closed set.
\<close>

lemma mark_from:
  assumes "closed_up old"
  shows "\<forall>c \<in> passed. length k < length c \<Longrightarrow>
    mark k (old \<union> passed) = old \<union> passed \<union> (parents parent)\<^sup>* `` {k}"
proof (induction "length k" arbitrary: k passed rule: less_induct)
  case less
  show ?case
  proof (cases "k \<in> old \<union> passed")
    case True
    with less.prems have "k \<in> old" by auto
    with assms have "(parents parent)\<^sup>* `` {k} \<subseteq> old" by (auto simp: closed_up_def)
    with True show ?thesis by (subst mark_step) auto
  next
    case new: False
    show ?thesis
    proof (cases "parent k")
      case None
      with new show ?thesis by (subst mark_step, subst ancestors_step) auto
    next
      case (Some p)
      have "mark p (old \<union> insert k passed) = old \<union> insert k passed \<union> (parents parent)\<^sup>* `` {p}"
        using less.prems parent_shorter [OF Some] by (intro less.hyps) auto
      with new Some show ?thesis by (subst mark_step, subst ancestors_step) auto
    qed
  qed
qed

lemma closed_up_mark: "closed_up marked \<Longrightarrow> closed_up (mark k marked)"
  using mark_from [of marked "{}" k] by (auto simp: closed_up_def)

lemma fold_mark_closed: "closed_up marked \<Longrightarrow> closed_up (fold mark ks marked)"
  by (induction ks arbitrary: marked) (simp_all add: closed_up_mark)

lemma fold_mark:
  "closed_up marked \<Longrightarrow> fold mark ks marked = marked \<union> (parents parent)\<^sup>* `` set ks"
proof (induction ks arbitrary: marked)
  case (Cons k ks)
  have "mark k marked = marked \<union> (parents parent)\<^sup>* `` {k}"
    using mark_from [OF Cons.prems, of "{}" k] by simp
  with Cons.IH [OF closed_up_mark [OF Cons.prems, of k]] show ?case by auto
qed simp

text \<open>The order in which the holding places are marked is of no importance.\<close>

lemma marked_iff: "k \<in> fold mark holding {} \<longleftrightarrow> holds_below parent holding k"
  by (subst fold_mark) (auto simp: closed_up_def holds_below_def)

lemma topmost_iff:
  "k \<in> set (topmost parent (fold mark holding {}) read) \<longleftrightarrow>
     k \<in> set read \<and> \<not> holds_below parent holding k
     \<and> (\<forall>p. parent k = Some p \<longrightarrow> p \<notin> set read \<or> holds_below parent holding p)"
  by (auto simp: topmost_def marked_iff split: option.splits)

end

section \<open>Worklists\<close>

text \<open>
  A loop that takes a place from a worklist, notes what is to be seen there and puts the places
  below it on the list.  It comes to an end when no place has an endless descent below it, and
  then it has noted what there is to see at every place that can be reached, and nothing else.
\<close>

definition descents :: "('k \<Rightarrow> 'k list) \<Rightarrow> ('k \<times> 'k) set" where
  "descents below = {(k, c). c \<in> set (below k)}"

definition reachable_below :: "('k \<Rightarrow> 'k list) \<Rightarrow> 'k list \<Rightarrow> 'k set" where
  "reachable_below below ks = (descents below)\<^sup>* `` set ks"

definition no_endless_descent :: "('k \<Rightarrow> 'k list) \<Rightarrow> bool" where
  "no_endless_descent below \<longleftrightarrow> wf ((descents below)\<inverse>)"

lemma reachable_below_Cons:
  "reachable_below below (k # ks) = insert k ((descents below)\<^sup>* `` (set ks \<union> set (below k)))"
  by (auto simp: reachable_below_def descents_def Image_iff
      intro: converse_rtrancl_into_rtrancl elim: converse_rtranclE)

lemma no_endless_descentI: "(\<And>k c. c \<in> set (below k) \<Longrightarrow> rank c < (rank k :: nat)) \<Longrightarrow> no_endless_descent below"
  unfolding no_endless_descent_def
  by (rule wf_subset [OF wf_measure [of rank]]) (auto simp: descents_def)

locale worklist =
  fixes queue :: "'s \<Rightarrow> 'k list" and step :: "'s \<Rightarrow> 's" and loop :: "'s \<Rightarrow> 's option"
    and below :: "'k \<Rightarrow> 'k list" and seen :: "'s \<Rightarrow> 'x set" and sights :: "'k \<Rightarrow> 'x set"
  assumes stop: "queue st = [] \<Longrightarrow> loop st = Some st"
    and continue: "queue st = k # ks \<Longrightarrow> loop st = loop (step st)"
    and replaced: "queue st = k # ks \<Longrightarrow> mset (queue (step st)) = mset ks + mset (below k)"
    and noted: "queue st = k # ks \<Longrightarrow> seen (step st) = seen st \<union> sights k"
begin

lemma loop_sees:
  assumes "no_endless_descent below"
  shows "\<exists>st'. loop st = Some st' \<and> seen st' = seen st \<union> (\<Union>k \<in> reachable_below below (queue st). sights k)"
proof -
  have "wf (inv_image (mult ((descents below)\<inverse>)) (\<lambda>st. mset (queue st)))"
    using assms by (auto simp: no_endless_descent_def intro: wf_mult)
  then show ?thesis
  proof (induction st rule: wf_induct_rule)
    case (less st)
    show ?case
    proof (cases "queue st")
      case Nil
      then show ?thesis by (simp add: stop reachable_below_def)
    next
      case (Cons k ks)
      have "(mset ks + mset (below k), mset (k # ks)) \<in> mult ((descents below)\<inverse>)"
        using one_step_implies_mult [of "{#k#}" "mset (below k)" _ "mset ks"] by (simp add: descents_def)
      then obtain st' where "loop (step st) = Some st'"
        and "seen st' = seen (step st) \<union> (\<Union>c \<in> reachable_below below (queue (step st)). sights c)"
        using less.IH [of "step st"] by (auto simp: Cons replaced [OF Cons])
      moreover have "set (queue (step st)) = set ks \<union> set (below k)"
        using arg_cong [OF replaced [OF Cons], of set_mset] by simp
      ultimately show ?thesis
        using noted [OF Cons] unfolding continue [OF Cons] unfolding Cons reachable_below_Cons
        by (auto simp: reachable_below_def)
    qed
  qed
qed

end

end
