(* ===== verification/Clock.thy ===== *)
theory Clock
  imports Rust_Str "HOL-Library.Word" "HOL-Library.Signed_Division"
begin

text \<open>
  Timestamps: \<open>tools/observe/src/clock.rs\<close>, and the same functions in the broker spike.  Days are
  counted from 1970-01-01 and turned into a date by arithmetic alone; the theorem is that the
  dates are those of the Gregorian calendar, day after day, without end in either direction.
\<close>

section \<open>The conversion\<close>

definition civil_from_days :: "int \<Rightarrow> int \<times> int \<times> int" where
  "civil_from_days days =
     (let shifted = days + 719468;
          era = (if 0 \<le> shifted then shifted else shifted - 146096) sdiv 146097;
          day_of_era = shifted - era * 146097;
          year_of_era =
            (day_of_era - day_of_era div 1460 + day_of_era div 36524 - day_of_era div 146096) div 365;
          year = year_of_era + era * 400;
          day_of_year = day_of_era - (365 * year_of_era + year_of_era div 4 - year_of_era div 100);
          month_prime = (5 * day_of_year + 2) div 153;
          day = day_of_year - (153 * month_prime + 2) div 5 + 1;
          month = (if month_prime < 10 then month_prime + 3 else month_prime - 9)
      in (if month \<le> 2 then year + 1 else year, month, day))"

text \<open>\<open>{n:0w}\<close>: zeros up to a width that counts the sign.\<close>

definition zero_padded :: "nat \<Rightarrow> int \<Rightarrow> string" where
  "zero_padded width n =
     (let digits = decimal (nat \<bar>n\<bar>); sign = (if n < 0 then ''-'' else [])
      in sign @ replicate (width - length sign - length digits) (CHR ''0'') @ digits)"

text \<open>Milliseconds are 128 bits wide; the seconds are cut to 64 bits and read as signed.\<close>

definition from_unix_millis :: "128 word \<Rightarrow> string" where
  "from_unix_millis millis =
     (let total_seconds = sint (ucast (millis div 1000) :: 64 word);
          sub_millis = uint (millis mod 1000);
          days = total_seconds div 86400;
          seconds_of_day = total_seconds mod 86400;
          (year, month, day) = civil_from_days days
      in zero_padded 4 year @ ''-'' @ zero_padded 2 month @ ''-'' @ zero_padded 2 day @ ''T''
         @ zero_padded 2 (seconds_of_day div 3600) @ '':'' @ zero_padded 2 (seconds_of_day mod 3600 div 60)
         @ '':'' @ zero_padded 2 (seconds_of_day mod 60) @ ''.'' @ zero_padded 3 sub_millis @ ''Z'')"

section \<open>The calendar\<close>

definition leap_year :: "int \<Rightarrow> bool" where
  "leap_year y \<longleftrightarrow> y mod 4 = 0 \<and> (y mod 100 \<noteq> 0 \<or> y mod 400 = 0)"

definition days_in_month :: "int \<Rightarrow> int \<Rightarrow> int" where
  "days_in_month y m = (if m = 2 then if leap_year y then 29 else 28 else if m \<in> {4, 6, 9, 11} then 30 else 31)"

definition next_day :: "int \<times> int \<times> int \<Rightarrow> int \<times> int \<times> int" where
  "next_day = (\<lambda>(y, m, d).
     if d < days_in_month y m then (y, m, d + 1) else if m < 12 then (y, m + 1, 1) else (y + 1, 1, 1))"

section \<open>Years that begin in March\<close>

text \<open>The first day of each of the four hundred years of an era.\<close>

definition year_start :: "int \<Rightarrow> int" where
  "year_start y = 365 * y + y div 4 - y div 100 + y div 400"

definition year_of_day :: "int \<Rightarrow> int" where
  "year_of_day d = (d - d div 1460 + d div 36524 - d div 146096) div 365"

definition month_and_day :: "int \<Rightarrow> int \<times> int" where
  "month_and_day day_of_year =
     (let month_prime = (5 * day_of_year + 2) div 153
      in (if month_prime < 10 then month_prime + 3 else month_prime - 9,
          day_of_year - (153 * month_prime + 2) div 5 + 1))"

definition date_of :: "int \<Rightarrow> int \<Rightarrow> int \<times> int \<times> int" where
  "date_of y day_of_year =
     (case month_and_day day_of_year of (m, d) \<Rightarrow> (if m \<le> 2 then y + 1 else y, m, d))"

lemma era_floor:
  "(if 0 \<le> s then s else s - 146096) sdiv 146097 = s div (146097 :: int)"
proof (cases "0 \<le> s")
  case False
  have "(146096 - s) div 146097 = - (s div 146097)"
  proof (rule int_div_pos_eq)
    show "146096 - s = 146097 * - (s div 146097) + (146096 - s mod 146097)"
      using mult_div_mod_eq [of 146097 s] by linarith
  qed (use pos_mod_bound [of 146097 s] pos_mod_sign [of 146097 s] in simp_all)
  with False show ?thesis by (simp add: signed_divide_int_def)
next
  case True
  then show ?thesis by (cases "s = 0") (simp_all add: signed_divide_int_def)
qed

lemma div_step:
  assumes "0 \<le> d" and "0 < n"
  shows "(d + 1) div n = d div n + of_bool (n dvd d + (1 :: int))"
proof -
  from assms obtain k m where "d = int k" "n = int m" by (metis nonneg_int_cases zero_less_imp_eq_int)
  moreover have "int (Suc k div m) = int (k div m) + of_bool (m dvd Suc k)"
    by (simp add: div_Suc mod_eq_0_iff_dvd)
  moreover have "int m dvd int k + 1 \<longleftrightarrow> m dvd Suc k"
    by (metis int_dvd_int_iff of_nat_Suc add.commute)
  ultimately show ?thesis by (simp add: zdiv_int add.commute)
qed

lemma year_of_day_step:
  assumes "0 \<le> d"
  shows "year_of_day d \<le> year_of_day (d + 1)"
proof -
  have "(36524 :: int) dvd d + 1" if "146096 dvd d + 1"
    using dvd_trans [OF _ that, of 36524] by simp
  then have "d - d div 1460 + d div 36524 - d div 146096
      \<le> (d + 1) - (d + 1) div 1460 + (d + 1) div 36524 - (d + 1) div 146096"
    using assms by (simp add: div_step of_bool_def)
  then show ?thesis unfolding year_of_day_def by (intro zdiv_mono1) simp_all
qed

lemma year_of_day_mono: "0 \<le> d \<Longrightarrow> d \<le> e \<Longrightarrow> year_of_day d \<le> year_of_day e"
proof (induction "nat (e - d)" arbitrary: e)
  case (Suc n)
  then have "year_of_day d \<le> year_of_day (e - 1)" by (intro Suc.hyps) auto
  also have "\<dots> \<le> year_of_day (e - 1 + 1)" using Suc by (intro year_of_day_step) auto
  finally show ?case by simp
qed simp

text \<open>The two ends of each year decide the days between them.\<close>

lemma year_ends:
  "list_all (\<lambda>y. year_of_day (year_start y) = y \<and> year_of_day (year_start (y + 1) - 1) = y
       \<and> year_start (y + 1) \<le> 146097) [0..399]"
  by code_simp

lemma year_end:
  assumes "0 \<le> y" "y < 400"
  shows "year_of_day (year_start y) = y" and "year_of_day (year_start (y + 1) - 1) = y"
    and "year_start (y + 1) \<le> 146097"
  using year_ends assms by (auto simp: list_all_iff)

lemma year_start_pos: "0 \<le> y \<Longrightarrow> 0 \<le> year_start y"
  using zdiv_mono2 [of y 4 100] pos_imp_zdiv_nonneg_iff [of 400 y] by (simp add: year_start_def)

lemma year_of_day:
  assumes "0 \<le> y" "y < 400" "year_start y \<le> d" "d < year_start (y + 1)"
  shows "year_of_day d = y"
  using assms year_end [OF assms(1,2)] year_start_pos [OF assms(1)]
    year_of_day_mono [of "year_start y" d] year_of_day_mono [of d "year_start (y + 1) - 1"]
  by simp

lemma year_of_day_bounds:
  assumes "0 \<le> d" "d < 146097"
  defines "y \<equiv> year_of_day d"
  shows "0 \<le> y" "y < 400" "year_start y \<le> d" "d < year_start (y + 1)"
proof -
  have ends: "year_of_day 0 = 0" "year_of_day 146096 = 399" "year_start 400 = 146097" by code_simp+
  show y: "0 \<le> y" "y < 400"
    using assms ends year_of_day_mono [of 0 d] year_of_day_mono [of d 146096] by simp_all
  show "year_start y \<le> d"
  proof (rule ccontr)
    assume late: "\<not> year_start y \<le> d"
    with assms(1) have "y \<noteq> 0" by (auto simp: year_start_def)
    with y late assms(1) year_end(2) [of "y - 1"] year_of_day_mono [of d "year_start y - 1"] show False
      by (simp add: y_def)
  qed
  show "d < year_start (y + 1)"
  proof (rule ccontr)
    assume early: "\<not> d < year_start (y + 1)"
    with assms(2) ends(3) have "y + 1 \<noteq> 400" by auto
    with y early year_end(1) [of "y + 1"] year_start_pos [of "y + 1"]
      year_of_day_mono [of "year_start (y + 1)" d] show False
      by (simp add: y_def)
  qed
qed

section \<open>The dates\<close>

lemma civil_split:
  "civil_from_days days =
     (let shifted = days + 719468;
          era = shifted div 146097;
          day_of_era = shifted - era * 146097;
          y = year_of_day day_of_era
      in date_of (y + era * 400) (day_of_era - (365 * y + y div 4 - y div 100)))"
  by (simp only: civil_from_days_def Let_def era_floor year_of_day_def date_of_def month_and_day_def prod.case)

lemma civil_at:
  assumes "0 \<le> y" "y < 400" "0 \<le> k" "year_start y + k < year_start (y + 1)"
    and "days = 146097 * era + year_start y + k - 719468"
  shows "civil_from_days days = date_of (y + era * 400) k"
proof -
  have "year_start (y + 1) \<le> 146097" using assms(1,2) by (rule year_end)
  then have doe: "0 \<le> year_start y + k" "year_start y + k < 146097"
    using assms(3,4) year_start_pos [OF assms(1)] by simp_all
  then have era: "(146097 * era + year_start y + k) div 146097 = era" by (simp add: add.assoc)
  have yoe: "year_of_day (year_start y + k) = y" using assms by (intro year_of_day) simp_all
  have shifted: "days + 719468 = 146097 * era + year_start y + k" using assms(5) by simp
  have day_of_era: "146097 * era + year_start y + k - era * 146097 = year_start y + k" by simp
  have "year_start y + k - (365 * y + y div 4 - y div 100) = k"
    using assms(1,2) by (simp add: year_start_def)
  then show ?thesis by (simp only: civil_split Let_def shifted era day_of_era yoe)
qed

lemma civil_position:
  obtains era y k where "0 \<le> y" "y < 400" "0 \<le> k" "year_start y + k < year_start (y + 1)"
    "days = 146097 * era + year_start y + k - 719468"
proof
  let ?d = "(days + 719468) mod 146097"
  have "0 \<le> ?d" "?d < 146097" by simp_all
  note bounds = year_of_day_bounds [OF this]
  show "0 \<le> year_of_day ?d" "year_of_day ?d < 400" by fact+
  show "0 \<le> ?d - year_start (year_of_day ?d)"
    "year_start (year_of_day ?d) + (?d - year_start (year_of_day ?d)) < year_start (year_of_day ?d + 1)"
    using bounds by simp_all
  show "days = 146097 * ((days + 719468) div 146097) + year_start (year_of_day ?d)
      + (?d - year_start (year_of_day ?d)) - 719468"
    using mult_div_mod_eq [of 146097 "days + 719468"] by linarith
qed

text \<open>A year has 366 days exactly when the February it ends with is that of a leap year.\<close>

lemma year_lengths:
  "list_all (\<lambda>y. year_start (y + 1) = year_start y + 365 + of_bool (leap_year (y + 1))) [0..399]"
  by code_simp

lemma leap_year_era: "leap_year (y + era * 400) = leap_year y"
proof -
  have "(y + era * 400) mod 4 = y mod 4" "(y + era * 400) mod 100 = y mod 100"
    using mod_mult_self2 [of y 4 "era * 100"] mod_mult_self2 [of y 100 "era * 4"] by (simp_all add: mult.commute)
  then show ?thesis by (simp add: leap_year_def)
qed

lemma year_length:
  assumes "0 \<le> y" "y < 400"
  shows "year_start (y + 1) = year_start y + 365 + of_bool (leap_year (y + era * 400 + 1))"
proof -
  have "\<forall>y \<in> {0..399}. year_start (y + 1) = year_start y + 365 + of_bool (leap_year (y + 1))"
    using year_lengths by (simp only: list_all_iff set_upto)
  moreover have "leap_year (y + era * 400 + 1) = leap_year (y + 1)"
    using leap_year_era [of "y + 1" era] by (simp add: ac_simps)
  ultimately show ?thesis using assms by simp
qed

lemma days_follow:
  "list_all (\<lambda>k. case (month_and_day k, month_and_day (k + 1)) of ((m, d), n) \<Rightarrow>
     n = (if d < (if m = 2 then 28 else if m \<in> {4, 6, 9, 11} then 30 else 31) then (m, d + 1)
          else if m < 12 then (m + 1, 1) else (1, 1))
     \<and> (m = 2 \<longrightarrow> d < 28)) [0..363]"
  by code_simp

lemma date_follows:
  assumes "0 \<le> k" "k \<le> 363"
  shows "date_of y (k + 1) = next_day (date_of y k)"
proof -
  obtain m d where md: "month_and_day k = (m, d)" by fastforce
  have "\<forall>k \<in> {0..363}. case (month_and_day k, month_and_day (k + 1)) of ((m, d), n) \<Rightarrow>
     n = (if d < (if m = 2 then 28 else if m \<in> {4, 6, 9, 11} then 30 else 31) then (m, d + 1)
          else if m < 12 then (m + 1, 1) else (1, 1))
     \<and> (m = 2 \<longrightarrow> d < 28)"
    using days_follow by (simp only: list_all_iff set_upto)
  then have "case (month_and_day k, month_and_day (k + 1)) of ((m, d), n) \<Rightarrow>
     n = (if d < (if m = 2 then 28 else if m \<in> {4, 6, 9, 11} then 30 else 31) then (m, d + 1)
          else if m < 12 then (m + 1, 1) else (1, 1))
     \<and> (m = 2 \<longrightarrow> d < 28)"
    by (rule bspec) (use assms in simp)
  then have "month_and_day (k + 1) =
      (if d < (if m = 2 then 28 else if m \<in> {4, 6, 9, 11} then 30 else 31) then (m, d + 1)
       else if m < 12 then (m + 1, 1) else (1, 1)) \<and> (m = 2 \<longrightarrow> d < 28)"
    unfolding md prod.case .
  with md show ?thesis by (auto simp: date_of_def next_day_def days_in_month_def)
qed

lemma year_turns:
  "date_of y 364 = (y + 1, 2, 28)" "date_of y 365 = (y + 1, 2, 29)" "date_of y 0 = (y, 3, 1)"
  by (simp_all add: date_of_def month_and_day_def Let_def)

text \<open>
  C40. The dates in timestamps are those of the Gregorian calendar: day 0 is 1 January 1970, and
  each day is the calendar's next day after the one before it.  Days are unbounded integers here,
  64-bit ones in the code, where those of a clock's seconds are far from the bound.
\<close>

theorem dates_are_gregorian:
  "civil_from_days 0 = (1970, 1, 1) \<and> civil_from_days (days + 1) = next_day (civil_from_days days)"
proof
  show "civil_from_days 0 = (1970, 1, 1)" by code_simp
  obtain era y k where y: "0 \<le> y" "y < 400" and k: "0 \<le> k" "year_start y + k < year_start (y + 1)"
    and days: "days = 146097 * era + year_start y + k - 719468"
    by (rule civil_position)
  let ?y = "y + era * 400"
  have today: "civil_from_days days = date_of ?y k" by (rule civil_at [OF y k days])
  have len: "year_start (y + 1) = year_start y + 365 + of_bool (leap_year (?y + 1))"
    using year_length [OF y] .
  show "civil_from_days (days + 1) = next_day (civil_from_days days)"
  proof (cases "year_start y + (k + 1) < year_start (y + 1)")
    case True
    then have "civil_from_days (days + 1) = date_of ?y (k + 1)"
      using y k days by (intro civil_at) simp_all
    moreover have "date_of ?y (k + 1) = next_day (date_of ?y k)"
    proof (cases "k \<le> 363")
      case False
      with True len have "k = 364" "leap_year (?y + 1)" by (cases "leap_year (?y + 1)"; simp)+
      then show ?thesis by (simp add: year_turns next_day_def days_in_month_def)
    qed (use k date_follows in simp)
    ultimately show ?thesis using today by simp
  next
    case False
    with k(2) len have last: "k = 364 + of_bool (leap_year (?y + 1))" by linarith
    have "civil_from_days (days + 1) = date_of (?y + 1) 0"
    proof (cases "y = 399")
      case True
      have "year_start 400 = 146097" "year_start 0 = 0" "year_start 1 = 365" by code_simp+
      with True False k days show ?thesis using civil_at [of 0 0 "days + 1" "era + 1"]
        by (simp add: add.commute)
    next
      case inner: False
      have "year_start (y + 1) < year_start (y + 2)"
        using year_length [of "y + 1" era] y inner by (simp add: add.assoc)
      with inner False y k days show ?thesis
        using civil_at [of "y + 1" 0 "days + 1" era] by (simp add: algebra_simps)
    qed
    with today last show ?thesis by (simp add: year_turns next_day_def days_in_month_def of_bool_def)
  qed
qed

text \<open>The instants the code's tests name.\<close>

lemma timestamps:
  "from_unix_millis 0 = ''1970-01-01T00:00:00.000Z''"
  "from_unix_millis 1787142896789 = ''2026-08-19T12:34:56.789Z''"
  "from_unix_millis 1709164800000 = ''2024-02-29T00:00:00.000Z''"
  by code_simp+

end
