(* ===== verification/Obs_Walk.thy ===== *)
theory Obs_Walk
  imports Obs_Policy Topmost Std_Path Clock
begin

text \<open>
  The filesystem domain of a snapshot: \<open>tools/observe/src/collect/filesystem.rs\<close>, and the choice of
  the roots in \<open>collect/mod.rs\<close>.  What the disk answers is a record of functions: the listing of
  a directory, what a path itself is without following it, a file's digest and its signer.

  Two paths are the same when their texts are: the roots are folders the environment and the
  launchers name, and every other path is a root with names joined to it.
\<close>

section \<open>The disk\<close>

text \<open>A modification time is in milliseconds since the epoch, if it is known and not before it.\<close>

record file_meta =
  fm_is_symlink :: bool
  fm_is_dir :: bool
  fm_len :: "64 word"
  fm_modified :: "128 word option"

text \<open>An entry of a listing is a name, or the error that came instead of one.\<close>

record disk =
  dk_read_dir :: "string \<Rightarrow> string + (string + string) list"
  dk_metadata :: "string \<Rightarrow> string + file_meta"
  dk_hash :: "string \<Rightarrow> string + string"
  dk_signer :: "string \<Rightarrow> string option"

section \<open>The policy of the walk\<close>

definition max_hash_bytes :: "64 word" where "max_hash_bytes = 128 * 1024 * 1024"

definition hashed_extensions :: "string list" where
  "hashed_extensions =
     [''sys'', ''exe'', ''dll'', ''ocx'', ''drv'', ''cpl'', ''scr'', ''efi'', ''cat'', ''msi'']"

definition should_hash :: "string \<Rightarrow> bool" where
  "should_hash path =
     (case path_extension path of
        Some extension \<Rightarrow> to_ascii_lowercase extension \<in> set hashed_extensions
      | None \<Rightarrow> False)"

record captured_files =
  cf_files :: "file_record list"
  cf_access_denied :: "access_denied list"
  cf_policy :: filesystem_policy
  cf_file_empty_directories :: "string list"

section \<open>The walk\<close>

record walk_state =
  wk_queue :: "string list"
  wk_pending :: "(string \<times> file_meta) list"
  wk_denied :: "access_denied list"
  wk_read :: "string list"
  wk_holds :: "string list"

definition denied_path :: "string \<Rightarrow> string \<Rightarrow> access_denied" where
  "denied_path path reason = \<lparr>ad_domain = FilesystemDomain, ad_item = path, ad_reason = reason\<rparr>"

definition walk_entry :: "disk \<Rightarrow> string \<Rightarrow> string \<Rightarrow> walk_state \<times> bool \<Rightarrow> walk_state \<times> bool" where
  "walk_entry d directory name = (\<lambda>(st, holds_any_file).
     let path = push_name directory name
     in if is_excluded_path path then (st, True)
        else
          (case dk_metadata d path of
             Inl e \<Rightarrow> (st\<lparr>wk_denied := wk_denied st @ [denied_path path e]\<rparr>, True)
           | Inr metadata \<Rightarrow>
               if fm_is_symlink metadata then
                 (st\<lparr>wk_denied := wk_denied st @ [denied_path path ''reparse point, not traversed'']\<rparr>, True)
               else if fm_is_dir metadata then
                 (st\<lparr>wk_queue := wk_queue st @ [path]\<rparr>, holds_any_file)
               else (st\<lparr>wk_pending := wk_pending st @ [(path, metadata)]\<rparr>, True)))"

text \<open>An entry that could not be read is passed over, as \<open>flatten\<close> does.\<close>

definition readable_entries :: "(string + string) list \<Rightarrow> string list" where
  "readable_entries items =
     List.map_filter (\<lambda>e. case e of Inr name \<Rightarrow> Some name | Inl _ \<Rightarrow> None) items"

definition walk_directory :: "disk \<Rightarrow> string \<Rightarrow> walk_state \<Rightarrow> walk_state" where
  "walk_directory d directory st =
     (case dk_read_dir d directory of
        Inl e \<Rightarrow> st\<lparr>wk_denied := wk_denied st @ [denied_path directory e],
                   wk_holds := wk_holds st @ [directory]\<rparr>
      | Inr items \<Rightarrow>
          (let (st, holds_any_file) = fold (walk_entry d directory) (readable_entries items) (st, False)
           in st\<lparr>wk_holds := (if holds_any_file then wk_holds st @ [directory] else wk_holds st),
                 wk_read := wk_read st @ [directory]\<rparr>))"

text \<open>The queue grows as it is worked off, so whether the walk ends depends on the disk.\<close>

partial_function (option) walk_loop :: "disk \<Rightarrow> walk_state \<Rightarrow> walk_state option" where
  "walk_loop d st =
     (case wk_queue st of
        [] \<Rightarrow> Some st
      | directory # rest \<Rightarrow> walk_loop d (walk_directory d directory (st\<lparr>wk_queue := rest\<rparr>)))"

section \<open>Directories with nothing in them\<close>

function mark_path :: "string \<Rightarrow> string set \<Rightarrow> string set" where
  "mark_path path marked =
     (if path \<in> marked then marked
      else case path_parent path of
             Some parent \<Rightarrow> mark_path parent (insert path marked)
           | None \<Rightarrow> insert path marked)"
  by pat_completeness auto
termination
  by (relation "measure (\<lambda>(path, marked). length path)") (simp_all add: path_parent_shorter)

declare mark_path.simps [simp del]

interpretation directories: ancestry path_parent mark_path
  by unfold_locales (erule path_parent_shorter, rule mark_path.simps)

definition file_empty_roots :: "string list \<Rightarrow> string list \<Rightarrow> string list" where
  "file_empty_roots read holds_a_file = topmost path_parent (fold mark_path holds_a_file {}) read"

section \<open>The record of a file\<close>

definition record_file :: "disk \<Rightarrow> string \<times> file_meta \<Rightarrow> file_record" where
  "record_file d = (\<lambda>(path, metadata).
     let (sha256, not_hashed) =
           (if should_hash path then
              if max_hash_bytes < fm_len metadata then
                (None, Some (decimal (unat (fm_len metadata)) @ '' bytes exceeds the ''
                   @ decimal (unat max_hash_bytes) @ '' byte cap''))
              else (case dk_hash d path of Inr digest \<Rightarrow> (Some digest, None) | Inl e \<Rightarrow> (None, Some e))
            else (None, None))
     in \<lparr>fr_path = path, fr_size = fm_len metadata,
         fr_modified_utc = (case fm_modified metadata of Some since \<Rightarrow> from_unix_millis since | None \<Rightarrow> []),
         fr_sha256 = sha256, fr_signer = (if sha256 \<noteq> None then dk_signer d path else None),
         fr_not_hashed = not_hashed\<rparr>)"

definition walk_policy :: "string list \<Rightarrow> filesystem_policy" where
  "walk_policy roots =
     \<lparr>fp_roots = roots, fp_excluded = excluded_path_fragments, fp_hashed_extensions = hashed_extensions,
      fp_max_hash_bytes = max_hash_bytes, fp_libraries = []\<rparr>"

definition walk :: "disk \<Rightarrow> string list \<Rightarrow> captured_files option" where
  "walk d roots =
     map_option (\<lambda>st.
       \<lparr>cf_files = sort_key fr_path (map (record_file d) (wk_pending st)),
        cf_access_denied = sort_key ad_item (wk_denied st),
        cf_policy = walk_policy roots,
        cf_file_empty_directories = file_empty_roots (wk_read st) (wk_holds st)\<rparr>)
     (walk_loop d \<lparr>wk_queue = roots, wk_pending = [], wk_denied = [], wk_read = [], wk_holds = []\<rparr>)"

section \<open>The roots\<close>

text \<open>The folders of the environment that are there.\<close>

definition default_roots :: "(string \<Rightarrow> string option) \<Rightarrow> (string \<Rightarrow> bool) \<Rightarrow> string list" where
  "default_roots env is_dir =
     filter is_dir
       (List.map_filter env
          [''ProgramFiles'', ''ProgramFiles(x86)'', ''ProgramData'', ''LOCALAPPDATA'', ''APPDATA'']
        @ (case env ''SystemRoot'' of
             Some root \<Rightarrow> [push_name (push_name root ''System32'') ''drivers'']
           | None \<Rightarrow> []))"

definition is_within :: "string \<Rightarrow> string \<Rightarrow> bool" where
  "is_within path root =
     (let path = to_ascii_lowercase path;
          root = trim_end_matches (\<lambda>c. c = backslash) (to_ascii_lowercase root)
      in path = root
         \<or> (case strip_prefix path root of Some rest \<Rightarrow> starts_with rest [backslash] | None \<Rightarrow> False))"

text \<open>\<open>dedup_by\<close>: an element that is the same as the last one kept is dropped.\<close>

definition walk_roots :: "string list \<Rightarrow> library list \<Rightarrow> string list" where
  "walk_roots defaults libraries =
     defaults
     @ dedup_by_key to_ascii_lowercase
         (sort_key to_ascii_lowercase
            (filter (\<lambda>g. \<not> list_ex (is_within g) defaults) (map games libraries)))"

text \<open>The libraries whose games folder is there, and the gaps.\<close>

definition libraries_to_walk :: "(string \<Rightarrow> bool) \<Rightarrow> found_libraries \<Rightarrow> library list \<times> access_denied list" where
  "libraries_to_walk is_dir found =
     (filter (\<lambda>l. is_dir (games l)) (fl_libraries found),
      map (\<lambda>m. denied_path (lu_path m) (''library manifest unreadable: '' @ lu_reason m)) (fl_unreadable found)
        @ map (\<lambda>l. denied_path (games l) ''named by a launcher's library manifest and not present'')
            (filter (\<lambda>l. \<not> is_dir (games l)) (fl_libraries found)))"

end
