(* ===== verification/Obs_Registry.thy ===== *)
theory Obs_Registry
  imports Obs_Policy Windows Topmost
begin

text \<open>
  The registry domain of a snapshot: \<open>tools/observe/src/collect/registry.rs\<close>.  Keys are walked
  with an explicit stack, in both views; values are judged by the policy before they are kept.
  What Windows answers is a record of functions.
\<close>

section \<open>What Windows answers\<close>

text \<open>
  A value is read, or its data is larger than the buffer and it is asked for again without the
  data.  \<open>ra_values\<close> and \<open>ra_children\<close> are what the enumerations answer at 0, 1, 2 and so on, up
  to the first answer that ends them, and that answer.
\<close>

datatype value_answer =
  ValueRead "nat list" "32 word" string
| ValueTooLarge win32_error "nat list" "32 word" "32 word"

record 'h registry_api =
  ra_open :: "hive \<Rightarrow> nat list \<Rightarrow> reg_view \<Rightarrow> win32_error + 'h"
  ra_values :: "'h \<Rightarrow> value_answer list \<times> win32_error"
  ra_children :: "'h \<Rightarrow> nat list list \<times> win32_error"

section \<open>Values\<close>

definition max_value_bytes :: nat where "max_value_bytes = 4096"

definition value_kind_name :: "32 word \<Rightarrow> string" where
  "value_kind_name vt =
     (if vt = 0 then ''none'' else if vt = 1 then ''sz'' else if vt = 2 then ''expand_sz''
      else if vt = 3 then ''binary'' else if vt = 4 then ''dword''
      else if vt = 5 then ''dword_big_endian'' else if vt = 6 then ''link''
      else if vt = 7 then ''multi_sz'' else if vt = 11 then ''qword'' else ''unknown'')"

definition wide_from_bytes :: "string \<Rightarrow> string" where
  "wide_from_bytes data = from_utf16_lossy (le_units data)"

fun le_number :: "string \<Rightarrow> nat" where
  "le_number [] = 0"
| "le_number (b # bs) = of_char b + 256 * le_number bs"

definition hex_text :: "string \<Rightarrow> string" where
  "hex_text data =
     concat (map (\<lambda>b. [''0123456789abcdef'' ! (of_char b div 16), ''0123456789abcdef'' ! (of_char b mod 16)]) data)"

definition render_value :: "32 word \<Rightarrow> string \<Rightarrow> string" where
  "render_value vt data =
     (if vt \<in> {1, 2, 6} then trim_end_matches (\<lambda>c. c = CHR 0x00) (wide_from_bytes data)
      else if vt = 7 then
        join_with '';'' (filter (\<lambda>part. part \<noteq> []) (split_char (CHR 0x00) (wide_from_bytes data)))
      else if vt = 4 then (if 4 \<le> length data then decimal (le_number (take 4 data)) else [])
      else if vt = 11 then (if 8 \<le> length data then decimal (le_number (take 8 data)) else [])
      else hex_text data)"

definition value_name :: "nat list \<Rightarrow> string" where
  "value_name units = from_utf16_lossy (take 16384 units)"

text \<open>One value: kept, refused, or neither when asking again for a large one fails.\<close>

definition judge_value ::
    "policy \<Rightarrow> value_answer \<Rightarrow> registry_value list \<times> (string \<times> refusal) list
      \<Rightarrow> registry_value list \<times> (string \<times> refusal) list" where
  "judge_value p answer = (\<lambda>(values, refused).
     case answer of
       ValueTooLarge status name vt bytes \<Rightarrow>
         if status \<noteq> error_success then (values, refused)
         else
           (case refusal_of p (value_name name) [] of
              Some refusal \<Rightarrow> (values, refused @ [(value_name name, refusal)])
            | None \<Rightarrow>
                (values @ [\<lparr>rv_name = value_name name, rv_kind = value_kind_name vt, rv_data = [],
                            rv_oversized_bytes = Some (ucast bytes)\<rparr>], refused))
     | ValueRead name vt data \<Rightarrow>
         (let rendered = render_value vt (take max_value_bytes data)
          in case refusal_of p (value_name name) rendered of
               Some refusal \<Rightarrow> (values, refused @ [(value_name name, refusal)])
             | None \<Rightarrow>
                 (values @ [\<lparr>rv_name = value_name name, rv_kind = value_kind_name vt, rv_data = rendered,
                             rv_oversized_bytes = None\<rparr>], refused)))"

definition stopped_early :: "win32_error \<Rightarrow> win32_error option" where
  "stopped_early status = (if status = error_no_more_items then None else Some status)"

definition read_values ::
    "'h registry_api \<Rightarrow> policy \<Rightarrow> 'h
      \<Rightarrow> registry_value list \<times> (string \<times> refusal) list \<times> win32_error option" where
  "read_values api p key =
     (let (answers, status) = ra_values api key;
          (values, refused) = fold (judge_value p) answers ([], [])
      in (sort_key rv_name values, sort_key fst refused, stopped_early status))"

definition child_names :: "'h registry_api \<Rightarrow> 'h \<Rightarrow> string list \<times> win32_error option" where
  "child_names api key =
     (let (names, status) = ra_children api key
      in (map (\<lambda>n. from_utf16_lossy (take 256 n)) names, stopped_early status))"

section \<open>The walk of one root in one view\<close>

definition view_name :: "reg_view \<Rightarrow> string" where
  "view_name v = (case v of View64 \<Rightarrow> ''64'' | View32 \<Rightarrow> ''32'')"

definition is_wow64_alias :: "string \<Rightarrow> reg_view \<Rightarrow> bool" where
  "is_wow64_alias display v \<longleftrightarrow> v = View64 \<and> eq_ignore_ascii_case display (win ''HKLM/SOFTWARE/WOW6432Node'')"

definition reason_of_refusal :: "refusal \<Rightarrow> string" where
  "reason_of_refusal r =
     (case r of HardwareIdentity \<Rightarrow> ''refused by Safety Gate G3 (hardware identity)''
      | PersonalIdentity \<Rightarrow> ''refused: personal identity'')"

definition denied_key :: "string \<Rightarrow> reg_view \<Rightarrow> string \<Rightarrow> access_denied" where
  "denied_key item v reason =
     \<lparr>ad_domain = RegistryDomain, ad_item = item @ '' [view '' @ view_name v @ '']'', ad_reason = reason\<rparr>"

definition key_parent :: "string \<Rightarrow> string option" where
  "key_parent key = map_option fst (rsplit_once key [backslash])"

record key_walk =
  kw_stack :: "(string \<times> string) list"
  kw_keys :: "registry_record list"
  kw_denied :: "access_denied list"
  kw_read :: "string list"
  kw_holding :: "string list"

definition not_looked_inside :: "string \<Rightarrow> reg_view \<Rightarrow> bool" where
  "not_looked_inside display v \<longleftrightarrow> is_excluded_key display \<or> is_wow64_alias display v"

text \<open>The stack has its top in front.\<close>

definition push_child :: "reg_view \<Rightarrow> string \<times> string \<Rightarrow> string \<Rightarrow> key_walk \<Rightarrow> key_walk" where
  "push_child v = (\<lambda>(display, path) child st.
     if not_looked_inside (display @ backslash # child) v
     then st\<lparr>kw_holding := kw_holding st @ [display]\<rparr>
     else st\<lparr>kw_stack := (display @ backslash # child, path @ backslash # child) # kw_stack st\<rparr>)"

definition value_denials ::
    "string \<Rightarrow> reg_view \<Rightarrow> win32_error option \<Rightarrow> (string \<times> refusal) list \<Rightarrow> access_denied list" where
  "value_denials display v stopped refused =
     (case stopped of
        Some e \<Rightarrow> [denied_key display v
          (''value enumeration stopped early: RegEnumValueW returned '' @ decimal (unat e))]
      | None \<Rightarrow> [])
     @ map (\<lambda>(name, refusal). denied_key (display @ '' :: '' @ name) v (reason_of_refusal refusal)) refused"

definition walk_key ::
    "'h registry_api \<Rightarrow> policy \<Rightarrow> hive \<Rightarrow> reg_view \<Rightarrow> string \<times> string \<Rightarrow> key_walk \<Rightarrow> key_walk" where
  "walk_key api p h v = (\<lambda>(display, path) st.
     case ra_open api h (to_wide path) v of
       Inl e \<Rightarrow>
         st\<lparr>kw_denied := kw_denied st @ [denied_key display v (''RegOpenKeyExW returned '' @ decimal (unat e))],
            kw_holding := kw_holding st @ (case key_parent display of Some parent \<Rightarrow> [parent] | None \<Rightarrow> [])\<rparr>
     | Inr key \<Rightarrow>
         (let (values, refused, stopped) = read_values api p key;
              st = (if stopped \<noteq> None \<or> refused \<noteq> [] \<or> values \<noteq> []
                    then st\<lparr>kw_holding := kw_holding st @ [display]\<rparr> else st);
              st = st\<lparr>kw_denied := kw_denied st @ value_denials display v stopped refused\<rparr>;
              st = (if values \<noteq> []
                    then st\<lparr>kw_keys := kw_keys st @
                              [\<lparr>rr_key = display, rr_view = view_name v, rr_values = values\<rparr>]\<rparr>
                    else st);
              (children, stopped) = child_names api key;
              st = (case stopped of
                      Some e \<Rightarrow>
                        st\<lparr>kw_holding := kw_holding st @ [display],
                           kw_denied := kw_denied st @ [denied_key display v
                             (''subkey enumeration stopped early: RegEnumKeyExW returned '' @ decimal (unat e))]\<rparr>
                    | None \<Rightarrow> st);
              st = fold (push_child v (display, path)) children st
          in st\<lparr>kw_read := kw_read st @ [display]\<rparr>))"

partial_function (option) key_loop ::
    "'h registry_api \<Rightarrow> policy \<Rightarrow> hive \<Rightarrow> reg_view \<Rightarrow> key_walk \<Rightarrow> key_walk option" where
  "key_loop api p h v st =
     (case kw_stack st of
        [] \<Rightarrow> Some st
      | key # rest \<Rightarrow> key_loop api p h v (walk_key api p h v key (st\<lparr>kw_stack := rest\<rparr>)))"

section \<open>Keys with nothing in them\<close>

lemma rsplit_once_shorter: "rsplit_once s p = Some (a, b) \<Longrightarrow> p \<noteq> [] \<Longrightarrow> length a < length s"
proof (induction s arbitrary: a)
  case (Cons c s)
  then show ?case by (fastforce split: option.splits if_splits)
qed (simp split: if_splits)

lemma key_parent_shorter: "key_parent key = Some parent \<Longrightarrow> length parent < length key"
  by (auto simp: key_parent_def dest: rsplit_once_shorter)

function mark_key :: "string \<Rightarrow> string set \<Rightarrow> string set" where
  "mark_key key marked =
     (if key \<in> marked then marked
      else case key_parent key of
             Some parent \<Rightarrow> mark_key parent (insert key marked)
           | None \<Rightarrow> insert key marked)"
  by pat_completeness auto
termination
  by (relation "measure (\<lambda>(key, marked). length key)") (simp_all add: key_parent_shorter)

declare mark_key.simps [simp del]

interpretation registry_keys: ancestry key_parent mark_key
  by unfold_locales (erule key_parent_shorter, rule mark_key.simps)

definition topmost_empty :: "string list \<Rightarrow> string list \<Rightarrow> string list" where
  "topmost_empty read holding = topmost key_parent (fold mark_key holding {}) read"

section \<open>Every root in both views\<close>

definition registry_roots :: "(hive \<times> string \<times> string) list" where
  "registry_roots =
     [(Hklm, ''HKLM'', ''SOFTWARE''), (Hklm, ''HKLM'', win ''SYSTEM/CurrentControlSet/Services''),
      (Hkcu, ''HKCU'', ''SOFTWARE'')]"

record registry_found =
  yf_keys :: "registry_record list"
  yf_denied :: "access_denied list"
  yf_empty :: "reg_key_ref list"

definition walk_tree ::
    "'h registry_api \<Rightarrow> policy \<Rightarrow> hive \<Rightarrow> reg_view \<Rightarrow> string \<times> string \<Rightarrow> registry_found
      \<Rightarrow> registry_found option" where
  "walk_tree api p h v root found =
     (if is_excluded_key (fst root) then Some found
      else
        map_option (\<lambda>st.
          \<lparr>yf_keys = kw_keys st, yf_denied = kw_denied st,
           yf_empty = yf_empty found
             @ map (\<lambda>key. \<lparr>kr_key = key, kr_view = view_name v\<rparr>) (topmost_empty (kw_read st) (kw_holding st))\<rparr>)
        (key_loop api p h v
           \<lparr>kw_stack = [root], kw_keys = yf_keys found, kw_denied = yf_denied found, kw_read = [],
            kw_holding = []\<rparr>))"

definition registry_walks :: "(hive \<times> reg_view \<times> string \<times> string) list" where
  "registry_walks =
     concat (map (\<lambda>(h, name, root). map (\<lambda>v. (h, v, name @ backslash # root, root)) [View64, View32])
       registry_roots)"

record captured_registry =
  cy_keys :: "registry_record list"
  cy_access_denied :: "access_denied list"
  cy_empty_keys :: "reg_key_ref list"
  cy_policy :: registry_policy

definition registry_policy_now :: registry_policy where
  "registry_policy_now =
     \<lparr>yp_roots = map (\<lambda>(_, name, root). name @ backslash # root) registry_roots, yp_views = [''32'', ''64''],
      yp_excluded = excluded_key_fragments, yp_max_value_bytes = of_nat max_value_bytes\<rparr>"

definition registry :: "'h registry_api \<Rightarrow> captured_registry option" where
  "registry api =
     map_option (\<lambda>found.
       \<lparr>cy_keys = sort_key (\<lambda>r. (rr_key r, rr_view r)) (yf_keys found),
        cy_access_denied = sort_key ad_item (yf_denied found),
        cy_empty_keys = sort_key (\<lambda>k. (kr_key k, kr_view k)) (yf_empty found),
        cy_policy = registry_policy_now\<rparr>)
     (fold (\<lambda>(h, v, root) found. Option.bind found (walk_tree api current_policy h v root)) registry_walks
        (Some \<lparr>yf_keys = [], yf_denied = [], yf_empty = []\<rparr>))"

end
