(* ===== verification/Obs_Services.thy ===== *)
theory Obs_Services
  imports Obs_Model Windows Clock
begin

text \<open>
  The services domain of a snapshot, \<open>tools/observe/src/collect/services.rs\<close>, and the boot session,
  \<open>collect/boot.rs\<close>.  The service control manager is a record of what its calls answer; a string
  in a buffer is its units up to the terminator, or a null pointer.
\<close>

section \<open>The service control manager\<close>

type_synonym wide_pointer = "nat list option"

text \<open>
  A read of the list: its entries as name and display name, the size of what did not fit, where
  to resume, and the error.  \<open>sm_list\<close> has the number of the read, since the list may change in
  between, where it resumes and the size of the buffer.
\<close>

record list_answer =
  la_entries :: "(wide_pointer \<times> wide_pointer) list"
  la_needed :: "32 word"
  la_resume :: "32 word"
  la_error :: "com_error option"

record service_config =
  sg_type :: "32 word"
  sg_start :: "32 word"
  sg_error_control :: "32 word"
  sg_binary_path :: wide_pointer
  sg_load_order_group :: wide_pointer
  sg_dependencies :: "nat list option"
  sg_start_name :: wide_pointer
  sg_display_name :: wide_pointer

record 'h service_api =
  sm_manager :: "com_error + 'h"
  sm_probe :: "'h \<Rightarrow> com_error option \<times> 32 word"
  sm_list :: "'h \<Rightarrow> nat \<Rightarrow> 32 word \<Rightarrow> nat \<Rightarrow> list_answer"
  sm_open :: "'h \<Rightarrow> nat list \<Rightarrow> com_error + 'h"
  sm_config_size :: "'h \<Rightarrow> com_error option \<times> 32 word"
  sm_config :: "'h \<Rightarrow> 32 word \<Rightarrow> com_error + service_config"
  sm_description_size :: "'h \<Rightarrow> 32 word"
  sm_description :: "'h \<Rightarrow> 32 word \<Rightarrow> wide_pointer option"
  sm_delayed :: "'h \<Rightarrow> bool option"

section \<open>Texts and names\<close>

definition from_wide :: "wide_pointer \<Rightarrow> string" where
  "from_wide pointer = (case Option.bind pointer from_utf16 of Some t \<Rightarrow> t | None \<Rightarrow> [])"

text \<open>The units of a list: texts that each end in a zero, and one more zero.\<close>

function list_texts :: "nat list \<Rightarrow> string list" where
  "list_texts units =
     (let t = takeWhile (\<lambda>u. u \<noteq> 0) units
      in if t = [] then [] else from_utf16_lossy t # list_texts (drop (length t + 1) units))"
  by pat_completeness auto
termination
  by (relation "measure length") (auto simp: takeWhile_eq_Nil_iff)

declare list_texts.simps [simp del]

definition multi_string :: "nat list option \<Rightarrow> string list" where
  "multi_string pointer = (case pointer of None \<Rightarrow> [] | Some units \<Rightarrow> list_texts units)"

definition service_type_names :: "(32 word \<times> string) list" where
  "service_type_names =
     [(0x001, ''kernel_driver''), (0x002, ''file_system_driver''), (0x004, ''adapter''),
      (0x008, ''recognizer_driver''), (0x010, ''win32_own_process''), (0x020, ''win32_share_process''),
      (0x040, ''user_service''), (0x080, ''user_service_instance''), (0x100, ''interactive_process''),
      (0x200, ''package_service'')]"

definition unnamed_flags :: "32 word \<Rightarrow> 32 word" where
  "unnamed_flags flags = foldl (\<lambda>rest (flag, _). rest AND NOT flag) flags service_type_names"

definition service_type_parts :: "32 word \<Rightarrow> string list" where
  "service_type_parts flags =
     (let parts = map snd (filter (\<lambda>(flag, _). flags AND flag \<noteq> 0) service_type_names)
      in if unnamed_flags flags \<noteq> 0 \<or> parts = []
         then parts @ [''unknown(0x'' @ hex_digits_of 8 (unat (unnamed_flags flags)) @ '')'']
         else parts)"

definition service_type_name :: "32 word \<Rightarrow> string" where
  "service_type_name flags = join_with ''|'' (service_type_parts flags)"

definition start_type_name :: "32 word \<Rightarrow> string" where
  "start_type_name n =
     (if n = 0 then ''boot'' else if n = 1 then ''system'' else if n = 2 then ''auto''
      else if n = 3 then ''demand'' else if n = 4 then ''disabled'' else ''unknown'')"

definition error_control_name :: "32 word \<Rightarrow> string" where
  "error_control_name n =
     (if n = 0 then ''ignore'' else if n = 1 then ''normal'' else if n = 2 then ''severe''
      else if n = 3 then ''critical'' else ''unknown'')"

section \<open>The list of services\<close>

definition max_calls :: nat where "max_calls = 100"

text \<open>The bytes of a buffer of eight-byte units that holds so many.\<close>

definition aligned_bytes :: "nat \<Rightarrow> nat" where
  "aligned_bytes n = 8 * max (div_ceil n 8) 1"

definition error_code_is :: "win32_error \<Rightarrow> com_error \<Rightarrow> bool" where
  "error_code_is code e \<longleftrightarrow> fst e AND 0xFFFF = code"

type_synonym service_entry = "string \<times> string"

definition entries_of :: "list_answer \<Rightarrow> service_entry list" where
  "entries_of answer = map (\<lambda>(name, display). (from_wide name, from_wide display)) (la_entries answer)"

fun enumerate_from ::
    "'h service_api \<Rightarrow> 'h \<Rightarrow> nat \<Rightarrow> nat \<Rightarrow> 32 word \<Rightarrow> nat \<Rightarrow> service_entry list \<Rightarrow> string + service_entry list"
  where
  "enumerate_from api manager 0 call resume capacity found =
     Inl (''EnumServicesStatusExW still had more data after '' @ decimal max_calls @ '' calls'')"
| "enumerate_from api manager (Suc left) call resume capacity found =
     (let answer = sm_list api manager call resume (aligned_bytes capacity);
          found = found @ entries_of answer
      in case la_error answer of
           None \<Rightarrow> Inr (dedup_by_key (\<lambda>e. to_ascii_lowercase (fst e)) (sort_key fst found))
         | Some e \<Rightarrow>
             if error_code_is error_more_data e then
               enumerate_from api manager left (Suc call) (la_resume answer)
                 (max capacity (unat (la_needed answer))) found
             else Inl (''EnumServicesStatusExW failed: '' @ snd e))"

definition enumerate_services :: "'h service_api \<Rightarrow> 'h \<Rightarrow> string + service_entry list" where
  "enumerate_services api manager =
     (let (probe, needed) = sm_probe api manager;
          read = (if needed = 0 then Inr [] else enumerate_from api manager max_calls 0 0 (unat needed) [])
      in case probe of
           Some e \<Rightarrow>
             if \<not> error_code_is error_more_data e \<and> \<not> error_code_is error_insufficient_buffer e
             then Inl (''EnumServicesStatusExW size probe failed: '' @ snd e)
             else read
         | None \<Rightarrow> read)"

section \<open>One service\<close>

definition service_description :: "'h service_api \<Rightarrow> 'h \<Rightarrow> string" where
  "service_description api service =
     (let needed = sm_description_size api service
      in if needed = 0 then []
         else case sm_description api service needed of Some pointer \<Rightarrow> from_wide pointer | None \<Rightarrow> [])"

definition delayed_auto_start :: "'h service_api \<Rightarrow> 'h \<Rightarrow> bool" where
  "delayed_auto_start api service = (case sm_delayed api service of Some delayed \<Rightarrow> delayed | None \<Rightarrow> False)"

definition configuration :: "'h service_api \<Rightarrow> 'h \<Rightarrow> service_entry \<Rightarrow> string + service_record" where
  "configuration api manager = (\<lambda>(name, display_name).
     case sm_open api manager (to_wide name) of
       Inl e \<Rightarrow> Inl (''OpenServiceW('' @ name @ '', SERVICE_QUERY_CONFIG): '' @ snd e)
     | Inr service \<Rightarrow>
         (let (probe, needed) = sm_config_size api service
          in if probe \<noteq> None \<and> needed = 0 then
               Inl (''QueryServiceConfigW size probe returned no size for '' @ name)
             else
               (case sm_config api service needed of
                  Inl e \<Rightarrow> Inl (''QueryServiceConfigW('' @ name @ ''): '' @ snd e)
                | Inr config \<Rightarrow>
                    Inr \<lparr>sv_name = name,
                         sv_display_name =
                           (if display_name = [] then from_wide (sg_display_name config) else display_name),
                         sv_service_type = service_type_name (sg_type config),
                         sv_start_type = start_type_name (sg_start config),
                         sv_error_control = error_control_name (sg_error_control config),
                         sv_binary_path = from_wide (sg_binary_path config),
                         sv_load_order_group = from_wide (sg_load_order_group config),
                         sv_start_name = from_wide (sg_start_name config),
                         sv_dependencies = multi_string (sg_dependencies config),
                         sv_description = service_description api service,
                         sv_delayed_auto_start = delayed_auto_start api service\<rparr>)))"

section \<open>Every service\<close>

record captured_services =
  cs_services :: "service_record list"
  cs_access_denied :: "access_denied list"

definition unread_service :: "service_entry \<Rightarrow> string \<Rightarrow> access_denied" where
  "unread_service e reason = \<lparr>ad_domain = ServicesDomain, ad_item = fst e, ad_reason = reason\<rparr>"

definition services :: "'h service_api \<Rightarrow> string + captured_services" where
  "services api =
     (case sm_manager api of
        Inl e \<Rightarrow> Inl (''OpenSCManagerW(SC_MANAGER_ENUMERATE_SERVICE): '' @ snd e)
      | Inr manager \<Rightarrow>
          (case enumerate_services api manager of
             Inl e \<Rightarrow> Inl e
           | Inr found \<Rightarrow>
               Inr \<lparr>cs_services =
                      sort_key sv_name
                        (List.map_filter (\<lambda>e. case configuration api manager e of
                             Inr record \<Rightarrow> Some record | Inl _ \<Rightarrow> None) found),
                    cs_access_denied =
                      sort_key ad_item
                        (List.map_filter (\<lambda>e. case configuration api manager e of
                             Inl reason \<Rightarrow> Some (unread_service e reason) | Inr _ \<Rightarrow> None) found)\<rparr>))"

section \<open>The boot session\<close>

definition from_uptime :: "128 word \<Rightarrow> 64 word \<Rightarrow> boot_session" where
  "from_uptime now_unix_ms uptime_ms =
     (let up = ucast uptime_ms;
          started = (if up \<le> now_unix_ms then now_unix_ms - up else 0)
      in \<lparr>bs_started_utc = from_unix_millis started,
          bs_started_unix_ms = (if started < 2 ^ 64 then ucast started else - 1),
          bs_uptime_ms = uptime_ms\<rparr>)"

end
