(* ===== verification/Obs_Snapshot.thy ===== *)
theory Obs_Snapshot
  imports Obs_Walk Obs_Registry Obs_Services
begin

text \<open>
  Taking a snapshot, \<open>collect::snapshot\<close> of \<open>tools/observe/src/collect/mod.rs\<close>: the collectors that
  were asked for, one after the other, and what the coverage says of it.  The machine is a
  record of what each collector asks; the clock is read once at the start and once per domain.
\<close>

fun domain_name :: "domain \<Rightarrow> string" where
  "domain_name ServicesDomain = ''services''"
| "domain_name RegistryDomain = ''registry''"
| "domain_name FilesystemDomain = ''filesystem''"
| "domain_name TasksDomain = ''scheduled_tasks''"
| "domain_name FirewallDomain = ''firewall''"
| "domain_name EventSourcesDomain = ''event_sources''"
| "domain_name EnvironmentDomain = ''environment''"

record request =
  rq_services :: bool
  rq_filesystem :: bool
  rq_registry :: bool

definition everything :: request where
  "everything = \<lparr>rq_services = True, rq_filesystem = True, rq_registry = True\<rparr>"

record ('w, 's, 'r) observed_machine =
  om_now :: "128 word"
  om_uptime :: "64 word"
  om_domain_now :: "domain \<Rightarrow> 128 word"
  om_services :: "'s service_api"
  om_registry :: "'r registry_api"
  om_disk :: disk
  om_win :: "'w win32"
  om_files :: file_system
  om_json :: "string \<Rightarrow> string + string option"
  om_missing :: string
  om_version :: string

text \<open>The libraries that are there to be walked, and what is missing of the rest.\<close>

definition machine_libraries :: "('w, 's, 'r) observed_machine \<Rightarrow> library list \<times> access_denied list" where
  "machine_libraries m =
     libraries_to_walk (wn_is_dir (om_win m))
       (discover (om_files m) (om_json m) (om_missing m) (steam_install (om_win m)) (epic_manifests (om_win m)))"

definition machine_roots :: "('w, 's, 'r) observed_machine \<Rightarrow> string list" where
  "machine_roots m =
     walk_roots (default_roots (wn_variable (om_win m)) (wn_is_dir (om_win m))) (fst (machine_libraries m))"

text \<open>A domain that was not asked for gives nothing; the services may refuse, the walks may not end.\<close>

definition services_part :: "('w, 's, 'r) observed_machine \<Rightarrow> request \<Rightarrow> string + captured_services option" where
  "services_part m rq =
     (if rq_services rq then (case services (om_services m) of Inl e \<Rightarrow> Inl e | Inr c \<Rightarrow> Inr (Some c))
      else Inr None)"

definition files_part :: "('w, 's, 'r) observed_machine \<Rightarrow> request \<Rightarrow> captured_files option option" where
  "files_part m rq =
     (if rq_filesystem rq then
        (let (libraries, gaps) = machine_libraries m
         in map_option (\<lambda>c. Some (c\<lparr>cf_policy := (cf_policy c)\<lparr>fp_libraries := libraries\<rparr>,
                                  cf_access_denied := gaps @ cf_access_denied c\<rparr>))
              (walk (om_disk m) (machine_roots m)))
      else Some None)"

definition registry_part :: "('w, 's, 'r) observed_machine \<Rightarrow> request \<Rightarrow> captured_registry option option" where
  "registry_part m rq = (if rq_registry rq then map_option Some (registry (om_registry m)) else Some None)"

definition or_none :: "('a \<Rightarrow> 'b list) \<Rightarrow> 'a option \<Rightarrow> 'b list" where
  "or_none f part = (case part of Some c \<Rightarrow> f c | None \<Rightarrow> [])"

definition captured_domains :: "request \<Rightarrow> domain list" where
  "captured_domains rq =
     (if rq_services rq then [ServicesDomain] else [])
     @ (if rq_filesystem rq then [FilesystemDomain] else [])
     @ (if rq_registry rq then [RegistryDomain] else [])"

definition snapshot_of ::
    "('w, 's, 'r) observed_machine \<Rightarrow> string \<Rightarrow> string \<Rightarrow> request \<Rightarrow> (string + snapshot) option" where
  "snapshot_of m name taken_utc rq =
     (case services_part m rq of
        Inl e \<Rightarrow> Some (Inl e)
      | Inr sv \<Rightarrow>
          (case files_part m rq of
             None \<Rightarrow> None
           | Some fs \<Rightarrow>
               (case registry_part m rq of
                  None \<Rightarrow> None
                | Some rg \<Rightarrow>
                    Some (Inr
                      \<lparr>sn_format_version = snapshot_format_version,
                       sn_taken_utc = taken_utc,
                       sn_domain_started_utc =
                         fold (\<lambda>d. btree_insert (domain_name d) (from_unix_millis (om_domain_now m d)))
                           (captured_domains rq) [],
                       sn_boot_session = Some (from_uptime (om_now m) (om_uptime m)),
                       sn_harness_version = om_version m,
                       sn_label = name,
                       sn_coverage =
                         \<lparr>cv_captured = captured_domains rq,
                          cv_not_captured = filter (\<lambda>d. d \<notin> set (captured_domains rq)) all_domains,
                          cv_access_denied =
                            or_none cs_access_denied sv @ or_none cf_access_denied fs @ or_none cy_access_denied rg\<rparr>,
                       sn_services = or_none cs_services sv,
                       sn_files = or_none cf_files fs,
                       sn_registry = or_none cy_keys rg,
                       sn_registry_policy = map_option cy_policy rg,
                       sn_filesystem_policy = map_option cf_policy fs,
                       sn_file_empty_directories = map_option cf_file_empty_directories fs,
                       sn_registry_empty_keys = map_option cy_empty_keys rg\<rparr>))))"

end
