(* ===== verification/Review.thy ===== *)
theory Review
  imports Redact
begin

text \<open>
  What a person has to look at before a diff is committed: \<open>tools/observe/src/review.rs\<close>.  The
  walk of the document, the shapes it looks for in each text, and how what it finds is grouped.
  The list of harmless contexts, \<open>review-benign.txt\<close>, is an argument.

  Every slice the code takes begins and ends at an ASCII byte or at a boundary it looked for,
  so none panics.
\<close>

section \<open>Findings\<close>

definition review_context_chars :: nat where "review_context_chars = 40"
definition min_digits :: nat where "min_digits = 9"
definition min_hex :: nat where "min_hex = 16"

datatype review_kind = Unredacted | HexText | MachineKey | Digits | Hash | Guid | Before

fun kind_rank :: "review_kind \<Rightarrow> nat" where
  "kind_rank Unredacted = 0"
| "kind_rank HexText = 1"
| "kind_rank MachineKey = 2"
| "kind_rank Digits = 3"
| "kind_rank Hash = 4"
| "kind_rank Guid = 5"
| "kind_rank Before = 6"

lemma kind_rank_inject [simp]: "kind_rank k = kind_rank l \<longleftrightarrow> k = l"
  by (cases k; cases l) simp_all

text \<open>The derived order: the order of the declaration.\<close>

instantiation review_kind :: linorder
begin

definition less_eq_review_kind :: "review_kind \<Rightarrow> review_kind \<Rightarrow> bool" where
  "k \<le> l \<longleftrightarrow> kind_rank k \<le> kind_rank l"

definition less_review_kind :: "review_kind \<Rightarrow> review_kind \<Rightarrow> bool" where
  "k < l \<longleftrightarrow> kind_rank k < kind_rank l"

instance by standard (auto simp: less_eq_review_kind_def less_review_kind_def)

end

fun kind_label :: "review_kind \<Rightarrow> string" where
  "kind_label Unredacted = ''unredacted''"
| "kind_label HexText = ''hex-text''"
| "kind_label MachineKey = ''machine-key''"
| "kind_label Digits = ''digits''"
| "kind_label Hash = ''hash''"
| "kind_label Guid = ''guid''"
| "kind_label Before = ''before''"

record review_finding =
  rv_count :: nat
  rv_values :: "string list"
  rv_at :: string
  rv_context :: string

type_synonym review_findings = "(review_kind \<times> (string \<times> review_finding) list) list"

record hit =
  ht_kind :: review_kind
  ht_group :: string
  ht_value :: string
  ht_text :: string
  ht_offset :: nat

section \<open>Runs of bytes\<close>

text \<open>A run stands alone when no letter or digit touches it.\<close>

definition run_alone :: "string \<Rightarrow> nat \<Rightarrow> nat \<Rightarrow> bool" where
  "run_alone t start stop \<longleftrightarrow>
     (start = 0 \<or> \<not> is_ascii_alphanumeric (t ! (start - 1)))
     \<and> (stop = length t \<or> \<not> is_ascii_alphanumeric (t ! stop))"

lemma run_not_empty: "start < length t \<Longrightarrow> accept (t ! start) \<Longrightarrow> takeWhile accept (drop start t) \<noteq> []"
  by (simp add: Cons_nth_drop_Suc [symmetric])

function runs_from :: "string \<Rightarrow> nat \<Rightarrow> (char \<Rightarrow> bool) \<Rightarrow> nat \<Rightarrow> (nat \<times> string) list" where
  "runs_from t minimum accept start =
     (if length t \<le> start then []
      else if \<not> accept (t ! start) then runs_from t minimum accept (Suc start)
      else
        (let run = takeWhile accept (drop start t);
             stop = start + length run
         in (if minimum \<le> length run \<and> run_alone t start stop then [(start, run)] else [])
              @ runs_from t minimum accept stop))"
  by pat_completeness auto

termination
proof (relation "measure (\<lambda>(t, minimum, accept, start). length t - start)", goal_cases)
  case (3 t minimum accept start x)
  moreover from this have "takeWhile accept (drop start t) \<noteq> []" by (intro run_not_empty) simp_all
  ultimately show ?case by (auto intro: diff_less_mono2)
qed simp_all

declare runs_from.simps [simp del]

definition runs :: "string \<Rightarrow> nat \<Rightarrow> (char \<Rightarrow> bool) \<Rightarrow> (nat \<times> string) list" where
  "runs t minimum accept = runs_from t minimum accept 0"

section \<open>Identifiers\<close>

definition guid_groups :: "nat list" where
  "guid_groups = [8, 4, 4, 4, 12]"

text \<open>One group of hexadecimal digits after another, a hyphen before all but the first.\<close>

fun guid_groups_at :: "string \<Rightarrow> bool \<Rightarrow> nat list \<Rightarrow> bool" where
  "guid_groups_at s first [] = True"
| "guid_groups_at s first (n # ns) =
     ((first \<or> (s \<noteq> [] \<and> hd s = CHR ''-''))
      \<and> (let s = (if first then s else tl s)
         in n \<le> length s \<and> list_all is_hexdigit_byte (take n s) \<and> guid_groups_at (drop n s) False ns))"

definition guid_at :: "string \<Rightarrow> nat \<Rightarrow> bool" where
  "guid_at t at = guid_groups_at (drop at t) True guid_groups"

definition lone_guid_at :: "string \<Rightarrow> nat \<Rightarrow> bool" where
  "lone_guid_at t at \<longleftrightarrow>
     (at = 0 \<or> \<not> is_hexdigit_byte (t ! (at - 1))) \<and> guid_at t at
     \<and> (length t \<le> at + 36 \<or> \<not> is_hexdigit_byte (t ! (at + 36)))"

definition guids :: "string \<Rightarrow> (nat \<times> string) list" where
  "guids t = map (\<lambda>at. (at, take 36 (drop at t))) (pick (lone_guid_at t) 36 (length t - 35) 0 0)"

definition key_byte :: "char \<Rightarrow> bool" where
  "key_byte c \<longleftrightarrow> is_hexdigit_byte c \<or> c = CHR ''_''"

definition machine_key_of :: "string \<Rightarrow> nat \<times> string \<Rightarrow> (nat \<times> string) option" where
  "machine_key_of t = (\<lambda>(start, run).
     case find_sub run ''_'' of
       None \<Rightarrow> None
     | Some separator \<Rightarrow>
         if 32 \<le> separator \<and> guid_at t (start + separator + 1)
         then Some (start + separator - 32, take 69 (drop (start + separator - 32) t))
         else None)"

definition machine_keys :: "string \<Rightarrow> (nat \<times> string) list" where
  "machine_keys t = List.map_filter (machine_key_of t) (runs t 32 key_byte)"

section \<open>Paths\<close>

definition path_start :: "string \<Rightarrow> bool" where
  "path_start s =
     (case s of a # b # c # _ \<Rightarrow> is_alphabetic_byte a \<and> b = CHR '':'' \<and> c = backslash | _ \<Rightarrow> False)"

definition holds_path :: "string \<Rightarrow> bool" where
  "holds_path t \<longleftrightarrow> list_ex (\<lambda>at. path_start (drop at t)) [0..<length t]"

definition is_path_like :: "string \<Rightarrow> bool" where
  "is_path_like lowered \<longleftrightarrow>
     holds_path lowered
     \<or> list_ex (starts_with lowered)
         [win ''hklm/'', win ''hkcu/'', win ''hku/'', ''%user'', ''%localappdata%'', ''%appdata%'']"

definition is_per_user :: "string \<Rightarrow> bool" where
  "is_per_user lowered \<longleftrightarrow>
     (contains_sub lowered (win ''/users/'') \<or> starts_with lowered (win ''hkcu/'')
       \<or> starts_with lowered (win ''hku/''))
     \<and> \<not> contains_sub lowered (win ''/classes/'')"

definition is_history_slot :: "string \<Rightarrow> bool" where
  "is_history_slot owner =
     (let lowered = to_ascii_lowercase owner
      in starts_with lowered (win ''hkcu/'') \<or> starts_with lowered (win ''hku/'')
         \<or> list_ex (contains_sub lowered) [win ''/ufh/'', ''mru'', ''recent'', ''history'', ''jumplist''])"

text \<open>The text up to and with the last separator before an offset.\<close>

definition hit_location :: "string \<Rightarrow> nat \<Rightarrow> string" where
  "hit_location t offset =
     (let s = take offset t
      in if backslash \<in> set s then rev (dropWhile (\<lambda>c. c \<noteq> backslash) (rev s)) else s)"

definition shape_list :: "string \<Rightarrow> string \<Rightarrow> (review_kind \<times> nat \<times> string) list" where
  "shape_list t lowered =
     map (\<lambda>(offset, v). (Digits, offset, v)) (runs t min_digits is_digit_byte)
     @ map (\<lambda>(offset, v). (Hash, offset, v))
         (filter (\<lambda>(_, v). list_ex is_digit_byte v \<and> list_ex is_alphabetic_byte v)
           (runs t min_hex is_hexdigit_byte))
     @ (if is_per_user lowered then map (\<lambda>(offset, v). (Guid, offset, v)) (guids t) else [])"

definition note_first :: "review_kind \<times> nat \<times> string \<Rightarrow> (review_kind \<times> nat) list \<Rightarrow> (review_kind \<times> nat) list" where
  "note_first = (\<lambda>(k, offset, _) first.
     btree_insert k (case map_of first k of Some earliest \<Rightarrow> min earliest offset | None \<Rightarrow> offset) first)"

definition shapes :: "string \<Rightarrow> string \<Rightarrow> hit list" where
  "shapes t lowered =
     (let found = shape_list t lowered;
          first = fold note_first found []
      in map (\<lambda>(k, offset, v).
           \<lparr>ht_kind = k, ht_group = hit_location t (the (map_of first k)), ht_value = v, ht_text = t,
            ht_offset = offset\<rparr>) found)"

section \<open>Binary values\<close>

definition graphic_point :: "nat \<Rightarrow> bool" where
  "graphic_point n \<longleftrightarrow> 33 \<le> n \<and> n \<le> 126"

definition printable :: "string \<Rightarrow> string" where
  "printable t = map (\<lambda>n. if graphic_point n \<or> n = 32 then char_of n else CHR '' '') (code_points t)"

definition decodings :: "string \<Rightarrow> string list" where
  "decodings bytes =
     (let wide = from_utf16_lossy (le_units bytes);
          narrow = concat (map (\<lambda>b. utf8_bytes (of_char b)) bytes)
      in (if 8 \<le> length (filter graphic_point (code_points wide)) then [printable wide] else [])
           @ [printable narrow])"

section \<open>What is recorded\<close>

fun floor_char_boundary :: "string \<Rightarrow> nat \<Rightarrow> nat" where
  "floor_char_boundary s 0 = 0"
| "floor_char_boundary s (Suc n) = (if is_char_boundary s (Suc n) then Suc n else floor_char_boundary s n)"

definition ceil_char_boundary :: "string \<Rightarrow> nat \<Rightarrow> nat" where
  "ceil_char_boundary s n = n + length (takeWhile is_continuation_byte (drop n s))"

definition review_context :: "string \<Rightarrow> nat \<Rightarrow> nat \<Rightarrow> string" where
  "review_context t offset len =
     (let start = floor_char_boundary t (offset - review_context_chars);
          stop = ceil_char_boundary t (min (offset + len + review_context_chars) (length t))
      in (if 0 < start then ellipsis else []) @ trim (drop start (take stop t))
           @ (if stop < length t then ellipsis else []))"

definition record_hit :: "string \<Rightarrow> hit \<Rightarrow> review_findings \<Rightarrow> review_findings" where
  "record_hit at h findings =
     (let groups = (case map_of findings (ht_kind h) of Some groups \<Rightarrow> groups | None \<Rightarrow> []);
          found = (case map_of groups (ht_group h) of
                     Some found \<Rightarrow> found
                   | None \<Rightarrow> \<lparr>rv_count = 0, rv_values = [], rv_at = at,
                        rv_context = review_context (ht_text h) (ht_offset h) (length (ht_value h))\<rparr>);
          found = found\<lparr>rv_count := rv_count found + 1,
                        rv_values := ordered_set (ht_value h # rv_values found)\<rparr>
      in btree_insert (ht_kind h) (btree_insert (ht_group h) found groups) findings)"

text \<open>What the rules of \<open>redact\<close> would still change in a text.\<close>

definition redact_hits :: "review_kind \<Rightarrow> string \<Rightarrow> hit list" where
  "redact_hits k t =
     (let (redacted, hits) = redact_text_with t [];
          applied = join_with '','' hits
      in if applied \<noteq> [] \<and> redacted \<noteq> t
         then [\<lparr>ht_kind = k, ht_group = applied, ht_value = applied, ht_text = t, ht_offset = 0\<rparr>]
         else [])"

definition key_hits :: "review_kind \<Rightarrow> string \<Rightarrow> hit list" where
  "key_hits k t =
     map (\<lambda>(offset, found).
       \<lparr>ht_kind = k, ht_group = found, ht_value = found, ht_text = t, ht_offset = offset\<rparr>) (machine_keys t)"

definition check_decoded :: "string \<Rightarrow> string \<Rightarrow> review_findings \<Rightarrow> review_findings" where
  "check_decoded at decoded findings =
     fold (record_hit at) (redact_hits HexText decoded @ key_hits HexText decoded) findings"

text \<open>The bytes of a text that is a binary value.\<close>

definition binary_value :: "string \<Rightarrow> string option" where
  "binary_value t =
     (let hex = (case strip_prefix t binary_prefix of Some rest \<Rightarrow> rest | None \<Rightarrow> t)
      in if min_hex \<le> length hex then decode_hex hex else None)"

definition before_hits :: "string \<Rightarrow> string option \<Rightarrow> string \<Rightarrow> hit list" where
  "before_hits at owner t =
     (if ends_with at ''.before'' \<and> contains_sub at ''.fields['' \<and> holds_path t
        \<and> (case owner of Some owned \<Rightarrow> is_history_slot owned | None \<Rightarrow> False)
      then [\<lparr>ht_kind = Before, ht_group = (case owner of Some owned \<Rightarrow> owned | None \<Rightarrow> t), ht_value = t,
             ht_text = t, ht_offset = 0\<rparr>]
      else [])"

definition check_text ::
    "string list \<Rightarrow> string \<Rightarrow> string option \<Rightarrow> string \<Rightarrow> review_findings \<Rightarrow> review_findings" where
  "check_text benign at owner t findings =
     (let hits = redact_hits Unredacted t
      in case binary_value t of
           Some bytes \<Rightarrow> fold (record_hit at) hits (fold (check_decoded at) (decodings bytes) findings)
         | None \<Rightarrow>
             (let lowered = to_ascii_lowercase t
              in fold (record_hit at)
                   (hits @ key_hits MachineKey t @ before_hits at owner t
                    @ (if is_path_like lowered \<and> \<not> list_ex (contains_sub lowered) benign
                       then shapes t lowered else [])) findings))"

section \<open>The walk\<close>

text \<open>The key or path of a record, the owner of what is inside it.\<close>

definition owner_in :: "(string \<times> json) list \<Rightarrow> string option \<Rightarrow> string option" where
  "owner_in members owner =
     (case Option.bind (map_of members ''key'') json_str of
        Some owned \<Rightarrow> Some owned
      | None \<Rightarrow> (case Option.bind (map_of members ''path'') json_str of Some owned \<Rightarrow> Some owned | None \<Rightarrow> owner))"

definition at_item :: "string \<Rightarrow> nat \<Rightarrow> string" where
  "at_item at i = at @ ''['' @ decimal i @ '']''"

definition at_field :: "string \<Rightarrow> string \<Rightarrow> string" where
  "at_field at name = (if at = [] then [] else at @ ''.'') @ name"

function (sequential) visit ::
    "string list \<Rightarrow> string \<Rightarrow> string option \<Rightarrow> json \<Rightarrow> review_findings \<Rightarrow> review_findings"
and visit_items ::
    "string list \<Rightarrow> string \<Rightarrow> string option \<Rightarrow> nat \<Rightarrow> json list \<Rightarrow> review_findings \<Rightarrow> review_findings"
and visit_fields ::
    "string list \<Rightarrow> string \<Rightarrow> string option \<Rightarrow> (string \<times> json) list \<Rightarrow> review_findings
     \<Rightarrow> review_findings" where
  "visit benign at owner (JsonString t) findings = check_text benign at owner t findings"
| "visit benign at owner (JsonArray items) findings = visit_items benign at owner 0 items findings"
| "visit benign at owner (JsonObject members) findings =
     visit_fields benign at (owner_in members owner) members findings"
| "visit benign at owner JsonNull findings = findings"
| "visit benign at owner (JsonBool b) findings = findings"
| "visit benign at owner (JsonNumber n) findings = findings"
| "visit_items benign at owner i [] findings = findings"
| "visit_items benign at owner i (item # items) findings =
     visit_items benign at owner (Suc i) items (visit benign (at_item at i) owner item findings)"
| "visit_fields benign at owner [] findings = findings"
| "visit_fields benign at owner ((name, item) # members) findings =
     visit_fields benign at owner members
       (visit benign (at_field at name) owner item
         (check_text benign (at_field at name) owner name findings))"
  by pat_completeness auto
termination
  by (relation "measure (case_sum (\<lambda>(_, _, _, document, _). size document)
        (case_sum (\<lambda>(_, _, _, _, items, _). size_list size items)
          (\<lambda>(_, _, _, members, _). size_list (size_prod (\<lambda>_. 0) size) members)))") simp_all

definition benign_lines :: "string \<Rightarrow> string list" where
  "benign_lines txt =
     filter (\<lambda>l. l \<noteq> [] \<and> \<not> starts_with l ''#'') (map trim (text_lines txt))"

definition review :: "string \<Rightarrow> json \<Rightarrow> review_findings" where
  "review txt document = visit (benign_lines txt) [] None document []"

end
