(* ===== verification/Observe_Cli.thy ===== *)
theory Observe_Cli
  imports Obs_Snapshot Obs_Intersect Suggest Redact Review Catalog_Load Std_Path
begin

text \<open>
  The observation tool as a program, \<open>tools/observe/src/main.rs\<close>: from the parsed arguments to the
  exit code, the two streams and the file it writes.  Reading and printing documents belongs to
  \<open>serde_json\<close> and \<open>toml\<close>, the arguments to \<open>clap\<close>; files and the clock are the world's.  An error
  that reaches \<open>main\<close> comes with what was printed on the error stream before it.
\<close>

section \<open>The world\<close>

text \<open>
  How writing a file ends.  \<open>std::fs::write\<close> creates the file or cuts it to nothing before it
  writes: an error may leave the file as it was, or with some text that is neither the old nor all
  of the new.
\<close>

datatype file_write = FileWritten | FileFailed string "string option"

record ('w, 's, 'r) obs_world =
  ow_read :: "string \<Rightarrow> string + string"
  ow_create_dir :: "string \<Rightarrow> string option"
  ow_write :: "string \<Rightarrow> string \<Rightarrow> file_write"
  ow_json :: "string \<Rightarrow> string + json"
  ow_diff :: "string \<Rightarrow> string + diff"
  ow_snapshot :: "string \<Rightarrow> string + snapshot"
  ow_print_diff :: "diff \<Rightarrow> string + string"
  ow_print_snapshot :: "snapshot \<Rightarrow> string + string"
  ow_print_entry :: "anti_cheat \<Rightarrow> string + string"
  ow_print_pretty :: "json \<Rightarrow> string + string"
  ow_print_json :: "json \<Rightarrow> string + string"
  ow_variable :: "string \<Rightarrow> string option"
  ow_now :: "128 word"
  ow_benign :: string
  ow_machine :: "('w, 's, 'r) observed_machine"

datatype observe_command =
  SnapshotCommand string string
| DiffCommand string string string bool
| SuggestCommand string "string option" "string option" "string list" bool string
| IntersectCommand "string list" string
| RefilterCommand string string
| RedactCommand string string "string list" "string list"
| ReviewCommand string

text \<open>
  An error comes with what was printed before it and with the file it left behind, if a write
  failed half-way.
\<close>

type_synonym observe_result = "(string \<times> string \<times> (string \<times> string) list) + outcome"

type_synonym write_error = "string \<times> string option"

definition stopped :: "string \<Rightarrow> string \<Rightarrow> observe_result" where
  "stopped printed e = Inl (printed, e, [])"

definition stopped_writing :: "string \<Rightarrow> string \<Rightarrow> write_error \<Rightarrow> observe_result" where
  "stopped_writing printed path = (\<lambda>(e, left).
     Inl (printed, e, case left of None \<Rightarrow> [] | Some found \<Rightarrow> [(path, found)]))"

definition wrote :: "exit_code \<Rightarrow> string \<Rightarrow> string \<Rightarrow> string \<Rightarrow> observe_result" where
  "wrote code err path written = Inr \<lparr>oc_code = code, oc_out = [], oc_err = err, oc_written = [(path, written)]\<rparr>"

section \<open>Files\<close>

definition read_document :: "('w, 's, 'r) obs_world \<Rightarrow> (string \<Rightarrow> string + 'a) \<Rightarrow> string \<Rightarrow> string + 'a" where
  "read_document w parse path =
     (case ow_read w path of
        Inl e \<Rightarrow> Inl (''reading '' @ path @ '': '' @ e)
      | Inr source \<Rightarrow>
          (case parse source of
             Inl e \<Rightarrow> Inl (''parsing '' @ path @ '': '' @ e)
           | Inr document \<Rightarrow> Inr document))"

definition ensure_parent :: "('w, 's, 'r) obs_world \<Rightarrow> string \<Rightarrow> string option" where
  "ensure_parent w path =
     (case path_parent path of
        Some parent \<Rightarrow>
          if parent = [] then None
          else map_option (\<lambda>e. ''creating '' @ parent @ '': '' @ e) (ow_create_dir w parent)
      | None \<Rightarrow> None)"

definition write_file :: "('w, 's, 'r) obs_world \<Rightarrow> string \<Rightarrow> string \<Rightarrow> write_error + string" where
  "write_file w path contents =
     (case ow_write w path contents of
        FileFailed e left \<Rightarrow> Inl (''writing '' @ path @ '': '' @ e, left)
      | FileWritten \<Rightarrow> Inr contents)"

text \<open>The folder first, then the text, then the file; what was written is the result.\<close>

definition write_document ::
    "('w, 's, 'r) obs_world \<Rightarrow> (unit \<Rightarrow> string + string) \<Rightarrow> string \<Rightarrow> write_error + string" where
  "write_document w print path =
     (case ensure_parent w path of
        Some e \<Rightarrow> Inl (e, None)
      | None \<Rightarrow>
          (case print () of
             Inl e \<Rightarrow> Inl (''serialising: '' @ e, None)
           | Inr contents \<Rightarrow> write_file w path contents))"

definition write_snapshot :: "('w, 's, 'r) obs_world \<Rightarrow> string \<Rightarrow> snapshot \<Rightarrow> write_error + string" where
  "write_snapshot w path s = write_document w (\<lambda>_. ow_print_snapshot w s) path"

definition write_diff :: "('w, 's, 'r) obs_world \<Rightarrow> string \<Rightarrow> diff \<Rightarrow> write_error + string" where
  "write_diff w path d = write_document w (\<lambda>_. ow_print_diff w d) path"

section \<open>What is said of every diff\<close>

definition oldest_diff_format :: "32 word" where
  "oldest_diff_format = 1"

definition ensure_readable_diff :: "string \<Rightarrow> diff \<Rightarrow> string option" where
  "ensure_readable_diff path d =
     (if oldest_diff_format \<le> df_format_version d \<and> df_format_version d \<le> diff_format_version then None
      else Some (path @ '' is diff format version '' @ decimal (unat (df_format_version d))
             @ '', and this build reads '' @ decimal (unat oldest_diff_format) @ '' to ''
             @ decimal (unat diff_format_version)))"

definition read_diff :: "('w, 's, 'r) obs_world \<Rightarrow> string \<Rightarrow> string + diff" where
  "read_diff w path =
     (case read_document w (ow_diff w) path of
        Inl e \<Rightarrow> Inl e
      | Inr d \<Rightarrow> (case ensure_readable_diff path d of Some e \<Rightarrow> Inl e | None \<Rightarrow> Inr d))"

definition report_refiltered :: "refiltered \<Rightarrow> string" where
  "report_refiltered r =
     (if refiltered_is_empty r then []
      else say (''  removed by this build's privacy policy and walk exclusions (identity, credentials, hardware identifiers, activity history): ''
        @ decimal (rf_registry_records r) @ '' registry record(s), '' @ decimal (rf_registry_values r)
        @ '' value(s), '' @ decimal (rf_access_denied r) @ '' unreadable-item record(s), ''
        @ decimal (rf_emptied_keys r) @ '' empty key(s), '' @ decimal (rf_files r)
        @ '' file record(s), '' @ decimal (rf_emptied_directories r) @ '' empty director(ies)''))"

definition says_nothing_about :: "string \<Rightarrow> coverage \<Rightarrow> string" where
  "says_nothing_about document c =
     (if cv_not_captured c = [] then []
      else say (''  this '' @ document @ '' says nothing about: ''
             @ join_with '', '' (map domain_name (cv_not_captured c))))"

section \<open>Reviewing\<close>

fun kind_explanation :: "review_kind \<Rightarrow> string" where
  "kind_explanation Unredacted =
     ''identity `redact` would remove '' @ em_dash @ '' run `redact` on this file before anything else''"
| "kind_explanation HexText =
     ''identity inside a hex-encoded value: decode it and mask the name or identifier''"
| "kind_explanation MachineKey =
     ''a CryptoAPI machine-key file name, whose suffix is the machine's GUID (G3): mask it, and find out why the walk reached it''"
| "kind_explanation Digits =
     ''a long run of digits: an account or device number is personal, a build number is not''"
| "kind_explanation Hash = ''a long hash: a hash of an account or a machine is personal''"
| "kind_explanation Guid = ''a GUID in a per-user path or key: an install or account id is personal''"
| "kind_explanation Before =
     ''the earlier value of a modified slot held a path: a recent-items list names what else ran on the machine''"

definition times_sign :: string where "times_sign = [CHR 0xC3, CHR 0x97]"

definition found_values :: "string \<Rightarrow> review_finding \<Rightarrow> string" where
  "found_values place f =
     (if length (rv_values f) = 1 \<and> place \<in> set (rv_values f) then []
      else say (''         '' @ decimal (length (rv_values f)) @ '' distinct: ''
             @ join_with '', '' (take 3 (rv_values f))
             @ (if 3 < length (rv_values f) then '', '' @ ellipsis else [])))"

definition found_lines :: "string \<times> review_finding \<Rightarrow> string" where
  "found_lines = (\<lambda>(place, f).
     say (''  '' @ times_sign @ pad_right 4 (decimal (rv_count f)) @ '' '' @ place)
     @ found_values place f
     @ say (''         at '' @ rv_at f)
     @ say (''         '' @ rv_context f))"

definition kind_lines :: "review_kind \<times> (string \<times> review_finding) list \<Rightarrow> string" where
  "kind_lines = (\<lambda>(k, found).
     say [] @ say (kind_label k @ '' '' @ em_dash @ '' '' @ kind_explanation k) @ concat (map found_lines found))"

definition run_review :: "('w, 's, 'r) obs_world \<Rightarrow> string \<Rightarrow> observe_result" where
  "run_review w input =
     (case read_document w (ow_json w) input of
        Inl e \<Rightarrow> stopped [] e
      | Inr document \<Rightarrow>
          (let findings = review (ow_benign w) document
           in if findings = [] then
                Inr (ended exit_ok
                  (say (input @ '': nothing identifier-shaped was found. Read the file anyway before it is committed (docs/16).''))
                  [])
              else
                Inr (ended exit_nothing
                  (say (input @ '': '' @ decimal (sum_list (map (length \<circ> snd) findings))
                     @ '' place(s) to look at, in '' @ decimal (length findings)
                     @ '' kind(s). Mask what is personal with `redact --also-id`, then review again.'')
                   @ concat (map kind_lines findings))
                  [])))"

section \<open>Refiltering\<close>

definition upgraded_line :: "32 word \<Rightarrow> diff \<Rightarrow> string" where
  "upgraded_line format d =
     (if format = df_format_version d then []
      else say (''  upgraded from diff format '' @ decimal (unat format) @ '' to ''
             @ decimal (unat (df_format_version d))
             @ '': a modified key now carries only the values that changed. Its snapshots stay format ''
             @ decimal (unat (df_snapshot_format_version d))
             @ '', and nothing they did not record can be added.''))"

definition run_refilter :: "('w, 's, 'r) obs_world \<Rightarrow> string \<Rightarrow> string \<Rightarrow> observe_result" where
  "run_refilter w input output =
     (case read_diff w input of
        Inl e \<Rightarrow> stopped [] e
      | Inr read \<Rightarrow>
          (let (d, report) = refilter read current_policy
           in case write_diff w output d of
                Inl e \<Rightarrow> stopped_writing [] output e
              | Inr written \<Rightarrow>
                  wrote exit_ok
                    (say (''refiltered diff written to '' @ output)
                     @ (if refiltered_is_empty report
                        then say ''  nothing in it is refused by this build's policy''
                        else report_refiltered report)
                     @ upgraded_line (df_format_version read) d)
                    output written))"

section \<open>Intersecting\<close>

fun read_diffs :: "('w, 's, 'r) obs_world \<Rightarrow> string list \<Rightarrow> string + diff list" where
  "read_diffs w [] = Inr []"
| "read_diffs w (path # paths) =
     (case read_diff w path of
        Inl e \<Rightarrow> Inl e
      | Inr d \<Rightarrow> (case read_diffs w paths of Inl e \<Rightarrow> Inl e | Inr ds \<Rightarrow> Inr (d # ds)))"

definition held_by_every :: "diff \<Rightarrow> nat" where
  "held_by_every d =
     length (df_services d) + length (df_suppressed d) + length (df_files d) + length (df_suppressed_files d)
     + length (df_registry d)"

definition footprint_line :: "nat \<Rightarrow> string \<times> footprint \<Rightarrow> string" where
  "footprint_line held = (\<lambda>(path, source).
     say (''  '' @ path @ '': '' @ decimal (ft_changes source) @ '' change(s), ''
       @ decimal (ft_changes source - held) @ '' of them not in every other footprint''))"

definition policy_change_warning :: "diff \<Rightarrow> string" where
  "policy_change_warning d =
     (if df_filesystem_policy_changed d \<or> df_registry_policy_changed d
      then say ''  WARNING: at least one footprint was taken across a policy change, and its differences may be the harness rather than an installer.''
      else [])"

definition run_intersect :: "('w, 's, 'r) obs_world \<Rightarrow> string list \<Rightarrow> string \<Rightarrow> observe_result" where
  "run_intersect w paths output =
     (case read_diffs w paths of
        Inl e \<Rightarrow> stopped [] e
      | Inr footprints \<Rightarrow>
          (case intersect footprints of
             Inl e \<Rightarrow> stopped [] (''intersecting the footprints: '' @ intersect_error_text e)
           | Inr d \<Rightarrow>
               (case write_diff w output d of
                  Inl e \<Rightarrow> stopped_writing [] output e
                | Inr written \<Rightarrow>
                    (let held = held_by_every d;
                         sources = (case df_intersection_of d of Some fs \<Rightarrow> fs | None \<Rightarrow> [])
                     in wrote (if held = 0 then exit_nothing else exit_ok)
                          (say (''shared footprint written to '' @ output @ '' '' @ em_dash @ '' ''
                             @ decimal (length (df_services d)) @ '' service change(s), ''
                             @ decimal (length (df_files d)) @ '' file change(s), ''
                             @ decimal (length (df_registry d)) @ '' registry change(s) held by every footprint'')
                           @ report_refiltered (df_refiltered d)
                           @ concat (map (footprint_line held) (zip paths sources))
                           @ policy_change_warning d
                           @ says_nothing_about ''footprint'' (df_coverage d)
                           @ say ''  a title observed with the anti-cheat already installed has it missing from its footprint, and so does the intersection''
                           @ (if held = 0 then say ''nothing is held by every footprint'' else []))
                          output written))))"

section \<open>Drafting\<close>

definition suggest_warning :: "diff \<Rightarrow> string" where
  "suggest_warning d =
     (if df_filesystem_policy_changed d \<or> df_registry_policy_changed d
      then say ''  WARNING: this diff was produced from snapshots taken under different policies. A draft built from it may name footprint that is an artefact of the harness rather than of an installer.''
      else [])"

definition reading_backwards :: "bool \<Rightarrow> string \<Rightarrow> string" where
  "reading_backwards removed path =
     (if removed then say (''  reading '' @ path @ '' the other way round: what it removed is the footprint'')
      else [])"

definition read_residue :: "('w, 's, 'r) obs_world \<Rightarrow> string option \<Rightarrow> string + diff option" where
  "read_residue w path =
     (case path of
        None \<Rightarrow> Inr None
      | Some p \<Rightarrow> (case read_document w (ow_diff w) p of Inl e \<Rightarrow> Inl e | Inr d \<Rightarrow> Inr (Some d)))"

definition unreadable_residue :: "string option \<Rightarrow> diff option \<Rightarrow> string option" where
  "unreadable_residue path residue =
     (case (path, residue) of (Some p, Some d) \<Rightarrow> ensure_readable_diff p d | _ \<Rightarrow> None)"

definition read_evidence ::
    "('w, 's, 'r) obs_world \<Rightarrow> string \<Rightarrow> string option \<Rightarrow> string + diff \<times> diff option" where
  "read_evidence w diff_path residue_path =
     (case read_document w (ow_diff w) diff_path of
        Inl e \<Rightarrow> Inl e
      | Inr footprint \<Rightarrow>
          (case read_residue w residue_path of
             Inl e \<Rightarrow> Inl e
           | Inr residue \<Rightarrow>
               (case ensure_readable_diff diff_path footprint of
                  Some e \<Rightarrow> Inl e
                | None \<Rightarrow>
                    (case unreadable_residue residue_path residue of
                       Some e \<Rightarrow> Inl e
                     | None \<Rightarrow> Inr (footprint, residue)))))"

definition draft_is_empty :: "draft \<Rightarrow> bool" where
  "draft_is_empty d \<longleftrightarrow>
     ac_services (dt_entry d) = [] \<and> ac_paths (dt_entry d) = [] \<and> ac_registry (dt_entry d) = []"

definition draft_lines :: "string \<Rightarrow> draft \<Rightarrow> string" where
  "draft_lines output d =
     say (''draft written to '' @ output @ '' '' @ em_dash @ '' '' @ decimal (length (ac_services (dt_entry d)))
       @ '' service(s), '' @ decimal (length (ac_drivers (dt_entry d))) @ '' driver(s), ''
       @ decimal (length (ac_paths (dt_entry d))) @ '' path(s), ''
       @ decimal (length (ac_registry (dt_entry d))) @ '' key(s)'')
     @ say (''this is a DRAFT '' @ em_dash @ '' '' @ decimal (length (dt_review d))
         @ '' item(s) need review before submitting:'')
     @ concat (map (\<lambda>note. say (''  - '' @ note)) (dt_review d))
     @ (if draft_is_empty d
        then say ''nothing was added between these snapshots; there is no footprint to describe'' else [])"

definition write_draft :: "('w, 's, 'r) obs_world \<Rightarrow> string \<Rightarrow> draft \<Rightarrow> write_error + string" where
  "write_draft w output d =
     (case to_toml (ow_print_entry w) d (from_unix_millis (ow_now w)) of
        Inl e \<Rightarrow> Inl (''rendering the draft: '' @ e, None)
      | Inr toml \<Rightarrow>
          (case ensure_parent w output of Some e \<Rightarrow> Inl (e, None) | None \<Rightarrow> write_file w output toml))"

definition run_suggest ::
    "('w, 's, 'r) obs_world \<Rightarrow> string \<Rightarrow> string option \<Rightarrow> string option \<Rightarrow> string list \<Rightarrow> bool \<Rightarrow> string
      \<Rightarrow> observe_result run" where
  "run_suggest w diff_path residue_path signer only removed output =
     (case read_evidence w diff_path residue_path of
        Inl e \<Rightarrow> Ret (stopped [] e)
      | Inr (footprint, residue) \<Rightarrow>
          (let printed = suggest_warning footprint @ reading_backwards removed diff_path
           in map_run
                (\<lambda>d. case write_draft w output d of
                       Inl e \<Rightarrow> stopped_writing printed output e
                     | Inr toml \<Rightarrow>
                         wrote (if draft_is_empty d then exit_nothing else exit_ok)
                           (printed @ draft_lines output d) output toml)
                (draft_scoped (if removed then reversed footprint else footprint) residue signer only)))"

section \<open>Redacting\<close>

definition local_name :: "('w, 's, 'r) obs_world \<Rightarrow> string \<Rightarrow> string list" where
  "local_name w v = (case ow_variable w v of Some n \<Rightarrow> if trim n = [] then [] else [n] | None \<Rightarrow> [])"

definition names_to_remove :: "('w, 's, 'r) obs_world \<Rightarrow> string list \<Rightarrow> string list \<Rightarrow> extra_names" where
  "names_to_remove w also_names also_ids =
     \<lparr>ex_accounts = also_names @ local_name w ''USERNAME'', ex_computers = local_name w ''COMPUTERNAME'',
      ex_identifiers = also_ids\<rparr>"

definition arrow_sign :: string where "arrow_sign = [CHR 0xE2, CHR 0x86, CHR 0x92]"

definition residual_lines :: "string \<times> residual \<Rightarrow> string" where
  "residual_lines = (\<lambda>(name, r).
     say (''  CHECK: `'' @ name @ ''` still appears '' @ decimal (rs_count r)
       @ '' time(s) where replacing it could corrupt unrelated text '' @ em_dash
       @ '' inside a longer word, or glued to other characters. Read every one before sharing; the first few, with the name masked:'')
     @ concat (map (\<lambda>context. say (''      '' @ context)) (rs_contexts r)))"

definition redaction_lines :: "string \<Rightarrow> redaction_report \<Rightarrow> string" where
  "redaction_lines output r =
     say (''redacted copy written to '' @ output)
     @ (if rp_names r = [] then []
        else say (''  account name(s) looked for: '' @ join_with '', '' (rp_names r)))
     @ (if rp_computers r = [] then []
        else say (''  computer name(s) looked for: '' @ join_with '', '' (rp_computers r)))
     @ (if 0 < rp_identifiers r
        then say (''  '' @ decimal (rp_identifiers r) @ '' supplied identifier(s) looked for'') else [])
     @ concat (map (\<lambda>name. say (''  NOT APPLIED: `'' @ name @ ''` is shorter than '' @ decimal min_name_len
         @ '' characters and would match too much to replace safely. Search the file for it yourself.''))
         (rp_skipped r))
     @ (if rp_applied r = [] then say ''  no identifying strings were found'' else [])
     @ concat (map (\<lambda>(placeholder, count).
         say (''  '' @ decimal count @ '' substitution(s) '' @ arrow_sign @ '' '' @ placeholder)) (rp_applied r))
     @ (if rp_residual r = [] then say ''  no occurrence of a known name remains, in any letter case''
        else concat (map residual_lines (rp_residual r)))
     @ say (''  this removes identity, not secrets '' @ em_dash @ '' read the file before sharing it (docs/16)'')"

definition run_redact ::
    "('w, 's, 'r) obs_world \<Rightarrow> string \<Rightarrow> string \<Rightarrow> string list \<Rightarrow> string list \<Rightarrow> observe_result" where
  "run_redact w input output also_names also_ids =
     (case ow_read w input of
        Inl e \<Rightarrow> stopped [] (''reading '' @ input @ '': '' @ e)
      | Inr source \<Rightarrow>
          (case ow_json w source of
             Inl e \<Rightarrow> stopped [] (''parsing '' @ input @ '': '' @ e)
           | Inr document \<Rightarrow>
               (let (redacted, report) = redact_document document (names_to_remove w also_names also_ids)
                in case write_document w
                          (\<lambda>_. render_like (ow_print_pretty w) (ow_print_json w) source redacted) output of
                     Inl e \<Rightarrow> stopped_writing [] output e
                   | Inr written \<Rightarrow>
                       wrote (if rp_residual report = [] \<and> rp_skipped report = [] then exit_ok else exit_nothing)
                         (redaction_lines output report) output written)))"

section \<open>Taking a snapshot\<close>

definition span_line :: "snapshot \<Rightarrow> string" where
  "span_line s =
     (if 1 < length (sn_domain_started_utc s) then
        (let starts = map snd (sn_domain_started_utc s)
         in say (''capture spanned '' @ Min (set starts) @ '' to '' @ Max (set starts) @ '' '' @ em_dash
              @ '' a snapshot is not an instant''))
      else [])"

definition snapshot_lines :: "string \<Rightarrow> snapshot \<Rightarrow> string" where
  "snapshot_lines output s =
     say (''snapshot written to '' @ output @ '' '' @ em_dash @ '' '' @ decimal (length (sn_services s))
       @ '' services, '' @ decimal (length (sn_files s)) @ '' files, '' @ decimal (length (sn_registry s))
       @ '' registry keys ('' @ decimal (case sn_registry_empty_keys s of Some ks \<Rightarrow> length ks | None \<Rightarrow> 0)
       @ '' more standing empty), '' @ decimal (length (cv_access_denied (sn_coverage s))) @ '' unreadable'')
     @ span_line s
     @ say (''coverage: '' @ decimal (length (cv_captured (sn_coverage s))) @ '' of ''
         @ decimal (length all_domains) @ '' domains '' @ em_dash @ '' not captured: ''
         @ join_with '', '' (map domain_name (cv_not_captured (sn_coverage s))))"

definition run_snapshot :: "('w, 's, 'r) obs_world \<Rightarrow> string \<Rightarrow> string \<Rightarrow> observe_result option" where
  "run_snapshot w output name =
     map_option
       (\<lambda>taken. case taken of
          Inl e \<Rightarrow> stopped [] e
        | Inr s \<Rightarrow>
            (case write_snapshot w output s of
               Inl e \<Rightarrow> stopped_writing [] output e
             | Inr written \<Rightarrow> wrote exit_ok (snapshot_lines output s) output written))
       (snapshot_of (ow_machine w) name (from_unix_millis (ow_now w)) everything)"

section \<open>Comparing\<close>

definition policies_warning :: "diff \<Rightarrow> string" where
  "policies_warning d =
     (if df_registry_policy_changed d
      then say (''  WARNING: the two snapshots used different registry policies. Key differences may be an artefact of the policy rather than a change on the machine '' @ em_dash @ '' compare `registry_policy` in both.'')
      else [])
     @ (if df_filesystem_policy_changed d
        then say (''  WARNING: the two snapshots used different filesystem policies. File differences may be an artefact of the policy rather than a change on the machine '' @ em_dash @ '' compare `filesystem_policy` in both.'')
        else [])"

definition restart_line :: "bool option \<Rightarrow> string" where
  "restart_line rebooted =
     (case rebooted of
        Some True \<Rightarrow> say (''  WARNING: the machine restarted between these two snapshots. Drivers loaded and unloaded, per-user service instances were recreated, and any pending file renames were carried out '' @ em_dash @ '' none of that was the subject of the observation.'')
      | Some False \<Rightarrow> []
      | None \<Rightarrow> say ''  whether the machine restarted between these snapshots is not known: one of them predates `boot_session`'')"

definition directory_line :: "string \<Rightarrow> string" where
  "directory_line directory = say (''    '' @ directory)"

definition key_line :: "reg_key_ref \<Rightarrow> string" where
  "key_line key = say (''    '' @ kr_key key @ '' [view '' @ kr_view key @ '']'')"

definition counted_lines :: "string \<Rightarrow> ('a \<Rightarrow> string) \<Rightarrow> 'a list \<Rightarrow> string" where
  "counted_lines what print items =
     (if items = [] then [] else say (''  '' @ decimal (length items) @ what) @ concat (map print items))"

definition emptied_lines :: "diff \<Rightarrow> string" where
  "emptied_lines d =
     (case df_emptied_directories d of
        Some directories \<Rightarrow>
          counted_lines '' director(ies) left standing with nothing in them:'' directory_line directories
      | None \<Rightarrow> say ''  emptied directories are not known: one of these snapshots did not record them'')
     @ (case df_emptied_keys d of
          Some keys \<Rightarrow> counted_lines '' registry key(s) left standing with no value in them:'' key_line keys
        | None \<Rightarrow> say ''  emptied registry keys are not known: these snapshots did not both record them'')
     @ (case df_formerly_empty_directories d of
          Some directories \<Rightarrow>
            counted_lines '' director(ies) empty in the earlier snapshot and not in the later:'' directory_line
              directories
        | None \<Rightarrow> [])
     @ (case df_formerly_empty_keys d of
          Some keys \<Rightarrow>
            counted_lines '' registry key(s) empty in the earlier snapshot and not in the later:'' key_line keys
        | None \<Rightarrow> [])"

definition diff_lines :: "string \<Rightarrow> diff \<Rightarrow> string" where
  "diff_lines output d =
     say (''diff written to '' @ output @ '' '' @ em_dash @ '' '' @ decimal (length (df_services d))
       @ '' service changes, '' @ decimal (length (df_files d)) @ '' file changes, ''
       @ decimal (length (df_registry d)) @ '' registry changes'')
     @ report_refiltered (df_refiltered d)
     @ policies_warning d
     @ restart_line (df_rebooted_between d)
     @ emptied_lines d
     @ concat (map (\<lambda>(signer, count). say (''  '' @ decimal count @ '' file(s) signed by `'' @ signer @ ''`''))
         (df_signers d))
     @ concat (map (\<lambda>(rule, count). say (''  '' @ decimal count @ '' change(s) suppressed by rule `'' @ rule
         @ ''` '' @ em_dash @ '' see `suppressed` in the diff'')) (suppression_counts d))
     @ says_nothing_about ''diff'' (df_coverage d)"

definition nothing_changed :: "diff \<Rightarrow> bool" where
  "nothing_changed d \<longleftrightarrow> df_services d = [] \<and> df_files d = [] \<and> df_registry d = []"

definition run_diff ::
    "('w, 's, 'r) obs_world \<Rightarrow> string \<Rightarrow> string \<Rightarrow> string \<Rightarrow> bool \<Rightarrow> observe_result" where
  "run_diff w before after output no_filter =
     (case read_document w (ow_snapshot w) before of
        Inl e \<Rightarrow> stopped [] e
      | Inr before_snapshot \<Rightarrow>
          (case read_document w (ow_snapshot w) after of
             Inl e \<Rightarrow> stopped [] e
           | Inr after_snapshot \<Rightarrow>
               (case compare before_snapshot after_snapshot (if no_filter then permissive_filter else standard_filter) of
                  Inl e \<Rightarrow> stopped [] (''comparing the snapshots: '' @ diff_error_text e)
                | Inr d \<Rightarrow>
                    (case write_diff w output d of
                       Inl e \<Rightarrow> stopped_writing [] output e
                     | Inr written \<Rightarrow>
                         wrote (if nothing_changed d then exit_nothing else exit_ok) (diff_lines output d)
                           output written))))"

section \<open>The program\<close>

text \<open>A snapshot may not return; a draft may panic.\<close>

fun run_observation :: "('w, 's, 'r) obs_world \<Rightarrow> observe_command \<Rightarrow> observe_result run option" where
  "run_observation w (SnapshotCommand output name) = map_option Ret (run_snapshot w output name)"
| "run_observation w (DiffCommand before after output no_filter) =
     Some (Ret (run_diff w before after output no_filter))"
| "run_observation w (SuggestCommand diff_path residue signer only removed output) =
     Some (run_suggest w diff_path residue signer only removed output)"
| "run_observation w (IntersectCommand paths output) = Some (Ret (run_intersect w paths output))"
| "run_observation w (RefilterCommand input output) = Some (Ret (run_refilter w input output))"
| "run_observation w (RedactCommand input output also_names also_ids) =
     Some (Ret (run_redact w input output also_names also_ids))"
| "run_observation w (ReviewCommand input) = Some (Ret (run_review w input))"

definition observe_outcome :: "observe_result \<Rightarrow> outcome" where
  "observe_outcome r =
     (case r of
        Inr o' \<Rightarrow> o'
      | Inl (printed, e, left) \<Rightarrow>
          (ended exit_scan_error [] (printed @ say (''error: '' @ e)))\<lparr>oc_written := left\<rparr>)"

definition observe_main :: "('w, 's, 'r) obs_world \<Rightarrow> observe_command \<Rightarrow> outcome run option" where
  "observe_main w command = map_option (map_run observe_outcome) (run_observation w command)"

end
