(* ===== verification/Obs_Walk_Props.thy ===== *)
theory Obs_Walk_Props
  imports Obs_Walk
begin

text \<open>
  What a walk of the disk promises: it comes to an end when directories do not nest without
  end, it records each file it can reach once it ends and no other, and what it calls empty
  holds nothing it could see.
\<close>

section \<open>What a name turns out to be\<close>

datatype sight = Skipped | Refused string | Folder | PlainFile file_meta

definition sight :: "disk \<Rightarrow> string \<Rightarrow> sight" where
  "sight d path =
     (if is_excluded_path path then Skipped
      else case dk_metadata d path of
             Inl e \<Rightarrow> Refused e
           | Inr m \<Rightarrow>
               if fm_is_symlink m then Refused ''reparse point, not traversed''
               else if fm_is_dir m then Folder
               else PlainFile m)"

definition names_in :: "disk \<Rightarrow> string \<Rightarrow> string list" where
  "names_in d directory =
     (case dk_read_dir d directory of Inl _ \<Rightarrow> [] | Inr items \<Rightarrow> readable_entries items)"

definition paths_in :: "disk \<Rightarrow> string \<Rightarrow> string list" where
  "paths_in d directory = map (push_name directory) (names_in d directory)"

definition folders_in :: "disk \<Rightarrow> string \<Rightarrow> string list" where
  "folders_in d directory = filter (\<lambda>p. sight d p = Folder) (paths_in d directory)"

definition files_in :: "disk \<Rightarrow> string \<Rightarrow> (string \<times> file_meta) list" where
  "files_in d directory =
     List.map_filter (\<lambda>p. case sight d p of PlainFile m \<Rightarrow> Some (p, m) | _ \<Rightarrow> None) (paths_in d directory)"

definition denials_in :: "disk \<Rightarrow> string \<Rightarrow> access_denied list" where
  "denials_in d directory =
     (case dk_read_dir d directory of
        Inl e \<Rightarrow> [denied_path directory e]
      | Inr _ \<Rightarrow> List.map_filter
          (\<lambda>p. case sight d p of Refused e \<Rightarrow> Some (denied_path p e) | _ \<Rightarrow> None) (paths_in d directory))"

definition can_list :: "disk \<Rightarrow> string \<Rightarrow> bool" where
  "can_list d directory = (case dk_read_dir d directory of Inl _ \<Rightarrow> False | Inr _ \<Rightarrow> True)"

text \<open>Something other than a folder is there, or the directory cannot be listed.\<close>

definition holds_something :: "disk \<Rightarrow> string \<Rightarrow> bool" where
  "holds_something d directory \<longleftrightarrow>
     \<not> can_list d directory \<or> (\<exists>p \<in> set (paths_in d directory). sight d p \<noteq> Folder)"

abbreviation reached :: "disk \<Rightarrow> string list \<Rightarrow> string set" where
  "reached d \<equiv> reachable_below (folders_in d)"

section \<open>One directory\<close>

lemma walk_entries:
  "fold (walk_entry d directory) names (st, b) =
     (st\<lparr>wk_queue := wk_queue st @ filter (\<lambda>p. sight d p = Folder) (map (push_name directory) names),
         wk_pending := wk_pending st @ List.map_filter
           (\<lambda>p. case sight d p of PlainFile m \<Rightarrow> Some (p, m) | _ \<Rightarrow> None) (map (push_name directory) names),
         wk_denied := wk_denied st @ List.map_filter
           (\<lambda>p. case sight d p of Refused e \<Rightarrow> Some (denied_path p e) | _ \<Rightarrow> None)
           (map (push_name directory) names)\<rparr>,
      b \<or> list_ex (\<lambda>p. sight d p \<noteq> Folder) (map (push_name directory) names))"
proof (induction names arbitrary: st b)
  case (Cons name names)
  then show ?case
    by (simp add: walk_entry_def sight_def Let_def List.map_filter_simps split: sum.split)
qed (simp add: List.map_filter_simps)

lemma walk_directory_sees:
  "walk_directory d directory st =
     st\<lparr>wk_queue := wk_queue st @ folders_in d directory,
        wk_pending := wk_pending st @ files_in d directory,
        wk_denied := wk_denied st @ denials_in d directory,
        wk_read := wk_read st @ (if can_list d directory then [directory] else []),
        wk_holds := wk_holds st @ (if holds_something d directory then [directory] else [])\<rparr>"
  by (auto simp: walk_directory_def walk_entries folders_in_def files_in_def denials_in_def can_list_def
      holds_something_def paths_in_def names_in_def list_ex_iff List.map_filter_simps split: sum.split)

section \<open>The whole walk\<close>

text \<open>No directory has an endless descent of folders below it.\<close>

abbreviation bounded_depth :: "disk \<Rightarrow> bool" where
  "bounded_depth d \<equiv> no_endless_descent (folders_in d)"

datatype walked = AFile "string \<times> file_meta" | ADenial access_denied | AListed string | AHolder string

definition walked_so_far :: "walk_state \<Rightarrow> walked set" where
  "walked_so_far st =
     AFile ` set (wk_pending st) \<union> ADenial ` set (wk_denied st) \<union> AListed ` set (wk_read st)
     \<union> AHolder ` set (wk_holds st)"

definition walked_at :: "disk \<Rightarrow> string \<Rightarrow> walked set" where
  "walked_at d q =
     AFile ` set (files_in d q) \<union> ADenial ` set (denials_in d q) \<union> (if can_list d q then {AListed q} else {})
     \<union> (if holds_something d q then {AHolder q} else {})"

lemma walked_so_far_iff [simp]:
  "AFile x \<in> walked_so_far st \<longleftrightarrow> x \<in> set (wk_pending st)"
  "ADenial a \<in> walked_so_far st \<longleftrightarrow> a \<in> set (wk_denied st)"
  "AListed q \<in> walked_so_far st \<longleftrightarrow> q \<in> set (wk_read st)"
  "AHolder q \<in> walked_so_far st \<longleftrightarrow> q \<in> set (wk_holds st)"
  by (auto simp: walked_so_far_def)

lemma walked_at_iff [simp]:
  "AFile x \<in> walked_at d q \<longleftrightarrow> x \<in> set (files_in d q)"
  "ADenial a \<in> walked_at d q \<longleftrightarrow> a \<in> set (denials_in d q)"
  "AListed p \<in> walked_at d q \<longleftrightarrow> p = q \<and> can_list d q"
  "AHolder p \<in> walked_at d q \<longleftrightarrow> p = q \<and> holds_something d q"
  by (auto simp: walked_at_def)

definition walk_next :: "disk \<Rightarrow> walk_state \<Rightarrow> walk_state" where
  "walk_next d st =
     (case wk_queue st of [] \<Rightarrow> st | directory # rest \<Rightarrow> walk_directory d directory (st\<lparr>wk_queue := rest\<rparr>))"

interpretation walking: worklist wk_queue "walk_next d" "walk_loop d" "folders_in d" walked_so_far "walked_at d"
  for d
  by unfold_locales
    (auto simp: walk_loop.simps [of d] walk_next_def walk_directory_sees walked_so_far_def walked_at_def)

lemma walk_sees:
  assumes "bounded_depth d"
  obtains c :: captured_files and st :: walk_state where "walk d roots = Some c"
    and "c = \<lparr>cf_files = sort_key fr_path (map (record_file d) (wk_pending st)),
          cf_access_denied = sort_key ad_item (wk_denied st), cf_policy = walk_policy roots,
          cf_file_empty_directories = file_empty_roots (wk_read st) (wk_holds st)\<rparr>"
    and "set (wk_pending st) = (\<Union>q \<in> reached d roots. set (files_in d q))"
    and "set (wk_denied st) = (\<Union>q \<in> reached d roots. set (denials_in d q))"
    and "set (wk_read st) = {q \<in> reached d roots. can_list d q}"
    and "set (wk_holds st) = {q \<in> reached d roots. holds_something d q}"
proof -
  let ?start = "\<lparr>wk_queue = roots, wk_pending = [], wk_denied = [], wk_read = [], wk_holds = []\<rparr>"
  obtain st where st: "walk_loop d ?start = Some st"
    and "walked_so_far st = walked_so_far ?start \<union> (\<Union>q \<in> reached d (wk_queue ?start). walked_at d q)"
    using walking.loop_sees [OF assms, of ?start] by blast
  then have all: "walked_so_far st = (\<Union>q \<in> reached d roots. walked_at d q)" by (simp add: walked_so_far_def)
  have mem: "x \<in> walked_so_far st \<longleftrightarrow> (\<exists>q \<in> reached d roots. x \<in> walked_at d q)" for x
    unfolding all by simp
  have "x \<in> set (wk_pending st) \<longleftrightarrow> (\<exists>q \<in> reached d roots. x \<in> set (files_in d q))" for x
    using mem [of "AFile x"] by simp
  moreover have "a \<in> set (wk_denied st) \<longleftrightarrow> (\<exists>q \<in> reached d roots. a \<in> set (denials_in d q))" for a
    using mem [of "ADenial a"] by simp
  moreover have "q \<in> set (wk_read st) \<longleftrightarrow> q \<in> reached d roots \<and> can_list d q" for q
    using mem [of "AListed q"] by auto
  moreover have "q \<in> set (wk_holds st) \<longleftrightarrow> q \<in> reached d roots \<and> holds_something d q" for q
    using mem [of "AHolder q"] by auto
  ultimately have sees: "set (wk_pending st) = (\<Union>q \<in> reached d roots. set (files_in d q))"
      "set (wk_denied st) = (\<Union>q \<in> reached d roots. set (denials_in d q))"
      "set (wk_read st) = {q \<in> reached d roots. can_list d q}"
      "set (wk_holds st) = {q \<in> reached d roots. holds_something d q}"
    by (simp_all add: set_eq_iff)
  from st show ?thesis by (intro that [OF _ refl sees]) (simp add: walk_def)
qed

text \<open>
  C33. When folders do not nest without end the walk returns, and the files it records are
  exactly those it can reach from the roots without following a link or entering an excluded
  place, each with its own record; what it could not look into is among the denials.
\<close>

theorem walk_records_what_is_reached:
  assumes "bounded_depth d"
  shows "\<exists>c. walk d roots = Some c
     \<and> set (cf_files c) = record_file d ` (\<Union>q \<in> reached d roots. set (files_in d q))
     \<and> set (cf_access_denied c) = (\<Union>q \<in> reached d roots. set (denials_in d q))"
  by (rule walk_sees [OF assms, of roots]) auto

text \<open>
  C34. A directory is reported as empty only if it was listed, every directory the walk reached at
  it or below it was listed too, and every entry these listings named is a folder: none is a file,
  a link, an excluded entry or one whose metadata was refused.  An entry whose name the listing
  could not give is dropped by it and not counted here.
\<close>

theorem walk_empty_is_empty:
  assumes "bounded_depth d" and "walk d roots = Some c"
    and "directory \<in> set (cf_file_empty_directories c)"
  shows "directory \<in> reached d roots \<and> can_list d directory
     \<and> (\<forall>q \<in> reached d roots. (q, directory) \<in> (parents path_parent)\<^sup>* \<longrightarrow>
          can_list d q \<and> (\<forall>p \<in> set (paths_in d q). sight d p = Folder))"
proof -
  obtain c' :: captured_files and st :: walk_state where "walk d roots = Some c'"
    and c': "cf_file_empty_directories c' = file_empty_roots (wk_read st) (wk_holds st)"
    and sets: "set (wk_read st) = {q \<in> reached d roots. can_list d q}"
      "set (wk_holds st) = {q \<in> reached d roots. holds_something d q}"
    by (rule walk_sees [OF assms(1), of roots]) auto
  with assms(2,3) have "directory \<in> set (file_empty_roots (wk_read st) (wk_holds st))" by simp
  then have "directory \<in> set (wk_read st)" "\<not> holds_below path_parent (wk_holds st) directory"
    unfolding file_empty_roots_def directories.topmost_iff by simp_all
  with sets show ?thesis by (auto simp: holds_below_def holds_something_def)
qed

lemma walked_not_excluded:
  assumes "bounded_depth d" and "walk d roots = Some c" and "f \<in> set (cf_files c)"
  shows "\<not> is_excluded_path (fr_path f)"
proof -
  obtain q p m where "(p, m) \<in> set (files_in d q)" "f = record_file d (p, m)"
    by (rule walk_sees [OF assms(1), of roots]) (use assms(2,3) in auto)
  then show ?thesis
    by (auto simp: files_in_def sight_def record_file_def Let_def List.map_filter_def
        split: if_splits sum.splits sight.splits prod.splits)
qed

section \<open>A disk\<close>

text \<open>A folder with a program and another folder, in which only unreadable names are listed.\<close>

definition sample_root :: string where "sample_root = win ''C:/Games''"
definition sample_folder :: string where "sample_folder = win ''C:/Games/Empty''"
definition sample_program :: string where "sample_program = win ''C:/Games/game.exe''"

definition sample_disk :: "string list \<Rightarrow> disk" where
  "sample_disk unread =
     \<lparr>dk_read_dir = (\<lambda>p.
        if p = sample_root then Inr [Inr ''Empty'', Inr ''game.exe'']
        else if p = sample_folder then Inr (map Inl unread)
        else Inl ''not found''),
      dk_metadata = (\<lambda>p.
        Inr \<lparr>fm_is_symlink = False, fm_is_dir = (p = sample_folder), fm_len = 7, fm_modified = Some 0\<rparr>),
      dk_hash = (\<lambda>_. Inr ''00''), dk_signer = (\<lambda>_. Some ''Vendor'')\<rparr>"

lemma sample_names:
  "names_in (sample_disk unread) q = (if q = sample_root then [''Empty'', ''game.exe''] else [])"
  "push_name sample_root ''Empty'' = sample_folder" "push_name sample_root ''game.exe'' = sample_program"
proof -
  have "sample_folder \<noteq> sample_root" by code_simp
  then show "names_in (sample_disk unread) q = (if q = sample_root then [''Empty'', ''game.exe''] else [])"
    by (simp add: names_in_def sample_disk_def readable_entries_def List.map_filter_def comp_def)
qed code_simp+

lemma sample_sight:
  "sight (sample_disk unread) sample_folder = Folder"
  "sight (sample_disk unread) sample_program =
     PlainFile \<lparr>fm_is_symlink = False, fm_is_dir = False, fm_len = 7, fm_modified = Some 0\<rparr>"
proof -
  have "\<not> is_excluded_path sample_folder" "\<not> is_excluded_path sample_program" "sample_program \<noteq> sample_folder"
    by code_simp+
  then show "sight (sample_disk unread) sample_folder = Folder"
    "sight (sample_disk unread) sample_program =
       PlainFile \<lparr>fm_is_symlink = False, fm_is_dir = False, fm_len = 7, fm_modified = Some 0\<rparr>"
    by (simp_all add: sight_def sample_disk_def)
qed

lemma sample_directory:
  "folders_in (sample_disk unread) q = (if q = sample_root then [sample_folder] else [])"
  "files_in (sample_disk unread) q =
     (if q = sample_root
      then [(sample_program, \<lparr>fm_is_symlink = False, fm_is_dir = False, fm_len = 7, fm_modified = Some 0\<rparr>)]
      else [])"
  "q \<in> {sample_root, sample_folder} \<Longrightarrow> denials_in (sample_disk unread) q = []"
  "q \<in> {sample_root, sample_folder} \<Longrightarrow> can_list (sample_disk unread) q"
  "q \<in> {sample_root, sample_folder} \<Longrightarrow> holds_something (sample_disk unread) q \<longleftrightarrow> q = sample_root"
proof -
  show list: "q \<in> {sample_root, sample_folder} \<Longrightarrow> can_list (sample_disk unread) q"
    by (auto simp: can_list_def sample_disk_def)
  have paths: "paths_in (sample_disk unread) q = (if q = sample_root then [sample_folder, sample_program] else [])"
    by (simp add: paths_in_def sample_names)
  show "folders_in (sample_disk unread) q = (if q = sample_root then [sample_folder] else [])"
    by (simp add: folders_in_def paths sample_sight)
  show "files_in (sample_disk unread) q =
     (if q = sample_root
      then [(sample_program, \<lparr>fm_is_symlink = False, fm_is_dir = False, fm_len = 7, fm_modified = Some 0\<rparr>)]
      else [])"
    by (simp add: files_in_def paths sample_sight List.map_filter_simps)
  show "q \<in> {sample_root, sample_folder} \<Longrightarrow> denials_in (sample_disk unread) q = []"
    using list by (cases "dk_read_dir (sample_disk unread) q")
      (auto simp: denials_in_def can_list_def paths sample_sight List.map_filter_simps)
  show "q \<in> {sample_root, sample_folder} \<Longrightarrow> holds_something (sample_disk unread) q \<longleftrightarrow> q = sample_root"
    using list sample_sight(2) [of unread] by (auto simp: holds_something_def paths)
qed

lemma sample_apart: "sample_folder \<noteq> sample_root"
  by code_simp

lemma sample_bounded: "bounded_depth (sample_disk unread)"
  by (rule no_endless_descentI [where rank = "\<lambda>p. if p = sample_root then 1 else 0"])
    (use sample_apart in \<open>auto simp: sample_directory split: if_splits\<close>)

lemma sample_reached: "reached (sample_disk unread) [sample_root] = {sample_root, sample_folder}"
proof -
  have "descents (folders_in (sample_disk unread)) = {(sample_root, sample_folder)}"
    by (auto simp: descents_def sample_directory split: if_splits)
  then show ?thesis using sample_apart unfolding reachable_below_def by (auto elim: converse_rtranclE)
qed

theorem walk_records_what_is_reached_witness:
  "\<exists>c. walk (sample_disk []) [sample_root] = Some c \<and> fr_path ` set (cf_files c) = {sample_program}"
  using walk_records_what_is_reached [OF sample_bounded, of "[]" "[sample_root]"] sample_apart
  by (auto simp: sample_reached sample_directory record_file_def Let_def split: prod.split)

text \<open>
  A name that could not be read is passed over: it is no denial, and a directory whose listing
  gave nothing but errors is reported as one that holds nothing.
\<close>

lemma unread_names_count_as_none:
  "\<exists>c. walk (sample_disk unread) [sample_root] = Some c
     \<and> cf_file_empty_directories c = [sample_folder] \<and> cf_access_denied c = []"
proof -
  have "file_empty_roots [sample_root, sample_folder] [sample_root] = [sample_folder]" by code_simp
  then show ?thesis
    using sample_apart by (simp add: walk_def walk_loop.simps walk_directory_sees sample_directory)
qed

theorem walk_empty_is_empty_witness:
  "sample_folder \<in> reached (sample_disk []) [sample_root] \<and> can_list (sample_disk []) sample_folder"
proof -
  obtain c where "walk (sample_disk []) [sample_root] = Some c" "cf_file_empty_directories c = [sample_folder]"
    using unread_names_count_as_none by blast
  with walk_empty_is_empty [OF sample_bounded, of "[]" "[sample_root]" c sample_folder] show ?thesis by simp
qed

end
