(* ===== verification/Obs_Registry_Props.thy ===== *)
theory Obs_Registry_Props
  imports Obs_Registry
begin

text \<open>
  What a walk of the registry promises: it comes to an end when keys do not nest without end;
  its records are those of the keys it can reach, with nothing in them the policy of the same
  build would refuse; and a key it calls empty is one it has read to the end, as it has all
  beneath it.
\<close>

section \<open>What there is at a key\<close>

definition key_opens :: "'h registry_api \<Rightarrow> hive \<Rightarrow> reg_view \<Rightarrow> string \<times> string \<Rightarrow> 'h option" where
  "key_opens api h v k = (case ra_open api h (to_wide (snd k)) v of Inr key \<Rightarrow> Some key | Inl _ \<Rightarrow> None)"

definition children_named :: "'h registry_api \<Rightarrow> hive \<Rightarrow> reg_view \<Rightarrow> string \<times> string \<Rightarrow> string list" where
  "children_named api h v k =
     (case key_opens api h v k of Some key \<Rightarrow> map (\<lambda>n. from_utf16_lossy (take 256 n)) (fst (ra_children api key))
      | None \<Rightarrow> [])"

lemma children_named_read:
  "key_opens api h v k = Some key \<Longrightarrow> children_named api h v k = fst (child_names api key)"
  by (simp add: children_named_def child_names_def split_beta)

definition keys_below :: "'h registry_api \<Rightarrow> hive \<Rightarrow> reg_view \<Rightarrow> string \<times> string \<Rightarrow> (string \<times> string) list" where
  "keys_below api h v k =
     map (\<lambda>c. (fst k @ backslash # c, snd k @ backslash # c))
       (filter (\<lambda>c. \<not> not_looked_inside (fst k @ backslash # c) v) (children_named api h v k))"

text \<open>
  What one answer about a value tells: its data, as far as the buffer goes, or its size when it is
  too large and the size can be asked.  Of the values told the policy keeps those it does not
  refuse for their name or data.
\<close>

definition told_value :: "value_answer \<Rightarrow> registry_value option" where
  "told_value answer =
     (case answer of
        ValueRead name vt data \<Rightarrow>
          Some \<lparr>rv_name = value_name name, rv_kind = value_kind_name vt,
                rv_data = render_value vt (take max_value_bytes data), rv_oversized_bytes = None\<rparr>
      | ValueTooLarge status name vt bytes \<Rightarrow>
          if status = error_success
          then Some \<lparr>rv_name = value_name name, rv_kind = value_kind_name vt, rv_data = [],
                     rv_oversized_bytes = Some (ucast bytes)\<rparr>
          else None)"

definition values_told :: "'h registry_api \<Rightarrow> 'h \<Rightarrow> registry_value list" where
  "values_told api key = List.map_filter told_value (fst (ra_values api key))"

definition record_at :: "'h registry_api \<Rightarrow> policy \<Rightarrow> hive \<Rightarrow> reg_view \<Rightarrow> string \<times> string \<Rightarrow> registry_record list" where
  "record_at api p h v k =
     (case key_opens api h v k of
        Some key \<Rightarrow>
          let kept = filter (clean_value p) (values_told api key)
          in if kept = [] then []
             else [\<lparr>rr_key = fst k, rr_view = view_name v, rr_values = sort_key rv_name kept\<rparr>]
      | None \<Rightarrow> [])"

text \<open>
  A key of which no value was told, whose values and children were listed to the end, and every
  child of which is walked.
\<close>

definition key_silent :: "'h registry_api \<Rightarrow> policy \<Rightarrow> hive \<Rightarrow> reg_view \<Rightarrow> string \<times> string \<Rightarrow> bool" where
  "key_silent api p h v k \<longleftrightarrow>
     (case key_opens api h v k of
        Some key \<Rightarrow>
          values_told api key = [] \<and> snd (ra_values api key) = error_no_more_items
          \<and> snd (ra_children api key) = error_no_more_items
          \<and> (\<forall>c \<in> set (children_named api h v k). \<not> not_looked_inside (fst k @ backslash # c) v)
      | None \<Rightarrow> False)"

lemma sort_key_Nil [simp]: "sort_key f xs = [] \<longleftrightarrow> xs = []"
  by (metis length_0_conv length_sort)

lemma judge_value_told:
  "judge_value p answer st =
     (case told_value answer of
        None \<Rightarrow> st
      | Some w \<Rightarrow>
          (case refusal_of p (rv_name w) (rv_data w) of
             Some refusal \<Rightarrow> (fst st, snd st @ [(rv_name w, refusal)])
           | None \<Rightarrow> (fst st @ [w], snd st)))"
  by (cases st; cases answer) (simp_all add: judge_value_def told_value_def Let_def split: option.split)

lemma read_values_told:
  "fst (read_values api p key) = sort_key rv_name (filter (clean_value p) (values_told api key))"
  "fst (snd (read_values api p key)) = [] \<longleftrightarrow> filter (\<lambda>w. \<not> clean_value p w) (values_told api key) = []"
  "snd (snd (read_values api p key)) = stopped_early (snd (ra_values api key))"
proof -
  have kept: "fst (fold (judge_value p) answers st)
        = fst st @ filter (clean_value p) (List.map_filter told_value answers)"
    and refused: "snd (fold (judge_value p) answers st) = [] \<longleftrightarrow>
        snd st = [] \<and> filter (\<lambda>w. \<not> clean_value p w) (List.map_filter told_value answers) = []" for answers st
    by (induction answers arbitrary: st)
      (auto simp: judge_value_told List.map_filter_simps clean_value_def split: option.splits)
  show "fst (read_values api p key) = sort_key rv_name (filter (clean_value p) (values_told api key))"
    "fst (snd (read_values api p key)) = [] \<longleftrightarrow> filter (\<lambda>w. \<not> clean_value p w) (values_told api key) = []"
    "snd (snd (read_values api p key)) = stopped_early (snd (ra_values api key))"
    using kept [of "fst (ra_values api key)" "([], [])"] refused [of "fst (ra_values api key)" "([], [])"]
    by (simp_all add: read_values_def split_beta values_told_def del: filter_empty_conv)
qed

lemma record_at_read:
  "key_opens api h v k = Some key \<Longrightarrow>
   record_at api p h v k =
     (case fst (read_values api p key) of
        [] \<Rightarrow> []
      | x # xs \<Rightarrow> [\<lparr>rr_key = fst k, rr_view = view_name v, rr_values = x # xs\<rparr>])"
proof -
  assume opens: "key_opens api h v k = Some key"
  show ?thesis
    by (cases "fst (read_values api p key)")
      (use read_values_told(1) [of api p key] in \<open>auto simp: record_at_def opens Let_def\<close>)
qed

lemma stopped_early_None [simp]: "stopped_early status = None \<longleftrightarrow> status = error_no_more_items"
  by (simp add: stopped_early_def)

lemma key_silent_read:
  "key_opens api h v k = Some key \<Longrightarrow>
   key_silent api p h v k \<longleftrightarrow>
     read_values api p key = ([], [], None) \<and> snd (child_names api key) = None
     \<and> (\<forall>c \<in> set (children_named api h v k). \<not> not_looked_inside (fst k @ backslash # c) v)"
proof -
  assume opens: "key_opens api h v k = Some key"
  have "values_told api key = [] \<longleftrightarrow>
      filter (clean_value p) (values_told api key) = []
      \<and> filter (\<lambda>w. \<not> clean_value p w) (values_told api key) = []"
    by (auto simp: filter_empty_conv)
  also have "\<dots> \<longleftrightarrow> fst (read_values api p key) = [] \<and> fst (snd (read_values api p key)) = []"
    unfolding read_values_told(1,2) by simp
  finally have "values_told api key = [] \<and> snd (ra_values api key) = error_no_more_items
      \<longleftrightarrow> read_values api p key = ([], [], None)"
    using read_values_told(3) [of api p key] by (auto simp: prod_eq_iff)
  then show ?thesis
    by (auto simp: key_silent_def opens child_names_def split_beta)
qed

definition holders_at :: "'h registry_api \<Rightarrow> policy \<Rightarrow> hive \<Rightarrow> reg_view \<Rightarrow> string \<times> string \<Rightarrow> string set" where
  "holders_at api p h v k =
     (if key_opens api h v k = None then set_option (key_parent (fst k))
      else if key_silent api p h v k then {} else {fst k})"

abbreviation key_tree :: "'h registry_api \<Rightarrow> hive \<Rightarrow> reg_view \<Rightarrow> string \<times> string \<Rightarrow> (string \<times> string) set" where
  "key_tree api h v root \<equiv> reachable_below (keys_below api h v) [root]"

section \<open>One key\<close>

lemma push_children:
  "fold (push_child v (display, path)) cs st =
     st\<lparr>kw_stack := rev (map (\<lambda>c. (display @ backslash # c, path @ backslash # c))
          (filter (\<lambda>c. \<not> not_looked_inside (display @ backslash # c) v) cs)) @ kw_stack st,
        kw_holding := kw_holding st @ map (\<lambda>_. display)
          (filter (\<lambda>c. not_looked_inside (display @ backslash # c) v) cs)\<rparr>"
  by (induction cs arbitrary: st) (simp_all add: push_child_def)

lemma walk_key_unopened:
  "ra_open api h (to_wide path) v = Inl e \<Longrightarrow>
   kw_stack (walk_key api p h v (display, path) st) = kw_stack st
   \<and> kw_keys (walk_key api p h v (display, path) st) = kw_keys st
   \<and> kw_read (walk_key api p h v (display, path) st) = kw_read st
   \<and> set (kw_holding (walk_key api p h v (display, path) st))
       = set (kw_holding st) \<union> set_option (key_parent display)"
  by (auto simp: walk_key_def split: option.splits)

lemma walk_key_opened:
  assumes "ra_open api h (to_wide path) v = Inr key"
  shows "kw_stack (walk_key api p h v (display, path) st)
      = rev (keys_below api h v (display, path)) @ kw_stack st"
    and "kw_keys (walk_key api p h v (display, path) st) = kw_keys st @ record_at api p h v (display, path)"
    and "kw_read (walk_key api p h v (display, path) st) = kw_read st @ [display]"
    and "set (kw_holding (walk_key api p h v (display, path) st))
      = set (kw_holding st) \<union> holders_at api p h v (display, path)"
proof -
  obtain vs refused stopped where vals: "read_values api p key = (vs, refused, stopped)"
    by (metis prod_cases3)
  obtain children stopped' where names: "child_names api key = (children, stopped')" by fastforce
  have opens: "key_opens api h v (display, path) = Some key" by (simp add: key_opens_def assms)
  show "kw_stack (walk_key api p h v (display, path) st)
      = rev (keys_below api h v (display, path)) @ kw_stack st"
    by (simp add: walk_key_def assms vals names opens push_children keys_below_def children_named_read [OF opens] Let_def
        split: option.split)
  show "kw_keys (walk_key api p h v (display, path) st) = kw_keys st @ record_at api p h v (display, path)"
    by (simp add: walk_key_def assms vals names opens push_children record_at_read [OF opens] Let_def
        split: option.split list.split)
  show "kw_read (walk_key api p h v (display, path) st) = kw_read st @ [display]"
    by (simp add: walk_key_def assms vals names push_children Let_def split: option.split)
  show "set (kw_holding (walk_key api p h v (display, path) st))
      = set (kw_holding st) \<union> holders_at api p h v (display, path)"
    by (auto simp: walk_key_def assms vals names opens push_children holders_at_def key_silent_read [OF opens]
        children_named_read [OF opens] Let_def split: option.splits)
qed

section \<open>One root in one view\<close>

datatype walked_key = AKey registry_record | AReadKey string | AHoldingKey string

definition keys_so_far :: "key_walk \<Rightarrow> walked_key set" where
  "keys_so_far st = AKey ` set (kw_keys st) \<union> AReadKey ` set (kw_read st) \<union> AHoldingKey ` set (kw_holding st)"

definition walked_key_at :: "'h registry_api \<Rightarrow> policy \<Rightarrow> hive \<Rightarrow> reg_view \<Rightarrow> string \<times> string \<Rightarrow> walked_key set" where
  "walked_key_at api p h v k =
     AKey ` set (record_at api p h v k)
     \<union> (if key_opens api h v k \<noteq> None then {AReadKey (fst k)} else {})
     \<union> AHoldingKey ` holders_at api p h v k"

lemma keys_so_far_iff [simp]:
  "AKey x \<in> keys_so_far st \<longleftrightarrow> x \<in> set (kw_keys st)"
  "AReadKey q \<in> keys_so_far st \<longleftrightarrow> q \<in> set (kw_read st)"
  "AHoldingKey q \<in> keys_so_far st \<longleftrightarrow> q \<in> set (kw_holding st)"
  by (auto simp: keys_so_far_def)

lemma walked_key_at_iff [simp]:
  "AKey x \<in> walked_key_at api p h v k \<longleftrightarrow> x \<in> set (record_at api p h v k)"
  "AReadKey q \<in> walked_key_at api p h v k \<longleftrightarrow> q = fst k \<and> key_opens api h v k \<noteq> None"
  "AHoldingKey q \<in> walked_key_at api p h v k \<longleftrightarrow> q \<in> holders_at api p h v k"
  by (auto simp: walked_key_at_def)

definition key_next :: "'h registry_api \<Rightarrow> policy \<Rightarrow> hive \<Rightarrow> reg_view \<Rightarrow> key_walk \<Rightarrow> key_walk" where
  "key_next api p h v st =
     (case kw_stack st of [] \<Rightarrow> st | k # rest \<Rightarrow> walk_key api p h v k (st\<lparr>kw_stack := rest\<rparr>))"

lemma key_next_step:
  assumes "kw_stack st = k # ks"
  shows "mset (kw_stack (key_next api p h v st)) = mset ks + mset (keys_below api h v k)"
    and "keys_so_far (key_next api p h v st) = keys_so_far st \<union> walked_key_at api p h v k"
proof -
  obtain display path where k: "k = (display, path)" by fastforce
  show "mset (kw_stack (key_next api p h v st)) = mset ks + mset (keys_below api h v k)"
  proof (cases "ra_open api h (to_wide path) v")
    case (Inl e)
    then show ?thesis
      using assms walk_key_unopened [OF Inl, of p display "st\<lparr>kw_stack := ks\<rparr>"]
      by (simp add: key_next_def k keys_below_def children_named_def key_opens_def)
  next
    case (Inr key)
    then show ?thesis using assms walk_key_opened(1) [OF Inr] by (simp add: key_next_def k)
  qed
  show "keys_so_far (key_next api p h v st) = keys_so_far st \<union> walked_key_at api p h v k"
  proof (cases "ra_open api h (to_wide path) v")
    case (Inl e)
    then show ?thesis
      using assms walk_key_unopened [OF Inl, of p display "st\<lparr>kw_stack := ks\<rparr>"]
      by (auto simp: key_next_def k keys_so_far_def walked_key_at_def record_at_def key_opens_def holders_at_def)
  next
    case (Inr key)
    then show ?thesis
      using assms walk_key_opened(2-4) [OF Inr, of p display "st\<lparr>kw_stack := ks\<rparr>"]
      by (auto simp: key_next_def k keys_so_far_def walked_key_at_def key_opens_def)
  qed
qed

interpretation key_walking:
  worklist kw_stack "key_next api p h v" "key_loop api p h v" "keys_below api h v" keys_so_far "walked_key_at api p h v"
  for api p h v
  by unfold_locales (erule key_next_step | simp add: key_loop.simps [of api p h v] key_next_def)+

lemma key_loop_sees:
  assumes "no_endless_descent (keys_below api h v)" and "kw_stack st = [root]"
  obtains st' :: key_walk where "key_loop api p h v st = Some st'"
    and "set (kw_keys st') = set (kw_keys st) \<union> (\<Union>k \<in> key_tree api h v root. set (record_at api p h v k))"
    and "set (kw_read st') = set (kw_read st) \<union> {fst k |k. k \<in> key_tree api h v root \<and> key_opens api h v k \<noteq> None}"
    and "set (kw_holding st') = set (kw_holding st) \<union> (\<Union>k \<in> key_tree api h v root. holders_at api p h v k)"
proof -
  obtain st' where st': "key_loop api p h v st = Some st'"
    and "keys_so_far st' = keys_so_far st \<union> (\<Union>k \<in> key_tree api h v root. walked_key_at api p h v k)"
    using key_walking.loop_sees [OF assms(1), of p st] unfolding assms(2) by blast
  then have mem: "x \<in> keys_so_far st' \<longleftrightarrow>
      x \<in> keys_so_far st \<or> (\<exists>k \<in> key_tree api h v root. x \<in> walked_key_at api p h v k)" for x
    by simp
  have "x \<in> set (kw_keys st') \<longleftrightarrow>
      x \<in> set (kw_keys st) \<or> (\<exists>k \<in> key_tree api h v root. x \<in> set (record_at api p h v k))" for x
    using mem [of "AKey x"] by simp
  moreover have "q \<in> set (kw_read st') \<longleftrightarrow> q \<in> set (kw_read st)
      \<or> (\<exists>k \<in> key_tree api h v root. q = fst k \<and> key_opens api h v k \<noteq> None)" for q
    using mem [of "AReadKey q"] by simp
  moreover have "q \<in> set (kw_holding st') \<longleftrightarrow>
      q \<in> set (kw_holding st) \<or> (\<exists>k \<in> key_tree api h v root. q \<in> holders_at api p h v k)" for q
    using mem [of "AHoldingKey q"] by simp
  ultimately show ?thesis by (intro that [OF st']) (auto simp: set_eq_iff)
qed

text \<open>In the tree of a root the name shown decides the path, and nothing is excluded.\<close>

lemma key_tree_member:
  assumes "k \<in> key_tree api h v root" and "fst root = name @ backslash # snd root"
    and "\<not> is_excluded_key (fst root)"
  shows "fst k = name @ backslash # snd k \<and> \<not> is_excluded_key (fst k)"
proof -
  have "(root, k) \<in> (descents (keys_below api h v))\<^sup>*" using assms(1) by (simp add: reachable_below_def)
  then show ?thesis
  proof (induction rule: rtrancl_induct)
    case base
    then show ?case using assms by simp
  next
    case (step k c)
    then show ?case by (auto simp: descents_def keys_below_def not_looked_inside_def)
  qed
qed

section \<open>All roots\<close>

definition bounded_keys :: "'h registry_api \<Rightarrow> bool" where
  "bounded_keys api \<longleftrightarrow> (\<forall>(h, v, root) \<in> set registry_walks. no_endless_descent (keys_below api h v))"

lemma registry_walks_roots:
  assumes "(h, v, root) \<in> set registry_walks"
  shows "\<exists>name. fst root = name @ backslash # snd root" and "\<not> is_excluded_key (fst root)"
proof -
  have "list_all (\<lambda>(h, v, root). \<not> is_excluded_key (fst root)) registry_walks" by code_simp
  with assms show "\<not> is_excluded_key (fst root)" by (auto simp: list_all_iff)
  show "\<exists>name. fst root = name @ backslash # snd root"
    using assms by (auto simp: registry_walks_def)
qed

definition empty_in :: "'h registry_api \<Rightarrow> policy \<Rightarrow> hive \<times> reg_view \<times> string \<times> string \<Rightarrow> reg_key_ref \<Rightarrow> bool" where
  "empty_in api p = (\<lambda>(h, v, root) kr.
     kr_view kr = view_name v
     \<and> (\<exists>k \<in> key_tree api h v root. fst k = kr_key kr \<and> key_opens api h v k \<noteq> None)
     \<and> (\<forall>k \<in> key_tree api h v root. \<forall>holder \<in> holders_at api p h v k.
          (holder, kr_key kr) \<notin> (parents key_parent)\<^sup>*))"

lemma walk_tree_sees:
  assumes "no_endless_descent (keys_below api h v)" and "\<not> is_excluded_key (fst root)"
  obtains found' :: registry_found where "walk_tree api p h v root found = Some found'"
    and "set (yf_keys found') = set (yf_keys found) \<union> (\<Union>k \<in> key_tree api h v root. set (record_at api p h v k))"
    and "\<And>kr. kr \<in> set (yf_empty found') \<Longrightarrow> kr \<in> set (yf_empty found) \<or> empty_in api p (h, v, root) kr"
proof -
  let ?start = "\<lparr>kw_stack = [root], kw_keys = yf_keys found, kw_denied = yf_denied found, kw_read = [],
    kw_holding = []\<rparr>"
  obtain st :: key_walk where st: "key_loop api p h v ?start = Some st"
    and keys: "set (kw_keys st) = set (yf_keys found) \<union> (\<Union>k \<in> key_tree api h v root. set (record_at api p h v k))"
    and read: "set (kw_read st) = {fst k |k. k \<in> key_tree api h v root \<and> key_opens api h v k \<noteq> None}"
    and held: "set (kw_holding st) = (\<Union>k \<in> key_tree api h v root. holders_at api p h v k)"
    by (rule key_loop_sees [OF assms(1), where st = ?start and root = root and p = p]) auto
  have "empty_in api p (h, v, root) \<lparr>kr_key = key, kr_view = view_name v\<rparr>"
    if "key \<in> set (topmost_empty (kw_read st) (kw_holding st))" for key
  proof -
    have "key \<in> set (kw_read st)" "\<not> holds_below key_parent (kw_holding st) key"
      using that unfolding topmost_empty_def registry_keys.topmost_iff by simp_all
    then obtain k where "k \<in> key_tree api h v root" "fst k = key" "key_opens api h v k \<noteq> None"
      and "\<forall>k \<in> key_tree api h v root. \<forall>holder \<in> holders_at api p h v k. (holder, key) \<notin> (parents key_parent)\<^sup>*"
      unfolding read by (auto simp: holds_below_def held)
    then show ?thesis unfolding empty_in_def prod.case reg_key_ref.simps by blast
  qed
  with st keys assms(2) show ?thesis by (intro that) (auto simp: walk_tree_def)
qed

lemma walks_see:
  assumes "\<forall>(h, v, root) \<in> set ws. no_endless_descent (keys_below api h v) \<and> \<not> is_excluded_key (fst root)"
  shows "\<exists>found'. fold (\<lambda>(h, v, root) found. Option.bind found (walk_tree api p h v root)) ws (Some found) = Some found'
     \<and> set (yf_keys found') = set (yf_keys found)
         \<union> (\<Union>(h, v, root) \<in> set ws. \<Union>k \<in> key_tree api h v root. set (record_at api p h v k))
     \<and> (\<forall>kr \<in> set (yf_empty found'). kr \<in> set (yf_empty found) \<or> (\<exists>w \<in> set ws. empty_in api p w kr))"
  using assms
proof (induction ws arbitrary: found)
  case (Cons w ws)
  obtain h v root where w: "w = (h, v, root)" by (cases w)
  with Cons.prems have this_walk: "no_endless_descent (keys_below api h v)" "\<not> is_excluded_key (fst root)" by auto
  obtain found1 :: registry_found where found1: "walk_tree api p h v root found = Some found1"
    and keys: "set (yf_keys found1) = set (yf_keys found) \<union> (\<Union>k \<in> key_tree api h v root. set (record_at api p h v k))"
    and empties: "\<And>kr. kr \<in> set (yf_empty found1) \<Longrightarrow> kr \<in> set (yf_empty found) \<or> empty_in api p (h, v, root) kr"
    by (rule walk_tree_sees [OF this_walk, where p = p and found = found]) blast
  from Cons.prems obtain found' where
    "fold (\<lambda>(h, v, root) found. Option.bind found (walk_tree api p h v root)) ws (Some found1) = Some found'"
    "set (yf_keys found') = set (yf_keys found1)
       \<union> (\<Union>(h, v, root) \<in> set ws. \<Union>k \<in> key_tree api h v root. set (record_at api p h v k))"
    "\<forall>kr \<in> set (yf_empty found'). kr \<in> set (yf_empty found1) \<or> (\<exists>w \<in> set ws. empty_in api p w kr)"
    using Cons.IH [of found1] by auto
  moreover from this(3) empties have
    "\<forall>kr \<in> set (yf_empty found'). kr \<in> set (yf_empty found) \<or> (\<exists>w \<in> set (w # ws). empty_in api p w kr)"
    unfolding w by (meson list.set_intros)
  ultimately show ?case using found1 keys by (intro exI [of _ found'] conjI) (simp_all add: w Un_assoc)
qed simp

lemma registry_sees:
  assumes "bounded_keys api"
  obtains c where "registry api = Some c"
    and "set (cy_keys c) =
      (\<Union>(h, v, root) \<in> set registry_walks. \<Union>k \<in> key_tree api h v root. set (record_at api current_policy h v k))"
    and "\<forall>kr \<in> set (cy_empty_keys c). \<exists>w \<in> set registry_walks. empty_in api current_policy w kr"
proof -
  have "\<forall>(h, v, root) \<in> set registry_walks. no_endless_descent (keys_below api h v) \<and> \<not> is_excluded_key (fst root)"
    using assms registry_walks_roots(2) by (fastforce simp: bounded_keys_def)
  from walks_see [OF this, of current_policy "\<lparr>yf_keys = [], yf_denied = [], yf_empty = []\<rparr>"]
  obtain found where "fold (\<lambda>(h, v, root) found. Option.bind found (walk_tree api current_policy h v root))
      registry_walks (Some \<lparr>yf_keys = [], yf_denied = [], yf_empty = []\<rparr>) = Some found"
    "set (yf_keys found) =
      (\<Union>(h, v, root) \<in> set registry_walks. \<Union>k \<in> key_tree api h v root. set (record_at api current_policy h v k))"
    "\<forall>kr \<in> set (yf_empty found). \<exists>w \<in> set registry_walks. empty_in api current_policy w kr"
    by auto
  then show ?thesis
    by (intro that [of "\<lparr>cy_keys = sort_key (\<lambda>r. (rr_key r, rr_view r)) (yf_keys found),
        cy_access_denied = sort_key ad_item (yf_denied found),
        cy_empty_keys = sort_key (\<lambda>k. (kr_key k, kr_view k)) (yf_empty found),
        cy_policy = registry_policy_now\<rparr>"])
      (simp_all add: registry_def)
qed

section \<open>Nothing the policy refuses\<close>

lemma record_at_clean:
  "r \<in> set (record_at api p h v k) \<Longrightarrow> rr_key r = fst k \<and> rr_values r \<noteq> [] \<and> list_all (clean_value p) (rr_values r)"
proof -
  assume r: "r \<in> set (record_at api p h v k)"
  then obtain key where key: "key_opens api h v k = Some key"
    by (cases "key_opens api h v k") (auto simp: record_at_def)
  have "rr_values r \<noteq> []" "rr_key r = fst k"
    using r by (auto simp: record_at_read [OF key] split: list.splits)
  moreover have "list_all (clean_value p) (rr_values r)"
    using r by (auto simp: record_at_def key Let_def list_all_iff clean_value_def split: if_splits)
  ultimately show ?thesis by blast
qed

text \<open>Nothing in the tree of a root is excluded, so no record and no empty key is.\<close>

lemma key_tree_not_excluded:
  assumes "(h, v, root) \<in> set registry_walks" and "k \<in> key_tree api h v root"
  shows "\<not> is_excluded_key (fst k)"
proof -
  obtain name where "fst root = name @ backslash # snd root" using registry_walks_roots(1) [OF assms(1)] by blast
  then show ?thesis using key_tree_member [OF assms(2) _ registry_walks_roots(2) [OF assms(1)]] by blast
qed

lemma recorded_keys_clean:
  assumes "bounded_keys api" and "registry api = Some c" and "r \<in> set (cy_keys c)"
  shows "rr_values r \<noteq> [] \<and> clean_record current_policy r"
proof -
  obtain h v root k where w: "(h, v, root) \<in> set registry_walks" "k \<in> key_tree api h v root"
    and r: "r \<in> set (record_at api current_policy h v k)"
    by (rule registry_sees [OF assms(1)]) (use assms(2,3) in auto)
  with record_at_clean [OF r] key_tree_not_excluded [OF w] show ?thesis by (simp add: clean_record_def)
qed

lemma empty_keys_not_excluded:
  assumes "bounded_keys api" and "registry api = Some c" and "kr \<in> set (cy_empty_keys c)"
  shows "\<not> is_excluded_key (kr_key kr)"
proof -
  obtain w where w: "w \<in> set registry_walks" "empty_in api current_policy w kr"
    by (rule registry_sees [OF assms(1)]) (use assms(2,3) in auto)
  obtain h v root where "w = (h, v, root)" by (cases w)
  with w obtain k where "(h, v, root) \<in> set registry_walks" "k \<in> key_tree api h v root" "fst k = kr_key kr"
    by (auto simp: empty_in_def)
  with key_tree_not_excluded show ?thesis by metis
qed

text \<open>
  C35. When keys do not nest without end the walk of the registry returns.  Its records are, for
  each root in each view, those of the keys reached from it, through children the code looks
  inside, that opened and of which some value was told that the policy does not refuse, each with
  exactly these values by name; and the policy with which snapshots are compared admits every
  record as it is.  A value too large whose size cannot be asked is not told.
\<close>

theorem registry_records_admitted:
  assumes "bounded_keys api"
  shows "\<exists>c. registry api = Some c
     \<and> set (cy_keys c) = (\<Union>(h, v, root) \<in> set registry_walks. \<Union>k \<in> key_tree api h v root.
          set (record_at api current_policy h v k))
     \<and> (\<forall>r \<in> set (cy_keys c). rr_values r \<noteq> [] \<and> am_record (admit current_policy r) = Some (Borrowed r))"
  by (rule registry_sees [OF assms]) (use recorded_keys_clean [OF assms] in \<open>auto simp: admit_Borrowed\<close>)

text \<open>
  C36. A key is reported as empty in a view only if, in the walk of one root in that view, it
  and every key reached below it was opened, its values and its children were listed to the end,
  no value of it was told, kept or refused, and no child was left out.  A value too large whose size
  cannot be asked is not told, and so not seen here.
\<close>

theorem empty_keys_are_silent:
  assumes "bounded_keys api" and "registry api = Some c" and "kr \<in> set (cy_empty_keys c)"
  shows "\<exists>(h, v, root) \<in> set registry_walks. kr_view kr = view_name v
     \<and> (\<exists>k \<in> key_tree api h v root. fst k = kr_key kr)
     \<and> (\<forall>k \<in> key_tree api h v root. (fst k, kr_key kr) \<in> (parents key_parent)\<^sup>* \<longrightarrow>
          key_silent api current_policy h v k)"
proof -
  obtain h v root where w: "(h, v, root) \<in> set registry_walks" and e: "empty_in api current_policy (h, v, root) kr"
  proof -
    obtain c' where "registry api = Some c'"
      and "\<forall>kr \<in> set (cy_empty_keys c'). \<exists>w \<in> set registry_walks. empty_in api current_policy w kr"
      by (rule registry_sees [OF assms(1)]) (rule that)
    with assms(2,3) show ?thesis by (metis option.inject prod_cases3 that)
  qed
  obtain name where root: "fst root = name @ backslash # snd root" using registry_walks_roots(1) [OF w] by blast
  from e obtain k0 where k0: "k0 \<in> key_tree api h v root" "fst k0 = kr_key kr" "key_opens api h v k0 \<noteq> None"
    by (auto simp: empty_in_def)
  have display: "fst k = name @ backslash # snd k" if "k \<in> key_tree api h v root" for k
    using key_tree_member [OF that root registry_walks_roots(2) [OF w]] by blast
  from e have free: "(holder, kr_key kr) \<notin> (parents key_parent)\<^sup>*"
    if "k \<in> key_tree api h v root" "holder \<in> holders_at api current_policy h v k" for k holder
    using that by (auto simp: empty_in_def)
  have "key_silent api current_policy h v k"
    if k: "k \<in> key_tree api h v root" and below: "(fst k, kr_key kr) \<in> (parents key_parent)\<^sup>*" for k
  proof (cases "key_opens api h v k")
    case (Some key)
    with free [OF k, of "fst k"] below show ?thesis
      by (cases "key_silent api current_policy h v k") (simp_all add: holders_at_def)
  next
    case None
    have "fst k \<noteq> kr_key kr"
    proof
      assume "fst k = kr_key kr"
      with k0(2) display [OF k] display [OF k0(1)] have "k = k0" by (simp add: prod_eq_iff)
      with None k0(3) show False by simp
    qed
    with below obtain parent where "key_parent (fst k) = Some parent" "(parent, kr_key kr) \<in> (parents key_parent)\<^sup>*"
      by (auto simp: parents_def elim: converse_rtranclE)
    with free [OF k, of parent] None show ?thesis by (simp add: holders_at_def)
  qed
  moreover have "kr_view kr = view_name v" using e by (simp add: empty_in_def)
  ultimately show ?thesis using k0 by (intro bexI [OF _ w]) auto
qed

section \<open>A registry\<close>

text \<open>Every root opens, has no subkeys and answers the same when its values are enumerated.\<close>

definition sample_registry :: "value_answer list \<Rightarrow> unit registry_api" where
  "sample_registry answers =
     \<lparr>ra_open = (\<lambda>_ _ _. Inr ()), ra_values = (\<lambda>_. (answers, error_no_more_items)),
      ra_children = (\<lambda>_. ([], error_no_more_items))\<rparr>"

lemma sample_keys_below: "keys_below (sample_registry answers) h v k = []"
  by (simp add: keys_below_def children_named_def key_opens_def child_names_def sample_registry_def)

lemma sample_bounded_keys: "bounded_keys (sample_registry answers)"
  by (auto simp: bounded_keys_def sample_keys_below intro!: no_endless_descentI)

lemma sample_key_tree: "key_tree (sample_registry answers) h v root = {root}"
proof -
  have "descents (keys_below (sample_registry answers) h v) = {}" by (simp add: descents_def sample_keys_below)
  then show ?thesis by (simp add: reachable_below_def)
qed

definition sample_answers :: "value_answer list" where
  "sample_answers = [ValueRead [] 4 [CHR 0x07, CHR 0x00, CHR 0x00, CHR 0x00]]"

lemma sample_values:
  "read_values (sample_registry sample_answers) current_policy ()
   = ([\<lparr>rv_name = [], rv_kind = ''dword'', rv_data = ''7'', rv_oversized_bytes = None\<rparr>], [], None)"
proof -
  have "value_name [] = []" by code_simp
  moreover have "render_value 4 (take max_value_bytes [CHR 0x07, CHR 0x00, CHR 0x00, CHR 0x00]) = ''7''" by code_simp
  moreover have "refusal_of current_policy [] ''7'' = None" by code_simp
  moreover have "value_kind_name 4 = ''dword''" by code_simp
  ultimately show ?thesis
    by (simp add: read_values_def sample_registry_def sample_answers_def judge_value_def stopped_early_def
        del: take_Suc_Cons)
qed
theorem registry_records_admitted_witness:
  "\<exists>c. registry (sample_registry sample_answers) = Some c \<and> (\<exists>r \<in> set (cy_keys c).
     map rv_data (rr_values r) = [''7''] \<and> am_record (admit current_policy r) = Some (Borrowed r))"
proof -
  let ?root = "(win ''HKCU/SOFTWARE'', ''SOFTWARE'')"
  have walk: "(Hkcu, View64, ?root) \<in> set registry_walks" by code_simp
  have opens: "key_opens (sample_registry sample_answers) Hkcu View64 ?root = Some ()"
    by (simp add: key_opens_def sample_registry_def)
  obtain r where r: "r \<in> set (record_at (sample_registry sample_answers) current_policy Hkcu View64 ?root)"
      and "map rv_data (rr_values r) = [''7'']"
    by (simp add: record_at_read [OF opens] sample_values)
  moreover obtain c where "registry (sample_registry sample_answers) = Some c"
    and found: "set (cy_keys c) = (\<Union>(h, v, root) \<in> set registry_walks. \<Union>k \<in> key_tree (sample_registry sample_answers) h v root.
          set (record_at (sample_registry sample_answers) current_policy h v k))"
    and admitted: "\<forall>r \<in> set (cy_keys c). rr_values r \<noteq> [] \<and> am_record (admit current_policy r) = Some (Borrowed r)"
    using registry_records_admitted [OF sample_bounded_keys, of sample_answers] by (elim exE conjE) (rule that)
  moreover have "r \<in> set (cy_keys c)" unfolding found sample_key_tree using r walk by auto
  moreover from this have "am_record (admit current_policy r) = Some (Borrowed r)" using admitted by simp
  ultimately show ?thesis by (intro exI [of _ c] conjI bexI [of _ r])
qed

text \<open>
  What the walk makes of a key in which it finds nothing: it is empty.  A value that is too large
  and then cannot be asked for its size is not found, and says nothing anywhere.
\<close>

lemma sample_walk_tree:
  assumes "read_values (sample_registry answers) p () = ([], [], None)" and "\<not> is_excluded_key (fst root)"
  shows "walk_tree (sample_registry answers) p h v root found =
    Some (found\<lparr>yf_empty := yf_empty found @ [\<lparr>kr_key = fst root, kr_view = view_name v\<rparr>]\<rparr>)"
proof -
  have "topmost_empty [fst root] [] = [fst root]"
    using key_parent_shorter [of "fst root"] by (auto simp: topmost_empty_def topmost_def split: option.split)
  then show ?thesis
    using assms
    by (cases root) (simp add: walk_tree_def key_loop.simps walk_key_def child_names_def stopped_early_def
        value_denials_def sample_registry_def Let_def)
qed

lemma sample_empty_keys:
  assumes "read_values (sample_registry answers) current_policy () = ([], [], None)"
  shows "\<exists>c. registry (sample_registry answers) = Some c \<and> cy_keys c = [] \<and> cy_access_denied c = []
     \<and> \<lparr>kr_key = win ''HKCU/SOFTWARE'', kr_view = ''64''\<rparr> \<in> set (cy_empty_keys c)"
proof -
  have "list_all (\<lambda>(h, v, root). \<not> is_excluded_key (fst root)) registry_walks" by code_simp
  then show ?thesis
    by (simp add: registry_def registry_walks_def registry_roots_def sample_walk_tree [OF assms] view_name_def win_def)
qed

lemma large_value_lost:
  "\<exists>c. registry (sample_registry [ValueTooLarge error_access_denied [] 3 0]) = Some c \<and> cy_keys c = []
     \<and> cy_access_denied c = []
     \<and> \<lparr>kr_key = win ''HKCU/SOFTWARE'', kr_view = ''64''\<rparr> \<in> set (cy_empty_keys c)"
  by (rule sample_empty_keys)
    (simp add: read_values_def sample_registry_def judge_value_def error_access_denied_def error_success_def
      stopped_early_def)

theorem empty_keys_are_silent_witness:
  "\<exists>(h, v, root) \<in> set registry_walks. v = View64
     \<and> (\<exists>k \<in> key_tree (sample_registry []) h v root. fst k = win ''HKCU/SOFTWARE'')"
proof -
  obtain c where "registry (sample_registry []) = Some c"
      "\<lparr>kr_key = win ''HKCU/SOFTWARE'', kr_view = ''64''\<rparr> \<in> set (cy_empty_keys c)"
    using sample_empty_keys [of "[]"] by (auto simp: read_values_def sample_registry_def stopped_early_def)
  from empty_keys_are_silent [OF sample_bounded_keys this] show ?thesis
  proof (rule bexE)
    fix w assume "w \<in> set registry_walks" and "case w of (h, v, root) \<Rightarrow>
      kr_view \<lparr>kr_key = win ''HKCU/SOFTWARE'', kr_view = ''64''\<rparr> = view_name v
      \<and> (\<exists>k \<in> key_tree (sample_registry []) h v root.
            fst k = kr_key \<lparr>kr_key = win ''HKCU/SOFTWARE'', kr_view = ''64''\<rparr>)
      \<and> (\<forall>k \<in> key_tree (sample_registry []) h v root.
            (fst k, kr_key \<lparr>kr_key = win ''HKCU/SOFTWARE'', kr_view = ''64''\<rparr>) \<in> (parents key_parent)\<^sup>* \<longrightarrow>
            key_silent (sample_registry []) current_policy h v k)"
    then show ?thesis by (intro bexI [of _ w]) (auto simp: view_name_def split: reg_view.splits)
  qed
qed

end
