(* ===== verification/Obs_Services_Props.thy ===== *)
theory Obs_Services_Props
  imports Obs_Services
begin

text \<open>
  What the list of services accounts for, and that the name of a service's type keeps every bit
  of it.
\<close>

section \<open>Names of types\<close>

lemma hex_digits_of_length [simp]: "length (hex_digits_of k n) = k"
  by (induction k arbitrary: n) simp_all

lemma hex_digit_inject:
  assumes "a < 16" and "b < 16" and "''0123456789abcdef'' ! a = ''0123456789abcdef'' ! b"
  shows "a = b"
proof -
  have "distinct ''0123456789abcdef''" by simp
  from nth_eq_iff_index_eq [OF this, of a b] assms(1,2) have
    "''0123456789abcdef'' ! a = ''0123456789abcdef'' ! b \<longleftrightarrow> a = b" by (simp only: list.size)
  with assms(3) show ?thesis by iprover
qed

lemma hex_digits_of_inject: "hex_digits_of k m = hex_digits_of k n \<Longrightarrow> m mod 16 ^ k = n mod 16 ^ k"
proof (induction k arbitrary: m n)
  case (Suc k)
  then have "hex_digits_of k (m div 16) = hex_digits_of k (n div 16)"
    and digit: "''0123456789abcdef'' ! (m mod 16) = ''0123456789abcdef'' ! (n mod 16)"
    by (simp_all only: hex_digits_of.simps append1_eq_conv)
  then have "m div 16 mod 16 ^ k = n div 16 mod 16 ^ k" by (intro Suc.IH)
  moreover have "m mod 16 = n mod 16" by (rule hex_digit_inject [OF _ _ digit]) simp_all
  ultimately show ?case by (simp only: power_Suc mod_mult2_eq)
qed simp

lemma hex_word_inject:
  fixes a b :: "32 word"
  assumes "hex_digits_of 8 (unat a) = hex_digits_of 8 (unat b)"
  shows "a = b"
proof -
  have small: "unat w < 16 ^ 8" for w :: "32 word" using unsigned_less [of w] by simp
  show ?thesis using hex_digits_of_inject [OF assms] small [of a] small [of b] by (simp add: word_unat_eq_iff)
qed

lemma flag_bit: "(flags :: 32 word) AND 2 ^ n \<noteq> 0 \<longleftrightarrow> bit flags n"
  by (simp add: and_exp_eq_0_iff_not_bit)

lemma flag_bits:
  fixes flags :: "32 word"
  shows "flags AND 1 \<noteq> 0 \<longleftrightarrow> bit flags 0" "flags AND 2 \<noteq> 0 \<longleftrightarrow> bit flags 1"
    "flags AND 4 \<noteq> 0 \<longleftrightarrow> bit flags 2" "flags AND 8 \<noteq> 0 \<longleftrightarrow> bit flags 3"
    "flags AND 16 \<noteq> 0 \<longleftrightarrow> bit flags 4" "flags AND 32 \<noteq> 0 \<longleftrightarrow> bit flags 5"
    "flags AND 64 \<noteq> 0 \<longleftrightarrow> bit flags 6" "flags AND 128 \<noteq> 0 \<longleftrightarrow> bit flags 7"
    "flags AND 256 \<noteq> 0 \<longleftrightarrow> bit flags 8" "flags AND 512 \<noteq> 0 \<longleftrightarrow> bit flags 9"
  using flag_bit [of flags 0] flag_bit [of flags 1] flag_bit [of flags 2] flag_bit [of flags 3]
    flag_bit [of flags 4] flag_bit [of flags 5] flag_bit [of flags 6] flag_bit [of flags 7]
    flag_bit [of flags 8] flag_bit [of flags 9]
  by simp_all

definition named_flags :: "32 word \<Rightarrow> string list" where
  "named_flags flags = map snd (filter (\<lambda>(flag, _). flags AND flag \<noteq> 0) service_type_names)"

lemma named_flags_iff:
  "t \<in> set (named_flags flags) \<longleftrightarrow> (\<exists>(flag, u) \<in> set service_type_names. u = t \<and> flags AND flag \<noteq> 0)"
  by (force simp: named_flags_def)

lemma named_flags_tests:
  "''kernel_driver'' \<in> set (named_flags flags) \<longleftrightarrow> bit flags 0"
  "''file_system_driver'' \<in> set (named_flags flags) \<longleftrightarrow> bit flags 1"
  "''adapter'' \<in> set (named_flags flags) \<longleftrightarrow> bit flags 2"
  "''recognizer_driver'' \<in> set (named_flags flags) \<longleftrightarrow> bit flags 3"
  "''win32_own_process'' \<in> set (named_flags flags) \<longleftrightarrow> bit flags 4"
  "''win32_share_process'' \<in> set (named_flags flags) \<longleftrightarrow> bit flags 5"
  "''user_service'' \<in> set (named_flags flags) \<longleftrightarrow> bit flags 6"
  "''user_service_instance'' \<in> set (named_flags flags) \<longleftrightarrow> bit flags 7"
  "''interactive_process'' \<in> set (named_flags flags) \<longleftrightarrow> bit flags 8"
  "''package_service'' \<in> set (named_flags flags) \<longleftrightarrow> bit flags 9"
  by (simp_all add: named_flags_iff service_type_names_def flag_bits)

lemma service_type_parts_alt:
  "service_type_parts flags =
     named_flags flags
     @ (if unnamed_flags flags \<noteq> 0 \<or> named_flags flags = []
        then [''unknown(0x'' @ hex_digits_of 8 (unat (unnamed_flags flags)) @ '')''] else [])"
  by (simp add: service_type_parts_def named_flags_def Let_def)

lemma named_flags_are_named: "t \<in> set (named_flags flags) \<Longrightarrow> t \<in> snd ` set service_type_names"
  by (force simp: named_flags_def)

lemma unknown_is_not_named: "''unknown(0x'' @ rest \<notin> set (named_flags flags)"
proof
  assume "''unknown(0x'' @ rest \<in> set (named_flags flags)"
  then have "''unknown(0x'' @ rest \<in> snd ` set service_type_names" by (rule named_flags_are_named)
  then show False by (simp add: service_type_names_def)
qed

text \<open>The named part of a list of parts is what it has in common with the table.\<close>

lemma named_part:
  "filter (\<lambda>t. t \<in> snd ` set service_type_names) (service_type_parts flags) = named_flags flags"
proof -
  have "filter (\<lambda>t. t \<in> snd ` set service_type_names) (named_flags flags) = named_flags flags"
    by (simp add: filter_id_conv named_flags_are_named)
  moreover have "''unknown(0x'' @ rest \<notin> snd ` set service_type_names" for rest
    by (simp add: service_type_names_def)
  ultimately show ?thesis by (simp add: service_type_parts_alt)
qed

lemma unnamed_bit: "bit (unnamed_flags flags) n \<longleftrightarrow> bit flags n \<and> 10 \<le> n"
proof -
  have "unnamed_flags flags = flags AND NOT (mask 10)"
    by (simp add: unnamed_flags_def service_type_names_def mask_eq_exp_minus_1 ac_simps flip: bit.de_Morgan_disj)
  then show ?thesis by (auto simp: bit_simps dest: bit_imp_le_length)
qed

lemma parts_inject:
  assumes "service_type_parts a = service_type_parts b"
  shows "a = b"
proof (rule bit_word_eqI)
  fix n :: nat
  assume "n < LENGTH(32)"
  have named: "named_flags a = named_flags b"
    using arg_cong [OF assms, of "filter (\<lambda>t. t \<in> snd ` set service_type_names)"] unfolding named_part .
  let ?hex = "\<lambda>flags. hex_digits_of 8 (unat (unnamed_flags flags))"
  let ?rest = "\<lambda>flags. if unnamed_flags flags \<noteq> 0 \<or> named_flags b = [] then [''unknown(0x'' @ ?hex flags @ '')''] else []"
  from assms have "?rest a = ?rest b" unfolding service_type_parts_alt named by (rule append_eq_append_conv [THEN iffD1, THEN conjunct2, rotated]) simp
  then have "unnamed_flags a = 0 \<and> unnamed_flags b = 0 \<or> ?hex a = ?hex b"
    by (cases "unnamed_flags a = 0"; cases "unnamed_flags b = 0"; cases "named_flags b = []") (simp_all del: hex_digits_of.simps)
  then have "unnamed_flags a = unnamed_flags b" by (elim disjE conjE) (erule ssubst, erule sym, erule hex_word_inject)
  then have high: "10 \<le> n \<Longrightarrow> bit a n = bit b n" using unnamed_bit [of a n] unnamed_bit [of b n] by simp
  have low: "bit a n = bit b n" if "n < 10"
  proof -
    from that have "n = 0 \<or> n = 1 \<or> n = 2 \<or> n = 3 \<or> n = 4 \<or> n = 5 \<or> n = 6 \<or> n = 7 \<or> n = 8 \<or> n = 9"
      by presburger
    then show ?thesis
      using named_flags_tests [of a, unfolded named] named_flags_tests [of b] by (elim disjE) simp_all
  qed
  from high low show "bit a n = bit b n" by (cases "n < 10") simp_all
qed

text \<open>No part has a bar in it.\<close>

lemma hex_digits_of_no_bar: "CHR ''|'' \<notin> set (hex_digits_of k n)"
proof (induction k arbitrary: n)
  case (Suc k)
  have "set ''0123456789abcdef'' \<inter> {CHR ''|''} = {}" by simp
  moreover have "''0123456789abcdef'' ! (n mod 16) \<in> set ''0123456789abcdef''" by (intro nth_mem) simp
  ultimately have "''0123456789abcdef'' ! (n mod 16) \<noteq> CHR ''|''" by blast
  with Suc show ?case by simp
qed simp

lemma part_no_bar: "t \<in> set (service_type_parts flags) \<Longrightarrow> CHR ''|'' \<notin> set t"
proof -
  have "list_all (\<lambda>u. CHR ''|'' \<notin> set u) (map snd service_type_names)" by (simp add: service_type_names_def)
  then have "CHR ''|'' \<notin> set u" if "u \<in> snd ` set service_type_names" for u
    using that by (auto simp: list_all_iff)
  moreover assume "t \<in> set (service_type_parts flags)"
  ultimately show ?thesis
    using named_flags_are_named [of t flags] by (auto simp: service_type_parts_alt hex_digits_of_no_bar split: if_splits)
qed

lemma join_with_concat: "join_with [d] (t # ts) = t @ concat (map (\<lambda>u. d # u) ts)"
  by (induction ts arbitrary: t) simp_all

lemma split_service_type_name: "split_char (CHR ''|'') (service_type_name flags) = service_type_parts flags"
proof -
  obtain t ts where parts: "service_type_parts flags = t # ts"
    by (cases "service_type_parts flags") (auto simp: service_type_parts_alt split: if_splits)
  then have "\<forall>u \<in> set (t # ts). CHR ''|'' \<notin> set u" using part_no_bar [of _ flags] by simp
  then show ?thesis unfolding service_type_name_def parts join_with_concat by (rule split_char_join)
qed

text \<open>
  C27. The name written for the type of a service says all of it: two types of 32 bits with the
  same name are the same, so no flag is dropped, not even one without a name of its own.
\<close>

theorem service_type_name_injective: "service_type_name a = service_type_name b \<longleftrightarrow> a = b"
  using split_service_type_name [of a] split_service_type_name [of b] by (auto intro: parts_inject)

section \<open>What the list accounts for\<close>

text \<open>The answers a list is read from: up to the first that is not cut off.\<close>

fun list_reads :: "'h service_api \<Rightarrow> 'h \<Rightarrow> nat \<Rightarrow> nat \<Rightarrow> 32 word \<Rightarrow> nat \<Rightarrow> list_answer list" where
  "list_reads api manager 0 call resume capacity = []"
| "list_reads api manager (Suc left) call resume capacity =
     (let answer = sm_list api manager call resume (aligned_bytes capacity)
      in answer
         # (case la_error answer of
              Some e \<Rightarrow>
                if error_code_is error_more_data e
                then list_reads api manager left (Suc call) (la_resume answer)
                       (max capacity (unat (la_needed answer)))
                else []
            | None \<Rightarrow> []))"

definition list_answers :: "'h service_api \<Rightarrow> 'h \<Rightarrow> list_answer list" where
  "list_answers api manager =
     (let needed = snd (sm_probe api manager)
      in if needed = 0 then [] else list_reads api manager max_calls 0 0 (unat needed))"

definition told_entries :: "list_answer list \<Rightarrow> service_entry list" where
  "told_entries answers = concat (map entries_of answers)"

definition once_each :: "service_entry list \<Rightarrow> service_entry list" where
  "once_each found = dedup_by_key (\<lambda>e. to_ascii_lowercase (fst e)) (sort_key fst found)"

definition read_whole :: "list_answer list \<Rightarrow> bool" where
  "read_whole answers \<longleftrightarrow> answers = [] \<or> la_error (last answers) = None"

lemma enumerate_from_reads:
  assumes "enumerate_from api manager left call resume capacity found = Inr es"
  shows "es = once_each (found @ told_entries (list_reads api manager left call resume capacity))
    \<and> list_reads api manager left call resume capacity \<noteq> []
    \<and> read_whole (list_reads api manager left call resume capacity)"
  using assms
proof (induction left arbitrary: call resume capacity found)
  case (Suc left)
  let ?answer = "sm_list api manager call resume (aligned_bytes capacity)"
  show ?case
  proof (cases "la_error ?answer")
    case None
    with Suc.prems show ?thesis by (simp add: Let_def once_each_def told_entries_def read_whole_def)
  next
    case (Some e)
    with Suc.prems have more: "error_code_is error_more_data e" by (simp add: Let_def split: if_splits)
    with Some Suc.prems show ?thesis
      using Suc.IH [of "Suc call" "la_resume ?answer" "max capacity (unat (la_needed ?answer))"
          "found @ entries_of ?answer"]
      by (auto simp: Let_def told_entries_def read_whole_def)
  qed
qed simp

lemma enumerate_services_reads:
  assumes "enumerate_services api manager = Inr es"
  shows "es = once_each (told_entries (list_answers api manager)) \<and> read_whole (list_answers api manager)"
proof -
  obtain probe needed where probe: "sm_probe api manager = (probe, needed)" by fastforce
  with assms have read: "(if needed = 0 then Inr [] else enumerate_from api manager max_calls 0 0 (unat needed) []) = Inr es"
    by (auto simp: enumerate_services_def Let_def split: option.splits if_splits)
  show ?thesis
  proof (cases "needed = 0")
    case True
    with read probe show ?thesis
      by (simp add: list_answers_def told_entries_def once_each_def read_whole_def)
  next
    case False
    with read enumerate_from_reads [of api manager max_calls 0 0 "unat needed" "[]" es] probe show ?thesis
      by (simp add: list_answers_def)
  qed
qed

lemma once_each_subset: "set (once_each found) \<subseteq> set found"
  unfolding once_each_def by (rule subset_trans [OF dedup_by_key_subset]) simp

lemma once_each_covers:
  assumes "e \<in> set found"
  shows "\<exists>e' \<in> set (once_each found). eq_ignore_ascii_case (fst e') (fst e)"
proof -
  have "to_ascii_lowercase (fst e) \<in> set (map (\<lambda>e. to_ascii_lowercase (fst e)) (once_each found))"
    unfolding once_each_def dedup_by_key_keys using assms by simp
  then obtain e' where "e' \<in> set (once_each found)" "to_ascii_lowercase (fst e) = to_ascii_lowercase (fst e')"
    unfolding set_map by (rule imageE)
  then show ?thesis by (intro bexI [of _ e']) (simp_all add: eq_ignore_ascii_case_def)
qed

lemma dedup_by_key_cong:
  "\<forall>x \<in> set xs. \<forall>y \<in> set xs. f x = f y \<longleftrightarrow> g x = g y \<Longrightarrow> dedup_by_key f xs = dedup_by_key g xs"
  by (induction f xs rule: dedup_by_key.induct) auto

definition told_apart :: "service_entry list \<Rightarrow> bool" where
  "told_apart found \<longleftrightarrow> (\<forall>x \<in> set found. \<forall>y \<in> set found. eq_ignore_ascii_case (fst x) (fst y) \<longrightarrow> fst x = fst y)"

lemma once_each_distinct:
  assumes "told_apart found"
  shows "distinct (map fst (once_each found))"
proof -
  have "once_each found = dedup_by_key fst (sort_key fst found)"
    unfolding once_each_def using assms
    by (intro dedup_by_key_cong) (auto simp: told_apart_def eq_ignore_ascii_case_def)
  then show ?thesis
    using dedup_by_key_ascending [of fst "sort_key fst found"] by (simp add: strict_sorted_iff)
qed

lemma configuration_name: "configuration api manager e = Inr s \<Longrightarrow> sv_name s = fst e"
  by (cases e) (auto simp: configuration_def Let_def split: sum.splits prod.splits if_splits)

lemma distinct_map_sort_key [simp]: "distinct (map f (sort_key f xs)) \<longleftrightarrow> distinct (map f xs)"
  by (simp add: distinct_map)

definition read_service :: "'h service_api \<Rightarrow> 'h \<Rightarrow> service_entry \<Rightarrow> service_record option" where
  "read_service api manager e = (case configuration api manager e of Inr r \<Rightarrow> Some r | Inl _ \<Rightarrow> None)"

definition refused_service :: "'h service_api \<Rightarrow> 'h \<Rightarrow> service_entry \<Rightarrow> access_denied option" where
  "refused_service api manager e =
     (case configuration api manager e of Inl reason \<Rightarrow> Some (unread_service e reason) | Inr _ \<Rightarrow> None)"

lemma read_service_Some: "read_service api manager e = Some r \<longleftrightarrow> configuration api manager e = Inr r"
  by (simp add: read_service_def split: sum.split)

lemma refused_service_Some:
  "refused_service api manager e = Some d
     \<longleftrightarrow> (\<exists>reason. configuration api manager e = Inl reason \<and> d = unread_service e reason)"
  by (auto simp: refused_service_def split: sum.splits)

lemma map_filter_names:
  assumes "\<forall>e x. f e = Some x \<longrightarrow> name x = fst e"
  shows "map name (List.map_filter f es) = map fst (filter (\<lambda>e. f e \<noteq> None) es)"
proof (induction es)
  case (Cons e es)
  then show ?case using assms [rule_format, of e] by (cases "f e") (simp_all add: List.map_filter_simps)
qed (simp add: List.map_filter_simps)

lemma distinct_split:
  assumes "distinct (map fst es)" and "\<forall>e. f e = None \<or> g e = None"
    and f: "\<forall>e x. f e = Some x \<longrightarrow> fname x = fst e" and g: "\<forall>e y. g e = Some y \<longrightarrow> gname y = fst e"
  shows "distinct (map fname (List.map_filter f es) @ map gname (List.map_filter g es))"
proof -
  have "fst ` set (filter (\<lambda>e. f e \<noteq> None) es) \<inter> fst ` set (filter (\<lambda>e. g e \<noteq> None) es) = {}"
    using assms(1,2) by (auto simp: distinct_map inj_on_def) (metis prod.collapse fst_conv option.distinct(1))
  then show ?thesis
    unfolding map_filter_names [of f, OF f] map_filter_names [of g, OF g] using assms(1)
    by (simp add: distinct_map_filter)
qed

lemma services_Inr:
  assumes "services api = Inr c"
  obtains manager where "sm_manager api = Inr manager"
    and "read_whole (list_answers api manager)"
    and "cs_services c =
      sort_key sv_name (List.map_filter (read_service api manager)
        (once_each (told_entries (list_answers api manager))))"
    and "cs_access_denied c =
      sort_key ad_item (List.map_filter (refused_service api manager)
        (once_each (told_entries (list_answers api manager))))"
proof -
  from assms obtain manager es where "sm_manager api = Inr manager"
      and es: "enumerate_services api manager = Inr es"
    by (auto simp: services_def split: sum.splits)
  with assms enumerate_services_reads [OF es] show ?thesis
    by (intro that [of manager])
      (auto simp: services_def read_service_def [abs_def] refused_service_def [abs_def])
qed

lemma list_reads_length: "length (list_reads api manager left call resume capacity) \<le> left"
  by (induction api manager left call resume capacity rule: list_reads.induct)
    (auto simp: Let_def split: option.split)

text \<open>
  C26. The services domain accounts for the whole list.  When it is captured, the list was read
  to its end, in at most a hundred calls; every name told in any of them is, up to letter case,
  the name of a record or of an item that could not be read, with the reason; every record and
  every such item is of a name that was told; and when no two names told differ in letter case
  alone, each is there once.
\<close>

theorem services_accounted_for:
  assumes "services api = Inr c"
  shows "\<exists>manager. sm_manager api = Inr manager
    \<and> read_whole (list_answers api manager) \<and> length (list_answers api manager) \<le> 100
    \<and> (\<forall>e \<in> set (told_entries (list_answers api manager)).
         \<exists>item \<in> sv_name ` set (cs_services c) \<union> ad_item ` set (cs_access_denied c).
           eq_ignore_ascii_case item (fst e))
    \<and> (\<forall>s \<in> set (cs_services c). \<exists>e \<in> set (told_entries (list_answers api manager)).
         fst e = sv_name s \<and> configuration api manager e = Inr s)
    \<and> (\<forall>d \<in> set (cs_access_denied c). \<exists>e \<in> set (told_entries (list_answers api manager)).
         fst e = ad_item d \<and> configuration api manager e = Inl (ad_reason d))
    \<and> (told_apart (told_entries (list_answers api manager)) \<longrightarrow>
         distinct (map sv_name (cs_services c) @ map ad_item (cs_access_denied c)))"
proof -
  from assms obtain manager where manager: "sm_manager api = Inr manager"
    and whole: "read_whole (list_answers api manager)"
    and services: "cs_services c = sort_key sv_name (List.map_filter (read_service api manager)
        (once_each (told_entries (list_answers api manager))))"
    and denied: "cs_access_denied c = sort_key ad_item (List.map_filter (refused_service api manager)
        (once_each (told_entries (list_answers api manager))))"
    by (rule services_Inr)
  let ?told = "told_entries (list_answers api manager)"
  have name: "\<forall>e s. read_service api manager e = Some s \<longrightarrow> sv_name s = fst e"
    and item: "\<forall>e d. refused_service api manager e = Some d \<longrightarrow> ad_item d = fst e"
    by (auto simp: read_service_Some refused_service_Some configuration_name unread_service_def)
  have "\<forall>e \<in> set ?told. \<exists>item \<in> sv_name ` set (cs_services c) \<union> ad_item ` set (cs_access_denied c).
      eq_ignore_ascii_case item (fst e)"
  proof
    fix e assume "e \<in> set ?told"
    then obtain e' where e': "e' \<in> set (once_each ?told)" "eq_ignore_ascii_case (fst e') (fst e)"
      using once_each_covers by blast
    have "fst e' \<in> sv_name ` set (cs_services c) \<union> ad_item ` set (cs_access_denied c)"
    proof (cases "configuration api manager e'")
      case (Inl reason)
      with e'(1) have "unread_service e' reason \<in> set (cs_access_denied c)"
        by (auto simp: denied refused_service_Some)
      then show ?thesis by (force simp: unread_service_def)
    next
      case (Inr s)
      with e'(1) have "s \<in> set (cs_services c)" by (auto simp: services read_service_Some)
      with configuration_name [OF Inr] show ?thesis by force
    qed
    with e'(2) show "\<exists>item \<in> sv_name ` set (cs_services c) \<union> ad_item ` set (cs_access_denied c).
        eq_ignore_ascii_case item (fst e)" by blast
  qed
  moreover have "\<forall>s \<in> set (cs_services c). \<exists>e \<in> set ?told. fst e = sv_name s \<and> configuration api manager e = Inr s"
    using once_each_subset [of ?told] name by (force simp: services read_service_Some)
  moreover have "\<forall>d \<in> set (cs_access_denied c). \<exists>e \<in> set ?told.
      fst e = ad_item d \<and> configuration api manager e = Inl (ad_reason d)"
  proof
    fix d assume "d \<in> set (cs_access_denied c)"
    then obtain e where "e \<in> set (once_each ?told)" "refused_service api manager e = Some d"
      by (auto simp: denied)
    then show "\<exists>e \<in> set ?told. fst e = ad_item d \<and> configuration api manager e = Inl (ad_reason d)"
      using once_each_subset [of ?told]
      by (intro bexI [of _ e]) (auto simp: refused_service_Some unread_service_def)
  qed
  moreover have "told_apart ?told \<longrightarrow> distinct (map sv_name (cs_services c) @ map ad_item (cs_access_denied c))"
  proof
    assume "told_apart ?told"
    then have once: "distinct (map fst (once_each ?told))" by (rule once_each_distinct)
    have "\<forall>e. read_service api manager e = None \<or> refused_service api manager e = None"
      by (simp add: read_service_def refused_service_def split: sum.split)
    from distinct_split [OF once this name item]
    show "distinct (map sv_name (cs_services c) @ map ad_item (cs_access_denied c))"
      by (simp add: services denied)
  qed
  moreover have "length (list_answers api manager) \<le> 100"
    using list_reads_length [of api manager max_calls] by (simp add: list_answers_def Let_def max_calls_def)
  ultimately show ?thesis using manager whole by (intro exI [of _ manager]) simp
qed

text \<open>A manager with one service, told once in a read that is cut off and again in the next.\<close>

definition sample_services :: "unit service_api" where
  "sample_services =
     \<lparr>sm_manager = Inr (), sm_probe = (\<lambda>_. (Some (0x800700EA, ''more data''), 64)),
      sm_list = (\<lambda>_ call _ _.
        \<lparr>la_entries = [(Some [65], None)], la_needed = 64, la_resume = 1,
         la_error = (if call = 0 then Some (0x800700EA, ''more data'') else None)\<rparr>),
      sm_open = (\<lambda>_ _. Inr ()), sm_config_size = (\<lambda>_. (None, 8)),
      sm_config = (\<lambda>_ _. Inr \<lparr>sg_type = 1, sg_start = 0, sg_error_control = 1, sg_binary_path = None,
        sg_load_order_group = None, sg_dependencies = Some [66, 0, 0], sg_start_name = None, sg_display_name = None\<rparr>),
      sm_description_size = (\<lambda>_. 0), sm_description = (\<lambda>_ _. None), sm_delayed = (\<lambda>_. None)\<rparr>"

lemma two_calls: "\<exists>left. max_calls = Suc (Suc left)"
  by (rule exI [of _ 98]) (simp add: max_calls_def)

lemma sample_more: "error_code_is error_more_data (0x800700EA, ''more data'')"
  by code_simp

lemma sample_list: "la_error (sm_list sample_services () 0 r n) = Some (0x800700EA, ''more data'')"
    "la_error (sm_list sample_services () 1 r n) = None" "la_resume (sm_list sample_services () 0 r n) = 1"
    "la_needed (sm_list sample_services () 0 r n) = 64"
  by (simp_all add: sample_services_def)

lemma sample_reads:
  "list_answers sample_services () =
     [sm_list sample_services () 0 0 64, sm_list sample_services () 1 1 64]"
proof -
  obtain left where calls: "max_calls = Suc (Suc left)" using two_calls by blast
  have "aligned_bytes 64 = 64" by code_simp
  then have "list_reads sample_services () (Suc (Suc left)) 0 0 64 =
     [sm_list sample_services () 0 0 64, sm_list sample_services () 1 1 64]"
    by (simp add: sample_list sample_list [unfolded One_nat_def] sample_more)
  then show ?thesis unfolding list_answers_def calls by (simp add: sample_services_def)
qed

lemma sample_name: "from_wide (Some [65]) = ''A''" "from_wide None = []"
  by (simp_all add: from_wide_def from_utf16_def from_utf16_lossy_def utf8_bytes_def) code_simp

lemma sample_told: "told_entries (list_answers sample_services ()) = [(''A'', []), (''A'', [])]"
  unfolding sample_reads by (simp add: told_entries_def entries_of_def sample_services_def sample_name)

lemma sample_enumerated: "\<exists>es. enumerate_services sample_services () = Inr es"
proof -
  obtain left where calls: "max_calls = Suc (Suc left)" using two_calls by blast
  have "\<exists>es. enumerate_from sample_services () (Suc (Suc left)) 0 0 64 [] = Inr es"
    by (simp add: Let_def sample_list sample_list [unfolded One_nat_def] sample_more)
  moreover have "sm_probe sample_services () = (Some (0x800700EA, ''more data''), 64)"
    by (simp add: sample_services_def)
  ultimately show ?thesis unfolding enumerate_services_def calls using sample_more by (simp add: Let_def)
qed

theorem services_accounted_for_witness:
  "\<exists>c. services sample_services = Inr c \<and> distinct (map sv_name (cs_services c) @ map ad_item (cs_access_denied c))
     \<and> (\<exists>item \<in> sv_name ` set (cs_services c) \<union> ad_item ` set (cs_access_denied c). eq_ignore_ascii_case item ''A'')"
proof -
  have "sm_manager sample_services = Inr ()" by (simp add: sample_services_def)
  then obtain c where c: "services sample_services = Inr c"
    using sample_enumerated by (auto simp: services_def)
  from services_accounted_for [OF c] have
    "(\<forall>e \<in> set (told_entries (list_answers sample_services ())).
         \<exists>item \<in> sv_name ` set (cs_services c) \<union> ad_item ` set (cs_access_denied c).
           eq_ignore_ascii_case item (fst e))
     \<and> distinct (map sv_name (cs_services c) @ map ad_item (cs_access_denied c))"
    by (simp add: sample_told told_apart_def)
  with c show ?thesis by (simp add: sample_told)
qed

text \<open>Three names, two of them one service: the list is in the order of bytes, and only neighbours are compared.\<close>

lemma same_name_twice:
  "map fst (once_each [(''alpha'', []), (''Beta'', []), (''Alpha'', [])]) = [''Alpha'', ''Beta'', ''alpha'']"
  by code_simp

end
