(* ===== verification/Obs_Snapshot_Props.thy ===== *)
theory Obs_Snapshot_Props
  imports Obs_Snapshot Obs_Walk_Props Obs_Registry_Props Obs_Services_Props Obs_Compare
begin

text \<open>
  What a snapshot says of its own coverage, and that a snapshot taken by this build already
  obeys the policy with which snapshots are compared.
\<close>

section \<open>Coverage\<close>

definition asked_for :: "request \<Rightarrow> domain \<Rightarrow> bool" where
  "asked_for rq d =
     (case d of ServicesDomain \<Rightarrow> rq_services rq | FilesystemDomain \<Rightarrow> rq_filesystem rq
      | RegistryDomain \<Rightarrow> rq_registry rq | _ \<Rightarrow> False)"

lemma captured_domains_iff [simp]: "d \<in> set (captured_domains rq) \<longleftrightarrow> asked_for rq d"
  by (cases d) (simp_all add: captured_domains_def asked_for_def)

definition bounded_machine :: "('w, 's, 'r) observed_machine \<Rightarrow> bool" where
  "bounded_machine m \<longleftrightarrow> bounded_depth (om_disk m) \<and> bounded_keys (om_registry m)"

lemma registry_returns:
  assumes "bounded_keys api" shows "\<exists>c. registry api = Some c"
  by (rule registry_sees [OF assms]) blast

lemma walk_returns:
  assumes "bounded_depth d" shows "\<exists>c. walk d roots = Some c"
  by (rule walk_sees [OF assms]) blast

lemma services_part_Inr:
  "services_part m rq = Inr sv \<longleftrightarrow>
     (if rq_services rq then \<exists>c. services (om_services m) = Inr c \<and> sv = Some c else sv = None)"
  by (auto simp: services_part_def split: sum.splits)

lemma files_part_Some:
  "files_part m rq = Some fs \<longleftrightarrow>
     (if rq_filesystem rq then
        \<exists>c. walk (om_disk m) (machine_roots m) = Some c
          \<and> fs = Some (c\<lparr>cf_policy := (cf_policy c)\<lparr>fp_libraries := fst (machine_libraries m)\<rparr>,
                         cf_access_denied := snd (machine_libraries m) @ cf_access_denied c\<rparr>)
      else fs = None)"
  by (auto simp: files_part_def split_beta)

lemma registry_part_Some:
  "registry_part m rq = Some rg \<longleftrightarrow>
     (if rq_registry rq then \<exists>c. registry (om_registry m) = Some c \<and> rg = Some c else rg = None)"
  by (auto simp: registry_part_def)

lemma or_none_simps [simp]: "or_none f None = []" "or_none f (Some c) = f c"
  by (simp_all add: or_none_def)

lemma snapshot_of_Inr:
  assumes "snapshot_of m name taken rq = Some (Inr s)"
  obtains sv fs rg where "services_part m rq = Inr sv" "files_part m rq = Some fs" "registry_part m rq = Some rg"
    and "sn_services s = or_none cs_services sv" "sn_files s = or_none cf_files fs"
    and "sn_registry s = or_none cy_keys rg"
    and "sn_file_empty_directories s = map_option cf_file_empty_directories fs"
    and "sn_registry_empty_keys s = map_option cy_empty_keys rg"
    and "sn_registry_policy s = map_option cy_policy rg" "sn_filesystem_policy s = map_option cf_policy fs"
    and "sn_format_version s = snapshot_format_version"
    and "sn_boot_session s = Some (from_uptime (om_now m) (om_uptime m))"
    and "sn_coverage s =
      \<lparr>cv_captured = captured_domains rq,
       cv_not_captured = filter (\<lambda>d. d \<notin> set (captured_domains rq)) all_domains,
       cv_access_denied =
         or_none cs_access_denied sv @ or_none cf_access_denied fs @ or_none cy_access_denied rg\<rparr>"
  using assms by (auto simp: snapshot_of_def split: sum.splits option.splits)

lemma bounded_parts:
  assumes "bounded_machine m"
  shows "\<exists>fs. files_part m rq = Some fs" and "\<exists>rg. registry_part m rq = Some rg"
proof -
  obtain c where "walk (om_disk m) (machine_roots m) = Some c"
    using walk_returns [of "om_disk m" "machine_roots m"] assms by (auto simp: bounded_machine_def)
  then show "\<exists>fs. files_part m rq = Some fs"
    by (cases "rq_filesystem rq") (simp_all add: files_part_def split_beta)
  obtain c where "registry (om_registry m) = Some c"
    using registry_returns [of "om_registry m"] assms by (auto simp: bounded_machine_def)
  then show "\<exists>rg. registry_part m rq = Some rg"
    by (cases "rq_registry rq") (simp_all add: registry_part_def)
qed

lemma snapshot_returns: "bounded_machine m \<Longrightarrow> \<exists>taken. snapshot_of m name at rq = Some taken"
  using bounded_parts [of m rq]
  by (cases "services_part m rq") (auto simp: snapshot_of_def)

text \<open>
  C28. A snapshot says what it covers.  When folders and keys do not nest without end, taking one
  returns: the error of the service manager, or a snapshot whose coverage lists exactly the
  domains asked for as captured and all others as not captured; a domain that was not captured
  has no records, no policy and no list of empty places; of one that was, all records and all
  that could not be read are in it, missing libraries included.
\<close>

theorem snapshot_declares_coverage:
  assumes "bounded_machine m"
  shows "(\<exists>e. snapshot_of m name taken rq = Some (Inl e) \<and> rq_services rq \<and> services (om_services m) = Inl e)
    \<or> (\<exists>s. snapshot_of m name taken rq = Some (Inr s)
        \<and> (\<forall>d. covers_domain (sn_coverage s) d \<longleftrightarrow> asked_for rq d)
        \<and> (\<forall>d. d \<in> set (cv_not_captured (sn_coverage s)) \<longleftrightarrow> \<not> asked_for rq d)
        \<and> (if rq_services rq then
             \<exists>c. services (om_services m) = Inr c \<and> sn_services s = cs_services c
               \<and> set (cs_access_denied c) \<subseteq> set (cv_access_denied (sn_coverage s))
           else sn_services s = [])
        \<and> (if rq_filesystem rq then
             \<exists>c. walk (om_disk m) (machine_roots m) = Some c \<and> sn_files s = cf_files c
               \<and> sn_file_empty_directories s = Some (cf_file_empty_directories c)
               \<and> set (cf_access_denied c) \<union> set (snd (machine_libraries m))
                   \<subseteq> set (cv_access_denied (sn_coverage s))
           else sn_files s = [] \<and> sn_filesystem_policy s = None \<and> sn_file_empty_directories s = None)
        \<and> (if rq_registry rq then
             \<exists>c. registry (om_registry m) = Some c \<and> sn_registry s = cy_keys c
               \<and> sn_registry_empty_keys s = Some (cy_empty_keys c)
               \<and> set (cy_access_denied c) \<subseteq> set (cv_access_denied (sn_coverage s))
           else sn_registry s = [] \<and> sn_registry_policy s = None \<and> sn_registry_empty_keys s = None))"
proof (cases "services_part m rq")
  case (Inl e)
  then show ?thesis by (auto simp: snapshot_of_def services_part_def split: if_splits sum.splits)
next
  case (Inr sv)
  obtain fs rg where fs: "files_part m rq = Some fs" and rg: "registry_part m rq = Some rg"
    using bounded_parts [OF assms] by blast
  from Inr fs rg obtain s where s: "snapshot_of m name taken rq = Some (Inr s)" by (simp add: snapshot_of_def)
  then show ?thesis
    by (rule snapshot_of_Inr)
      (use Inr fs rg s in \<open>auto simp: services_part_Inr files_part_Some registry_part_Some covers_domain_def
         all_domains_complete split: if_splits\<close>)
qed

section \<open>The policy removes nothing\<close>

lemma admit_clean:
  "clean_record p r \<Longrightarrow> admit p r = \<lparr>am_record = Some (Borrowed r), am_refused_values = 0\<rparr>"
  by (simp add: admit_def clean_record_def clean_value_def list_all_iff filter_empty_conv)

lemma admitted_index_clean:
  "list_all (clean_record p) records \<Longrightarrow> snd (admitted_index records p rf) = rf"
  unfolding admitted_index_def
proof (induction records arbitrary: rf rule: rev_induct)
  case (snoc r records)
  then show ?case by (simp add: admit_into_def admit_clean split_beta)
qed simp

lemma compare_registry_clean:
  assumes "list_all (clean_record p) before" and "list_all (clean_record p) after"
  shows "snd (compare_registry before after p rf) = rf"
  using assms by (simp add: compare_registry_def Let_def split_beta admitted_index_clean)

lemma compare_files_none_excluded:
  assumes "\<forall>f \<in> set before \<union> set after. \<not> is_excluded_path (fr_path f)"
  shows "snd (compare_files before after flt rf) = rf"
proof -
  have "filter (\<lambda>r. is_excluded_path (fr_path r)) before = []"
    and "filter (\<lambda>r. is_excluded_path (fr_path r)) after = []"
    using assms by (simp_all add: filter_empty_conv)
  then show ?thesis by (simp add: compare_files_def file_index_def Let_def)
qed

lemma emptied_keys_none_excluded:
  assumes "\<forall>k \<in> set_option (sn_registry_empty_keys after). list_all (\<lambda>k. \<not> is_excluded_key (kr_key k)) k"
  shows "snd (emptied_keys before after cov rf) = rf"
  using assms by (auto simp: emptied_keys_def Let_def list_all_iff filter_empty_conv split: option.split)

lemma emptied_directories_refiltered [simp]:
  "rf_registry_records (snd (emptied_directories before after cov rf)) = rf_registry_records rf"
  "rf_registry_values (snd (emptied_directories before after cov rf)) = rf_registry_values rf"
  "rf_files (snd (emptied_directories before after cov rf)) = rf_files rf"
  "rf_emptied_keys (snd (emptied_directories before after cov rf)) = rf_emptied_keys rf"
  by (simp_all add: emptied_directories_def Let_def split: option.split)

text \<open>A snapshot in which the policy has nothing to remove but directories and denials.\<close>

definition policy_abiding :: "snapshot \<Rightarrow> bool" where
  "policy_abiding s \<longleftrightarrow>
     sn_format_version s = snapshot_format_version
     \<and> list_all (clean_record current_policy) (sn_registry s)
     \<and> (\<forall>f \<in> set (sn_files s). \<not> is_excluded_path (fr_path f))
     \<and> (\<forall>ks \<in> set_option (sn_registry_empty_keys s). list_all (\<lambda>k. \<not> is_excluded_key (kr_key k)) ks)"

lemma compare_refilters_nothing:
  assumes "policy_abiding before" and "policy_abiding after"
  shows "\<exists>d. compare before after flt = Inr d \<and> rf_registry_records (df_refiltered d) = 0
    \<and> rf_registry_values (df_refiltered d) = 0 \<and> rf_files (df_refiltered d) = 0
    \<and> rf_emptied_keys (df_refiltered d) = 0"
proof -
  have "format_error before after = None"
    using assms by (simp add: format_error_def format_supported_def policy_abiding_def oldest_snapshot_format_def
        snapshot_format_version_def)
  moreover have "\<forall>f \<in> set (sn_files before) \<union> set (sn_files after). \<not> is_excluded_path (fr_path f)"
    using assms by (auto simp: policy_abiding_def)
  ultimately show ?thesis
    using assms
    by (simp add: compare_def Let_def split_beta compare_registry_clean compare_files_none_excluded
        emptied_keys_none_excluded policy_abiding_def no_refiltered_def)
qed

lemma snapshot_abiding:
  assumes "bounded_machine m" and "snapshot_of m name taken rq = Some (Inr s)"
  shows "policy_abiding s"
  using assms(2)
proof (rule snapshot_of_Inr)
  fix sv fs rg
  assume parts: "files_part m rq = Some fs" "registry_part m rq = Some rg"
    and s: "sn_files s = or_none cf_files fs" "sn_registry s = or_none cy_keys rg"
      "sn_registry_empty_keys s = map_option cy_empty_keys rg" "sn_format_version s = snapshot_format_version"
  have "\<not> is_excluded_path (fr_path f)" if "f \<in> set (sn_files s)" for f
    using that parts(1) assms(1) walked_not_excluded [of "om_disk m" "machine_roots m"]
    by (auto simp: s files_part_Some bounded_machine_def split: if_splits)
  moreover have "clean_record current_policy r" if "r \<in> set (sn_registry s)" for r
    using that parts(2) assms(1) recorded_keys_clean [of "om_registry m"]
    by (auto simp: s registry_part_Some bounded_machine_def split: if_splits)
  moreover have "\<not> is_excluded_key (kr_key k)" if "sn_registry_empty_keys s = Some ks" "k \<in> set ks" for k ks
    using that parts(2) assms(1) empty_keys_not_excluded [of "om_registry m"]
    by (auto simp: s registry_part_Some bounded_machine_def split: if_splits)
  ultimately show ?thesis using s(4) by (auto simp: policy_abiding_def list_all_iff)
qed

text \<open>
  C29. The collectors and the differ keep the same policy.  Two snapshots this build takes, of any
  two states of a machine and of whatever domains, can always be compared, and the comparison
  has no registry record, no value, no file and no empty key to remove.
\<close>

theorem fresh_snapshots_compare:
  assumes "bounded_machine m" and "snapshot_of m name taken rq = Some (Inr before)"
    and "bounded_machine m'" and "snapshot_of m' name' taken' rq' = Some (Inr after)"
  shows "\<exists>d. compare before after flt = Inr d \<and> rf_registry_records (df_refiltered d) = 0
    \<and> rf_registry_values (df_refiltered d) = 0 \<and> rf_files (df_refiltered d) = 0
    \<and> rf_emptied_keys (df_refiltered d) = 0"
  by (rule compare_refilters_nothing [OF snapshot_abiding [OF assms(1,2)] snapshot_abiding [OF assms(3,4)]])

section \<open>A machine\<close>

text \<open>The sample disk, registry and services of the collectors, with no launcher.\<close>

definition quiet_win32 :: "unit win32" where
  "quiet_win32 =
     \<lparr>wn_root = (\<lambda>_. ()), wn_open_key = (\<lambda>_ _ _. Inl error_file_not_found),
      wn_subkeys = (\<lambda>_. ([], error_no_more_items)), wn_value_size = (\<lambda>_ _ _ _. (error_file_not_found, 0)),
      wn_value = (\<lambda>_ _ _ _ _. (error_file_not_found, [], 0)), wn_dword = (\<lambda>_ _. (error_file_not_found, 0)),
      wn_manager = Inr (), wn_open_service = (\<lambda>_ _. Inl (0, [])), wn_config_size = (\<lambda>_. None),
      wn_config = (\<lambda>_. Inr None), wn_metadata = (\<lambda>_. Inl NotFoundError), wn_is_dir = (\<lambda>_. True),
      wn_trust = (\<lambda>_ _. (trust_e_nosignature, 0)), wn_signer = (\<lambda>_ _. None),
      wn_variable = (\<lambda>n. if n = ''ProgramFiles'' then Some sample_root else None)\<rparr>"

definition sample_machine :: "(unit, unit, unit) observed_machine" where
  "sample_machine =
     \<lparr>om_now = 5000, om_uptime = 3000, om_domain_now = (\<lambda>_. 6000), om_services = sample_services,
      om_registry = sample_registry sample_answers, om_disk = sample_disk [], om_win = quiet_win32,
      om_files = \<lparr>fs_read = (\<lambda>_. IoNotFound), fs_list = (\<lambda>_. IoNotFound)\<rparr>,
      om_json = (\<lambda>_. Inr None), om_missing = [], om_version = ''0.1.0''\<rparr>"

lemma sample_machine_bounded: "bounded_machine sample_machine"
  by (simp add: bounded_machine_def sample_machine_def sample_bounded sample_bounded_keys)

lemma sample_services_captured: "\<exists>c. services sample_services = Inr c"
  using sample_enumerated by (auto simp: services_def sample_services_def)

lemma sample_snapshot: "\<exists>s. snapshot_of sample_machine name taken everything = Some (Inr s)"
proof -
  obtain sv where "services sample_services = Inr sv" using sample_services_captured by blast
  moreover obtain c where "walk (sample_disk []) (machine_roots sample_machine) = Some c"
    using walk_returns [OF sample_bounded] by blast
  moreover obtain rg where "registry (sample_registry sample_answers) = Some rg"
    using registry_returns [OF sample_bounded_keys] by blast
  ultimately show ?thesis
    by (simp add: snapshot_of_def services_part_def files_part_def registry_part_def split_beta everything_def
        sample_machine_def)
qed

theorem snapshot_declares_coverage_witness:
  "\<exists>s. snapshot_of sample_machine ''clean'' ''2026-01-01'' everything = Some (Inr s)
     \<and> covers_domain (sn_coverage s) RegistryDomain \<and> TasksDomain \<in> set (cv_not_captured (sn_coverage s))
     \<and> \<not> covers_domain (sn_coverage s) TasksDomain"
proof -
  obtain sv where "services (om_services sample_machine) = Inr sv"
    using sample_services_captured by (auto simp: sample_machine_def)
  with snapshot_declares_coverage [OF sample_machine_bounded, of "''clean''" "''2026-01-01''" everything]
  show "\<exists>s. snapshot_of sample_machine ''clean'' ''2026-01-01'' everything = Some (Inr s)
     \<and> covers_domain (sn_coverage s) RegistryDomain \<and> TasksDomain \<in> set (cv_not_captured (sn_coverage s))
     \<and> \<not> covers_domain (sn_coverage s) TasksDomain"
    by (auto simp: asked_for_def everything_def)
qed

theorem fresh_snapshots_compare_witness:
  "\<exists>a b d. snapshot_of sample_machine ''before'' ''1'' everything = Some (Inr a)
     \<and> snapshot_of sample_machine ''after'' ''2'' everything = Some (Inr b)
     \<and> compare a b standard_filter = Inr d \<and> rf_registry_records (df_refiltered d) = 0"
proof -
  obtain a where a: "snapshot_of sample_machine ''before'' ''1'' everything = Some (Inr a)"
    using sample_snapshot by blast
  obtain b where b: "snapshot_of sample_machine ''after'' ''2'' everything = Some (Inr b)"
    using sample_snapshot by blast
  from fresh_snapshots_compare [OF sample_machine_bounded a sample_machine_bounded b, of standard_filter] a b
  show "\<exists>a b d. snapshot_of sample_machine ''before'' ''1'' everything = Some (Inr a)
     \<and> snapshot_of sample_machine ''after'' ''2'' everything = Some (Inr b)
     \<and> compare a b standard_filter = Inr d \<and> rf_registry_records (df_refiltered d) = 0"
    by blast
qed

end
