(* ===== verification/Suggest_Returns.thy ===== *)
theory Suggest_Returns
  imports Suggest_Props Panics
begin

text \<open>
  When a draft returns: it panics only in a slice of a path or key of the diffs that falls inside
  a character, so never where these are ASCII.
\<close>

section \<open>What is sliced\<close>

lemma partition_run_total: "(\<And>x. x \<in> set xs \<Longrightarrow> ok x \<noteq> Panic) \<Longrightarrow> partition_run ok xs \<noteq> Panic"
  by (simp add: partition_run_def traverse_eq_Panic)

lemma path_allowed_ascii: "ascii_str path \<Longrightarrow> path_allowed e path \<noteq> Panic"
  by (simp add: path_allowed_def canonicalise_ascii)

lemma key_allowed_ascii: "ascii_str key \<Longrightarrow> key_allowed e key \<noteq> Panic"
  by (auto simp: key_allowed_def dest: check_key_ascii split: sum.splits)

lemma product_folder_ascii: "ascii_str (fx_path c) \<Longrightarrow> product_folder c \<noteq> Panic"
  by (simp add: product_folder_def Let_def is_char_boundary_ascii)

lemma parent_of_ascii: "parent_of path = Some folder \<Longrightarrow> ascii_str path \<Longrightarrow> ascii_str folder"
proof -
  have "rsplit_once s p = Some (a, b) \<Longrightarrow> set a \<subseteq> set s" for s p a b
    by (induction s p arbitrary: a b rule: rsplit_once.induct) (fastforce split: option.splits if_splits)+
  then show "parent_of path = Some folder \<Longrightarrow> ascii_str path \<Longrightarrow> ascii_str folder"
    using ascii_str_subset by (fastforce simp: parent_of_def)
qed

lemma native_key_ascii: "ascii_str key \<Longrightarrow> ascii_str (fst (native_view_of key v))"
  by (simp add: native_view_of_def ascii_str_drop)

lemma gathered_ascii:
  assumes "list_all (\<lambda>c. ascii_str (fx_path c)) cs" and "list_all ascii_str (fst st)"
  shows "list_all ascii_str (fst (gather a cs st))"
  using assms parent_of_ascii
  by (auto simp: gather_def Let_def List.map_filter_def list_all_iff split: option.splits)

lemma added_keys_ascii:
  "list_all (\<lambda>c. ascii_str (rx_key c)) cs \<Longrightarrow> list_all ascii_str (map fst (fst st)) \<Longrightarrow>
   list_all ascii_str (map fst (fst (fold (add_key a) cs st)))"
proof (induction cs arbitrary: st)
  case (Cons c cs)
  have "list_all ascii_str (map fst (fst (add_key a c st)))"
    using Cons.prems native_key_ascii [of "rx_key c" "rx_view c"]
    by (auto simp: add_key_def list_all_iff split_beta dest!: values_btree_insert)
  with Cons show ?case by simp
qed simp

section \<open>The draft\<close>

definition ascii_diff :: "diff \<Rightarrow> bool" where
  "ascii_diff d \<longleftrightarrow>
     list_all (\<lambda>c. ascii_str (fx_path c)) (df_files d) \<and> list_all (\<lambda>c. ascii_str (rx_key c)) (df_registry d)"

lemma path_entries_total:
  assumes "ascii_diff footprint" and "pred_option ascii_diff residue"
  shows "path_entries footprint residue a e \<noteq> Panic"
proof -
  have "list_all ascii_str (fst (gather a (df_files footprint) ([], 0)))"
    using assms(1) by (intro gathered_ascii) (simp_all add: ascii_diff_def)
  then have "list_all ascii_str (fst (case residue of
      Some r \<Rightarrow> gather a (df_files r) (gather a (df_files footprint) ([], 0))
    | None \<Rightarrow> gather a (df_files footprint) ([], 0)))"
    using gathered_ascii assms(2) by (cases residue) (simp_all add: ascii_diff_def)
  then show ?thesis
    by (auto simp: path_entries_def Let_def split_beta list_all_iff
        intro!: partition_run_total path_allowed_ascii)
qed

lemma registry_entries_total: "ascii_diff footprint \<Longrightarrow> registry_entries footprint a e \<noteq> Panic"
proof -
  assume "ascii_diff footprint"
  then have "list_all ascii_str (map fst (fst (fold (add_key a) (df_registry footprint) ([], 0))))"
    by (intro added_keys_ascii) (simp_all add: ascii_diff_def)
  then show ?thesis
    by (auto simp: registry_entries_def Let_def split_beta list_all_iff
        intro!: partition_run_total key_allowed_ascii)
qed

lemma note_scope_total:
  assumes "ascii_diff footprint" and "pred_option ascii_diff residue"
  shows "note_scope footprint residue signer only \<noteq> Panic"
proof -
  have "signed_products (added_files footprint residue) s \<noteq> Panic" for s
    unfolding signed_products_def
    by (rule fold_run_total)
      (use assms product_folder_ascii in \<open>cases residue;
        fastforce simp: added_files_def ascii_diff_def list_all_iff\<close>)
  then show ?thesis by (simp add: note_scope_def note_several_products_def split: option.splits)
qed

lemma outside_games_ascii:
  assumes "fst (outside_games footprint residue) = (f, r)"
    and "ascii_diff footprint" and "pred_option ascii_diff residue"
  shows "ascii_diff f" and "pred_option ascii_diff r"
  using assms
  by (cases residue; auto simp: outside_games_def without_game_files_def Let_def ascii_diff_def list_all_iff)+

lemma draft_returns:
  assumes "ascii_diff footprint" and "pred_option ascii_diff residue"
  shows "draft_scoped footprint residue signer only \<noteq> Panic"
proof -
  obtain f r aside where o: "outside_games footprint residue = ((f, r), aside)"
    by (metis prod.exhaust)
  note ascii = outside_games_ascii [of footprint residue f r, OF _ assms]
  have "draft_from f r chosen only signers nts ev \<noteq> Panic" for chosen only signers nts ev
    using path_entries_total registry_entries_total note_scope_total ascii o
    by (simp add: draft_from_def Let_def split_beta bind_run_eq_Panic)
  then show ?thesis by (simp add: draft_scoped_def o split_beta Let_def)
qed

text \<open>Read the other way round a diff names the same paths and keys.\<close>

lemma reversed_ascii: "ascii_diff d \<Longrightarrow> ascii_diff (reversed d)"
  by (auto simp: ascii_diff_def reversed_def list_all_iff reversed_file_def reversed_registry_def Let_def)

end
