(* ===== verification/Obs_Told.thy ===== *)
theory Obs_Told
  imports Obs_Intersect
begin

text \<open>
  What a change says beside its records.  A registry change is printed with a key and with the
  names and data of the values that differ, a file change with a path, and a diff that is read
  from a file may say anything there.  A comparison builds them from the records the policy
  admits, and so does a refiltering that rebuilds a change; one it leaves as written it does not
  look into any further than its records and, for a file, its path.
\<close>

section \<open>Told by records\<close>

definition records_shown :: "registry_change \<Rightarrow> registry_record list" where
  "records_shown c = flatten_options [rx_before c, rx_after c]"

definition values_shown :: "registry_change \<Rightarrow> registry_value list" where
  "values_shown c = concat (map rr_values (records_shown c))"

definition shown_name :: "registry_value \<Rightarrow> string" where
  "shown_name v = (if rv_name v = [] then ''(default)'' else rv_name v)"

text \<open>A text of a field: none, or the type and data of a value of that name which the change shows.\<close>

definition told_value :: "registry_change \<Rightarrow> string \<Rightarrow> string \<Rightarrow> bool" where
  "told_value c name t \<longleftrightarrow> t = [] \<or> (\<exists>v \<in> set (values_shown c). shown_name v = name \<and> comparable v = t)"

definition told_field :: "registry_change \<Rightarrow> field_change \<Rightarrow> bool" where
  "told_field c f \<longleftrightarrow>
     fc_field f \<in> shown_name ` set (values_shown c)
     \<and> told_value c (fc_field f) (fc_before f) \<and> told_value c (fc_field f) (fc_after f)"

text \<open>
  All a registry change says, its key included, is in records it shows, and these are records the
  policy keeps as they stand: of no excluded key and with no value it refuses.
\<close>

definition admitted_change :: "policy \<Rightarrow> registry_change \<Rightarrow> bool" where
  "admitted_change p c \<longleftrightarrow>
     rx_key c \<in> rr_key ` set (records_shown c)
     \<and> list_all (clean_record p) (records_shown c)
     \<and> list_all (told_field c) (rx_fields c)"

lemma admitted_change_key: "admitted_change p c \<Longrightarrow> \<not> is_excluded_key (rx_key c)"
  by (auto simp: admitted_change_def clean_record_def list_all_iff)

definition admitted_file :: "file_change \<Rightarrow> bool" where
  "admitted_file c \<longleftrightarrow>
     \<not> is_excluded_path (fx_path c)
     \<and> list_all (\<lambda>r. \<not> is_excluded_path (fr_path r)) (flatten_options [fx_before c, fx_after c])"

section \<open>Comparing\<close>

lemma comparables_member:
  "map_of (comparables r) n = Some t \<Longrightarrow> \<exists>v \<in> set (rr_values r). rv_name v = n \<and> comparable v = t"
proof -
  have "map_of (fold (\<lambda>v. btree_insert (rv_name v) (comparable v)) vs m) n = Some t \<Longrightarrow>
      map_of m n = Some t \<or> (\<exists>v \<in> set vs. rv_name v = n \<and> comparable v = t)" for vs m
    by (induction vs arbitrary: m) (fastforce split: if_splits)+
  then show "map_of (comparables r) n = Some t \<Longrightarrow> ?thesis" by (fastforce simp: comparables_def)
qed

lemma modification_told:
  assumes "modification old new = Some c"
  shows "rx_key c \<in> rr_key ` set (records_shown c)" and "list_all (told_field c) (rx_fields c)"
proof -
  note c = modification_Some [OF assms]
  have shown: "set (records_shown c) =
      {only_differing (differing_names old new) old, only_differing (differing_names old new) new}"
    by (simp add: records_shown_def c)
  then show "rx_key c \<in> rr_key ` set (records_shown c)" by (simp add: c only_differing_def)
  have vals: "v \<in> set (values_shown c)"
    if "v \<in> set (rr_values old) \<union> set (rr_values new)" "rv_name v \<in> set (differing_names old new)" for v
    using that by (auto simp: values_shown_def shown only_differing_def)
  have told: "told_value c (if n = [] then ''(default)'' else n)
        (case map_of (comparables r) n of None \<Rightarrow> [] | Some t \<Rightarrow> t)"
    if "n \<in> set (differing_names old new)" "r \<in> {old, new}" for n r
  proof (cases "map_of (comparables r) n")
    case (Some t)
    then obtain v where "v \<in> set (rr_values r)" "rv_name v = n" "comparable v = t"
      using comparables_member by blast
    with that vals [of v] Some show ?thesis by (auto simp: told_value_def shown_name_def)
  qed (simp add: told_value_def)
  have named: "(if n = [] then ''(default)'' else n) \<in> shown_name ` set (values_shown c)"
    if n: "n \<in> set (differing_names old new)" for n
  proof -
    obtain r t where "r \<in> {old, new}" "map_of (comparables r) n = Some t"
      using n unfolding differing_names_member
      by (cases "map_of (comparables old) n"; cases "map_of (comparables new) n") auto
    then obtain v where "v \<in> set (rr_values r)" "rv_name v = n" using comparables_member by blast
    with n \<open>r \<in> {old, new}\<close> vals [of v] show ?thesis by (auto simp: shown_name_def image_iff)
  qed
  show "list_all (told_field c) (rx_fields c)"
    using told named by (auto simp: c(6) list_all_iff told_field_def value_field_def)
qed

lemma registry_change_of_admitted:
  assumes "registry_change_of old new = Some c"
    and "pred_option (clean_record p) old" and "pred_option (clean_record p) new"
  shows "admitted_change p c"
proof -
  have "private_registry p c" by (rule registry_change_of_private [OF assms])
  then have "list_all (clean_record p) (records_shown c)"
    by (cases "rx_before c"; cases "rx_after c") (simp_all add: private_registry_def records_shown_def)
  moreover have "rx_key c \<in> rr_key ` set (records_shown c) \<and> list_all (told_field c) (rx_fields c)"
    using assms(1) modification_told
    by (auto simp: registry_change_of_def registry_added_def registry_removed_def records_shown_def
        split: option.splits)
  ultimately show ?thesis by (simp add: admitted_change_def)
qed

lemma compared_registry_admitted: "list_all (admitted_change current_policy) (compared_registry before after)"
  using registry_atD
  by (force simp: compared_registry_def list_all_iff set_compare_registry option.pred_set
      intro!: registry_change_of_admitted [where p = current_policy])

lemma compared_files_admitted: "list_all admitted_file (compared_files before after flt)"
proof -
  have "admitted_file c" if "file_change_of k (file_at xs k) (file_at ys k) = Some c" for k c xs ys
    using file_change_of_cases [OF that]
    by (cases "file_at xs k"; cases "file_at ys k") (auto simp: admitted_file_def dest: file_atD)
  then show ?thesis
    using files_compared by (force simp: compared_files_def list_all_iff)
qed

section \<open>Refiltering and intersecting\<close>

lemma rebuilt_admitted:
  assumes "c \<in> set (rebuilt p upgrading old)"
  shows "admitted_change p c \<or> \<not> upgrading \<and> c = old"
  using assms registry_change_of_admitted [OF _ admitted_side_clean admitted_side_clean]
  by (cases "registry_change_of (admitted_side p (rx_before old)) (admitted_side p (rx_after old))")
    (auto simp: rebuilt_def split: if_splits)

text \<open>A change is as it stands in one of some diffs, a registry change in one of the current format.\<close>

definition as_read :: "diff list \<Rightarrow> registry_change \<Rightarrow> bool" where
  "as_read ds c \<longleftrightarrow> list_ex (\<lambda>d. df_format_version d = diff_format_version \<and> c \<in> set (df_registry d)) ds"

definition file_as_read :: "diff list \<Rightarrow> file_change \<Rightarrow> bool" where
  "file_as_read ds c \<longleftrightarrow>
     list_ex (\<lambda>d. c \<in> set (df_files d) \<union> sf_change ` set (df_suppressed_files d)) ds"

text \<open>
  Every registry and file change of a diff says nothing beside what its admitted records say, or
  is one of some diffs that were read, as it stands there.
\<close>

definition accounted_diff :: "policy \<Rightarrow> diff list \<Rightarrow> diff \<Rightarrow> bool" where
  "accounted_diff p ds d \<longleftrightarrow>
     list_all (\<lambda>c. admitted_change p c \<or> as_read ds c) (df_registry d)
     \<and> list_all (\<lambda>c. admitted_file c \<or> file_as_read ds c) (df_files d @ map sf_change (df_suppressed_files d))"

lemma compared_accounted: "compare before after flt = Inr d \<Longrightarrow> accounted_diff current_policy [] d"
  using compared_registry_admitted [of before after] compared_files_admitted [of before after flt]
  by (simp add: accounted_diff_def compare_Inr list_all_iff)

lemma refilter_parts:
  "df_registry (fst (refilter d p)) = concat (map (rebuilt p (df_format_version d \<noteq> diff_format_version)) (df_registry d))"
  "set (df_files (fst (refilter d p))) \<subseteq> set (df_files d)"
  "set (df_suppressed_files (fst (refilter d p))) \<subseteq> set (df_suppressed_files d)"
  by (auto simp: refilter_def split_beta Let_def fst_fold_refilter drop_excluded_files_def)

lemma refilter_accounted: "accounted_diff p [d] (fst (refilter d p))"
proof -
  have "admitted_change p c \<or> as_read [d] c" if "c \<in> set (df_registry (fst (refilter d p)))" for c
    using that rebuilt_admitted [of c p] by (fastforce simp: refilter_parts(1) as_read_def)
  moreover have "file_as_read [d] c"
    if "c \<in> set (df_files (fst (refilter d p)) @ map sf_change (df_suppressed_files (fst (refilter d p))))" for c
    using that refilter_parts(2,3) [of d p] by (auto simp: file_as_read_def)
  ultimately show ?thesis by (auto simp: accounted_diff_def list_all_iff)
qed

lemma as_read_mono: "as_read [f] c \<Longrightarrow> f \<in> set fs \<Longrightarrow> as_read fs c"
  "file_as_read [f] x \<Longrightarrow> f \<in> set fs \<Longrightarrow> file_as_read fs x"
  by (auto simp: as_read_def file_as_read_def list_ex_iff)

lemma intersect_accounted:
  assumes "intersect fs = Inr d"
  shows "accounted_diff current_policy fs d"
proof -
  have each: "accounted_diff current_policy [f] (filtered f)" for f by (rule refilter_accounted)
  have "admitted_change current_policy c \<or> as_read fs c" if c: "c \<in> set (df_registry d)" for c
  proof -
    obtain f where "f \<in> set fs" "c \<in> set (df_registry (filtered f))"
      using c shared_members(1) unfolding intersect_Inr(6) [OF assms] by fastforce
    with each [of f] as_read_mono(1) show ?thesis by (auto simp: accounted_diff_def list_all_iff)
  qed
  moreover have "admitted_file c \<or> file_as_read fs c"
    if c: "c \<in> set (df_files d) \<union> sf_change ` set (df_suppressed_files d)" for c
  proof -
    obtain f where "f \<in> set fs"
      "c \<in> set (df_files (filtered f)) \<union> sf_change ` set (df_suppressed_files (filtered f))"
      using c unfolding intersect_Inr(4,5) [OF assms]
      by (auto dest!: shared_members)
    with each [of f] as_read_mono(2) show ?thesis by (auto simp: accounted_diff_def list_all_iff)
  qed
  ultimately show ?thesis by (auto simp: accounted_diff_def list_all_iff)
qed

section \<open>A change refiltering leaves as it is\<close>

text \<open>
  A diff of the current format whose change names an excluded key and shows no record, or shows a
  record of another key: the policy has nothing to say about its records, so the change stays,
  with its key and with the data of its fields.
\<close>

definition unshown_change :: registry_change where
  "unshown_change =
     \<lparr>rx_key = win ''HKLM/SOFTWARE/Microsoft/Cryptography'', rx_view = ''64'', rx_kind = Modified,
      rx_before = None, rx_after = None,
      rx_fields = [\<lparr>fc_field = ''MachineGuid'', fc_before = [], fc_after = ''sz:0''\<rparr>]\<rparr>"

lemma unshown_change_kept:
  "is_excluded_key (rx_key unshown_change) \<and> private_registry current_policy unshown_change
   \<and> \<not> admitted_change current_policy unshown_change
   \<and> rebuilt current_policy False unshown_change = [unshown_change]
   \<and> rebuilt current_policy True unshown_change = []"
proof -
  have "is_excluded_key (rx_key unshown_change)" by code_simp
  moreover have "private_registry current_policy unshown_change"
    by (simp add: private_registry_def unshown_change_def)
  moreover have "rebuilt current_policy True unshown_change = []"
    by (simp add: rebuilt_def unshown_change_def admitted_side_def registry_change_of_def)
  ultimately show ?thesis
    using admitted_change_key by (auto simp: rebuilt_def untouched_private)
qed

end
