(* ===== verification/Observe_Cli_Props.thy ===== *)
theory Observe_Cli_Props
  imports Observe_Cli Obs_Snapshot_Props Redact_Props Suggest_Returns Obs_Told
begin

text \<open>
  What the observation tool's exit codes and files mean: that every command ends, having written
  its file whole or failed, that every diff it writes obeys the current policy, and that a
  redaction which ends with success left no name behind.
\<close>

section \<open>Endings\<close>

lemma wrote_Inr [simp]:
  "wrote code err path written = Inr oc \<longleftrightarrow>
     oc = \<lparr>oc_code = code, oc_out = [], oc_err = err, oc_written = [(path, written)]\<rparr>"
  by (auto simp: wrote_def)

lemma stopped_not_Inr [simp]: "stopped printed e \<noteq> Inr oc" "stopped printed e = Inl pe \<longleftrightarrow> pe = (printed, e, [])"
  by (auto simp: stopped_def)

lemma stopped_writing_not_Inr [simp]: "stopped_writing printed path we \<noteq> Inr oc"
  by (cases we) (simp add: stopped_writing_def)

lemma wrote_not_Inl [simp]: "wrote code err path written \<noteq> Inl pe"
  by (simp add: wrote_def)

text \<open>How a command that got to its end ended: what it wrote, and success or nothing found.\<close>

fun output_of :: "observe_command \<Rightarrow> string option" where
  "output_of (SnapshotCommand output _) = Some output"
| "output_of (DiffCommand _ _ output _) = Some output"
| "output_of (SuggestCommand _ _ _ _ _ output) = Some output"
| "output_of (IntersectCommand _ output) = Some output"
| "output_of (RefilterCommand _ output) = Some output"
| "output_of (RedactCommand _ output _ _) = Some output"
| "output_of (ReviewCommand _) = None"

definition complete :: "('w, 's, 'r) obs_world \<Rightarrow> observe_command \<Rightarrow> outcome \<Rightarrow> bool" where
  "complete w command oc \<longleftrightarrow>
     oc_code oc \<in> {exit_ok, exit_nothing}
     \<and> (case output_of command of
          None \<Rightarrow> oc_written oc = []
        | Some path \<Rightarrow> \<exists>contents. oc_written oc = [(path, contents)] \<and> ow_write w path contents = FileWritten)"

lemma write_file_Inr: "write_file w path contents = Inr written \<longleftrightarrow> written = contents \<and> ow_write w path contents = FileWritten"
  by (auto simp: write_file_def split: file_write.splits)

lemma write_document_Inr:
  "write_document w print path = Inr written \<longleftrightarrow>
     ensure_parent w path = None \<and> print () = Inr written \<and> ow_write w path written = FileWritten"
  by (auto simp: write_document_def write_file_Inr split: option.splits sum.splits)

lemma write_draft_Inr:
  "write_draft w path d = Inr written \<longleftrightarrow>
     ensure_parent w path = None \<and> to_toml (ow_print_entry w) d (from_unix_millis (ow_now w)) = Inr written
     \<and> ow_write w path written = FileWritten"
  by (auto simp: write_draft_def write_file_Inr split: option.splits sum.splits)

lemmas writes_Inr = write_document_Inr write_draft_Inr write_diff_def write_snapshot_def

lemma run_snapshot_Inr:
  assumes "run_snapshot w target label = Some (Inr oc)"
  shows "\<exists>s written. snapshot_of (ow_machine w) label (from_unix_millis (ow_now w)) everything = Some (Inr s)
    \<and> write_snapshot w target s = Inr written
    \<and> oc = \<lparr>oc_code = exit_ok, oc_out = [], oc_err = snapshot_lines target s, oc_written = [(target, written)]\<rparr>"
proof -
  obtain taken where "snapshot_of (ow_machine w) label (from_unix_millis (ow_now w)) everything = Some taken"
    using assms by (auto simp: run_snapshot_def)
  with assms show ?thesis by (cases taken) (auto simp: run_snapshot_def split: sum.splits)
qed

lemma run_suggest_Inr:
  assumes "run_suggest w diff_path residue_path signer only removed target = Ret (Inr oc)"
  shows "\<exists>footprint residue d written. read_evidence w diff_path residue_path = Inr (footprint, residue)
    \<and> draft_scoped (if removed then reversed footprint else footprint) residue signer only = Ret d
    \<and> write_draft w target d = Inr written
    \<and> oc_code oc = (if draft_is_empty d then exit_nothing else exit_ok) \<and> oc_written oc = [(target, written)]"
proof -
  obtain footprint residue where evidence: "read_evidence w diff_path residue_path = Inr (footprint, residue)"
    using assms by (auto simp: run_suggest_def split: sum.splits)
  moreover obtain d where d: "draft_scoped (if removed then reversed footprint else footprint) residue signer only = Ret d"
    using assms evidence
    by (cases "draft_scoped (if removed then reversed footprint else footprint) residue signer only")
      (simp_all add: run_suggest_def)
  moreover obtain written where "write_draft w target d = Inr written"
    using assms evidence d by (cases "write_draft w target d") (simp_all add: run_suggest_def Let_def)
  ultimately show ?thesis
    using assms by (intro exI [of _ footprint] exI [of _ residue] exI [of _ d] exI [of _ written])
      (simp add: run_suggest_def Let_def)
qed

lemma run_complete:
  assumes "run_observation w command = Some (Ret (Inr oc))"
  shows "complete w command oc"
  using assms
proof (cases command)
  case (SnapshotCommand target label)
  with assms show ?thesis
    by (auto simp: complete_def writes_Inr dest!: run_snapshot_Inr)
next
  case (DiffCommand before after target no_filter)
  with assms show ?thesis
    by (auto simp: run_diff_def complete_def writes_Inr split: sum.splits)
next
  case (SuggestCommand diff_path residue signer only removed target)
  with assms show ?thesis
    by (auto simp: complete_def writes_Inr dest!: run_suggest_Inr)
next
  case (IntersectCommand paths target)
  with assms show ?thesis
    by (auto simp: run_intersect_def complete_def writes_Inr Let_def split: sum.splits)
next
  case (RefilterCommand input target)
  with assms show ?thesis
    by (auto simp: run_refilter_def complete_def writes_Inr split_beta Let_def split: sum.splits)
next
  case (RedactCommand input target also_names also_ids)
  with assms show ?thesis
    by (auto simp: run_redact_def complete_def writes_Inr split_beta Let_def split: sum.splits)
next
  case (ReviewCommand input)
  with assms show ?thesis
    by (auto simp: run_review_def complete_def Let_def split: sum.splits if_splits)
qed

text \<open>
  How a command that did not get to its end ended: its last line says why, and the only file it
  can have touched is the one it was to write, left by a write that failed.
\<close>

definition failed :: "('w, 's, 'r) obs_world \<Rightarrow> observe_command \<Rightarrow> outcome \<Rightarrow> bool" where
  "failed w command oc \<longleftrightarrow>
     oc_code oc = exit_scan_error \<and> oc_out oc = []
     \<and> (\<exists>printed e. oc_err oc = printed @ say (''error: '' @ e)
          \<and> (oc_written oc = []
             \<or> (\<exists>path contents reason left. output_of command = Some path
                  \<and> ow_write w path contents = FileFailed reason (Some left)
                  \<and> e = ''writing '' @ path @ '': '' @ reason \<and> oc_written oc = [(path, left)])))"

text \<open>The file an error leaves, and the error it leaves it with.\<close>

definition left_by_write :: "('w, 's, 'r) obs_world \<Rightarrow> string \<Rightarrow> string \<times> (string \<times> string) list \<Rightarrow> bool" where
  "left_by_write w path = (\<lambda>(e, files). files = []
     \<or> (\<exists>contents reason left. ow_write w path contents = FileFailed reason (Some left)
          \<and> e = ''writing '' @ path @ '': '' @ reason \<and> files = [(path, left)]))"

lemma stopped_writing_left:
  assumes "stopped_writing printed path we = Inl (printed', e, files)"
    and "\<And>left. snd we = Some left \<Longrightarrow>
      \<exists>contents reason. ow_write w path contents = FileFailed reason (Some left)
        \<and> fst we = ''writing '' @ path @ '': '' @ reason"
  shows "left_by_write w path (e, files)"
  using assms by (cases we; cases "snd we") (auto simp: stopped_writing_def left_by_write_def)

lemma write_file_Inl:
  "write_file w path contents = Inl we \<Longrightarrow>
     \<exists>reason. ow_write w path contents = FileFailed reason (snd we)
       \<and> fst we = ''writing '' @ path @ '': '' @ reason"
  by (auto simp: write_file_def split: file_write.splits)

lemma write_document_left:
  assumes "write_document w print path = Inl we"
    and "stopped_writing printed path we = Inl (printed', e, files)"
  shows "left_by_write w path (e, files)"
  by (rule stopped_writing_left [OF assms(2)])
    (use assms(1) in \<open>auto simp: write_document_def split: option.splits sum.splits dest!: write_file_Inl\<close>)

lemma write_draft_left:
  assumes "write_draft w path d = Inl we"
    and "stopped_writing printed path we = Inl (printed', e, files)"
  shows "left_by_write w path (e, files)"
  by (rule stopped_writing_left [OF assms(2)])
    (use assms(1) in \<open>auto simp: write_draft_def split: option.splits sum.splits dest!: write_file_Inl\<close>)

lemma nothing_left [simp]: "left_by_write w path (e, [])"
  by (simp add: left_by_write_def)

lemmas writes_left = write_document_left
  write_document_left [of w "\<lambda>_. ow_print_diff w d" for w d, folded write_diff_def]
  write_document_left [of w "\<lambda>_. ow_print_snapshot w s" for w s, folded write_snapshot_def]

lemma run_suggest_left:
  assumes "run_suggest w diff_path residue_path signer only removed path = Ret (Inl (printed, e, files))"
  shows "left_by_write w path (e, files)"
proof (cases "read_evidence w diff_path residue_path")
  case (Inr evidence)
  obtain footprint residue where evidence: "evidence = (footprint, residue)" by fastforce
  show ?thesis
  proof (cases "draft_scoped (if removed then reversed footprint else footprint) residue signer only")
    case (Ret d)
    with assms Inr show ?thesis
      by (cases "write_draft w path d")
        (auto simp: run_suggest_def Let_def evidence dest: write_draft_left)
  qed (use assms Inr in \<open>simp add: run_suggest_def Let_def evidence\<close>)
qed (use assms in \<open>simp add: run_suggest_def\<close>)

lemma run_left:
  assumes "run_observation w command = Some (Ret (Inl (printed, e, files)))"
  shows "files = [] \<or> (\<exists>path. output_of command = Some path \<and> left_by_write w path (e, files))"
  using assms
proof (cases command)
  case (SnapshotCommand target label)
  with assms obtain taken where
    "snapshot_of (ow_machine w) label (from_unix_millis (ow_now w)) everything = Some taken"
    by (auto simp: run_snapshot_def)
  with SnapshotCommand assms show ?thesis
    by (cases taken) (auto simp: run_snapshot_def dest: writes_left split: sum.splits)
next
  case (DiffCommand before after target no_filter)
  with assms show ?thesis
    by (auto simp: run_diff_def dest: writes_left split: sum.splits)
next
  case (SuggestCommand diff_path residue signer only removed target)
  with assms run_suggest_left show ?thesis by fastforce
next
  case (IntersectCommand paths target)
  with assms show ?thesis
    by (auto simp: run_intersect_def Let_def dest: writes_left split: sum.splits)
next
  case (RefilterCommand input target)
  with assms show ?thesis
    by (auto simp: run_refilter_def split_beta Let_def dest: writes_left split: sum.splits)
next
  case (RedactCommand input target also_names also_ids)
  with assms show ?thesis
    by (auto simp: run_redact_def split_beta Let_def dest: writes_left split: sum.splits)
next
  case (ReviewCommand input)
  with assms show ?thesis by (auto simp: run_review_def Let_def split: sum.splits if_splits)
qed

text \<open>A run comes to an end: a snapshot because the machine is bounded, a draft because no slice fails.\<close>

lemma evidence_read:
  assumes "read_evidence w diff_path residue_path = Inr (footprint, residue)"
    and "\<And>source d. ow_diff w source = Inr d \<Longrightarrow> ascii_diff d"
  shows "ascii_diff footprint" and "pred_option ascii_diff residue"
proof -
  have doc: "ascii_diff d" if "read_document w (ow_diff w) path = Inr d" for path d
    using that assms(2) by (auto simp: read_document_def split: sum.splits)
  show "ascii_diff footprint" "pred_option ascii_diff residue"
    using assms(1) doc
    by (auto simp: read_evidence_def read_residue_def split: sum.splits option.splits)
qed

lemma run_suggest_returns:
  assumes "\<And>source d. ow_diff w source = Inr d \<Longrightarrow> ascii_diff d"
  shows "run_suggest w diff_path residue_path signer only removed path \<noteq> Panic"
proof (cases "read_evidence w diff_path residue_path")
  case (Inr evidence)
  obtain footprint residue where evidence: "evidence = (footprint, residue)" by fastforce
  then have "ascii_diff (if removed then reversed footprint else footprint)" "pred_option ascii_diff residue"
    using evidence_read [where w = w and diff_path = diff_path and residue_path = residue_path
        and footprint = footprint and residue = residue] Inr assms reversed_ascii by auto
  then show ?thesis using draft_returns Inr evidence by (simp add: run_suggest_def Let_def)
qed (simp add: run_suggest_def)

lemma run_ends:
  assumes "bounded_machine (ow_machine w)" and "\<And>source d. ow_diff w source = Inr d \<Longrightarrow> ascii_diff d"
  shows "\<exists>r. run_observation w command = Some (Ret r)"
proof (cases command)
  case (SnapshotCommand target label)
  then show ?thesis
    using snapshot_returns [OF assms(1), of label "from_unix_millis (ow_now w)" everything]
    by (auto simp: run_snapshot_def)
next
  case (SuggestCommand diff_path residue signer only removed target)
  then show ?thesis
    using run_suggest_returns [of w diff_path residue signer only removed target] assms(2)
    by (cases "run_suggest w diff_path residue signer only removed target") simp_all
qed simp_all

text \<open>
  C30. How the observation tool ends.  On a machine whose folders and keys do not nest without
  end, and with diffs whose paths and keys are ASCII, every command returns.  Whatever returns
  either ended with success or nothing found, having written the file it was asked for, whole,
  or, being a review, none; or it is an error: the code is 2, the reason is the last line on the
  error stream, and no file was touched, but that a write that failed may have left its own file
  cut short, which the reason then says.
\<close>

theorem observation_ends:
  "(observe_main w command = Some (Ret oc) \<longrightarrow> complete w command oc \<or> failed w command oc)
   \<and> (bounded_machine (ow_machine w) \<and> (\<forall>source d. ow_diff w source = Inr d \<longrightarrow> ascii_diff d)
        \<longrightarrow> (\<exists>oc. observe_main w command = Some (Ret oc)))"
proof (intro conjI impI)
  assume "observe_main w command = Some (Ret oc)"
  then obtain r where r: "run_observation w command = Some (Ret r)" "oc = observe_outcome r"
    by (auto simp: observe_main_def map_run_eq_Ret)
  show "complete w command oc \<or> failed w command oc"
  proof (cases r)
    case (Inl failure)
    obtain printed e files where failure: "failure = (printed, e, files)" by (metis prod.exhaust)
    with r Inl have oc: "oc_code oc = exit_scan_error" "oc_out oc = []"
      "oc_err oc = printed @ say (''error: '' @ e)" "oc_written oc = files"
      by (simp_all add: observe_outcome_def)
    have "files = [] \<or> (\<exists>path. output_of command = Some path \<and> left_by_write w path (e, files))"
      using run_left r(1) Inl failure by blast
    then have "files = [] \<or> (\<exists>path contents reason left. output_of command = Some path
        \<and> ow_write w path contents = FileFailed reason (Some left)
        \<and> e = ''writing '' @ path @ '': '' @ reason \<and> files = [(path, left)])"
      unfolding left_by_write_def prod.case by blast
    then have "failed w command oc" unfolding failed_def oc by blast
    then show ?thesis ..
  next
    case (Inr oc')
    with r run_complete [of w command oc'] show ?thesis by (simp add: observe_outcome_def)
  qed
next
  assume "bounded_machine (ow_machine w) \<and> (\<forall>source d. ow_diff w source = Inr d \<longrightarrow> ascii_diff d)"
  then show "\<exists>oc. observe_main w command = Some (Ret oc)"
    using run_ends [of w command] by (auto simp: observe_main_def)
qed

lemma observed_Inr:
  assumes "observe_main w command = Some (Ret oc)" and "oc_code oc \<noteq> exit_scan_error"
  shows "run_observation w command = Some (Ret (Inr oc))"
proof -
  obtain r where r: "run_observation w command = Some (Ret r)" "oc = observe_outcome r"
    using assms(1) by (auto simp: observe_main_def map_run_eq_Ret)
  with assms(2) show ?thesis by (cases r) (auto simp: observe_outcome_def split: prod.splits)
qed

section \<open>Diffs that are written\<close>

fun writes_diff :: "observe_command \<Rightarrow> bool" where
  "writes_diff (DiffCommand _ _ _ _) = True"
| "writes_diff (IntersectCommand _ _) = True"
| "writes_diff (RefilterCommand _ _) = True"
| "writes_diff _ = False"

fun diffs_read :: "observe_command \<Rightarrow> string list" where
  "diffs_read (IntersectCommand paths _) = paths"
| "diffs_read (RefilterCommand path _) = [path]"
| "diffs_read _ = []"

lemma read_diffs_each: "read_diffs w paths = Inr ds \<Longrightarrow> list_all2 (\<lambda>path d. read_diff w path = Inr d) paths ds"
  by (induction paths arbitrary: ds) (auto split: sum.splits)

text \<open>
  C31. Every diff the tool writes, whether it compares two snapshots, intersects footprints or
  refilters a diff of an older build, is the printing of a diff in which the current policy finds
  nothing to refuse: no excluded path, emptied key or denial, and no record of an excluded key or
  with a refused value.  What it prints of a change beside its records, the key of a registry
  change and the names and data of its fields, comes from these records, and a file change shows
  no record of an excluded path; only a change that refiltering took over as it stands in a diff
  that was read, of the current format where the registry is concerned, may say more.  A
  comparison reads no diff, so its changes have no such exception.
\<close>

theorem written_diffs_private:
  assumes "observe_main w command = Some (Ret oc)" and "oc_code oc \<noteq> exit_scan_error"
    and "writes_diff command" and "(path, contents) \<in> set (oc_written oc)"
  shows "\<exists>d ds. ow_print_diff w d = Inr contents \<and> private_diff current_policy d
    \<and> list_all2 (\<lambda>path f. read_diff w path = Inr f) (diffs_read command) ds
    \<and> accounted_diff current_policy ds d"
proof -
  have run: "run_observation w command = Some (Ret (Inr oc))"
    by (rule observed_Inr [OF assms(1,2)])
  show ?thesis
  proof (cases command)
    case (DiffCommand before after target no_filter)
    with run assms(4) obtain b a flt d where "compare b a flt = Inr d" "ow_print_diff w d = Inr contents"
      by (auto simp: run_diff_def writes_Inr split: sum.splits)
    with DiffCommand show ?thesis
      using compared_diff_private compared_accounted by (auto intro!: exI [of _ d])
  next
    case (IntersectCommand paths target)
    with run assms(4) obtain fs d where "read_diffs w paths = Inr fs" "intersect fs = Inr d"
      "ow_print_diff w d = Inr contents"
      by (auto simp: run_intersect_def writes_Inr Let_def split: sum.splits)
    with IntersectCommand show ?thesis
      using intersect_private intersect_accounted read_diffs_each
      by (auto intro!: exI [of _ d] exI [of _ fs])
  next
    case (RefilterCommand input target)
    with run assms(4) obtain f where "read_diff w input = Inr f"
      "ow_print_diff w (fst (refilter f current_policy)) = Inr contents"
      by (auto simp: run_refilter_def writes_Inr Let_def split_beta split: sum.splits)
    with RefilterCommand show ?thesis
      using refilter_private [of current_policy f] refilter_accounted [of current_policy f]
      by (intro exI [of _ "fst (refilter f current_policy)"] exI [of _ "[f]"]) simp
  qed (use assms(3) in simp_all)
qed

section \<open>Redactions that succeed\<close>

definition supplied_names :: "('w, 's, 'r) obs_world \<Rightarrow> string list \<Rightarrow> string list \<Rightarrow> string list" where
  "supplied_names w also_names also_ids =
     map trim (also_names @ local_name w ''USERNAME'' @ local_name w ''COMPUTERNAME'' @ also_ids)"

text \<open>
  C32. A redaction that ends with success left no name: of every account named by a profile path
  of the document, every name and identifier given on the command line and the names of this
  computer and its account, no text of the written document, key or value, shows the name in any
  letter case, nor, in the spelling it was learned in, as bytes of a binary value.
\<close>

theorem redaction_success_is_clean:
  assumes "observe_main w (RedactCommand input target also_names also_ids) = Some (Ret oc)"
    and "oc_code oc = exit_ok"
  shows "\<exists>source document redacted contents. ow_read w input = Inr source \<and> ow_json w source = Inr document
    \<and> oc_written oc = [(target, contents)]
    \<and> render_like (ow_print_pretty w) (ow_print_json w) source redacted = Inr contents
    \<and> (\<forall>t \<in> set (texts_of redacted). \<forall>name \<in> set (discover_names document) \<union> set (supplied_names w also_names also_ids).
         name \<noteq> [] \<longrightarrow> \<not> occurs_in t name \<and> (\<exists>k. eq_ignore_ascii_case k name \<and> \<not> reveals t k))"
proof -
  have "run_redact w input target also_names also_ids = Inr oc"
    using observed_Inr [OF assms(1)] assms(2) by (simp add: exit_codes)
  moreover define r where "r document = redact_document document (names_to_remove w also_names also_ids)" for document
  ultimately obtain source document contents where
    read: "ow_read w input = Inr source" "ow_json w source = Inr document"
    and "render_like (ow_print_pretty w) (ow_print_json w) source (fst (r document)) = Inr contents"
    and "oc_written oc = [(target, contents)]"
      "oc_code oc = (if rp_residual (snd (r document)) = [] \<and> rp_skipped (snd (r document)) = []
         then exit_ok else exit_nothing)"
    by (auto simp: run_redact_def writes_Inr Let_def split_beta split: sum.splits)
  moreover obtain redacted report where redact: "r document = (redacted, report)" by (cases "r document")
  ultimately have rendered: "render_like (ow_print_pretty w) (ow_print_json w) source redacted = Inr contents"
    and oc: "oc_written oc = [(target, contents)]"
      "oc_code oc = (if rp_residual report = [] \<and> rp_skipped report = [] then exit_ok else exit_nothing)"
    by simp_all
  have none: "rp_residual report = []" "rp_skipped report = []"
    using oc(2) assms(2) by (auto simp: exit_codes split: if_splits)
  have "\<not> occurs_in t name \<and> (\<exists>k. eq_ignore_ascii_case k name \<and> \<not> reveals t k)"
    if "t \<in> set (texts_of redacted)" "name \<noteq> []"
      "name \<in> set (discover_names document) \<union> set (supplied_names w also_names also_ids)" for t name
    by (rule redaction_accounts_for [OF redact [unfolded r_def] _ that(2) _ _ that(1)])
      (use that(3) none in \<open>auto simp: supplied_names_def names_to_remove_def\<close>)
  with read rendered oc(1) show ?thesis by blast
qed

section \<open>A world\<close>

text \<open>
  Two snapshots and a document that names an account; a file's text is its own path, and every
  write succeeds.
\<close>

definition sample_obs_world :: "(unit, unit, unit) obs_world" where
  "sample_obs_world =
     \<lparr>ow_read = Inr, ow_create_dir = (\<lambda>_. None), ow_write = (\<lambda>_ _. FileWritten),
      ow_json = (\<lambda>_. Inr (JsonObject [(''path'', JsonString (win ''C:/Users/Ann/x''))])),
      ow_diff = (\<lambda>s. if s = ''a diff'' then Inr sample_install else Inl ''not a diff''),
      ow_snapshot = (\<lambda>s. Inr (if s = ''before'' then sample_before else sample_after)),
      ow_print_diff = (\<lambda>_. Inr ''diff''), ow_print_snapshot = (\<lambda>_. Inr ''snapshot''),
      ow_print_entry = (\<lambda>_. Inr ''entry''), ow_print_pretty = (\<lambda>_. Inr ''pretty''),
      ow_print_json = (\<lambda>_. Inr ''compact''),
      ow_variable = (\<lambda>v. if v = ''COMPUTERNAME'' then Some ''HOST'' else None), ow_now = 0, ow_benign = [],
      ow_machine = sample_machine\<rparr>"

lemma sample_obs_reads:
  "read_document sample_obs_world (ow_snapshot sample_obs_world) ''before'' = Inr sample_before"
  "read_document sample_obs_world (ow_snapshot sample_obs_world) ''after'' = Inr sample_after"
  by (simp_all add: read_document_def read_diff_def sample_obs_world_def)

lemma sample_obs_writes: "print () = Inr contents \<Longrightarrow> write_document sample_obs_world print path = Inr contents"
  by (auto simp: write_document_Inr ensure_parent_def sample_obs_world_def split: option.split)

lemma sample_diff_run:
  "\<exists>oc. observe_main sample_obs_world (DiffCommand ''before'' ''after'' ''out'' False) = Some (Ret oc)
     \<and> oc_code oc \<noteq> exit_scan_error \<and> oc_written oc = [(''out'', ''diff'')]"
proof -
  obtain d where d: "compare sample_before sample_after standard_filter = Inr d" using sample_compared by blast
  have "write_diff sample_obs_world ''out'' d = Inr ''diff''"
    unfolding write_diff_def by (rule sample_obs_writes) (simp add: sample_obs_world_def)
  with d show ?thesis
    by (simp add: observe_main_def run_diff_def sample_obs_reads wrote_def observe_outcome_def exit_codes)
qed

text \<open>The same world with a full disk: a file is cut to nothing and not written.\<close>

definition full_disk :: "(unit, unit, unit) obs_world" where
  "full_disk = sample_obs_world\<lparr>ow_write := \<lambda>_ _. FileFailed ''no space'' (Some [])\<rparr>"

lemma full_disk_run:
  "\<exists>oc. observe_main full_disk (DiffCommand ''before'' ''after'' ''out'' False) = Some (Ret oc)
     \<and> oc_code oc = exit_scan_error \<and> oc_written oc = [(''out'', [])]"
proof -
  obtain d where d: "compare sample_before sample_after standard_filter = Inr d" using sample_compared by blast
  have reads: "read_document full_disk (ow_snapshot full_disk) ''before'' = Inr sample_before"
    "read_document full_disk (ow_snapshot full_disk) ''after'' = Inr sample_after"
    by (simp_all add: full_disk_def read_document_def sample_obs_world_def)
  have "write_diff full_disk ''out'' d = Inl (''writing out: no space'', Some [])"
    unfolding write_diff_def
    by (simp add: write_document_def write_file_def ensure_parent_def full_disk_def sample_obs_world_def
        split: option.split)
  with d show ?thesis
    by (simp add: observe_main_def run_diff_def reads stopped_writing_def observe_outcome_def)
qed

theorem observation_ends_witness:
  "(\<exists>oc. observe_main full_disk (DiffCommand ''before'' ''after'' ''out'' False) = Some (Ret oc)
      \<and> failed full_disk (DiffCommand ''before'' ''after'' ''out'' False) oc \<and> oc_written oc = [(''out'', [])])
   \<and> (\<exists>oc. observe_main sample_obs_world (SuggestCommand ''a diff'' None (Some ''Ex'') [] False ''out'')
        = Some (Ret oc))"
proof
  let ?diff = "DiffCommand ''before'' ''after'' ''out'' False"
  obtain oc where oc: "observe_main full_disk ?diff = Some (Ret oc)" "oc_code oc = exit_scan_error"
    "oc_written oc = [(''out'', [])]" using full_disk_run by blast
  then have "\<not> complete full_disk ?diff oc" by (simp add: complete_def exit_codes)
  with oc observation_ends [of full_disk ?diff oc]
  show "\<exists>oc. observe_main full_disk ?diff = Some (Ret oc) \<and> failed full_disk ?diff oc \<and> oc_written oc = [(''out'', [])]"
    by blast
next
  have "bounded_machine (ow_machine sample_obs_world)"
    by (simp add: sample_obs_world_def sample_machine_bounded)
  moreover have "ascii_diff sample_install" by code_simp
  then have "\<forall>source d. ow_diff sample_obs_world source = Inr d \<longrightarrow> ascii_diff d"
    by (simp add: sample_obs_world_def)
  ultimately show "\<exists>oc. observe_main sample_obs_world
      (SuggestCommand ''a diff'' None (Some ''Ex'') [] False ''out'') = Some (Ret oc)"
    using observation_ends [of sample_obs_world "SuggestCommand ''a diff'' None (Some ''Ex'') [] False ''out''"]
    by blast
qed

theorem written_diffs_private_witness:
  "\<exists>d. ow_print_diff sample_obs_world d = Inr ''diff'' \<and> private_diff current_policy d
     \<and> accounted_diff current_policy [] d"
proof -
  obtain oc where run: "observe_main sample_obs_world (DiffCommand ''before'' ''after'' ''out'' False) = Some (Ret oc)"
    and "oc_code oc \<noteq> exit_scan_error" and "oc_written oc = [(''out'', ''diff'')]"
    using sample_diff_run by blast
  then show ?thesis using written_diffs_private [OF run, of "''out''" "''diff''"] by simp
qed

theorem redaction_success_is_clean_witness:
  "\<exists>oc. observe_main sample_obs_world (RedactCommand ''a'' ''b'' [] []) = Some (Ret oc) \<and> oc_code oc = exit_ok
     \<and> (\<exists>redacted. \<forall>t \<in> set (texts_of redacted). \<not> occurs_in t ''Ann'' \<and> \<not> occurs_in t ''HOST'')"
proof -
  let ?v = "JsonObject [(''path'', JsonString (win ''C:/Users/Ann/x''))]"
  have names: "names_to_remove sample_obs_world [] [] = \<lparr>ex_accounts = [], ex_computers = [''HOST''], ex_identifiers = []\<rparr>"
    and supplied: "supplied_names sample_obs_world [] [] = [''HOST'']" by code_simp+
  let ?clean = "JsonObject [(''path'', JsonString (win ''C:/Users/%USER%/x''))]"
  let ?report = "\<lparr>rp_applied = [(''%USER%'', 1)], rp_names = [''Ann''], rp_computers = [''HOST''],
        rp_identifiers = 0, rp_skipped = [], rp_residual = []\<rparr>"
  have redacted: "redact_document ?v (names_to_remove sample_obs_world [] []) = (?clean, ?report)"
    unfolding names by code_simp
  have json: "ow_json sample_obs_world t = Inr ?v" "ow_read sample_obs_world t = Inr t" for t
    by (simp_all add: sample_obs_world_def)
  obtain p where "render_like (ow_print_pretty sample_obs_world) (ow_print_json sample_obs_world) ''a'' ?clean = Inr p"
    by (cases "CHR 0x0A \<in> set (trim ''a'')") (simp_all add: render_like_def sample_obs_world_def)
  then have "write_document sample_obs_world (\<lambda>_. render_like (ow_print_pretty sample_obs_world)
      (ow_print_json sample_obs_world) ''a'' ?clean) ''b'' = Inr p"
    by (rule sample_obs_writes)
  then have "run_redact sample_obs_world ''a'' ''b'' [] [] = wrote exit_ok (redaction_lines ''b'' ?report) ''b'' p"
    unfolding run_redact_def json redacted sum.case Let_def prod.case
    by (simp only: sum.case redaction_report.simps simp_thms if_True)
  then obtain oc where oc: "observe_main sample_obs_world (RedactCommand ''a'' ''b'' [] []) = Some (Ret oc)"
    and code: "oc_code oc = exit_ok"
    by (simp add: observe_main_def wrote_def observe_outcome_def)
  have "''Ann'' \<in> set (discover_names ?v)" by code_simp
  with redaction_success_is_clean [OF oc code] oc code show ?thesis by (auto simp: json supplied)
qed

section \<open>A driver on its own\<close>

text \<open>
  A signed driver file with no service, key or other file: the draft lists it, and the tool says
  that there is nothing to describe and ends as if nothing was found.
\<close>

definition driver_only :: diff where
  "driver_only =
     sample_install
       \<lparr>df_services := [], df_registry := [],
        df_files := [signed_change ''C:/Windows/System32/drivers/a.sys'' ''Ex'' True]\<rparr>"

lemma driver_only_parts:
  "driver_names (weigh driver_only None (Some ''Ex'') []) = [''a.sys'']"
  "service_names (weigh driver_only None (Some ''Ex'') []) = []"
  "map_run fst (path_entries driver_only None (ev_attribution (weigh driver_only None (Some ''Ex'') []))
     (drafted_exceptions (weigh driver_only None (Some ''Ex'') []))) = Ret []"
  "map_run fst (registry_entries driver_only (ev_attribution (weigh driver_only None (Some ''Ex'') []))
     (drafted_exceptions (weigh driver_only None (Some ''Ex'') []))) = Ret []"
  "note_scope driver_only None (Some ''Ex'') [] = Ret []"
  "outside_games driver_only None = ((driver_only, None), [])"
  by code_simp+

lemma driver_alone_is_nothing:
  "\<exists>d. draft_scoped driver_only None (Some ''Ex'') [] = Ret d \<and> ac_drivers (dt_entry d) = [''a.sys'']
     \<and> draft_is_empty d"
proof -
  let ?ev = "weigh driver_only None (Some ''Ex'') []"
  obtain path_notes registry_notes
    where p: "path_entries driver_only None (ev_attribution ?ev) (drafted_exceptions ?ev) = Ret ([], path_notes)"
    and k: "registry_entries driver_only (ev_attribution ?ev) (drafted_exceptions ?ev) = Ret ([], registry_notes)"
    using driver_only_parts(3,4) by (auto simp: map_run_eq_Ret simp flip: split_paired_Ex)
  have "\<exists>d. draft_from driver_only None (Some ''Ex'') [] signers remarks ?ev = Ret d
      \<and> ac_drivers (dt_entry d) = [''a.sys''] \<and> draft_is_empty d" for signers remarks
    unfolding draft_from_def Let_def p k driver_only_parts(5)
    by (simp add: split_beta drafted_entry_def draft_is_empty_def driver_only_parts(1,2))
  then show ?thesis
    unfolding draft_scoped_def driver_only_parts(6)
    by (simp add: choose_signer_def scope_texts_def Let_def)
qed

end
