(* ===== verification/Review_Shapes.thy ===== *)
theory Review_Shapes
  imports Review
begin

text \<open>
  The shapes a review looks for, said position by position: a run of digits or of hexadecimal
  digits that stands alone, a GUID that does, the name of a machine key.  The scans of \<open>Review\<close>
  find exactly these, in the order of the text.
\<close>

section \<open>Runs\<close>

text \<open>A longest run of bytes a predicate accepts.\<close>

definition is_run :: "string \<Rightarrow> (char \<Rightarrow> bool) \<Rightarrow> nat \<Rightarrow> nat \<Rightarrow> bool" where
  "is_run t accept i n \<longleftrightarrow>
     0 < n \<and> i + n \<le> length t \<and> list_all accept (take n (drop i t))
     \<and> (i = 0 \<or> \<not> accept (t ! (i - 1))) \<and> (i + n = length t \<or> \<not> accept (t ! (i + n)))"

lemma takeWhile_exact:
  "n \<le> length s \<Longrightarrow> list_all accept (take n s) \<Longrightarrow> n = length s \<or> \<not> accept (s ! n) \<Longrightarrow>
   takeWhile accept s = take n s"
proof (induction s arbitrary: n)
  case (Cons c s)
  then show ?case by (cases n) auto
qed simp

lemma runs_from_complete:
  assumes "is_run t accept i n" and "minimum \<le> n" and "run_alone t i (i + n)"
  shows "start \<le> i \<Longrightarrow> (i, take n (drop i t)) \<in> set (runs_from t minimum accept start)"
proof (induction "length t - start" arbitrary: start rule: less_induct)
  case less
  have bounds: "0 < n" "i + n \<le> length t" using assms(1) by (auto simp: is_run_def)
  have "\<forall>k<n. accept (t ! (i + k))" using assms(1) by (auto simp: is_run_def list_all_length)
  with bounds(1) have here: "accept (t ! i)" by (metis add_0_right)
  have run_i: "takeWhile accept (drop i t) = take n (drop i t)"
    using assms(1) by (intro takeWhile_exact) (auto simp: is_run_def)
  show ?case
  proof (cases "start = i")
    case True
    then show ?thesis
      using bounds here assms(2,3) by (subst runs_from.simps) (simp add: run_i Let_def min_absorb2)
  next
    case False
    then have "start < i" using less.prems by simp
    show ?thesis
    proof (cases "accept (t ! start)")
      case accepted: False
      have "(i, take n (drop i t)) \<in> set (runs_from t minimum accept (Suc start))"
        using \<open>start < i\<close> bounds by (intro less.hyps) simp_all
      then show ?thesis using accepted \<open>start < i\<close> bounds by (subst runs_from.simps) simp
    next
      case accepted: True
      let ?run = "takeWhile accept (drop start t)"
      have "\<not> accept (t ! (i - 1))" using assms(1) \<open>start < i\<close> by (auto simp: is_run_def)
      have "length ?run \<le> i - 1 - start"
      proof (rule ccontr)
        assume "\<not> length ?run \<le> i - 1 - start"
        then have "i - 1 - start < length ?run" by simp
        from takeWhile_nth [OF this] set_takeWhileD [OF nth_mem [OF this]]
        have "accept (drop start t ! (i - 1 - start))" by metis
        with \<open>\<not> accept (t ! (i - 1))\<close> \<open>start < i\<close> bounds show False by simp
      qed
      then have "start + length ?run \<le> i" using \<open>start < i\<close> by simp
      moreover have "0 < length ?run"
        using run_not_empty [of start t accept] accepted \<open>start < i\<close> bounds by simp
      ultimately have "(i, take n (drop i t)) \<in> set (runs_from t minimum accept (start + length ?run))"
        using \<open>start < i\<close> bounds by (intro less.hyps diff_less_mono2) simp_all
      then show ?thesis
        using accepted \<open>start < i\<close> bounds by (subst runs_from.simps) (simp add: Let_def)
    qed
  qed
qed

lemma runs_complete:
  "is_run t accept i n \<Longrightarrow> minimum \<le> n \<Longrightarrow> run_alone t i (i + n) \<Longrightarrow>
   (i, take n (drop i t)) \<in> set (runs t minimum accept)"
  unfolding runs_def by (rule runs_from_complete) simp_all

text \<open>A run of letters or digits of one sort that stands alone is a longest one.\<close>

lemma lone_run:
  assumes "\<And>c. accept c \<Longrightarrow> is_ascii_alphanumeric c"
    and "0 < n" "i + n \<le> length t" "list_all accept (take n (drop i t))" "run_alone t i (i + n)"
  shows "is_run t accept i n"
  using assms by (auto simp: is_run_def run_alone_def)

text \<open>The shapes, where the code looks for them.\<close>

definition lone_digits :: "string \<Rightarrow> nat \<Rightarrow> nat \<Rightarrow> bool" where
  "lone_digits t i n \<longleftrightarrow>
     min_digits \<le> n \<and> i + n \<le> length t \<and> list_all is_digit_byte (take n (drop i t)) \<and> run_alone t i (i + n)"

definition lone_hash :: "string \<Rightarrow> nat \<Rightarrow> nat \<Rightarrow> bool" where
  "lone_hash t i n \<longleftrightarrow>
     min_hex \<le> n \<and> i + n \<le> length t \<and> list_all is_hexdigit_byte (take n (drop i t))
     \<and> list_ex is_digit_byte (take n (drop i t)) \<and> list_ex is_alphabetic_byte (take n (drop i t))
     \<and> run_alone t i (i + n)"

lemma hexdigit_alphanumeric: "is_hexdigit_byte c \<Longrightarrow> is_ascii_alphanumeric c"
  by (auto simp: is_hexdigit_byte_def is_ascii_alphanumeric_def is_alphabetic_byte_def is_upper_byte_def
      is_lower_byte_def)

lemma find_sub_first:
  "c \<notin> set a \<Longrightarrow> find_sub (a @ c # b) [c] = Some (length a)"
  by (induction a) auto

lemma guid_at_first_group:
  assumes "guid_at t at"
  shows "at + 8 < length t" and "list_all is_hexdigit_byte (take 8 (drop at t))" and "t ! (at + 8) = CHR ''-''"
  using assms by (auto simp: guid_at_def guid_groups_def Let_def hd_drop_conv_nth add.commute)

text \<open>A scan from a place where no run is cut in two finds runs only, and in order.\<close>

definition between_runs :: "string \<Rightarrow> (char \<Rightarrow> bool) \<Rightarrow> nat \<Rightarrow> bool" where
  "between_runs t accept start \<longleftrightarrow>
     start = 0 \<or> length t \<le> start \<or> \<not> accept (t ! (start - 1)) \<or> \<not> accept (t ! start)"

lemma run_at_start:
  assumes "start < length t" and "accept (t ! start)" and "between_runs t accept start"
  defines "n \<equiv> length (takeWhile accept (drop start t))"
  shows "is_run t accept start n" and "takeWhile accept (drop start t) = take n (drop start t)"
proof -
  show taken: "takeWhile accept (drop start t) = take n (drop start t)"
    unfolding n_def by (metis takeWhile_eq_take)
  have "0 < n" using run_not_empty [of start t accept] assms(1,2) by (simp add: n_def)
  moreover have room: "start + n \<le> length t"
    using length_takeWhile_le [of accept "drop start t"] assms(1) by (simp add: n_def)
  moreover have "list_all accept (take n (drop start t))"
    unfolding taken [symmetric] by (auto simp: list_all_iff dest: set_takeWhileD)
  moreover have "start + n = length t \<or> \<not> accept (t ! (start + n))"
  proof (cases "start + n = length t")
    case False
    with room have "length (takeWhile accept (drop start t)) < length (drop start t)" by (simp add: n_def)
    from nth_length_takeWhile [OF this] show ?thesis using room by (simp add: n_def)
  qed simp
  ultimately show "is_run t accept start n"
    using assms(1-3) by (auto simp: is_run_def between_runs_def)
qed

lemma runs_from_sound:
  "between_runs t accept start \<Longrightarrow> (i, v) \<in> set (runs_from t minimum accept start) \<Longrightarrow>
   start \<le> i \<and> (\<exists>n. is_run t accept i n \<and> minimum \<le> n \<and> run_alone t i (i + n) \<and> v = take n (drop i t))"
proof (induction t minimum accept start rule: runs_from.induct)
  case (1 t minimum accept start)
  show ?case
  proof (cases "length t \<le> start")
    case True
    with 1(4) show ?thesis by (simp add: runs_from.simps)
  next
    case inside: False
    show ?thesis
    proof (cases "accept (t ! start)")
      case False
      then have "between_runs t accept (Suc start)" by (simp add: between_runs_def)
      moreover have "(i, v) \<in> set (runs_from t minimum accept (Suc start))"
        using 1(4) inside False by (subst (asm) runs_from.simps) simp
      ultimately show ?thesis using 1(1) inside False by auto
    next
      case True
      let ?run = "takeWhile accept (drop start t)"
      let ?stop = "start + length ?run"
      note run = run_at_start [OF _ True 1(3)]
      have "between_runs t accept ?stop"
        using run(1) inside by (auto simp: is_run_def between_runs_def)
      note later = 1(2) [OF inside _ refl refl this]
      have "(i, v) \<in> set (runs_from t minimum accept ?stop)
          \<or> i = start \<and> v = ?run \<and> minimum \<le> length ?run \<and> run_alone t start ?stop"
        using 1(4) inside True by (subst (asm) runs_from.simps) (auto simp: Let_def split: if_splits)
      then show ?thesis
      proof
        assume "(i, v) \<in> set (runs_from t minimum accept ?stop)"
        with later True show ?thesis by auto
      next
        assume "i = start \<and> v = ?run \<and> minimum \<le> length ?run \<and> run_alone t start ?stop"
        then show ?thesis using run inside by (metis le_refl not_le)
      qed
    qed
  qed
qed

lemma runs_exact:
  "(i, v) \<in> set (runs t minimum accept) \<longleftrightarrow>
     (\<exists>n. is_run t accept i n \<and> minimum \<le> n \<and> run_alone t i (i + n) \<and> v = take n (drop i t))"
proof -
  have "between_runs t accept 0" by (simp add: between_runs_def)
  then show ?thesis using runs_from_sound [of t accept 0 i v minimum] runs_complete by (auto simp: runs_def)
qed

lemma runs_from_spaced:
  "sorted_wrt (\<lambda>a b. fst a + length (snd a) \<le> fst b) (runs_from t minimum accept start)
   \<and> (\<forall>x \<in> set (runs_from t minimum accept start). start \<le> fst x)"
proof (induction t minimum accept start rule: runs_from.induct)
  case (1 t minimum accept start)
  show ?case
  proof (cases "length t \<le> start \<or> \<not> accept (t ! start)")
    case True
    then show ?thesis
      using 1(1) by (subst (1 2) runs_from.simps) (auto intro: Suc_leD)
  next
    case False
    let ?run = "takeWhile accept (drop start t)"
    have "sorted_wrt (\<lambda>a b. fst a + length (snd a) \<le> fst b) (runs_from t minimum accept (start + length ?run))
        \<and> (\<forall>x \<in> set (runs_from t minimum accept (start + length ?run)). start + length ?run \<le> fst x)"
      using 1(2) False by blast
    with False show ?thesis
      by (subst (1 2) runs_from.simps) (auto simp: Let_def)
  qed
qed

section \<open>Spots\<close>

text \<open>The positions of a text where something of a certain length is, in order, with the text there.\<close>

definition spots :: "string \<Rightarrow> (nat \<Rightarrow> nat) \<Rightarrow> (nat \<Rightarrow> nat \<Rightarrow> bool) \<Rightarrow> (nat \<times> string) list" where
  "spots t len P =
     map (\<lambda>i. (i, take (len i) (drop i t))) (filter (\<lambda>i. P i (len i)) [0..<length t])"

abbreviation in_order :: "(nat \<times> 'a) list \<Rightarrow> bool" where
  "in_order \<equiv> sorted_wrt (\<lambda>a b. fst a < fst b)"

lemma in_order_unique: "in_order xs \<Longrightarrow> in_order ys \<Longrightarrow> set xs = set ys \<Longrightarrow> xs = ys"
proof (induction xs arbitrary: ys)
  case (Cons x xs)
  then obtain y ys' where ys: "ys = y # ys'" by (cases ys) auto
  have "x = y"
  proof (rule ccontr)
    assume "x \<noteq> y"
    moreover have "x \<in> set ys" "y \<in> set (x # xs)" using Cons.prems(3) ys by auto
    ultimately have "fst y < fst x" "fst x < fst y" using Cons.prems(1,2) ys by auto
    then show False by simp
  qed
  moreover have "x \<notin> set xs" "y \<notin> set ys'" using Cons.prems(1,2) ys by auto
  ultimately have "set xs = set ys'" using Cons.prems(3) unfolding ys by (simp add: insert_ident)
  with Cons.IH [of ys'] Cons.prems(1,2) \<open>x = y\<close> show ?case by (simp add: ys)
qed simp

lemma spots_in_order: "in_order (spots t len P)"
proof -
  have "sorted_wrt (<) (filter (\<lambda>i. P i (len i)) [0..<length t])"
    by (intro sorted_wrt_filter) simp
  then show ?thesis unfolding spots_def by (simp add: sorted_wrt_map)
qed

lemma spots_eqI:
  assumes "in_order xs"
    and "\<And>i v. (i, v) \<in> set xs \<longleftrightarrow> i < length t \<and> P i (len i) \<and> v = take (len i) (drop i t)"
  shows "xs = spots t len P"
proof (rule in_order_unique [OF assms(1) spots_in_order])
  show "set xs = set (spots t len P)" using assms(2) by (auto simp: spots_def)
qed

definition run_length :: "(char \<Rightarrow> bool) \<Rightarrow> string \<Rightarrow> nat \<Rightarrow> nat" where
  "run_length accept t i = length (takeWhile accept (drop i t))"

definition digits_in :: "string \<Rightarrow> (nat \<times> string) list" where
  "digits_in t = spots t (run_length is_digit_byte t) (lone_digits t)"

definition hashes_in :: "string \<Rightarrow> (nat \<times> string) list" where
  "hashes_in t = spots t (run_length is_hexdigit_byte t) (lone_hash t)"

definition guids_in :: "string \<Rightarrow> (nat \<times> string) list" where
  "guids_in t = spots t (\<lambda>_. 36) (\<lambda>i n. i + n \<le> length t \<and> lone_guid_at t i)"

text \<open>
  Thirty-two hexadecimal digits, an underscore and a GUID, where the hexadecimal digits that end
  there have no underscore and no letter or digit before them.
\<close>

definition key_file_name :: "string \<Rightarrow> nat \<Rightarrow> bool" where
  "key_file_name t i \<longleftrightarrow>
     i + 69 \<le> length t \<and> list_all is_hexdigit_byte (take 32 (drop i t)) \<and> t ! (i + 32) = CHR ''_''
     \<and> guid_at t (i + 33)
     \<and> (\<exists>s \<le> i. list_all is_hexdigit_byte (take (i - s) (drop s t))
          \<and> (s = 0 \<or> \<not> is_ascii_alphanumeric (t ! (s - 1)) \<and> t ! (s - 1) \<noteq> CHR ''_''))"

definition keys_in :: "string \<Rightarrow> (nat \<times> string) list" where
  "keys_in t = spots t (\<lambda>_. 69) (\<lambda>i _. key_file_name t i)"

lemma run_length_is_run:
  assumes "is_run t accept i n"
  shows "run_length accept t i = n"
proof -
  have n: "n \<le> length (drop i t)" and "list_all accept (take n (drop i t))"
    and "n = length (drop i t) \<or> \<not> accept (drop i t ! n)"
    using assms by (auto simp: is_run_def)
  then have "takeWhile accept (drop i t) = take n (drop i t)" by (rule takeWhile_exact)
  with n show ?thesis by (simp add: run_length_def min_absorb2)
qed

lemma runs_in_order: "in_order (runs t minimum accept)"
proof -
  have "sorted_wrt (\<lambda>a b. fst a + length (snd a) \<le> fst b) (runs t minimum accept)"
    using runs_from_spaced by (simp add: runs_def)
  moreover have "0 < length (snd x)" if "x \<in> set (runs t minimum accept)" for x
    using that runs_exact [of "fst x" "snd x" t minimum accept] by (auto simp: is_run_def)
  ultimately show ?thesis
    by (elim sorted_wrt_mono_rel [rotated]) (metis add_less_cancel_left add_0_right order.strict_trans2)
qed

text \<open>What a scan for runs finds, when each spot is a long enough run that stands alone.\<close>

lemma runs_spots:
  assumes "\<And>i n. P i n \<longleftrightarrow> is_run t accept i n \<and> minimum \<le> n \<and> run_alone t i (i + n) \<and> Q (take n (drop i t))"
  shows "filter (\<lambda>(_, v). Q v) (runs t minimum accept) = spots t (run_length accept t) P"
proof (rule spots_eqI)
  show "in_order (filter (\<lambda>(_, v). Q v) (runs t minimum accept))" by (intro sorted_wrt_filter runs_in_order)
next
  fix i v
  have inside: "is_run t accept i n \<Longrightarrow> i < length t" for n by (simp add: is_run_def)
  show "(i, v) \<in> set (filter (\<lambda>(_, v). Q v) (runs t minimum accept))
      \<longleftrightarrow> i < length t \<and> P i (run_length accept t i) \<and> v = take (run_length accept t i) (drop i t)"
    unfolding set_filter mem_Collect_eq prod.case runs_exact assms
    using run_length_is_run inside by blast
qed

lemma digits_found: "runs t min_digits is_digit_byte = digits_in t"
proof -
  have "lone_digits t i n \<longleftrightarrow> is_run t is_digit_byte i n \<and> min_digits \<le> n \<and> run_alone t i (i + n) \<and> True"
    for i n
    using lone_run [of is_digit_byte n i t]
    by (auto simp: lone_digits_def is_run_def min_digits_def is_ascii_alphanumeric_def)
  from runs_spots [of "lone_digits t" t is_digit_byte min_digits "\<lambda>_. True", OF this]
  show ?thesis by (simp add: digits_in_def)
qed

lemma hashes_found:
  "filter (\<lambda>(_, v). list_ex is_digit_byte v \<and> list_ex is_alphabetic_byte v) (runs t min_hex is_hexdigit_byte)
   = hashes_in t"
proof -
  have "lone_hash t i n \<longleftrightarrow> is_run t is_hexdigit_byte i n \<and> min_hex \<le> n \<and> run_alone t i (i + n)
      \<and> (list_ex is_digit_byte (take n (drop i t)) \<and> list_ex is_alphabetic_byte (take n (drop i t)))" for i n
    using lone_run [of is_hexdigit_byte n i t]
    by (auto simp: lone_hash_def is_run_def min_hex_def hexdigit_alphanumeric)
  from runs_spots [of "lone_hash t" t is_hexdigit_byte min_hex
      "\<lambda>v. list_ex is_digit_byte v \<and> list_ex is_alphabetic_byte v", OF this]
  show ?thesis by (simp add: hashes_in_def)
qed

section \<open>GUIDs\<close>

lemma group_nth: "list_all P (take n (drop b t)) \<Longrightarrow> b + n \<le> length t \<Longrightarrow> k < n \<Longrightarrow> P (t ! (b + k))"
  by (auto simp: list_all_length)

lemma guid_at_nth:
  assumes "guid_at t at"
  shows "at + 36 \<le> length t" and "\<forall>d \<in> {8, 13, 18, 23}. t ! (at + d) = CHR ''-''"
    and "d < 36 \<Longrightarrow> d \<notin> {8, 13, 18, 23} \<Longrightarrow> is_hexdigit_byte (t ! (at + d))"
proof -
  have size: "at + 36 \<le> length t"
    and groups: "list_all is_hexdigit_byte (take 8 (drop at t))"
      "list_all is_hexdigit_byte (take 4 (drop (at + 9) t))"
      "list_all is_hexdigit_byte (take 4 (drop (at + 14) t))"
      "list_all is_hexdigit_byte (take 4 (drop (at + 19) t))"
      "list_all is_hexdigit_byte (take 12 (drop (at + 24) t))"
    and hyphens: "\<forall>d \<in> {8, 13, 18, 23}. t ! (at + d) = CHR ''-''"
    using assms
    by (auto simp: guid_at_def guid_groups_def Let_def hd_drop_conv_nth drop_Suc [symmetric] tl_drop add.commute)
  show "at + 36 \<le> length t" "\<forall>d \<in> {8, 13, 18, 23}. t ! (at + d) = CHR ''-''" by (fact size hyphens)+
  show "is_hexdigit_byte (t ! (at + d))" if "d < 36" "d \<notin> {8, 13, 18, 23}"
  proof -
    have "d < 8 \<or> 9 \<le> d \<and> d < 13 \<or> 14 \<le> d \<and> d < 18 \<or> 19 \<le> d \<and> d < 23 \<or> 24 \<le> d"
      using that(2) by simp arith
    then show ?thesis
      using group_nth [OF groups(1), of d] group_nth [OF groups(2), of "d - 9"]
        group_nth [OF groups(3), of "d - 14"] group_nth [OF groups(4), of "d - 19"]
        group_nth [OF groups(5), of "d - 24"] size that(1)
      by (elim disjE) (auto simp: less_diff_conv2)
  qed
qed

lemma hyphen_no_hex [simp]: "\<not> is_hexdigit_byte (CHR ''-'')"
  by (simp add: is_hexdigit_byte_def is_digit_byte_def)

lemma lone_guids_apart:
  assumes "lone_guid_at t i" and "i < j" and "j < i + 36"
  shows "\<not> lone_guid_at t j"
proof
  assume j: "lone_guid_at t j"
  have here: "guid_at t i" and there: "guid_at t j" using assms(1) j by (simp_all add: lone_guid_at_def)
  define d where "d = j - i"
  with assms have d: "j = i + d" "0 < d" "d < 36" by auto
  have "\<not> is_hexdigit_byte (t ! (i + (d - 1)))" using j d by (auto simp: lone_guid_at_def)
  moreover have "d - 1 < 36" using d by simp
  ultimately have "d - 1 \<in> {8, 13, 18, 23}" using guid_at_nth(3) [OF here] by blast
  then consider "d = 9" | "d = 14" | "d = 19" | "d = 24" using d(2) by auto
  then show False
    using guid_at_nth(2) [OF here] guid_at_nth(3) [OF there, of 4] guid_at_nth(2) [OF there]
      guid_at_nth(3) [OF here, of 32] d(1)
    by cases (auto simp: add.assoc)
qed

lemma guids_found: "guids t = guids_in t"
proof -
  let ?P = "lone_guid_at t"
  have "pick ?P 36 (length t - 35) 0 0 = filter ?P [0..<length t - 35]"
    using pick_misses_none [of ?P 36 "\<lambda>_. True" 0 0 "length t - 35"] lone_guids_apart by simp
  also have "\<dots> = filter (\<lambda>i. i + 36 \<le> length t \<and> ?P i) [0..<length t]"
  proof -
    have "[0..<length t] = [0..<length t - 35] @ [length t - 35..<length t]"
      using upt_add_eq_append [of 0 "length t - 35" "length t - (length t - 35)"] by simp
    moreover have "filter (\<lambda>i. i + 36 \<le> length t \<and> ?P i) [length t - 35..<length t] = []"
      by (auto simp: filter_empty_conv)
    moreover have "filter (\<lambda>i. i + 36 \<le> length t \<and> ?P i) [0..<length t - 35] = filter ?P [0..<length t - 35]"
      by (rule filter_cong [OF refl]) auto
    ultimately show ?thesis by (simp only: filter_append append_Nil2)
  qed
  finally show ?thesis by (simp add: guids_def guids_in_def spots_def)
qed

section \<open>Machine keys\<close>

lemma find_sub_char:
  "find_sub s [c] = Some n \<Longrightarrow> n < length s \<and> s ! n = c \<and> c \<notin> set (take n s)"
proof (induction s arbitrary: n)
  case (Cons x s)
  then show ?case by (cases n) (auto split: if_splits)
qed simp

lemma key_run_sound:
  assumes "is_run t key_byte s n" and "run_alone t s (s + n)"
    and "machine_key_of t (s, take n (drop s t)) = Some (p, v)"
  shows "s \<le> p \<and> p < s + n \<and> key_file_name t p \<and> v = take 69 (drop p t)"
proof -
  let ?run = "take n (drop s t)"
  obtain m where sep: "find_sub ?run ''_'' = Some m" and m: "32 \<le> m" and guid: "guid_at t (s + m + 1)"
    and p: "p = s + m - 32" and v: "v = take 69 (drop (s + m - 32) t)"
    using assms(3) by (auto simp: machine_key_of_def split: option.splits if_splits)
  have n: "s + n \<le> length t" "list_all key_byte ?run" using assms(1) by (auto simp: is_run_def)
  have at: "m < n" "t ! (s + m) = CHR ''_''" and none: "CHR ''_'' \<notin> set (take m ?run)"
    using find_sub_char [OF sep] n(1) by auto
  have "take m ?run = take m (drop s t)" using at(1) by (simp add: min_def)
  then have hex: "list_all is_hexdigit_byte (take m (drop s t))"
    using none n(2) \<open>m < n\<close> set_take_subset_set_take [of m n "drop s t"]
    by (force simp: list_all_iff key_byte_def)
  have split: "take m (drop s t) = take (m - 32) (drop s t) @ take 32 (drop p t)"
  proof -
    have "take (m - 32 + 32) (drop s t) = take (m - 32) (drop s t) @ take 32 (drop (m - 32) (drop s t))"
      by (rule take_add)
    then show ?thesis using m p by (simp add: add.commute)
  qed
  with hex have parts: "list_all is_hexdigit_byte (take (p - s) (drop s t))"
    "list_all is_hexdigit_byte (take 32 (drop p t))"
    using m p by (simp_all add: list_all_append)
  have "s = 0 \<or> \<not> is_ascii_alphanumeric (t ! (s - 1)) \<and> t ! (s - 1) \<noteq> CHR ''_''"
    using assms(1,2) by (auto simp: run_alone_def is_run_def key_byte_def)
  then have "key_file_name t p"
    using parts guid guid_at_nth(1) [OF guid] at(2) m p unfolding key_file_name_def
    by (auto intro!: exI [of _ s])
  then show ?thesis using v p m at(1) by auto
qed

lemma key_run_complete:
  assumes "key_file_name t p"
  shows "(p, take 69 (drop p t)) \<in> set (machine_keys t)"
proof -
  from assms obtain s where s: "s \<le> p" "list_all is_hexdigit_byte (take (p - s) (drop s t))"
    and before_s: "s = 0 \<or> \<not> is_ascii_alphanumeric (t ! (s - 1)) \<and> t ! (s - 1) \<noteq> CHR ''_''"
    and hex: "list_all is_hexdigit_byte (take 32 (drop p t))" and sep: "t ! (p + 32) = CHR ''_''"
    and guid: "guid_at t (p + 33)" and room: "p + 69 \<le> length t"
    unfolding key_file_name_def by blast
  let ?m = "p - s + 32"
  let ?n = "?m + 9"
  have digits: "take ?m (drop s t) = take (p - s) (drop s t) @ take 32 (drop p t)"
    using s(1) take_add [of "p - s" 32 "drop s t"] by simp
  have "drop p t = take 32 (drop p t) @ drop (p + 32) t" by (metis append_take_drop_id drop_drop add.commute)
  have tail: "drop (p + 32) t = CHR ''_'' # drop (p + 33) t"
    using sep room Cons_nth_drop_Suc [of "p + 32" t] by (simp add: add.commute)
  have run: "take ?n (drop s t) = take ?m (drop s t) @ CHR ''_'' # take 8 (drop (p + 33) t)"
  proof -
    have "take ?n (drop s t) = take ?m (drop s t) @ take 9 (drop (p + 32) t)"
      using s(1) take_add [of ?m 9 "drop s t"] by (simp add: add.commute add.left_commute)
    then show ?thesis by (simp add: tail)
  qed
  have all_hex: "list_all is_hexdigit_byte (take ?m (drop s t))" using s(2) hex by (simp add: digits)
  have "list_all key_byte (take ?n (drop s t))"
    using all_hex guid_at_first_group(2) [OF guid] unfolding run by (auto simp: list_all_iff key_byte_def)
  moreover have "s = 0 \<or> \<not> key_byte (t ! (s - 1))"
    using before_s hexdigit_alphanumeric by (auto simp: key_byte_def)
  moreover have "\<not> key_byte (t ! (s + ?n))"
    using guid_at_first_group(3) [OF guid] s(1) by (simp add: key_byte_def add.commute)
  ultimately have "is_run t key_byte s ?n" using s(1) room by (simp add: is_run_def)
  moreover have "run_alone t s (s + ?n)"
    using s(1) before_s guid_at_first_group(3) [OF guid]
    by (auto simp: run_alone_def is_ascii_alphanumeric_def add.commute is_digit_byte_def
        is_alphabetic_byte_def is_upper_byte_def is_lower_byte_def)
  ultimately have found: "(s, take ?n (drop s t)) \<in> set (runs t 32 key_byte)"
    unfolding runs_exact by (intro exI [of _ ?n]) simp
  have "CHR ''_'' \<notin> set (take ?m (drop s t))"
    using all_hex by (auto simp: list_all_iff is_hexdigit_byte_def is_digit_byte_def)
  then have "find_sub (take ?n (drop s t)) ''_'' = Some ?m"
    unfolding run using room s(1) by (subst find_sub_first) simp_all
  then have "machine_key_of t (s, take ?n (drop s t)) = Some (p, take 69 (drop p t))"
    using guid s(1) by (simp add: machine_key_of_def add.commute)
  with found show ?thesis by (force simp: machine_keys_def List.map_filter_def)
qed

lemma map_filter_in_order:
  assumes "sorted_wrt R xs"
    and "\<And>x y x' y'. x \<in> set xs \<Longrightarrow> y \<in> set xs \<Longrightarrow> R x y \<Longrightarrow> f x = Some x' \<Longrightarrow> f y = Some y' \<Longrightarrow> fst x' < fst y'"
  shows "in_order (List.map_filter f xs)"
  using assms
proof (induction xs)
  case (Cons x xs)
  have "in_order (List.map_filter f xs)"
    using Cons.prems(1) by (intro Cons.IH) (simp, rule Cons.prems(2), simp_all)
  moreover have "fst x' < fst y'" if "f x = Some x'" "y' \<in> set (List.map_filter f xs)" for x' y'
  proof -
    from that(2) obtain y where y: "y \<in> set xs" "f y = Some y'" by (auto simp: List.map_filter_def)
    with Cons.prems(1) have "R x y" by simp
    from Cons.prems(2) [OF _ _ this that(1) y(2)] y(1) show ?thesis by simp
  qed
  ultimately show ?case by (auto simp: List.map_filter_simps split: option.split)
qed (simp add: List.map_filter_simps)

lemma keys_found: "machine_keys t = keys_in t"
  unfolding keys_in_def
proof (rule spots_eqI)
  have each: "fst x \<le> fst x' \<and> fst x' < fst x + length (snd x)"
    if "x \<in> set (runs t 32 key_byte)" "machine_key_of t x = Some x'" for x x'
  proof -
    obtain i v p w where x: "x = (i, v)" "x' = (p, w)" by fastforce
    with that(1) obtain n where n: "is_run t key_byte i n" "run_alone t i (i + n)" "v = take n (drop i t)"
      by (auto simp: runs_exact)
    with key_run_sound [OF n(1,2), of p w] that(2) x show ?thesis by (auto simp: is_run_def)
  qed
  have "sorted_wrt (\<lambda>a b. fst a + length (snd a) \<le> fst b) (runs t 32 key_byte)"
    using runs_from_spaced by (simp add: runs_def)
  then show "in_order (machine_keys t)"
    unfolding machine_keys_def
  proof (rule map_filter_in_order)
    fix x y x' y'
    assume "x \<in> set (runs t 32 key_byte)" "y \<in> set (runs t 32 key_byte)" "fst x + length (snd x) \<le> fst y"
      "machine_key_of t x = Some x'" "machine_key_of t y = Some y'"
    with each [of x x'] each [of y y'] show "fst x' < fst y'" by linarith
  qed
next
  fix i v
  have "key_file_name t i \<and> v = take 69 (drop i t)" if member: "(i, v) \<in> set (machine_keys t)"
  proof -
    from member obtain x where x: "x \<in> set (runs t 32 key_byte)" "machine_key_of t x = Some (i, v)"
      by (auto simp: machine_keys_def List.map_filter_def)
    obtain s w where "x = (s, w)" by fastforce
    with x(1) obtain n where "is_run t key_byte s n" "run_alone t s (s + n)" "x = (s, take n (drop s t))"
      by (auto simp: runs_exact)
    with key_run_sound x(2) show ?thesis by metis
  qed
  then show "(i, v) \<in> set (machine_keys t) \<longleftrightarrow> i < length t \<and> key_file_name t i \<and> v = take 69 (drop i t)"
    using key_run_complete [of t i] by (auto simp: key_file_name_def)
qed

section \<open>Shapes\<close>

text \<open>
  The hits of one kind of shape: all are grouped at the place of the first, the text up to and
  with the last separator before it.
\<close>

definition shape_hits :: "review_kind \<Rightarrow> string \<Rightarrow> (nat \<times> string) list \<Rightarrow> hit list" where
  "shape_hits k t found =
     map (\<lambda>(offset, v). \<lparr>ht_kind = k, ht_group = hit_location t (fst (hd found)), ht_value = v,
         ht_text = t, ht_offset = offset\<rparr>) found"

abbreviation tagged :: "review_kind \<Rightarrow> (nat \<times> string) list \<Rightarrow> (review_kind \<times> nat \<times> string) list" where
  "tagged k \<equiv> map (Pair k)"

lemma note_first_later:
  "map_of first k = Some e \<Longrightarrow> \<forall>x \<in> set xs. e \<le> fst x \<Longrightarrow>
   map_of (fold note_first (tagged k xs) first) = map_of first"
proof (induction xs arbitrary: first)
  case (Cons x xs)
  obtain i v where x: "x = (i, v)" by fastforce
  have "map_of (note_first (k, i, v) first) = map_of first"
    using Cons.prems x by (simp add: note_first_def min_absorb1 fun_upd_idem)
  with Cons.IH [of "note_first (k, i, v) first"] Cons.prems x show ?case by simp
qed simp

lemma note_first_tagged:
  assumes "in_order xs" and "map_of first k = None"
  shows "map_of (fold note_first (tagged k xs) first) =
    (if xs = [] then map_of first else (map_of first)(k \<mapsto> fst (hd xs)))"
proof (cases xs)
  case (Cons x rest)
  obtain i v where x: "x = (i, v)" by fastforce
  have "map_of (note_first (k, i, v) first) = (map_of first)(k \<mapsto> i)"
    using assms(2) by (simp add: note_first_def)
  moreover from this have "map_of (fold note_first (tagged k rest) (note_first (k, i, v) first))
      = map_of (note_first (k, i, v) first)"
    by (intro note_first_later [where e = i]) (use assms(1) Cons x in auto)
  ultimately show ?thesis by (simp add: Cons x)
qed simp

definition shapes_in :: "string \<Rightarrow> bool \<Rightarrow> hit list" where
  "shapes_in t per_user =
     shape_hits Digits t (digits_in t) @ shape_hits Hash t (hashes_in t)
     @ (if per_user then shape_hits Guid t (guids_in t) else [])"

lemma shapes_found: "shapes t lowered = shapes_in t (is_per_user lowered)"
proof -
  define guids' where "guids' = (if is_per_user lowered then guids_in t else [])"
  let ?first = "fold note_first (shape_list t lowered) []"
  have listed: "shape_list t lowered = tagged Digits (digits_in t) @ tagged Hash (hashes_in t) @ tagged Guid guids'"
    by (simp add: shape_list_def digits_found hashes_found guids_found guids'_def)
  have order: "in_order (digits_in t)" "in_order (hashes_in t)" "in_order guids'"
    by (simp_all add: digits_in_def hashes_in_def guids_in_def guids'_def spots_in_order)
  let ?one = "fold note_first (tagged Digits (digits_in t)) []"
  let ?two = "fold note_first (tagged Hash (hashes_in t)) ?one"
  have one: "map_of ?one = (if digits_in t = [] then Map.empty else [Digits \<mapsto> fst (hd (digits_in t))])"
    using note_first_tagged [OF order(1), of "[]" Digits] by simp
  then have two: "map_of ?two = (if hashes_in t = [] then map_of ?one
      else (map_of ?one)(Hash \<mapsto> fst (hd (hashes_in t))))"
    by (intro note_first_tagged [OF order(2)]) simp
  have "map_of ?first = (if guids' = [] then map_of ?two else (map_of ?two)(Guid \<mapsto> fst (hd guids')))"
    unfolding listed fold_append comp_apply by (intro note_first_tagged [OF order(3)]) (simp add: one two)
  then have places: "digits_in t = [] \<or> map_of ?first Digits = Some (fst (hd (digits_in t)))"
    "hashes_in t = [] \<or> map_of ?first Hash = Some (fst (hd (hashes_in t)))"
    "guids' = [] \<or> map_of ?first Guid = Some (fst (hd guids'))"
    by (simp_all add: one two)
  have kind: "map (\<lambda>(k, offset, v). \<lparr>ht_kind = k, ht_group = hit_location t (the (map_of ?first k)), ht_value = v,
        ht_text = t, ht_offset = offset\<rparr>) (tagged k found) = shape_hits k t found"
    if "found = [] \<or> map_of ?first k = Some (fst (hd found))" for k found
    using that by (cases "found = []") (auto simp: shape_hits_def)
  have "shapes t lowered = shape_hits Digits t (digits_in t) @ shape_hits Hash t (hashes_in t)
      @ shape_hits Guid t guids'"
    unfolding shapes_def Let_def
    by (subst (2) listed, unfold map_append)
      (simp only: kind [OF places(1)] kind [OF places(2)] kind [OF places(3)])
  then show ?thesis by (simp add: shapes_in_def guids'_def shape_hits_def)
qed

text \<open>A shape that is nowhere in a text is not listed, and one that is not listed is nowhere.\<close>

lemma spots_Nil:
  assumes "\<And>i n. P i n \<Longrightarrow> i < length t \<and> n = len i"
  shows "spots t len P = [] \<longleftrightarrow> (\<nexists>i n. P i n)"
  using assms by (force simp: spots_def filter_empty_conv)

lemma digits_in_Nil: "digits_in t = [] \<longleftrightarrow> (\<nexists>i n. lone_digits t i n)"
  unfolding digits_in_def
proof (rule spots_Nil)
  fix i n assume "lone_digits t i n"
  then have "is_run t is_digit_byte i n"
    by (intro lone_run) (auto simp: lone_digits_def min_digits_def is_ascii_alphanumeric_def)
  then show "i < length t \<and> n = run_length is_digit_byte t i"
    using run_length_is_run by (auto simp: is_run_def)
qed

lemma hashes_in_Nil: "hashes_in t = [] \<longleftrightarrow> (\<nexists>i n. lone_hash t i n)"
  unfolding hashes_in_def
proof (rule spots_Nil)
  fix i n assume "lone_hash t i n"
  then have "is_run t is_hexdigit_byte i n"
    by (intro lone_run) (auto simp: lone_hash_def min_hex_def hexdigit_alphanumeric)
  then show "i < length t \<and> n = run_length is_hexdigit_byte t i"
    using run_length_is_run by (auto simp: is_run_def)
qed

lemma guids_in_Nil: "guids_in t = [] \<longleftrightarrow> (\<nexists>i. i + 36 \<le> length t \<and> lone_guid_at t i)"
  by (auto simp: guids_in_def spots_def filter_empty_conv)

lemma keys_in_Nil: "keys_in t = [] \<longleftrightarrow> (\<nexists>i. key_file_name t i)"
  by (auto simp: keys_in_def spots_def filter_empty_conv key_file_name_def)

end
