(* ===== verification/Review_Props.thy ===== *)
theory Review_Props
  imports Review_Shapes
begin

text \<open>
  What a review promises: every finding holds exactly what was found of its kind in its place,
  and a review that lists nothing has seen every text of the document, with nothing redaction
  would change and no identifier of the shapes it knows standing on its own in any path.
\<close>

section \<open>What there is to find\<close>

text \<open>Every text of a document, with where it is and the record it belongs to.\<close>

fun texts_at :: "string \<Rightarrow> string option \<Rightarrow> json \<Rightarrow> (string \<times> string option \<times> string) list"
and items_at :: "string \<Rightarrow> string option \<Rightarrow> nat \<Rightarrow> json list \<Rightarrow> (string \<times> string option \<times> string) list"
and members_at ::
    "string \<Rightarrow> string option \<Rightarrow> (string \<times> json) list \<Rightarrow> (string \<times> string option \<times> string) list" where
  "texts_at at owner (JsonString t) = [(at, owner, t)]"
| "texts_at at owner (JsonArray items) = items_at at owner 0 items"
| "texts_at at owner (JsonObject members) = members_at at (owner_in members owner) members"
| "texts_at at owner JsonNull = []"
| "texts_at at owner (JsonBool b) = []"
| "texts_at at owner (JsonNumber n) = []"
| "items_at at owner i [] = []"
| "items_at at owner i (item # items) =
     texts_at (at_item at i) owner item @ items_at at owner (Suc i) items"
| "members_at at owner [] = []"
| "members_at at owner ((name, item) # members) =
     (at_field at name, owner, name) # texts_at (at_field at name) owner item
       @ members_at at owner members"

lemma texts_at_texts: "map (snd \<circ> snd) (texts_at at owner document) = texts_of document"
  and "map (snd \<circ> snd) (items_at at owner i items) = concat (map texts_of items)"
  and "map (snd \<circ> snd) (members_at at owner members) = concat (map (\<lambda>(k, x). k # texts_of x) members)"
  by (induction at owner document and at owner i items and at owner members
      rule: texts_at_items_at_members_at.induct) simp_all

text \<open>A text redaction changes has a placeholder to show for it.\<close>

definition accounted :: "string \<Rightarrow> string \<times> string list \<Rightarrow> bool" where
  "accounted t st \<longleftrightarrow> fst st = t \<or> (\<exists>p \<in> set (snd st). p \<noteq> [])"

lemma accounted_substitute: "accounted t st \<Longrightarrow> p \<noteq> [] \<Longrightarrow> accounted t (substitute f p st)"
  by (auto simp: accounted_def substitute_def split: option.split)

lemma placeholders: "email_placeholder \<noteq> []" "user_placeholder \<noteq> []" "host_placeholder \<noteq> []"
  "sid_placeholder \<noteq> []" "identity_sid_placeholder \<noteq> []"
  by (simp_all add: email_placeholder_def user_placeholder_def host_placeholder_def sid_placeholder_def
      identity_sid_placeholder_def)

lemma replace_sids_placeholders:
  "replace_sids t = Some (r, ps) \<Longrightarrow> \<exists>p \<in> set ps. p \<noteq> []"
  by (auto simp: replace_sids_def identifying_sids_def replace_domain_def placeholders
      split: option.splits if_splits)

lemma replace_in_hex_placeholders:
  "replace_in_hex t [] = Some (r, ps) \<Longrightarrow> \<exists>p \<in> set ps. p \<noteq> []"
  by (auto simp: replace_in_hex_def replace_sids_in_bytes_def identifying_sids_def
      replace_domain_in_bytes_def placeholders Let_def split: option.splits if_splits prod.splits)

lemma join_with_not_empty: "p \<in> set ps \<Longrightarrow> p \<noteq> [] \<Longrightarrow> join_with sep ps \<noteq> []"
  by (induction sep ps rule: join_with.induct) auto

lemma redact_text_accounted: "accounted t (redact_text_with t [])"
proof -
  let ?st = "substitute replace_user_profiles user_placeholder
    (substitute replace_emails email_placeholder (t, []))"
  let ?sids = "case replace_sids (fst ?st) of
      Some (replaced, placeholders) \<Rightarrow> (replaced, snd ?st @ placeholders) | None \<Rightarrow> ?st"
  have "accounted t ?st" by (intro accounted_substitute placeholders) (simp add: accounted_def)
  then have "accounted t ?sids"
    using replace_sids_placeholders by (fastforce simp: accounted_def split: option.split)
  then have hosts: "accounted t (substitute replace_unc_hosts host_placeholder ?sids)"
    by (intro accounted_substitute placeholders)
  show ?thesis
    unfolding redact_text_with_def Let_def fold_simps split_def
    using hosts replace_in_hex_placeholders
    by (fastforce simp: accounted_def split: option.split)
qed

text \<open>
  What there is to find in one text, in the order it is recorded: a text that redaction would
  change, the names of machine keys and the shapes position by position (\<open>Review_Shapes\<close>), a path
  some value held before.
\<close>

definition changed_by_redaction :: "review_kind \<Rightarrow> string \<Rightarrow> hit list" where
  "changed_by_redaction k t =
     (if fst (redact_text_with t []) = t then []
      else (let applied = join_with '','' (snd (redact_text_with t []))
            in [\<lparr>ht_kind = k, ht_group = applied, ht_value = applied, ht_text = t, ht_offset = 0\<rparr>]))"

definition keys_of :: "review_kind \<Rightarrow> string \<Rightarrow> hit list" where
  "keys_of k t =
     map (\<lambda>(offset, found).
       \<lparr>ht_kind = k, ht_group = found, ht_value = found, ht_text = t, ht_offset = offset\<rparr>) (keys_in t)"

definition text_hits :: "string list \<Rightarrow> string \<Rightarrow> string option \<Rightarrow> string \<Rightarrow> hit list" where
  "text_hits benign at owner t =
     (case binary_value t of
        Some bytes \<Rightarrow>
          concat (map (\<lambda>d. changed_by_redaction HexText d @ keys_of HexText d) (decodings bytes))
            @ changed_by_redaction Unredacted t
      | None \<Rightarrow>
          changed_by_redaction Unredacted t @ keys_of MachineKey t @ before_hits at owner t
            @ (if is_path_like (to_ascii_lowercase t)
                 \<and> \<not> list_ex (contains_sub (to_ascii_lowercase t)) benign
               then shapes_in t (is_per_user (to_ascii_lowercase t)) else []))"

lemma redact_hits_found: "redact_hits k t = changed_by_redaction k t"
  using redact_text_accounted [of t]
  by (auto simp: redact_hits_def changed_by_redaction_def accounted_def split_beta Let_def
      dest: join_with_not_empty)

lemma key_hits_found: "key_hits k t = keys_of k t"
  by (simp add: key_hits_def keys_of_def keys_found)

definition located_hits :: "string list \<Rightarrow> string \<times> string option \<times> string \<Rightarrow> (string \<times> hit) list" where
  "located_hits benign = (\<lambda>(at, owner, t). map (Pair at) (text_hits benign at owner t))"

definition document_hits :: "string list \<Rightarrow> json \<Rightarrow> (string \<times> hit) list" where
  "document_hits benign document = concat (map (located_hits benign) (texts_at [] None document))"




section \<open>The walk records what there is\<close>

abbreviation record_all :: "(string \<times> hit) list \<Rightarrow> review_findings \<Rightarrow> review_findings" where
  "record_all hits \<equiv> fold (\<lambda>(at, h). record_hit at h) hits"

lemma record_all_Pair: "fold (record_hit at) hs findings = record_all (map (Pair at) hs) findings"
  by (simp add: fold_map comp_def)

lemma fold_check_decoded:
  "fold (check_decoded at) ds findings =
     record_all (map (Pair at) (concat (map (\<lambda>d. changed_by_redaction HexText d @ keys_of HexText d) ds))) findings"
  by (induction ds arbitrary: findings)
    (simp_all add: check_decoded_def record_all_Pair redact_hits_found key_hits_found)

lemma check_text_records:
  "check_text benign at owner t findings = record_all (located_hits benign (at, owner, t)) findings"
  by (simp add: check_text_def located_hits_def text_hits_def Let_def fold_check_decoded record_all_Pair
      redact_hits_found key_hits_found shapes_found split: option.split)

lemma visit_records:
  "visit benign at owner document findings =
     record_all (concat (map (located_hits benign) (texts_at at owner document))) findings"
  "visit_items benign at owner i items findings =
     record_all (concat (map (located_hits benign) (items_at at owner i items))) findings"
  "visit_fields benign at owner members findings =
     record_all (concat (map (located_hits benign) (members_at at owner members))) findings"
  by (induction benign at owner document findings and benign at owner i items findings
      and benign at owner members findings rule: visit_visit_items_visit_fields.induct)
    (simp_all add: check_text_records)

lemma review_records: "review txt document = record_all (document_hits (benign_lines txt) document) []"
  by (simp add: review_def document_hits_def visit_records)





section \<open>What a review without findings means\<close>

lemma record_hit_not_empty [simp]: "record_hit at h findings \<noteq> []"
proof -
  have "btree_insert k v m \<noteq> []" for k :: review_kind and v and m :: review_findings
    by (cases m) (auto split: if_splits)
  then show ?thesis by (simp add: record_hit_def Let_def)
qed

lemma record_all_Nil [simp]: "record_all hits [] = [] \<longleftrightarrow> hits = []"
  by (induction hits rule: rev_induct) (auto simp: split_beta)

lemma clean_hits:
  assumes "review txt document = []" and "t \<in> set (texts_of document)"
  obtains at owner where "text_hits (benign_lines txt) at owner t = []"
proof -
  obtain at owner where "(at, owner, t) \<in> set (texts_at [] None document)"
    using assms(2) unfolding texts_at_texts [of "[]" None document, symmetric] by auto
  moreover have "document_hits (benign_lines txt) document = []"
    using assms(1) by (simp add: review_records)
  ultimately have "located_hits (benign_lines txt) (at, owner, t) = []"
    by (auto simp: document_hits_def)
  then show ?thesis by (intro that [of at owner]) (simp add: located_hits_def)
qed

lemma clean_text_hits:
  assumes "text_hits benign at owner t = []"
  shows "fst (redact_text_with t []) = t
    \<and> (case binary_value t of
         Some bytes \<Rightarrow>
           \<forall>d \<in> set (decodings bytes). fst (redact_text_with d []) = d \<and> (\<nexists>i. key_file_name d i)
       | None \<Rightarrow>
           (\<nexists>i. key_file_name t i)
           \<and> (is_path_like (to_ascii_lowercase t)
                \<and> \<not> list_ex (contains_sub (to_ascii_lowercase t)) benign \<longrightarrow>
              (\<nexists>i n. lone_digits t i n) \<and> (\<nexists>i n. lone_hash t i n)
              \<and> (is_per_user (to_ascii_lowercase t) \<longrightarrow> (\<nexists>i. i + 36 \<le> length t \<and> lone_guid_at t i))))"
proof -
  have changed: "changed_by_redaction k t = [] \<longleftrightarrow> fst (redact_text_with t []) = t" for k t
    by (simp add: changed_by_redaction_def Let_def)
  have keys: "keys_of k t = [] \<longleftrightarrow> (\<nexists>i. key_file_name t i)" for k t
    by (simp add: keys_of_def keys_in_Nil)
  have shapes: "shapes_in t per_user = [] \<longleftrightarrow> (\<nexists>i n. lone_digits t i n) \<and> (\<nexists>i n. lone_hash t i n)
      \<and> (per_user \<longrightarrow> (\<nexists>i. i + 36 \<le> length t \<and> lone_guid_at t i))" for per_user
    by (simp add: shapes_in_def shape_hits_def digits_in_Nil hashes_in_Nil guids_in_Nil)
  show ?thesis
  proof (cases "binary_value t")
    case None
    with assms show ?thesis
      unfolding text_hits_def
      by (cases "is_path_like (to_ascii_lowercase t) \<and> \<not> list_ex (contains_sub (to_ascii_lowercase t)) benign")
        (auto simp: changed keys shapes)
  next
    case (Some bytes)
    with assms show ?thesis
      unfolding text_hits_def by (simp add: changed keys)
  qed
qed

lemma clean_review:
  assumes "review txt document = []" and "t \<in> set (texts_of document)"
  shows "fst (redact_text_with t []) = t
    \<and> (case binary_value t of
         Some bytes \<Rightarrow>
           \<forall>d \<in> set (decodings bytes). fst (redact_text_with d []) = d \<and> (\<nexists>i. key_file_name d i)
       | None \<Rightarrow>
           (\<nexists>i. key_file_name t i)
           \<and> (is_path_like (to_ascii_lowercase t)
                \<and> \<not> list_ex (contains_sub (to_ascii_lowercase t)) (benign_lines txt) \<longrightarrow>
              (\<nexists>i n. lone_digits t i n) \<and> (\<nexists>i n. lone_hash t i n)
              \<and> (is_per_user (to_ascii_lowercase t) \<longrightarrow> (\<nexists>i. i + 36 \<le> length t \<and> lone_guid_at t i))))"
  by (rule clean_hits [OF assms]) (rule clean_text_hits)

text \<open>
  C39. A document a review finds nothing in is clean: redaction would change none of its texts,
  nor what its binary values decode to; no text that is not a binary value, and nothing a
  binary value decodes to, holds the name of a machine key, unless the hexadecimal digits it
  begins with follow a letter, a digit or an underscore; and no path, unless it holds one of the
  contexts listed as harmless, holds a long number, a hash or, for one account, a GUID on its own.
\<close>

theorem review_clean:
  assumes "review txt document = []" and "t \<in> set (texts_of document)"
  shows "fst (redact_text_with t []) = t
    \<and> (case binary_value t of
         Some bytes \<Rightarrow>
           \<forall>d \<in> set (decodings bytes). fst (redact_text_with d []) = d \<and> (\<nexists>i. key_file_name d i)
       | None \<Rightarrow>
           (\<nexists>i. key_file_name t i)
           \<and> (is_path_like (to_ascii_lowercase t)
                \<and> \<not> list_ex (contains_sub (to_ascii_lowercase t)) (benign_lines txt) \<longrightarrow>
              (\<nexists>i n. lone_digits t i n) \<and> (\<nexists>i n. lone_hash t i n)
              \<and> (is_per_user (to_ascii_lowercase t) \<longrightarrow> (\<nexists>i. i + 36 \<le> length t \<and> lone_guid_at t i))))"
  by (rule clean_review [OF assms])

definition clean_document :: json where
  "clean_document = JsonObject [(''path'', JsonString (win ''D:/Games/A''))]"

theorem review_clean_witness:
  "review [] clean_document = [] \<and> (\<nexists>i n. lone_digits (win ''D:/Games/A'') i n)"
proof -
  have clean: "review [] clean_document = []" by code_simp
  have member: "win ''D:/Games/A'' \<in> set (texts_of clean_document)" by (simp add: clean_document_def)
  have path: "binary_value (win ''D:/Games/A'') = None"
      "is_path_like (to_ascii_lowercase (win ''D:/Games/A''))" "benign_lines [] = []"
    by code_simp+
  show ?thesis using review_clean [OF clean member] clean by (simp add: path)
qed

text \<open>
  A machine key is looked for only where its run of digits begins: with an underscore before
  it, the name is not one of these, and in a context listed as harmless it is not listed at all.
\<close>

definition underscored_key :: string where
  "underscored_key =
     win ''C:/Windows/Installer/_0123456789abcdef0123456789abcdef_01234567-89ab-cdef-0123-456789abcdef''"

lemma underscored_key_missed:
  "guid_at underscored_key 55 \<and> list_all is_hexdigit_byte (take 32 (drop 22 underscored_key))
   \<and> underscored_key ! 54 = CHR ''_''
   \<and> review (win ''/windows/installer/'') (JsonString underscored_key) = []"
  by code_simp

end
