(* ===== verification/Spec2Isabelle.thy ===== *)
theory Spec2Isabelle
  imports Suggest_Props Suggest_Templates Redact_Paths Broker_Access Windows_Props Observe_Cli_Props
    Review_Props Clock Job_Props
begin

text \<open>
  WardSweep finds what anti-cheat software left on a Windows machine.  A signed catalog names
  the services, drivers, registry keys and paths of each product; the scan looks for them and
  reports what is there; a deny-list keeps everything that belongs to Windows, to a game or to
  the user out of reach.  The observation tool prepares the catalog: it takes and compares
  snapshots of a machine, masks what is personal in the result and drafts an entry from it.  The
  development covers the deny-list and the two canonical forms it decides on, the catalog and
  its checks, the audit engine and its report, the launchers' libraries, the catalog's
  signature, the observation tool from snapshots to drafts, and the broker of the split-privilege
  spike, which serves a job's events to a client over a pipe.

  How the parts interact.  A path or key of the catalog is expanded (\<open>Expand\<close>), made
  canonical (\<open>Paths\<close>, \<open>Reg_Keys\<close>) and put before the deny-list (\<open>Denylist\<close>) twice: when a
  catalog is checked, over stand-in values (\<open>Validate\<close>), and when a machine is scanned, over
  the values found there (\<open>Engine\<close>).  The values for launcher libraries come from
  \<open>Libraries\<close>.  The command line (\<open>Cli\<close>) loads a catalog through \<open>Verify\<close> and \<open>Validate\<close>, runs the
  engine and turns its report into text and a code; the catalog tool (\<open>Catalog_Tool\<close>) puts the
  same checks before a signature.  The engine reads the machine through a record of functions and writes a report
  (\<open>Scan_Model\<close>).  \<open>Verify\<close> guards the catalog's bytes before any of this.  A snapshot is taken
  by three collectors (\<open>Obs_Services\<close>, \<open>Obs_Walk\<close>, \<open>Obs_Registry\<close>, put together in \<open>Obs_Snapshot\<close>),
  the last two under the policy of what may be kept (\<open>Obs_Policy\<close>).  Two snapshots
  (\<open>Obs_Model\<close>) are compared under the same policy into a diff
  (\<open>Obs_Diff\<close>, \<open>Obs_Compare\<close>); a diff written by an older build is put under the policy again
  (\<open>Obs_Refilter\<close>); the diffs of several titles are intersected (\<open>Obs_Intersect\<close>), which uses
  \<open>Libraries\<close> for the libraries they share.  A diff is redacted before it leaves the machine
  (\<open>Redact\<close>), and a catalog entry is drafted from it (\<open>Suggest\<close>): the draft is put before the
  same deny-list as a loaded catalog, with the exceptions its own fields unlock, and its
  templates are those \<open>Expand\<close> reads.  \<open>Observe_Cli\<close> is the tool that does all of this on files.
  The broker (\<open>Broker\<close>) admits a client (\<open>Client_Check\<close>),
  reads its commands as frames (\<open>Wire\<close>), starts a job (\<open>Job\<close>) and streams the job's log to
  whoever asks from whatever number.

  \<^bold>\<open>Theories and code.\<close>

  \<^item> \<open>Prelude\<close>: the result of a computation that may panic, \<open>run\<close>, with its bind, and the
    lemmas on lists, sums and runs the components share.

  \<^item> \<open>Rust_Str\<close>: the operations of the Rust standard library on strings the code uses:
    split, trim, prefixes, ASCII case, character boundaries, decimal printing.  A string is
    the list of its UTF-8 bytes.  The locale \<open>case_fold\<close> states what a case folding is, and
    is interpreted by ASCII upper and lower case.

  \<^item> \<open>Paths\<close> and \<open>Reg_Keys\<close> (\<^verbatim>\<open>safety/paths.rs\<close>): \<open>canonicalise_syntactic\<close>,
    \<open>canonicalise_resolved\<close>, \<open>canonicalise_reg_key\<close>.  Lemmas: canonical values are well formed,
    reading is insensitive to case and separators, reading back a rendering gives the value,
    and which inputs panic.

  \<^item> \<open>Deny_Tables\<close> and \<open>Denylist\<close> (\<^verbatim>\<open>safety/denylist.rs\<close>): the tables and the carve-outs;
    \<open>check_path\<close> and \<open>check_registry_key\<close>.  Lemmas: the exact set of paths let through, what
    the carve-outs admit, closure of refused subtrees, the 32-bit and per-user views of the
    registry.  The locale \<open>deny_gate\<close> states the contract of a check and is interpreted by
    the path check, the path check on disk and the key check.

  \<^item> \<open>Expand\<close> (\<^verbatim>\<open>catalog/expand.rs\<close>): \<open>expand_with\<close> as the loop of the source, equal to a
    parse followed by an ordered product.

  \<^item> \<open>Schema\<close> and \<open>Validate\<close> (\<^verbatim>\<open>catalog/schema.rs\<close>, \<^verbatim>\<open>catalog/validate.rs\<close>): the catalog's
    records; \<open>validate\<close>, \<open>check_denylist\<close>, \<open>check_refs\<close>, \<open>audit_shared\<close>.  Lemmas: each check
    reports nothing exactly when its specification holds, and what an accepted catalog
    cannot reach.

  \<^item> \<open>Scan_Model\<close>, \<open>Engine\<close>, \<open>Audit_Report\<close> (\<^verbatim>\<open>scan/model.rs\<close>, \<^verbatim>\<open>scan/view.rs\<close>, \<^verbatim>\<open>scan/engine.rs\<close>):
    the report and its text; the audit, one definition per handler over an explicit state
    (\<open>audit_state\<close>: what the entry found so far, and the report); and what an audit
    guarantees.  \<open>present\<close> is what the machine shows of an entry's services, registered
    drivers, keys and paths: every finding is present and allowed, everything present is found,
    a verdict comes from the signature of the very file the finding names, a scan that was
    refused a look is partial, and an audit of ASCII keys and paths returns.  \<open>Panics\<close> holds what
    is shared of the last point: on ASCII text no slice falls inside a character.

  \<^item> \<open>Libraries\<close> (\<^verbatim>\<open>scan/libraries.rs\<close>): the tokeniser and parser of Steam's list of
    libraries, Epic's manifests, merging and intersecting lists.  The code's parser recurses
    on nested blocks with no limit on depth; the model is a function whose termination is
    proved on the tokens left.

  \<^item> \<open>Verify\<close> (\<^verbatim>\<open>catalog/verify.rs\<close>): key and signature parsing and \<open>verify_detached\<close>.

  \<^item> \<open>Catalog_Load\<close>, \<open>Cli\<close> (\<^verbatim>\<open>catalog/mod.rs\<close>, \<^verbatim>\<open>cli/src/bin/wardsweep.rs\<close>) and \<open>Catalog_Tool\<close>
    (\<^verbatim>\<open>tools/catalog/src/main.rs\<close>): the programs from parsed arguments to exit code and
    output, composed of the parts above.  \<open>Cli_Props\<close>: what an exit code rests on, that
    nothing found means that the machine shows none of a catalog's artifacts, that a catalog which
    is missing, unsigned or wrongly signed is not used, the order of versions,
    and that what the tool signs is what the command line loads.

  \<^item> \<open>Utf16\<close>: UTF-8 and UTF-16 as the standard library reads and writes them, and the wide
    strings the code exchanges with Windows, which round trip.

  \<^item> \<open>Windows\<close>, \<open>Windows_Props\<close> (\<^verbatim>\<open>scan/win.rs\<close>): the machine view and the environment of a real
    scan over the answers of the Win32 calls, the record \<open>win32\<close> (services, registry, files and
    \<open>WinVerifyTrust\<close>, which may answer differently when asked twice).  Lemmas: what is called
    absent, what a listing keeps, what a verified signature rests on, and, through \<open>Cli\<close>, that
    a scan that was denied a look says that it is partial.

  \<^item> \<open>Ordered_Map\<close>: \<open>BTreeMap\<close> as a list of entries with ascending keys, the index of a list
    of records, the join of two indexes, counting.  The locale \<open>keyed_map\<close> states what an
    insertion promises and is interpreted by \<open>btree_insert\<close>.

  \<^item> \<open>Obs_Model\<close>, \<open>Obs_Policy\<close> (\<^verbatim>\<open>model.rs\<close>, \<^verbatim>\<open>policy.rs\<close>, the exclusions of
    \<^verbatim>\<open>collect/filesystem.rs\<close>): snapshots and coverage; what may not be kept of a registry
    record, a key, a path.  Lemmas: what \<open>admit\<close> keeps, exclusion is closed downwards.

  \<^item> \<open>Topmost\<close>: the two algorithms both walks share.  The locale \<open>ancestry\<close> is the marking of
    everything above what is not empty, and \<open>worklist\<close> a loop over places still to visit, with
    what it has seen when it ends and that it ends where no descent is endless.

  \<^item> \<open>Obs_Walk\<close>, \<open>Obs_Walk_Props\<close> (\<^verbatim>\<open>collect/filesystem.rs\<close>, the roots of \<^verbatim>\<open>collect/mod.rs\<close>): the walk
    of the folders over a record of the disk's answers.  Lemmas: the files recorded are exactly
    those that can be reached, and a folder reported as empty showed nothing, wherever the walk
    looked below it.  \<open>Obs_Registry\<close>, \<open>Obs_Registry_Props\<close> (\<^verbatim>\<open>collect/registry.rs\<close>): the same of
    the registry, in both views, with the values as they are rendered, refused or kept.

  \<^item> \<open>Obs_Services\<close>, \<open>Obs_Services_Props\<close> (\<^verbatim>\<open>collect/services.rs\<close>, \<^verbatim>\<open>collect/boot.rs\<close>): the list of
    services, read in as many calls as it takes, and the configuration of each.  Lemmas: every
    name told is accounted for, and the text of a type keeps all its bits.

  \<^item> \<open>Obs_Snapshot\<close>, \<open>Obs_Snapshot_Props\<close> (\<^verbatim>\<open>collect/mod.rs\<close>): a snapshot of the domains asked for.
    Lemmas: its coverage says what it holds, and a comparison has nothing to remove from it.

  \<^item> \<open>Observe_Cli\<close>, \<open>Observe_Cli_Props\<close> (\<^verbatim>\<open>main.rs\<close> of the tool): every command from its arguments
    to its exit code, what it prints and the file it writes, or leaves when a write fails.  Lemmas:
    every command ends, complete or failed; every diff it writes obeys the policy; a redaction
    that succeeds left no name.

  \<^item> \<open>Obs_Diff\<close>, \<open>Obs_Compare\<close> (\<^verbatim>\<open>diff.rs\<close>): the diff, the noise filters, the comparison of
    services, files and registry, \<open>compare\<close> and \<open>reversed\<close>.  Lemmas: what each comparison
    reports, in terms of the records at one identity; nothing refused is kept; a diff read
    backwards is the diff of the snapshots exchanged.

  \<^item> \<open>Obs_Refilter\<close> (\<^verbatim>\<open>diff.rs\<close>): \<open>refilter\<close>; it is idempotent, and its result is private.

  \<^item> \<open>Obs_Intersect\<close> (\<^verbatim>\<open>intersect.rs\<close>): which lists of footprints are accepted, and that an
    artifact is in the intersection exactly when every footprint holds it.  \<open>Obs_Told\<close>: what a
    change prints beside its records, its key, fields and path, is told by records the policy
    admits, but for a change that refiltering leaves as it was read.

  \<^item> \<open>Json\<close> and \<open>Scan_Str\<close>: JSON values as \<^verbatim>\<open>serde_json\<close> holds them, and the searches of the
    standard library over a text (\<open>match_indices\<close>, ASCII classes).

  \<^item> \<open>Redact\<close>, \<open>Redact_Props\<close>, \<open>Redact_Texts\<close>, \<open>Redact_Paths\<close> (\<^verbatim>\<open>redact.rs\<close>): the passes over
    a text (names, profiles, SIDs, e-mail addresses, hosts) and over binary values written as
    hex, the walk of a document and the audit of what is left.  Lemmas: no name is left
    unreported, the shape is kept, each pass leaves nothing it looks for.  The locale \<open>mark\<close> is
    a pass over identifiers after a prefix, interpreted by both kinds of SID.

  \<^item> \<open>Review\<close>, \<open>Review_Shapes\<close>, \<open>Review_Props\<close> (\<^verbatim>\<open>review.rs\<close>): the walk that lists what in a diff
    looks like an identifier, with the shapes it looks for and the grouping of what it finds.
    \<open>Review_Shapes\<close> says of each shape, position by position, which runs of digits and of
    hexadecimal digits, which GUIDs and which machine-key names a text holds.  Lemmas: what is
    listed is exactly what these say is there, and what a review that lists nothing means.

  \<^item> \<open>Clock\<close> (\<^verbatim>\<open>clock.rs\<close>): timestamps; the arithmetic is the Gregorian calendar.

  \<^item> \<open>Suggest_Text\<close>, \<open>Suggest_Claims\<close>, \<open>Suggest\<close> (\<^verbatim>\<open>suggest.rs\<close>): readings of paths and names,
    what attributes an artifact to a publisher, and the draft with its notes: \<open>weigh\<close> is the
    evidence, \<open>draft_from\<close> the entry and the notes.  \<open>Suggest_Props\<close>: everything listed passes
    the deny-list, nothing found is dropped in silence, and where the code falls short.
    \<open>Suggest_Templates\<close>: a template expands to its path, where what is copied has no percent sign.
    \<open>Suggest_Returns\<close>: a draft of ASCII paths and keys returns.

  \<^item> \<open>Wire\<close> (\<^verbatim>\<open>proto.rs\<close>, \<^verbatim>\<open>pipe.rs\<close> of the broker spike): the frame format and the loop that
    reads one from a message-mode pipe, over the outcomes of its reads.  Lemmas: a frame is
    read back, however the pipe splits it, and the bound on what a peer can make the reader hold
    at any moment.

  \<^item> \<open>Std_Path\<close>, \<open>Client_Check\<close> (\<^verbatim>\<open>client_check.rs\<close>, \<^verbatim>\<open>pipe.rs\<close>, \<open>admit\<close> of \<^verbatim>\<open>main.rs\<close>,
    \<^verbatim>\<open>facts.rs\<close>): \<open>Path::parent\<close> as the standard library has it on Windows; which clients are
    served, and the verdict on the descriptor of the pipe.

  \<^item> \<open>Job\<close>, \<open>Job_Props\<close> (\<^verbatim>\<open>job.rs\<close>, \<^verbatim>\<open>state.rs\<close>): the job's thread as a machine of one action at
    a time (\<open>job_step\<close>, with its place in \<open>job_pc\<close>), its log, and the rows it keeps.  Lemmas:
    the log follows one numbered script, the job ends, the resume point in the database is
    never ahead of a fresh log, and when it is.

  \<^item> \<open>Broker\<close>, \<open>Broker_Props\<close>, \<open>Broker_Access\<close> (\<^verbatim>\<open>main.rs\<close>): the server and the job interleaved, as labelled steps
    (\<open>broker_next\<close>) from a state to the next; \<open>reachable\<close> states and an invariant of them
    (\<open>sound\<close>).  Lemmas: a stream is a segment of the script, it is a refinement of a feed that
    hands over one event after the other, it ends, reconnecting loses nothing, the job goes
    on whatever clients do, what is written is well formed, and only the owner's own client is
    served unless verification is switched off.

  \<^bold>\<open>Parameters.\<close>  Code outside the repository is an argument: the machine view (Win32), the
  file system, the JSON reader and writer, hexadecimal decoding and the Ed25519 check.  What
  a theorem relies on about them is a hypothesis of it.

  \<^bold>\<open>Bounds.\<close>  No fuel is used: every loop is structural or has a termination proof, except the
  two walks of the collectors (\<open>walk_loop\<close>, \<open>key_loop\<close>), which a disk or a registry that nests
  without end keeps going: they are partial functions that return nothing then, and are proved
  to return otherwise.  The hundred calls of \<open>enumerate_from\<close> are the code's own bound.  Two paths
  of the walk are the same when their texts are.  Lists and
  strings are not bounded by the machine's memory, and the counts of a diff, \<open>usize\<close> in the
  code, are natural numbers; file sizes, boot times, lengths and sequence numbers on the wire
  are words of their width.

  \<^bold>\<open>Panics.\<close>  A slice of a string off a character boundary panics in Rust; the model keeps
  this as a value, \<open>Panic\<close>, from \<open>strip_prefix_ci\<close> and \<open>service_key_leaf\<close> up through the
  checks and the audit.  \<open>Paths.canonicalise_panics\<close> and \<open>Denylist.key_check_panics\<close> say when
  it happens.

  \<^bold>\<open>Not modelled.\<close>  What the Win32 calls do behind their answers, the extraction of a
  signer's name from a certificate (\<^verbatim>\<open>scan/win.rs\<close>), reading a file to hash it
  (\<^verbatim>\<open>collect/filesystem.rs\<close>), the creation of the pipe, the tokens, the clock and the two probes of
  the broker spike, argument parsing, TOML and JSON parsing, and the user interface.
\<close>

end
